(* ===== verification/Prelude.thy ===== *)
theory Prelude
  imports Main "HOL-Library.Word" "HOL-Library.List_Lexorder" "HOL-Library.Char_ord"
begin

text \<open>
  Shared vocabulary of the development: the machine types of the C++ code, the fact
  collections the component theories fill, and the generic lemmas that several components use.

  A \<open>QString\<close> is a \<^typ>\<open>string\<close>, a \<open>QByteArray\<close> a list of bytes, and a C++ \<open>int\<close>, \<open>quint16\<close>
  or \<open>quint32\<close> that travels on the wire a word of its width (signed values are read with
  \<^const>\<open>sint\<close>). A \<open>QMap\<close> or \<open>QHash\<close> whose order is observable is an association list; where
  only lookups matter it is a partial map.
\<close>

type_synonym byte = "8 word"
type_synonym bytes = "byte list"
type_synonym u16 = "16 word"
type_synonym u32 = "32 word"
type_synonym int32 = "32 word"

named_theorems wf_pres \<open>operations preserve their component's invariant\<close>
named_theorems frame_simps \<open>what an operation leaves unchanged\<close>

subsection \<open>Machine integers\<close>

lemma unat_of_nat_u32: "n < 2 ^ 32 \<Longrightarrow> unat (of_nat n :: u32) = n"
  by (simp add: unat_of_nat take_bit_nat_eq_self_iff)

lemma unat_lt_u32: "unat (w :: u32) < 2 ^ 32"
  using unsigned_less[of w] by simp

subsection \<open>Lists and options\<close>

lemma option_eq_by_Some: "(\<And>v. x = Some v \<longleftrightarrow> y = Some v) \<Longrightarrow> x = y"
  by (metis not_Some_eq option.collapse)

lemma append_prefix:
  assumes "xs @ ys = f @ rest" and "length f \<le> length xs"
  obtains r where "xs = f @ r" and "r @ ys = rest"
proof
  have "take (length f) (xs @ ys) = f" and "drop (length f) (xs @ ys) = rest"
    using assms(1) by simp_all
  then have "take (length f) xs = f" and rest: "drop (length f) xs @ ys = rest"
    using assms(2) by simp_all
  then show "xs = f @ drop (length f) xs" by (metis append_take_drop_id)
  show "drop (length f) xs @ ys = rest" by (rule rest)
qed


subsection \<open>Ordered maps\<close>

text \<open>
  A \<open>QMap\<close>: an association list in the order of its keys, which is the order it is iterated in.
\<close>

type_synonym ('k, 'v) qmap = "('k \<times> 'v) list"

fun qmap_insert :: "'k::linorder \<Rightarrow> 'v \<Rightarrow> ('k, 'v) qmap \<Rightarrow> ('k, 'v) qmap" where
  "qmap_insert k v [] = [(k, v)]"
| "qmap_insert k v ((k', v') # m) =
     (if k < k' then (k, v) # (k', v') # m
      else if k = k' then (k, v) # m
      else (k', v') # qmap_insert k v m)"

definition qmap_remove :: "'k \<Rightarrow> ('k, 'v) qmap \<Rightarrow> ('k, 'v) qmap" where
  "qmap_remove k m = filter (\<lambda>e. fst e \<noteq> k) m"

definition qmap_ok :: "('k::linorder, 'v) qmap \<Rightarrow> bool" where
  "qmap_ok m \<longleftrightarrow> sorted_wrt (<) (map fst m)"

lemma qmap_insert_keys: "fst ` set (qmap_insert k v m) = insert k (fst ` set m)"
  by (induction k v m rule: qmap_insert.induct) auto

lemma qmap_insert_ok [wf_pres]: "qmap_ok m \<Longrightarrow> qmap_ok (qmap_insert k v m)"
  unfolding qmap_ok_def
proof (induction k v m rule: qmap_insert.induct)
  case (2 k v k' v' m)
  then show ?case using qmap_insert_keys[of k v m] by auto
qed simp

lemma qmap_remove_ok [wf_pres]: "qmap_ok m \<Longrightarrow> qmap_ok (qmap_remove k m)"
  unfolding qmap_ok_def qmap_remove_def by (induction m) auto

lemma map_of_qmap_insert: "qmap_ok m \<Longrightarrow> map_of (qmap_insert k v m) = (map_of m)(k \<mapsto> v)"
  unfolding qmap_ok_def
proof (induction k v m rule: qmap_insert.induct)
  case (2 k v k' v' m)
  then show ?case
    by (auto simp: fun_eq_iff map_of_eq_None_iff)
qed simp

lemma map_of_qmap_remove [simp]: "map_of (qmap_remove k m) = (map_of m)(k := None)"
  unfolding qmap_remove_def by (induction m) auto

lemma qmap_ok_distinct: "qmap_ok m \<Longrightarrow> distinct (map fst m)"
  unfolding qmap_ok_def by (induction m) auto

lemma qmap_ok_Nil [simp]: "qmap_ok []"
  by (simp add: qmap_ok_def)

end
