(* ===== verification/Stream.thy ===== *)
theory Stream
  imports Prelude
begin

text \<open>
  The primitives of Qt's \<open>QDataStream\<close> that QtRO calls. \<open>QDataStream\<close> is not part of this
  repository, so it is a parameter: a record of writers and readers, and the locale
  \<open>qdata_stream\<close> names the documented behaviour the code relies on (what one end wrote the other
  end reads back, and the two fixed-width integers take two and four bytes). Readers are total:
  on short input the real reader sets a status flag that QtRO never looks at and leaves some
  value behind, and here it returns some value too.

  Variants are an opaque type \<^typ>\<open>'v\<close>; \<open>streamable\<close> holds for those whose type has stream
  operators. The containers QtRO streams (\<open>QList<T>\<close>) follow Qt's template: a \<open>quint32\<close> count and
  then the elements.
\<close>

record 'v qstream =
  put_u16 :: "u16 \<Rightarrow> bytes"
  get_u16 :: "bytes \<Rightarrow> u16 \<times> bytes"
  put_u32 :: "u32 \<Rightarrow> bytes"
  get_u32 :: "bytes \<Rightarrow> u32 \<times> bytes"
  put_bool :: "bool \<Rightarrow> bytes"
  get_bool :: "bytes \<Rightarrow> bool \<times> bytes"
  put_str :: "string \<Rightarrow> bytes"
  get_str :: "bytes \<Rightarrow> string \<times> bytes"
  put_bytes :: "bytes \<Rightarrow> bytes"
  get_bytes :: "bytes \<Rightarrow> bytes \<times> bytes"
  put_var :: "'v \<Rightarrow> bytes"
  get_var :: "bytes \<Rightarrow> 'v \<times> bytes"
  streamable :: "'v \<Rightarrow> bool"

text \<open>Strings and byte arrays carry their length as a \<open>quint32\<close>, which bounds them.\<close>

definition str_fits :: "string \<Rightarrow> bool" where
  "str_fits s \<longleftrightarrow> 2 * length s < 2 ^ 32 - 1"

definition bytes_fit :: "bytes \<Rightarrow> bool" where
  "bytes_fit b \<longleftrightarrow> length b < 2 ^ 32 - 1"

locale qdata_stream =
  fixes S :: "'v qstream"
  assumes u16_rt: "get_u16 S (put_u16 S w @ r) = (w, r)"
    and u32_rt: "get_u32 S (put_u32 S x @ r) = (x, r)"
    and bool_rt: "get_bool S (put_bool S b @ r) = (b, r)"
    and str_rt: "str_fits s \<Longrightarrow> get_str S (put_str S s @ r) = (s, r)"
    and bytes_rt: "bytes_fit bs \<Longrightarrow> get_bytes S (put_bytes S bs @ r) = (bs, r)"
    and var_rt: "streamable S v \<Longrightarrow> get_var S (put_var S v @ r) = (v, r)"
    and u16_len: "length (put_u16 S w) = 2"
    and u32_len: "length (put_u32 S x) = 4"
    and u32_consumes: "4 \<le> length i \<Longrightarrow> length (snd (get_u32 S i)) = length i - 4"
    and u16_shrinks: "length (snd (get_u16 S i)) \<le> length i"
    and u32_shrinks: "length (snd (get_u32 S i)) \<le> length i"
    and bool_shrinks: "length (snd (get_bool S i)) \<le> length i"
    and str_shrinks: "length (snd (get_str S i)) \<le> length i"
    and bytes_shrinks: "length (snd (get_bytes S i)) \<le> length i"
    and var_shrinks: "length (snd (get_var S i)) \<le> length i"
    and var_nonempty: "streamable S v \<Longrightarrow> put_var S v \<noteq> []"
begin

lemmas roundtrips = u16_rt u32_rt bool_rt str_rt bytes_rt var_rt
lemmas shrinks = u16_shrinks u32_shrinks bool_shrinks str_shrinks bytes_shrinks var_shrinks

lemma u32_rt0: "get_u32 S (put_u32 S x) = (x, [])"
  using u32_rt[of x "[]"] by simp

end

subsection \<open>Streaming a list: Qt's \<open>QList\<close> template\<close>

fun put_elems :: "('a \<Rightarrow> bytes) \<Rightarrow> 'a list \<Rightarrow> bytes" where
  "put_elems p [] = []"
| "put_elems p (x # xs) = p x @ put_elems p xs"

fun get_elems :: "(bytes \<Rightarrow> 'a \<times> bytes) \<Rightarrow> nat \<Rightarrow> bytes \<Rightarrow> 'a list \<times> bytes" where
  "get_elems g 0 i = ([], i)"
| "get_elems g (Suc n) i =
     (let (x, i1) = g i; (xs, i2) = get_elems g n i1 in (x # xs, i2))"

definition put_list :: "'v qstream \<Rightarrow> ('a \<Rightarrow> bytes) \<Rightarrow> 'a list \<Rightarrow> bytes" where
  "put_list S p xs = put_u32 S (of_nat (length xs)) @ put_elems p xs"

definition get_list :: "'v qstream \<Rightarrow> (bytes \<Rightarrow> 'a \<times> bytes) \<Rightarrow> bytes \<Rightarrow> 'a list \<times> bytes" where
  "get_list S g i = (let (n, i1) = get_u32 S i in get_elems g (unat n) i1)"

definition list_fits :: "'a list \<Rightarrow> bool" where
  "list_fits xs \<longleftrightarrow> length xs < 2 ^ 32"

lemma get_put_elems:
  assumes "\<And>x r. x \<in> set xs \<Longrightarrow> g (p x @ r) = (x, r)"
  shows "get_elems g (length xs) (put_elems p xs @ r) = (xs, r)"
  using assms by (induction xs) auto

lemma put_elems_append: "put_elems p (xs @ ys) = put_elems p xs @ put_elems p ys"
  by (induction xs) auto

lemma get_elems_shrinks:
  assumes "\<And>i. length (snd (g i)) \<le> length i"
  shows "length (snd (get_elems g n i)) \<le> length i"
proof (induction n arbitrary: i)
  case 0
  then show ?case by simp
next
  case (Suc n)
  have "length (snd (get_elems g n (snd (g i)))) \<le> length i"
    using Suc[of "snd (g i)"] assms[of i] by linarith
  then show ?case by (simp add: Let_def split_beta)
qed

text \<open>
  A type that can be streamed both ways: the contract between every \<open>operator<<\<close> and its
  \<open>operator>>\<close>, on the values that fit.
\<close>

locale serialisable =
  fixes put :: "'a \<Rightarrow> bytes" and get :: "bytes \<Rightarrow> 'a \<times> bytes" and fits :: "'a \<Rightarrow> bool"
  assumes get_put: "fits x \<Longrightarrow> get (put x @ r) = (x, r)"
    and get_shrinks: "length (snd (get i)) \<le> length i"
begin

lemma put_inj: "fits x \<Longrightarrow> fits y \<Longrightarrow> put x @ r = put y @ r' \<Longrightarrow> x = y \<and> r = r'"
  by (metis get_put prod.inject)

lemma elems_rt: "list_all fits xs \<Longrightarrow> get_elems get (length xs) (put_elems put xs @ r) = (xs, r)"
  by (rule get_put_elems) (simp add: list_all_iff get_put)

end

context qdata_stream
begin

lemma get_put_list:
  assumes "list_fits xs" and "\<And>x r. x \<in> set xs \<Longrightarrow> g (p x @ r) = (x, r)"
  shows "get_list S g (put_list S p xs @ r) = (xs, r)"
  using assms get_put_elems[of xs g p r]
  by (simp add: put_list_def get_list_def u32_rt list_fits_def unat_of_nat_u32)

lemma get_list_shrinks:
  assumes "\<And>i. length (snd (g i)) \<le> length i"
  shows "length (snd (get_list S g i)) \<le> length i"
  using get_elems_shrinks[OF assms, of "unat (fst (get_u32 S i))" "snd (get_u32 S i)"]
    u32_shrinks[of i]
  by (simp add: get_list_def Let_def split_beta)

lemma serialisable_list:
  fixes p :: "'b \<Rightarrow> bytes"
  assumes "serialisable p g f"
  shows "serialisable (put_list S p) (get_list S g) (\<lambda>xs. list_fits xs \<and> list_all f xs)"
proof
  fix xs :: "'b list" and r
  assume "list_fits xs \<and> list_all f xs"
  then show "get_list S g (put_list S p xs @ r) = (xs, r)"
    using serialisable.get_put[OF assms] by (intro get_put_list) (auto simp: list_all_iff)
next
  fix i
  show "length (snd (get_list S g i)) \<le> length i"
    using serialisable.get_shrinks[OF assms] by (rule get_list_shrinks)
qed

end

end
