(* ===== verification/Packet.thy ===== *)
theory Packet
  imports Stream
begin

text \<open>
  The wire format: \<open>qremoteobjectpacket_p.h\<close> and \<open>qremoteobjectpacket.cpp\<close> (the
  \<open>DataStreamPacket\<close> buffer that frames packets and the \<open>QDataStreamCodec\<close> writers and readers)
  and \<open>fromDataStream\<close>/\<open>QtROIoDeviceBase::read\<close> of \<open>qconnectionfactories.cpp\<close>, which cut
  the byte stream of a connection back into packets.
\<close>

subsection \<open>Packet types\<close>

datatype packet_type =
    Invalid | Handshake | InitPacket | InitDynamicPacket | AddObject | RemoveObject
  | InvokePacket | InvokeReplyPacket | PropertyChangePacket | ObjectList | Ping | Pong

fun packet_id :: "packet_type \<Rightarrow> u16" where
  "packet_id Invalid = 0"
| "packet_id Handshake = 1"
| "packet_id InitPacket = 2"
| "packet_id InitDynamicPacket = 3"
| "packet_id AddObject = 4"
| "packet_id RemoveObject = 5"
| "packet_id InvokePacket = 6"
| "packet_id InvokeReplyPacket = 7"
| "packet_id PropertyChangePacket = 8"
| "packet_id ObjectList = 9"
| "packet_id Ping = 10"
| "packet_id Pong = 11"

text \<open>The \<open>switch\<close> of \<open>fromDataStream\<close>: any other number is \<open>Invalid\<close>.\<close>

definition packet_type_of :: "u16 \<Rightarrow> packet_type" where
  "packet_type_of w =
    (if w = 1 then Handshake else if w = 2 then InitPacket else if w = 3 then InitDynamicPacket
     else if w = 4 then AddObject else if w = 5 then RemoveObject else if w = 6 then InvokePacket
     else if w = 7 then InvokeReplyPacket else if w = 8 then PropertyChangePacket
     else if w = 9 then ObjectList else if w = 10 then Ping else if w = 11 then Pong
     else Invalid)"

lemma packet_type_of_id [simp]: "packet_type_of (packet_id t) = t"
  by (cases t) (simp_all add: packet_type_of_def)

subsection \<open>The packet buffer\<close>

text \<open>
  \<open>DataStreamPacket\<close> is a data stream over its own byte array (a \<open>QBuffer\<close>): \<open>bufpos\<close> is the
  device position, \<open>baseAddress\<close> where the packet being written starts, \<open>psize\<close> the end of the
  last finished packet. Writing at a position overwrites what is there and extends the array.
\<close>

record dspacket =
  barray :: bytes
  bufpos :: nat
  baseAddress :: nat
  psize :: nat

definition buf_put :: "bytes \<Rightarrow> dspacket \<Rightarrow> dspacket" where
  "buf_put bs d =
    (let a = barray d @ replicate (bufpos d - length (barray d)) 0
     in d\<lparr>barray := take (bufpos d) a @ bs @ drop (bufpos d + length bs) a,
          bufpos := bufpos d + length bs\<rparr>)"

definition buf_seek :: "nat \<Rightarrow> dspacket \<Rightarrow> dspacket" where
  "buf_seek p d = d\<lparr>bufpos := p\<rparr>"

definition dsp_new :: "'v qstream \<Rightarrow> u16 \<Rightarrow> dspacket" where
  "dsp_new S i =
    buf_put (put_u16 S i) (buf_put (put_u32 S 0)
      \<lparr>barray = [], bufpos = 0, baseAddress = 0, psize = 0\<rparr>)"

definition setId :: "'v qstream \<Rightarrow> u16 \<Rightarrow> dspacket \<Rightarrow> dspacket" where
  "setId S i d = buf_put (put_u16 S i) (buf_put (put_u32 S 0) (buf_seek (baseAddress d) d))"

definition finishPacket :: "'v qstream \<Rightarrow> dspacket \<Rightarrow> dspacket" where
  "finishPacket S d =
    (let n = bufpos d;
         d1 = buf_seek (baseAddress d) (d\<lparr>psize := n\<rparr>);
         d2 = buf_put (put_u32 S (word_of_nat (n - baseAddress d - 4))) d1
     in d2\<lparr>baseAddress := n\<rparr>)"

definition payload :: "dspacket \<Rightarrow> bytes \<times> dspacket" where
  "payload d =
    (let a = take (psize d) (barray d @ replicate (psize d - length (barray d)) 0)
     in (a, d\<lparr>barray := a\<rparr>))"

definition dsp_reset :: "dspacket \<Rightarrow> dspacket" where
  "dsp_reset d = d\<lparr>baseAddress := 0, psize := 0, barray := []\<rparr>"

text \<open>Between packets everything up to \<open>psize\<close> is finished packets and the next one starts there.\<close>

definition dsp_idle :: "dspacket \<Rightarrow> bool" where
  "dsp_idle d \<longleftrightarrow> baseAddress d = psize d \<and> psize d \<le> length (barray d)"

definition finished :: "dspacket \<Rightarrow> bytes" where
  "finished d = take (psize d) (barray d)"

definition frame :: "'v qstream \<Rightarrow> u16 \<Rightarrow> bytes \<Rightarrow> bytes" where
  "frame S i body = put_u32 S (word_of_nat (2 + length body)) @ put_u16 S i @ body"

lemma payload_idle: "dsp_idle d \<Longrightarrow> fst (payload d) = finished d"
  by (simp add: payload_def finished_def dsp_idle_def Let_def)

lemma buf_put_inside:
  "bufpos d \<le> length (barray d) \<Longrightarrow>
     buf_put bs d = d\<lparr>barray := take (bufpos d) (barray d) @ bs @ drop (bufpos d + length bs) (barray d),
                      bufpos := bufpos d + length bs\<rparr>"
  by (simp add: buf_put_def Let_def)

lemma buf_put_append:
  "bufpos d \<le> length (barray d) \<Longrightarrow> buf_put ys (buf_put xs d) = buf_put (xs @ ys) d"
  by (simp add: buf_put_inside ac_simps)

lemma buf_put_Nil [simp]: "bufpos d \<le> length (barray d) \<Longrightarrow> buf_put [] d = d"
  by (simp add: buf_put_inside)

lemma buf_put_pos: "bufpos d \<le> length (barray d) \<Longrightarrow> bufpos (buf_put xs d) \<le> length (barray (buf_put xs d))"
  by (simp add: buf_put_inside)

lemma setId_pos: "dsp_idle d \<Longrightarrow> bufpos (setId S i d) \<le> length (barray (setId S i d))"
  by (simp add: setId_def buf_put_pos buf_seek_def dsp_idle_def)

text \<open>
  One packet: whatever was left in the array behind the finished packets is overwritten or cut
  off by \<open>payload\<close>, and the length field is patched over its placeholder.
\<close>

context qdata_stream
begin

lemma packet_finished:
  assumes "dsp_idle d"
  shows "dsp_idle (finishPacket S (buf_put body (setId S i d)))"
    and "finished (finishPacket S (buf_put body (setId S i d))) = finished d @ frame S i body"
proof -
  let ?z = "put_u32 S 0" and ?n = "put_u32 S (word_of_nat (2 + length body))"
  let ?a = "take (psize d) (barray d)"
  have base: "baseAddress d = psize d" and le: "psize d \<le> length (barray d)"
    using assms by (auto simp: dsp_idle_def)
  have len: "length ?z = 4" "length ?n = 4" "length (put_u16 S i) = 2"
    by (rule u32_len, rule u32_len, rule u16_len)
  have w: "buf_put body (setId S i d) =
      buf_put (?z @ put_u16 S i @ body) (buf_seek (psize d) d)"
    using le by (simp add: setId_def base buf_put_append buf_seek_def)
  have "finishPacket S (buf_put body (setId S i d)) =
      d\<lparr>barray := ?a @ ?n @ put_u16 S i @ body @ drop (psize d + (6 + length body)) (barray d),
        bufpos := psize d + 4, baseAddress := psize d + (6 + length body),
        psize := psize d + (6 + length body)\<rparr>"
    unfolding w
    using le by (simp add: finishPacket_def buf_seek_def buf_put_inside base len u32_len u16_len Let_def)
  then show "dsp_idle (finishPacket S (buf_put body (setId S i d)))"
    and "finished (finishPacket S (buf_put body (setId S i d))) = finished d @ frame S i body"
    using le by (simp_all add: dsp_idle_def finished_def frame_def u32_len u16_len)
qed

lemma dsp_new_idle: "dsp_idle (dsp_new S i)" "finished (dsp_new S i) = []"
  by (simp_all add: dsp_new_def dsp_idle_def finished_def buf_put_def Let_def)

lemma dsp_reset_idle: "dsp_idle (dsp_reset d)" "finished (dsp_reset d) = []"
  by (simp_all add: dsp_reset_def dsp_idle_def finished_def)

end

end
