(* ===== verification/Codec.thy ===== *)
theory Codec
  imports Packet
begin

text \<open>
  \<open>QDataStreamCodec\<close>: one writer per packet type, each a \<open>setId\<close>, the fields in the order the
  code streams them and a \<open>finishPacket\<close>, and the readers of the packet bodies. Argument lists
  pass through \<open>encodeVariant\<close>, here the parameter \<open>enc\<close>. Property values are written by a
  callback \<open>sp\<close> (the code's \<open>serializeProperty\<close>) that threads the source's \<open>sentTypes\<close> state.
\<close>

record object_info =
  oi_name :: string
  oi_typeName :: string
  oi_signature :: bytes

definition put_object_info :: "'v qstream \<Rightarrow> object_info \<Rightarrow> bytes" where
  "put_object_info S o1 =
    put_str S (oi_name o1) @ put_str S (oi_typeName o1) @ put_bytes S (oi_signature o1)"

definition get_object_info :: "'v qstream \<Rightarrow> bytes \<Rightarrow> object_info \<times> bytes" where
  "get_object_info S i =
    (let (n, i1) = get_str S i; (t, i2) = get_str S i1; (g, i3) = get_bytes S i2
     in (\<lparr>oi_name = n, oi_typeName = t, oi_signature = g\<rparr>, i3))"

definition object_info_fits :: "object_info \<Rightarrow> bool" where
  "object_info_fits o1 \<longleftrightarrow>
    str_fits (oi_name o1) \<and> str_fits (oi_typeName o1) \<and> bytes_fit (oi_signature o1)"

subsection \<open>Writers\<close>

definition protocolVersion :: string where
  "protocolVersion = ''QtRO 2.0''"

definition serializeHandshakePacket :: "'v qstream \<Rightarrow> dspacket \<Rightarrow> dspacket" where
  "serializeHandshakePacket S d =
    finishPacket S (buf_put (put_str S protocolVersion) (setId S (packet_id Handshake) d))"

definition serializePingPacket :: "'v qstream \<Rightarrow> string \<Rightarrow> dspacket \<Rightarrow> dspacket" where
  "serializePingPacket S name d =
    finishPacket S (buf_put (put_str S name) (setId S (packet_id Ping) d))"

definition serializePongPacket :: "'v qstream \<Rightarrow> string \<Rightarrow> dspacket \<Rightarrow> dspacket" where
  "serializePongPacket S name d =
    finishPacket S (buf_put (put_str S name) (setId S (packet_id Pong) d))"

definition serializeAddObjectPacket :: "'v qstream \<Rightarrow> string \<Rightarrow> bool \<Rightarrow> dspacket \<Rightarrow> dspacket" where
  "serializeAddObjectPacket S name isDynamic d =
    finishPacket S (buf_put (put_bool S isDynamic)
      (buf_put (put_str S name) (setId S (packet_id AddObject) d)))"

definition serializeRemoveObjectPacket :: "'v qstream \<Rightarrow> string \<Rightarrow> dspacket \<Rightarrow> dspacket" where
  "serializeRemoveObjectPacket S name d =
    finishPacket S (buf_put (put_str S name) (setId S (packet_id RemoveObject) d))"

definition serializeInvokePacket ::
    "'v qstream \<Rightarrow> ('v \<Rightarrow> 'v) \<Rightarrow> string \<Rightarrow> int32 \<Rightarrow> int32 \<Rightarrow> 'v list \<Rightarrow> int32 \<Rightarrow> int32 \<Rightarrow>
     dspacket \<Rightarrow> dspacket" where
  "serializeInvokePacket S enc name call index args serialId propertyIndex d =
    (let d1 = buf_put (put_str S name) (setId S (packet_id InvokePacket) d);
         d2 = buf_put (put_u32 S index) (buf_put (put_u32 S call) d1);
         d3 = buf_put (put_u32 S (word_of_nat (length args))) d2;
         d4 = fold (\<lambda>arg. buf_put (put_var S (enc arg))) args d3;
         d5 = buf_put (put_u32 S propertyIndex) (buf_put (put_u32 S serialId) d4)
     in finishPacket S d5)"

definition serializeInvokeReplyPacket ::
    "'v qstream \<Rightarrow> string \<Rightarrow> int32 \<Rightarrow> 'v \<Rightarrow> dspacket \<Rightarrow> dspacket" where
  "serializeInvokeReplyPacket S name ackedSerialId value d =
    finishPacket S (buf_put (put_var S value) (buf_put (put_u32 S ackedSerialId)
      (buf_put (put_str S name) (setId S (packet_id InvokeReplyPacket) d))))"

definition serializeObjectListPacket ::
    "'v qstream \<Rightarrow> object_info list \<Rightarrow> dspacket \<Rightarrow> dspacket" where
  "serializeObjectListPacket S objects d =
    finishPacket S (buf_put (put_list S (put_object_info S) objects)
      (setId S (packet_id ObjectList) d))"

text \<open>
  \<open>propertyRawIndexFromSignal\<close> gives the property a change signal belongs to; the packet holds
  that index and the property as \<open>serializeProperty\<close> writes it.
\<close>

definition serializePropertyChangePacket ::
    "'v qstream \<Rightarrow> (int \<Rightarrow> int) \<Rightarrow> (int \<Rightarrow> 's \<Rightarrow> bytes \<times> 's) \<Rightarrow> string \<Rightarrow> int \<Rightarrow> 's \<times> dspacket \<Rightarrow>
     's \<times> dspacket" where
  "serializePropertyChangePacket S rawIndex sp name signalIndex sd =
    (let (st, d) = sd;
         internalIndex = rawIndex signalIndex;
         d1 = buf_put (put_str S name) (setId S (packet_id PropertyChangePacket) d);
         d2 = buf_put (put_u32 S (word_of_int internalIndex)) d1;
         (bs, st') = sp internalIndex st
     in (st', finishPacket S (buf_put bs d2)))"

fun serialize_props :: "(int \<Rightarrow> 's \<Rightarrow> bytes \<times> 's) \<Rightarrow> int list \<Rightarrow> 's \<times> dspacket \<Rightarrow> 's \<times> dspacket" where
  "serialize_props sp [] sd = sd"
| "serialize_props sp (i # is) (st, d) =
     (let (bs, st') = sp i st in serialize_props sp is (st', buf_put bs d))"

definition serializeProperties ::
    "'v qstream \<Rightarrow> (int \<Rightarrow> 's \<Rightarrow> bytes \<times> 's) \<Rightarrow> nat \<Rightarrow> 's \<times> dspacket \<Rightarrow> 's \<times> dspacket" where
  "serializeProperties S sp numProperties sd =
    (let (st, d) = sd
     in serialize_props sp (map int [0..<numProperties])
          (st, buf_put (put_u32 S (word_of_nat numProperties)) d))"

definition serializeInitPacket ::
    "'v qstream \<Rightarrow> (int \<Rightarrow> 's \<Rightarrow> bytes \<times> 's) \<Rightarrow> string \<Rightarrow> nat \<Rightarrow> 's \<times> dspacket \<Rightarrow> 's \<times> dspacket" where
  "serializeInitPacket S sp name numProperties sd =
    (let (st, d) = sd;
         (st', d') = serializeProperties S sp numProperties
           (st, buf_put (put_str S name) (setId S (packet_id InitPacket) d))
     in (st', finishPacket S d'))"

definition serializeInitDynamicPacket ::
    "'v qstream \<Rightarrow> ('s \<Rightarrow> bytes \<times> 's) \<Rightarrow> (int \<Rightarrow> 's \<Rightarrow> bytes \<times> 's) \<Rightarrow> string \<Rightarrow> nat \<Rightarrow>
     's \<times> dspacket \<Rightarrow> 's \<times> dspacket" where
  "serializeInitDynamicPacket S sdef sp name numProperties sd =
    (let (st, d) = sd;
         d1 = buf_put (put_str S name) (setId S (packet_id InitDynamicPacket) d);
         (bs, st1) = sdef st;
         (st', d') = serializeProperties S sp numProperties (st1, buf_put bs d1)
     in (st', finishPacket S d'))"

subsection \<open>Readers\<close>

text \<open>
  \<open>deserializeQVariantList\<close> reuses the caller's list: it is resized down to the count read, its
  entries are overwritten in place and the rest appended; both loops give up when the stream is
  at its end and leave the list as it is then.
\<close>

fun read_existing :: "'v qstream \<Rightarrow> 'v list \<Rightarrow> bytes \<Rightarrow> bool \<times> 'v list \<times> bytes" where
  "read_existing S [] s = (True, [], s)"
| "read_existing S (x # xs) s =
     (if s = [] then (False, x # xs, s)
      else let (v, s1) = get_var S s; (ok, vs, s2) = read_existing S xs s1 in (ok, v # vs, s2))"

fun read_appended :: "'v qstream \<Rightarrow> nat \<Rightarrow> bytes \<Rightarrow> bool \<times> 'v list \<times> bytes" where
  "read_appended S 0 s = (True, [], s)"
| "read_appended S (Suc n) s =
     (if s = [] then (False, [], s)
      else let (v, s1) = get_var S s; (ok, vs, s2) = read_appended S n s1 in (ok, v # vs, s2))"

definition deserializeQVariantList :: "'v qstream \<Rightarrow> bytes \<Rightarrow> 'v list \<Rightarrow> bool \<times> 'v list \<times> bytes" where
  "deserializeQVariantList S s l =
    (let (c, s1) = get_u32 S s;
         count = unat c;
         l1 = (if length l > count then take count l else l);
         (ok, vs, s2) = read_existing S l1 s1
     in if ok
        then let (ok', ws, s3) = read_appended S (count - length l1) s2 in (ok', vs @ ws, s3)
        else (False, vs, s2))"

definition deserializeInitPacket :: "'v qstream \<Rightarrow> bytes \<Rightarrow> 'v list \<Rightarrow> 'v list \<times> bytes" where
  "deserializeInitPacket S s values =
    (let (success, l, s') = deserializeQVariantList S s values in (l, s'))"

definition deserializeAddObjectPacket :: "'v qstream \<Rightarrow> bytes \<Rightarrow> bool \<times> bytes" where
  "deserializeAddObjectPacket S s = get_bool S s"

record 'v invoke =
  inv_call :: int32
  inv_index :: int32
  inv_args :: "'v list"
  inv_serial :: int32
  inv_property :: int32

definition deserializeInvokePacket :: "'v qstream \<Rightarrow> bytes \<Rightarrow> 'v list \<Rightarrow> 'v invoke \<times> bytes" where
  "deserializeInvokePacket S s args =
    (let (call, s1) = get_u32 S s;
         (index, s2) = get_u32 S s1;
         (success, args', s3) = deserializeQVariantList S s2 args;
         (serialId, s4) = get_u32 S s3;
         (propertyIndex, s5) = get_u32 S s4
     in (\<lparr>inv_call = call, inv_index = index, inv_args = args', inv_serial = serialId,
          inv_property = propertyIndex\<rparr>, s5))"

definition deserializeInvokeReplyPacket :: "'v qstream \<Rightarrow> bytes \<Rightarrow> int32 \<times> 'v \<times> bytes" where
  "deserializeInvokeReplyPacket S s =
    (let (ackedSerialId, s1) = get_u32 S s; (value, s2) = get_var S s1
     in (ackedSerialId, value, s2))"

definition deserializePropertyChangePacket :: "'v qstream \<Rightarrow> bytes \<Rightarrow> int32 \<times> 'v \<times> bytes" where
  "deserializePropertyChangePacket S s =
    (let (index, s1) = get_u32 S s; (value, s2) = get_var S s1 in (index, value, s2))"

definition deserializeObjectListPacket :: "'v qstream \<Rightarrow> bytes \<Rightarrow> object_info list \<times> bytes" where
  "deserializeObjectListPacket S s = get_list S (get_object_info S) s"

subsection \<open>Sending\<close>

text \<open>
  A connection as the codec sees it: what has been written to it, whether its device is open and
  whether \<open>close\<close> has been called (\<open>m_isClosing\<close>). A write on a connection that is closing or
  not open is dropped.
\<close>

record iodevice =
  written :: bytes
  devOpen :: bool
  isClosing :: bool

definition dev_write :: "bytes \<Rightarrow> iodevice \<Rightarrow> iodevice" where
  "dev_write bs c = (if devOpen c \<and> \<not> isClosing c then c\<lparr>written := written c @ bs\<rparr> else c)"

definition send_all :: "dspacket \<Rightarrow> iodevice list \<Rightarrow> iodevice list \<times> dspacket" where
  "send_all d conns =
    (let (bs, d1) = payload d in (map (dev_write bs) conns, dsp_reset d1))"

definition send_one :: "dspacket \<Rightarrow> iodevice \<Rightarrow> iodevice \<times> dspacket" where
  "send_one d conn = (let (bs, d1) = payload d in (dev_write bs conn, dsp_reset d1))"

end
