(* ===== verification/CodecProps.thy ===== *)
theory CodecProps
  imports Codec
begin

text \<open>
  Every writer of the codec appends exactly one frame to the finished packets, and every reader
  gives back what the writer put in, whatever the caller's list held before.
\<close>

subsection \<open>Messages: a packet's content, and its body on the wire\<close>

datatype 'v msg =
    M_Handshake string
  | M_Init string "'v list"
  | M_Add string bool
  | M_Remove string
  | M_Invoke string "'v invoke"
  | M_Reply string int32 'v
  | M_Prop string int32 'v
  | M_Objects "object_info list"
  | M_Ping string
  | M_Pong string

fun msg_type :: "'v msg \<Rightarrow> packet_type" where
  "msg_type (M_Handshake n) = Handshake"
| "msg_type (M_Init n vs) = InitPacket"
| "msg_type (M_Add n b) = AddObject"
| "msg_type (M_Remove n) = RemoveObject"
| "msg_type (M_Invoke n v) = InvokePacket"
| "msg_type (M_Reply n i v) = InvokeReplyPacket"
| "msg_type (M_Prop n i v) = PropertyChangePacket"
| "msg_type (M_Objects os) = ObjectList"
| "msg_type (M_Ping n) = Ping"
| "msg_type (M_Pong n) = Pong"

text \<open>The name a packet is about; the object list has none and leaves the reader's name as it was.\<close>

fun msg_name :: "string \<Rightarrow> 'v msg \<Rightarrow> string" where
  "msg_name old (M_Handshake n) = n"
| "msg_name old (M_Init n vs) = n"
| "msg_name old (M_Add n b) = n"
| "msg_name old (M_Remove n) = n"
| "msg_name old (M_Invoke n v) = n"
| "msg_name old (M_Reply n i v) = n"
| "msg_name old (M_Prop n i v) = n"
| "msg_name old (M_Objects os) = old"
| "msg_name old (M_Ping n) = n"
| "msg_name old (M_Pong n) = n"

definition put_vars :: "'v qstream \<Rightarrow> 'v list \<Rightarrow> bytes" where
  "put_vars S vs = put_u32 S (word_of_nat (length vs)) @ put_elems (put_var S) vs"

text \<open>The bytes behind the name.\<close>

fun msg_args :: "'v qstream \<Rightarrow> 'v msg \<Rightarrow> bytes" where
  "msg_args S (M_Init n vs) = put_vars S vs"
| "msg_args S (M_Add n b) = put_bool S b"
| "msg_args S (M_Invoke n v) =
     put_u32 S (inv_call v) @ put_u32 S (inv_index v) @ put_vars S (inv_args v) @
     put_u32 S (inv_serial v) @ put_u32 S (inv_property v)"
| "msg_args S (M_Reply n i v) = put_u32 S i @ put_var S v"
| "msg_args S (M_Prop n i v) = put_u32 S i @ put_var S v"
| "msg_args S (M_Objects os) = put_list S (put_object_info S) os"
| "msg_args S _ = []"

definition msg_body :: "'v qstream \<Rightarrow> 'v msg \<Rightarrow> bytes" where
  "msg_body S m =
    (if msg_type m = ObjectList then msg_args S m else put_str S (msg_name [] m) @ msg_args S m)"

definition msg_frame :: "'v qstream \<Rightarrow> 'v msg \<Rightarrow> bytes" where
  "msg_frame S m = frame S (packet_id (msg_type m)) (msg_body S m)"

text \<open>What can be sent: strings and lists within their count fields, variants with stream operators.\<close>

fun args_fit :: "'v qstream \<Rightarrow> 'v msg \<Rightarrow> bool" where
  "args_fit S (M_Init n vs) \<longleftrightarrow> list_fits vs \<and> list_all (streamable S) vs"
| "args_fit S (M_Invoke n v) \<longleftrightarrow> list_fits (inv_args v) \<and> list_all (streamable S) (inv_args v)"
| "args_fit S (M_Reply n i v) \<longleftrightarrow> streamable S v"
| "args_fit S (M_Prop n i v) \<longleftrightarrow> streamable S v"
| "args_fit S (M_Objects os) \<longleftrightarrow> list_fits os \<and> list_all object_info_fits os"
| "args_fit S _ \<longleftrightarrow> True"

definition msg_fits :: "'v qstream \<Rightarrow> 'v msg \<Rightarrow> bool" where
  "msg_fits S m \<longleftrightarrow>
    str_fits (msg_name [] m) \<and> args_fit S m \<and> 2 + length (msg_body S m) < 2 ^ 32"

text \<open>The writer the code has for each message. Property bytes come from \<open>serializeProperty\<close>.\<close>

fun msg_write :: "'v qstream \<Rightarrow> 'v msg \<Rightarrow> dspacket \<Rightarrow> dspacket" where
  "msg_write S (M_Handshake n) d = serializeHandshakePacket S d"
| "msg_write S (M_Init n vs) d =
     snd (serializeInitPacket S (\<lambda>i u. (put_var S (vs ! nat i), u)) n (length vs) ((), d))"
| "msg_write S (M_Add n b) d = serializeAddObjectPacket S n b d"
| "msg_write S (M_Remove n) d = serializeRemoveObjectPacket S n d"
| "msg_write S (M_Invoke n v) d =
     serializeInvokePacket S id n (inv_call v) (inv_index v) (inv_args v) (inv_serial v)
       (inv_property v) d"
| "msg_write S (M_Reply n i v) d = serializeInvokeReplyPacket S n i v d"
| "msg_write S (M_Prop n i v) d =
     snd (serializePropertyChangePacket S id (\<lambda>_ u. (put_var S v, u)) n (sint i) ((), d))"
| "msg_write S (M_Objects os) d = serializeObjectListPacket S os d"
| "msg_write S (M_Ping n) d = serializePingPacket S n d"
| "msg_write S (M_Pong n) d = serializePongPacket S n d"

fun msg_writable :: "'v msg \<Rightarrow> bool" where
  "msg_writable (M_Handshake n) \<longleftrightarrow> n = protocolVersion"
| "msg_writable _ \<longleftrightarrow> True"

subsection \<open>Writers append one frame\<close>

lemma buf_put_fold:
  "bufpos d \<le> length (barray d) \<Longrightarrow>
     fold (\<lambda>x. buf_put (p x)) xs d = buf_put (put_elems p xs) d"
proof (induction xs arbitrary: d)
  case Nil
  then show ?case by simp
next
  case (Cons x xs)
  then show ?case by (simp add: buf_put_pos buf_put_append)
qed

lemma serialize_props_stateless:
  "bufpos d \<le> length (barray d) \<Longrightarrow>
     serialize_props (\<lambda>i u. (p i, u)) is (u, d) = (u, buf_put (put_elems p is) d)"
proof (induction "is" arbitrary: d)
  case Nil
  then show ?case by simp
next
  case (Cons i "is")
  then show ?case by (simp add: buf_put_pos buf_put_append)
qed

lemma put_elems_map: "put_elems p (map f xs) = put_elems (\<lambda>x. p (f x)) xs"
  by (induction xs) auto

lemma put_elems_cong: "(\<And>x. x \<in> set xs \<Longrightarrow> p x = q x) \<Longrightarrow> put_elems p xs = put_elems q xs"
  by (induction xs) auto

lemma put_elems_nth: "put_elems (\<lambda>i. p (xs ! i)) [0..<length xs] = put_elems p xs"
  using put_elems_map[of p "\<lambda>i. xs ! i" "[0..<length xs]"] by (simp add: map_nth)

lemma msg_write_body:
  assumes "dsp_idle d" and "msg_writable m"
  shows "msg_write S m d =
    finishPacket S (buf_put (msg_body S m) (setId S (packet_id (msg_type m)) d))"
proof (cases m)
  case (M_Init n vs)
  let ?p = "\<lambda>i. put_var S (vs ! nat i)"
  have "put_elems ?p (map int [0..<length vs]) = put_elems (put_var S) vs"
    by (simp only: put_elems_map nat_int put_elems_nth)
  with assms M_Init show ?thesis
    by (simp add: msg_body_def serializeInitPacket_def serializeProperties_def put_vars_def
        serialize_props_stateless buf_put_pos buf_put_append setId_pos split_beta)
next
  case (M_Invoke n v)
  with assms show ?thesis
    by (simp add: msg_body_def serializeInvokePacket_def put_vars_def Let_def
        buf_put_pos buf_put_append setId_pos buf_put_fold)
next
  case (M_Prop n i v)
  with assms show ?thesis
    by (simp add: msg_body_def serializePropertyChangePacket_def Let_def
        buf_put_pos buf_put_append setId_pos)
qed (use assms in \<open>simp_all add: msg_body_def serializeHandshakePacket_def serializePingPacket_def
      serializePongPacket_def serializeAddObjectPacket_def serializeRemoveObjectPacket_def
      serializeInvokeReplyPacket_def serializeObjectListPacket_def
      buf_put_pos buf_put_append setId_pos\<close>)

context qdata_stream
begin

lemma msg_write_frame:
  assumes "dsp_idle d" and "msg_writable m"
  shows "dsp_idle (msg_write S m d)" and "finished (msg_write S m d) = finished d @ msg_frame S m"
  unfolding msg_write_body[OF assms] msg_frame_def
  by (rule packet_finished[OF assms(1)])+

lemma msg_writes_frames:
  "dsp_idle d \<Longrightarrow> list_all msg_writable ms \<Longrightarrow>
     dsp_idle (fold (msg_write S) ms d) \<and>
     finished (fold (msg_write S) ms d) = finished d @ concat (map (msg_frame S) ms)"
proof (induction ms arbitrary: d)
  case Nil
  then show ?case by simp
next
  case (Cons m ms)
  then show ?case by (simp add: msg_write_frame)
qed

end

subsection \<open>Readers invert writers\<close>

context qdata_stream
begin

lemma get_object_info_rt:
  "object_info_fits o1 \<Longrightarrow> get_object_info S (put_object_info S o1 @ r) = (o1, r)"
  by (simp add: get_object_info_def put_object_info_def object_info_fits_def str_rt bytes_rt)

lemma get_object_info_shrinks: "length (snd (get_object_info S i)) \<le> length i"
proof -
  let ?i1 = "snd (get_str S i)" and ?i2 = "snd (get_str S (snd (get_str S i)))"
  have "length (snd (get_bytes S ?i2)) \<le> length ?i2" by (rule bytes_shrinks)
  also have "\<dots> \<le> length ?i1" by (rule str_shrinks)
  also have "\<dots> \<le> length i" by (rule str_shrinks)
  finally show ?thesis by (simp add: get_object_info_def Let_def split_beta)
qed

lemma object_info_serialisable:
  "serialisable (put_object_info S) (get_object_info S) object_info_fits"
  by unfold_locales (auto simp: get_object_info_rt get_object_info_shrinks)

lemma read_appended_rt:
  "list_all (streamable S) vs \<Longrightarrow>
     read_appended S (length vs) (put_elems (put_var S) vs @ r) = (True, vs, r)"
  by (induction vs) (auto simp: var_rt dest: var_nonempty)

lemma read_existing_rt:
  "list_all (streamable S) vs \<Longrightarrow> length l = length vs \<Longrightarrow>
     read_existing S l (put_elems (put_var S) vs @ r) = (True, vs, r)"
proof (induction vs arbitrary: l)
  case Nil
  then show ?case by simp
next
  case (Cons v vs)
  then show ?case by (cases l) (auto simp: var_rt dest: var_nonempty)
qed

lemma deserializeQVariantList_rt:
  assumes "list_fits vs" and "list_all (streamable S) vs"
  shows "deserializeQVariantList S (put_vars S vs @ r) l = (True, vs, r)"
proof -
  let ?k = "min (length l) (length vs)"
  let ?l = "if length vs < length l then take (length vs) l else l"
  have fits: "list_all (streamable S) (take ?k vs)" "list_all (streamable S) (drop ?k vs)"
    using assms(2) by (auto simp: list_all_iff dest: in_set_takeD in_set_dropD)
  have split: "put_elems (put_var S) vs =
      put_elems (put_var S) (take ?k vs) @ put_elems (put_var S) (drop ?k vs)"
    by (simp add: put_elems_append[symmetric])
  have "length ?l = length (take ?k vs)" by auto
  then have "read_existing S ?l (put_elems (put_var S) vs @ r) =
      (True, take ?k vs, put_elems (put_var S) (drop ?k vs) @ r)"
    unfolding split append_assoc using fits(1) by (intro read_existing_rt) auto
  moreover have "read_appended S (length vs - length ?l) (put_elems (put_var S) (drop ?k vs) @ r) =
      (True, drop ?k vs, r)"
    using read_appended_rt[OF fits(2), of r] by (simp add: min_def split: if_splits)
  ultimately show ?thesis
    using assms(1)
    by (simp add: deserializeQVariantList_def put_vars_def u32_rt unat_of_nat_u32 list_fits_def)
qed

lemma deserializeInvokePacket_rt:
  "args_fit S (M_Invoke n v) \<Longrightarrow>
     deserializeInvokePacket S (msg_args S (M_Invoke n v) @ r) old = (v, r)"
  by (simp add: deserializeInvokePacket_def u32_rt deserializeQVariantList_rt)

lemma deserializeInitPacket_rt:
  "args_fit S (M_Init n vs) \<Longrightarrow>
     deserializeInitPacket S (msg_args S (M_Init n vs) @ r) old = (vs, r)"
  by (simp add: deserializeInitPacket_def deserializeQVariantList_rt)

lemma deserializeReply_rt:
  "args_fit S (M_Reply n i v) \<Longrightarrow>
     deserializeInvokeReplyPacket S (msg_args S (M_Reply n i v) @ r) = (i, v, r)"
  by (simp add: deserializeInvokeReplyPacket_def u32_rt var_rt)

lemma deserializeProp_rt:
  "args_fit S (M_Prop n i v) \<Longrightarrow>
     deserializePropertyChangePacket S (msg_args S (M_Prop n i v) @ r) = (i, v, r)"
  by (simp add: deserializePropertyChangePacket_def u32_rt var_rt)

lemma deserializeAdd_rt: "deserializeAddObjectPacket S (msg_args S (M_Add n b) @ r) = (b, r)"
  by (simp add: deserializeAddObjectPacket_def bool_rt)

lemma deserializeObjectList_rt:
  "args_fit S (M_Objects os) \<Longrightarrow>
     deserializeObjectListPacket S (msg_args S (M_Objects os) @ r) = (os, r)"
  by (simp add: deserializeObjectListPacket_def get_put_list get_object_info_rt list_all_iff)

lemmas readers_rt = deserializeInvokePacket_rt deserializeInitPacket_rt deserializeReply_rt
  deserializeProp_rt deserializeAdd_rt deserializeObjectList_rt

end

subsection \<open>Packets with property values\<close>

text \<open>
  The packets a source writes hold the bytes of \<open>serializeProperty\<close>, whose state is threaded
  through the properties in order.
\<close>

fun props_bytes :: "(int \<Rightarrow> 's \<Rightarrow> bytes \<times> 's) \<Rightarrow> int list \<Rightarrow> 's \<Rightarrow> bytes \<times> 's" where
  "props_bytes sp [] st = ([], st)"
| "props_bytes sp (i # is) st =
     (let (bs, st1) = sp i st; (r, st2) = props_bytes sp is st1 in (bs @ r, st2))"

lemma serialize_props_bytes:
  "bufpos d \<le> length (barray d) \<Longrightarrow>
     serialize_props sp is (st, d) =
       (snd (props_bytes sp is st), buf_put (fst (props_bytes sp is st)) d)"
proof (induction "is" arbitrary: st d)
  case Nil
  then show ?case by simp
next
  case (Cons i "is")
  obtain bs st1 where sp: "sp i st = (bs, st1)" by (cases "sp i st")
  obtain r st2 where r: "props_bytes sp is st1 = (r, st2)" by (cases "props_bytes sp is st1")
  from Cons.IH[OF buf_put_pos[OF Cons.prems], of st1 bs] show ?case
    using Cons.prems by (simp add: sp r buf_put_append)
qed

definition prop_body :: "'v qstream \<Rightarrow> string \<Rightarrow> int \<Rightarrow> bytes \<Rightarrow> bytes" where
  "prop_body S name internalIndex bs = put_str S name @ put_u32 S (word_of_int internalIndex) @ bs"

lemma serializePropertyChangePacket_body:
  assumes "dsp_idle d"
  shows "serializePropertyChangePacket S raw sp name sig (st, d) =
    (snd (sp (raw sig) st),
     finishPacket S (buf_put (prop_body S name (raw sig) (fst (sp (raw sig) st)))
       (setId S (packet_id PropertyChangePacket) d)))"
  using assms
  by (simp add: serializePropertyChangePacket_def Let_def prop_body_def split_beta
      buf_put_pos buf_put_append setId_pos)

definition init_props :: "(int \<Rightarrow> 's \<Rightarrow> bytes \<times> 's) \<Rightarrow> nat \<Rightarrow> 's \<Rightarrow> bytes \<times> 's" where
  "init_props sp n st = props_bytes sp (map int [0..<n]) st"

definition init_body :: "'v qstream \<Rightarrow> (int \<Rightarrow> 's \<Rightarrow> bytes \<times> 's) \<Rightarrow> string \<Rightarrow> nat \<Rightarrow> 's \<Rightarrow> bytes" where
  "init_body S sp name n st =
    put_str S name @ put_u32 S (word_of_nat n) @ fst (init_props sp n st)"

lemma serializeInitPacket_body:
  assumes "dsp_idle d"
  shows "serializeInitPacket S sp name n (st, d) =
    (snd (init_props sp n st),
     finishPacket S (buf_put (init_body S sp name n st) (setId S (packet_id InitPacket) d)))"
  using assms
  by (simp add: serializeInitPacket_def serializeProperties_def Let_def init_body_def init_props_def
      split_beta serialize_props_bytes buf_put_pos buf_put_append setId_pos)

definition init_dynamic_body ::
    "'v qstream \<Rightarrow> ('s \<Rightarrow> bytes \<times> 's) \<Rightarrow> (int \<Rightarrow> 's \<Rightarrow> bytes \<times> 's) \<Rightarrow> string \<Rightarrow> nat \<Rightarrow> 's \<Rightarrow> bytes" where
  "init_dynamic_body S sdef sp name n st =
    put_str S name @ fst (sdef st) @ put_u32 S (word_of_nat n) @ fst (init_props sp n (snd (sdef st)))"

lemma serializeInitDynamicPacket_body:
  assumes "dsp_idle d"
  shows "serializeInitDynamicPacket S sdef sp name n (st, d) =
    (snd (init_props sp n (snd (sdef st))),
     finishPacket S (buf_put (init_dynamic_body S sdef sp name n st)
       (setId S (packet_id InitDynamicPacket) d)))"
  using assms
  by (simp add: serializeInitDynamicPacket_def serializeProperties_def Let_def init_dynamic_body_def
      init_props_def split_beta serialize_props_bytes buf_put_pos buf_put_append setId_pos)

lemma serializeInvokePacket_enc:
  "serializeInvokePacket S e n call ix args ser pr d =
   serializeInvokePacket S id n call ix (map e args) ser pr d"
proof -
  have "fold (\<lambda>arg. buf_put (put_var S (e arg))) args d0 =
      fold (\<lambda>arg. buf_put (put_var S (id arg))) (map e args) d0" for d0
    by (induction args arbitrary: d0) auto
  then show ?thesis by (simp add: serializeInvokePacket_def)
qed

definition invoke_msg ::
    "('v \<Rightarrow> 'v) \<Rightarrow> string \<Rightarrow> int32 \<Rightarrow> int32 \<Rightarrow> 'v list \<Rightarrow> int32 \<Rightarrow> int32 \<Rightarrow> 'v msg" where
  "invoke_msg e n call ix args ser pr =
    M_Invoke n \<lparr>inv_call = call, inv_index = ix, inv_args = map e args, inv_serial = ser,
                inv_property = pr\<rparr>"

lemma serializeInvokePacket_msg:
  "serializeInvokePacket S e n call ix args ser pr d =
   msg_write S (invoke_msg e n call ix args ser pr) d"
  using serializeInvokePacket_enc[of S e n call ix args ser pr d] by (simp add: invoke_msg_def)

context qdata_stream
begin

lemma serializePropertyChangePacket_frame:
  assumes "dsp_idle d" and "serializePropertyChangePacket S raw sp name sig (st, d) = (st', d')"
  shows "st' = snd (sp (raw sig) st)" and "dsp_idle d'"
    and "finished d' = finished d @ frame S (packet_id PropertyChangePacket)
           (prop_body S name (raw sig) (fst (sp (raw sig) st)))"
  using assms packet_finished[OF assms(1)]
  by (auto simp: serializePropertyChangePacket_body[OF assms(1)])

lemma serializeInitPacket_frame:
  assumes "dsp_idle d" and "serializeInitPacket S sp name n (st, d) = (st', d')"
  shows "st' = snd (init_props sp n st)" and "dsp_idle d'"
    and "finished d' = finished d @ frame S (packet_id InitPacket) (init_body S sp name n st)"
  using assms packet_finished[OF assms(1)] by (auto simp: serializeInitPacket_body[OF assms(1)])

lemma serializeInitDynamicPacket_frame:
  assumes "dsp_idle d" and "serializeInitDynamicPacket S sdef sp name n (st, d) = (st', d')"
  shows "st' = snd (init_props sp n (snd (sdef st)))" and "dsp_idle d'"
    and "finished d' = finished d @
           frame S (packet_id InitDynamicPacket) (init_dynamic_body S sdef sp name n st)"
  using assms packet_finished[OF assms(1)] by (auto simp: serializeInitDynamicPacket_body[OF assms(1)])

lemma serializeInvokePacket_frame:
  assumes "dsp_idle d"
  shows "dsp_idle (serializeInvokePacket S e n call ix args ser pr d)"
    and "finished (serializeInvokePacket S e n call ix args ser pr d) =
         finished d @ msg_frame S (invoke_msg e n call ix args ser pr)"
  unfolding serializeInvokePacket_msg
  by (rule msg_write_frame[OF assms], simp add: invoke_msg_def)+

end

end
