(* ===== verification/Receive.thy ===== *)
theory Receive
  imports CodecProps
begin

text \<open>
  The receiving end of a connection (\<open>qconnectionfactories.cpp\<close>): \<open>QtROIoDeviceBase::read\<close> with
  its remembered packet size \<open>m_curReadSize\<close>, \<open>fromDataStream\<close>, and the loop that both
  \<open>QRemoteObjectSourceIo::onServerRead\<close> and \<open>QRemoteObjectNodePrivate::onClientRead\<close> run when
  bytes arrive. The packet handlers are a parameter here; the locale \<open>packet_handler\<close> states what
  a handler owes the loop (consume exactly the packet's body), and from it follows that packets
  are handled in order and exactly once, however the transport cuts the byte stream.
\<close>

record rxdevice =
  rxBuf :: bytes
  curReadSize :: u32

definition fromDataStream ::
    "'v qstream \<Rightarrow> string \<Rightarrow> bytes \<Rightarrow> bool \<times> packet_type \<times> string \<times> bytes" where
  "fromDataStream S name i =
    (let (w, i1) = get_u16 S i; t = packet_type_of w
     in if t = Invalid then (False, t, name, i1)
        else if t = ObjectList then (True, t, name, i1)
        else let (name', i2) = get_str S i1 in (True, t, name', i2))"

definition dev_read ::
    "'v qstream \<Rightarrow> string \<Rightarrow> rxdevice \<Rightarrow> (bool \<times> packet_type \<times> string) \<times> rxdevice" where
  "dev_read S name dv =
    (if curReadSize dv = 0 \<and> length (rxBuf dv) < 4 then ((False, Invalid, name), dv)
     else
       let dv1 = (if curReadSize dv = 0
                  then let (n, i) = get_u32 S (rxBuf dv) in dv\<lparr>rxBuf := i, curReadSize := n\<rparr>
                  else dv)
       in if length (rxBuf dv1) < unat (curReadSize dv1) then ((False, Invalid, name), dv1)
          else let (ok, t, name', i) = fromDataStream S name (rxBuf dv1)
               in ((ok, t, name'), dv1\<lparr>rxBuf := i, curReadSize := 0\<rparr>))"

text \<open>
  A handler gets the packet type, the name and the bytes behind it, and gives back whether the
  loop goes on (a client leaves it on a protocol error), the new state and the unread bytes.
  Every turn but the last consumes at least the four length bytes, so one unit of fuel per byte
  is enough.
\<close>

type_synonym 's handler = "packet_type \<Rightarrow> string \<Rightarrow> bytes \<Rightarrow> 's \<Rightarrow> bool \<times> 's \<times> bytes"

fun recv_loop ::
    "'v qstream \<Rightarrow> 's handler \<Rightarrow> nat \<Rightarrow> string \<times> 's \<times> rxdevice \<Rightarrow> string \<times> 's \<times> rxdevice" where
  "recv_loop S h 0 x = x"
| "recv_loop S h (Suc fuel) (name, st, dv) =
     (let ((ok, t, name'), dv1) = dev_read S name dv
      in if \<not> ok then (name', st, dv1)
         else let (go, st', i) = h t name' (rxBuf dv1) st; dv2 = dv1\<lparr>rxBuf := i\<rparr>
              in if \<not> go \<or> i = [] then (name', st', dv2)
                 else recv_loop S h fuel (name', st', dv2))"

definition on_ready_read ::
    "'v qstream \<Rightarrow> 's handler \<Rightarrow> bytes \<Rightarrow> string \<times> 's \<times> rxdevice \<Rightarrow> string \<times> 's \<times> rxdevice" where
  "on_ready_read S h chunk x =
    (let (name, st, dv) = x; dv1 = dv\<lparr>rxBuf := rxBuf dv @ chunk\<rparr>
     in recv_loop S h (Suc (length (rxBuf dv1))) (name, st, dv1))"

subsection \<open>Reading one frame\<close>

context qdata_stream
begin

lemma frame_length: "length (frame S i b) = 6 + length b"
  by (simp add: frame_def u32_len u16_len)

lemma msg_frame_length: "length (msg_frame S m) = 6 + length (msg_body S m)"
  by (simp add: msg_frame_def frame_length)

lemma fromDataStream_msg:
  assumes "msg_fits S m"
  shows "fromDataStream S old (put_u16 S (packet_id (msg_type m)) @ msg_body S m @ r) =
      (True, msg_type m, msg_name old m, msg_args S m @ r)"
proof (cases "msg_type m = ObjectList")
  case True
  then have "msg_name old m = old" by (cases m) auto
  moreover have "msg_type m \<noteq> Invalid" using True by simp
  ultimately show ?thesis
    using True packet_type_of_id[of "msg_type m"]
    by (simp add: fromDataStream_def u16_rt msg_body_def Let_def del: packet_type_of_id)
next
  case False
  then have "msg_name old m = msg_name [] m" by (cases m) auto
  moreover have "msg_type m \<noteq> Invalid" by (cases m) auto
  ultimately show ?thesis
    using False assms by (simp add: fromDataStream_def u16_rt msg_body_def str_rt msg_fits_def)
qed

lemma frame_size_word:
  assumes "msg_fits S m"
  shows "unat (word_of_nat (2 + length (msg_body S m)) :: u32) = 2 + length (msg_body S m)"
    and "(word_of_nat (2 + length (msg_body S m)) :: u32) \<noteq> 0"
proof -
  show e: "unat (word_of_nat (2 + length (msg_body S m)) :: u32) = 2 + length (msg_body S m)"
    using assms unat_of_nat_u32[of "2 + length (msg_body S m)"] by (simp add: msg_fits_def)
  then show "(word_of_nat (2 + length (msg_body S m)) :: u32) \<noteq> 0" by force
qed

text \<open>
  What a device with unread bytes stands for: the rest of a run of frames, cut either before a
  length field or right behind one that \<open>m_curReadSize\<close> remembers. \<open>fut\<close> is what is still to
  arrive.
\<close>

definition awaits :: "rxdevice \<Rightarrow> bytes \<Rightarrow> 'v msg list \<Rightarrow> bool" where
  "awaits dv fut ms \<longleftrightarrow>
    (curReadSize dv = 0 \<and> rxBuf dv @ fut = concat (map (msg_frame S) ms)) \<or>
    (\<exists>m ms'. ms = m # ms' \<and> curReadSize dv = word_of_nat (2 + length (msg_body S m)) \<and>
       rxBuf dv @ fut = drop 4 (msg_frame S m) @ concat (map (msg_frame S) ms'))"

lemma awaits_feed: "awaits dv (chunk @ fut) ms \<Longrightarrow> awaits (dv\<lparr>rxBuf := rxBuf dv @ chunk\<rparr>) fut ms"
  by (simp add: awaits_def)

lemma drop4_frame: "drop 4 (msg_frame S m) = put_u16 S (packet_id (msg_type m)) @ msg_body S m"
  by (simp add: msg_frame_def frame_def u32_len)

lemma dev_read_body:
  assumes fits: "msg_fits S m" and cur: "curReadSize dv = word_of_nat (2 + length (msg_body S m))"
    and buf: "rxBuf dv @ fut = drop 4 (msg_frame S m) @ rest"
  shows "(length (rxBuf dv) < 2 + length (msg_body S m) \<and>
            dev_read S old dv = ((False, Invalid, old), dv)) \<or>
         (\<exists>r. dev_read S old dv = ((True, msg_type m, msg_name old m),
                dv\<lparr>rxBuf := msg_args S m @ r, curReadSize := 0\<rparr>) \<and> r @ fut = rest)"
proof (cases "length (rxBuf dv) < 2 + length (msg_body S m)")
  case True
  then show ?thesis using frame_size_word[OF fits] by (simp add: dev_read_def cur)
next
  case False
  let ?f = "put_u16 S (packet_id (msg_type m)) @ msg_body S m"
  have "length ?f = 2 + length (msg_body S m)" by (simp add: u16_len)
  then have "length ?f \<le> length (rxBuf dv)" using False by simp
  with buf[unfolded drop4_frame] obtain r where r: "rxBuf dv = ?f @ r" "r @ fut = rest"
    by (rule append_prefix)
  then show ?thesis
    using False frame_size_word[OF fits] fromDataStream_msg[OF fits, of old r]
    by (auto simp: dev_read_def cur)
qed

lemma dev_read_awaits:
  assumes fits: "list_all (msg_fits S) ms" and aw: "awaits dv fut ms"
  shows "(\<exists>dv'. dev_read S old dv = ((False, Invalid, old), dv') \<and> awaits dv' fut ms \<and>
            (fut = [] \<longrightarrow> ms = [] \<and> rxBuf dv' = [] \<and> curReadSize dv' = 0)) \<or>
         (\<exists>m ms' r. ms = m # ms' \<and>
            dev_read S old dv = ((True, msg_type m, msg_name old m),
              dv\<lparr>rxBuf := msg_args S m @ r, curReadSize := 0\<rparr>) \<and>
            r @ fut = concat (map (msg_frame S) ms') \<and> length (msg_args S m @ r) \<le> length (rxBuf dv))"
proof -
  consider (start) "curReadSize dv = 0" "rxBuf dv @ fut = concat (map (msg_frame S) ms)"
    | (mid) m ms' where "ms = m # ms'" "curReadSize dv = word_of_nat (2 + length (msg_body S m))"
        "rxBuf dv @ fut = drop 4 (msg_frame S m) @ concat (map (msg_frame S) ms')"
    using aw by (auto simp: awaits_def)
  then show ?thesis
  proof cases
    case mid
    from fits mid have m: "msg_fits S m" by simp
    from dev_read_body[OF m mid(2) mid(3), of old] show ?thesis
    proof (elim disjE exE conjE)
      assume "length (rxBuf dv) < 2 + length (msg_body S m)"
        and "dev_read S old dv = ((False, Invalid, old), dv)"
      moreover from this(1) have "fut \<noteq> []"
        using mid(3) arg_cong[OF mid(3), of length] by (auto simp: drop4_frame u16_len)
      ultimately show ?thesis using aw by blast
    next
      fix r
      assume "dev_read S old dv = ((True, msg_type m, msg_name old m),
                dv\<lparr>rxBuf := msg_args S m @ r, curReadSize := 0\<rparr>)"
        and r: "r @ fut = concat (map (msg_frame S) ms')"
      moreover have "length (msg_args S m) \<le> length (msg_body S m)" by (simp add: msg_body_def)
      then have "length (msg_args S m @ r) \<le> length (rxBuf dv)"
        using arg_cong[OF mid(3), of length] arg_cong[OF r, of length]
        by (simp add: msg_frame_length)
      ultimately show ?thesis using mid(1) by blast
    qed
  next
    case start
    show ?thesis
    proof (cases "length (rxBuf dv) < 4")
      case True
      have "ms = [] \<and> rxBuf dv = []" if "fut = []"
      proof (cases ms)
        case Nil
        with start that show ?thesis by simp
      next
        case (Cons m ms')
        with start that True msg_frame_length[of m] show ?thesis by simp
      qed
      then show ?thesis using True start aw by (auto simp: dev_read_def)
    next
      case False
      show ?thesis
      proof (cases ms)
        case Nil
        with start False show ?thesis by simp
      next
        case (Cons m ms')
        from fits Cons have m: "msg_fits S m" by simp
        let ?n = "word_of_nat (2 + length (msg_body S m)) :: u32"
        have hd4: "msg_frame S m = put_u32 S ?n @ drop 4 (msg_frame S m)"
          unfolding drop4_frame by (simp add: msg_frame_def frame_def)
        from start Cons have whole: "rxBuf dv @ fut =
            put_u32 S ?n @ drop 4 (msg_frame S m) @ concat (map (msg_frame S) ms')"
          using hd4 by (metis append_assoc concat.simps(2) list.simps(9))
        have "length (put_u32 S ?n) \<le> length (rxBuf dv)" using False by (simp add: u32_len)
        with whole obtain b where b: "rxBuf dv = put_u32 S ?n @ b"
            "b @ fut = drop 4 (msg_frame S m) @ concat (map (msg_frame S) ms')"
          by (rule append_prefix)
        let ?dv = "dv\<lparr>rxBuf := b, curReadSize := ?n\<rparr>"
        have step: "dev_read S old dv = dev_read S old ?dv"
          using False start(1) frame_size_word(2)[OF m] by (simp add: dev_read_def b(1) u32_rt)
        have aw': "awaits ?dv fut ms" using Cons b(2) by (simp add: awaits_def)
        have cur: "curReadSize ?dv = ?n" by simp
        have "rxBuf ?dv @ fut = drop 4 (msg_frame S m) @ concat (map (msg_frame S) ms')"
          using b(2) by simp
        from dev_read_body[OF m cur this, of old] show ?thesis
        proof (elim disjE exE conjE)
          assume "length (rxBuf ?dv) < 2 + length (msg_body S m)"
            and "dev_read S old ?dv = ((False, Invalid, old), ?dv)"
          moreover from this(1) have "fut \<noteq> []"
            using arg_cong[OF b(2), of length] by (auto simp: drop4_frame u16_len)
          ultimately show ?thesis using aw' unfolding step by blast
        next
          fix r
          assume "dev_read S old ?dv = ((True, msg_type m, msg_name old m),
                    ?dv\<lparr>rxBuf := msg_args S m @ r, curReadSize := 0\<rparr>)"
            and r: "r @ fut = concat (map (msg_frame S) ms')"
          moreover have "length (msg_args S m) \<le> length (msg_body S m)" by (simp add: msg_body_def)
          then have "length (msg_args S m @ r) \<le> length (rxBuf dv)"
            using arg_cong[OF b(2), of length] arg_cong[OF r, of length]
            by (simp add: msg_frame_length b(1))
          ultimately show ?thesis using Cons start(1) unfolding step by auto
        qed
      qed
    qed
  qed
qed

end

subsection \<open>Running a handler over the stream\<close>

fun run_accepts :: "('m \<Rightarrow> 's \<Rightarrow> bool) \<Rightarrow> ('m \<Rightarrow> 's \<Rightarrow> 's) \<Rightarrow> 'm list \<Rightarrow> 's \<Rightarrow> bool" where
  "run_accepts acc step [] st \<longleftrightarrow> True"
| "run_accepts acc step (m # ms) st \<longleftrightarrow> acc m st \<and> run_accepts acc step ms (step m st)"

lemma run_accepts_drop:
  "run_accepts acc step ms st \<Longrightarrow> run_accepts acc step (drop k ms) (fold step (take k ms) st)"
proof (induction ms arbitrary: k st)
  case Nil
  then show ?case by simp
next
  case (Cons m ms)
  then show ?case by (cases k) auto
qed

definition names_after :: "'v msg list \<Rightarrow> string \<Rightarrow> string" where
  "names_after ms name = fold (\<lambda>m n. msg_name n m) ms name"

lemma names_after_simps [simp]:
  "names_after [] name = name"
  "names_after (m # ms) name = names_after ms (msg_name name m)"
  by (simp_all add: names_after_def)

lemma names_after_append: "names_after (xs @ ys) n = names_after ys (names_after xs n)"
  by (simp add: names_after_def)

locale packet_handler = qdata_stream S for S :: "'v qstream" +
  fixes h :: "'s handler"
    and step :: "'v msg \<Rightarrow> 's \<Rightarrow> 's"
    and accepts :: "'v msg \<Rightarrow> 's \<Rightarrow> bool"
  assumes handles: "msg_fits S m \<Longrightarrow> accepts m st \<Longrightarrow>
      h (msg_type m) (msg_name old m) (msg_args S m @ r) st = (True, step m st, r)"
begin

abbreviation idle :: "rxdevice \<Rightarrow> bool" where
  "idle dv \<equiv> rxBuf dv = [] \<and> curReadSize dv = 0"

lemma loop_delivers:
  assumes "list_all (msg_fits S) ms" and "run_accepts accepts step ms st"
    and "awaits dv fut ms" and "length (rxBuf dv) < fuel"
  shows "\<exists>k dv'. recv_loop S h fuel (name, st, dv) =
            (names_after (take k ms) name, fold step (take k ms) st, dv') \<and>
           awaits dv' fut (drop k ms) \<and> (fut = [] \<longrightarrow> drop k ms = [] \<and> idle dv')"
  using assms
proof (induction fuel arbitrary: ms st dv name)
  case 0
  then show ?case by simp
next
  case (Suc fuel)
  from dev_read_awaits[OF Suc.prems(1,3), of name] show ?case
  proof (elim disjE exE conjE)
    fix dv'
    assume "dev_read S name dv = ((False, Invalid, name), dv')" and "awaits dv' fut ms"
      and "fut = [] \<longrightarrow> ms = [] \<and> idle dv'"
    then show ?thesis by (intro exI[of _ 0] exI[of _ dv']) simp
  next
    fix m ms' r
    assume ms: "ms = m # ms'" and rd: "dev_read S name dv =
        ((True, msg_type m, msg_name name m), dv\<lparr>rxBuf := msg_args S m @ r, curReadSize := 0\<rparr>)"
      and r: "r @ fut = concat (map (msg_frame S) ms')"
      and len: "length (msg_args S m @ r) \<le> length (rxBuf dv)"
    let ?dv = "dv\<lparr>curReadSize := 0, rxBuf := r\<rparr>"
    have h: "h (msg_type m) (msg_name name m) (msg_args S m @ r) st = (True, step m st, r)"
      using Suc.prems(1,2) ms by (intro handles) auto
    have aw: "awaits ?dv fut ms'" using r by (simp add: awaits_def)
    show ?thesis
    proof (cases "r = []")
      case True
      have "ms' = []" if "fut = []"
      proof (cases ms')
        case (Cons m2 ms2)
        with r that True have "msg_frame S m2 = []" by simp
        with msg_frame_length[of m2] show ?thesis by simp
      qed simp
      then show ?thesis
        using aw ms True rd h by (intro exI[of _ 1] exI[of _ ?dv]) simp
    next
      case False
      have shorter: "length r < length (rxBuf dv)"
      proof -
        have "rxBuf dv @ fut = msg_frame S m @ r @ fut \<or>
              rxBuf dv @ fut = drop 4 (msg_frame S m) @ r @ fut"
          using Suc.prems(3) ms r by (auto simp: awaits_def)
        then have "rxBuf dv = msg_frame S m @ r \<or> rxBuf dv = drop 4 (msg_frame S m) @ r"
          by (simp flip: append_assoc)
        then show ?thesis using msg_frame_length[of m] by auto
      qed
      have "list_all (msg_fits S) ms'" and "run_accepts accepts step ms' (step m st)"
        using Suc.prems(1,2) ms by auto
      from Suc.IH[OF this aw, of "msg_name name m"] obtain k dv' where
        "recv_loop S h fuel (msg_name name m, step m st, ?dv) =
           (names_after (take k ms') (msg_name name m), fold step (take k ms') (step m st), dv')"
        "awaits dv' fut (drop k ms')" "fut = [] \<longrightarrow> drop k ms' = [] \<and> idle dv'"
        using shorter Suc.prems(4) by auto
      then show ?thesis
        using ms rd h False by (intro exI[of _ "Suc k"] exI[of _ dv']) simp
    qed
  qed
qed

text \<open>
  Delivery: the chunks in which the bytes of a run of messages arrive do not matter; the handler
  sees every message once, in the order they were sent, and nothing stays behind.
\<close>

theorem delivers:
  assumes "list_all (msg_fits S) ms" and "run_accepts accepts step ms st"
    and "awaits dv (concat chunks) ms" and "chunks = [] \<Longrightarrow> ms = [] \<and> idle dv"
  shows "\<exists>dv'. fold (on_ready_read S h) chunks (name, st, dv) =
      (names_after ms name, fold step ms st, dv') \<and> idle dv'"
  using assms
proof (induction chunks arbitrary: ms st dv name)
  case Nil
  then show ?case by simp
next
  case (Cons c cs)
  let ?dv = "dv\<lparr>rxBuf := rxBuf dv @ c\<rparr>"
  have "awaits ?dv (concat cs) ms" using Cons.prems(3) awaits_feed by simp
  from loop_delivers[OF Cons.prems(1,2) this, of "Suc (length (rxBuf ?dv))" name]
  obtain k dv1 where k: "on_ready_read S h c (name, st, dv) =
        (names_after (take k ms) name, fold step (take k ms) st, dv1)"
      "awaits dv1 (concat cs) (drop k ms)" "concat cs = [] \<longrightarrow> drop k ms = [] \<and> idle dv1"
    unfolding on_ready_read_def by (auto simp del: recv_loop.simps)
  have "list_all (msg_fits S) (drop k ms)"
    using Cons.prems(1) by (auto simp: list_all_iff dest: in_set_dropD)
  moreover have "run_accepts accepts step (drop k ms) (fold step (take k ms) st)"
    using Cons.prems(2) by (rule run_accepts_drop)
  ultimately obtain dv' where "fold (on_ready_read S h) cs
      (names_after (take k ms) name, fold step (take k ms) st, dv1) =
      (names_after (drop k ms) (names_after (take k ms) name),
       fold step (drop k ms) (fold step (take k ms) st), dv')" "idle dv'"
    using Cons.IH[OF _ _ k(2), of "fold step (take k ms) st"] k(3) by auto
  moreover have "names_after (drop k ms) (names_after (take k ms) name) = names_after ms name"
    by (simp flip: names_after_append)
  moreover have "fold step (drop k ms) (fold step (take k ms) st) = fold step ms st"
    by (metis append_take_drop_id comp_apply fold_append)
  ultimately show ?case using k(1) by simp
qed

theorem delivers_from_idle:
  assumes "list_all (msg_fits S) ms" and "run_accepts accepts step ms st"
    and "concat chunks = concat (map (msg_frame S) ms)"
  shows "fold (on_ready_read S h) chunks (name, st, \<lparr>rxBuf = [], curReadSize = 0\<rparr>) =
      (names_after ms name, fold step ms st, \<lparr>rxBuf = [], curReadSize = 0\<rparr>)"
proof -
  let ?dv = "\<lparr>rxBuf = [], curReadSize = 0\<rparr>"
  have "awaits ?dv (concat chunks) ms" using assms(3) by (simp add: awaits_def)
  moreover have "ms = []" if "chunks = []"
  proof (cases ms)
    case (Cons m ms')
    with assms(3) that have "msg_frame S m = []" by simp
    with msg_frame_length[of m] show ?thesis by simp
  qed simp
  ultimately obtain dv' where "fold (on_ready_read S h) chunks (name, st, ?dv) =
      (names_after ms name, fold step ms st, dv')" "rxBuf dv' = []" "curReadSize dv' = 0"
    using delivers[OF assms(1,2), of ?dv chunks name] by auto
  then show ?thesis by (cases dv') simp
qed

end

end
