(* ===== verification/ApiMap.thy ===== *)
theory ApiMap
  imports Prelude
begin

text \<open>
  \<open>SourceApiMap\<close> (\<open>qremoteobjectsource.h\<close>): the table that numbers the properties, signals and
  methods a source offers. Both ends of a connection speak in these numbers, so everything else
  rests on the laws the locale \<open>source_api\<close> states. The two implementations are
  \<open>DynamicApiMap\<close> (\<open>qremoteobjectsource.cpp\<close>), built by reflection from a \<open>QMetaObject\<close>, and
  \<open>QAbstractItemAdapterSourceAPI\<close> (\<open>qremoteobjectabstractitemmodeladapter_p.h\<close>), the fixed
  table of a model. A \<open>QMetaObject\<close> is data here: what \<open>DynamicApiMap\<close> reads from it.
\<close>

record metatype =
  mt_name :: string
  mt_size :: nat
  mt_isEnum :: bool
  mt_isGadget :: bool
  mt_toQObject :: bool
  mt_isVariant :: bool

datatype method_kind = Method | Signal | Slot | Constructor

record metamethod =
  mm_kind :: method_kind
  mm_signature :: string
  mm_params :: "metatype list"
  mm_names :: "string list"
  mm_typeName :: string

text \<open>
  \<open>mp_notify\<close> is \<open>notifySignalIndex()\<close>, with \<open>None\<close> for its \<open>-1\<close>. \<open>mp_child\<close> is the
  metaobject of a \<open>QObject*\<close> property's value, or of its declared type when it holds null;
  \<open>ci_type\<close> is the \<open>RemoteObject Type\<close> class info, when there is one.
\<close>

record class_info =
  ci_className :: string
  ci_type :: "string option"
  ci_isModel :: bool

record metaprop =
  mp_name :: string
  mp_type :: metatype
  mp_notify :: "nat option"
  mp_child :: "class_info option"

record metaobject =
  mo_className :: string
  mo_enumOffset :: int
  mo_enumCount :: int
  mo_propOffset :: nat
  mo_props :: "metaprop list"
  mo_methodOffset :: nat
  mo_methods :: "metamethod list"
  mo_classInfo :: "(string \<times> string) list"
  mo_ownClassInfo :: "(string \<times> string) list"

text \<open>
  Class infos are in the order \<open>indexOfClassInfo\<close> searches them; \<open>mo_ownClassInfo\<close> are those of
  the class itself.

  What a client of the table calls: the virtual functions of \<open>SourceApiMap\<close>.\<close>

record api =
  api_name :: string
  api_typeName :: string
  api_className :: string
  objectSignature :: bytes
  enumCount :: int
  propertyCount :: nat
  signalCount :: nat
  methodCount :: nat
  sourceEnumIndex :: "int \<Rightarrow> int"
  sourcePropertyIndex :: "int \<Rightarrow> int"
  sourceSignalIndex :: "int \<Rightarrow> int"
  sourceMethodIndex :: "int \<Rightarrow> int"
  signalParams :: "int \<Rightarrow> metatype list"
  signalSignature :: "int \<Rightarrow> string"
  signalNames :: "int \<Rightarrow> string list"
  methodParams :: "int \<Rightarrow> metatype list"
  methodSignature :: "int \<Rightarrow> string"
  methodNames :: "int \<Rightarrow> string list"
  methodTypeName :: "int \<Rightarrow> string"
  propertyIndexFromSignal :: "int \<Rightarrow> int"
  propertyRawIndexFromSignal :: "int \<Rightarrow> int"
  isDynamic :: bool
  isAdapterSignal :: "int \<Rightarrow> bool"
  isAdapterMethod :: "int \<Rightarrow> bool"
  isAdapterProperty :: "int \<Rightarrow> bool"

definition latin1 :: "string \<Rightarrow> bytes" where
  "latin1 s = map (\<lambda>c. word_of_nat (of_char c)) s"

text \<open>
  The contract. An index in range has a source index and any other has \<open>-1\<close>; distinct properties
  have distinct source indices; and (\<open>notifying_api\<close>) a signal that stands for a property change names a property of
  the table, in both numberings consistently.
\<close>

locale source_api =
  fixes A :: api
  assumes property_range: "0 \<le> sourcePropertyIndex A i \<longleftrightarrow> 0 \<le> i \<and> i < int (propertyCount A)"
    and signal_range: "0 \<le> sourceSignalIndex A i \<longleftrightarrow> 0 \<le> i \<and> i < int (signalCount A)"
    and method_range: "0 \<le> sourceMethodIndex A i \<longleftrightarrow> 0 \<le> i \<and> i < int (methodCount A)"
    and property_inj: "0 \<le> sourcePropertyIndex A i \<Longrightarrow>
          sourcePropertyIndex A i = sourcePropertyIndex A j \<Longrightarrow> i = j"
begin

lemma method_out_of_range: "int (methodCount A) \<le> i \<or> i < 0 \<Longrightarrow> sourceMethodIndex A i < 0"
  using method_range[of i] by linarith

lemma property_out_of_range: "int (propertyCount A) \<le> i \<or> i < 0 \<Longrightarrow> sourcePropertyIndex A i < 0"
  using property_range[of i] by linarith

end

locale notifying_api = source_api +
  assumes signal_property: "0 \<le> propertyIndexFromSignal A s \<Longrightarrow>
          0 \<le> propertyRawIndexFromSignal A s \<and>
          sourcePropertyIndex A (propertyRawIndexFromSignal A s) = propertyIndexFromSignal A s"
begin

lemma raw_in_range:
  assumes "0 \<le> propertyIndexFromSignal A s"
  shows "propertyRawIndexFromSignal A s < int (propertyCount A)"
  using signal_property[OF assms] assms property_range[of "propertyRawIndexFromSignal A s"] by simp

text \<open>The property a change signal names is the only one with its source index.\<close>

lemma raw_unique:
  assumes "0 \<le> propertyIndexFromSignal A s" and "sourcePropertyIndex A j = propertyIndexFromSignal A s"
  shows "j = propertyRawIndexFromSignal A s"
  using signal_property[OF assms(1)] assms property_inj[of j "propertyRawIndexFromSignal A s"] by simp

end

subsection \<open>Dynamic tables\<close>

record dynamic_api =
  m_name :: string
  m_typeName :: string
  m_enumCount :: int
  m_enumOffset :: int
  m_properties :: "int list"
  m_signals :: "int list"
  m_methods :: "int list"
  m_propertyAssociatedWithSignal :: "int list"
  m_invalidSignals :: "int list"
  m_models :: "(string \<times> string) list"
  m_subclasses :: "(string \<times> string) list"
  m_metaObject :: metaobject
  m_objectSignature :: bytes

fun is_prefix :: "string \<Rightarrow> string \<Rightarrow> bool" where
  "is_prefix [] ys = True"
| "is_prefix (x # xs) [] = False"
| "is_prefix (x # xs) (y # ys) \<longleftrightarrow> x = y \<and> is_prefix xs ys"

fun str_indexOf_from :: "int \<Rightarrow> string \<Rightarrow> string \<Rightarrow> int" where
  "str_indexOf_from n p [] = (if p = [] then n else -1)"
| "str_indexOf_from n p (c # s) =
     (if is_prefix p (c # s) then n else str_indexOf_from (n + 1) p s)"

definition str_indexOf :: "string \<Rightarrow> string \<Rightarrow> int" where
  "str_indexOf p s = str_indexOf_from 0 p s"

definition str_contains :: "string \<Rightarrow> string \<Rightarrow> bool" where
  "str_contains p s \<longleftrightarrow> str_indexOf p s \<ge> 0"

fun str_remove :: "nat \<Rightarrow> string \<Rightarrow> string \<Rightarrow> string" where
  "str_remove n p [] = []"
| "str_remove 0 p (c # s) =
     (if p \<noteq> [] \<and> is_prefix p (c # s) then str_remove (length p - 1) p s
      else c # str_remove 0 p s)"
| "str_remove (Suc n) p (c # s) = str_remove n p s"

definition str_endsWith :: "string \<Rightarrow> string \<Rightarrow> bool" where
  "str_endsWith p s \<longleftrightarrow> is_prefix (rev p) (rev s)"

text \<open>\<open>QString::truncate\<close>: a negative position truncates to nothing.\<close>

definition str_truncate :: "int \<Rightarrow> string \<Rightarrow> string" where
  "str_truncate n s = take (nat n) s"

definition str_chop :: "nat \<Rightarrow> string \<Rightarrow> string" where
  "str_chop n s = take (length s - n) s"

text \<open>
  The type name of a sub-object. The second test is \<open>if (int index = typeName.indexOf(..))\<close>:
  it holds for every index but 0, the \<open>-1\<close> of a name without the marker included.
\<close>

definition subclass_typeName :: "class_info \<Rightarrow> string" where
  "subclass_typeName ci =
    (case ci_type ci of
       Some t \<Rightarrow> t
     | None \<Rightarrow>
        let t = ci_className ci; index = str_indexOf ''_QMLTYPE_'' t
        in if str_contains ''QQuick'' t then str_remove 0 ''QQuick'' t
           else if index \<noteq> 0 then str_truncate index t
           else if str_endsWith ''Source'' t then str_chop 6 t
           else t)"

definition latin1_upper :: "string \<Rightarrow> string" where
  "latin1_upper s = map (\<lambda>c. let n = of_char c :: nat
     in if 97 \<le> n \<and> n \<le> 122 then char_of (n - 32) else c) s"

definition class_info_value :: "(string \<times> string) list \<Rightarrow> string \<Rightarrow> string" where
  "class_info_value cis key = (case map_of cis key of Some v \<Rightarrow> v | None \<Rightarrow> [])"

text \<open>One turn of the property loop; \<open>i\<close> is the property's absolute index.\<close>

definition add_property :: "metaobject \<Rightarrow> dynamic_api \<Rightarrow> int \<Rightarrow> dynamic_api" where
  "add_property mo d i =
    (let p = mo_props mo ! nat i;
         skip = mt_toQObject (mp_type p) \<and> mp_child p = None;
         d1 = (if mt_toQObject (mp_type p)
               then (case mp_child p of
                       None \<Rightarrow> (case mp_notify p of
                                  Some n \<Rightarrow> d\<lparr>m_invalidSignals := int n # m_invalidSignals d\<rparr>
                                | None \<Rightarrow> d)
                     | Some ci \<Rightarrow>
                        (if ci_isModel ci
                         then d\<lparr>m_models := m_models d @ [(mp_name p,
                                class_info_value (mo_classInfo mo) (latin1_upper (mp_name p) @ ''_ROLES''))]\<rparr>
                         else d\<lparr>m_subclasses := m_subclasses d @ [(mp_name p, subclass_typeName ci)]\<rparr>))
               else d)
     in if skip then d1
        else
          let d2 = d1\<lparr>m_properties := m_properties d1 @ [i]\<rparr>
          in case mp_notify p of
               Some n \<Rightarrow> d2\<lparr>m_signals := m_signals d2 @ [int n],
                            m_propertyAssociatedWithSignal :=
                              m_propertyAssociatedWithSignal d2 @ [i - int (mo_propOffset mo)]\<rparr>
             | None \<Rightarrow> d2)"

definition add_method :: "metaobject \<Rightarrow> dynamic_api \<Rightarrow> int \<Rightarrow> dynamic_api" where
  "add_method mo d i =
    (case mm_kind (mo_methods mo ! nat i) of
       Signal \<Rightarrow>
         (if i \<in> set (m_signals d) then d
          else if i \<in> set (m_invalidSignals d) then d
          else d\<lparr>m_signals := m_signals d @ [i]\<rparr>)
     | Slot \<Rightarrow> d\<lparr>m_methods := m_methods d @ [i]\<rparr>
     | Method \<Rightarrow> d\<lparr>m_methods := m_methods d @ [i]\<rparr>
     | Constructor \<Rightarrow> d)"

definition DynamicApiMap :: "metaobject \<Rightarrow> string \<Rightarrow> string \<Rightarrow> dynamic_api" where
  "DynamicApiMap mo name typeName =
    (let d0 = \<lparr>m_name = name, m_typeName = typeName,
               m_enumCount = mo_enumCount mo - mo_enumOffset mo, m_enumOffset = mo_enumOffset mo,
               m_properties = [], m_signals = [], m_methods = [],
               m_propertyAssociatedWithSignal = [], m_invalidSignals = [],
               m_models = [], m_subclasses = [], m_metaObject = mo, m_objectSignature = []\<rparr>;
         d1 = foldl (add_property mo) d0
                (map int [mo_propOffset mo ..< length (mo_props mo)]);
         d2 = foldl (add_method mo) d1
                (map int [mo_methodOffset mo ..< length (mo_methods mo)])
     in d2\<lparr>m_objectSignature :=
             latin1 (class_info_value (mo_ownClassInfo mo) ''RemoteObject Signature'')\<rparr>)"

definition index_at :: "int list \<Rightarrow> int \<Rightarrow> int" where
  "index_at xs i = (if i < 0 \<or> i \<ge> int (length xs) then -1 else xs ! nat i)"

text \<open>
  The accessors. \<open>propertyIndexFromSignal\<close> looks the associated number up in \<open>m_properties\<close>,
  where \<open>QList::at\<close> aborts on a number out of range: here that is \<open>-1\<close>, as is \<open>method\<close>'s
  invalid method for a source index the metaobject does not have.
\<close>

definition method_at :: "dynamic_api \<Rightarrow> int list \<Rightarrow> int \<Rightarrow> metamethod option" where
  "method_at d xs i =
    (let k = index_at xs i; ms = mo_methods (m_metaObject d)
     in if 0 \<le> k \<and> k < int (length ms) then Some (ms ! nat k) else None)"

definition via :: "('a \<Rightarrow> 'b list) \<Rightarrow> 'a option \<Rightarrow> 'b list" where
  "via f x = (case x of Some y \<Rightarrow> f y | None \<Rightarrow> [])"

definition dynamic_table :: "dynamic_api \<Rightarrow> api" where
  "dynamic_table d =
    \<lparr>api_name = m_name d, api_typeName = m_typeName d,
     api_className = mo_className (m_metaObject d), objectSignature = m_objectSignature d,
     enumCount = m_enumCount d,
     propertyCount = length (m_properties d), signalCount = length (m_signals d),
     methodCount = length (m_methods d),
     sourceEnumIndex = (\<lambda>i. if i < 0 \<or> i \<ge> m_enumCount d then -1 else m_enumOffset d + i),
     sourcePropertyIndex = index_at (m_properties d),
     sourceSignalIndex = index_at (m_signals d),
     sourceMethodIndex = index_at (m_methods d),
     signalParams = (\<lambda>i. via mm_params (method_at d (m_signals d) i)),
     signalSignature = (\<lambda>i. via mm_signature (method_at d (m_signals d) i)),
     signalNames = (\<lambda>i. via mm_names (method_at d (m_signals d) i)),
     methodParams = (\<lambda>i. via mm_params (method_at d (m_methods d) i)),
     methodSignature = (\<lambda>i. via mm_signature (method_at d (m_methods d) i)),
     methodNames = (\<lambda>i. via mm_names (method_at d (m_methods d) i)),
     methodTypeName = (\<lambda>i. via mm_typeName (method_at d (m_methods d) i)),
     propertyIndexFromSignal = (\<lambda>i.
       if 0 \<le> i \<and> i < int (length (m_propertyAssociatedWithSignal d))
       then index_at (m_properties d) (m_propertyAssociatedWithSignal d ! nat i) else -1),
     propertyRawIndexFromSignal = (\<lambda>i.
       if 0 \<le> i \<and> i < int (length (m_propertyAssociatedWithSignal d))
       then m_propertyAssociatedWithSignal d ! nat i else -1),
     isDynamic = True,
     isAdapterSignal = (\<lambda>_. False), isAdapterMethod = (\<lambda>_. False),
     isAdapterProperty = (\<lambda>_. False)\<rparr>"


subsection \<open>The table of a model\<close>

text \<open>
  \<open>QAbstractItemAdapterSourceAPI\<close> fills three arrays from the metaobjects of the adapter and of
  the model, with slot 0 of each array the count. The adapter declares \<open>availableRoles\<close> and
  \<open>roleNames\<close> right behind \<open>QObject\<close>'s one property; the indices of signals and methods, which
  also come from the model's metaobject, are the argument \<open>tab\<close>.
\<close>

record adapter_tab =
  at_signals :: "nat list"
  at_methods :: "nat list"
  at_signalParams :: "metatype list list"
  at_methodParams :: "metatype list list"

definition adapter_properties :: "nat list" where
  "adapter_properties = [1, 2]"

definition adapter_signalSignature :: "int \<Rightarrow> string" where
  "adapter_signalSignature i =
    (if i = 0 then ''availableRolesChanged()''
     else if i = 1 then ''dataChanged(QtPrivate::IndexList,QtPrivate::IndexList,QList<int>)''
     else if i = 2 then ''rowsInserted(QtPrivate::IndexList,int,int)''
     else if i = 3 then ''rowsRemoved(QtPrivate::IndexList,int,int)''
     else if i = 4 then ''rowsMoved(QtPrivate::IndexList,int,int,QtPrivate::IndexList,int)''
     else if i = 5 then ''currentChanged(QtPrivate::IndexList,QtPrivate::IndexList)''
     else if i = 6 then ''resetModel()''
     else if i = 7 then ''headerDataChanged(Qt::Orientation,int,int)''
     else if i = 8 then ''columnsInserted(QtPrivate::IndexList,int,int)''
     else if i = 9 then ''layoutChanged(QtPrivate::IndexList,QAbstractItemModel::LayoutChangeHint)''
     else [])"

definition adapter_methodSignature :: "int \<Rightarrow> string" where
  "adapter_methodSignature i =
    (if i = 0 then ''replicaSizeRequest(QtPrivate::IndexList)''
     else if i = 1 then ''replicaRowRequest(QtPrivate::IndexList,QtPrivate::IndexList,QList<int>)''
     else if i = 2 then ''replicaHeaderRequest(QList<Qt::Orientation>,QList<int>,QList<int>)''
     else if i = 3 then ''replicaSetCurrentIndex(QtPrivate::IndexList,QItemSelectionModel::SelectionFlags)''
     else if i = 4 then ''replicaSetData(QtPrivate::IndexList,QVariant,int)''
     else if i = 5 then ''replicaCacheRequest(size_t,QList<int>)''
     else [])"

definition adapter_typeName :: "int \<Rightarrow> string" where
  "adapter_typeName i =
    (if i = 0 then ''QSize''
     else if i = 1 then ''QtPrivate::DataEntries''
     else if i = 2 then ''QVariantList''
     else if i = 3 then []
     else if i = 5 then ''QtPrivate::MetaAndDataEntries''
     else [])"

text \<open>The accessors of an array with its count in slot 0.\<close>

definition counted_at :: "nat list \<Rightarrow> int \<Rightarrow> int" where
  "counted_at xs i = (if i < 0 \<or> i \<ge> int (xs ! 0) then -1 else int (xs ! nat (i + 1)))"

definition params_at :: "metatype list list \<Rightarrow> int \<Rightarrow> metatype list" where
  "params_at xs i = (if 0 \<le> i \<and> i < int (length xs) then xs ! nat i else [])"

definition adapter_table :: "adapter_tab \<Rightarrow> string \<Rightarrow> api" where
  "adapter_table tab name =
    (let ps = 2 # adapter_properties; ss = 10 # at_signals tab; ms = 6 # at_methods tab
     in \<lparr>api_name = name, api_typeName = ''QAbstractItemModelAdapter'',
         api_className = ''QAbstractItemModelAdapterSource'', objectSignature = [],
         enumCount = 0, propertyCount = ps ! 0, signalCount = ss ! 0, methodCount = ms ! 0,
         sourceEnumIndex = (\<lambda>_. -1),
         sourcePropertyIndex = counted_at ps, sourceSignalIndex = counted_at ss,
         sourceMethodIndex = counted_at ms,
         signalParams = params_at (at_signalParams tab),
         signalSignature = adapter_signalSignature,
         signalNames = (\<lambda>i. replicate (length (params_at (at_signalParams tab) i)) []),
         methodParams = params_at (at_methodParams tab),
         methodSignature = adapter_methodSignature,
         methodNames = (\<lambda>i. replicate (length (params_at (at_methodParams tab) i)) []),
         methodTypeName = adapter_typeName,
         propertyIndexFromSignal = (\<lambda>i. if i = 0 then int (ps ! 1) else -1),
         propertyRawIndexFromSignal = (\<lambda>i. if i = 0 then 0 else -1),
         isDynamic = False,
         isAdapterSignal = (\<lambda>i. i \<in> {0, 1, 2, 3, 4, 5, 8, 9}),
         isAdapterMethod = (\<lambda>i. i \<in> {0, 1, 2, 3, 4, 5}),
         isAdapterProperty = (\<lambda>i. i \<in> {0, 1})\<rparr>)"

lemma adapter_source_api:
  "notifying_api (adapter_table tab name)"
proof
  fix i j :: int and s
  let ?A = "adapter_table tab name"
  show "0 \<le> sourcePropertyIndex ?A i \<longleftrightarrow> 0 \<le> i \<and> i < int (propertyCount ?A)"
    "0 \<le> sourceSignalIndex ?A i \<longleftrightarrow> 0 \<le> i \<and> i < int (signalCount ?A)"
    "0 \<le> sourceMethodIndex ?A i \<longleftrightarrow> 0 \<le> i \<and> i < int (methodCount ?A)"
    by (auto simp: adapter_table_def counted_at_def Let_def)
  show "0 \<le> propertyIndexFromSignal ?A s \<Longrightarrow> 0 \<le> propertyRawIndexFromSignal ?A s \<and>
      sourcePropertyIndex ?A (propertyRawIndexFromSignal ?A s) = propertyIndexFromSignal ?A s"
    by (auto simp: adapter_table_def counted_at_def Let_def adapter_properties_def split: if_splits)
  assume "0 \<le> sourcePropertyIndex ?A i" and eq: "sourcePropertyIndex ?A i = sourcePropertyIndex ?A j"
  then have i: "0 \<le> i" "i < 2" and j: "0 \<le> j" "j < 2"
    by (auto simp: adapter_table_def counted_at_def Let_def split: if_splits)
  then have "i = 0 \<or> i = 1" "j = 0 \<or> j = 1" by linarith+
  then show "i = j"
    using eq by (auto simp: adapter_table_def counted_at_def Let_def adapter_properties_def)
qed

interpretation adapter: notifying_api "adapter_table tab name" for tab name
  by (rule adapter_source_api)

subsection \<open>What the constructor builds\<close>

definition skipped :: "metaprop \<Rightarrow> bool" where
  "skipped p \<longleftrightarrow> mt_toQObject (mp_type p) \<and> mp_child p = None"

definition prop_at :: "metaobject \<Rightarrow> int \<Rightarrow> metaprop" where
  "prop_at mo i = mo_props mo ! nat i"

text \<open>What one turn of the property loop does to the numbering.\<close>

lemma add_property_numbers:
  "m_properties (add_property mo d i) =
     m_properties d @ (if skipped (prop_at mo i) then [] else [i])"
  "m_propertyAssociatedWithSignal (add_property mo d i) = m_propertyAssociatedWithSignal d @
     (if skipped (prop_at mo i) \<or> mp_notify (prop_at mo i) = None then []
      else [i - int (mo_propOffset mo)])"
  "m_signals (add_property mo d i) = m_signals d @
     (if skipped (prop_at mo i) then [] else case mp_notify (prop_at mo i) of None \<Rightarrow> [] | Some n \<Rightarrow> [int n])"
  "m_methods (add_property mo d i) = m_methods d"
  by (auto simp: add_property_def Let_def skipped_def prop_at_def split: option.splits)

lemma add_properties_numbers:
  "m_properties (foldl (add_property mo) d is) =
     m_properties d @ filter (\<lambda>i. \<not> skipped (prop_at mo i)) is"
  "m_propertyAssociatedWithSignal (foldl (add_property mo) d is) = m_propertyAssociatedWithSignal d @
     map (\<lambda>i. i - int (mo_propOffset mo))
       (filter (\<lambda>i. \<not> skipped (prop_at mo i) \<and> mp_notify (prop_at mo i) \<noteq> None) is)"
  "\<exists>l. m_signals (foldl (add_property mo) d is) = m_signals d @ map int l"
  "m_methods (foldl (add_property mo) d is) = m_methods d"
proof (induction "is" arbitrary: d)
  case (Cons i "is")
  { case 1 show ?case by (simp add: Cons(1) add_property_numbers) }
  { case 2 show ?case by (simp add: Cons(2) add_property_numbers) }
  { case 3
    obtain l where "m_signals (foldl (add_property mo) (add_property mo d i) is) =
        m_signals (add_property mo d i) @ map int l" using Cons(3) by blast
    moreover obtain l' where "m_signals (add_property mo d i) = m_signals d @ map int l'"
    proof
      show "m_signals (add_property mo d i) = m_signals d @
          map int (if skipped (prop_at mo i) then []
                   else case mp_notify (prop_at mo i) of None \<Rightarrow> [] | Some n \<Rightarrow> [n])"
        by (simp add: add_property_numbers split: option.split)
    qed
    ultimately show ?case by (intro exI[of _ "l' @ l"]) simp }
  { case 4 show ?case by (simp add: Cons(4) add_property_numbers) }
qed (auto intro: exI[of _ "[]"])

lemma add_method_numbers:
  "m_properties (add_method mo d i) = m_properties d"
  "m_propertyAssociatedWithSignal (add_method mo d i) = m_propertyAssociatedWithSignal d"
  "m_signals (add_method mo d i) = m_signals d \<or> m_signals (add_method mo d i) = m_signals d @ [i]"
  "m_methods (add_method mo d i) = m_methods d \<or> m_methods (add_method mo d i) = m_methods d @ [i]"
  by (auto simp: add_method_def split: method_kind.splits)

lemma add_methods_numbers:
  "m_properties (foldl (add_method mo) d is) = m_properties d"
  "m_propertyAssociatedWithSignal (foldl (add_method mo) d is) = m_propertyAssociatedWithSignal d"
  "set (m_signals (foldl (add_method mo) d is)) \<subseteq> set (m_signals d) \<union> set is"
  "set (m_methods (foldl (add_method mo) d is)) \<subseteq> set (m_methods d) \<union> set is"
proof (induction "is" arbitrary: d)
  case (Cons i "is")
  { case 1 show ?case by (simp add: Cons(1) add_method_numbers) }
  { case 2 show ?case by (simp add: Cons(2) add_method_numbers) }
  { case 3
    show ?case using Cons(3)[of "add_method mo d i"] add_method_numbers(3)[of mo d i] by auto }
  { case 4
    show ?case using Cons(4)[of "add_method mo d i"] add_method_numbers(4)[of mo d i] by auto }
qed auto

lemma DynamicApiMap_numbers:
  "m_properties (DynamicApiMap mo n t) =
     filter (\<lambda>i. \<not> skipped (prop_at mo i)) (map int [mo_propOffset mo ..< length (mo_props mo)])"
  "m_propertyAssociatedWithSignal (DynamicApiMap mo n t) =
     map (\<lambda>i. i - int (mo_propOffset mo))
       (filter (\<lambda>i. \<not> skipped (prop_at mo i) \<and> mp_notify (prop_at mo i) \<noteq> None)
         (map int [mo_propOffset mo ..< length (mo_props mo)]))"
  by (simp_all add: DynamicApiMap_def Let_def add_methods_numbers(1,2) add_properties_numbers(1,2))

lemma DynamicApiMap_nonneg:
  "i \<in> set (m_signals (DynamicApiMap mo n t)) \<Longrightarrow> 0 \<le> i"
  "i \<in> set (m_methods (DynamicApiMap mo n t)) \<Longrightarrow> 0 \<le> i"
proof -
  let ?d0 = "\<lparr>m_name = n, m_typeName = t,
               m_enumCount = mo_enumCount mo - mo_enumOffset mo, m_enumOffset = mo_enumOffset mo,
               m_properties = [], m_signals = [], m_methods = [],
               m_propertyAssociatedWithSignal = [], m_invalidSignals = [],
               m_models = [], m_subclasses = [], m_metaObject = mo, m_objectSignature = []\<rparr>"
  let ?ps = "map int [mo_propOffset mo ..< length (mo_props mo)]"
  let ?ms = "map int [mo_methodOffset mo ..< length (mo_methods mo)]"
  obtain l where l: "m_signals (foldl (add_property mo) ?d0 ?ps) = map int l"
    using add_properties_numbers(3)[of mo ?d0 ?ps] by auto
  show "i \<in> set (m_signals (DynamicApiMap mo n t)) \<Longrightarrow> 0 \<le> i"
    using add_methods_numbers(3)[of mo "foldl (add_property mo) ?d0 ?ps" ?ms] l
    by (auto simp: DynamicApiMap_def Let_def)
  show "i \<in> set (m_methods (DynamicApiMap mo n t)) \<Longrightarrow> 0 \<le> i"
    using add_methods_numbers(4)[of mo "foldl (add_property mo) ?d0 ?ps" ?ms]
    by (auto simp: DynamicApiMap_def Let_def add_properties_numbers(4))
qed

lemma index_at_range:
  assumes "\<And>x. x \<in> set xs \<Longrightarrow> 0 \<le> x"
  shows "0 \<le> index_at xs i \<longleftrightarrow> 0 \<le> i \<and> i < int (length xs)"
  using assms nth_mem[of "nat i" xs] by (auto simp: index_at_def)

lemma index_at_inj:
  assumes "distinct xs" and "0 \<le> index_at xs i" and "\<And>x. x \<in> set xs \<Longrightarrow> 0 \<le> x"
    and "index_at xs i = index_at xs j"
  shows "i = j"
proof -
  have "0 \<le> i" "i < int (length xs)" "0 \<le> j" "j < int (length xs)"
    using assms index_at_range[of xs i] index_at_range[of xs j] by auto
  with assms(1,4) show ?thesis by (simp add: index_at_def nth_eq_iff_index_eq)
qed

lemma dynamic_source_api: "source_api (dynamic_table (DynamicApiMap mo n t))"
proof
  let ?d = "DynamicApiMap mo n t"
  have props: "x \<in> set (m_properties ?d) \<Longrightarrow> 0 \<le> x" for x
    by (auto simp: DynamicApiMap_numbers)
  fix i j
  show "0 \<le> sourcePropertyIndex (dynamic_table ?d) i \<longleftrightarrow>
      0 \<le> i \<and> i < int (propertyCount (dynamic_table ?d))"
    by (simp add: dynamic_table_def index_at_range props)
  show "0 \<le> sourceSignalIndex (dynamic_table ?d) i \<longleftrightarrow>
      0 \<le> i \<and> i < int (signalCount (dynamic_table ?d))"
    by (simp add: dynamic_table_def index_at_range DynamicApiMap_nonneg)
  show "0 \<le> sourceMethodIndex (dynamic_table ?d) i \<longleftrightarrow>
      0 \<le> i \<and> i < int (methodCount (dynamic_table ?d))"
    by (simp add: dynamic_table_def index_at_range DynamicApiMap_nonneg)
  assume "0 \<le> sourcePropertyIndex (dynamic_table ?d) i"
    and "sourcePropertyIndex (dynamic_table ?d) i = sourcePropertyIndex (dynamic_table ?d) j"
  moreover have "distinct (m_properties ?d)"
    by (simp add: DynamicApiMap_numbers distinct_map)
  ultimately show "i = j"
    using index_at_inj[of "m_properties ?d" i j] props by (simp add: dynamic_table_def)
qed

interpretation dyn: source_api "dynamic_table (DynamicApiMap mo n t)" for mo n t
  by (rule dynamic_source_api)

text \<open>
  The association of signals with properties counts the properties of the metaobject, while
  \<open>m_properties\<close> leaves out the \<open>QObject*\<close> properties whose metaobject is not known. Without
  such a property both numberings agree; with one they drift apart.
\<close>

lemma unskipped_properties:
  assumes "\<not> list_ex skipped (drop (mo_propOffset mo) (mo_props mo))"
  shows "m_properties (DynamicApiMap mo n t) = map int [mo_propOffset mo ..< length (mo_props mo)]"
proof -
  let ?o = "mo_propOffset mo" and ?l = "length (mo_props mo)"
  have "\<not> skipped (prop_at mo i)" if "i \<in> set (map int [?o ..< ?l])" for i
  proof -
    from that obtain k where k: "i = int k" "?o \<le> k" "k < ?l" by auto
    then have "prop_at mo i \<in> set (drop ?o (mo_props mo))"
      using nth_mem[of "k - ?o" "drop ?o (mo_props mo)"] by (simp add: prop_at_def)
    with assms show ?thesis by (auto simp: list_ex_iff)
  qed
  then show ?thesis
    unfolding DynamicApiMap_numbers by (simp add: filter_id_conv)
qed

lemma dynamic_notifying:
  assumes "\<not> list_ex skipped (drop (mo_propOffset mo) (mo_props mo))"
    and off: "mo_propOffset mo \<le> length (mo_props mo)"
  shows "notifying_api (dynamic_table (DynamicApiMap mo n t))"
proof -
  let ?d = "DynamicApiMap mo n t" and ?o = "mo_propOffset mo" and ?l = "length (mo_props mo)"
  have props: "m_properties ?d = map int [?o ..< ?l]" by (rule unskipped_properties[OF assms(1)])
  have assoc: "0 \<le> a \<and> a < int (?l - ?o)" if "a \<in> set (m_propertyAssociatedWithSignal ?d)" for a
    using that unfolding DynamicApiMap_numbers by auto
  show ?thesis
  proof (unfold_locales)
    fix s
    assume "0 \<le> propertyIndexFromSignal (dynamic_table ?d) s"
    then have s: "0 \<le> s" "s < int (length (m_propertyAssociatedWithSignal ?d))"
      by (auto simp: dynamic_table_def split: if_splits)
    then have "m_propertyAssociatedWithSignal ?d ! nat s \<in> set (m_propertyAssociatedWithSignal ?d)"
      by simp
    with assoc s show "0 \<le> propertyRawIndexFromSignal (dynamic_table ?d) s \<and>
        sourcePropertyIndex (dynamic_table ?d) (propertyRawIndexFromSignal (dynamic_table ?d) s) =
        propertyIndexFromSignal (dynamic_table ?d) s"
      by (simp add: dynamic_table_def)
  qed
qed

end
