(* ===== verification/Source.thy ===== *)
theory Source
  imports Receive ApiMap
begin

text \<open>
  The sources of a host (\<open>qremoteobjectsource.cpp\<close>): construction of a source and its children,
  registration, the list of listeners a root shares with its children, the marshalling of signal
  arguments and the packets a change of the object sends. The record \<open>sourceio\<close> is the state of
  \<open>QRemoteObjectSourceIo\<close> (\<open>qremoteobjectsourceio_p.h\<close>) together with the objects it points to:
  sources, their \<open>Private\<close> data and connections are numbered, and a number with no entry is a
  deleted object.

  The user's objects are not part of the repository: they are the opaque \<open>world\<close>, with the
  operations of \<open>environment\<close>.
\<close>

type_synonym conn = nat
type_synonym srcid = nat

record 'v source =
  src_name :: string
  src_isRoot :: bool
  src_api :: api
  src_object :: "nat option"
  src_adapter :: "nat option"
  src_children :: "(int \<times> srcid) list"
  src_priv :: srcid
  src_args :: "'v list"

record privdata =
  listeners :: "conn list"
  p_isDynamic :: bool
  sentTypes :: "string list"

datatype src_signal =
    RemoteObjectAdded string string
  | RemoteObjectRemoved string string
  | ServerRemoved string

text \<open>Undefined behaviour the code can run into; the first one is kept and stops the handler.\<close>

datatype src_fault = DeletedSource srcid | NoSuchArgument nat

record ('v, 'w) sourceio =
  m_sourceObjects :: "(string, srcid) qmap"
  m_sourceRoots :: "(string, srcid) qmap"
  m_objectToSourceMap :: "(nat option \<times> srcid) list"
  m_registryMapping :: "(conn \<times> string) list"
  m_connections :: "conn list"
  m_codec :: dspacket
  m_rxName :: string
  m_rxArgs :: "'v list"
  sources :: "srcid \<Rightarrow> 'v source option"
  privates :: "srcid \<Rightarrow> privdata"
  nextSource :: srcid
  devices :: "conn \<Rightarrow> iodevice"
  serverAddress :: "string option"
  signals :: "src_signal list"
  watchers :: "(nat \<times> int32 \<times> conn) list"
  fault :: "src_fault option"
  world :: 'w

text \<open>
  What the code asks of the objects and of Qt. \<open>propf\<close> is \<open>serializeProperty\<close> of one property
  (it reads the object and updates the set of sent types), \<open>classdef\<close> is \<open>serializeDefinition\<close>;
  \<open>enc\<close>/\<open>dec\<close> are \<open>encodeVariant\<close>/\<open>decodeVariant\<close>. \<open>callm\<close> and \<open>setprop\<close> run an object's method or
  property setter: the signals it emits on the way, each with its source, signal index, arguments
  and the world at that moment, then the returned value and the world afterwards. \<open>pending\<close> tells
  a \<open>QRemoteObjectPendingCall\<close> from other values.
\<close>

record ('v, 'w) environment =
  propf :: "'v source \<Rightarrow> bool \<Rightarrow> int \<Rightarrow> string list \<times> 'w \<Rightarrow> bytes \<times> (string list \<times> 'w)"
  classdef :: "'v source \<Rightarrow> string list \<times> 'w \<Rightarrow> bytes \<times> (string list \<times> 'w)"
  enc :: "'v \<Rightarrow> 'v"
  dec :: "'v \<Rightarrow> metatype \<Rightarrow> 'v"
  callm :: "'v source \<Rightarrow> int \<Rightarrow> 'v list \<Rightarrow> 'w \<Rightarrow> (srcid \<times> int \<times> 'v list \<times> 'w) list \<times> 'v \<times> 'w"
  setprop :: "'v source \<Rightarrow> int \<Rightarrow> 'v list \<Rightarrow> 'w \<Rightarrow> (srcid \<times> int \<times> 'v list \<times> 'w) list \<times> 'w"
  pending :: "'v \<Rightarrow> nat option"
  hostUrl :: "'v \<Rightarrow> string"

text \<open>The values of \<open>QMetaObject::Call\<close> the protocol uses.\<close>

definition InvokeMetaMethod :: int32 where "InvokeMetaMethod = 0"
definition ReadProperty :: int32 where "ReadProperty = 1"
definition WriteProperty :: int32 where "WriteProperty = 2"

subsection \<open>Sending\<close>

definition send_list :: "conn list \<Rightarrow> ('v, 'w) sourceio \<Rightarrow> ('v, 'w) sourceio" where
  "send_list cs st =
    (let (bs, d) = payload (m_codec st)
     in st\<lparr>m_codec := dsp_reset d,
           devices := fold (\<lambda>c devs. devs(c := dev_write bs (devs c))) cs (devices st)\<rparr>)"

definition write_packet :: "(dspacket \<Rightarrow> dspacket) \<Rightarrow> ('v, 'w) sourceio \<Rightarrow> ('v, 'w) sourceio" where
  "write_packet f st = st\<lparr>m_codec := f (m_codec st)\<rparr>"

subsection \<open>Registration\<close>

definition registerSource :: "srcid \<Rightarrow> 'v source \<Rightarrow> ('v, 'w) sourceio \<Rightarrow> ('v, 'w) sourceio" where
  "registerSource i s st =
    (let st1 = st\<lparr>m_sourceObjects := qmap_insert (src_name s) i (m_sourceObjects st)\<rparr>
     in if \<not> src_isRoot s then st1
        else
          let st2 = st1\<lparr>m_sourceRoots := qmap_insert (src_name s) i (m_sourceRoots st1),
                        m_objectToSourceMap := (src_object s, i) #
                          filter (\<lambda>e. fst e \<noteq> src_object s) (m_objectToSourceMap st1)\<rparr>
          in case serverAddress st2 of
               None \<Rightarrow> st2
             | Some u \<Rightarrow> st2\<lparr>signals := signals st2 @ [RemoteObjectAdded (src_name s) (api_typeName (src_api s))]\<rparr>)"

definition unregisterSource :: "'v source \<Rightarrow> ('v, 'w) sourceio \<Rightarrow> ('v, 'w) sourceio" where
  "unregisterSource s st =
    (let st1 = st\<lparr>m_sourceObjects := qmap_remove (src_name s) (m_sourceObjects st)\<rparr>
     in if \<not> src_isRoot s then st1
        else
          let st2 = st1\<lparr>m_objectToSourceMap :=
                          filter (\<lambda>e. fst e \<noteq> src_object s) (m_objectToSourceMap st1),
                        m_sourceRoots := qmap_remove (src_name s) (m_sourceRoots st1)\<rparr>
          in case serverAddress st2 of
               None \<Rightarrow> st2
             | Some u \<Rightarrow> st2\<lparr>signals := signals st2 @ [RemoteObjectRemoved (src_name s) (api_typeName (src_api s))]\<rparr>)"

subsection \<open>Construction\<close>

text \<open>
  What the constructors find below an object: for each sub-object its property's index, its
  table, and the object and model adapter behind it, if any.
\<close>

datatype src_tree = SrcTree api "nat option" "nat option" src_forest
  and src_forest = NoChildren | Child int src_tree src_forest

fun tree_api :: "src_tree \<Rightarrow> api" where
  "tree_api (SrcTree a ob ad cs) = a"

definition child_name :: "string \<Rightarrow> api \<Rightarrow> string" where
  "child_name parentName a =
    (if api_typeName a = ''QAbstractItemModelAdapter'' then ''Model::'' else ''Class::'')
      @ parentName @ ''::'' @ api_name a"

text \<open>
  Children are built before their parent registers itself, and register only when they have an
  object. They get the table name of their parent, not the name it is registered under.
\<close>

fun new_source :: "src_tree \<Rightarrow> string \<Rightarrow> srcid \<Rightarrow> ('v, 'w) sourceio \<Rightarrow> srcid \<times> ('v, 'w) sourceio"
  and new_children :: "src_forest \<Rightarrow> string \<Rightarrow> srcid \<Rightarrow> ('v, 'w) sourceio \<Rightarrow>
         (int \<times> srcid) list \<times> ('v, 'w) sourceio" where
  "new_source (SrcTree a ob ad cs) parentName priv st =
     (let (kids, st1) = (if ob = None then ([], st) else new_children cs (api_name a) priv st);
          i = nextSource st1;
          s = \<lparr>src_name = child_name parentName a, src_isRoot = False, src_api = a, src_object = ob,
               src_adapter = ad, src_children = kids, src_priv = priv, src_args = []\<rparr>;
          st2 = st1\<lparr>sources := (sources st1)(i \<mapsto> s), nextSource := Suc i\<rparr>
      in (i, if ob = None then st2 else registerSource i s st2))"
| "new_children NoChildren parentName priv st = ([], st)"
| "new_children (Child p t cs) parentName priv st =
     (let (i, st1) = new_source t parentName priv st;
          (kids, st2) = new_children cs parentName priv st1
      in ((p, i) # kids, st2))"

definition new_root :: "src_tree \<Rightarrow> ('v, 'w) sourceio \<Rightarrow> srcid \<times> ('v, 'w) sourceio" where
  "new_root t st =
    (case t of SrcTree a ob ad cs \<Rightarrow>
      let i = nextSource st;
          st0 = st\<lparr>nextSource := Suc i,
                   privates := (privates st)(i := \<lparr>listeners = [], p_isDynamic = False, sentTypes = []\<rparr>)\<rparr>;
          (kids, st1) = (if ob = None then ([], st0) else new_children cs (api_name a) i st0);
          s = \<lparr>src_name = api_name a, src_isRoot = True, src_api = a, src_object = ob,
               src_adapter = ad, src_children = kids, src_priv = i, src_args = []\<rparr>
      in (i, registerSource i s (st1\<lparr>sources := (sources st1)(i \<mapsto> s)\<rparr>)))"

subsection \<open>Marshalling\<close>

text \<open>
  \<open>marshalArgs\<close> reuses the list of the previous signal: overwrites what is there, appends what is
  missing, and takes elements off the end in a loop whose bound shrinks as its counter grows.
\<close>

function drop_excess :: "nat \<Rightarrow> 'a list \<Rightarrow> 'a list" where
  "drop_excess i l = (if i < length l then drop_excess (Suc i) (butlast l) else l)"
  by pat_completeness auto
termination
  by (relation "measure (\<lambda>(i, l). length l - i)") auto

declare drop_excess.simps [simp del]

definition marshal_count :: "api \<Rightarrow> int \<Rightarrow> nat" where
  "marshal_count A index =
    (let ps = signalParams A index
     in if length ps = 1 \<and> mt_toQObject (hd ps) then 0 else length ps)"

definition marshalArgs :: "api \<Rightarrow> int \<Rightarrow> 'v list \<Rightarrow> 'v list \<Rightarrow> 'v list" where
  "marshalArgs A index a old =
    (let N = marshal_count A index;
         minFill = min (length old) N;
         l1 = take minFill a @ drop minFill old;
         l2 = l1 @ map (\<lambda>i. a ! i) [length l1 ..< N]
     in drop_excess N l2)"

text \<open>
  One emission: the change packet of a property's signal first, then the signal itself, in one
  write to every listener. Without listeners nothing is written.
\<close>

definition handleMetaCall ::
    "'v qstream \<Rightarrow> ('v, 'w) environment \<Rightarrow> srcid \<Rightarrow> int \<Rightarrow> 'v list \<Rightarrow> ('v, 'w) sourceio \<Rightarrow> ('v, 'w) sourceio" where
  "handleMetaCall S E i index a st =
    (case sources st i of
       None \<Rightarrow> st\<lparr>fault := Some (DeletedSource i)\<rparr>
     | Some s \<Rightarrow>
        let p = privates st (src_priv s); A = src_api s
        in if listeners p = [] then st
           else
             let isProp = propertyIndexFromSignal A index \<ge> 0;
                 internalIndex = propertyRawIndexFromSignal A index;
                 ((types, w), d1) =
                   (if isProp
                    then serializePropertyChangePacket S (propertyRawIndexFromSignal A)
                           (propf E s (p_isDynamic p)) (src_name s) index ((sentTypes p, world st), m_codec st)
                    else ((sentTypes p, world st), m_codec st));
                 args = marshalArgs A index a (src_args s);
                 propertyIndex = (if isProp then internalIndex else propertyIndexFromSignal A index);
                 d2 = serializeInvokePacket S (enc E) (src_name s) InvokeMetaMethod (word_of_int index)
                        args (-1) (word_of_int propertyIndex) d1
             in send_list (listeners p)
                  (st\<lparr>m_codec := d2, world := w,
                      sources := (sources st)(i \<mapsto> s\<lparr>src_args := args\<rparr>),
                      privates := (privates st)(src_priv s := p\<lparr>sentTypes := types\<rparr>)\<rparr>))"

subsection \<open>Listeners\<close>

definition addListener ::
    "'v qstream \<Rightarrow> ('v, 'w) environment \<Rightarrow> srcid \<Rightarrow> conn \<Rightarrow> bool \<Rightarrow> ('v, 'w) sourceio \<Rightarrow> ('v, 'w) sourceio" where
  "addListener S E i io dynamic st =
    (case sources st i of
       None \<Rightarrow> st\<lparr>fault := Some (DeletedSource i)\<rparr>
     | Some s \<Rightarrow>
        let p = privates st (src_priv s);
            p1 = p\<lparr>listeners := listeners p @ [io], p_isDynamic := p_isDynamic p \<or> dynamic,
                   sentTypes := (if dynamic then [] else sentTypes p)\<rparr>;
            ((types, w), d) =
              (if dynamic
               then serializeInitDynamicPacket S (classdef E s) (propf E s (p_isDynamic p1))
                      (src_name s) (propertyCount (src_api s)) ((sentTypes p1, world st), m_codec st)
               else serializeInitPacket S (propf E s (p_isDynamic p1))
                      (src_name s) (propertyCount (src_api s)) ((sentTypes p1, world st), m_codec st))
        in send_list [io]
             (st\<lparr>m_codec := d, world := w,
                 privates := (privates st)(src_priv s := p1\<lparr>sentTypes := types\<rparr>)\<rparr>))"

definition removeListener ::
    "'v qstream \<Rightarrow> srcid \<Rightarrow> conn \<Rightarrow> bool \<Rightarrow> ('v, 'w) sourceio \<Rightarrow> ('v, 'w) sourceio" where
  "removeListener S i io shouldSendRemove st =
    (case sources st i of
       None \<Rightarrow> st\<lparr>fault := Some (DeletedSource i)\<rparr>
     | Some s \<Rightarrow>
        let p = privates st (src_priv s);
            st1 = st\<lparr>privates := (privates st)(src_priv s := p\<lparr>listeners := removeAll io (listeners p)\<rparr>)\<rparr>
        in if shouldSendRemove
           then send_list [io] (write_packet (serializeRemoveObjectPacket S (api_name (src_api s))) st1)
           else st1)"

subsection \<open>Destruction\<close>

text \<open>
  The children of a source are deleted with it, recursively; only the root takes its name out of
  the tables. The fuel bounds the depth of the tree.
\<close>

fun delete_children :: "nat \<Rightarrow> (int \<times> srcid) list \<Rightarrow> ('v, 'w) sourceio \<Rightarrow> ('v, 'w) sourceio" where
  "delete_children 0 cs st = st"
| "delete_children (Suc n) cs st =
     foldl (\<lambda>st (p, c). case sources st c of
         None \<Rightarrow> st
       | Some s \<Rightarrow>
          let st1 = delete_children n (src_children s) st
          in st1\<lparr>sources := (sources st1)(c := None)\<rparr>) st cs"

definition delete_root :: "'v qstream \<Rightarrow> srcid \<Rightarrow> ('v, 'w) sourceio \<Rightarrow> ('v, 'w) sourceio" where
  "delete_root S i st =
    (case sources st i of
       None \<Rightarrow> st\<lparr>fault := Some (DeletedSource i)\<rparr>
     | Some s \<Rightarrow>
        let st1 = delete_children (nextSource st) (src_children s) st;
            st2 = unregisterSource s st1;
            ios = listeners (privates st2 (src_priv s));
            st3 = st2\<lparr>privates := (privates st2)(src_priv s := (privates st2 (src_priv s))\<lparr>listeners := []\<rparr>)\<rparr>;
            st4 = foldl (\<lambda>st io. removeListener S i io True st) st3 ios
        in st4\<lparr>sources := (sources st4)(i := None)\<rparr>)"

end
