(* ===== verification/SourceIo.thy ===== *)
theory SourceIo
  imports Source
begin

text \<open>
  \<open>QRemoteObjectSourceIo\<close> (\<open>qremoteobjectsourceio.cpp\<close>): what a host does when a connection
  opens, sends packets or closes, and when objects are shared or withdrawn. \<open>server_handler\<close> is
  the body of the loop of \<open>onServerRead\<close>, in the form the loop of \<open>Receive\<close> runs it.
\<close>

subsection \<open>Invoking an object\<close>

text \<open>
  The object emits its signals while the call runs: each is handled as it comes, in the world of
  that moment.
\<close>

definition run_emissions ::
    "'v qstream \<Rightarrow> ('v, 'w) environment \<Rightarrow> (srcid \<times> int \<times> 'v list \<times> 'w) list \<Rightarrow>
     ('v, 'w) sourceio \<Rightarrow> ('v, 'w) sourceio" where
  "run_emissions S E es st =
    foldl (\<lambda>st (i, sig, a, w). handleMetaCall S E i sig a (st\<lparr>world := w\<rparr>)) st es"

definition invoke_method ::
    "'v qstream \<Rightarrow> ('v, 'w) environment \<Rightarrow> srcid \<Rightarrow> int \<Rightarrow> 'v list \<Rightarrow> ('v, 'w) sourceio \<Rightarrow>
     'v option \<times> ('v, 'w) sourceio" where
  "invoke_method S E i index args st =
    (case sources st i of
       None \<Rightarrow> (None, st\<lparr>fault := Some (DeletedSource i)\<rparr>)
     | Some s \<Rightarrow>
        if sourceMethodIndex (src_api s) index < 0 then (None, st)
        else
          let (es, v, w) = callm E s (sourceMethodIndex (src_api s) index) args (world st);
              st' = run_emissions S E es st
          in (Some v, st'\<lparr>world := w\<rparr>))"

definition invoke_write ::
    "'v qstream \<Rightarrow> ('v, 'w) environment \<Rightarrow> srcid \<Rightarrow> int \<Rightarrow> 'v list \<Rightarrow> ('v, 'w) sourceio \<Rightarrow> ('v, 'w) sourceio" where
  "invoke_write S E i index args st =
    (case sources st i of
       None \<Rightarrow> st\<lparr>fault := Some (DeletedSource i)\<rparr>
     | Some s \<Rightarrow>
        if sourcePropertyIndex (src_api s) index < 0 then st
        else
          let (es, w) = setprop E s (sourcePropertyIndex (src_api s) index) args (world st);
              st' = run_emissions S E es st
          in st'\<lparr>world := w\<rparr>)"

subsection \<open>Packets from a client\<close>

text \<open>
  The first invocation of the registry on a connection names the host behind it:
  \<open>m_rxArgs.first()\<close>, which must not be empty.
\<close>

definition note_registry ::
    "('v, 'w) environment \<Rightarrow> conn \<Rightarrow> ('v, 'w) sourceio \<Rightarrow> ('v, 'w) sourceio" where
  "note_registry E c st =
    (if m_rxName st = ''Registry'' \<and> map_of (m_registryMapping st) c = None
     then (case m_rxArgs st of
             [] \<Rightarrow> st\<lparr>fault := Some (NoSuchArgument 0)\<rparr>
           | v # vs \<Rightarrow> st\<lparr>m_registryMapping := (c, hostUrl E v) # m_registryMapping st\<rparr>)
     else st)"

text \<open>
  The parameters of a method of the object are decoded in place, one for each parameter the
  method declares; \<open>m_rxArgs[i]\<close> must exist.
\<close>

definition decode_args :: "('v, 'w) environment \<Rightarrow> metatype list \<Rightarrow> 'v list \<Rightarrow> (nat, 'v list) sum" where
  "decode_args E ts args =
    (if length args < length ts then Inl (length args)
     else Inr (map2 (dec E) (take (length ts) args) ts @ drop (length ts) args))"

definition send_reply ::
    "'v qstream \<Rightarrow> ('v, 'w) environment \<Rightarrow> string \<Rightarrow> int32 \<Rightarrow> 'v \<Rightarrow> conn \<Rightarrow> ('v, 'w) sourceio \<Rightarrow>
     ('v, 'w) sourceio" where
  "send_reply S E name serialId v c st =
    send_list [c] (write_packet (serializeInvokeReplyPacket S name serialId (enc E v)) st)"

definition prepare_args ::
    "('v, 'w) environment \<Rightarrow> api \<Rightarrow> int \<Rightarrow> 'v list \<Rightarrow> (nat, 'v list) sum" where
  "prepare_args E A index args =
    (if isAdapterMethod A index then Inr args else decode_args E (methodParams A index) args)"

text \<open>The reply, if one is wanted: at once, or by a watcher when the value is a pending call.\<close>

definition finish_call ::
    "'v qstream \<Rightarrow> ('v, 'w) environment \<Rightarrow> conn \<Rightarrow> int32 \<Rightarrow> 'v option \<times> ('v, 'w) sourceio \<Rightarrow>
     ('v, 'w) sourceio" where
  "finish_call S E c serialId r =
    (case fst r of
       None \<Rightarrow> snd r
     | Some v \<Rightarrow>
        if sint serialId < 0 then snd r
        else (case pending E v of
                Some k \<Rightarrow> (snd r)\<lparr>watchers := watchers (snd r) @ [(k, serialId, c)]\<rparr>
              | None \<Rightarrow> send_reply S E (m_rxName (snd r)) serialId v c (snd r)))"

definition handle_method ::
    "'v qstream \<Rightarrow> ('v, 'w) environment \<Rightarrow> conn \<Rightarrow> 'v invoke \<Rightarrow> srcid \<Rightarrow> 'v source \<Rightarrow> ('v, 'w) sourceio \<Rightarrow>
     ('v, 'w) sourceio" where
  "handle_method S E c iv i s st =
    (let A = src_api s; index = sint (inv_index iv)
     in if sourceMethodIndex A index < 0 then st
        else
          case prepare_args E A index (m_rxArgs st) of
            Inl k \<Rightarrow> st\<lparr>fault := Some (NoSuchArgument k)\<rparr>
          | Inr args \<Rightarrow>
             finish_call S E c (inv_serial iv)
               (invoke_method S E i index args (st\<lparr>m_rxArgs := args\<rparr>)))"

definition handle_write ::
    "'v qstream \<Rightarrow> ('v, 'w) environment \<Rightarrow> 'v invoke \<Rightarrow> srcid \<Rightarrow> 'v source \<Rightarrow> ('v, 'w) sourceio \<Rightarrow>
     ('v, 'w) sourceio" where
  "handle_write S E iv i s st =
    (if sourcePropertyIndex (src_api s) (sint (inv_index iv)) < 0 then st
     else invoke_write S E i (sint (inv_index iv)) (m_rxArgs st) st)"

definition handle_invoke ::
    "'v qstream \<Rightarrow> ('v, 'w) environment \<Rightarrow> conn \<Rightarrow> 'v invoke \<Rightarrow> ('v, 'w) sourceio \<Rightarrow> ('v, 'w) sourceio" where
  "handle_invoke S E c iv st =
    (let st1 = note_registry E c (st\<lparr>m_rxArgs := inv_args iv\<rparr>)
     in if fault st1 \<noteq> None then st1
        else
          case map_of (m_sourceObjects st1) (m_rxName st1) of
            None \<Rightarrow> st1
          | Some i \<Rightarrow>
             (case sources st1 i of
                None \<Rightarrow> st1\<lparr>fault := Some (DeletedSource i)\<rparr>
              | Some s \<Rightarrow>
                  if inv_call iv = InvokeMetaMethod then handle_method S E c iv i s st1
                  else handle_write S E iv i s st1))"

definition handle_add ::
    "'v qstream \<Rightarrow> ('v, 'w) environment \<Rightarrow> conn \<Rightarrow> bool \<Rightarrow> ('v, 'w) sourceio \<Rightarrow> ('v, 'w) sourceio" where
  "handle_add S E c dynamic st =
    (case map_of (m_sourceRoots st) (m_rxName st) of
       Some i \<Rightarrow> addListener S E i c dynamic st
     | None \<Rightarrow> st)"

definition handle_remove :: "'v qstream \<Rightarrow> conn \<Rightarrow> ('v, 'w) sourceio \<Rightarrow> ('v, 'w) sourceio" where
  "handle_remove S c st =
    (case map_of (m_sourceRoots st) (m_rxName st) of
       Some i \<Rightarrow> removeListener S i c False st
     | None \<Rightarrow> st)"

definition handle_ping :: "'v qstream \<Rightarrow> conn \<Rightarrow> ('v, 'w) sourceio \<Rightarrow> ('v, 'w) sourceio" where
  "handle_ping S c st = send_list [c] (write_packet (serializePongPacket S (m_rxName st)) st)"

text \<open>A packet of any other type is only logged: its body stays in the stream.\<close>

definition server_handler ::
    "'v qstream \<Rightarrow> ('v, 'w) environment \<Rightarrow> conn \<Rightarrow> ('v, 'w) sourceio handler" where
  "server_handler S E c t name i st =
    (let st0 = st\<lparr>m_rxName := name\<rparr>
     in case t of
          Ping \<Rightarrow> (True, handle_ping S c st0, i)
        | AddObject \<Rightarrow>
            (let (dynamic, i') = deserializeAddObjectPacket S i
             in (True, handle_add S E c dynamic st0, i'))
        | RemoveObject \<Rightarrow> (True, handle_remove S c st0, i)
        | InvokePacket \<Rightarrow>
            (let (iv, i') = deserializeInvokePacket S i (m_rxArgs st0);
                 st1 = handle_invoke S E c iv st0
             in (fault st1 = None, st1, i'))
        | _ \<Rightarrow> (True, st0, i))"

text \<open>\<open>rx\<close> is the receiving side of each connection.\<close>

definition onServerRead ::
    "'v qstream \<Rightarrow> ('v, 'w) environment \<Rightarrow> conn \<Rightarrow> bytes \<Rightarrow> ('v, 'w) sourceio \<times> (conn \<Rightarrow> rxdevice) \<Rightarrow>
     ('v, 'w) sourceio \<times> (conn \<Rightarrow> rxdevice)" where
  "onServerRead S E c chunk x =
    (let (st, rx) = x;
         (name, st1, dv) = on_ready_read S (server_handler S E c) chunk (m_rxName st, st, rx c)
     in (st1\<lparr>m_rxName := name\<rparr>, rx(c := dv)))"

text \<open>
  A \<open>QRemoteObjectPendingCall\<close> that a source's method returned finishes: the watcher's lambda
  replies on its connection, under the name \<open>m_rxName\<close> holds by then.
\<close>

definition pending_finished ::
    "'v qstream \<Rightarrow> ('v, 'w) environment \<Rightarrow> nat \<Rightarrow> 'v option \<Rightarrow> ('v, 'w) sourceio \<Rightarrow> ('v, 'w) sourceio" where
  "pending_finished S E call result st =
    (let st1 = foldl (\<lambda>st (k, serialId, c).
            if k = call then (case result of
                Some v \<Rightarrow> send_reply S E (m_rxName st) serialId v c st
              | None \<Rightarrow> st) else st) st (watchers st)
     in st1\<lparr>watchers := filter (\<lambda>(k, serialId, c). k \<noteq> call) (watchers st1)\<rparr>)"

subsection \<open>Connections\<close>

definition source_infos :: "('v, 'w) sourceio \<Rightarrow> object_info list" where
  "source_infos st =
    concat (map (\<lambda>(n, i). case sources st i of
        Some s \<Rightarrow> [\<lparr>oi_name = api_name (src_api s), oi_typeName = api_typeName (src_api s),
                    oi_signature = objectSignature (src_api s)\<rparr>]
      | None \<Rightarrow> []) (m_sourceRoots st))"

definition newConnection :: "'v qstream \<Rightarrow> conn \<Rightarrow> ('v, 'w) sourceio \<Rightarrow> ('v, 'w) sourceio" where
  "newConnection S c st =
    (let st1 = st\<lparr>m_connections := (if c \<in> set (m_connections st) then m_connections st
                                   else m_connections st @ [c])\<rparr>;
         st2 = send_list [c] (write_packet (serializeHandshakePacket S) st1)
     in send_list [c] (write_packet (serializeObjectListPacket S (source_infos st2)) st2))"

definition onServerDisconnect :: "'v qstream \<Rightarrow> conn \<Rightarrow> ('v, 'w) sourceio \<Rightarrow> ('v, 'w) sourceio" where
  "onServerDisconnect S c st =
    (let st1 = st\<lparr>m_connections := removeAll c (m_connections st)\<rparr>;
         st2 = foldl (\<lambda>st (n, i). removeListener S i c False st) st1 (m_sourceRoots st1);
         location = (case map_of (m_registryMapping st2) c of Some u \<Rightarrow> u | None \<Rightarrow> [])
     in st2\<lparr>signals := signals st2 @ [ServerRemoved location],
            m_registryMapping := filter (\<lambda>e. fst e \<noteq> c) (m_registryMapping st2),
            devices := (devices st2)(c := (devices st2 c)\<lparr>isClosing := True, devOpen := False\<rparr>),
            watchers := filter (\<lambda>(k, serialId, c'). c' \<noteq> c) (watchers st2)\<rparr>)"

subsection \<open>Sharing objects\<close>

definition enableRemoting_api ::
    "'v qstream \<Rightarrow> src_tree \<Rightarrow> ('v, 'w) sourceio \<Rightarrow> bool \<times> ('v, 'w) sourceio" where
  "enableRemoting_api S t st =
    (let A = tree_api t
     in if \<not> isDynamic A \<and> map_of (m_sourceRoots st) (api_name A) \<noteq> None then (False, st)
        else
          let (i, st1) = new_root t st;
              info = \<lparr>oi_name = api_name A, oi_typeName = api_typeName A,
                      oi_signature = objectSignature A\<rparr>
          in (True, send_list (m_connections st1)
                      (write_packet (serializeObjectListPacket S [info]) st1)))"

definition enableRemoting ::
    "'v qstream \<Rightarrow> src_tree \<Rightarrow> ('v, 'w) sourceio \<Rightarrow> bool \<times> ('v, 'w) sourceio" where
  "enableRemoting S t st =
    (if map_of (m_sourceRoots st) (api_name (tree_api t)) \<noteq> None then (False, st)
     else enableRemoting_api S t st)"

definition disableRemoting ::
    "'v qstream \<Rightarrow> nat option \<Rightarrow> ('v, 'w) sourceio \<Rightarrow> bool \<times> ('v, 'w) sourceio" where
  "disableRemoting S ob st =
    (case map_of (m_objectToSourceMap st) ob of
       None \<Rightarrow> (False, st)
     | Some i \<Rightarrow>
        (True, delete_root S i
           (st\<lparr>m_objectToSourceMap := filter (\<lambda>e. fst e \<noteq> ob) (m_objectToSourceMap st)\<rparr>)))"

end
