(* ===== verification/LittleEndian.thy ===== *)
theory LittleEndian
  imports Stream
begin

text \<open>
  A concrete stream with the documented little-endian layout (\<open>DataStreamPacket\<close> and the
  devices both select \<open>QDataStream::LittleEndian\<close>): fixed-width integers least significant
  byte first, a boolean as one byte, strings as a byte count and UTF-16 code units, byte arrays
  as a count and the bytes. Its variants are those that hold an \<open>int\<close> (type id 2, a null flag,
  the value). It shows that the laws of \<open>qdata_stream\<close> can hold, and it is the stream the
  witnesses run on.
\<close>

fun le_put :: "nat \<Rightarrow> nat \<Rightarrow> bytes" where
  "le_put 0 x = []"
| "le_put (Suc n) x = word_of_nat (x mod 256) # le_put n (x div 256)"

fun le_get :: "nat \<Rightarrow> bytes \<Rightarrow> nat \<times> bytes" where
  "le_get 0 i = (0, i)"
| "le_get (Suc n) [] = (0, [])"
| "le_get (Suc n) (b # i) = (let (x, r) = le_get n i in (unat b + 256 * x, r))"

lemma unat_byte_of_nat: "unat (word_of_nat (x mod 256) :: byte) = x mod 256"
  by (simp add: unat_of_nat take_bit_nat_def)

lemma length_le_put [simp]: "length (le_put n x) = n"
  by (induction n arbitrary: x) auto

lemma le_get_put: "x < 256 ^ n \<Longrightarrow> le_get n (le_put n x @ r) = (x, r)"
proof (induction n arbitrary: x)
  case 0
  then show ?case by simp
next
  case (Suc n)
  from Suc.prems have "x div 256 < 256 ^ n"
    by (simp add: less_mult_imp_div_less mult.commute)
  then have "le_get n (le_put n (x div 256) @ r) = (x div 256, r)" by (rule Suc.IH)
  then show ?case by (simp add: unat_byte_of_nat)
qed

lemma le_get_length: "length (snd (le_get n i)) = length i - n"
  by (induction n i rule: le_get.induct) (auto simp: Let_def split_beta)

definition le_put16 :: "u16 \<Rightarrow> bytes" where
  "le_put16 w = le_put 2 (unat w)"

definition le_get16 :: "bytes \<Rightarrow> u16 \<times> bytes" where
  "le_get16 i = (let (x, r) = le_get 2 i in (word_of_nat x, r))"

definition le_put32 :: "u32 \<Rightarrow> bytes" where
  "le_put32 w = le_put 4 (unat w)"

definition le_get32 :: "bytes \<Rightarrow> u32 \<times> bytes" where
  "le_get32 i = (let (x, r) = le_get 4 i in (word_of_nat x, r))"

lemma le16_rt: "le_get16 (le_put16 w @ r) = (w, r)"
proof -
  have "unat w < 256 ^ 2" using unsigned_less[of w] by simp
  then show ?thesis by (simp add: le_get16_def le_put16_def le_get_put)
qed

lemma le32_rt: "le_get32 (le_put32 w @ r) = (w, r)"
proof -
  have "unat w < 256 ^ 4" using unat_lt_u32[of w] by simp
  then show ?thesis by (simp add: le_get32_def le_put32_def le_get_put)
qed

lemma le32_length [simp]: "length (snd (le_get32 i)) = length i - 4"
  by (simp add: le_get32_def Let_def split_beta le_get_length)

lemma le_put16_length [simp]: "length (le_put16 w) = 2"
  by (simp add: le_put16_def)

lemma le_put32_length [simp]: "length (le_put32 w) = 4"
  by (simp add: le_put32_def)

lemma le16_length [simp]: "length (snd (le_get16 i)) = length i - 2"
  by (simp add: le_get16_def Let_def split_beta le_get_length)

fun le_put_bool :: "bool \<Rightarrow> bytes" where
  "le_put_bool b = [if b then 1 else 0]"

fun le_get_bool :: "bytes \<Rightarrow> bool \<times> bytes" where
  "le_get_bool [] = (False, [])"
| "le_get_bool (b # i) = (b \<noteq> 0, i)"

fun le_put_unit :: "char \<Rightarrow> bytes" where
  "le_put_unit c = [word_of_nat (of_char c), 0]"

fun le_get_unit :: "bytes \<Rightarrow> char \<times> bytes" where
  "le_get_unit (b # c # i) = (char_of (unat b), i)"
| "le_get_unit i = (CHR 0x00, [])"

definition le_put_str :: "string \<Rightarrow> bytes" where
  "le_put_str s = le_put32 (word_of_nat (2 * length s)) @ put_elems le_put_unit s"

definition le_get_str :: "bytes \<Rightarrow> string \<times> bytes" where
  "le_get_str i = (let (n, r) = le_get32 i in get_elems le_get_unit (unat n div 2) r)"

definition le_put_bytes :: "bytes \<Rightarrow> bytes" where
  "le_put_bytes b = le_put32 (word_of_nat (length b)) @ b"

definition le_get_bytes :: "bytes \<Rightarrow> bytes \<times> bytes" where
  "le_get_bytes i = (let (n, r) = le_get32 i in (take (unat n) r, drop (unat n) r))"

definition le_put_var :: "u32 \<Rightarrow> bytes" where
  "le_put_var w = le_put32 2 @ [0] @ le_put32 w"

definition le_get_var :: "bytes \<Rightarrow> u32 \<times> bytes" where
  "le_get_var i = (let (_, r) = le_get32 i in le_get32 (drop 1 r))"

definition le_stream :: "u32 qstream" where
  "le_stream =
    \<lparr>put_u16 = le_put16, get_u16 = le_get16, put_u32 = le_put32, get_u32 = le_get32,
     put_bool = le_put_bool, get_bool = le_get_bool, put_str = le_put_str, get_str = le_get_str,
     put_bytes = le_put_bytes, get_bytes = le_get_bytes,
     put_var = le_put_var, get_var = le_get_var, streamable = (\<lambda>_. True)\<rparr>"

lemma le_stream_sel [simp]:
  "put_u16 le_stream = le_put16" "get_u16 le_stream = le_get16"
  "put_u32 le_stream = le_put32" "get_u32 le_stream = le_get32"
  "put_bool le_stream = le_put_bool" "get_bool le_stream = le_get_bool"
  "put_str le_stream = le_put_str" "get_str le_stream = le_get_str"
  "put_bytes le_stream = le_put_bytes" "get_bytes le_stream = le_get_bytes"
  "put_var le_stream = le_put_var" "get_var le_stream = le_get_var"
  "streamable le_stream v"
  by (simp_all add: le_stream_def)

lemma le_unit_rt: "le_get_unit (le_put_unit c @ r) = (c, r)"
proof -
  have "(of_char c :: nat) < 2 ^ 8" by (cases c) (simp add: of_char_def horner_sum_simps)
  then have "unat (word_of_nat (of_char c) :: byte) = of_char c"
    by (simp add: unat_of_nat take_bit_nat_eq_self_iff)
  then show ?thesis by simp
qed

lemma le_unit_shrinks: "length (snd (le_get_unit i)) \<le> length i"
  by (induction i rule: le_get_unit.induct) auto

lemma le_str_rt: "str_fits s \<Longrightarrow> le_get_str (le_put_str s @ r) = (s, r)"
  using get_put_elems[of s le_get_unit le_put_unit r] le_unit_rt
  by (simp add: le_get_str_def le_put_str_def le32_rt unat_of_nat_u32 str_fits_def
      flip: of_nat_mult)

lemma le_stream_laws: "qdata_stream le_stream"
proof
  fix s r
  assume "str_fits s"
  then show "get_str le_stream (put_str le_stream s @ r) = (s, r)" by (simp add: le_str_rt)
next
  fix bs r
  assume "bytes_fit bs"
  then show "get_bytes le_stream (put_bytes le_stream bs @ r) = (bs, r)"
    by (simp add: le_get_bytes_def le_put_bytes_def le32_rt unat_of_nat_u32 bytes_fit_def)
next
  fix i
  show "length (snd (get_str le_stream i)) \<le> length i"
    using get_elems_shrinks[OF le_unit_shrinks, of "unat (fst (le_get32 i)) div 2" "snd (le_get32 i)"]
      le32_length[of i]
    by (simp add: le_get_str_def Let_def split_beta)
next
  fix i
  show "length (snd (get_bytes le_stream i)) \<le> length i"
    by (simp add: le_get_bytes_def Let_def split_beta)
next
  fix i
  show "length (snd (get_bool le_stream i)) \<le> length i"
    by (cases i) auto
qed (simp_all add: le16_rt le32_rt le_get_var_def le_put_var_def Let_def split_beta)

interpretation le: qdata_stream le_stream
  by (rule le_stream_laws)

end
