(* ===== verification/SourceProps.thy ===== *)
theory SourceProps
  imports SourceIo LittleEndian
begin

text \<open>
  What the operations of a host do: the bytes each of them puts on which connection, the effect on
  listeners and registration, and the invariant of the host's state. The handler of the receiving
  loop is shown to consume exactly the packets it accepts, which makes it a \<open>packet_handler\<close>.
\<close>

subsection \<open>Sending\<close>

definition broadcast :: "conn list \<Rightarrow> bytes \<Rightarrow> (conn \<Rightarrow> iodevice) \<Rightarrow> conn \<Rightarrow> iodevice" where
  "broadcast cs bs devs c = (dev_write bs ^^ count_list cs c) (devs c)"

lemma fold_broadcast:
  "fold (\<lambda>c devs. devs(c := dev_write bs (devs c))) cs devs = broadcast cs bs devs"
proof (induction cs arbitrary: devs)
  case Nil
  then show ?case by (simp add: broadcast_def fun_eq_iff)
next
  case (Cons c cs)
  show ?case
    unfolding fold_simps Cons by (auto simp: broadcast_def fun_eq_iff funpow_swap1)
qed

definition codec_clean :: "('v, 'w) sourceio \<Rightarrow> bool" where
  "codec_clean st \<longleftrightarrow> dsp_idle (m_codec st) \<and> finished (m_codec st) = []"

lemma send_list_devices:
  "dsp_idle (m_codec st) \<Longrightarrow>
     devices (send_list cs st) = broadcast cs (finished (m_codec st)) (devices st)"
  by (simp add: send_list_def fold_broadcast payload_idle Let_def split_beta flip: payload_idle)

lemma dsp_reset_clean: "dsp_idle (dsp_reset d)" "finished (dsp_reset d) = []"
  by (simp_all add: dsp_reset_def dsp_idle_def finished_def)

lemma send_list_frame [simp, frame_simps]:
  "m_sourceObjects (send_list cs st) = m_sourceObjects st"
  "m_sourceRoots (send_list cs st) = m_sourceRoots st"
  "m_objectToSourceMap (send_list cs st) = m_objectToSourceMap st"
  "m_registryMapping (send_list cs st) = m_registryMapping st"
  "m_connections (send_list cs st) = m_connections st"
  "m_rxName (send_list cs st) = m_rxName st" "m_rxArgs (send_list cs st) = m_rxArgs st"
  "sources (send_list cs st) = sources st" "privates (send_list cs st) = privates st"
  "nextSource (send_list cs st) = nextSource st"
  "serverAddress (send_list cs st) = serverAddress st" "signals (send_list cs st) = signals st"
  "watchers (send_list cs st) = watchers st" "fault (send_list cs st) = fault st"
  "world (send_list cs st) = world st"
  by (simp_all add: send_list_def Let_def split_beta)

lemma send_list_clean [simp]: "codec_clean (send_list cs st)"
  by (simp add: send_list_def codec_clean_def Let_def split_beta dsp_reset_clean)

lemma write_packet_sel [simp, frame_simps]:
  "m_codec (write_packet f st) = f (m_codec st)"
  "m_sourceObjects (write_packet f st) = m_sourceObjects st"
  "m_sourceRoots (write_packet f st) = m_sourceRoots st"
  "m_objectToSourceMap (write_packet f st) = m_objectToSourceMap st"
  "m_registryMapping (write_packet f st) = m_registryMapping st"
  "m_connections (write_packet f st) = m_connections st"
  "m_rxName (write_packet f st) = m_rxName st" "m_rxArgs (write_packet f st) = m_rxArgs st"
  "sources (write_packet f st) = sources st" "privates (write_packet f st) = privates st"
  "nextSource (write_packet f st) = nextSource st" "devices (write_packet f st) = devices st"
  "serverAddress (write_packet f st) = serverAddress st" "signals (write_packet f st) = signals st"
  "watchers (write_packet f st) = watchers st" "fault (write_packet f st) = fault st"
  "world (write_packet f st) = world st"
  by (simp_all add: write_packet_def)

subsection \<open>A change of an object\<close>

text \<open>
  The bytes of one emission: for a property's signal the change packet and then the invocation,
  for any other signal the invocation.
\<close>

definition emission_bytes ::
    "'v qstream \<Rightarrow> ('v, 'w) environment \<Rightarrow> 'v source \<Rightarrow> bool \<Rightarrow> int \<Rightarrow> 'v list \<Rightarrow> string list \<times> 'w \<Rightarrow> bytes" where
  "emission_bytes S E s dynamic index a tw =
    (let A = src_api s; raw = propertyRawIndexFromSignal A index;
         isProp = propertyIndexFromSignal A index \<ge> 0
     in (if isProp
         then frame S (packet_id PropertyChangePacket)
                (prop_body S (src_name s) raw (fst (propf E s dynamic raw tw)))
         else []) @
        msg_frame S (invoke_msg (enc E) (src_name s) InvokeMetaMethod (word_of_int index)
          (marshalArgs A index a (src_args s)) (-1)
          (word_of_int (if isProp then raw else propertyIndexFromSignal A index))))"

context qdata_stream
begin

lemma send_msg:
  assumes "codec_clean st" and "msg_writable m" and "f = msg_write S m"
  shows "devices (send_list cs (write_packet f st)) = broadcast cs (msg_frame S m) (devices st)"
proof -
  have "dsp_idle (msg_write S m (m_codec st))"
    and "finished (msg_write S m (m_codec st)) = msg_frame S m"
    using assms(1) msg_write_frame[OF _ assms(2), of "m_codec st"] by (simp_all add: codec_clean_def)
  then show ?thesis by (simp add: send_list_devices assms(3))
qed

lemma handleMetaCall_devices:
  assumes "codec_clean st" and "sources st i = Some s" and "p = privates st (src_priv s)"
  shows "devices (handleMetaCall S E i index a st) =
    broadcast (listeners p)
      (emission_bytes S E s (p_isDynamic p) index a (sentTypes p, world st)) (devices st)"
proof (cases "listeners p = []")
  case True
  then show ?thesis
    using assms by (simp add: handleMetaCall_def Let_def broadcast_def fun_eq_iff)
next
  case False
  let ?A = "src_api s"
  let ?raw = "propertyRawIndexFromSignal ?A"
  have idle: "dsp_idle (m_codec st)" and fin: "finished (m_codec st) = []"
    using assms(1) by (simp_all add: codec_clean_def)
  show ?thesis
  proof (cases "propertyIndexFromSignal ?A index \<ge> 0")
    case isProp: True
    obtain tw' d1 where c: "serializePropertyChangePacket S ?raw (propf E s (p_isDynamic p))
        (src_name s) index ((sentTypes p, world st), m_codec st) = (tw', d1)"
      by (cases "serializePropertyChangePacket S ?raw (propf E s (p_isDynamic p))
        (src_name s) index ((sentTypes p, world st), m_codec st)")
    obtain t' w' where tw': "tw' = (t', w')" by (cases tw')
    note fr = serializePropertyChangePacket_frame[OF idle c]
    show ?thesis
      using False isProp assms(2,3) c tw' serializeInvokePacket_frame[OF fr(2)] fr(3)
      by (simp add: handleMetaCall_def Let_def send_list_devices emission_bytes_def fin)
  next
    case notProp: False
    then show ?thesis
      using False assms(2,3) serializeInvokePacket_frame[OF idle]
      by (simp add: handleMetaCall_def Let_def send_list_devices emission_bytes_def fin)
  qed
qed

end

lemma handleMetaCall_clean:
  "codec_clean st \<Longrightarrow> codec_clean (handleMetaCall S E i index a st)"
  by (auto simp: handleMetaCall_def Let_def split_beta split: option.splits)
     (simp add: codec_clean_def)

subsection \<open>What calls leave alone\<close>

text \<open>Two states of the host with the same sources, names, listeners and connections.\<close>

definition src_shape :: "'v source \<Rightarrow> 'v source" where
  "src_shape s = s\<lparr>src_args := []\<rparr>"

definition same_shape :: "('v, 'w) sourceio \<Rightarrow> ('v, 'w) sourceio \<Rightarrow> bool" where
  "same_shape st st' \<longleftrightarrow>
    m_sourceObjects st' = m_sourceObjects st \<and> m_sourceRoots st' = m_sourceRoots st \<and>
    m_objectToSourceMap st' = m_objectToSourceMap st \<and> m_connections st' = m_connections st \<and>
    nextSource st' = nextSource st \<and>
    map_option src_shape \<circ> sources st' = map_option src_shape \<circ> sources st \<and>
    listeners \<circ> privates st' = listeners \<circ> privates st"

lemma same_shape_refl [simp]: "same_shape st st"
  by (simp add: same_shape_def)

lemma same_shape_trans: "same_shape st st' \<Longrightarrow> same_shape st' st'' \<Longrightarrow> same_shape st st''"
  by (simp add: same_shape_def)

lemma same_shape_source:
  assumes "same_shape st st'" and "sources st i = Some s"
  obtains s' where "sources st' i = Some s'" and "src_shape s' = src_shape s"
  using assms unfolding same_shape_def comp_def fun_eq_iff by (metis map_option_eq_Some option.simps(9))

lemma same_shape_listeners: "same_shape st st' \<Longrightarrow> listeners (privates st' i) = listeners (privates st i)"
  unfolding same_shape_def comp_def fun_eq_iff by blast

lemma same_shape_send [simp]: "same_shape st (send_list cs st') \<longleftrightarrow> same_shape st st'"
  by (simp add: same_shape_def)

lemma same_shape_write [simp]: "same_shape st (write_packet f st') \<longleftrightarrow> same_shape st st'"
  by (simp add: same_shape_def)

lemma same_shape_updates [simp]:
  "same_shape st (st'\<lparr>world := w\<rparr>) \<longleftrightarrow> same_shape st st'"
  "same_shape st (st'\<lparr>fault := f\<rparr>) \<longleftrightarrow> same_shape st st'"
  "same_shape st (st'\<lparr>m_rxArgs := l\<rparr>) \<longleftrightarrow> same_shape st st'"
  "same_shape st (st'\<lparr>m_rxName := n\<rparr>) \<longleftrightarrow> same_shape st st'"
  "same_shape st (st'\<lparr>m_codec := d\<rparr>) \<longleftrightarrow> same_shape st st'"
  "same_shape st (st'\<lparr>watchers := ws\<rparr>) \<longleftrightarrow> same_shape st st'"
  "same_shape st (st'\<lparr>m_registryMapping := r\<rparr>) \<longleftrightarrow> same_shape st st'"
  by (simp_all add: same_shape_def)

lemma handleMetaCall_shape: "same_shape st (handleMetaCall S E i index a st)"
proof (cases "sources st i")
  case (Some s)
  have "same_shape st (st\<lparr>m_codec := d, world := w, sources := (sources st)(i \<mapsto> s\<lparr>src_args := l\<rparr>),
      privates := (privates st)(src_priv s := (privates st (src_priv s))\<lparr>sentTypes := t\<rparr>)\<rparr>)" for d w l t
    using Some by (auto simp: same_shape_def src_shape_def fun_eq_iff)
  then show ?thesis using Some by (simp add: handleMetaCall_def Let_def split_beta)
qed (simp add: handleMetaCall_def)

lemma run_emissions_shape: "same_shape st (run_emissions S E es st)"
proof (induction es arbitrary: st)
  case (Cons e es)
  obtain i sig a w where e: "e = (i, sig, a, w)" by (cases e)
  have "same_shape st (handleMetaCall S E i sig a (st\<lparr>world := w\<rparr>))"
    using handleMetaCall_shape[of "st\<lparr>world := w\<rparr>" S E i sig a] by (simp add: same_shape_def)
  from same_shape_trans[OF this Cons] show ?case by (simp add: run_emissions_def e)
qed (simp add: run_emissions_def)

lemma invoke_method_shape: "same_shape st (snd (invoke_method S E i index args st))"
  by (auto simp: invoke_method_def split_beta Let_def run_emissions_shape split: option.splits)

lemma invoke_write_shape: "same_shape st (invoke_write S E i index args st)"
  by (auto simp: invoke_write_def split_beta Let_def run_emissions_shape split: option.splits)

lemma finish_call_shape: "same_shape st (snd r) \<Longrightarrow> same_shape st (finish_call S E c n r)"
  by (simp add: finish_call_def send_reply_def split: option.split)

lemma handle_method_shape: "same_shape st (handle_method S E c iv i s st)"
proof -
  have "same_shape st (snd (invoke_method S E i ix args (st\<lparr>m_rxArgs := args'\<rparr>)))" for ix args args'
    using invoke_method_shape[of "st\<lparr>m_rxArgs := args'\<rparr>" S E i ix args] by (simp add: same_shape_def)
  then show ?thesis
    by (simp add: handle_method_def Let_def finish_call_shape split: sum.split)
qed

lemma note_registry_shape [simp]: "same_shape st (note_registry E c st') \<longleftrightarrow> same_shape st st'"
  by (auto simp: note_registry_def split: list.splits)

lemma handle_invoke_shape: "same_shape st (handle_invoke S E c iv st)"
proof -
  let ?st1 = "note_registry E c (st\<lparr>m_rxArgs := inv_args iv\<rparr>)"
  have h: "same_shape st ?st1" by simp
  have "same_shape st (handle_method S E c iv i s ?st1)" and "same_shape st (handle_write S E iv i s ?st1)"
    for i s
    using same_shape_trans[OF h handle_method_shape, of S E c iv i s] h
      same_shape_trans[OF h invoke_write_shape, of S E i] by (simp_all add: handle_write_def)
  then show ?thesis by (auto simp: handle_invoke_def Let_def split: option.splits)
qed

subsection \<open>The invariant\<close>

definition root_ok :: "('v, 'w) sourceio \<Rightarrow> string \<Rightarrow> srcid \<Rightarrow> bool" where
  "root_ok st n i \<longleftrightarrow>
    (\<exists>s. sources st i = Some s \<and> src_isRoot s \<and> src_name s = n \<and> api_name (src_api s) = n \<and>
       src_priv s = i) \<and> i < nextSource st \<and>
    set (listeners (privates st i)) \<subseteq> set (m_connections st)"

text \<open>Children are numbered and are not roots.\<close>

definition kids_ok :: "('v, 'w) sourceio \<Rightarrow> bool" where
  "kids_ok st \<longleftrightarrow>
    (\<forall>i s c. sources st i = Some s \<longrightarrow> c \<in> snd ` set (src_children s) \<longrightarrow>
       c < nextSource st \<and> (\<forall>s'. sources st c = Some s' \<longrightarrow> \<not> src_isRoot s'))"

definition sio_ok :: "('v, 'w) sourceio \<Rightarrow> bool" where
  "sio_ok st \<longleftrightarrow> codec_clean st \<and> kids_ok st \<and>
    qmap_ok (m_sourceObjects st) \<and> qmap_ok (m_sourceRoots st) \<and>
    (\<forall>n i. map_of (m_sourceRoots st) n = Some i \<longrightarrow> root_ok st n i)"

lemma root_ok_shape: "same_shape st st' \<Longrightarrow> root_ok st n i \<Longrightarrow> root_ok st' n i"
proof -
  assume sh: "same_shape st st'" and ok: "root_ok st n i"
  then obtain s where s: "sources st i = Some s" "src_isRoot s" "src_name s = n"
    "api_name (src_api s) = n" "src_priv s = i" by (auto simp: root_ok_def)
  from sh s(1) obtain s' where s': "sources st' i = Some s'" "src_shape s' = src_shape s"
    by (rule same_shape_source)
  then have "src_isRoot s' = src_isRoot s" "src_name s' = src_name s" "src_api s' = src_api s"
    "src_priv s' = src_priv s"
    by (metis source.select_convs(2) source.ext_inject source.surjective source.update_convs(8) src_shape_def
        | (cases s; cases s'; simp add: src_shape_def))+
  with s s' ok same_shape_listeners[OF sh] sh show ?thesis
    by (auto simp: root_ok_def same_shape_def)
qed

lemma src_shape_sel:
  assumes "src_shape s' = src_shape s"
  shows "src_isRoot s' = src_isRoot s" "src_children s' = src_children s"
  using assms by (cases s; cases s'; simp add: src_shape_def)+

lemma same_shape_sym: "same_shape st st' \<Longrightarrow> same_shape st' st"
  by (simp add: same_shape_def)

lemma kids_ok_shape:
  assumes sh: "same_shape st st'" and ok: "kids_ok st"
  shows "kids_ok st'"
  unfolding kids_ok_def
proof (intro allI impI)
  fix i s c
  assume "sources st' i = Some s" and c: "c \<in> snd ` set (src_children s)"
  with same_shape_source[OF same_shape_sym[OF sh]] obtain s0 where
    s0: "sources st i = Some s0" "src_shape s0 = src_shape s" by blast
  then have "c < nextSource st \<and> (\<forall>s'. sources st c = Some s' \<longrightarrow> \<not> src_isRoot s')"
    using ok c src_shape_sel(2)[OF s0(2)] unfolding kids_ok_def by auto
  then show "c < nextSource st' \<and> (\<forall>s'. sources st' c = Some s' \<longrightarrow> \<not> src_isRoot s')"
    using same_shape_source[OF same_shape_sym[OF sh], of c] src_shape_sel(1) sh
    unfolding same_shape_def by metis
qed

lemma kids_ok_cong: "sources st' = sources st \<Longrightarrow> nextSource st' = nextSource st \<Longrightarrow> kids_ok st' = kids_ok st"
  by (simp add: kids_ok_def)

lemma kids_ok_updates [simp]:
  "kids_ok (send_list cs st) \<longleftrightarrow> kids_ok st" "kids_ok (write_packet f st) \<longleftrightarrow> kids_ok st"
  "kids_ok (st\<lparr>privates := p\<rparr>) \<longleftrightarrow> kids_ok st" "kids_ok (st\<lparr>m_connections := cs\<rparr>) \<longleftrightarrow> kids_ok st"
  "kids_ok (st\<lparr>devices := ds\<rparr>) \<longleftrightarrow> kids_ok st" "kids_ok (st\<lparr>signals := ss\<rparr>) \<longleftrightarrow> kids_ok st"
  "kids_ok (st\<lparr>watchers := ws\<rparr>) \<longleftrightarrow> kids_ok st" "kids_ok (st\<lparr>m_registryMapping := r\<rparr>) \<longleftrightarrow> kids_ok st"
  "kids_ok (st\<lparr>m_objectToSourceMap := om\<rparr>) \<longleftrightarrow> kids_ok st"
  "kids_ok (st\<lparr>m_sourceObjects := so\<rparr>) \<longleftrightarrow> kids_ok st" "kids_ok (st\<lparr>m_sourceRoots := sr\<rparr>) \<longleftrightarrow> kids_ok st"
  by (simp_all add: kids_ok_def)

lemma sio_ok_shape: "sio_ok st \<Longrightarrow> same_shape st st' \<Longrightarrow> codec_clean st' \<Longrightarrow> sio_ok st'"
  unfolding sio_ok_def using root_ok_shape[of st st'] kids_ok_shape[of st st']
  by (auto simp: same_shape_def)

lemma codec_clean_updates [simp]:
  "codec_clean (st\<lparr>world := w\<rparr>) \<longleftrightarrow> codec_clean st"
  "codec_clean (st\<lparr>fault := f\<rparr>) \<longleftrightarrow> codec_clean st"
  "codec_clean (st\<lparr>m_rxArgs := l\<rparr>) \<longleftrightarrow> codec_clean st"
  "codec_clean (st\<lparr>m_rxName := n\<rparr>) \<longleftrightarrow> codec_clean st"
  "codec_clean (st\<lparr>watchers := ws\<rparr>) \<longleftrightarrow> codec_clean st"
  "codec_clean (st\<lparr>m_registryMapping := r\<rparr>) \<longleftrightarrow> codec_clean st"
  by (simp_all add: codec_clean_def)

lemma run_emissions_clean: "codec_clean st \<Longrightarrow> codec_clean (run_emissions S E es st)"
proof (induction es arbitrary: st)
  case (Cons e es)
  obtain i sig a w where e: "e = (i, sig, a, w)" by (cases e)
  show ?case
    using Cons.IH[OF handleMetaCall_clean[of "st\<lparr>world := w\<rparr>"]] Cons.prems
    by (simp add: run_emissions_def e)
qed (simp add: run_emissions_def)

lemma invoke_method_clean: "codec_clean st \<Longrightarrow> codec_clean (snd (invoke_method S E i index args st))"
  by (auto simp: invoke_method_def split_beta Let_def run_emissions_clean split: option.splits)

lemma handle_invoke_clean:
  assumes "codec_clean st"
  shows "codec_clean (handle_invoke S E c iv st)"
proof -
  have note_clean: "codec_clean (note_registry E c st')" if "codec_clean st'" for st'
    using that by (auto simp: note_registry_def split: list.splits)
  have fin: "codec_clean (finish_call S E c n r)" if "codec_clean (snd r)" for n and r :: "'a option \<times> ('a, 'b) sourceio"
    using that by (simp add: finish_call_def send_reply_def split: option.split)
  have "codec_clean (handle_method S E c iv i s st')" if "codec_clean st'" for i s st'
    using that by (simp add: handle_method_def Let_def fin invoke_method_clean split: sum.split)
  moreover have "codec_clean (handle_write S E iv i s st')" if "codec_clean st'" for i s st'
    using that by (auto simp: handle_write_def invoke_write_def split_beta Let_def run_emissions_clean
        split: option.splits)
  ultimately show ?thesis
    using assms note_clean[of "st\<lparr>m_rxArgs := inv_args iv\<rparr>"]
    by (auto simp: handle_invoke_def Let_def split: option.splits)
qed

lemma handle_invoke_ok [wf_pres]: "sio_ok st \<Longrightarrow> sio_ok (handle_invoke S E c iv st)"
  by (rule sio_ok_shape[OF _ handle_invoke_shape handle_invoke_clean]) (simp_all add: sio_ok_def)

subsection \<open>The remaining operations keep the invariant\<close>

lemma sio_ok_root:
  assumes "sio_ok st" and "map_of (m_sourceRoots st) n = Some i"
  obtains s where "sources st i = Some s" "src_isRoot s" "src_name s = n" "api_name (src_api s) = n"
    "src_priv s = i"
  using assms unfolding sio_ok_def root_ok_def by blast

lemma addListener_sel:
  assumes "sources st i = Some s"
  shows "listeners (privates (addListener S E i io dynamic st) j) =
      listeners (privates st j) @ (if j = src_priv s then [io] else [])"
    and "m_sourceObjects (addListener S E i io dynamic st) = m_sourceObjects st"
    and "m_sourceRoots (addListener S E i io dynamic st) = m_sourceRoots st"
    and "m_connections (addListener S E i io dynamic st) = m_connections st"
    and "nextSource (addListener S E i io dynamic st) = nextSource st"
    and "sources (addListener S E i io dynamic st) = sources st"
    and "fault (addListener S E i io dynamic st) = fault st"
    and "codec_clean (addListener S E i io dynamic st)"
  using assms by (simp_all add: addListener_def Let_def split_beta)

lemma addListener_ok [wf_pres]:
  assumes ok: "sio_ok st" and "io \<in> set (m_connections st)" and "map_of (m_sourceRoots st) n = Some i"
  shows "sio_ok (addListener S E i io dynamic st)"
proof -
  from ok assms(3) obtain s where s: "sources st i = Some s" by (rule sio_ok_root)
  note sel = addListener_sel[OF s, of S E io dynamic]
  show ?thesis
    using ok assms(2) kids_ok_cong[OF sel(6,5)]
    unfolding sio_ok_def root_ok_def sel by (auto simp: sel(8))
qed

lemma removeListener_quiet:
  "sources st i = Some s \<Longrightarrow>
     removeListener S i io False st =
       st\<lparr>privates := (privates st)(src_priv s := (privates st (src_priv s))
            \<lparr>listeners := removeAll io (listeners (privates st (src_priv s)))\<rparr>)\<rparr>"
  by (simp add: removeListener_def Let_def)

lemma removeListener_ok [wf_pres]:
  assumes ok: "sio_ok st" and "map_of (m_sourceRoots st) n = Some i"
  shows "sio_ok (removeListener S i io False st)"
proof -
  from assms obtain s where s: "sources st i = Some s" "src_priv s = i" by (rule sio_ok_root)
  have "root_ok (removeListener S i io False st) n' j" if "root_ok st n' j" for n' j
    using that s by (cases "j = i") (auto simp: removeListener_quiet[OF s(1)] root_ok_def)
  then show ?thesis
    using ok s by (simp add: sio_ok_def removeListener_quiet[OF s(1)] codec_clean_def)
qed

lemma newConnection_ok [wf_pres]: "sio_ok st \<Longrightarrow> sio_ok (newConnection S c st)"
proof -
  assume ok: "sio_ok st"
  have "root_ok (newConnection S c st) n i" if "root_ok st n i" for n i
    using that by (auto simp: root_ok_def newConnection_def Let_def)
  then show ?thesis
    using ok by (simp add: sio_ok_def) (simp add: newConnection_def Let_def)
qed

text \<open>
  A disconnect takes the connection out of the listeners of every root: the fold of the code
  over \<open>m_sourceRoots\<close>, stated for a part of the map.
\<close>

lemma disconnect_fold:
  assumes "\<forall>e \<in> set rs. \<exists>s. sources st (snd e) = Some s \<and> src_priv s = snd e"
  shows "foldl (\<lambda>st (n, i). removeListener S i c False st) st rs =
      st\<lparr>privates := (\<lambda>i. if i \<in> snd ` set rs then (privates st i)
            \<lparr>listeners := removeAll c (listeners (privates st i))\<rparr> else privates st i)\<rparr>"
  using assms
proof (induction rs arbitrary: st)
  case (Cons r rs)
  obtain n i where r: "r = (n, i)" by (cases r)
  from Cons.prems r obtain s where s: "sources st i = Some s" "src_priv s = i" by auto
  have "\<forall>e \<in> set rs. \<exists>s. sources (removeListener S i c False st) (snd e) = Some s \<and> src_priv s = snd e"
    using Cons.prems by (simp add: removeListener_quiet[OF s(1)])
  from Cons.IH[OF this] show ?case
    by (auto simp: r removeListener_quiet[OF s(1)] s(2) fun_eq_iff)
qed simp

lemma onServerDisconnect_result:
  assumes ok: "sio_ok st"
  shows "onServerDisconnect S c st =
    st\<lparr>m_connections := removeAll c (m_connections st),
       privates := (\<lambda>i. if i \<in> snd ` set (m_sourceRoots st) then (privates st i)
            \<lparr>listeners := removeAll c (listeners (privates st i))\<rparr> else privates st i),
       signals := signals st @
         [ServerRemoved (case map_of (m_registryMapping st) c of Some u \<Rightarrow> u | None \<Rightarrow> [])],
       m_registryMapping := filter (\<lambda>e. fst e \<noteq> c) (m_registryMapping st),
       devices := (devices st)(c := (devices st c)\<lparr>isClosing := True, devOpen := False\<rparr>),
       watchers := filter (\<lambda>(k, serialId, c'). c' \<noteq> c) (watchers st)\<rparr>"
proof -
  have "\<exists>s. sources st i = Some s \<and> src_priv s = i" if "(n, i) \<in> set (m_sourceRoots st)" for n i
  proof -
    have "map_of (m_sourceRoots st) n = Some i"
      using ok that qmap_ok_distinct[of "m_sourceRoots st"] by (simp add: sio_ok_def)
    with ok show ?thesis by (metis sio_ok_root)
  qed
  then have "\<forall>e \<in> set (m_sourceRoots st).
      \<exists>s. sources (st\<lparr>m_connections := removeAll c (m_connections st)\<rparr>) (snd e) = Some s \<and> src_priv s = snd e"
    by auto
  from disconnect_fold[OF this, of S c]
  show ?thesis by (simp add: onServerDisconnect_def Let_def cong: if_cong)
qed

lemma onServerDisconnect_ok [wf_pres]:
  assumes ok: "sio_ok st"
  shows "sio_ok (onServerDisconnect S c st)"
proof -
  have "root_ok (onServerDisconnect S c st) n i"
    if "map_of (m_sourceRoots st) n = Some i" "root_ok st n i" for n i
    using that map_of_SomeD[OF that(1)]
    by (force simp: onServerDisconnect_result[OF ok] root_ok_def)
  then show ?thesis
    using ok by (simp add: sio_ok_def onServerDisconnect_result[OF ok] codec_clean_def)
qed

subsection \<open>The receiving loop\<close>

fun server_step ::
    "'v qstream \<Rightarrow> ('v, 'w) environment \<Rightarrow> conn \<Rightarrow> 'v msg \<Rightarrow> ('v, 'w) sourceio \<Rightarrow> ('v, 'w) sourceio" where
  "server_step S E c (M_Ping n) st = handle_ping S c (st\<lparr>m_rxName := n\<rparr>)"
| "server_step S E c (M_Add n b) st = handle_add S E c b (st\<lparr>m_rxName := n\<rparr>)"
| "server_step S E c (M_Remove n) st = handle_remove S c (st\<lparr>m_rxName := n\<rparr>)"
| "server_step S E c (M_Invoke n v) st = handle_invoke S E c v (st\<lparr>m_rxName := n\<rparr>)"
| "server_step S E c m st = st\<lparr>m_rxName := msg_name (m_rxName st) m\<rparr>"

fun server_accepts ::
    "'v qstream \<Rightarrow> ('v, 'w) environment \<Rightarrow> conn \<Rightarrow> 'v msg \<Rightarrow> ('v, 'w) sourceio \<Rightarrow> bool" where
  "server_accepts S E c (M_Invoke n v) st \<longleftrightarrow>
     fault (handle_invoke S E c v (st\<lparr>m_rxName := n\<rparr>)) = None"
| "server_accepts S E c (M_Ping n) st \<longleftrightarrow> True"
| "server_accepts S E c (M_Add n b) st \<longleftrightarrow> True"
| "server_accepts S E c (M_Remove n) st \<longleftrightarrow> True"
| "server_accepts S E c (M_Handshake n) st \<longleftrightarrow> True"
| "server_accepts S E c (M_Pong n) st \<longleftrightarrow> True"
| "server_accepts S E c m st \<longleftrightarrow> False"

sublocale qdata_stream \<subseteq> server: packet_handler S "server_handler S E c" "server_step S E c"
    "server_accepts S E c" for E c
proof
  fix m st old r
  assume "msg_fits S m" and "server_accepts S E c m st"
  then show "server_handler S E c (msg_type m) (msg_name old m) (msg_args S m @ r) st =
      (True, server_step S E c m st, r)"
  proof (cases m)
    case (M_Add n b)
    then show ?thesis
      using deserializeAdd_rt[of n b r] by (simp add: server_handler_def)
  next
    case (M_Invoke n v)
    with \<open>msg_fits S m\<close> have "args_fit S (M_Invoke n v)" by (simp add: msg_fits_def)
    from deserializeInvokePacket_rt[OF this, of r] show ?thesis
      using M_Invoke \<open>server_accepts S E c m st\<close> by (simp add: server_handler_def Let_def)
  qed (auto simp: server_handler_def)
qed

interpretation le_server: packet_handler le_stream "server_handler le_stream E c"
    "server_step le_stream E c" "server_accepts le_stream E c" for E c
  by (rule le.server.packet_handler_axioms)

subsection \<open>Building and deleting sources\<close>

text \<open>Building sources only adds: new numbers, non-root sources and names.\<close>

definition adds_sources :: "('v, 'w) sourceio \<Rightarrow> ('v, 'w) sourceio \<Rightarrow> bool" where
  "adds_sources st st' \<longleftrightarrow>
    nextSource st \<le> nextSource st' \<and> (\<forall>j < nextSource st. sources st' j = sources st j) \<and>
    (\<forall>j \<ge> nextSource st. \<forall>s. sources st' j = Some s \<longrightarrow>
       j < nextSource st' \<and> \<not> src_isRoot s \<and>
       (\<forall>c \<in> snd ` set (src_children s). nextSource st \<le> c \<and> c < nextSource st')) \<and>
    m_sourceRoots st' = m_sourceRoots st \<and> m_objectToSourceMap st' = m_objectToSourceMap st \<and>
    m_connections st' = m_connections st \<and> privates st' = privates st \<and> m_codec st' = m_codec st \<and>
    devices st' = devices st \<and> signals st' = signals st \<and> fault st' = fault st \<and>
    serverAddress st' = serverAddress st \<and>
    (qmap_ok (m_sourceObjects st) \<longrightarrow> qmap_ok (m_sourceObjects st'))"

definition no_future :: "('v, 'w) sourceio \<Rightarrow> bool" where
  "no_future st \<longleftrightarrow> (\<forall>j \<ge> nextSource st. sources st j = None)"

lemma adds_sources_refl: "no_future st \<Longrightarrow> adds_sources st st"
  by (simp add: adds_sources_def no_future_def)

lemma adds_sources_trans:
  assumes "adds_sources st st'" and "adds_sources st' st''"
  shows "adds_sources st st''"
  unfolding adds_sources_def
proof (intro conjI allI impI ballI)
  note a1 = assms(1)[unfolded adds_sources_def] and a2 = assms(2)[unfolded adds_sources_def]
  fix j s
  assume j: "nextSource st \<le> j" and s: "sources st'' j = Some s"
  have "j < nextSource st'' \<and> \<not> src_isRoot s \<and>
      (\<forall>c \<in> snd ` set (src_children s). nextSource st \<le> c \<and> c < nextSource st'')"
  proof (cases "j < nextSource st'")
    case True
    then have "sources st' j = Some s" using a2 s by simp
    then have "\<not> src_isRoot s \<and>
        (\<forall>c \<in> snd ` set (src_children s). nextSource st \<le> c \<and> c < nextSource st')"
      using a1 j by blast
    then show ?thesis using True a2 by auto
  next
    case False
    then have "nextSource st' \<le> j" by simp
    then have "j < nextSource st'' \<and> \<not> src_isRoot s \<and>
        (\<forall>c \<in> snd ` set (src_children s). nextSource st' \<le> c \<and> c < nextSource st'')"
      using a2 s by blast
    then show ?thesis using a1 by auto
  qed
  then show "j < nextSource st''" "\<not> src_isRoot s"
    and "\<And>c. c \<in> snd ` set (src_children s) \<Longrightarrow> nextSource st \<le> c"
    and "\<And>c. c \<in> snd ` set (src_children s) \<Longrightarrow> c < nextSource st''" by blast+
qed (use assms in \<open>auto simp: adds_sources_def\<close>)

lemma adds_sources_future: "adds_sources st st' \<Longrightarrow> no_future st'"
  unfolding adds_sources_def no_future_def by (metis le_less_linear le_trans not_Some_eq not_le)

lemma new_source_adds:
  "no_future st \<Longrightarrow> new_source t parentName priv st = (i, st') \<Longrightarrow>
     adds_sources st st' \<and> nextSource st \<le> i \<and> i < nextSource st'"
  "no_future st \<Longrightarrow> new_children cs parentName priv st = (kids, st') \<Longrightarrow>
     adds_sources st st' \<and> (\<forall>c \<in> snd ` set kids. nextSource st \<le> c \<and> c < nextSource st')"
proof (induction t parentName priv st and cs parentName priv st arbitrary: i st' and kids st'
    rule: new_source_new_children.induct)
  case (1 a ob ad cs parentName priv st)
  obtain kids st1 where k: "(if ob = None then ([], st) else new_children cs (api_name a) priv st) = (kids, st1)"
    by fastforce
  have a1: "adds_sources st st1 \<and> (\<forall>c \<in> snd ` set kids. nextSource st \<le> c \<and> c < nextSource st1)"
  proof (cases "ob = None")
    case True
    then show ?thesis using k 1(2) adds_sources_refl by auto
  next
    case False
    with k have "new_children cs (api_name a) priv st = (kids, st1)" by simp
    from 1(1)[OF False 1(2) this] show ?thesis .
  qed
  let ?s = "\<lparr>src_name = child_name parentName a, src_isRoot = False, src_api = a, src_object = ob,
               src_adapter = ad, src_children = kids, src_priv = priv, src_args = []\<rparr>"
  let ?st2 = "st1\<lparr>sources := (sources st1)(nextSource st1 \<mapsto> ?s), nextSource := Suc (nextSource st1)\<rparr>"
  have res: "i = nextSource st1" "st' = (if ob = None then ?st2 else registerSource i ?s ?st2)"
    using 1(3) k by (auto simp: Let_def split: prod.splits)
  have "adds_sources st ?st2"
    using a1 unfolding adds_sources_def by (auto simp: less_Suc_eq le_Suc_eq)
  then have "adds_sources st st'"
    unfolding res(2) by (auto simp: adds_sources_def registerSource_def qmap_insert_ok)
  moreover have "nextSource st' = Suc i" unfolding res by (simp add: registerSource_def)
  ultimately show ?case using a1 res(1) by (simp add: adds_sources_def)
next
  case (2 parentName priv st)
  then show ?case by (simp add: adds_sources_refl)
next
  case (3 p t cs parentName priv st)
  obtain i st1 where 31: "new_source t parentName priv st = (i, st1)" by fastforce
  obtain kids' st2 where 32: "new_children cs parentName priv st1 = (kids', st2)" by fastforce
  have a1: "adds_sources st st1 \<and> nextSource st \<le> i \<and> i < nextSource st1"
    using 3(1)[OF 3(3) 31] .
  then have "no_future st1" using adds_sources_future by blast
  with 3(2) 31 32 have a2: "adds_sources st1 st2 \<and>
      (\<forall>c \<in> snd ` set kids'. nextSource st1 \<le> c \<and> c < nextSource st2)" by auto
  have n: "nextSource st \<le> nextSource st1" "nextSource st1 \<le> nextSource st2"
    using a1 a2 by (auto simp: adds_sources_def)
  have "kids = (p, i) # kids'" "st' = st2" using 3(4) 31 32 by (simp_all add: Let_def)
  moreover have "adds_sources st st2" using a1 a2 adds_sources_trans by blast
  moreover have "\<forall>c \<in> snd ` set kids'. nextSource st \<le> c \<and> c < nextSource st2"
    using a2 n(1) le_trans by blast
  ultimately show ?case using a1 n(2) by simp
qed

text \<open>Deleting children takes away sources that are not roots, and nothing else.\<close>

definition drops_sources :: "('v, 'w) sourceio \<Rightarrow> ('v, 'w) sourceio \<Rightarrow> bool" where
  "drops_sources st st' \<longleftrightarrow>
    (\<exists>f. st' = st\<lparr>sources := f\<rparr> \<and>
       (\<forall>j. f j = sources st j \<or> (f j = None \<and> (\<forall>s. sources st j = Some s \<longrightarrow> \<not> src_isRoot s))))"

lemma drops_sources_refl: "drops_sources st st"
  unfolding drops_sources_def by (intro exI[of _ "sources st"]) simp

lemma drops_sources_trans: "drops_sources st st' \<Longrightarrow> drops_sources st' st'' \<Longrightarrow> drops_sources st st''"
  unfolding drops_sources_def by (elim exE conjE) (simp, metis)

lemma drops_sources_kids: "drops_sources st st' \<Longrightarrow> kids_ok st \<Longrightarrow> kids_ok st'"
  unfolding drops_sources_def kids_ok_def by (elim exE conjE) (simp, metis option.distinct(1))

lemma delete_children_drops:
  "kids_ok st \<Longrightarrow>
     \<forall>c \<in> snd ` set cs. \<forall>s. sources st c = Some s \<longrightarrow> \<not> src_isRoot s \<Longrightarrow>
     drops_sources st (delete_children n cs st)"
proof (induction n arbitrary: cs st)
  case 0
  then show ?case by (simp add: drops_sources_refl)
next
  case (Suc n)
  from Suc.prems show ?case
    unfolding delete_children.simps
  proof (induction cs arbitrary: st)
    case Nil
    then show ?case by (simp add: drops_sources_refl)
  next
    case (Cons x cs)
    obtain p c where x: "x = (p, c)" by (cases x)
    let ?st1 = "case sources st c of None \<Rightarrow> st
        | Some s \<Rightarrow> (delete_children n (src_children s) st)
            \<lparr>sources := (sources (delete_children n (src_children s) st))(c := None)\<rparr>"
    have d: "drops_sources st ?st1"
    proof (cases "sources st c")
      case None
      then show ?thesis by (simp add: drops_sources_refl)
    next
      case (Some s)
      have "\<forall>c \<in> snd ` set (src_children s). \<forall>s. sources st c = Some s \<longrightarrow> \<not> src_isRoot s"
        using Cons.prems(1) Some unfolding kids_ok_def by blast
      from Suc.IH[OF Cons.prems(1) this]
      have "drops_sources st (delete_children n (src_children s) st)" by blast
      moreover have "\<not> src_isRoot s" using Cons.prems(2) Some x by simp
      ultimately show ?thesis using Some unfolding drops_sources_def
        by (elim exE conjE) (simp, metis fun_upd_apply option.inject)
    qed
    obtain f where "?st1 = st\<lparr>sources := f\<rparr>"
      and f: "\<forall>j. f j = sources st j \<or> (f j = None \<and> (\<forall>s. sources st j = Some s \<longrightarrow> \<not> src_isRoot s))"
      using d unfolding drops_sources_def by blast
    then have "sources ?st1 = f" by simp
    then have "\<forall>c \<in> snd ` set cs. \<forall>s. sources ?st1 c = Some s \<longrightarrow> \<not> src_isRoot s"
    proof (intro ballI allI impI)
      fix k s'
      assume k: "k \<in> snd ` set cs" and "sources ?st1 k = Some s'"
      then have "f k = Some s'" using \<open>sources ?st1 = f\<close> by simp
      then have "sources st k = Some s'" using f by (metis option.distinct(1))
      moreover have "k \<in> snd ` set (x # cs)" using k by simp
      ultimately show "\<not> src_isRoot s'" using Cons.prems(2) by blast
    qed
    from Cons.IH[OF drops_sources_kids[OF d Cons.prems(1)] this]
    have "drops_sources ?st1 (foldl (\<lambda>st (p, c). case sources st c of None \<Rightarrow> st
        | Some s \<Rightarrow> let st1 = delete_children n (src_children s) st
            in st1\<lparr>sources := (sources st1)(c := None)\<rparr>) ?st1 cs)" by blast
    from drops_sources_trans[OF d this] show ?case by (simp only: x foldl_Cons prod.case Let_def)
  qed
qed


definition full_ok :: "('v, 'w) sourceio \<Rightarrow> bool" where
  "full_ok st \<longleftrightarrow> sio_ok st \<and> no_future st"

text \<open>Sharing an object under a new name.\<close>

lemma new_root_sel:
  assumes nf: "no_future st" and r: "new_root t st = (i, st')"
  shows "i = nextSource st" and "m_sourceRoots st' = qmap_insert (api_name (tree_api t)) i (m_sourceRoots st)"
    and "\<exists>s. sources st' i = Some s \<and> src_isRoot s \<and> src_name s = api_name (tree_api t) \<and>
          api_name (src_api s) = api_name (tree_api t) \<and> src_priv s = i \<and> src_api s = tree_api t"
    and "m_connections st' = m_connections st" and "m_codec st' = m_codec st" and "devices st' = devices st"
    and "listeners (privates st' i) = []" and "\<And>j. j \<noteq> i \<Longrightarrow> privates st' j = privates st j"
    and "\<And>j. j < i \<Longrightarrow> sources st' j = sources st j" and "i < nextSource st'"
    and "no_future st'" and "kids_ok st \<Longrightarrow> kids_ok st'"
    and "qmap_ok (m_sourceObjects st) \<Longrightarrow> qmap_ok (m_sourceObjects st')"
    and "signals st' = signals st @ (case serverAddress st of None \<Rightarrow> []
          | Some u \<Rightarrow> [RemoteObjectAdded (api_name (tree_api t)) (api_typeName (tree_api t))])"
    and "fault st' = fault st"
proof -
  obtain a ob ad cs where t: "t = SrcTree a ob ad cs" by (cases t)
  let ?i = "nextSource st"
  let ?st0 = "st\<lparr>nextSource := Suc ?i,
      privates := (privates st)(?i := \<lparr>listeners = [], p_isDynamic = False, sentTypes = []\<rparr>)\<rparr>"
  obtain kids st1 where k: "(if ob = None then ([], ?st0) else new_children cs (api_name a) ?i ?st0) = (kids, st1)"
    by fastforce
  have nf0: "no_future ?st0" using nf by (simp add: no_future_def)
  have a1: "adds_sources ?st0 st1 \<and> (\<forall>c \<in> snd ` set kids. Suc ?i \<le> c \<and> c < nextSource st1)"
  proof (cases "ob = None")
    case True
    then show ?thesis using k nf0 adds_sources_refl by auto
  next
    case False
    with k have "new_children cs (api_name a) ?i ?st0 = (kids, st1)" by simp
    from new_source_adds(2)[OF nf0 this] show ?thesis by simp
  qed
  let ?s = "\<lparr>src_name = api_name a, src_isRoot = True, src_api = a, src_object = ob,
               src_adapter = ad, src_children = kids, src_priv = ?i, src_args = []\<rparr>"
  let ?st2 = "st1\<lparr>sources := (sources st1)(?i \<mapsto> ?s)\<rparr>"
  have res: "i = ?i" "st' = registerSource ?i ?s ?st2"
    using r k by (auto simp: new_root_def t Let_def split: prod.splits)
  note a = a1[unfolded adds_sources_def, simplified]
  show "i = nextSource st" by (rule res(1))
  show "m_sourceRoots st' = qmap_insert (api_name (tree_api t)) i (m_sourceRoots st)"
    "\<exists>s. sources st' i = Some s \<and> src_isRoot s \<and> src_name s = api_name (tree_api t) \<and>
          api_name (src_api s) = api_name (tree_api t) \<and> src_priv s = i \<and> src_api s = tree_api t"
    "m_connections st' = m_connections st" "m_codec st' = m_codec st" "devices st' = devices st"
    "listeners (privates st' i) = []" "\<And>j. j \<noteq> i \<Longrightarrow> privates st' j = privates st j"
    "i < nextSource st'" "fault st' = fault st"
    "signals st' = signals st @ (case serverAddress st of None \<Rightarrow> []
          | Some u \<Rightarrow> [RemoteObjectAdded (api_name (tree_api t)) (api_typeName (tree_api t))])"
    using a by (auto simp: res t registerSource_def Let_def split: option.split)
  show "\<And>j. j < i \<Longrightarrow> sources st' j = sources st j"
    using a by (auto simp: res t registerSource_def Let_def split: option.split)
  show "no_future st'"
  proof -
    have "no_future st1" using a1 adds_sources_future by blast
    then have "no_future ?st2" using a by (auto simp: no_future_def)
    then show ?thesis by (auto simp: res no_future_def registerSource_def Let_def split: option.split)
  qed
  show "kids_ok st'" if ok: "kids_ok st"
  proof -
    have "kids_ok ?st2"
      unfolding kids_ok_def
    proof (intro allI impI)
      fix j s c
      assume j: "sources ?st2 j = Some s" and c: "c \<in> snd ` set (src_children s)"
      have "c < nextSource st1 \<and> c \<noteq> ?i \<and> (\<forall>s'. sources st1 c = Some s' \<longrightarrow> \<not> src_isRoot s')"
      proof (cases "j < ?i")
        case True
        then have "sources st j = Some s" using j a by simp
        then have "c < ?i \<and> (\<forall>s'. sources st c = Some s' \<longrightarrow> \<not> src_isRoot s')"
          using ok c unfolding kids_ok_def by blast
        then show ?thesis using a by (auto simp: less_Suc_eq)
      next
        case False
        have "Suc ?i \<le> c \<and> c < nextSource st1"
        proof (cases "j = ?i")
          case True
          then have "src_children s = kids" using j by auto
          then show ?thesis using c a1 by blast
        next
          case jn: False
          then have "Suc ?i \<le> j" using False by simp
          moreover have "sources st1 j = Some s" using j jn by simp
          ultimately show ?thesis using a c by blast
        qed
        then show ?thesis using a by auto
      qed
      then show "c < nextSource ?st2 \<and> (\<forall>s'. sources ?st2 c = Some s' \<longrightarrow> \<not> src_isRoot s')" by simp
    qed
    then show ?thesis by (simp add: res kids_ok_def registerSource_def Let_def split: option.split)
  qed
  show "qmap_ok (m_sourceObjects st')" if "qmap_ok (m_sourceObjects st)"
    using a that by (auto simp: res registerSource_def Let_def qmap_insert_ok split: option.split)
qed


lemma enableRemoting_ok [wf_pres]:
  assumes ok: "full_ok st"
  shows "full_ok (snd (enableRemoting S t st))"
proof (cases "map_of (m_sourceRoots st) (api_name (tree_api t)) = None")
  case False
  then show ?thesis using ok by (auto simp: enableRemoting_def)
next
  case True
  obtain i st1 where r: "new_root t st = (i, st1)" by fastforce
  have nf: "no_future st" using ok by (simp add: full_ok_def)
  note sel = new_root_sel[OF nf r]
  have q: "qmap_ok (m_sourceRoots st)" using ok by (simp add: full_ok_def sio_ok_def)
  have "root_ok st1 n j" if "map_of (m_sourceRoots st1) n = Some j" for n j
  proof (cases "n = api_name (tree_api t)")
    case True
    then have "j = i" using that map_of_qmap_insert[OF q] by (simp add: sel(2))
    then show ?thesis using sel(3,7,10) True unfolding root_ok_def by auto
  next
    case False
    then have "root_ok st n j"
      using ok that map_of_qmap_insert[OF q] by (simp add: sel(2) full_ok_def sio_ok_def)
    moreover from this have "j < i" by (simp add: sel(1) root_ok_def)
    ultimately show ?thesis using sel(4,8,9,10) unfolding root_ok_def by auto
  qed
  moreover have "enableRemoting S t st = (True, send_list (m_connections st1)
      (write_packet (serializeObjectListPacket S [\<lparr>oi_name = api_name (tree_api t),
         oi_typeName = api_typeName (tree_api t), oi_signature = objectSignature (tree_api t)\<rparr>]) st1))"
    using True r by (simp add: enableRemoting_def enableRemoting_api_def Let_def)
  ultimately show ?thesis
    using ok sel(11,12,13) q
    by (simp add: full_ok_def sio_ok_def root_ok_def sel(2) qmap_insert_ok no_future_def)
qed

text \<open>Withdrawing an object.\<close>

lemma broadcast_Cons: "broadcast cs bs (broadcast [c] bs devs) = broadcast (c # cs) bs devs"
  by (auto simp: broadcast_def fun_eq_iff funpow_swap1)

context qdata_stream
begin

lemma removeListener_send:
  assumes "codec_clean st" and "sources st i = Some s"
  shows "devices (removeListener S i io True st) =
    broadcast [io] (msg_frame S (M_Remove (api_name (src_api s)))) (devices st)"
proof -
  let ?st = "st\<lparr>privates := (privates st)(src_priv s := (privates st (src_priv s))
      \<lparr>listeners := removeAll io (listeners (privates st (src_priv s)))\<rparr>)\<rparr>"
  have "codec_clean ?st" using assms(1) by (simp add: codec_clean_def)
  moreover have "serializeRemoveObjectPacket S (api_name (src_api s)) = msg_write S (M_Remove (api_name (src_api s)))"
    by (simp add: fun_eq_iff)
  ultimately show ?thesis
    using send_msg[of ?st "M_Remove (api_name (src_api s))" "serializeRemoveObjectPacket S (api_name (src_api s))" "[io]"]
    by (simp add: removeListener_def assms(2) Let_def)
qed

end

lemma removeListener_sel:
  assumes "sources st i = Some s"
  shows "m_sourceObjects (removeListener S i io b st) = m_sourceObjects st"
    "m_sourceRoots (removeListener S i io b st) = m_sourceRoots st"
    "m_objectToSourceMap (removeListener S i io b st) = m_objectToSourceMap st"
    "m_connections (removeListener S i io b st) = m_connections st"
    "sources (removeListener S i io b st) = sources st"
    "nextSource (removeListener S i io b st) = nextSource st"
    "signals (removeListener S i io b st) = signals st"
    "serverAddress (removeListener S i io b st) = serverAddress st"
    "fault (removeListener S i io b st) = fault st"
    "j \<noteq> src_priv s \<Longrightarrow> privates (removeListener S i io b st) j = privates st j"
    "listeners (privates (removeListener S i io b st) (src_priv s)) = removeAll io (listeners (privates st (src_priv s)))"
    "codec_clean st \<Longrightarrow> codec_clean (removeListener S i io b st)"
  using assms by (simp_all add: removeListener_def Let_def codec_clean_def send_list_clean[unfolded codec_clean_def])

definition same_but_listeners :: "srcid \<Rightarrow> ('v, 'w) sourceio \<Rightarrow> ('v, 'w) sourceio \<Rightarrow> bool" where
  "same_but_listeners p st st' \<longleftrightarrow>
    m_sourceObjects st' = m_sourceObjects st \<and> m_sourceRoots st' = m_sourceRoots st \<and>
    m_objectToSourceMap st' = m_objectToSourceMap st \<and> m_connections st' = m_connections st \<and>
    sources st' = sources st \<and> nextSource st' = nextSource st \<and> signals st' = signals st \<and>
    serverAddress st' = serverAddress st \<and> fault st' = fault st \<and>
    (\<forall>j. j \<noteq> p \<longrightarrow> privates st' j = privates st j)"

context qdata_stream
begin

lemma remove_all_listeners:
  assumes "codec_clean st" and "sources st i = Some s"
  shows "codec_clean (foldl (\<lambda>st io. removeListener S i io True st) st ios) \<and>
    same_but_listeners (src_priv s) st (foldl (\<lambda>st io. removeListener S i io True st) st ios) \<and>
    devices (foldl (\<lambda>st io. removeListener S i io True st) st ios) =
      broadcast ios (msg_frame S (M_Remove (api_name (src_api s)))) (devices st)"
  using assms
proof (induction ios arbitrary: st)
  case Nil
  then show ?case by (simp add: same_but_listeners_def broadcast_def fun_eq_iff)
next
  case (Cons io ios)
  let ?st = "removeListener S i io True st"
  note sel = removeListener_sel[OF Cons.prems(2), where S = S and io = io and b = True]
  have "codec_clean ?st" "sources ?st i = Some s" using sel(5,12) Cons.prems by simp_all
  from Cons.IH[OF this] have IH: "codec_clean (foldl (\<lambda>st io. removeListener S i io True st) ?st ios)"
    "same_but_listeners (src_priv s) ?st (foldl (\<lambda>st io. removeListener S i io True st) ?st ios)"
    "devices (foldl (\<lambda>st io. removeListener S i io True st) ?st ios) =
      broadcast ios (msg_frame S (M_Remove (api_name (src_api s)))) (devices ?st)" by blast+
  have "same_but_listeners (src_priv s) st (foldl (\<lambda>st io. removeListener S i io True st) ?st ios)"
    using IH(2) sel unfolding same_but_listeners_def by simp
  then show ?case
    using IH(1,3) by (simp add: removeListener_send[OF Cons.prems] broadcast_Cons)
qed

end

lemma drops_sources_sel:
  assumes "drops_sources st st'"
  shows "st' = st\<lparr>sources := sources st'\<rparr>"
    and "sources st' j = sources st j \<or> sources st' j = None \<and> (\<forall>s. sources st j = Some s \<longrightarrow> \<not> src_isRoot s)"
    and "sources st j = Some s \<Longrightarrow> src_isRoot s \<Longrightarrow> sources st' j = Some s"
proof -
  obtain f where f: "st' = st\<lparr>sources := f\<rparr>"
    "\<forall>j. f j = sources st j \<or> f j = None \<and> (\<forall>s. sources st j = Some s \<longrightarrow> \<not> src_isRoot s)"
    using assms unfolding drops_sources_def by blast
  then show "st' = st\<lparr>sources := sources st'\<rparr>" by simp
  show *: "sources st' j = sources st j \<or> sources st' j = None \<and> (\<forall>s. sources st j = Some s \<longrightarrow> \<not> src_isRoot s)"
    using f(2)[rule_format, of j] f(1) by auto
  then show "sources st j = Some s \<Longrightarrow> src_isRoot s \<Longrightarrow> sources st' j = Some s" by auto
qed

context qdata_stream
begin

lemma delete_root_sel:
  assumes ok: "sio_ok st" and i: "map_of (m_sourceRoots st) n = Some i" and si: "sources st i = Some s"
  shows "m_sourceRoots (delete_root S i st) = qmap_remove n (m_sourceRoots st)"
    and "m_sourceObjects (delete_root S i st) = qmap_remove n (m_sourceObjects st)"
    and "m_connections (delete_root S i st) = m_connections st"
    and "sources (delete_root S i st) i = None"
    and "sources (delete_root S i st) j = sources st j \<or> sources (delete_root S i st) j = None \<and>
           (j = i \<or> (\<forall>s. sources st j = Some s \<longrightarrow> \<not> src_isRoot s))"
    and "j \<noteq> i \<Longrightarrow> privates (delete_root S i st) j = privates st j"
    and "nextSource (delete_root S i st) = nextSource st"
    and "codec_clean (delete_root S i st)"
    and "devices (delete_root S i st) = broadcast (listeners (privates st i)) (msg_frame S (M_Remove n)) (devices st)"
    and "signals (delete_root S i st) = signals st @ (case serverAddress st of None \<Rightarrow> []
          | Some u \<Rightarrow> [RemoteObjectRemoved n (api_typeName (src_api s))])"
    and "m_objectToSourceMap (delete_root S i st) =
          filter (\<lambda>e. fst e \<noteq> src_object s) (m_objectToSourceMap st)"
proof -
  from ok i obtain s' where "sources st i = Some s'" "src_isRoot s'" "src_name s' = n"
    "api_name (src_api s') = n" "src_priv s' = i" by (rule sio_ok_root)
  with si have s: "sources st i = Some s" "src_isRoot s" "src_name s = n"
    "api_name (src_api s) = n" "src_priv s = i" by simp_all
  have clean: "codec_clean st" and kids: "kids_ok st" using ok by (simp_all add: sio_ok_def)
  let ?st1 = "delete_children (nextSource st) (src_children s) st"
  have "\<forall>c \<in> snd ` set (src_children s). \<forall>s. sources st c = Some s \<longrightarrow> \<not> src_isRoot s"
    using kids s(1) unfolding kids_ok_def by blast
  from delete_children_drops[OF kids this, of "nextSource st"]
  have d: "drops_sources st ?st1" .
  note d1 = drops_sources_sel[OF d]
  obtain f where f: "?st1 = st\<lparr>sources := f\<rparr>" using d1(1) by blast
  have fi: "f i = Some s" using d1(3)[OF s(1,2)] by (simp add: f)
  let ?st2 = "unregisterSource s ?st1"
  let ?st3 = "?st2\<lparr>privates := (privates ?st2)(i := (privates ?st2 i)\<lparr>listeners := []\<rparr>)\<rparr>"
  have st2: "m_sourceRoots ?st2 = qmap_remove n (m_sourceRoots st)"
      "m_sourceObjects ?st2 = qmap_remove n (m_sourceObjects st)"
      "m_objectToSourceMap ?st2 = filter (\<lambda>e. fst e \<noteq> src_object s) (m_objectToSourceMap st)"
      "m_connections ?st2 = m_connections st" "sources ?st2 = f" "privates ?st2 = privates st"
      "nextSource ?st2 = nextSource st" "m_codec ?st2 = m_codec st" "devices ?st2 = devices st"
      "signals ?st2 = signals st @ (case serverAddress st of None \<Rightarrow> []
          | Some u \<Rightarrow> [RemoteObjectRemoved n (api_typeName (src_api s))])"
    using s by (simp_all add: f unregisterSource_def Let_def split: option.split)
  have c3: "codec_clean ?st3" "sources ?st3 i = Some s" using clean fi st2 by (simp_all add: codec_clean_def)
  let ?st4 = "foldl (\<lambda>st io. removeListener S i io True st) ?st3 (listeners (privates st i))"
  note r = remove_all_listeners[OF c3, of "listeners (privates st i)"]
  have dr: "delete_root S i st = ?st4\<lparr>sources := (sources ?st4)(i := None)\<rparr>"
    using s st2(6) by (simp add: delete_root_def Let_def)
  show "sources (delete_root S i st) j = sources st j \<or> sources (delete_root S i st) j = None \<and>
           (j = i \<or> (\<forall>s. sources st j = Some s \<longrightarrow> \<not> src_isRoot s))"
    using d1(2)[of j] r st2(5) unfolding dr same_but_listeners_def f by auto
  show "m_sourceRoots (delete_root S i st) = qmap_remove n (m_sourceRoots st)"
    "m_sourceObjects (delete_root S i st) = qmap_remove n (m_sourceObjects st)"
    "m_connections (delete_root S i st) = m_connections st" "sources (delete_root S i st) i = None"
    "j \<noteq> i \<Longrightarrow> privates (delete_root S i st) j = privates st j"
    "nextSource (delete_root S i st) = nextSource st" "codec_clean (delete_root S i st)"
    "devices (delete_root S i st) = broadcast (listeners (privates st i)) (msg_frame S (M_Remove n)) (devices st)"
    "signals (delete_root S i st) = signals st @ (case serverAddress st of None \<Rightarrow> []
          | Some u \<Rightarrow> [RemoteObjectRemoved n (api_typeName (src_api s))])"
    "m_objectToSourceMap (delete_root S i st) =
          filter (\<lambda>e. fst e \<noteq> src_object s) (m_objectToSourceMap st)"
    using r st2 s by (simp_all add: dr same_but_listeners_def codec_clean_def)
qed

end

context qdata_stream
begin

lemma delete_root_other:
  assumes ok: "sio_ok st" and i: "map_of (m_sourceRoots st) n = Some i"
    and m: "map_of (m_sourceRoots st) m = Some j" and "m \<noteq> n"
  shows "root_ok (delete_root S i st) m j"
proof -
  from ok i obtain s where s: "sources st i = Some s" by (rule sio_ok_root)
  note sel = delete_root_sel[OF ok i s]
  have r: "root_ok st m j" using ok m unfolding sio_ok_def by blast
  then obtain t where t: "sources st j = Some t" "src_isRoot t" "src_name t = m"
    unfolding root_ok_def by blast
  from ok i obtain s' where "sources st i = Some s'" "src_name s' = n" by (rule sio_ok_root)
  then have ji: "j \<noteq> i" using t(1,3) \<open>m \<noteq> n\<close> by auto
  have src: "sources (delete_root S i st) j = sources st j"
    using sel(5)[of j] t ji by simp
  show ?thesis
    using r unfolding root_ok_def src sel(3) sel(6)[OF ji] sel(7) .
qed

lemma delete_root_sub:
  assumes ok: "sio_ok st" and i: "map_of (m_sourceRoots st) n = Some i"
    and "sources (delete_root S i st) j = Some t"
  shows "sources st j = Some t"
proof -
  from ok i obtain s where s: "sources st i = Some s" by (rule sio_ok_root)
  show ?thesis using delete_root_sel(5)[OF ok i s, of j] assms(3) by auto
qed

lemma delete_root_kids:
  assumes ok: "sio_ok st" and i: "map_of (m_sourceRoots st) n = Some i"
  shows "kids_ok (delete_root S i st)"
proof -
  from ok i obtain s where s: "sources st i = Some s" by (rule sio_ok_root)
  have "kids_ok st" using ok unfolding sio_ok_def by blast
  then show ?thesis
    using delete_root_sub[OF ok i] unfolding kids_ok_def delete_root_sel(7)[OF ok i s] by blast
qed

lemma delete_root_ok:
  assumes full: "full_ok st" and i: "map_of (m_sourceRoots st) n = Some i"
  shows "full_ok (delete_root S i st)"
proof -
  have ok: "sio_ok st" and nf: "no_future st" using full unfolding full_ok_def by blast+
  from ok i obtain s where s: "sources st i = Some s" by (rule sio_ok_root)
  note sel = delete_root_sel[OF ok i s]
  have "no_future (delete_root S i st)"
    unfolding no_future_def sel(7)
  proof (intro allI impI)
    fix j
    assume "nextSource st \<le> j"
    then have "sources st j = None" using nf unfolding no_future_def by blast
    then show "sources (delete_root S i st) j = None" using sel(5)[of j] by auto
  qed
  moreover have "root_ok (delete_root S i st) m j"
    if "map_of (m_sourceRoots (delete_root S i st)) m = Some j" for m j
    using that delete_root_other[OF ok i, of m j] unfolding sel(1) by (auto split: if_splits)
  moreover have "qmap_ok (m_sourceObjects st)" "qmap_ok (m_sourceRoots st)"
    using ok unfolding sio_ok_def by blast+
  ultimately show ?thesis
    using sel(8) delete_root_kids[OF ok i] qmap_remove_ok
    unfolding full_ok_def sio_ok_def sel(1,2) by metis
qed
end
end
