(* ===== verification/Host.thy ===== *)
theory Host
  imports SourceProps
begin

text \<open>
  The life of a host: the step relation of everything that can happen to \<open>QRemoteObjectSourceIo\<close>
  (connections open and close, clients send packets, objects emit signals, pending calls finish,
  objects are shared and withdrawn), its invariant, and the host's properties.
\<close>

inductive host_step ::
    "'v qstream \<Rightarrow> ('v, 'w) environment \<Rightarrow> ('v, 'w) sourceio \<Rightarrow> ('v, 'w) sourceio \<Rightarrow> bool"
  for S E where
  connect: "host_step S E st (newConnection S c st)"
| packet: "c \<in> set (m_connections st) \<Longrightarrow> server_accepts S E c m st \<Longrightarrow>
     host_step S E st (server_step S E c m st)"
| emit: "host_step S E st (handleMetaCall S E i sig a (st\<lparr>world := w\<rparr>))"
| finish: "host_step S E st (pending_finished S E k v st)"
| share: "host_step S E st (snd (enableRemoting S t st))"
| withdraw: "host_step S E st (snd (disableRemoting S ob st))"
| disconnect: "host_step S E st (onServerDisconnect S c st)"

inductive_cases host_step_cases: "host_step S E st st'"

text \<open>Every entry of \<open>m_objectToSourceMap\<close> leads to the registered root of its object.\<close>

definition objs_ok :: "('v, 'w) sourceio \<Rightarrow> bool" where
  "objs_ok st \<longleftrightarrow>
    (\<forall>ob i. (ob, i) \<in> set (m_objectToSourceMap st) \<longrightarrow>
       (\<exists>s. sources st i = Some s \<and> src_object s = ob \<and> map_of (m_sourceRoots st) (src_name s) = Some i))"

definition host_inv :: "('v, 'w) sourceio \<Rightarrow> bool" where
  "host_inv st \<longleftrightarrow> full_ok st \<and> objs_ok st"

lemma host_inv_shape:
  assumes inv: "host_inv st" and sh: "same_shape st st'" and "codec_clean st'"
  shows "host_inv st'"
proof -
  have "sio_ok st'" using assms sio_ok_shape[of st st'] by (simp add: host_inv_def full_ok_def)
  moreover have "sources st' j = None" if none: "sources st j = None" for j
  proof (cases "sources st' j")
    case (Some s)
    with same_shape_sym[OF sh] obtain s' where "sources st j = Some s'" by (rule same_shape_source)
    with none show ?thesis by simp
  qed simp
  then have "no_future st'"
    using inv sh by (auto simp: host_inv_def full_ok_def no_future_def same_shape_def)
  moreover have "objs_ok st'"
    unfolding objs_ok_def
  proof (intro allI impI)
    fix ob i
    assume "(ob, i) \<in> set (m_objectToSourceMap st')"
    then have "(ob, i) \<in> set (m_objectToSourceMap st)" using sh by (simp add: same_shape_def)
    then obtain s where s: "sources st i = Some s" "src_object s = ob"
      "map_of (m_sourceRoots st) (src_name s) = Some i"
      using inv unfolding host_inv_def objs_ok_def by blast
    from sh s(1) obtain s' where "sources st' i = Some s'" "src_shape s' = src_shape s"
      by (rule same_shape_source)
    moreover from this(2) have "src_object s' = src_object s" "src_name s' = src_name s"
      by (cases s; cases s'; simp add: src_shape_def)+
    moreover have "m_sourceRoots st' = m_sourceRoots st" using sh by (simp add: same_shape_def)
    ultimately show "\<exists>s. sources st' i = Some s \<and> src_object s = ob \<and>
        map_of (m_sourceRoots st') (src_name s) = Some i" using s by auto
  qed
  ultimately show ?thesis by (simp add: host_inv_def full_ok_def)
qed

text \<open>The other operations leave sources, roots and the object map alone.\<close>

lemma host_inv_cong:
  assumes "host_inv st" and "sio_ok st'" and "sources st' = sources st"
    and "m_sourceRoots st' = m_sourceRoots st" and "m_objectToSourceMap st' = m_objectToSourceMap st"
    and "nextSource st' = nextSource st"
  shows "host_inv st'"
  using assms by (simp add: host_inv_def full_ok_def no_future_def objs_ok_def)

lemma newConnection_inv [wf_pres]: "host_inv st \<Longrightarrow> host_inv (newConnection S c st)"
  by (rule host_inv_cong[of st])
     (simp_all add: host_inv_def full_ok_def newConnection_ok, simp_all add: newConnection_def Let_def)

lemma disconnect_inv [wf_pres]: "host_inv st \<Longrightarrow> host_inv (onServerDisconnect S c st)"
  by (rule host_inv_cong[OF _ onServerDisconnect_ok])
     (simp_all add: host_inv_def full_ok_def onServerDisconnect_result)

lemma handle_add_inv [wf_pres]:
  assumes inv: "host_inv st" and "c \<in> set (m_connections st)"
  shows "host_inv (handle_add S E c b st)"
proof (cases "map_of (m_sourceRoots st) (m_rxName st)")
  case (Some i)
  have ok: "sio_ok st" using inv by (simp add: host_inv_def full_ok_def)
  from ok Some obtain s where s: "sources st i = Some s" by (rule sio_ok_root)
  have "host_inv (addListener S E i c b st)"
  proof (rule host_inv_cong[OF inv addListener_ok[OF ok assms(2) Some]])
    show "m_objectToSourceMap (addListener S E i c b st) = m_objectToSourceMap st"
      using s by (simp add: addListener_def Let_def split_beta)
  qed (simp_all add: addListener_sel[OF s])
  then show ?thesis using Some by (simp add: handle_add_def)
qed (simp add: handle_add_def inv)

lemma handle_remove_inv [wf_pres]:
  assumes inv: "host_inv st"
  shows "host_inv (handle_remove S c st)"
proof (cases "map_of (m_sourceRoots st) (m_rxName st)")
  case (Some i)
  have ok: "sio_ok st" using inv by (simp add: host_inv_def full_ok_def)
  from ok Some obtain s where s: "sources st i = Some s" by (rule sio_ok_root)
  have "host_inv (removeListener S i c False st)"
    by (rule host_inv_cong[OF inv removeListener_ok[OF ok Some]]) (simp_all add: removeListener_sel[OF s])
  then show ?thesis using Some by (simp add: handle_remove_def)
qed (simp add: handle_remove_def inv)

lemma host_inv_rxName: "host_inv st \<Longrightarrow> host_inv (st\<lparr>m_rxName := n\<rparr>)"
  by (rule host_inv_shape[of st]) (auto simp: host_inv_def full_ok_def sio_ok_def)

lemma server_step_inv [wf_pres]:
  assumes "host_inv st" and "c \<in> set (m_connections st)"
  shows "host_inv (server_step S E c m st)"
proof (cases m)
  case (M_Ping n)
  have "host_inv (handle_ping S c (st\<lparr>m_rxName := n\<rparr>))"
    by (rule host_inv_shape[OF host_inv_rxName[OF assms(1), of n]]) (simp_all add: handle_ping_def)
  then show ?thesis using M_Ping by simp
next
  case (M_Invoke n v)
  note inv = host_inv_rxName[OF assms(1), of n]
  then have "host_inv (handle_invoke S E c v (st\<lparr>m_rxName := n\<rparr>))"
    by (intro host_inv_shape[OF inv handle_invoke_shape] handle_invoke_clean)
       (simp add: host_inv_def full_ok_def sio_ok_def)
  then show ?thesis using M_Invoke by simp
qed (use assms host_inv_rxName[of st] in \<open>auto intro: handle_add_inv handle_remove_inv\<close>)

lemma pending_finished_inv [wf_pres]:
  assumes "host_inv st"
  shows "host_inv (pending_finished S E k v st)"
proof -
  have "same_shape st0 (foldl f st0 ws) \<and> (codec_clean st0 \<longrightarrow> codec_clean (foldl f st0 ws))"
    if "\<And>st w. same_shape st (f st w)" "\<And>st w. codec_clean st \<Longrightarrow> codec_clean (f st w)"
    for f and ws and st0 :: "('a, 'b) sourceio"
    using that by (induction ws arbitrary: st0) (auto intro: same_shape_trans)
  from this[of "\<lambda>st (k', serialId, c). if k' = k then (case v of
                Some v \<Rightarrow> send_reply S E (m_rxName st) serialId v c st | None \<Rightarrow> st) else st" st "watchers st"]
  have "same_shape st (pending_finished S E k v st) \<and> codec_clean (pending_finished S E k v st)"
    using assms unfolding pending_finished_def
    by (auto simp: send_reply_def host_inv_def full_ok_def sio_ok_def Let_def split: option.splits prod.splits)
  then show ?thesis using host_inv_shape[OF assms] by blast
qed

lemma enableRemoting_inv [wf_pres]:
  assumes inv: "host_inv st"
  shows "host_inv (snd (enableRemoting S t st))"
proof (cases "map_of (m_sourceRoots st) (api_name (tree_api t)) = None")
  case False
  then show ?thesis using inv by (auto simp: enableRemoting_def)
next
  case True
  obtain i st1 where r: "new_root t st = (i, st1)" by fastforce
  have nf: "no_future st" and q: "qmap_ok (m_sourceRoots st)"
    using inv by (simp_all add: host_inv_def full_ok_def sio_ok_def)
  note sel = new_root_sel[OF nf r]
  have obj: "\<exists>s. sources st1 i = Some s \<and> src_name s = api_name (tree_api t) \<and>
      m_objectToSourceMap st1 = (src_object s, i) #
        filter (\<lambda>e. fst e \<noteq> src_object s) (m_objectToSourceMap st)"
  proof -
    obtain a ob ad cs where t: "t = SrcTree a ob ad cs" by (cases t)
    let ?st0 = "st\<lparr>nextSource := Suc (nextSource st),
        privates := (privates st)(nextSource st := \<lparr>listeners = [], p_isDynamic = False, sentTypes = []\<rparr>)\<rparr>"
    obtain kids st2 where k: "(if ob = None then ([], ?st0)
        else new_children cs (api_name a) (nextSource st) ?st0) = (kids, st2)" by fastforce
    have "no_future ?st0" using nf by (simp add: no_future_def)
    then have "m_objectToSourceMap st2 = m_objectToSourceMap st"
      using k new_source_adds(2)[of ?st0 cs "api_name a" "nextSource st" kids st2]
      by (auto simp: adds_sources_def split: if_splits)
    then show ?thesis
      using r k by (auto simp: new_root_def t Let_def registerSource_def split: prod.splits option.splits)
  qed
  have "objs_ok st1"
    unfolding objs_ok_def
  proof (intro allI impI)
    fix ob j
    assume m: "(ob, j) \<in> set (m_objectToSourceMap st1)"
    obtain s where s: "sources st1 i = Some s" "src_name s = api_name (tree_api t)"
      "m_objectToSourceMap st1 = (src_object s, i) #
        filter (\<lambda>e. fst e \<noteq> src_object s) (m_objectToSourceMap st)" using obj by blast
    have roots: "map_of (m_sourceRoots st1) = (map_of (m_sourceRoots st))(api_name (tree_api t) \<mapsto> i)"
      by (simp add: sel(2) map_of_qmap_insert[OF q])
    show "\<exists>s. sources st1 j = Some s \<and> src_object s = ob \<and>
        map_of (m_sourceRoots st1) (src_name s) = Some j"
    proof (cases "(ob, j) = (src_object s, i)")
      case True
      then show ?thesis using s(1,2) roots by auto
    next
      case False
      then have "(ob, j) \<in> set (m_objectToSourceMap st)" using m s(3) by auto
      then obtain s' where s': "sources st j = Some s'" "src_object s' = ob"
        "map_of (m_sourceRoots st) (src_name s') = Some j"
        using inv unfolding host_inv_def objs_ok_def by blast
      then have "root_ok st (src_name s') j" using inv by (simp add: host_inv_def full_ok_def sio_ok_def)
      then have "j < i" by (simp add: sel(1) root_ok_def)
      moreover have "src_name s' \<noteq> api_name (tree_api t)" using s'(3) True by auto
      ultimately show ?thesis using s' sel(9)[of j] roots by auto
    qed
  qed
  then show ?thesis
    using enableRemoting_ok[of st S t] inv True r
    by (simp add: host_inv_def enableRemoting_def enableRemoting_api_def Let_def objs_ok_def)
qed


context qdata_stream
begin

lemma disableRemoting_inv [wf_pres]:
  assumes inv: "host_inv st"
  shows "host_inv (snd (disableRemoting S ob st))"
proof (cases "map_of (m_objectToSourceMap st) ob")
  case None
  then show ?thesis using inv by (simp add: disableRemoting_def)
next
  case (Some i)
  let ?st = "st\<lparr>m_objectToSourceMap := filter (\<lambda>e. fst e \<noteq> ob) (m_objectToSourceMap st)\<rparr>"
  from Some inv obtain s where s: "sources st i = Some s" "src_object s = ob"
    "map_of (m_sourceRoots st) (src_name s) = Some i"
    unfolding host_inv_def objs_ok_def by (blast dest: map_of_SomeD)
  let ?n = "src_name s"
  have full: "full_ok ?st"
    using inv by (simp add: host_inv_def full_ok_def sio_ok_def root_ok_def no_future_def codec_clean_def)
  have i: "map_of (m_sourceRoots ?st) ?n = Some i" "sources ?st i = Some s" using s by simp_all
  have ok: "sio_ok ?st" using full by (simp add: full_ok_def)
  note sel = delete_root_sel[OF ok i]
  have om: "set (m_objectToSourceMap (delete_root S i ?st)) \<subseteq> set (m_objectToSourceMap ?st)"
    by (simp add: sel(11)) auto
  have "objs_ok (delete_root S i ?st)"
    unfolding objs_ok_def
  proof (intro allI impI)
    fix ob' j
    assume "(ob', j) \<in> set (m_objectToSourceMap (delete_root S i ?st))"
    then have "ob' \<noteq> ob" and "(ob', j) \<in> set (m_objectToSourceMap st)" using om by auto
    then obtain t where t: "sources st j = Some t" "src_object t = ob'"
      "map_of (m_sourceRoots st) (src_name t) = Some j"
      using inv unfolding host_inv_def objs_ok_def by blast
    then have "j \<noteq> i" using s \<open>ob' \<noteq> ob\<close> by auto
    have "root_ok st (src_name t) j" using t(3) inv by (simp add: host_inv_def full_ok_def sio_ok_def)
    then have "src_isRoot t" using t(1) by (simp add: root_ok_def)
    then have "sources (delete_root S i ?st) j = Some t"
      using sel(5)[of j] \<open>j \<noteq> i\<close> t(1) by auto
    moreover have "src_name t \<noteq> ?n" using t(3) s(3) \<open>j \<noteq> i\<close> by auto
    ultimately show "\<exists>s. sources (delete_root S i ?st) j = Some s \<and> src_object s = ob' \<and>
        map_of (m_sourceRoots (delete_root S i ?st)) (src_name s) = Some j"
      using t(2,3) sel(1) by auto
  qed
  then show ?thesis
    using delete_root_ok[OF full i(1)] Some by (simp add: disableRemoting_def host_inv_def)
qed

lemma emission_inv [wf_pres]:
  assumes inv: "host_inv st"
  shows "host_inv (handleMetaCall S E i sig a (st\<lparr>world := w\<rparr>))"
proof -
  have clean: "codec_clean (st\<lparr>world := w\<rparr>)"
    using inv by (simp add: host_inv_def full_ok_def sio_ok_def)
  have "host_inv (st\<lparr>world := w\<rparr>)"
    by (rule host_inv_shape[OF inv _ clean]) simp
  then show ?thesis by (rule host_inv_shape[OF _ handleMetaCall_shape handleMetaCall_clean[OF clean]])
qed

theorem host_step_inv: "host_step S E st st' \<Longrightarrow> host_inv st \<Longrightarrow> host_inv st'"
proof (induction rule: host_step.induct)
  case connect
  then show ?case by (rule newConnection_inv)
next
  case packet
  then show ?case by (intro server_step_inv)
next
  case emit
  then show ?case by (intro emission_inv)
next
  case finish
  then show ?case by (rule pending_finished_inv)
next
  case share
  then show ?case by (rule enableRemoting_inv)
next
  case withdraw
  then show ?case by (rule disableRemoting_inv)
next
  case disconnect
  then show ?case by (rule disconnect_inv)
qed

end

subsection \<open>Reading a connection chunk by chunk\<close>

lemma dev_read_name: "dev_read S name dv = ((False, t, name'), dv') \<Longrightarrow> name' = name"
  by (auto simp: dev_read_def fromDataStream_def Let_def split_beta split: if_splits)

lemma recv_loop_keeps:
  assumes h: "\<And>t n i st. P n (fst (snd (h t n i st)))"
  shows "P name st \<Longrightarrow> recv_loop S h fuel (name, st, dv) = (name', st', dv') \<Longrightarrow> P name' st'"
proof (induction fuel arbitrary: name st dv)
  case 0
  then show ?case by simp
next
  case (Suc fuel)
  obtain ok t n dv1 where rd: "dev_read S name dv = ((ok, t, n), dv1)" by (metis prod_cases3 surj_pair)
  obtain go st1 i where hd: "h t n (rxBuf dv1) st = (go, st1, i)" by (metis prod_cases3)
  have "P n st1" using h[of n t "rxBuf dv1" st] by (simp add: hd)
  moreover have "ok \<or> n = name" using rd dev_read_name[of S name dv t n dv1] by (cases ok) auto
  ultimately show ?case
    using Suc by (auto simp: rd hd Let_def split: if_splits)
qed

lemma handleMetaCall_name [simp]: "m_rxName (handleMetaCall S E i sig a st) = m_rxName st"
  by (simp add: handleMetaCall_def Let_def split_beta split: option.split)

lemma run_emissions_name [simp]: "m_rxName (run_emissions S E es st) = m_rxName st"
proof (induction es arbitrary: st)
  case (Cons e es)
  obtain i sig a w where "e = (i, sig, a, w)" by (cases e)
  then show ?case using Cons by (simp add: run_emissions_def)
qed (simp add: run_emissions_def)

lemma handle_invoke_name [simp]: "m_rxName (handle_invoke S E c iv st) = m_rxName st"
proof -
  have n: "m_rxName (note_registry E c st') = m_rxName st'" for st'
    by (simp add: note_registry_def split: list.split)
  have m: "m_rxName (snd (invoke_method S E i ix args st')) = m_rxName st'" for i ix args st'
    by (simp add: invoke_method_def split_beta Let_def split: option.split)
  have f: "m_rxName (finish_call S E c k r) = m_rxName (snd r)" for k r
    by (simp add: finish_call_def send_reply_def split: option.split)
  have "m_rxName (handle_method S E c iv i s st') = m_rxName st'" for i s st'
    by (simp add: handle_method_def Let_def m f split: sum.split)
  moreover have "m_rxName (handle_write S E iv i s st') = m_rxName st'" for i s st'
    by (simp add: handle_write_def invoke_write_def split_beta Let_def split: option.split)
  ultimately show ?thesis by (simp add: handle_invoke_def Let_def n split: option.split)
qed

lemma server_handler_name: "m_rxName (fst (snd (server_handler S E c t n i st))) = n"
proof -
  have "m_rxName (handle_add S E c b st') = m_rxName st'" for b st'
    by (simp add: handle_add_def addListener_def Let_def split_beta split: option.split)
  moreover have "m_rxName (handle_remove S c st') = m_rxName st'" for st' :: "('a, 'b) sourceio"
    by (simp add: handle_remove_def removeListener_def Let_def split: option.split)
  ultimately show ?thesis
    by (cases t) (simp_all add: server_handler_def Let_def split_beta handle_ping_def)
qed

lemma onServerRead_fold:
  assumes "fold (on_ready_read S (server_handler S E c)) chunks (m_rxName st, st, rx c) = (name', st', dv')"
  shows "fold (onServerRead S E c) chunks (st, rx) = (st', rx(c := dv'))"
  using assms
proof (induction chunks arbitrary: st rx)
  case Nil
  then show ?case by auto
next
  case (Cons b bs)
  obtain n1 st1 dv1 where r: "on_ready_read S (server_handler S E c) b (m_rxName st, st, rx c) = (n1, st1, dv1)"
    by (metis prod_cases3)
  have "m_rxName st1 = n1"
  proof (rule recv_loop_keeps[where P = "\<lambda>n st. m_rxName st = n"])
    show "m_rxName st = m_rxName st" ..
    show "recv_loop S (server_handler S E c) (Suc (length (rxBuf (rx c) @ b)))
        (m_rxName st, st, (rx c)\<lparr>rxBuf := rxBuf (rx c) @ b\<rparr>) = (n1, st1, dv1)"
      using r by (simp add: on_ready_read_def Let_def del: recv_loop.simps)
  qed (rule server_handler_name)
  then have one: "onServerRead S E c b (st, rx) = (st1, rx(c := dv1))"
    by (simp add: onServerRead_def r)
  have "fold (on_ready_read S (server_handler S E c)) bs (m_rxName st1, st1, (rx(c := dv1)) c) = (name', st', dv')"
    using Cons.prems by (simp add: r \<open>m_rxName st1 = n1\<close>)
  then have "fold (onServerRead S E c) bs (st1, rx(c := dv1)) = (st', (rx(c := dv1))(c := dv'))"
    by (intro Cons.IH) simp
  then show ?case by (simp add: one fun_upd_def cong: if_cong)
qed

subsection \<open>Marshalled arguments\<close>

lemma drop_excess_take: "i \<le> length l \<Longrightarrow> drop_excess i l = take (i + (length l - i) div 2) l"
proof (induction i l rule: drop_excess.induct)
  case (1 i l)
  show ?case
  proof (cases "i < length l")
    case False
    then have "i = length l" using 1(2) by simp
    then show ?thesis by (simp add: drop_excess.simps[of "length l" l])
  next
    case True
    show ?thesis
    proof (cases "Suc i < length l")
      case t2: True
      have "take (Suc i + (length l - 1 - Suc i) div 2) (butlast l) = take (i + (length l - i) div 2) l"
      proof -
        have "length l - i = Suc (Suc (length l - 1 - Suc i))" using t2 by simp
        then have e: "i + (length l - i) div 2 = Suc i + (length l - 1 - Suc i) div 2" by simp
        have "Suc i + (length l - 1 - Suc i) div 2 \<le> length l - 1" using t2 by simp
        then show ?thesis unfolding e by (simp add: butlast_conv_take min_def)
      qed
      then show ?thesis using True 1(1)[OF True] t2 by (simp add: drop_excess.simps[of i l])
    next
      case False
      then have "length l = Suc i" using True by simp
      then show ?thesis
        by (simp add: drop_excess.simps[of i l] drop_excess.simps[of "Suc i" "take i l"] butlast_conv_take)
    qed
  qed
qed

lemma marshalArgs_eq:
  assumes "marshal_count A index \<le> length a"
  shows "marshalArgs A index a old =
    take (marshal_count A index) a @
    take ((length old - marshal_count A index) div 2) (drop (marshal_count A index) old)"
proof -
  let ?N = "marshal_count A index"
  show ?thesis
  proof (cases "length old \<le> ?N")
    case True
    have "take (length old) a @ map ((!) a) [length old ..< ?N] = take ?N a"
      using True assms by (intro nth_equalityI) (auto simp: nth_append min_def)
    then show ?thesis
      using True assms by (simp add: marshalArgs_def Let_def min_def drop_excess.simps)
  next
    case False
    then show ?thesis
      using assms by (simp add: marshalArgs_def Let_def min_def drop_excess_take)
  qed
qed

end
