(* ===== verification/ApiProps.thy ===== *)
theory ApiProps
  imports ApiMap
begin

text \<open>
  The properties of the tables: what a change signal names, and the two places where
  \<open>DynamicApiMap\<close>'s constructor does not do what its comments say.
\<close>

definition int_type :: metatype where
  "int_type = \<lparr>mt_name = ''int'', mt_size = 4, mt_isEnum = False, mt_isGadget = False,
     mt_toQObject = False, mt_isVariant = False\<rparr>"

definition thermo_meta :: metaobject where
  "thermo_meta = \<lparr>mo_className = ''Thermo'', mo_enumOffset = 0, mo_enumCount = 0, mo_propOffset = 0,
     mo_props = [\<lparr>mp_name = ''level'', mp_type = int_type, mp_notify = Some 0, mp_child = None\<rparr>],
     mo_methodOffset = 0,
     mo_methods =
       [\<lparr>mm_kind = Signal, mm_signature = ''levelChanged(int)'', mm_params = [int_type],
          mm_names = [''level''], mm_typeName = ''void''\<rparr>,
        \<lparr>mm_kind = Slot, mm_signature = ''raise(int)'', mm_params = [int_type],
          mm_names = [''by''], mm_typeName = ''int''\<rparr>],
     mo_classInfo = [], mo_ownClassInfo = []\<rparr>"

text \<open>
  In a table read by reflection from a class whose object-valued properties all have a known
  class, a signal that stands for a property change (its number is below the number of notifying
  properties) names one property of the table, the only one with that source index, and both ways
  the code asks for it (\<open>propertyIndexFromSignal\<close> on the source, \<open>propertyRawIndexFromSignal\<close> on
  the wire) agree.
\<close>

theorem change_signal_property:
  assumes "\<not> list_ex skipped (drop (mo_propOffset mo) (mo_props mo))"
    and "mo_propOffset mo \<le> length (mo_props mo)" and "T = dynamic_table (DynamicApiMap mo n t)"
    and "0 \<le> propertyIndexFromSignal T sig"
  shows "propertyRawIndexFromSignal T sig < int (propertyCount T) \<and>
    sourcePropertyIndex T (propertyRawIndexFromSignal T sig) = propertyIndexFromSignal T sig \<and>
    (\<forall>j. sourcePropertyIndex T j = propertyIndexFromSignal T sig \<longrightarrow> j = propertyRawIndexFromSignal T sig)"
proof -
  have T: "notifying_api T" using dynamic_notifying[OF assms(1,2)] assms(3) by simp
  show ?thesis
    using notifying_api.raw_in_range[OF T assms(4)] notifying_api.raw_unique[OF T assms(4)]
      notifying_api.signal_property[OF T assms(4)] by blast
qed

theorem change_signal_property_witness:
  "let T = dynamic_table (DynamicApiMap thermo_meta ''t'' ''T'')
   in 0 \<le> propertyIndexFromSignal T 0 \<and> propertyRawIndexFromSignal T 0 < int (propertyCount T)"
proof -
  let ?T = "dynamic_table (DynamicApiMap thermo_meta ''t'' ''T'')"
  have "0 \<le> propertyIndexFromSignal ?T 0" by code_simp
  with change_signal_property[OF _ _ refl this] show ?thesis
    by (simp add: Let_def thermo_meta_def int_type_def skipped_def)
qed

text \<open>
  A \<open>QObject*\<close> property whose class is not known is left out of the table, but the properties
  behind it keep their number in the class in \<open>m_propertyAssociatedWithSignal\<close>. For the change
  signal of the property behind it, \<open>propertyIndexFromSignal\<close> then reads past the end of
  \<open>m_properties\<close> (the model's \<open>-1\<close>), and \<open>propertyRawIndexFromSignal\<close> names a number the table
  does not have.
\<close>

theorem skipped_property_drifts:
  assumes "mo_propOffset mo = 0" and "mo_props mo = [p0, p1]" and "skipped p0" and "\<not> skipped p1"
    and "mp_notify p1 = Some k" and "T = dynamic_table (DynamicApiMap mo n t)"
  shows "propertyCount T = 1 \<and> sourcePropertyIndex T 0 = 1 \<and> propertyRawIndexFromSignal T 0 = 1 \<and>
    propertyIndexFromSignal T 0 = -1"
proof -
  have ix: "map int [mo_propOffset mo ..< length (mo_props mo)] = [0, 1]"
    unfolding assms(1,2) by (simp add: upt_rec)
  have "prop_at mo 0 = p0" "prop_at mo 1 = p1" by (simp_all add: prop_at_def assms(2))
  then have "m_properties (DynamicApiMap mo n t) = [1]"
    and "m_propertyAssociatedWithSignal (DynamicApiMap mo n t) = [1]"
    unfolding DynamicApiMap_numbers ix using assms(1,3-5) by simp_all
  then show ?thesis by (simp add: assms(6) dynamic_table_def index_at_def)
qed

definition odd_meta :: metaobject where
  "odd_meta = thermo_meta\<lparr>mo_props :=
     [\<lparr>mp_name = ''parent'', mp_type = int_type\<lparr>mt_toQObject := True\<rparr>, mp_notify = None, mp_child = None\<rparr>,
      \<lparr>mp_name = ''level'', mp_type = int_type, mp_notify = Some 0, mp_child = None\<rparr>]\<rparr>"

theorem skipped_property_drifts_witness:
  "let T = dynamic_table (DynamicApiMap odd_meta ''t'' ''T'')
   in propertyCount T = 1 \<and> propertyRawIndexFromSignal T 0 = 1"
proof -
  have "mo_propOffset odd_meta = 0" by (simp add: odd_meta_def thermo_meta_def)
  from skipped_property_drifts[OF this _ _ _ _ refl, of
      "\<lparr>mp_name = ''parent'', mp_type = int_type\<lparr>mt_toQObject := True\<rparr>, mp_notify = None, mp_child = None\<rparr>"
      "\<lparr>mp_name = ''level'', mp_type = int_type, mp_notify = Some 0, mp_child = None\<rparr>" 0 "''t''" "''T''"]
  show ?thesis by (simp add: odd_meta_def int_type_def skipped_def Let_def)
qed

text \<open>
  A sub-object whose class has no \<open>RemoteObject Type\<close> gets a type name from its class name:
  the code means to cut a QML suffix or a trailing \<open>Source\<close>. But its test of \<open>indexOf\<close> is also
  true for \<open>-1\<close>, so a class without the QML marker gets the empty type name, and the \<open>Source\<close> case
  is only reached by a class whose name starts with the marker.
\<close>

theorem subclass_typeName_lost:
  assumes "ci_type ci = None" and "str_indexOf ''QQuick'' (ci_className ci) < 0"
    and "str_indexOf ''_QMLTYPE_'' (ci_className ci) < 0"
  shows "subclass_typeName ci = []"
  using assms by (simp add: subclass_typeName_def str_contains_def str_truncate_def Let_def)

theorem subclass_typeName_lost_witness:
  "subclass_typeName \<lparr>ci_className = ''EngineSource'', ci_type = None, ci_isModel = False\<rparr> = []"
  by (rule subclass_typeName_lost) (simp_all add: str_indexOf_def)

end
