(* ===== verification/HostProps.thy ===== *)
theory HostProps
  imports Host ApiProps
begin

text \<open>
  The properties of a host: its invariant over every life, what each packet and each emission
  puts on which connection, and where the code of \<open>qremoteobjectsource.cpp\<close> and
  \<open>qremoteobjectsourceio.cpp\<close> does something other than it means to. The witnesses run on a small
  concrete host: an object with a level, a change signal and a slot that raises it.
\<close>

subsection \<open>A concrete host\<close>

definition thermo_api :: api where
  "thermo_api = dynamic_table (DynamicApiMap thermo_meta ''thermo'' ''Thermo'')"

lemma thermo_api_values:
  "api_name thermo_api = ''thermo''" "api_typeName thermo_api = ''Thermo''" "isDynamic thermo_api"
  "propertyCount thermo_api = 1" "signalCount thermo_api = 1" "methodCount thermo_api = 1"
  "sourceMethodIndex thermo_api 0 = 1" "sourceMethodIndex thermo_api 1 = -1"
  "sourcePropertyIndex thermo_api 0 = 0" "propertyIndexFromSignal thermo_api 0 = 0"
  "propertyRawIndexFromSignal thermo_api 0 = 0"
  "signalParams thermo_api 0 = [int_type]" "methodParams thermo_api 0 = [int_type]"
  "isAdapterMethod thermo_api 0 = False"
  by code_simp+

text \<open>
  Calling the slot raises the level by one and emits the change; values from 1000 on are pending
  calls; every property is written as its variant.
\<close>

definition thermo_env :: "(u32, nat) environment" where
  "thermo_env = \<lparr>propf = (\<lambda>s dyn i tw. (le_put_var (word_of_nat (snd tw)), tw)),
     classdef = (\<lambda>s tw. ([], tw)), enc = (\<lambda>v. v), dec = (\<lambda>v t. v),
     callm = (\<lambda>s m args w. ([(0, 0, args, Suc w)], word_of_nat (Suc w), Suc w)),
     setprop = (\<lambda>s p args w. ([(0, 0, args, Suc w)], Suc w)),
     pending = (\<lambda>v. if 1000 \<le> unat v then Some (unat v) else None), hostUrl = (\<lambda>v. ''tcp:'')\<rparr>"

definition host_start :: "'v qstream \<Rightarrow> string option \<Rightarrow> 'w \<Rightarrow> ('v, 'w) sourceio" where
  "host_start S addr w = \<lparr>m_sourceObjects = [], m_sourceRoots = [], m_objectToSourceMap = [],
     m_registryMapping = [], m_connections = [], m_codec = dsp_new S (packet_id InvokePacket), m_rxName = [], m_rxArgs = [],
     sources = (\<lambda>_. None), privates = (\<lambda>_. \<lparr>listeners = [], p_isDynamic = False, sentTypes = []\<rparr>),
     nextSource = 0, devices = (\<lambda>_. \<lparr>written = [], devOpen = True, isClosing = False\<rparr>),
     serverAddress = addr, signals = [], watchers = [], fault = None, world = w\<rparr>"

lemma host_start_inv: "host_inv (host_start S addr w)"
  by (simp add: host_start_def host_inv_def full_ok_def sio_ok_def codec_clean_def kids_ok_def
      no_future_def objs_ok_def dsp_new_def dsp_idle_def finished_def buf_put_def Let_def)

lemma host_reached_inv:
  assumes "qdata_stream S" and "rtranclp (host_step S E) (host_start S addr w) st"
  shows "host_inv st"
  using assms(2)
  by (induction rule: rtranclp_induct)
     (auto intro: host_start_inv qdata_stream.host_step_inv[OF assms(1)])

definition thermo_tree :: src_tree where
  "thermo_tree = SrcTree thermo_api (Some 7) None NoChildren"

definition thermo_source :: "u32 source" where
  "thermo_source = \<lparr>src_name = ''thermo'', src_isRoot = True, src_api = thermo_api,
     src_object = Some 7, src_adapter = None, src_children = [], src_priv = 0, src_args = []\<rparr>"

lemma thermo_source_sel [simp]:
  "src_name thermo_source = ''thermo''" "src_api thermo_source = thermo_api"
  "src_priv thermo_source = 0" "src_args thermo_source = []" "src_object thermo_source = Some 7"
  "src_isRoot thermo_source" "src_children thermo_source = []"
  by (simp_all add: thermo_source_def)

text \<open>The host after a client connected and the object was shared.\<close>

definition thermo_host :: "(u32, nat) sourceio" where
  "thermo_host = snd (enableRemoting le_stream thermo_tree
     (newConnection le_stream 3 (host_start le_stream (Some ''tcp:'') 20)))"

lemma thermo_host_reached:
  "rtranclp (host_step le_stream thermo_env) (host_start le_stream (Some ''tcp:'') 20) thermo_host"
  unfolding thermo_host_def
  by (rule rtranclp.rtrancl_into_rtrancl[OF rtranclp.rtrancl_into_rtrancl[OF rtranclp.rtrancl_refl]])
     (rule host_step.connect host_step.share)+

subsection \<open>Every life of a host\<close>

text \<open>
  C2: Whatever happens to a host, in whatever order (connections come and go, clients send packets,
  objects emit, are shared and withdrawn, pending calls finish), between two events nothing unsent
  stays in its codec; every registered root exists, under its own name, and each of its listeners
  is an open connection; and every entry of \<open>m_objectToSourceMap\<close> leads to the registered root of
  its object.
\<close>

theorem host_invariant:
  assumes "qdata_stream S" and "rtranclp (host_step S E) (host_start S addr w) st"
  shows "finished (m_codec st) = [] \<and>
    (\<forall>n i. map_of (m_sourceRoots st) n = Some i \<longrightarrow>
       (\<exists>s. sources st i = Some s \<and> src_isRoot s \<and> src_name s = n \<and>
            set (listeners (privates st (src_priv s))) \<subseteq> set (m_connections st))) \<and>
    (\<forall>ob i. map_of (m_objectToSourceMap st) ob = Some i \<longrightarrow>
       (\<exists>s. sources st i = Some s \<and> src_object s = ob \<and> map_of (m_sourceRoots st) (src_name s) = Some i))"
proof -
  have inv: "host_inv st" by (rule host_reached_inv[OF assms])
  then have roots: "root_ok st n i" if "map_of (m_sourceRoots st) n = Some i" for n i
    using that by (simp add: host_inv_def full_ok_def sio_ok_def)
  have "finished (m_codec st) = []"
    using inv by (simp add: host_inv_def full_ok_def sio_ok_def codec_clean_def)
  moreover have "\<exists>s. sources st i = Some s \<and> src_isRoot s \<and> src_name s = n \<and>
      set (listeners (privates st (src_priv s))) \<subseteq> set (m_connections st)"
    if "map_of (m_sourceRoots st) n = Some i" for n i
    using roots[OF that] unfolding root_ok_def by blast
  moreover have "\<exists>s. sources st i = Some s \<and> src_object s = ob \<and> map_of (m_sourceRoots st) (src_name s) = Some i"
    if "map_of (m_objectToSourceMap st) ob = Some i" for ob i
    using inv map_of_SomeD[OF that] by (simp add: host_inv_def objs_ok_def)
  ultimately show ?thesis by blast
qed

theorem host_invariant_witness:
  "rtranclp (host_step le_stream thermo_env) (host_start le_stream (Some ''tcp:'') 20) thermo_host \<and>
   finished (m_codec thermo_host) = []"
  using host_invariant[OF le_stream_laws thermo_host_reached] thermo_host_reached by blast

subsection \<open>Packets\<close>

lemma broadcast_one: "broadcast [c] bs devs = devs(c := dev_write bs (devs c))"
  by (auto simp: broadcast_def fun_eq_iff)

context qdata_stream
begin

lemma server_handles:
  "packet_handler S (server_handler S E c) (server_step S E c) (server_accepts S E c)"
  by (rule server.packet_handler_axioms)

end

text \<open>
  C8: A host handles the messages a client sends once each and in the order they were sent, and
  nothing is left unread, however the transport cuts their bytes into chunks.
\<close>

theorem server_receives:
  assumes "qdata_stream S" and "list_all (msg_fits S) ms"
    and "run_accepts (server_accepts S E c) (server_step S E c) ms st"
    and "concat chunks = concat (map (msg_frame S) ms)" and "rx c = \<lparr>rxBuf = [], curReadSize = 0\<rparr>"
  shows "fold (onServerRead S E c) chunks (st, rx) = (fold (server_step S E c) ms st, rx)"
proof -
  note h = qdata_stream.server_handles[OF assms(1), of E c]
  show ?thesis
    using onServerRead_fold[of S E c chunks st rx]
      packet_handler.delivers_from_idle[OF h assms(2-4)] assms(5)
    by (simp add: fun_upd_idem)
qed

lemma thermo_msgs_fit: "list_all (msg_fits le_stream) [M_Ping ''thermo'', M_Add ''thermo'' True]"
  by (simp add: msg_fits_def str_fits_def msg_body_def le_put_str_def put_elems_append)

theorem server_receives_witness:
  "let ms = [M_Ping ''thermo'', M_Add ''thermo'' True];
       b = concat (map (msg_frame le_stream) ms); rx = (\<lambda>_. \<lparr>rxBuf = [], curReadSize = 0\<rparr>)
   in fold (onServerRead le_stream thermo_env 3) [take 5 b, drop 5 b] (thermo_host, rx) =
        (fold (server_step le_stream thermo_env 3) ms thermo_host, rx)"
  unfolding Let_def
  by (rule server_receives[OF le_stream_laws thermo_msgs_fit]) (simp_all only: run_accepts.simps
      server_accepts.simps simp_thms concat.simps append_take_drop_id append_Nil2)

text \<open>
  C20: A client calls a method of a shared object. The object's emissions during the call go out
  first, each as it happens, and then the caller, and nobody else, gets one reply with the
  call's serial id and the encoded result.
\<close>

theorem invoke_replies:
  assumes "qdata_stream S" and "codec_clean st" and "m_rxName st \<noteq> ''Registry''"
    and "map_of (m_sourceObjects st) (m_rxName st) = Some i" and "sources st i = Some s"
    and "fault st = None" and "inv_call iv = InvokeMetaMethod"
    and "0 \<le> sourceMethodIndex (src_api s) (sint (inv_index iv))"
    and "prepare_args E (src_api s) (sint (inv_index iv)) (inv_args iv) = Inr args"
    and "callm E s (sourceMethodIndex (src_api s) (sint (inv_index iv))) args (world st) = (es, v, w)"
    and "0 \<le> sint (inv_serial iv)" and "pending E v = None"
  shows "devices (handle_invoke S E c iv st) =
    (let devs = devices (run_emissions S E es (st\<lparr>m_rxArgs := args\<rparr>));
         reply = msg_frame S (M_Reply (m_rxName st) (inv_serial iv) (enc E v))
     in devs(c := dev_write reply (devs c))) \<and>
    world (handle_invoke S E c iv st) = w"
proof -
  let ?st1 = "st\<lparr>m_rxArgs := inv_args iv\<rparr>"
  let ?st2 = "run_emissions S E es (st\<lparr>m_rxArgs := args\<rparr>)"
  let ?m = "M_Reply (m_rxName st) (inv_serial iv) (enc E v)"
  have note1: "note_registry E c ?st1 = ?st1" using assms(3) by (simp add: note_registry_def)
  have call: "invoke_method S E i (sint (inv_index iv)) args (st\<lparr>m_rxArgs := args\<rparr>) =
      (Some v, ?st2\<lparr>world := w\<rparr>)"
    using assms(5,8,10) by (simp add: invoke_method_def)
  have run: "handle_invoke S E c iv st =
      send_list [c] (write_packet (msg_write S ?m) (?st2\<lparr>world := w\<rparr>))"
    using assms(4-7,8,9,11,12) call
    by (simp add: handle_invoke_def note1 handle_method_def finish_call_def send_reply_def write_packet_def)
  have "codec_clean (?st2\<lparr>world := w\<rparr>)"
    using assms(2) run_emissions_clean[of "st\<lparr>m_rxArgs := args\<rparr>" S E es] by simp
  from qdata_stream.send_msg[OF assms(1) this, of ?m "msg_write S ?m" "[c]"]
  show ?thesis unfolding run by (simp add: Let_def broadcast_one)
qed

lemma thermo_host_values:
  "m_sourceObjects thermo_host = [(''thermo'', 0)]" "m_sourceRoots thermo_host = [(''thermo'', 0)]"
  "m_connections thermo_host = [3]" "nextSource thermo_host = 1" "fault thermo_host = None"
  "world thermo_host = 20" "privates thermo_host 0 = \<lparr>listeners = [], p_isDynamic = False, sentTypes = []\<rparr>" "watchers thermo_host = []"
  "m_registryMapping thermo_host = []"
  "sources thermo_host 0 = Some thermo_source"
  by (simp_all add: thermo_source_def thermo_host_def enableRemoting_def enableRemoting_api_def newConnection_def
      host_start_def thermo_tree_def thermo_api_values new_root_def registerSource_def Let_def)

lemma thermo_host_clean: "codec_clean thermo_host"
  using host_reached_inv[OF le_stream_laws thermo_host_reached]
  by (simp add: host_inv_def full_ok_def sio_ok_def)

theorem invoke_replies_witness:
  "let st = thermo_host\<lparr>m_rxName := ''thermo''\<rparr>;
       iv = \<lparr>inv_call = 0, inv_index = 0, inv_args = [5], inv_serial = 9, inv_property = -1\<rparr>;
       devs = devices (run_emissions le_stream thermo_env [(0, 0, [5], 21)] (st\<lparr>m_rxArgs := [5]\<rparr>));
       reply = msg_frame le_stream (M_Reply ''thermo'' 9 21)
   in devices (handle_invoke le_stream thermo_env 3 iv st) = devs(3 := dev_write reply (devs 3)) \<and>
      world (handle_invoke le_stream thermo_env 3 iv st) = 21"
proof -
  let ?st = "thermo_host\<lparr>m_rxName := ''thermo''\<rparr>"
  let ?iv = "\<lparr>inv_call = 0, inv_index = 0, inv_args = [5], inv_serial = 9, inv_property = -1\<rparr>"
  have "codec_clean ?st" using thermo_host_clean by simp
  from invoke_replies[OF le_stream_laws this, where iv = ?iv and i = 0 and E = thermo_env and c = 3]
  show ?thesis
    by (simp add: Let_def thermo_host_values thermo_api_values thermo_env_def prepare_args_def
        decode_args_def InvokeMetaMethod_def)
qed

text \<open>
  Whatever call, method or property index a client sends for a registered object, an index
  outside the object's table does nothing at all: no object is called, nothing is sent. This holds
  for the tables of both kinds, read by reflection and of a model.
\<close>

theorem bad_index_ignored:
  assumes "m_rxName st \<noteq> ''Registry''" and "fault st = None"
    and "map_of (m_sourceObjects st) (m_rxName st) = Some i" and "sources st i = Some s"
    and "src_api s = dynamic_table (DynamicApiMap mo n t) \<or> src_api s = adapter_table tab n"
    and "k = (if inv_call iv = InvokeMetaMethod then methodCount (src_api s) else propertyCount (src_api s))"
    and "sint (inv_index iv) < 0 \<or> int k \<le> sint (inv_index iv)"
  shows "handle_invoke S E c iv st = st\<lparr>m_rxArgs := inv_args iv\<rparr>"
proof -
  have A: "source_api (src_api s)"
    using assms(5) dynamic_source_api[of mo n t] adapter.source_api_axioms[of tab n] by auto
  have "note_registry E c (st\<lparr>m_rxArgs := inv_args iv\<rparr>) = st\<lparr>m_rxArgs := inv_args iv\<rparr>"
    using assms(1) by (simp add: note_registry_def)
  moreover have "inv_call iv = InvokeMetaMethod \<Longrightarrow> sourceMethodIndex (src_api s) (sint (inv_index iv)) < 0"
    using source_api.method_out_of_range[OF A] assms(6,7) by auto
  moreover have "inv_call iv \<noteq> InvokeMetaMethod \<Longrightarrow> sourcePropertyIndex (src_api s) (sint (inv_index iv)) < 0"
    using source_api.property_out_of_range[OF A] assms(6,7) by auto
  ultimately show ?thesis
    using assms(2-4) by (cases "inv_call iv = InvokeMetaMethod")
      (simp_all add: handle_invoke_def handle_method_def handle_write_def Let_def)
qed

theorem bad_index_ignored_witness:
  "let st = thermo_host\<lparr>m_rxName := ''thermo''\<rparr>;
       iv = \<lparr>inv_call = 0, inv_index = 1, inv_args = [5], inv_serial = 9, inv_property = -1\<rparr>
   in handle_invoke le_stream thermo_env 3 iv st = st\<lparr>m_rxArgs := [5]\<rparr>"
  unfolding Let_def
  by (subst bad_index_ignored[where i = 0 and k = 1 and s = thermo_source and mo = thermo_meta and
        n = "''thermo''" and t = "''Thermo''"])
     (simp_all add: thermo_host_values thermo_api_values InvokeMetaMethod_def flip: thermo_api_def)

subsection \<open>Emissions and listeners\<close>

lemma count_list_distinct: "distinct xs \<Longrightarrow> count_list xs c = (if c \<in> set xs then 1 else 0)"
  by (induction xs) auto

text \<open>
  C11: When an object emits, each listener of its root gets the same bytes once, the change packet
  of the property (if the signal is a property's) before the signal itself, and no other connection
  gets anything. A child's emission goes to the listeners of its root.
\<close>

theorem emission_reaches_listeners:
  assumes "qdata_stream S" and "codec_clean st" and "sources st i = Some s"
    and "distinct (listeners (privates st (src_priv s)))"
  shows "devices (handleMetaCall S E i sig a st) c =
    (if c \<in> set (listeners (privates st (src_priv s)))
     then dev_write (emission_bytes S E s (p_isDynamic (privates st (src_priv s))) sig a
            (sentTypes (privates st (src_priv s)), world st)) (devices st c)
     else devices st c)"
  using qdata_stream.handleMetaCall_devices[OF assms(1-3) refl] assms(4)
  by (simp add: broadcast_def count_list_distinct)

theorem emission_reaches_listeners_witness:
  "let st = handle_add le_stream thermo_env 3 False (thermo_host\<lparr>m_rxName := ''thermo''\<rparr>)
   in devices (handleMetaCall le_stream thermo_env 0 0 [5] st) 3 =
        dev_write (emission_bytes le_stream thermo_env thermo_source False 0 [5] ([], 20)) (devices st 3) \<and>
      devices (handleMetaCall le_stream thermo_env 0 0 [5] st) 4 = devices st 4"
proof -
  let ?h = "thermo_host\<lparr>m_rxName := ''thermo''\<rparr>"
  let ?st = "handle_add le_stream thermo_env 3 False ?h"
  have e: "?st = addListener le_stream thermo_env 0 3 False ?h"
    by (simp add: handle_add_def thermo_host_values)
  have p: "privates ?st 0 = \<lparr>listeners = [3], p_isDynamic = False, sentTypes = []\<rparr>" "world ?st = 20"
    unfolding e by (simp_all add: addListener_def thermo_host_values thermo_env_def thermo_api_values
        serializeInitPacket_def serializeProperties_def)
  have s: "sources ?st 0 = Some thermo_source" and "codec_clean ?st"
    unfolding e by (simp_all add: addListener_sel[of _ 0 thermo_source] thermo_host_values)
  from emission_reaches_listeners[OF le_stream_laws this(2) s] p
  show ?thesis by (simp add: Let_def)
qed

lemma handle_add_result:
  assumes "qdata_stream S" and "codec_clean st"
    and "map_of (m_sourceRoots st) (m_rxName st) = Some i" and "sources st i = Some s"
    and "p = privates st (src_priv s)" and "n = propertyCount (src_api s)"
  shows "devices (handle_add S E c dynamic st) =
      (devices st)(c := dev_write
        (if dynamic
         then frame S (packet_id InitDynamicPacket)
           (init_dynamic_body S (classdef E s) (propf E s True) (src_name s) n ([], world st))
         else frame S (packet_id InitPacket)
           (init_body S (propf E s (p_isDynamic p)) (src_name s) n (sentTypes p, world st)))
        (devices st c))
    \<and> listeners (privates (handle_add S E c dynamic st) (src_priv s)) = listeners p @ [c]"
proof -
  have idle: "dsp_idle (m_codec st)" "finished (m_codec st) = []"
    using assms(2) by (simp_all add: codec_clean_def)
  have a: "handle_add S E c dynamic st = addListener S E i c dynamic st"
    using assms(3) by (simp add: handle_add_def)
  have l: "listeners (privates (handle_add S E c dynamic st) (src_priv s)) = listeners p @ [c]"
    unfolding a by (simp add: addListener_sel(1)[OF assms(4)] assms(5))
  show ?thesis
  proof (cases dynamic)
    case True
    obtain tw' d where r: "serializeInitDynamicPacket S (classdef E s) (propf E s True) (src_name s) n
        (([], world st), m_codec st) = (tw', d)" by fastforce
    note fr = qdata_stream.serializeInitDynamicPacket_frame[OF assms(1) idle(1) r]
    have "devices (handle_add S E c dynamic st) = devices (send_list [c] (write_packet (\<lambda>_. d) st))"
      unfolding a using assms(4,6) r True
      by (simp add: addListener_def Let_def split_beta send_list_def write_packet_def)
    then show ?thesis
      using l fr(2,3) True idle(2) by (simp add: send_list_devices broadcast_one)
  next
    case False
    obtain tw' d where r: "serializeInitPacket S (propf E s (p_isDynamic p)) (src_name s) n
        ((sentTypes p, world st), m_codec st) = (tw', d)" by fastforce
    note fr = qdata_stream.serializeInitPacket_frame[OF assms(1) idle(1) r]
    have "devices (handle_add S E c dynamic st) = devices (send_list [c] (write_packet (\<lambda>_. d) st))"
      unfolding a using assms(4,5,6) r False
      by (simp add: addListener_def Let_def split_beta send_list_def write_packet_def)
    then show ?thesis
      using l fr(2,3) False idle(2) by (simp add: send_list_devices broadcast_one)
  qed
qed

text \<open>
  C19: A client that acquires a shared object becomes its listener and gets, in one packet and
  alone, the object's state: the property values, and for a dynamic replica also the definition of
  its class, with the set of types already sent emptied first.
\<close>

theorem acquire_sends_state:
  assumes "qdata_stream S" and "codec_clean st"
    and "map_of (m_sourceRoots st) (m_rxName st) = Some i" and "sources st i = Some s"
    and "p = privates st (src_priv s)" and "n = propertyCount (src_api s)"
  shows "devices (handle_add S E c dynamic st) =
      (devices st)(c := dev_write
        (if dynamic
         then frame S (packet_id InitDynamicPacket)
           (init_dynamic_body S (classdef E s) (propf E s True) (src_name s) n ([], world st))
         else frame S (packet_id InitPacket)
           (init_body S (propf E s (p_isDynamic p)) (src_name s) n (sentTypes p, world st)))
        (devices st c))
    \<and> listeners (privates (handle_add S E c dynamic st) (src_priv s)) = listeners p @ [c]"
  by (rule handle_add_result[OF assms])

theorem acquire_sends_state_witness:
  "let st = thermo_host\<lparr>m_rxName := ''thermo''\<rparr>
   in devices (handle_add le_stream thermo_env 3 False st) =
        (devices st)(3 := dev_write
          (frame le_stream 2 (init_body le_stream (\<lambda>i (tw :: string list \<times> nat). (le_put_var (word_of_nat (snd tw)), tw))
             ''thermo'' 1 ([], 20))) (devices st 3)) \<and>
      listeners (privates (handle_add le_stream thermo_env 3 False st) 0) = [3]"
  using acquire_sends_state[OF le_stream_laws, of "thermo_host\<lparr>m_rxName := ''thermo''\<rparr>" 0 thermo_source
      "privates thermo_host 0" 1 thermo_env 3 False]
  by (simp add: Let_def thermo_host_clean thermo_host_values thermo_api_values thermo_env_def)

text \<open>
  C24: After a connection is gone it is no listener of any root, and no later emission of a root or
  of one of its children writes to it. The other connections keep what they listened to.
\<close>

theorem disconnect_silences:
  assumes "qdata_stream S" and "rtranclp (host_step S E) (host_start S addr w) st"
    and "st' = onServerDisconnect S c st" and "map_of (m_sourceRoots st') n = Some r"
    and "sources st' i = Some s" and "src_priv s = r"
  shows "c \<notin> set (listeners (privates st' r)) \<and>
    devices (handleMetaCall S E i sig a st') c = devices st' c \<and>
    (\<forall>c'. c' \<noteq> c \<longrightarrow> count_list (listeners (privates st' r)) c' = count_list (listeners (privates st r)) c')"
proof -
  have ok: "sio_ok st"
    using host_reached_inv[OF assms(1,2)] by (simp add: host_inv_def full_ok_def)
  have clean: "codec_clean st'"
    using onServerDisconnect_ok[OF ok] assms(3) by (simp add: sio_ok_def)
  have r: "r \<in> snd ` set (m_sourceRoots st)"
    using assms(3,4) map_of_SomeD[of "m_sourceRoots st" n r]
    by (force simp: onServerDisconnect_result[OF ok])
  then have l: "listeners (privates st' r) = removeAll c (listeners (privates st r))"
    by (simp add: assms(3) onServerDisconnect_result[OF ok])
  have count: "count_list (removeAll c xs) c' = (if c' = c then 0 else count_list xs c')" for xs c'
    by (induction xs) auto
  then show ?thesis
    using qdata_stream.handleMetaCall_devices[OF assms(1) clean assms(5) refl, of E sig a] assms(6) l
    by (simp add: broadcast_def count)
qed

theorem disconnect_silences_witness:
  "let st' = onServerDisconnect le_stream 3 thermo_host
   in devices (handleMetaCall le_stream thermo_env 0 0 [5] st') 3 = devices st' 3"
proof -
  have ok: "sio_ok thermo_host"
    using host_reached_inv[OF le_stream_laws thermo_host_reached] by (simp add: host_inv_def full_ok_def)
  let ?s = "onServerDisconnect le_stream 3 thermo_host"
  have "map_of (m_sourceRoots ?s) ''thermo'' = Some 0" and "sources ?s 0 = Some thermo_source"
    by (simp_all add: onServerDisconnect_result[OF ok] thermo_host_values)
  from disconnect_silences[OF le_stream_laws thermo_host_reached refl this]
  show ?thesis by (simp add: Let_def)
qed

text \<open>
  C23: Withdrawing a shared object sends \<open>RemoveObject\<close> with its name to each of its listeners and
  to nobody else, takes the name out of both tables, deletes the source and announces the removal;
  withdrawing the object again fails.
\<close>

theorem withdraw_notifies:
  assumes "qdata_stream S" and "rtranclp (host_step S E) (host_start S addr w) st"
    and "map_of (m_objectToSourceMap st) ob = Some i" and "sources st i = Some s"
    and "disableRemoting S ob st = (b, st')"
  shows "b \<and> devices st' = broadcast (listeners (privates st i)) (msg_frame S (M_Remove (src_name s))) (devices st) \<and>
    m_sourceRoots st' = qmap_remove (src_name s) (m_sourceRoots st) \<and>
    m_sourceObjects st' = qmap_remove (src_name s) (m_sourceObjects st) \<and> sources st' i = None \<and>
    signals st' = signals st @ (case serverAddress st of None \<Rightarrow> []
      | Some u \<Rightarrow> [RemoteObjectRemoved (src_name s) (api_typeName (src_api s))]) \<and>
    fst (disableRemoting S ob st') = False"
proof -
  let ?st = "st\<lparr>m_objectToSourceMap := filter (\<lambda>e. fst e \<noteq> ob) (m_objectToSourceMap st)\<rparr>"
  have inv: "host_inv st" by (rule host_reached_inv[OF assms(1,2)])
  then obtain s' where "sources st i = Some s'" "src_object s' = ob"
      "map_of (m_sourceRoots st) (src_name s') = Some i"
    using map_of_SomeD[OF assms(3)] unfolding host_inv_def objs_ok_def by blast
  then have s: "src_object s = ob" "map_of (m_sourceRoots st) (src_name s) = Some i"
    using assms(4) by simp_all
  have ok: "sio_ok ?st"
    using inv by (simp add: host_inv_def full_ok_def sio_ok_def root_ok_def codec_clean_def)
  have i: "map_of (m_sourceRoots ?st) (src_name s) = Some i" "sources ?st i = Some s"
    using s assms(4) by simp_all
  have d: "b" "st' = delete_root S i ?st"
    using assms(3,5) by (auto simp: disableRemoting_def)
  note sel = qdata_stream.delete_root_sel[OF assms(1) ok i]
  have "map_of (m_objectToSourceMap st') ob = None"
    using s(1) by (auto simp: d(2) sel(11) map_of_eq_None_iff)
  then have "fst (disableRemoting S ob st') = False" by (simp add: disableRemoting_def)
  then show ?thesis using d sel by simp
qed

theorem withdraw_notifies_witness:
  "let (b, st') = disableRemoting le_stream (Some 7) thermo_host
   in b \<and> m_sourceRoots st' = [] \<and> sources st' 0 = None"
proof -
  obtain b st' where r: "disableRemoting le_stream (Some 7) thermo_host = (b, st')" by fastforce
  have "map_of (m_objectToSourceMap thermo_host) (Some 7) = Some 0"
    by (simp add: thermo_host_def enableRemoting_def enableRemoting_api_def newConnection_def
      host_start_def thermo_tree_def thermo_api_values new_root_def registerSource_def Let_def)
  from withdraw_notifies[OF le_stream_laws thermo_host_reached this _ r, of thermo_source]
  show ?thesis by (simp add: r thermo_host_values qmap_remove_def)
qed

subsection \<open>Where the code strays\<close>

text \<open>
  \<open>marshalArgs\<close> starts with the signal's arguments in order, but it removes only half of what a
  longer earlier signal left in the list it reuses: its removal loop counts up while the list gets
  shorter. So a signal with \<open>n\<close> arguments behind one with \<open>m \<ge> n\<close> is sent with
  \<open>(m - n) div 2\<close> stale ones.
\<close>

theorem marshalArgs_stale:
  assumes "marshal_count A sig \<le> length a"
  shows "marshalArgs A sig a old =
    take (marshal_count A sig) a @
    take ((length old - marshal_count A sig) div 2) (drop (marshal_count A sig) old)"
  by (rule marshalArgs_eq[OF assms])

theorem marshalArgs_stale_witness:
  "marshal_count thermo_api 0 = 1 \<and> marshalArgs thermo_api 0 [5] [1, 2, 3 :: u32] = [5, 2]"
  using marshalArgs_stale[of thermo_api 0 "[5]" "[1, 2, 3 :: u32]"]
  by (simp add: marshal_count_def thermo_api_values int_type_def)

text \<open>
  Withdrawing an object with a child deletes the child's source but leaves its name in
  \<open>m_sourceObjects\<close>: only roots are unregistered. A client that still calls the child makes the
  host use the deleted source, whatever it calls.
\<close>

theorem withdrawn_child_dangles:
  assumes "qdata_stream S" and "rtranclp (host_step S E) (host_start S addr w) st"
    and "map_of (m_sourceRoots st) (api_name a) = None"
    and "t = SrcTree a (Some ob) ad (Child p (SrcTree ca (Some cob) cad NoChildren) NoChildren)"
    and "st1 = snd (enableRemoting S t st)" and "st2 = snd (disableRemoting S (Some ob) st1)"
    and "m_rxName st3 = child_name (api_name a) ca" and "fault st3 = None"
    and "m_sourceObjects st3 = m_sourceObjects st2" and "sources st3 = sources st2"
  shows "fault (handle_invoke S E c iv st3) = Some (DeletedSource (Suc (nextSource st)))"
proof -
  have inv: "host_inv st" by (rule host_reached_inv[OF assms(1,2)])
  let ?n = "api_name a" and ?i = "nextSource st"
  let ?cn = "child_name ?n ca"
  have ne: "?cn \<noteq> ?n" and reg: "?cn \<noteq> ''Registry''"
  proof -
    have "length ?cn > length ?n" by (simp add: child_name_def)
    then show "?cn \<noteq> ?n" by auto
    show "?cn \<noteq> ''Registry''" by (simp add: child_name_def)
  qed
  have q: "qmap_ok (m_sourceObjects st)" using inv by (simp add: host_inv_def full_ok_def sio_ok_def)
  obtain st0 where st0: "new_root t st = (?i, st0)"
    by (simp add: new_root_def assms(4) Let_def)
  have e: "st1 = snd (enableRemoting_api S t st)"
    using assms(3) by (simp add: assms(4,5) enableRemoting_def)
  have objs: "map_of (m_sourceObjects st1) ?cn = Some (Suc ?i)"
    and map: "map_of (m_objectToSourceMap st1) (Some ob) = Some ?i"
    and src: "\<exists>s. sources st1 ?i = Some s \<and> src_children s = [(p, Suc ?i)] \<and> src_isRoot s \<and>
        src_name s = ?n \<and> src_priv s = ?i"
    and nxt: "nextSource st1 = Suc (Suc ?i)"
    and kid: "\<exists>s. sources st1 (Suc ?i) = Some s \<and> src_children s = []"
    using ne q assms(3)
    by (auto simp: e enableRemoting_api_def assms(4) new_root_def registerSource_def Let_def
        map_of_qmap_insert qmap_insert_ok split: option.splits)
  have quiet: "listeners (privates st1 ?i) = []"
    using assms(3) by (auto simp: e enableRemoting_api_def assms(4) new_root_def registerSource_def Let_def
        split: option.splits)
  from src obtain s where s: "sources st1 ?i = Some s" "src_children s = [(p, Suc ?i)]" "src_isRoot s"
    "src_name s = ?n" "src_priv s = ?i" by blast
  from kid obtain s' where s': "sources st1 (Suc ?i) = Some s'" "src_children s' = []" by blast
  have unreg: "sources (unregisterSource s x) = sources x" "privates (unregisterSource s x) = privates x"
    "m_sourceObjects (unregisterSource s x) = qmap_remove ?n (m_sourceObjects x)" for x
    by (simp_all add: unregisterSource_def Let_def s(4) split: option.split)
  have "sources st2 (Suc ?i) = None" and "map_of (m_sourceObjects st2) ?cn = Some (Suc ?i)"
    unfolding assms(6) disableRemoting_def using map s s' nxt quiet ne objs
    by (simp_all add: delete_root_def Let_def unreg)
  then show ?thesis
    using reg assms(7-10)
    by (simp add: handle_invoke_def note_registry_def Let_def)
qed

definition probe_tree :: src_tree where
  "probe_tree = SrcTree (thermo_api\<lparr>api_name := ''boiler''\<rparr>) (Some 8) None
     (Child 0 (SrcTree thermo_api (Some 9) None NoChildren) NoChildren)"

theorem withdrawn_child_dangles_witness:
  "let st1 = snd (enableRemoting le_stream probe_tree thermo_host);
       st2 = snd (disableRemoting le_stream (Some 8) st1);
       st3 = st2\<lparr>m_rxName := ''Class::boiler::thermo'', fault := None\<rparr>
   in fault (handle_invoke le_stream thermo_env 3
        \<lparr>inv_call = 0, inv_index = 0, inv_args = [5], inv_serial = 9, inv_property = -1\<rparr> st3) =
      Some (DeletedSource 2)"
  unfolding Let_def
  by (subst withdrawn_child_dangles[OF le_stream_laws thermo_host_reached _ _ refl refl,
        where a = "thermo_api\<lparr>api_name := ''boiler''\<rparr>" and ca = thermo_api and t = probe_tree and
        ob = 8 and cob = 9 and ad = None and cad = None and p = 0])
     (simp_all add: thermo_host_values thermo_api_values child_name_def probe_tree_def)

text \<open>
  When the value of a call is itself a pending call, the reply waits for it, and then goes out
  under the name of whatever packet the host read last, not under the name that was called.
\<close>

theorem deferred_reply_name:
  assumes "qdata_stream S" and "codec_clean st" and "watchers st = []"
    and "fst r = Some v" and "snd r = st" and "0 \<le> sint serialId" and "pending E v = Some k"
    and "st' = (finish_call S E c serialId r)\<lparr>m_rxName := later\<rparr>"
  shows "devices (finish_call S E c serialId r) = devices st \<and>
    devices (pending_finished S E k (Some x) st') =
      (devices st)(c := dev_write (msg_frame S (M_Reply later serialId (enc E x))) (devices st c)) \<and>
    watchers (pending_finished S E k (Some x) st') = []"
proof -
  have f: "finish_call S E c serialId r = st\<lparr>watchers := [(k, serialId, c)]\<rparr>"
    using assms by (simp add: finish_call_def)
  let ?m = "M_Reply later serialId (enc E x)"
  have clean: "codec_clean st'" using assms(2,8) f by simp
  have w: "serializeInvokeReplyPacket S later serialId (enc E x) = msg_write S ?m"
    by (simp add: fun_eq_iff)
  have n: "m_rxName st' = later" and ws: "watchers st' = [(k, serialId, c)]" and "devices st' = devices st"
    using assms(8) f by simp_all
  moreover have "pending_finished S E k (Some x) st' =
      (send_list [c] (write_packet (msg_write S ?m) st'))\<lparr>watchers := []\<rparr>"
    by (simp add: pending_finished_def ws n send_reply_def w)
  ultimately show ?thesis
    using qdata_stream.send_msg[OF assms(1) clean, of ?m "msg_write S ?m" "[c]"]
    unfolding f by (simp add: broadcast_one)
qed

theorem deferred_reply_name_witness:
  "let st = thermo_host\<lparr>m_rxName := ''thermo''\<rparr>;
       st' = (finish_call le_stream thermo_env 3 9 (Some 2000, st))\<lparr>m_rxName := ''other''\<rparr>
   in devices (pending_finished le_stream thermo_env 2000 (Some 1) st') =
        (devices st)(3 := dev_write (msg_frame le_stream (M_Reply ''other'' 9 1)) (devices st 3))"
  using deferred_reply_name[OF le_stream_laws, where x = 1 and later = "''other''", of "thermo_host\<lparr>m_rxName := ''thermo''\<rparr>"
      "(Some 2000, thermo_host\<lparr>m_rxName := ''thermo''\<rparr>)" 2000 9 thermo_env 2000 _ 3]
  by (simp add: Let_def thermo_host_clean thermo_host_values thermo_env_def)

text \<open>
  A call with fewer arguments than the method has parameters is not refused: the host indexes
  past the end of its argument list, before anything is called or sent.
\<close>

theorem short_call_faults:
  assumes "m_rxName st \<noteq> ''Registry''" and "fault st = None"
    and "map_of (m_sourceObjects st) (m_rxName st) = Some i" and "sources st i = Some s"
    and "inv_call iv = InvokeMetaMethod" and "0 \<le> sourceMethodIndex (src_api s) (sint (inv_index iv))"
    and "\<not> isAdapterMethod (src_api s) (sint (inv_index iv))"
    and "length (inv_args iv) < length (methodParams (src_api s) (sint (inv_index iv)))"
  shows "fault (handle_invoke S E c iv st) = Some (NoSuchArgument (length (inv_args iv))) \<and>
    devices (handle_invoke S E c iv st) = devices st \<and> world (handle_invoke S E c iv st) = world st"
  using assms
  by (simp add: handle_invoke_def note_registry_def handle_method_def prepare_args_def decode_args_def Let_def)

theorem short_call_faults_witness:
  "fault (handle_invoke le_stream thermo_env 3
      \<lparr>inv_call = 0, inv_index = 0, inv_args = [], inv_serial = 9, inv_property = -1\<rparr>
      (thermo_host\<lparr>m_rxName := ''thermo''\<rparr>)) = Some (NoSuchArgument 0)"
  using short_call_faults[where i = 0 and s = thermo_source and E = thermo_env and S = le_stream and c = 3 and
      st = "thermo_host\<lparr>m_rxName := ''thermo''\<rparr>" and
      iv = "\<lparr>inv_call = 0, inv_index = 0, inv_args = [], inv_serial = 9, inv_property = -1\<rparr>"]
  by (simp add: thermo_host_values thermo_api_values InvokeMetaMethod_def)

end
