(* ===== verification/WireProps.thy ===== *)
theory WireProps
  imports Receive LittleEndian
begin

text \<open>
  The wire format as a whole: what the codec writes, the readers read back. \<open>read_frame\<close> is the
  order in which the code calls its readers on one frame: \<open>QtROIoDeviceBase::read\<close>,
  \<open>fromDataStream\<close>, then the \<open>deserialize..Packet\<close> function of the type.
\<close>

definition read_args ::
    "'v qstream \<Rightarrow> packet_type \<Rightarrow> string \<Rightarrow> 'v list \<Rightarrow> bytes \<Rightarrow> 'v msg option \<times> bytes" where
  "read_args S t n old i =
    (case t of
       Handshake \<Rightarrow> (Some (M_Handshake n), i)
     | InitPacket \<Rightarrow> (let (vs, i') = deserializeInitPacket S i old in (Some (M_Init n vs), i'))
     | AddObject \<Rightarrow> (let (b, i') = deserializeAddObjectPacket S i in (Some (M_Add n b), i'))
     | RemoveObject \<Rightarrow> (Some (M_Remove n), i)
     | InvokePacket \<Rightarrow> (let (v, i') = deserializeInvokePacket S i old in (Some (M_Invoke n v), i'))
     | InvokeReplyPacket \<Rightarrow>
         (let (k, v, i') = deserializeInvokeReplyPacket S i in (Some (M_Reply n k v), i'))
     | PropertyChangePacket \<Rightarrow>
         (let (k, v, i') = deserializePropertyChangePacket S i in (Some (M_Prop n k v), i'))
     | ObjectList \<Rightarrow> (let (os, i') = deserializeObjectListPacket S i in (Some (M_Objects os), i'))
     | Ping \<Rightarrow> (Some (M_Ping n), i)
     | Pong \<Rightarrow> (Some (M_Pong n), i)
     | _ \<Rightarrow> (None, i))"

definition read_frame ::
    "'v qstream \<Rightarrow> 'v list \<Rightarrow> bytes \<Rightarrow> 'v msg option \<times> bytes" where
  "read_frame S old i =
    (let ((ok, t, n), dv) = dev_read S [] \<lparr>rxBuf = i, curReadSize = 0\<rparr>
     in if ok then read_args S t n old (rxBuf dv) else (None, rxBuf dv))"

fun read_frames :: "'v qstream \<Rightarrow> 'v list \<Rightarrow> nat \<Rightarrow> bytes \<Rightarrow> 'v msg option list \<times> bytes" where
  "read_frames S old 0 i = ([], i)"
| "read_frames S old (Suc k) i =
     (let (m, i1) = read_frame S old i; (ms, i2) = read_frames S old k i1 in (m # ms, i2))"

context qdata_stream
begin

lemma read_args_rt:
  assumes "msg_fits S m"
  shows "read_args S (msg_type m) (msg_name n m) old (msg_args S m @ r) = (Some m, r)"
  using assms readers_rt
  by (cases m) (simp_all add: read_args_def msg_fits_def del: msg_args.simps args_fit.simps,
      simp_all)

lemma read_frame_rt:
  assumes "msg_fits S m"
  shows "read_frame S old (msg_frame S m @ r) = (Some m, r)"
proof -
  let ?dv = "\<lparr>rxBuf = msg_frame S m @ r, curReadSize = 0\<rparr>"
  let ?n = "word_of_nat (2 + length (msg_body S m)) :: u32"
  let ?b = "put_u16 S (packet_id (msg_type m)) @ msg_body S m @ r"
  have b: "msg_frame S m @ r = put_u32 S ?n @ ?b" by (simp add: msg_frame_def frame_def)
  have len: "length ?b \<ge> unat ?n" "\<not> length (msg_frame S m @ r) < 4"
    using frame_size_word(1)[OF assms] by (simp_all add: u16_len msg_frame_length)
  have "dev_read S [] ?dv = ((True, msg_type m, msg_name [] m), \<lparr>rxBuf = msg_args S m @ r, curReadSize = 0\<rparr>)"
    using len fromDataStream_msg[OF assms, of "[]" r]
    by (simp add: dev_read_def b u32_rt Let_def)
  then show ?thesis using read_args_rt[OF assms, of "[]" old r] by (simp add: read_frame_def)
qed

lemma read_frames_rt:
  "list_all (msg_fits S) ms \<Longrightarrow>
     read_frames S old (length ms) (concat (map (msg_frame S) ms) @ r) = (map Some ms, r)"
  by (induction ms) (simp_all add: read_frame_rt)

end



text \<open>
  A frame whose type the codec does not know is not skipped: the reader gives up at its type
  field, keeps the body in the stream, and takes the body's first bytes for the next frame's length.
\<close>

theorem unknown_type_desynchronises:
  assumes "qdata_stream S" and "packet_type_of t = Invalid" and "2 + length body < 2 ^ 32"
  shows "dev_read S n \<lparr>rxBuf = frame S t body @ r, curReadSize = 0\<rparr> =
    ((False, Invalid, n), \<lparr>rxBuf = body @ r, curReadSize = 0\<rparr>)"
proof -
  have n: "unat (word_of_nat (2 + length body) :: u32) = 2 + length body"
    using assms(3) by (rule unat_of_nat_u32)
  show ?thesis
    using assms n
    by (simp add: dev_read_def frame_def Let_def fromDataStream_def qdata_stream.u32_rt
        qdata_stream.u16_rt qdata_stream.u32_len qdata_stream.u16_len)
qed

theorem unknown_type_desynchronises_witness:
  "dev_read le_stream ''x'' \<lparr>rxBuf = frame le_stream 77 [1, 2] @ [3], curReadSize = 0\<rparr> =
    ((False, Invalid, ''x''), \<lparr>rxBuf = [1, 2] @ [3], curReadSize = 0\<rparr>)"
  by (rule unknown_type_desynchronises[OF le_stream_laws]) (simp_all add: packet_type_of_def)

end
