(* ===== verification/LRUCache.thy ===== *)
theory LRUCache
  imports Prelude "HOL-Library.AList"
begin

text \<open>
  The template \<open>LRUCache\<close> of \<open>qremoteobjectabstractitemmodelreplica_p.h\<close>, which holds the rows a
  model replica has fetched. \<open>cachedItems\<close> is the linked list, most recently used first: its nodes
  carry an identity (what a list iterator points to), the key stored in the node and the value.
  \<open>cachedItemsMap\<close> maps a key to a node. \<open>deleted\<close> logs the values the cache has destroyed.

  Two uses of an iterator are undefined in C++ and are results of the model: dereferencing the end
  of the list, and dereferencing an iterator whose node has been erased.
\<close>

record 'v lru =
  cachedItems :: "(nat \<times> int \<times> 'v) list"
  cachedItemsMap :: "(int \<times> nat) list"
  cacheSize :: nat
  nextNode :: nat
  deleted :: "'v list"

datatype lru_ub = DerefEnd | DanglingIterator

text \<open>A reverse iterator: so many places from the back, or pointing into an erased node.\<close>

datatype rev_iter = At nat | Dangling

fun skip_parents :: "('v \<Rightarrow> bool) \<Rightarrow> (nat \<times> int \<times> 'v) list \<Rightarrow> (nat \<times> int \<times> 'v) option" where
  "skip_parents hc [] = None"
| "skip_parents hc ((i, k, v) # xs) = (if hc v then skip_parents hc xs else Some (i, k, v))"

definition erase_node :: "nat \<Rightarrow> int \<Rightarrow> 'v \<Rightarrow> 'v lru \<Rightarrow> 'v lru" where
  "erase_node i k v c =
    c\<lparr>cachedItems := filter (\<lambda>n. fst n \<noteq> i) (cachedItems c),
      cachedItemsMap := AList.delete k (cachedItemsMap c),
      deleted := deleted c @ [v]\<rparr>"

text \<open>
  The loop of \<open>cleanCache\<close>. The inner loop looks at \<open>it->second->hasChildren\<close> before it compares
  \<open>it\<close> with the end, so running out of candidates dereferences the end; and erasing
  \<open>(++it).base()\<close> erases the very node \<open>it\<close> is based on, so a second turn starts from an
  iterator that no longer points anywhere.
\<close>

function clean_loop :: "('v \<Rightarrow> bool) \<Rightarrow> rev_iter \<Rightarrow> 'v lru \<Rightarrow> lru_ub + 'v lru" where
  "clean_loop hc it c =
    (if length (cachedItemsMap c) \<le> cacheSize c then Inr c
     else case it of
       Dangling \<Rightarrow> Inl DanglingIterator
     | At p \<Rightarrow>
        (case skip_parents hc (drop p (rev (cachedItems c))) of
           None \<Rightarrow> Inl DerefEnd
         | Some (i, k, v) \<Rightarrow> clean_loop hc Dangling (erase_node i k v c)))"
  by pat_completeness auto
termination
  by (relation "measure (\<lambda>(hc, it, c). case it of At p \<Rightarrow> 1 | Dangling \<Rightarrow> 0)") auto

declare clean_loop.simps [simp del]

definition lru_new :: "nat \<Rightarrow> 'v lru" where
  "lru_new n = \<lparr>cachedItems = [], cachedItemsMap = [], cacheSize = n, nextNode = 0, deleted = []\<rparr>"

definition cleanCache :: "('v \<Rightarrow> bool) \<Rightarrow> 'v lru \<Rightarrow> lru_ub + 'v lru" where
  "cleanCache hc c = clean_loop hc (At 0) c"

definition setCacheSize :: "('v \<Rightarrow> bool) \<Rightarrow> nat \<Rightarrow> 'v lru \<Rightarrow> lru_ub + 'v lru" where
  "setCacheSize hc rootCacheSize c = cleanCache hc (c\<lparr>cacheSize := rootCacheSize\<rparr>)"

definition changeKeys :: "int \<Rightarrow> int \<Rightarrow> 'v lru \<Rightarrow> 'v lru" where
  "changeKeys key delta c =
    (let moved = filter (\<lambda>(k, i). k \<ge> key) (cachedItemsMap c);
         kept = filter (\<lambda>(k, i). k < key) (cachedItemsMap c);
         changed = map (\<lambda>(k, i). (k + delta, i)) moved
     in c\<lparr>cachedItems := map (\<lambda>(i, k, v). if i \<in> set (map snd moved) then (i, k + delta, v)
                               else (i, k, v)) (cachedItems c),
          cachedItemsMap := fold (\<lambda>(k, i). AList.update k i) changed kept\<rparr>)"

definition lru_ensure :: "('v \<Rightarrow> bool) \<Rightarrow> int \<Rightarrow> 'v \<Rightarrow> 'v lru \<Rightarrow> lru_ub + 'v lru" where
  "lru_ensure hc key value c =
    cleanCache hc
      (c\<lparr>cachedItems := (nextNode c, key, value) # cachedItems c,
         cachedItemsMap := AList.update key (nextNode c) (cachedItemsMap c),
         nextNode := Suc (nextNode c)\<rparr>)"

definition lru_insert :: "('v \<Rightarrow> bool) \<Rightarrow> int \<Rightarrow> 'v \<Rightarrow> 'v lru \<Rightarrow> lru_ub + 'v lru" where
  "lru_insert hc key value c = lru_ensure hc key value (changeKeys key 1 c)"

definition node_of :: "'v lru \<Rightarrow> nat \<Rightarrow> (nat \<times> int \<times> 'v) option" where
  "node_of c i = find (\<lambda>n. fst n = i) (cachedItems c)"

definition lru_remove :: "int \<Rightarrow> 'v lru \<Rightarrow> 'v lru" where
  "lru_remove key c =
    (case map_of (cachedItemsMap c) key of
       None \<Rightarrow> changeKeys key (-1) c
     | Some i \<Rightarrow>
        (case node_of c i of
           None \<Rightarrow> changeKeys key (-1) c
         | Some (i', k, v) \<Rightarrow> changeKeys key (-1) (erase_node i key v c)))"

definition lru_get :: "int \<Rightarrow> 'v lru \<Rightarrow> 'v option \<times> 'v lru" where
  "lru_get key c =
    (case map_of (cachedItemsMap c) key of
       None \<Rightarrow> (None, c)
     | Some i \<Rightarrow>
        (case node_of c i of
           None \<Rightarrow> (None, c)
         | Some (i', k, v) \<Rightarrow>
             (Some v, c\<lparr>cachedItems := (i', k, v) # filter (\<lambda>n. fst n \<noteq> i) (cachedItems c)\<rparr>)))"

definition lru_find :: "'v \<Rightarrow> 'v lru \<Rightarrow> int" where
  "lru_find val c =
    (case find (\<lambda>(k, i). \<exists>n \<in> set (cachedItems c). fst n = i \<and> snd (snd n) = val) (cachedItemsMap c)
     of Some (k, i) \<Rightarrow> k | None \<Rightarrow> 0)"

definition lru_exists_value :: "'v \<Rightarrow> 'v lru \<Rightarrow> bool" where
  "lru_exists_value val c \<longleftrightarrow> list_ex (\<lambda>(i, k, v). v = val) (cachedItems c)"

definition lru_exists :: "int \<Rightarrow> 'v lru \<Rightarrow> bool" where
  "lru_exists key c \<longleftrightarrow> map_of (cachedItemsMap c) key \<noteq> None"

definition lru_size :: "'v lru \<Rightarrow> nat" where
  "lru_size c = length (cachedItemsMap c)"

definition lru_clear :: "'v lru \<Rightarrow> 'v lru" where
  "lru_clear c =
    c\<lparr>cachedItems := [], cachedItemsMap := [],
      deleted := deleted c @ map (\<lambda>(i, k, v). v) (cachedItems c)\<rparr>"

subsection \<open>The invariant: list and map describe the same entries\<close>

definition node_keys :: "'v lru \<Rightarrow> int list" where
  "node_keys c = map (\<lambda>(i, k, v). k) (cachedItems c)"

definition lru_wf :: "'v lru \<Rightarrow> bool" where
  "lru_wf c \<longleftrightarrow>
    distinct (map fst (cachedItems c)) \<and> distinct (node_keys c) \<and>
    (\<forall>n \<in> set (cachedItems c). fst n < nextNode c) \<and>
    distinct (map fst (cachedItemsMap c)) \<and>
    set (cachedItemsMap c) = (\<lambda>(i, k, v). (k, i)) ` set (cachedItems c)"

text \<open>What the cache stands for: a partial map from keys to values.\<close>

definition lru_abs :: "'v lru \<Rightarrow> int \<rightharpoonup> 'v" where
  "lru_abs c = map_of (map (\<lambda>(i, k, v). (k, v)) (cachedItems c))"

lemma imap_set:
  "lru_wf c \<Longrightarrow> (k, i) \<in> set (cachedItemsMap c) \<longleftrightarrow> (\<exists>v. (i, k, v) \<in> set (cachedItems c))"
  unfolding lru_wf_def by (auto 4 4 simp: image_iff)

lemma map_of_imap:
  "lru_wf c \<Longrightarrow> map_of (cachedItemsMap c) k = Some i \<longleftrightarrow> (\<exists>v. (i, k, v) \<in> set (cachedItems c))"
  using imap_set[of c k i] by (simp add: lru_wf_def map_of_eq_Some_iff)

lemma distinct_items:
  assumes "lru_wf c" and "(i, k, v) \<in> set (cachedItems c)" and "(i', k', v') \<in> set (cachedItems c)"
    and "i = i' \<or> k = k'"
  shows "i = i'" and "k = k'" and "v = v'"
proof -
  have "inj_on fst (set (cachedItems c))" and "inj_on (\<lambda>(i, k, v). k) (set (cachedItems c))"
    using assms(1) by (simp_all add: lru_wf_def node_keys_def distinct_map)
  then have "(i, k, v) = (i', k', v')"
    using assms(2-4) inj_onD[of fst "set (cachedItems c)" "(i, k, v)" "(i', k', v')"]
      inj_onD[of "\<lambda>(i, k, v). k" "set (cachedItems c)" "(i, k, v)" "(i', k', v')"] by auto
  then show "i = i'" and "k = k'" and "v = v'" by simp_all
qed

lemma lru_wf_length:
  assumes "lru_wf c"
  shows "length (cachedItemsMap c) = length (cachedItems c)"
proof -
  have wf: "distinct (map fst (cachedItems c))" "distinct (map fst (cachedItemsMap c))"
      "set (cachedItemsMap c) = (\<lambda>(i, k, v). (k, i)) ` set (cachedItems c)"
    using assms unfolding lru_wf_def by blast+
  have "inj_on (snd \<circ> (\<lambda>(i, k, v). (k, i))) (set (cachedItems c))"
    using wf(1) by (simp add: distinct_map comp_def split_beta)
  then have "inj_on (\<lambda>(i, k, v). (k, i)) (set (cachedItems c))" by (rule inj_on_imageI2)
  then have "card (set (cachedItemsMap c)) = card (set (cachedItems c))"
    unfolding wf(3) by (rule card_image)
  then show ?thesis
    using wf(1,2) by (simp add: distinct_map distinct_card)
qed

lemma keyed_fst: "map fst (map (\<lambda>(i, k, v). (k, v)) xs) = map (\<lambda>(i, k, v). k) xs"
  by (induction xs) auto

lemma keyed_set: "(k, v) \<in> set (map (\<lambda>(i, k, v). (k, v)) xs) \<longleftrightarrow> (\<exists>i. (i, k, v) \<in> set xs)"
  by (induction xs) auto

lemma map_of_keyed:
  "distinct (map (\<lambda>(i, k, v). k) xs) \<Longrightarrow>
     map_of (map (\<lambda>(i, k, v). (k, v)) xs) k = Some v \<longleftrightarrow> (\<exists>i. (i, k, v) \<in> set xs)"
  using keyed_fst[of xs] keyed_set[of k v xs] by (metis map_of_eq_Some_iff)

lemma lru_abs_Some:
  "lru_wf c \<Longrightarrow> lru_abs c k = Some v \<longleftrightarrow> (\<exists>i. (i, k, v) \<in> set (cachedItems c))"
  using map_of_keyed[of "cachedItems c" k v]
  unfolding lru_abs_def lru_wf_def node_keys_def by blast

lemma lru_exists_abs: "lru_wf c \<Longrightarrow> lru_exists k c \<longleftrightarrow> lru_abs c k \<noteq> None"
  using map_of_imap[of c k] lru_abs_Some[of c k]
  by (auto simp: lru_exists_def)

lemma find_node:
  assumes "distinct (map fst xs)" and "(i, k, v) \<in> set xs"
  shows "find (\<lambda>n. fst n = i) xs = Some (i, k, v)"
  using assms by (induction xs) (auto simp: image_iff)

lemma node_of_wf: "lru_wf c \<Longrightarrow> (i, k, v) \<in> set (cachedItems c) \<Longrightarrow> node_of c i = Some (i, k, v)"
  by (auto simp: node_of_def lru_wf_def intro: find_node)

lemma lru_abs_of_set:
  assumes "lru_wf c" and "lru_wf c'"
    and "\<And>k v. (\<exists>i. (i, k, v) \<in> set (cachedItems c')) \<longleftrightarrow> f k = Some v"
  shows "lru_abs c' = f"
proof
  fix k
  show "lru_abs c' k = f k"
  proof (rule option.expand)
    show "(lru_abs c' k = None) = (f k = None)"
      using lru_abs_Some[OF assms(2)] assms(3) by (metis not_None_eq)
    show "lru_abs c' k \<noteq> None \<Longrightarrow> f k \<noteq> None \<Longrightarrow> the (lru_abs c' k) = the (f k)"
      using lru_abs_Some[OF assms(2)] assms(3) by (metis option.collapse)
  qed
qed

subsection \<open>Eviction\<close>

lemma cleanCache_result:
  "cleanCache hc c =
    (if lru_size c \<le> cacheSize c then Inr c
     else case skip_parents hc (rev (cachedItems c)) of
       None \<Rightarrow> Inl DerefEnd
     | Some (i, k, v) \<Rightarrow>
        (let c' = erase_node i k v c
         in if lru_size c' \<le> cacheSize c' then Inr c' else Inl DanglingIterator))"
  unfolding cleanCache_def lru_size_def Let_def
  by (simp add: clean_loop.simps[of hc "At 0"] clean_loop.simps[of hc Dangling]
      split: option.split)

lemma skip_parents_find: "skip_parents hc xs = find (\<lambda>(i, k, v). \<not> hc v) xs"
  by (induction hc xs rule: skip_parents.induct) auto

lemma skip_parents_None: "skip_parents hc xs = None \<longleftrightarrow> (\<forall>(i, k, v) \<in> set xs. hc v)"
  by (auto simp: skip_parents_find find_None_iff)

lemma skip_parents_mem:
  "skip_parents hc xs = Some (i, k, v) \<Longrightarrow> (i, k, v) \<in> set xs \<and> \<not> hc v"
  by (induction hc xs rule: skip_parents.induct) (auto split: if_splits)

lemma set_delete: "set (AList.delete k m) = {x \<in> set m. fst x \<noteq> k}"
  by (auto simp: AList.delete_eq)

lemma length_delete_key:
  "distinct (map fst m) \<Longrightarrow> (k, i) \<in> set m \<Longrightarrow> Suc (length (AList.delete k m)) = length m"
proof (induction m)
  case (Cons x m)
  show ?case
  proof (cases "fst x = k")
    case True
    then have "k \<notin> fst ` set m" using Cons.prems by auto
    then show ?thesis using True by (cases x) simp
  next
    case False
    then show ?thesis using Cons by (cases x) auto
  qed
qed simp

lemma erase_node_size:
  assumes "lru_wf c" and "(i, k, v) \<in> set (cachedItems c)"
  shows "Suc (lru_size (erase_node i k v c)) = lru_size c"
proof -
  have "(k, i) \<in> set (cachedItemsMap c)" using assms imap_set by blast
  moreover have "distinct (map fst (cachedItemsMap c))"
    using assms(1) unfolding lru_wf_def by blast
  ultimately show ?thesis
    unfolding lru_size_def erase_node_def by (simp add: length_delete_key)
qed

lemma erase_node_wf [wf_pres]:
  assumes "lru_wf c" and "(i, k, v) \<in> set (cachedItems c)"
  shows "lru_wf (erase_node i k v c)"
  unfolding lru_wf_def
proof (intro conjI)
  have wf: "distinct (map fst (cachedItems c))" "distinct (map fst (cachedItemsMap c))"
      "distinct (node_keys c)" "\<forall>n \<in> set (cachedItems c). fst n < nextNode c"
    using assms(1) unfolding lru_wf_def by blast+
  show "distinct (map fst (cachedItems (erase_node i k v c)))"
    using wf(1) by (simp add: erase_node_def distinct_map_filter)
  show "distinct (node_keys (erase_node i k v c))"
    using wf(3) by (simp add: erase_node_def node_keys_def distinct_map_filter)
  show "\<forall>n \<in> set (cachedItems (erase_node i k v c)). fst n < nextNode (erase_node i k v c)"
    using wf(4) by (simp add: erase_node_def)
  show "distinct (map fst (cachedItemsMap (erase_node i k v c)))"
    using wf(2) by (simp add: erase_node_def AList.distinct_delete)
  show "set (cachedItemsMap (erase_node i k v c)) =
      (\<lambda>(i, k, v). (k, i)) ` set (cachedItems (erase_node i k v c))"
    (is "?m = ?f ` ?s")
  proof (intro set_eqI iffI)
    fix x :: "int \<times> nat"
    obtain k' i' where x: "x = (k', i')" by (cases x)
    { assume "x \<in> ?m"
      then have "k' \<noteq> k" "(k', i') \<in> set (cachedItemsMap c)"
        unfolding x erase_node_def by (auto simp: set_delete)
      then obtain v' where v': "(i', k', v') \<in> set (cachedItems c)" using imap_set[OF assms(1)] by blast
      moreover have "i' \<noteq> i" using distinct_items(2)[OF assms(1) v' assms(2)] \<open>k' \<noteq> k\<close> by blast
      ultimately show "x \<in> ?f ` ?s" unfolding x erase_node_def by force }
    { assume "x \<in> ?f ` ?s"
      then obtain v' where v': "(i', k', v') \<in> set (cachedItems c)" "i' \<noteq> i"
        unfolding x erase_node_def by auto
      then have "(k', i') \<in> set (cachedItemsMap c)" using imap_set[OF assms(1)] by blast
      moreover have "k' \<noteq> k" using distinct_items(1)[OF assms(1) v'(1) assms(2)] v'(2) by blast
      ultimately show "x \<in> ?m" unfolding x erase_node_def by (simp add: set_delete) }
  qed
qed

lemma erase_node_abs:
  assumes "lru_wf c" and "(i, k, v) \<in> set (cachedItems c)"
  shows "lru_abs (erase_node i k v c) = (lru_abs c)(k := None)"
proof (rule lru_abs_of_set[OF assms(1) erase_node_wf[OF assms]])
  fix k' v'
  have "(\<exists>i'. (i', k', v') \<in> set (cachedItems (erase_node i k v c))) \<longleftrightarrow>
      (\<exists>i'. (i', k', v') \<in> set (cachedItems c) \<and> k' \<noteq> k)"
  proof (intro iffI; elim exE)
    fix i'
    assume "(i', k', v') \<in> set (cachedItems (erase_node i k v c))"
    then have m: "(i', k', v') \<in> set (cachedItems c)" "i' \<noteq> i" by (auto simp: erase_node_def)
    then have "k' \<noteq> k" using distinct_items(1)[OF assms(1) m(1) assms(2)] by blast
    then show "\<exists>i'. (i', k', v') \<in> set (cachedItems c) \<and> k' \<noteq> k" using m by blast
  next
    fix i'
    assume m: "(i', k', v') \<in> set (cachedItems c) \<and> k' \<noteq> k"
    then have "i' \<noteq> i" using distinct_items(2)[OF assms(1) _ assms(2), of i' k' v'] by blast
    then show "\<exists>i'. (i', k', v') \<in> set (cachedItems (erase_node i k v c))"
      using m by (auto simp: erase_node_def)
  qed
  then show "(\<exists>i'. (i', k', v') \<in> set (cachedItems (erase_node i k v c))) \<longleftrightarrow>
      ((lru_abs c)(k := None)) k' = Some v'"
    using lru_abs_Some[OF assms(1), of k' v'] by (simp add: fun_upd_def)
qed

subsection \<open>Renumbering\<close>

definition shift_key :: "int \<Rightarrow> int \<Rightarrow> int \<Rightarrow> int" where
  "shift_key key delta k = (if k \<ge> key then k + delta else k)"

lemma update_fresh: "k \<notin> fst ` set m \<Longrightarrow> AList.update k i m = m @ [(k, i)]"
  by (induction m) auto

lemma fold_update_fresh:
  "distinct (map fst (m @ xs)) \<Longrightarrow> fold (\<lambda>(k, i). AList.update k i) xs m = m @ xs"
proof (induction xs arbitrary: m)
  case (Cons x xs)
  then have "fst x \<notin> fst ` set m" by auto
  then have "AList.update (fst x) (snd x) m = m @ [x]" by (simp add: update_fresh)
  then show ?case using Cons.IH[of "m @ [x]"] Cons.prems by (cases x) simp
qed simp

lemma moved_ids:
  assumes wf: "lru_wf c" and m: "(i, k, v) \<in> set (cachedItems c)"
  shows "i \<in> set (map snd (filter (\<lambda>(k, i). k \<ge> key) (cachedItemsMap c))) \<longleftrightarrow> key \<le> k"
proof
  assume "i \<in> set (map snd (filter (\<lambda>(k, i). k \<ge> key) (cachedItemsMap c)))"
  then obtain k' where k': "(k', i) \<in> set (cachedItemsMap c)" "key \<le> k'" by auto
  then obtain v' where "(i, k', v') \<in> set (cachedItems c)" using imap_set[OF wf] by blast
  with k' m show "key \<le> k" using distinct_items(2)[OF wf] by blast
next
  assume "key \<le> k"
  moreover have "(k, i) \<in> set (cachedItemsMap c)" using m imap_set[OF wf] by blast
  ultimately show "i \<in> set (map snd (filter (\<lambda>(k, i). k \<ge> key) (cachedItemsMap c)))" by force
qed

lemma changeKeys_items:
  assumes "lru_wf c"
  shows "cachedItems (changeKeys key delta c) =
           map (\<lambda>(i, k, v). (i, shift_key key delta k, v)) (cachedItems c)"
proof -
  have "(if i \<in> set (map snd (filter (\<lambda>(k, i). k \<ge> key) (cachedItemsMap c)))
         then (i, k + delta, v) else (i, k, v)) = (i, shift_key key delta k, v)"
    if "(i, k, v) \<in> set (cachedItems c)" for i k v
    using moved_ids[OF assms that, of key] unfolding shift_key_def by presburger
  then show ?thesis unfolding changeKeys_def Let_def
    by (simp del: set_map set_filter) (rule ballI, simp only: split_paired_all prod.case)
qed

lemma map_keys: "lru_wf c \<Longrightarrow> fst ` set (cachedItemsMap c) = set (node_keys c)"
  by (force simp: lru_wf_def node_keys_def image_image split_beta)

lemma filter_keys_perm:
  "distinct (map fst m) \<Longrightarrow> key = (key :: int) \<Longrightarrow>
     distinct (map fst (filter (\<lambda>(k, i). k < key) m @ filter (\<lambda>(k, i). k \<ge> key) m))"
  by (induction m) (auto simp: image_iff)

lemma changeKeys_map:
  assumes wf: "lru_wf c" and inj: "inj_on (shift_key key delta) (set (node_keys c))"
  shows "cachedItemsMap (changeKeys key delta c) =
      map (\<lambda>(k, i). (shift_key key delta k, i))
        (filter (\<lambda>(k, i). k < key) (cachedItemsMap c) @ filter (\<lambda>(k, i). k \<ge> key) (cachedItemsMap c))"
    and "distinct (map fst (cachedItemsMap (changeKeys key delta c)))"
proof -
  let ?moved = "filter (\<lambda>(k, i). k \<ge> key) (cachedItemsMap c)"
  let ?kept = "filter (\<lambda>(k, i). k < key) (cachedItemsMap c)"
  let ?changed = "map (\<lambda>(k, i). (k + delta, i)) ?moved"
  let ?f = "\<lambda>(k, i). (shift_key key delta k, i)"
  have "?kept = map ?f ?kept" and "?changed = map ?f ?moved"
    by (rule map_idI[symmetric], auto simp: shift_key_def)
  then have all: "?kept @ ?changed = map ?f (?kept @ ?moved)" by simp
  have fsts: "map fst (map ?f xs) = map (shift_key key delta) (map fst xs)" for xs :: "(int \<times> nat) list"
    by (induction xs) auto
  have dk: "distinct (map fst (cachedItemsMap c))" using wf unfolding lru_wf_def by blast
  have "set (map fst (?kept @ ?moved)) \<subseteq> set (node_keys c)"
    unfolding map_keys[OF wf, symmetric] by auto
  with inj have "inj_on (shift_key key delta) (set (map fst (?kept @ ?moved)))"
    by (rule inj_on_subset)
  then have "distinct (map (shift_key key delta) (map fst (?kept @ ?moved)))"
    using filter_keys_perm[OF dk refl] by (simp only: distinct_map[of "shift_key key delta"])
  then have d: "distinct (map fst (?kept @ ?changed))" unfolding all fsts .
  have eq: "cachedItemsMap (changeKeys key delta c) = ?kept @ ?changed"
    unfolding changeKeys_def Let_def using fold_update_fresh[OF d] by simp
  show "cachedItemsMap (changeKeys key delta c) = map ?f (?kept @ ?moved)" unfolding eq all ..
  show "distinct (map fst (cachedItemsMap (changeKeys key delta c)))" unfolding eq by (rule d)
qed

lemma changeKeys_wf_sets:
  assumes wf: "lru_wf c" and inj: "inj_on (shift_key key delta) (set (node_keys c))"
  shows "set (cachedItemsMap (changeKeys key delta c)) =
           (\<lambda>(k, i). (shift_key key delta k, i)) ` set (cachedItemsMap c)"
    and "length (cachedItemsMap (changeKeys key delta c)) = length (cachedItemsMap c)"
proof -
  have u: "set (filter (\<lambda>(k, i). k < key) m @ filter (\<lambda>(k, i). k \<ge> key) m) = set m" for m :: "(int \<times> nat) list"
    by auto
  show "set (cachedItemsMap (changeKeys key delta c)) =
           (\<lambda>(k, i). (shift_key key delta k, i)) ` set (cachedItemsMap c)"
    unfolding changeKeys_map(1)[OF assms] set_map u ..
  have "length (filter (\<lambda>(k, i). k < key) m) + length (filter (\<lambda>(k, i). k \<ge> key) m) = length m"
    for m :: "(int \<times> nat) list" by (induction m) auto
  then show "length (cachedItemsMap (changeKeys key delta c)) = length (cachedItemsMap c)"
    unfolding changeKeys_map(1)[OF assms] by simp
qed

lemma changeKeys_frame [simp]:
  "cacheSize (changeKeys key delta c) = cacheSize c" "nextNode (changeKeys key delta c) = nextNode c"
  "deleted (changeKeys key delta c) = deleted c"
  by (simp_all add: changeKeys_def Let_def)

lemma changeKeys_wf:
  assumes wf: "lru_wf c" and inj: "inj_on (shift_key key delta) (set (node_keys c))"
  shows "lru_wf (changeKeys key delta c)"
  unfolding lru_wf_def
proof (intro conjI)
  note eqs = changeKeys_items[OF wf] changeKeys_wf_sets(1)[OF assms] changeKeys_map(2)[OF assms]
  have d: "distinct (map fst (cachedItems c))" "distinct (node_keys c)"
      "\<forall>n \<in> set (cachedItems c). fst n < nextNode c"
      "set (cachedItemsMap c) = (\<lambda>(i, k, v). (k, i)) ` set (cachedItems c)"
    using wf unfolding lru_wf_def by blast+
  show "distinct (map fst (cachedItems (changeKeys key delta c)))"
    using d(1) unfolding eqs(1) by (simp add: comp_def split_beta)
  have "node_keys (changeKeys key delta c) = map (shift_key key delta) (node_keys c)"
    unfolding node_keys_def eqs(1) by auto
  then show "distinct (node_keys (changeKeys key delta c))"
    using d(2) inj by (simp add: distinct_map)
  show "\<forall>n \<in> set (cachedItems (changeKeys key delta c)). fst n < nextNode (changeKeys key delta c)"
    using d(3) unfolding eqs(1) by auto
  show "distinct (map fst (cachedItemsMap (changeKeys key delta c)))" by (rule eqs(3))
  show "set (cachedItemsMap (changeKeys key delta c)) =
      (\<lambda>(i, k, v). (k, i)) ` set (cachedItems (changeKeys key delta c))"
    unfolding eqs(1,2) d(4) by (force simp: image_image)
qed

lemma changeKeys_abs:
  assumes wf: "lru_wf c" and inj: "inj_on (shift_key key delta) (set (node_keys c))"
  shows "lru_abs (changeKeys key delta c) k = Some v \<longleftrightarrow>
      (\<exists>k'. lru_abs c k' = Some v \<and> k = shift_key key delta k')"
  unfolding lru_abs_Some[OF changeKeys_wf[OF assms]] lru_abs_Some[OF wf]
    changeKeys_items[OF wf] by force

lemma shift_up_inj: "inj_on (shift_key key 1) A"
  by (auto simp: inj_on_def shift_key_def)

lemma shift_down_inj: "key \<notin> A \<Longrightarrow> inj_on (shift_key key (-1)) A"
  by (auto simp: inj_on_def shift_key_def split: if_splits) 

lemma node_keys_dom: "lru_wf c \<Longrightarrow> set (node_keys c) = dom (lru_abs c)"
proof (intro set_eqI iffI)
  fix k
  assume wf: "lru_wf c"
  { assume "k \<in> set (node_keys c)"
    then obtain i v where "(i, k, v) \<in> set (cachedItems c)" by (auto simp: node_keys_def)
    then show "k \<in> dom (lru_abs c)" using lru_abs_Some[OF wf] by blast }
  { assume "k \<in> dom (lru_abs c)"
    then obtain i v where "(i, k, v) \<in> set (cachedItems c)" using lru_abs_Some[OF wf] by blast
    then show "k \<in> set (node_keys c)" by (force simp: node_keys_def) }
qed

text \<open>\<open>insert\<close> opens a gap at its key, \<open>remove\<close> closes the one it makes.\<close>

lemma changeKeys_up_abs:
  assumes "lru_wf c"
  shows "lru_abs (changeKeys key 1 c) =
      (\<lambda>k. if k < key then lru_abs c k else if k = key then None else lru_abs c (k - 1))"
proof (rule ext, rule option_eq_by_Some)
  fix k v
  have "(\<exists>k'. lru_abs c k' = Some v \<and> k = shift_key key 1 k') \<longleftrightarrow>
      (if k < key then lru_abs c k else if k = key then None else lru_abs c (k - 1)) = Some v"
    unfolding shift_key_def
    by (auto split: if_splits intro: exI[of _ "k - 1"] exI[of _ k])
  then show "lru_abs (changeKeys key 1 c) k = Some v \<longleftrightarrow>
      (if k < key then lru_abs c k else if k = key then None else lru_abs c (k - 1)) = Some v"
    unfolding changeKeys_abs[OF assms shift_up_inj] .
qed

lemma changeKeys_down_abs:
  assumes "lru_wf c" and "lru_abs c key = None"
  shows "lru_abs (changeKeys key (-1) c) = (\<lambda>k. if k < key then lru_abs c k else lru_abs c (k + 1))"
proof (rule ext, rule option_eq_by_Some)
  fix k v
  have "key \<notin> set (node_keys c)" using assms node_keys_dom by auto
  then have inj: "inj_on (shift_key key (-1)) (set (node_keys c))" by (rule shift_down_inj)
  have "(\<exists>k'. lru_abs c k' = Some v \<and> k = shift_key key (-1) k') \<longleftrightarrow>
      (if k < key then lru_abs c k else lru_abs c (k + 1)) = Some v"
  proof (cases "k < key")
    case True
    have "k' = k" if "lru_abs c k' = Some v" "k = shift_key key (-1) k'" for k'
      using that True assms(2) by (cases "k' = key") (auto simp: shift_key_def split: if_splits)
    moreover have "shift_key key (-1) k = k" using True by (simp add: shift_key_def)
    ultimately show ?thesis using True by metis
  next
    case False
    then show ?thesis by (auto simp: shift_key_def split: if_splits intro: exI[of _ "k + 1"])
  qed
  then show "lru_abs (changeKeys key (-1) c) k = Some v \<longleftrightarrow>
      (if k < key then lru_abs c k else lru_abs c (k + 1)) = Some v"
    unfolding changeKeys_abs[OF assms(1) inj] .
qed

subsection \<open>The operations on the abstract map\<close>

definition push_front :: "int \<Rightarrow> 'v \<Rightarrow> 'v lru \<Rightarrow> 'v lru" where
  "push_front key value c =
    c\<lparr>cachedItems := (nextNode c, key, value) # cachedItems c,
      cachedItemsMap := AList.update key (nextNode c) (cachedItemsMap c),
      nextNode := Suc (nextNode c)\<rparr>"

lemma lru_ensure_push: "lru_ensure hc key value c = cleanCache hc (push_front key value c)"
  by (simp add: lru_ensure_def push_front_def)

lemma fresh_key:
  assumes "lru_wf c" and "lru_abs c key = None"
  shows "key \<notin> set (node_keys c)" and "key \<notin> fst ` set (cachedItemsMap c)"
  using node_keys_dom[OF assms(1)] map_keys[OF assms(1)] assms(2) by auto

lemma push_front_items:
  assumes "lru_wf c" and "lru_abs c key = None"
  shows "cachedItemsMap (push_front key value c) = cachedItemsMap c @ [(key, nextNode c)]"
  using update_fresh[OF fresh_key(2)[OF assms]] by (simp add: push_front_def)

lemma push_front_wf [wf_pres]:
  assumes "lru_wf c" and "lru_abs c key = None"
  shows "lru_wf (push_front key value c)"
  unfolding lru_wf_def push_front_items[OF assms]
proof (intro conjI)
  have wf: "distinct (map fst (cachedItems c))" "distinct (map fst (cachedItemsMap c))"
      "distinct (node_keys c)" "\<forall>n \<in> set (cachedItems c). fst n < nextNode c"
      "set (cachedItemsMap c) = (\<lambda>(i, k, v). (k, i)) ` set (cachedItems c)"
    using assms(1) unfolding lru_wf_def by blast+
  show "distinct (map fst (cachedItems (push_front key value c)))"
    using wf(1,4) by (auto simp: push_front_def)
  show "distinct (node_keys (push_front key value c))"
    using wf(3) fresh_key(1)[OF assms] by (simp add: push_front_def node_keys_def)
  show "\<forall>n \<in> set (cachedItems (push_front key value c)). fst n < nextNode (push_front key value c)"
    using wf(4) by (auto simp: push_front_def less_Suc_eq)
  show "distinct (map fst (cachedItemsMap c @ [(key, nextNode c)]))"
    using wf(2) fresh_key(2)[OF assms] by simp
  show "set (cachedItemsMap c @ [(key, nextNode c)]) =
      (\<lambda>(i, k, v). (k, i)) ` set (cachedItems (push_front key value c))"
    by (simp add: push_front_def wf(5))
qed

lemma push_front_abs: "lru_abs (push_front key value c) = (lru_abs c)(key \<mapsto> value)"
  by (simp add: lru_abs_def push_front_def)

lemma push_front_size:
  "lru_wf c \<Longrightarrow> lru_abs c key = None \<Longrightarrow> lru_size (push_front key value c) = Suc (lru_size c)"
  by (simp add: lru_size_def push_front_items)

lemma push_front_cacheSize [simp]: "cacheSize (push_front key value c) = cacheSize c"
  by (simp add: push_front_def)

text \<open>
  Adding a row whose value has no children to a cache within its bound: there is always a
  candidate to evict, so no undefined behaviour; at most one value goes, the least recently used
  one without children.
\<close>

definition lru_victim :: "('v \<Rightarrow> bool) \<Rightarrow> 'v lru \<Rightarrow> (nat \<times> int \<times> 'v) option" where
  "lru_victim hc c = skip_parents hc (rev (cachedItems c))"

lemma lru_ensure_result:
  assumes "lru_wf c" and "lru_abs c key = None" and "lru_size c \<le> cacheSize c" and "\<not> hc value"
  shows "\<exists>c'. lru_ensure hc key value c = Inr c' \<and> lru_wf c' \<and> lru_size c' \<le> cacheSize c' \<and>
      cacheSize c' = cacheSize c \<and>
      (if lru_size c < cacheSize c
       then lru_abs c' = (lru_abs c)(key \<mapsto> value) \<and> deleted c' = deleted c
       else \<exists>i k v. lru_victim hc (push_front key value c) = Some (i, k, v) \<and>
              lru_abs c' = ((lru_abs c)(key \<mapsto> value))(k := None) \<and> deleted c' = deleted c @ [v])"
proof (cases "lru_size c < cacheSize c")
  case True
  then show ?thesis
    using push_front_size[OF assms(1,2), of "value"] push_front_wf[OF assms(1,2), of "value"]
    by (auto simp: lru_ensure_push cleanCache_result push_front_abs) (simp add: push_front_def)
next
  case False
  let ?c = "push_front key value c"
  have full: "lru_size ?c = Suc (cacheSize c)"
    using False assms(3) push_front_size[OF assms(1,2)] by simp
  have "(nextNode c, key, value) \<in> set (rev (cachedItems ?c))" by (simp add: push_front_def)
  then have "skip_parents hc (rev (cachedItems ?c)) \<noteq> None"
    using assms(4) unfolding skip_parents_None by blast
  then obtain i k v where ikv: "skip_parents hc (rev (cachedItems ?c)) = Some (i, k, v)"
    by (metis not_None_eq prod_cases3)
  then have mem: "(i, k, v) \<in> set (cachedItems ?c)" using skip_parents_mem by fastforce
  let ?c' = "erase_node i k v ?c"
  note wf = push_front_wf[OF assms(1,2), of "value"]
  have size: "lru_size ?c' = cacheSize c" using erase_node_size[OF wf mem] full by simp
  have cs: "cacheSize ?c' = cacheSize c" and del: "deleted ?c' = deleted c @ [v]"
    by (simp_all add: erase_node_def push_front_def)
  have res: "lru_ensure hc key value c = Inr ?c'"
    unfolding lru_ensure_push cleanCache_result by (simp add: full ikv size cs)
  show ?thesis
    using False res erase_node_wf[OF wf mem] erase_node_abs[OF wf mem] size cs del ikv
    by (auto simp: lru_victim_def push_front_abs)
qed

lemma changeKeys_size:
  "lru_wf c \<Longrightarrow> inj_on (shift_key key delta) (set (node_keys c)) \<Longrightarrow>
     lru_size (changeKeys key delta c) = lru_size c"
  unfolding lru_size_def by (rule changeKeys_wf_sets(2))

definition open_gap :: "int \<Rightarrow> (int \<rightharpoonup> 'v) \<Rightarrow> int \<rightharpoonup> 'v" where
  "open_gap key m = (\<lambda>k. if k < key then m k else if k = key then None else m (k - 1))"

definition close_gap :: "int \<Rightarrow> (int \<rightharpoonup> 'v) \<Rightarrow> int \<rightharpoonup> 'v" where
  "close_gap key m = (\<lambda>k. if k < key then m k else m (k + 1))"

lemma lru_insert_result:
  assumes "lru_wf c" and "lru_size c \<le> cacheSize c" and "\<not> hc value"
  shows "\<exists>c'. lru_insert hc key value c = Inr c' \<and> lru_wf c' \<and> lru_size c' \<le> cacheSize c' \<and>
      cacheSize c' = cacheSize c \<and>
      (if lru_size c < cacheSize c
       then lru_abs c' = (open_gap key (lru_abs c))(key \<mapsto> value) \<and> deleted c' = deleted c
       else \<exists>i k v. lru_victim hc (push_front key value (changeKeys key 1 c)) = Some (i, k, v) \<and>
              lru_abs c' = ((open_gap key (lru_abs c))(key \<mapsto> value))(k := None) \<and>
              deleted c' = deleted c @ [v])"
proof -
  let ?c = "changeKeys key 1 c"
  note inj = shift_up_inj[of key "set (node_keys c)"]
  have up: "lru_abs ?c = open_gap key (lru_abs c)"
    unfolding open_gap_def by (rule changeKeys_up_abs[OF assms(1)])
  then have "lru_abs ?c key = None" by (simp add: open_gap_def)
  from lru_ensure_result[OF changeKeys_wf[OF assms(1) inj] this, of hc "value"]
  show ?thesis
    using assms(2,3) changeKeys_size[OF assms(1) inj] unfolding lru_insert_def up changeKeys_frame by simp
qed

lemma lru_find_node:
  assumes "lru_wf c" and "lru_abs c key = Some v"
  obtains i where "(i, key, v) \<in> set (cachedItems c)" "map_of (cachedItemsMap c) key = Some i"
    "node_of c i = Some (i, key, v)"
  using assms lru_abs_Some map_of_imap node_of_wf by metis

lemma lru_absent: "lru_wf c \<Longrightarrow> lru_abs c key = None \<Longrightarrow> map_of (cachedItemsMap c) key = None"
  using map_of_imap[of c key] lru_abs_Some[of c key] by (metis not_None_eq)

lemma lru_remove_result:
  assumes "lru_wf c"
  shows "lru_wf (lru_remove key c)" and "lru_abs (lru_remove key c) = close_gap key (lru_abs c)"
    and "cacheSize (lru_remove key c) = cacheSize c" and "lru_size (lru_remove key c) \<le> lru_size c"
    and "deleted (lru_remove key c) =
          deleted c @ (case lru_abs c key of None \<Rightarrow> [] | Some v \<Rightarrow> [v])"
proof -
  have closes: "lru_wf (changeKeys key (-1) d) \<and> lru_abs (changeKeys key (-1) d) = close_gap key m \<and>
        lru_size (changeKeys key (-1) d) = lru_size d"
    if "lru_wf d" "lru_abs d = m(key := None)" for d :: "'a lru" and m
  proof -
    have none: "lru_abs d key = None" using that(2) by simp
    have inj: "inj_on (shift_key key (-1)) (set (node_keys d))"
      by (rule shift_down_inj, rule fresh_key(1)[OF that(1) none])
    have "(\<lambda>k. if k < key then lru_abs d k else lru_abs d (k + 1)) = close_gap key m"
      unfolding that(2) close_gap_def by auto
    then show ?thesis
      using changeKeys_wf[OF that(1) inj] changeKeys_down_abs[OF that(1) none]
        changeKeys_size[OF that(1) inj] by simp
  qed
  have "lru_wf (lru_remove key c) \<and> lru_abs (lru_remove key c) = close_gap key (lru_abs c) \<and>
      cacheSize (lru_remove key c) = cacheSize c \<and> lru_size (lru_remove key c) \<le> lru_size c \<and>
      deleted (lru_remove key c) = deleted c @ (case lru_abs c key of None \<Rightarrow> [] | Some v \<Rightarrow> [v])"
  proof (cases "lru_abs c key")
    case None
    then have "lru_abs c = (lru_abs c)(key := None)" by auto
    from closes[OF assms this] None show ?thesis
      by (simp add: lru_remove_def lru_absent[OF assms])
  next
    case (Some v)
    with assms obtain i where i: "(i, key, v) \<in> set (cachedItems c)"
        "map_of (cachedItemsMap c) key = Some i" "node_of c i = Some (i, key, v)"
      by (rule lru_find_node)
    have "lru_remove key c = changeKeys key (-1) (erase_node i key v c)"
      by (simp add: lru_remove_def i(2,3))
    moreover have "cacheSize (erase_node i key v c) = cacheSize c"
      and "deleted (erase_node i key v c) = deleted c @ [v]" by (simp_all add: erase_node_def)
    moreover note closes[OF erase_node_wf[OF assms i(1)] erase_node_abs[OF assms i(1)]]
    ultimately show ?thesis using erase_node_size[OF assms i(1)] Some by simp
  qed
  then show "lru_wf (lru_remove key c)" and "lru_abs (lru_remove key c) = close_gap key (lru_abs c)"
    and "cacheSize (lru_remove key c) = cacheSize c" and "lru_size (lru_remove key c) \<le> lru_size c"
    and "deleted (lru_remove key c) =
          deleted c @ (case lru_abs c key of None \<Rightarrow> [] | Some v \<Rightarrow> [v])"
    by simp_all
qed

lemma node_eq:
  assumes "lru_wf c" and "(i, key, v) \<in> set (cachedItems c)" and "n \<in> set (cachedItems c)"
    and "fst n = i \<or> fst (snd n) = key"
  shows "n = (i, key, v)"
proof -
  obtain i' k' v' where n: "n = (i', k', v')" by (cases n)
  have "(i', k', v') \<in> set (cachedItems c)" "i' = i \<or> k' = key" using assms(3,4) n by simp_all
  from distinct_items[OF assms(1) this(1) assms(2) this(2)] show ?thesis unfolding n by simp
qed

lemma move_front_set:
  assumes "lru_wf c" and "(i, key, v) \<in> set (cachedItems c)"
  shows "set ((i, key, v) # filter (\<lambda>n. fst n \<noteq> i) (cachedItems c)) = set (cachedItems c)"
proof (rule set_eqI)
  fix n
  show "n \<in> set ((i, key, v) # filter (\<lambda>n. fst n \<noteq> i) (cachedItems c)) \<longleftrightarrow> n \<in> set (cachedItems c)"
    using node_eq[OF assms, of n] assms(2) by (cases "fst n = i") auto
qed

lemma move_front_wf:
  assumes "lru_wf c" and "(i, key, v) \<in> set (cachedItems c)"
  shows "lru_wf (c\<lparr>cachedItems := (i, key, v) # filter (\<lambda>n. fst n \<noteq> i) (cachedItems c)\<rparr>)"
proof -
  let ?l = "(i, key, v) # filter (\<lambda>n. fst n \<noteq> i) (cachedItems c)"
  have wf: "distinct (map fst (cachedItems c))" "distinct (map fst (cachedItemsMap c))"
      "distinct (map (\<lambda>(i, k, v). k) (cachedItems c))" "\<forall>n \<in> set (cachedItems c). fst n < nextNode c"
      "set (cachedItemsMap c) = (\<lambda>(i, k, v). (k, i)) ` set (cachedItems c)"
    using assms unfolding lru_wf_def node_keys_def by blast+
  have "distinct (map (\<lambda>(i, k, v). k) (filter (\<lambda>n. fst n \<noteq> i) (cachedItems c)))"
    using wf(3) by (rule distinct_map_filter)
  moreover have "key \<notin> (\<lambda>(i, k, v). k) ` set (filter (\<lambda>n. fst n \<noteq> i) (cachedItems c))"
  proof
    assume "key \<in> (\<lambda>(i, k, v). k) ` set (filter (\<lambda>n. fst n \<noteq> i) (cachedItems c))"
    then obtain n where n: "n \<in> set (cachedItems c)" "fst n \<noteq> i" "fst (snd n) = key" by auto
    with node_eq[OF assms n(1)] show False by simp
  qed
  ultimately have d2: "distinct (map (\<lambda>(i, k, v). k) ?l)" by simp
  have d1: "distinct (map fst ?l)" using wf(1) by (auto simp: distinct_map_filter)
  let ?c = "c\<lparr>cachedItems := ?l\<rparr>"
  have sel: "cachedItems ?c = ?l" "cachedItemsMap ?c = cachedItemsMap c" "nextNode ?c = nextNode c"
    by simp_all
  show ?thesis
    unfolding lru_wf_def node_keys_def sel move_front_set[OF assms]
    by (intro conjI d1 d2 wf)
qed

lemma lru_get_result:
  assumes "lru_wf c"
  shows "fst (lru_get key c) = lru_abs c key \<and> lru_wf (snd (lru_get key c)) \<and>
    lru_abs (snd (lru_get key c)) = lru_abs c \<and> cacheSize (snd (lru_get key c)) = cacheSize c \<and>
    deleted (snd (lru_get key c)) = deleted c \<and>
    (\<forall>v. lru_abs c key = Some v \<longrightarrow> (\<exists>i. hd (cachedItems (snd (lru_get key c))) = (i, key, v)))"
proof (cases "lru_abs c key")
  case None
  then show ?thesis using assms by (simp add: lru_get_def lru_absent[OF assms])
next
  case (Some v)
  with assms obtain i where i: "(i, key, v) \<in> set (cachedItems c)"
      "map_of (cachedItemsMap c) key = Some i" "node_of c i = Some (i, key, v)"
    by (rule lru_find_node)
  let ?c = "c\<lparr>cachedItems := (i, key, v) # filter (\<lambda>n. fst n \<noteq> i) (cachedItems c)\<rparr>"
  have "lru_get key c = (Some v, ?c)" by (simp add: lru_get_def i)
  moreover have "set (cachedItems ?c) = set (cachedItems c)"
    using move_front_set[OF assms i(1)] by simp
  then have "lru_abs ?c = lru_abs c"
    using lru_abs_Some[OF assms] by (intro lru_abs_of_set[OF assms move_front_wf[OF assms i(1)]]) simp
  ultimately show ?thesis using move_front_wf[OF assms i(1)] Some by simp
qed

lemma lru_clear_result:
  "lru_wf (lru_clear c)" "lru_abs (lru_clear c) = Map.empty"
  "length (deleted (lru_clear c)) = length (deleted c) + length (cachedItems c)"
  by (simp_all add: lru_clear_def lru_wf_def lru_abs_def node_keys_def)

lemma lru_new_size: "cacheSize (lru_new n) = n"
  by (simp add: lru_new_def)

lemma lru_new_ok: "lru_wf (lru_new n)" "lru_size (lru_new n) \<le> cacheSize (lru_new n)"
  by (simp_all add: lru_new_def lru_wf_def node_keys_def lru_size_def)

end
