(* ===== verification/CacheProps.thy ===== *)
theory CacheProps
  imports LRUCache
begin

text \<open>
  The properties of the row cache as its clients see it: a sequence of operations on an empty
  cache, and the calls that are undefined behaviour.
\<close>

datatype 'v lru_op = OpInsert int 'v | OpEnsure int 'v | OpRemove int | OpGet int | OpClear

definition run_op :: "('v \<Rightarrow> bool) \<Rightarrow> 'v lru_op \<Rightarrow> 'v lru \<Rightarrow> lru_ub + 'v lru" where
  "run_op hc op c =
    (case op of
       OpInsert k v \<Rightarrow> lru_insert hc k v c
     | OpEnsure k v \<Rightarrow> if lru_exists k c then Inr c else lru_ensure hc k v c
     | OpRemove k \<Rightarrow> Inr (lru_remove k c)
     | OpGet k \<Rightarrow> Inr (snd (lru_get k c))
     | OpClear \<Rightarrow> Inr (lru_clear c))"

fun run_ops :: "('v \<Rightarrow> bool) \<Rightarrow> 'v lru_op list \<Rightarrow> 'v lru \<Rightarrow> lru_ub + 'v lru" where
  "run_ops hc [] c = Inr c"
| "run_ops hc (op # ops) c = (case run_op hc op c of Inl e \<Rightarrow> Inl e | Inr c' \<Rightarrow> run_ops hc ops c')"

fun op_value :: "'v lru_op \<Rightarrow> 'v option" where
  "op_value (OpInsert k v) = Some v"
| "op_value (OpEnsure k v) = Some v"
| "op_value _ = None"

lemma run_op_ok:
  assumes "lru_wf c" and "lru_size c \<le> cacheSize c" and "\<forall>v. op_value op = Some v \<longrightarrow> \<not> hc v"
  shows "\<exists>c'. run_op hc op c = Inr c' \<and> lru_wf c' \<and> lru_size c' \<le> cacheSize c' \<and> cacheSize c' = cacheSize c"
proof (cases op)
  case (OpInsert k v)
  then show ?thesis using lru_insert_result[OF assms(1,2), of hc v k] assms(3)
    by (auto simp: run_op_def)
next
  case (OpEnsure k v)
  then show ?thesis
    using lru_ensure_result[OF assms(1) _ assms(2), of k hc v] assms lru_exists_abs[OF assms(1), of k]
    by (auto simp: run_op_def)
next
  case (OpRemove k)
  then show ?thesis using lru_remove_result[OF assms(1), of k] assms(2) by (simp add: run_op_def)
next
  case (OpGet k)
  then show ?thesis
    using lru_get_result[OF assms(1), of k] assms(2) lru_wf_length[of c]
    by (auto simp: run_op_def lru_size_def lru_get_def split: option.split)
next
  case OpClear
  then show ?thesis
    using lru_clear_result(1)[of c] by (auto simp: run_op_def lru_size_def lru_clear_def)
qed

lemma run_ops_ok:
  assumes "lru_wf c" and "lru_size c \<le> cacheSize c"
    and "\<forall>op \<in> set ops. \<forall>v. op_value op = Some v \<longrightarrow> \<not> hc v"
  shows "\<exists>c'. run_ops hc ops c = Inr c' \<and> lru_wf c' \<and> lru_size c' \<le> cacheSize c' \<and> cacheSize c' = cacheSize c"
  using assms
proof (induction ops arbitrary: c)
  case (Cons op ops)
  then obtain c1 where "run_op hc op c = Inr c1" "lru_wf c1" "lru_size c1 \<le> cacheSize c1"
    "cacheSize c1 = cacheSize c" using run_op_ok[of c op hc] by auto
  then show ?case using Cons.IH[of c1] Cons.prems(3) by auto
qed simp



text \<open>
  Inserting a row below the bound moves every row from its key on one up and adds the new one;
  on a full cache it also drops, and deletes, exactly the least recently used entry without
  children.
\<close>

theorem cache_insert_refines:
  assumes "lru_wf c" and "lru_size c \<le> cacheSize c" and "\<not> hc v"
  shows "\<exists>c'. lru_insert hc key v c = Inr c' \<and>
    (if lru_size c < cacheSize c
     then lru_abs c' = (open_gap key (lru_abs c))(key \<mapsto> v) \<and> deleted c' = deleted c
     else \<exists>i k x. lru_victim hc (push_front key v (changeKeys key 1 c)) = Some (i, k, x) \<and>
            lru_abs c' = ((open_gap key (lru_abs c))(key \<mapsto> v))(k := None) \<and> deleted c' = deleted c @ [x])"
  using lru_insert_result[of c hc v key] assms by blast

theorem cache_insert_refines_witness:
  "\<exists>c'. lru_insert (\<lambda>v. False) 3 ''a'' (lru_new 4) = Inr c' \<and> lru_abs c' = [3 \<mapsto> ''a'']"
proof -
  have "\<exists>c'. lru_insert (\<lambda>v. False) 3 ''a'' (lru_new 4) = Inr c' \<and>
      lru_abs c' = (open_gap 3 (lru_abs (lru_new 4)))(3 \<mapsto> ''a'')"
    using cache_insert_refines[OF lru_new_ok(1)[of 4] lru_new_ok(2), where key = 3 and v = "''a''" and hc = "\<lambda>v. False"]
    by (auto simp: lru_new_def lru_size_def)
  moreover have "open_gap 3 (lru_abs (lru_new 4 :: string lru)) = Map.empty"
    by (auto simp: open_gap_def lru_abs_def lru_new_def)
  ultimately show ?thesis by simp
qed

text \<open>
  Removing a row closes the gap (every row above moves one down) and deletes its entry if it was
  cached; reading one returns exactly what is cached under its key, changes no entry and makes it
  the most recently used.
\<close>

theorem cache_remove_get:
  assumes "lru_wf c"
  shows "lru_abs (lru_remove key c) = close_gap key (lru_abs c) \<and>
    deleted (lru_remove key c) = deleted c @ (case lru_abs c key of None \<Rightarrow> [] | Some v \<Rightarrow> [v]) \<and>
    fst (lru_get key c) = lru_abs c key \<and> lru_abs (snd (lru_get key c)) = lru_abs c \<and>
    (\<forall>v. lru_abs c key = Some v \<longrightarrow> (\<exists>i. hd (cachedItems (snd (lru_get key c))) = (i, key, v)))"
  using lru_remove_result[OF assms, of key] lru_get_result[OF assms, of key] by blast

theorem cache_remove_get_witness:
  "fst (lru_get 1 \<lparr>cachedItems = [(0, 1, ''a'')], cachedItemsMap = [(1, 0)], cacheSize = 2, nextNode = 1,
     deleted = []\<rparr>) = Some ''a''"
  by (subst cache_remove_get[THEN conjunct2, THEN conjunct2, THEN conjunct1])
     (simp_all add: lru_wf_def node_keys_def lru_abs_def)

lemma find_in: "find P xs = Some x \<Longrightarrow> x \<in> set xs \<and> P x"
  by (induction xs) (auto split: if_splits)

text \<open>
  Shrinking the cache is undefined behaviour as soon as two entries have to go: \<open>cleanCache\<close>
  erases the node its iterator is based on and then uses the iterator again. And when every cached
  row has children, it looks at the entry behind the end of the list.
\<close>

theorem cache_shrink_undefined:
  assumes "lru_wf c" and "n < lru_size c"
  shows "setCacheSize hc n c =
    (if \<forall>(i, k, v) \<in> set (cachedItems c). hc v then Inl DerefEnd
     else if Suc n < lru_size c then Inl DanglingIterator
     else case lru_victim hc c of Some (i, k, v) \<Rightarrow> Inr (erase_node i k v (c\<lparr>cacheSize := n\<rparr>)) | None \<Rightarrow> Inl DerefEnd)"
proof -
  let ?c = "c\<lparr>cacheSize := n\<rparr>"
  have wf: "lru_wf ?c" using assms(1) by (simp add: lru_wf_def node_keys_def)
  have sz: "lru_size ?c = lru_size c" by (simp add: lru_size_def)
  show ?thesis
  proof (cases "skip_parents hc (rev (cachedItems c))")
    case None
    then have "\<forall>(i, k, v) \<in> set (cachedItems c). hc v" using skip_parents_None[of hc "rev (cachedItems c)"] by simp
    then show ?thesis using assms(2) None by (simp add: setCacheSize_def cleanCache_result sz)
  next
    case (Some x)
    obtain i k v where x: "x = (i, k, v)" by (cases x)
    then have m: "(i, k, v) \<in> set (cachedItems c)" "\<not> hc v"
      using Some find_in[of _ "rev (cachedItems c)" x] by (auto simp: skip_parents_find)
    have "Suc (lru_size (erase_node i k v ?c)) = lru_size c"
      using erase_node_size[OF wf, of i k v] m(1) sz by simp
    moreover have "cacheSize (erase_node i k v ?c) = n" by (simp add: erase_node_def)
    ultimately show ?thesis
      using assms(2) Some m x bexI[OF _ m(1), of "\<lambda>y. \<not> (case y of (i, k, v) \<Rightarrow> hc v)"]
      by (auto simp: setCacheSize_def cleanCache_result sz lru_victim_def Let_def)
  qed
qed

theorem cache_shrink_undefined_witness:
  "setCacheSize (\<lambda>v. False) 0 \<lparr>cachedItems = [(1, 1, ''b''), (0, 0, ''a'')], cachedItemsMap = [(0, 0), (1, 1)],
     cacheSize = 2, nextNode = 2, deleted = []\<rparr> = Inl DanglingIterator"
  by (subst cache_shrink_undefined) (auto simp: lru_wf_def node_keys_def lru_size_def)

end
