(* ===== verification/Replica.thy ===== *)
theory Replica
  imports Receive ApiMap "HOL-Library.AList"
begin

text \<open>
  The implementation behind a replica (\<open>qremoteobjectreplica.cpp\<close>): the state of
  \<open>QConnectedReplicaImplementation\<close>, its life cycle (\<open>QRemoteObjectReplica::State\<close>), the
  property values it holds, the calls it is waiting for (\<open>qremoteobjectpendingcall.cpp\<close>) and the
  heartbeat. Signals that reach the user's code are events in a log, in the order they are emitted;
  user code that runs inside them is not modelled. \<open>clientio\<close> is the client's side of a connection,
  with the codec that a handshake creates.
\<close>

type_synonym conn = nat
type_synonym repid = nat

subsection \<open>The state of a replica\<close>

datatype rstate = Uninitialized | Default | Valid | Suspect | SignatureMismatch

text \<open>The enumeration is compared as a number.\<close>

fun rank :: "rstate \<Rightarrow> nat" where
  "rank Uninitialized = 0"
| "rank Default = 1"
| "rank Valid = 2"
| "rank Suspect = 3"
| "rank SignatureMismatch = 4"

instantiation rstate :: linorder
begin

definition less_eq_rstate :: "rstate \<Rightarrow> rstate \<Rightarrow> bool" where
  "less_eq_rstate a b \<longleftrightarrow> rank a \<le> rank b"

definition less_rstate :: "rstate \<Rightarrow> rstate \<Rightarrow> bool" where
  "less_rstate a b \<longleftrightarrow> rank a < rank b"

instance
proof
  fix x y :: rstate
  show "x \<le> y \<Longrightarrow> y \<le> x \<Longrightarrow> x = y"
    by (cases x; cases y) (simp_all add: less_eq_rstate_def)
qed (auto simp: less_eq_rstate_def less_rstate_def)

end

lemmas rstate_order = less_eq_rstate_def less_rstate_def

datatype call_error = NoError | InvalidMessage

text \<open>
  \<open>QRemoteObjectPendingCallData\<close>: \<open>cd_watchers\<close> are the watchers connected to the helper,
  \<open>cd_queued\<close> says that a call of the helper's \<open>finished\<close> is waiting in the event loop, and
  \<open>cd_notified\<close> collects the watchers whose own \<open>finished\<close> is on its way.
\<close>

record 'v call_data =
  cd_serialId :: int32
  cd_error :: call_error
  cd_returnValue :: "'v option"
  cd_hasHelper :: bool
  cd_watchers :: "nat list"
  cd_queued :: bool
  cd_notified :: "nat list"

datatype 'v rep_event =
    EvInitialized
  | EvStateChanged rstate rstate
  | EvNotified
  | EvActivate int "'v list"
  | EvInstInitialized nat
  | EvInstStateChanged nat rstate rstate
  | EvInstActivate nat int 'v

text \<open>
  A \<open>QMetaObject\<close> pointer is the list of the class and its bases, the class first; the null pointer
  is the empty list.
\<close>

text \<open>Undefined behaviour: a property out of range, or a null pointer.\<close>

datatype rep_fault = NoSuchProperty int | NoMetaObject | NoConnection | NoCodec

record 'v replica =
  m_objectName :: string
  m_metaObject :: "metaobject list"
  m_numSignals :: int
  m_methodOffset :: int
  m_signalOffset :: int
  m_propertyOffset :: int
  m_objectSignature :: bytes
  m_state :: rstate
  m_parentsNeedingConnect :: "nat list"
  m_propertyStorage :: "'v list"
  m_childIndices :: "int list"
  connectionToSource :: "conn option"
  m_curSerialId :: int32
  m_pendingCalls :: "(int32 \<times> nat) list"
  hb_interval :: nat
  hb_active :: bool
  calls :: "'v call_data list"
  instances :: "nat list"
  events :: "'v rep_event list"
  rfault :: "rep_fault option"

text \<open>
  The client's end of a connection: the device, its codec (null before the handshake) and the
  names of the sources behind it.
\<close>

record clientio =
  io_dev :: iodevice
  io_codec :: "dspacket option"
  m_remoteObjects :: "string list"
  io_isClient :: bool
  io_url :: string

type_synonym links = "conn \<Rightarrow> clientio"

text \<open>
  \<open>isOpen\<close> of a client device: not closing, and its socket connected or connecting (\<open>devOpen\<close>).
\<close>

definition io_isOpen :: "clientio \<Rightarrow> bool" where
  "io_isOpen io \<longleftrightarrow> \<not> isClosing (io_dev io) \<and> devOpen (io_dev io)"

text \<open>What the code asks of Qt's values: \<open>encodeVariant\<close>, \<open>decodeVariant\<close>, and the replica in a value.\<close>

record 'v client_env =
  cenc :: "'v \<Rightarrow> 'v"
  cdec :: "'v \<Rightarrow> metatype option \<Rightarrow> 'v"
  child_of :: "'v \<Rightarrow> repid option"

subsection \<open>Metaobject queries\<close>

definition prop_of :: "metaobject \<Rightarrow> int \<Rightarrow> metaprop option" where
  "prop_of mo i = (if 0 \<le> i \<and> nat i < length (mo_props mo) then Some (mo_props mo ! nat i) else None)"

definition notify_of :: "metaobject \<Rightarrow> int \<Rightarrow> int" where
  "notify_of mo i = (case prop_of mo i of
     Some p \<Rightarrow> (case mp_notify p of Some n \<Rightarrow> int n | None \<Rightarrow> -1) | None \<Rightarrow> -1)"

definition child_indices :: "metaobject \<Rightarrow> int list" where
  "child_indices mo =
    map (\<lambda>i. int i - int (mo_propOffset mo))
      (filter (\<lambda>i. mt_toQObject (mp_type (mo_props mo ! i))) [mo_propOffset mo ..< length (mo_props mo)])"

text \<open>
  \<open>getTypeNameAndMetaobjectFromClassInfo\<close>: the \<open>RemoteObject Type\<close> class info, and the class that
  declares it, which is found by walking up while the base has the same info.
\<close>

fun declaring_class :: "string \<Rightarrow> metaobject list \<Rightarrow> metaobject list" where
  "declaring_class key [] = []"
| "declaring_class key (mo # bases) =
     (if map_of (mo_ownClassInfo mo) key \<noteq> None then mo # bases else declaring_class key bases)"

definition getTypeNameAndMetaobjectFromClassInfo ::
    "metaobject list \<Rightarrow> string option \<times> metaobject list" where
  "getTypeNameAndMetaobjectFromClassInfo meta =
    (case meta of
       [] \<Rightarrow> (None, [])
     | mo # bases \<Rightarrow>
        (case map_of (mo_classInfo mo) ''RemoteObject Type'' of
           None \<Rightarrow> (None, meta)
         | Some t \<Rightarrow> (Some t, declaring_class ''RemoteObject Type'' meta)))"

subsection \<open>Construction\<close>

definition new_connected_replica ::
    "string \<Rightarrow> metaobject list \<Rightarrow> int \<Rightarrow> int \<Rightarrow> nat \<Rightarrow> 'v replica" where
  "new_connected_replica name meta signalOffset propertyOffset interval =
    \<lparr>m_objectName = name, m_metaObject = meta, m_numSignals = 0, m_methodOffset = 0,
     m_signalOffset = signalOffset, m_propertyOffset = propertyOffset,
     m_objectSignature = (case meta of
        [] \<Rightarrow> [] | mo # _ \<Rightarrow> latin1 (class_info_value (mo_ownClassInfo mo) ''RemoteObject Signature'')),
     m_state = (if meta = [] then Uninitialized else Default),
     m_parentsNeedingConnect = [], m_propertyStorage = [],
     m_childIndices = (case snd (getTypeNameAndMetaobjectFromClassInfo meta) of
        [] \<Rightarrow> [] | mo # _ \<Rightarrow> child_indices mo),
     connectionToSource = None, m_curSerialId = 1, m_pendingCalls = [],
     hb_interval = interval, hb_active = False, calls = [], instances = [], events = [], rfault = None\<rparr>"

definition needsDynamicInitialization :: "'v replica \<Rightarrow> bool" where
  "needsDynamicInitialization r \<longleftrightarrow> m_metaObject r = []"

definition isInitialized :: "'v replica \<Rightarrow> bool" where
  "isInitialized r \<longleftrightarrow> m_state r > Default \<and> m_state r \<noteq> SignatureMismatch"

definition emit_event :: "'v rep_event \<Rightarrow> 'v replica \<Rightarrow> 'v replica" where
  "emit_event e r = r\<lparr>events := events r @ [e]\<rparr>"

definition raise_fault :: "rep_fault \<Rightarrow> 'v replica \<Rightarrow> 'v replica" where
  "raise_fault f r = (if rfault r = None then r\<lparr>rfault := Some f\<rparr> else r)"

definition setState :: "rstate \<Rightarrow> 'v replica \<Rightarrow> 'v replica" where
  "setState s r =
    (if m_state r \<noteq> Suspect \<and> m_state r \<ge> s then r
     else
       let oldState = m_state r;
           r1 = r\<lparr>m_state := s\<rparr>;
           r2 = (if m_state r1 = Valid then emit_event EvInitialized r1 else r1)
       in emit_event (EvStateChanged s oldState) r2)"

subsection \<open>Sending\<close>

text \<open>
  Writing a packet into the codec of the connection, and \<open>sendCommand\<close>, which sends what the codec
  holds and restarts the heartbeat's timer. On a closing connection nothing is sent, and what was
  written stays in the codec.
\<close>

definition codec_write :: "(dspacket \<Rightarrow> dspacket) \<Rightarrow> conn \<Rightarrow> 'v replica \<times> links \<Rightarrow> 'v replica \<times> links" where
  "codec_write f c x =
    (let (r, l) = x
     in case io_codec (l c) of
          None \<Rightarrow> (raise_fault NoCodec r, l)
        | Some d \<Rightarrow> (r, l(c := (l c)\<lparr>io_codec := Some (f d)\<rparr>)))"

definition sendCommand :: "'v replica \<times> links \<Rightarrow> bool \<times> 'v replica \<times> links" where
  "sendCommand x =
    (let (r, l) = x
     in case connectionToSource r of
          None \<Rightarrow> (False, raise_fault NoConnection r, l)
        | Some c \<Rightarrow>
           if \<not> io_isOpen (l c) then (False, r, l)
           else
             (case io_codec (l c) of
                None \<Rightarrow> (False, raise_fault NoCodec r, l)
              | Some d \<Rightarrow>
                  (let (dev, d') = send_one d (io_dev (l c))
                   in (True, r\<lparr>hb_active := hb_active r \<or> hb_interval r \<noteq> 0\<rparr>,
                       l(c := (l c)\<lparr>io_dev := dev, io_codec := Some d'\<rparr>)))))"

definition sendCommandWithReply ::
    "int32 \<Rightarrow> 'v replica \<times> links \<Rightarrow> nat option \<times> 'v replica \<times> links" where
  "sendCommandWithReply serialId x =
    (let (success, r, l) = sendCommand x
     in if \<not> success then (None, r, l)
        else
          let k = length (calls r);
              call = \<lparr>cd_serialId = serialId, cd_error = InvalidMessage, cd_returnValue = None,
                      cd_hasHelper = False, cd_watchers = [], cd_queued = False, cd_notified = []\<rparr>
          in (Some k, r\<lparr>calls := calls r @ [call],
                        m_pendingCalls := AList.update serialId k (m_pendingCalls r)\<rparr>, l))"

text \<open>
  A property write or method call that wants no reply, and one that does. \<open>None\<close> is the invalid
  pending call.
\<close>

definition q_send ::
    "'v qstream \<Rightarrow> 'v client_env \<Rightarrow> int32 \<Rightarrow> int \<Rightarrow> 'v list \<Rightarrow> 'v replica \<times> links \<Rightarrow> 'v replica \<times> links" where
  "q_send S E call index args x =
    (let (r, l) = x
     in case connectionToSource r of
          None \<Rightarrow> x
        | Some c \<Rightarrow>
           let offset = (if call = 0 then m_methodOffset r else m_propertyOffset r)
           in if index < offset then x
              else snd (sendCommand (codec_write
                     (serializeInvokePacket S (cenc E) (m_objectName r) call
                        (word_of_int (index - offset)) args (-1) (-1)) c x)))"

definition max_int32 :: int32 where
  "max_int32 = 2147483647"

definition next_serial :: "'v replica \<Rightarrow> int32 \<times> 'v replica" where
  "next_serial r =
    (if m_curSerialId r = max_int32 then (1, r)
     else (m_curSerialId r, r\<lparr>m_curSerialId := m_curSerialId r + 1\<rparr>))"

definition q_sendWithReply ::
    "'v qstream \<Rightarrow> 'v client_env \<Rightarrow> int32 \<Rightarrow> int \<Rightarrow> 'v list \<Rightarrow> 'v replica \<times> links \<Rightarrow>
     nat option \<times> 'v replica \<times> links" where
  "q_sendWithReply S E call index args x =
    (let (r, l) = x
     in case connectionToSource r of
          None \<Rightarrow> (None, x)
        | Some c \<Rightarrow>
           let (serialId, r1) = next_serial r
           in sendCommandWithReply serialId (codec_write
                (serializeInvokePacket S (cenc E) (m_objectName r) call
                   (word_of_int (index - m_methodOffset r)) args serialId (-1)) c (r1, l)))"

subsection \<open>Pending calls\<close>

definition update_call :: "nat \<Rightarrow> ('v call_data \<Rightarrow> 'v call_data) \<Rightarrow> 'v replica \<Rightarrow> 'v replica" where
  "update_call k f r = r\<lparr>calls := (if k < length (calls r) then (calls r)[k := f (calls r ! k)] else calls r)\<rparr>"

definition emit_finished :: "'v call_data \<Rightarrow> 'v call_data" where
  "emit_finished cd = cd\<lparr>cd_notified := cd_notified cd @ cd_watchers cd\<rparr>"

definition complete :: "'v \<Rightarrow> 'v call_data \<Rightarrow> 'v call_data" where
  "complete v cd =
    (let cd1 = cd\<lparr>cd_error := NoError, cd_returnValue := Some v\<rparr>
     in if cd_hasHelper cd1 then emit_finished cd1 else cd1)"

text \<open>
  Serial id 0 is the heartbeat's. \<open>take\<close> on an id that is not waited for gives a fresh call that
  nobody holds.
\<close>

definition notifyAboutReply :: "int32 \<Rightarrow> 'v \<Rightarrow> 'v replica \<Rightarrow> 'v replica" where
  "notifyAboutReply ackedSerialId v r =
    (let call = map_of (m_pendingCalls r) ackedSerialId;
         r1 = r\<lparr>m_pendingCalls := AList.delete ackedSerialId (m_pendingCalls r)\<rparr>
     in if ackedSerialId = 0 then r1\<lparr>hb_active := (hb_interval r1 \<noteq> 0)\<rparr>
        else case call of None \<Rightarrow> r1 | Some k \<Rightarrow> update_call k (complete v) r1)"

definition call_isFinished :: "'v call_data \<Rightarrow> bool" where
  "call_isFinished cd \<longleftrightarrow> cd_error cd \<noteq> InvalidMessage"

text \<open>\<open>QRemoteObjectPendingCall::fromCompletedCall\<close>, for the replica of a local source.\<close>

definition fromCompletedCall :: "'v \<Rightarrow> 'v call_data" where
  "fromCompletedCall v = \<lparr>cd_serialId = -1, cd_error = NoError, cd_returnValue = Some v,
     cd_hasHelper = False, cd_watchers = [], cd_queued = False, cd_notified = []\<rparr>"

text \<open>
  A new watcher. Only a watcher that makes the helper of a finished call queues a \<open>finished\<close>.
  \<open>run_queued\<close> is the event loop delivering it.
\<close>

definition add_watcher :: "nat \<Rightarrow> 'v call_data \<Rightarrow> 'v call_data" where
  "add_watcher w cd =
    (let cd1 = (if cd_hasHelper cd then cd
                else cd\<lparr>cd_hasHelper := True, cd_queued := (cd_error cd \<noteq> InvalidMessage)\<rparr>)
     in cd1\<lparr>cd_watchers := cd_watchers cd1 @ [w]\<rparr>)"

definition run_queued :: "'v call_data \<Rightarrow> 'v call_data" where
  "run_queued cd = (if cd_queued cd then (emit_finished cd)\<lparr>cd_queued := False\<rparr> else cd)"

text \<open>
  \<open>QRemoteObjectPendingCall::waitForFinished\<close>: at once if the call is finished or has no replica to
  wait for; otherwise the replica makes the helper and runs an event loop, \<open>during\<close>, until the
  helper emits or the time is up.
\<close>

definition waitForFinished :: "bool \<Rightarrow> ('v call_data \<Rightarrow> 'v call_data) \<Rightarrow> 'v call_data \<Rightarrow> bool \<times> 'v call_data" where
  "waitForFinished hasReplica during cd =
    (if cd_error cd \<noteq> InvalidMessage then (True, cd)
     else if \<not> hasReplica then (False, cd)
     else let cd' = during (cd\<lparr>cd_hasHelper := True\<rparr>) in (cd_error cd' \<noteq> InvalidMessage, cd'))"

subsection \<open>Property values\<close>

definition getProperty :: "int \<Rightarrow> 'v replica \<Rightarrow> 'v option" where
  "getProperty i r =
    (if 0 \<le> i \<and> nat i < length (m_propertyStorage r) then Some (m_propertyStorage r ! nat i) else None)"

definition setProperty :: "int \<Rightarrow> 'v \<Rightarrow> 'v replica \<Rightarrow> 'v replica" where
  "setProperty i v r =
    (if 0 \<le> i \<and> nat i < length (m_propertyStorage r)
     then r\<lparr>m_propertyStorage := (m_propertyStorage r)[nat i := v]\<rparr>
     else raise_fault (NoSuchProperty i) r)"

definition setProperties :: "'v list \<Rightarrow> 'v replica \<Rightarrow> 'v replica" where
  "setProperties vs r = r\<lparr>m_propertyStorage := vs\<rparr>"

text \<open>The metaobject of a replica that has one.\<close>

definition meta_of :: "'v replica \<Rightarrow> metaobject" where
  "meta_of r = hd (m_metaObject r)"

text \<open>
  \<open>initialize\<close>: the values of an init packet. Values equal to the stored ones are left alone; the
  others are decoded and stored, and their change signals go out after the state change, in
  order. The first loop collects the changed indices.
\<close>

fun init_values ::
    "'v client_env \<Rightarrow> int \<Rightarrow> 'v list \<Rightarrow> 'v replica \<Rightarrow> int list \<times> 'v replica" where
  "init_values E i [] r = ([], r)"
| "init_values E i (v # vs) r =
     (case getProperty i r of
        None \<Rightarrow> ([], raise_fault (NoSuchProperty i) r)
      | Some old \<Rightarrow>
          if old = v then init_values E (i + 1) vs r
          else if m_metaObject r = [] then ([], raise_fault NoMetaObject r)
          else
            let v' = cdec E v (map_option mp_type (prop_of (meta_of r) (i + m_propertyOffset r)));
                (changed, r') = init_values E (i + 1) vs (setProperty i v' r)
            in (i # changed, r'))"

definition notify_changed :: "'v replica \<Rightarrow> int \<Rightarrow> 'v replica" where
  "notify_changed r i =
    (let n = notify_of (meta_of r) (i + m_propertyOffset r)
     in if n < 0 then r
        else case getProperty i r of
               None \<Rightarrow> raise_fault (NoSuchProperty i) r
             | Some v \<Rightarrow> emit_event (EvActivate n [v]) r)"

definition initialize :: "'v client_env \<Rightarrow> nat \<Rightarrow> 'v list \<Rightarrow> 'v replica \<Rightarrow> 'v replica" where
  "initialize E heartbeatInterval values r =
    (let (changed, r1) = init_values E 0 values r
     in if rfault r1 \<noteq> None then r1
        else
          let r2 = setState Valid r1;
              r3 = foldl notify_changed r2 changed;
              r4 = emit_event EvNotified r3
          in r4\<lparr>hb_active := hb_active r4 \<or> heartbeatInterval \<noteq> 0\<rparr>)"

text \<open>
  The same for a dynamic replica: the class arrives first, then all values are decoded and stored,
  the replicas that were waiting for the class are connected, and every property with a change
  signal emits it.
\<close>

definition setDynamicMetaObject :: "metaobject list \<Rightarrow> 'v replica \<Rightarrow> 'v replica" where
  "setDynamicMetaObject meta r =
    r\<lparr>m_metaObject := meta,
      m_childIndices := m_childIndices r @ (case meta of [] \<Rightarrow> [] | mo # _ \<Rightarrow> child_indices mo)\<rparr>"

definition dynamic_values :: "'v client_env \<Rightarrow> 'v list \<Rightarrow> 'v replica \<Rightarrow> 'v list" where
  "dynamic_values E vs r =
    map (\<lambda>i. cdec E (vs ! i) (map_option mp_type (prop_of (meta_of r) (int i + m_propertyOffset r))))
      [0 ..< length vs]"

text \<open>
  \<open>configurePrivate\<close> connects a replica instance to its implementation. The first one fixes the
  offset of the methods: they come behind the signals of the class that declares the type. A later
  one is told what it missed: that the implementation is initialized, a state that is not
  \<open>Valid\<close>, and the value of every property that has a change signal.
\<close>

definition first_configure :: "nat \<Rightarrow> 'v replica \<Rightarrow> 'v replica" where
  "first_configure inst r =
    (let mos = snd (getTypeNameAndMetaobjectFromClassInfo (m_metaObject r));
         signals = filter (\<lambda>i. mm_kind (mo_methods (hd mos) ! i) = Signal)
                     [nat (m_signalOffset r) ..< length (mo_methods (hd mos))];
         n = m_numSignals r + int (length signals)
     in r\<lparr>m_numSignals := n, m_methodOffset := m_signalOffset r + n, instances := instances r @ [inst]\<rparr>)"

definition later_configure :: "nat \<Rightarrow> 'v replica \<Rightarrow> 'v replica" where
  "later_configure inst r =
    (let r1 = r\<lparr>instances := instances r @ [inst]\<rparr>;
         r2 = (if isInitialized r1 then emit_event (EvInstInitialized inst) r1 else r1)
     in if m_state r2 \<noteq> Valid
        then emit_event (EvInstStateChanged inst (m_state r2)
               (if m_metaObject r2 \<noteq> [] then Default else Uninitialized)) r2
        else r2)"

definition inst_notify :: "nat \<Rightarrow> 'v replica \<Rightarrow> int \<Rightarrow> 'v replica" where
  "inst_notify inst r i =
    (let n = notify_of (meta_of r) (i + m_propertyOffset r)
     in if n < 0 then r
        else case getProperty i r of
               None \<Rightarrow> r
             | Some v \<Rightarrow> emit_event (EvInstActivate inst (n - m_signalOffset r) v) r)"

definition configurePrivate :: "nat \<Rightarrow> 'v replica \<Rightarrow> 'v replica" where
  "configurePrivate inst r =
    (if m_metaObject r = [] then r\<lparr>m_parentsNeedingConnect := m_parentsNeedingConnect r @ [inst]\<rparr>
     else if m_methodOffset r = 0 then first_configure inst r
     else
       let r1 = later_configure inst r
       in foldl (inst_notify inst) r1 (map int [0 ..< length (m_propertyStorage r1)]))"

definition setDynamicProperties :: "'v client_env \<Rightarrow> 'v list \<Rightarrow> 'v replica \<Rightarrow> 'v replica" where
  "setDynamicProperties E values r =
    (if m_metaObject r = [] then raise_fault NoMetaObject r
     else
       let r1 = setProperties (dynamic_values E values r) r;
           parents = m_parentsNeedingConnect r1;
           r2 = foldl (\<lambda>r i. configurePrivate i r) (r1\<lparr>m_parentsNeedingConnect := []\<rparr>) parents;
           r3 = setState Valid r2;
           mo = meta_of r3;
           r4 = foldl (\<lambda>r i. notify_changed r (i - m_propertyOffset r)) r3
                  (map int [mo_propOffset mo ..< length (mo_props mo)])
       in emit_event EvNotified r4)"

subsection \<open>The connection to the source\<close>

definition requestRemoteObjectSource :: "'v qstream \<Rightarrow> 'v replica \<times> links \<Rightarrow> 'v replica \<times> links" where
  "requestRemoteObjectSource S x =
    (let (r, l) = x
     in case connectionToSource r of
          None \<Rightarrow> (raise_fault NoConnection r, l)
        | Some c \<Rightarrow> snd (sendCommand (codec_write
            (serializeAddObjectPacket S (m_objectName r) (needsDynamicInitialization r)) c x)))"

definition setConnection :: "'v qstream \<Rightarrow> conn \<Rightarrow> 'v replica \<times> links \<Rightarrow> 'v replica \<times> links" where
  "setConnection S c x =
    (let (r, l) = x
     in requestRemoteObjectSource S
          (if connectionToSource r = None then r\<lparr>connectionToSource := Some c\<rparr> else r, l))"

definition lose_connection :: "'v replica \<Rightarrow> 'v replica" where
  "lose_connection r = setState Suspect (r\<lparr>connectionToSource := None\<rparr>)"

text \<open>
  \<open>setDisconnected\<close> also disconnects the replicas held in object properties; \<open>reps\<close> are all
  replicas of the node, and the fuel bounds the depth of the nesting.
\<close>

fun setDisconnected ::
    "'v client_env \<Rightarrow> nat \<Rightarrow> repid \<Rightarrow> (repid \<Rightarrow> 'v replica option) \<Rightarrow> (repid \<Rightarrow> 'v replica option)" where
  "setDisconnected E 0 k reps = reps"
| "setDisconnected E (Suc n) k reps =
     (case reps k of
        None \<Rightarrow> reps
      | Some r \<Rightarrow>
         if connectionToSource r = None then reps(k \<mapsto> raise_fault NoConnection r)
         else
           let r1 = lose_connection r
           in foldl (\<lambda>reps i. case getProperty i r1 of
                  None \<Rightarrow> reps
                | Some v \<Rightarrow> (case child_of E v of None \<Rightarrow> reps | Some c \<Rightarrow> setDisconnected E n c reps))
                (reps(k \<mapsto> r1)) (m_childIndices r1))"

text \<open>
  Dropping a connection: a client device disconnects its socket and asks its node to reconnect, an
  external one is closed.
\<close>

definition close_io :: "clientio \<Rightarrow> clientio" where
  "close_io io = io\<lparr>io_dev := (io_dev io)\<lparr>isClosing := True, devOpen := False\<rparr>\<rparr>"

definition disconnect_io :: "clientio \<Rightarrow> clientio" where
  "disconnect_io io = (if io_isClient io then io\<lparr>io_dev := (io_dev io)\<lparr>devOpen := False\<rparr>\<rparr> else close_io io)"

definition drop_connection :: "conn \<Rightarrow> 'v replica \<times> links \<Rightarrow> conn option \<times> 'v replica \<times> links" where
  "drop_connection c x =
    (let (r, l) = x in (if io_isClient (l c) then Some c else None, r, l(c := disconnect_io (l c))))"

text \<open>
  The heartbeat's timer has run out. A ping that is still unanswered drops the connection;
  otherwise a ping is sent, unless there is no connection. The timer is single-shot. The first
  component is the device that asks to be reconnected.
\<close>

definition heartbeat_timeout ::
    "'v qstream \<Rightarrow> 'v replica \<times> links \<Rightarrow> conn option \<times> 'v replica \<times> links" where
  "heartbeat_timeout S x =
    (let (r0, l) = x; r = r0\<lparr>hb_active := False\<rparr>
     in if map_of (m_pendingCalls r) 0 \<noteq> None then
          let r1 = r\<lparr>m_pendingCalls := AList.delete 0 (m_pendingCalls r)\<rparr>
          in (case connectionToSource r1 of
                None \<Rightarrow> (None, r1, l) | Some c \<Rightarrow> drop_connection c (r1, l))
        else case connectionToSource r of
               None \<Rightarrow> (None, r, l)
             | Some c \<Rightarrow>
                 (case sendCommandWithReply 0
                     (codec_write (serializePingPacket S (m_objectName r)) c (r, l)) of
                    (None, r1, l1) \<Rightarrow> drop_connection c (r1\<lparr>hb_active := False\<rparr>, l1)
                  | (Some k, r1, l1) \<Rightarrow> (None, r1, l1)))"

definition heartbeat_changed :: "nat \<Rightarrow> 'v replica \<Rightarrow> 'v replica" where
  "heartbeat_changed interval r = r\<lparr>hb_interval := interval, hb_active := (interval \<noteq> 0)\<rparr>"

text \<open>The destructor of an implementation: the source is told.\<close>

definition delete_replica :: "'v qstream \<Rightarrow> 'v replica \<times> links \<Rightarrow> links" where
  "delete_replica S x =
    (let (r, l) = x
     in case connectionToSource r of
          None \<Rightarrow> l
        | Some c \<Rightarrow> snd (snd (sendCommand (codec_write (serializeRemoveObjectPacket S (m_objectName r)) c x))))"

text \<open>
  \<open>waitForSource\<close>: the answer is known in two states; otherwise it is the state after the next
  change of state or the end of the time, whichever \<open>during\<close> (the event loop) meets first.
\<close>

definition waitForSource :: "('v replica \<Rightarrow> 'v replica) \<Rightarrow> 'v replica \<Rightarrow> bool \<times> 'v replica" where
  "waitForSource during r =
    (if m_state r = Valid then (True, r)
     else if m_state r = SignatureMismatch then (False, r)
     else (m_state (during r) = Valid, during r))"

end
