(* ===== verification/ReplicaLife.thy ===== *)
theory ReplicaLife
  imports Replica LittleEndian
begin

text \<open>
  Invariants of a replica's implementation: the property store as its callers use it, the life
  cycle and its log of signals, and the calls that wait for a reply.
\<close>

subsection \<open>The property store\<close>

text \<open>
  What every implementation of \<open>QReplicaImplementationInterface\<close> that stores its properties owes its
  callers.
\<close>

locale property_store =
  fixes get :: "int \<Rightarrow> 's \<Rightarrow> 'v option"
    and put :: "int \<Rightarrow> 'v \<Rightarrow> 's \<Rightarrow> 's"
    and size :: "'s \<Rightarrow> nat"
  assumes get_range: "get i s \<noteq> None \<longleftrightarrow> 0 \<le> i \<and> nat i < size s"
    and get_put: "get i s \<noteq> None \<Longrightarrow> get j (put i v s) = (if j = i then Some v else get j s)"
    and size_put: "size (put i v s) = size s"
begin

lemma size_fold: "size (fold (\<lambda>(i, v). put i v) cs s) = size s"
  by (induction cs arbitrary: s) (auto simp: size_put)

text \<open>After a run of changes within range, each property holds the last value it was given.\<close>

lemma get_fold:
  assumes "\<forall>(i, v) \<in> set cs. 0 \<le> i \<and> nat i < size s"
  shows "get j (fold (\<lambda>(i, v). put i v) cs s) =
    (case map_of (rev cs) j of Some v \<Rightarrow> Some v | None \<Rightarrow> get j s)"
  using assms
proof (induction cs arbitrary: s)
  case (Cons c cs)
  obtain i v where c: "c = (i, v)" by (cases c)
  have "get i s \<noteq> None" using Cons.prems c get_range[of i s] by auto
  then have "get j (put i v s) = (if j = i then Some v else get j s)" by (rule get_put)
  moreover have "\<forall>(i, v) \<in> set cs. 0 \<le> i \<and> nat i < size (put i v s)"
    using Cons.prems by (auto simp: size_put)
  ultimately show ?case
    using Cons.IH[of "put i v s"] Cons.prems
    by (auto simp: c size_put map_add_def split: option.split)
qed simp

end

lemma getProperty_Some:
  "getProperty i r \<noteq> None \<longleftrightarrow> 0 \<le> i \<and> nat i < length (m_propertyStorage r)"
  by (simp add: getProperty_def)

lemma getProperty_setProperty:
  assumes "getProperty i r \<noteq> None"
  shows "getProperty j (setProperty i v r) = (if j = i then Some v else getProperty j r)"
proof -
  have "0 \<le> i \<and> nat i < length (m_propertyStorage r)" using assms by (simp only: getProperty_Some)
  then show ?thesis by (auto simp: getProperty_def setProperty_def nth_list_update nat_eq_iff)
qed

lemma storage_setProperty [simp]:
  "length (m_propertyStorage (setProperty i v r)) = length (m_propertyStorage r)"
  by (simp add: setProperty_def raise_fault_def)

interpretation connected: property_store getProperty setProperty "\<lambda>r. length (m_propertyStorage r)"
  by unfold_locales (simp_all only: getProperty_Some getProperty_setProperty storage_setProperty)

text \<open>The stub that stands in before a replica has a node.\<close>

definition stub_getProperty :: "int \<Rightarrow> 'v list \<Rightarrow> 'v option" where
  "stub_getProperty i st = (if 0 \<le> i \<and> nat i < length st then Some (st ! nat i) else None)"

definition stub_setProperty :: "int \<Rightarrow> 'v \<Rightarrow> 'v list \<Rightarrow> 'v list" where
  "stub_setProperty i v st = (if 0 \<le> i \<and> nat i < length st then st[nat i := v] else st)"

interpretation stub: property_store stub_getProperty stub_setProperty length
  by unfold_locales (auto simp: stub_getProperty_def stub_setProperty_def nth_list_update split: if_splits)

subsection \<open>The life cycle\<close>

text \<open>The changes of state there are.\<close>

definition allowed :: "rstate \<Rightarrow> rstate \<Rightarrow> bool" where
  "allowed old new \<longleftrightarrow> old \<noteq> SignatureMismatch \<and>
     (new = Valid \<and> old \<noteq> Valid \<or> new = Suspect \<or> new = SignatureMismatch)"

text \<open>A log of signals that leads from one state to another.\<close>

fun state_log :: "rstate \<Rightarrow> 'v rep_event list \<Rightarrow> rstate \<Rightarrow> bool" where
  "state_log s [] t \<longleftrightarrow> s = t"
| "state_log s (EvStateChanged new old # es) t \<longleftrightarrow> old = s \<and> allowed old new \<and> state_log new es t"
| "state_log s (EvInitialized # es) t \<longleftrightarrow>
     (case es of EvStateChanged new old # es' \<Rightarrow> new = Valid | _ \<Rightarrow> False) \<and> state_log s es t"
| "state_log s (EvNotified # es) t \<longleftrightarrow> s \<in> {Valid, SignatureMismatch} \<and> state_log s es t"
| "state_log s (e # es) t \<longleftrightarrow> state_log s es t"

lemma state_log_append: "state_log s es t \<Longrightarrow> state_log t es' u \<Longrightarrow> state_log s (es @ es') u"
proof (induction s es t rule: state_log.induct)
  case (3 s es t)
  then show ?case by (cases es) (auto split: rep_event.splits list.splits)
qed auto

definition logs :: "'v replica \<Rightarrow> 'v replica \<Rightarrow> bool" where
  "logs r r' \<longleftrightarrow> (\<exists>es. events r' = events r @ es \<and> state_log (m_state r) es (m_state r'))"

lemma logs_same: "events r' = events r \<Longrightarrow> m_state r' = m_state r \<Longrightarrow> logs r r'"
  unfolding logs_def by (intro exI[of _ "[]"]) simp

lemma logs_refl [simp]: "logs r r"
  by (rule logs_same) simp_all

lemma logs_trans [trans]: "logs r s \<Longrightarrow> logs s t \<Longrightarrow> logs r t"
  unfolding logs_def using state_log_append by (metis append.assoc)

lemma logs_fold: "(\<And>i r. logs r (f r i)) \<Longrightarrow> logs r (foldl f r is)"
  by (induction "is" arbitrary: r) (auto intro: logs_trans)

lemma logs_emit:
  assumes "state_log (m_state r) [e] (m_state r)" shows "logs r (emit_event e r)"
  using assms by (auto simp: logs_def emit_event_def)

lemma logs_fault [simp]: "logs r (raise_fault f r)"
  by (rule logs_same) (simp_all add: raise_fault_def)

lemma logs_setProperty [simp]: "logs r (setProperty i v r)"
  by (simp add: setProperty_def logs_same)

lemma logs_setState:
  assumes "s \<in> {Valid, Suspect, SignatureMismatch}" shows "logs r (setState s r)"
proof (cases "m_state r \<noteq> Suspect \<and> m_state r \<ge> s")
  case True
  then show ?thesis by (simp add: setState_def)
next
  case False
  then have "allowed (m_state r) s"
    using assms by (cases "m_state r") (auto simp: allowed_def rstate_order)
  with False assms show ?thesis
    by (auto simp: setState_def logs_def emit_event_def Let_def
        intro!: exI[of _ "(if s = Valid then [EvInitialized] else []) @ [EvStateChanged s (m_state r)]"])
qed

lemma setState_Valid_state: "m_state (setState Valid r) \<in> {Valid, SignatureMismatch}"
  by (cases "m_state r") (auto simp: setState_def rstate_order emit_event_def Let_def)

lemma state_frame [simp]:
  "m_state (raise_fault f r) = m_state r" "m_state (setProperty i v r) = m_state r"
  "m_state (emit_event e r) = m_state r" "m_state (notify_changed r j) = m_state r"
  by (simp_all add: raise_fault_def setProperty_def emit_event_def notify_changed_def Let_def
      split: option.split)

lemma state_fold_notify [simp]: "m_state (foldl (\<lambda>r i. notify_changed r (g i)) r is) = m_state r"
  by (induction "is" arbitrary: r) simp_all

lemma notify_changed_logs [simp]: "logs r (notify_changed r i)"
  by (auto simp: notify_changed_def Let_def split: option.split intro!: logs_emit)

lemma inst_notify_logs [simp]: "logs r (inst_notify n r i)"
  by (auto simp: inst_notify_def Let_def split: option.split intro!: logs_emit)

lemma later_configure_logs [simp]: "logs r (later_configure inst r)"
proof -
  let ?ra = "r\<lparr>instances := instances r @ [inst]\<rparr>"
  let ?rb = "if isInitialized ?ra then emit_event (EvInstInitialized inst) ?ra else ?ra"
  have "logs r ?ra" by (rule logs_same) simp_all
  moreover have "logs ?ra ?rb" by (simp add: logs_emit)
  moreover have "logs ?rb (later_configure inst r)"
    by (auto simp: later_configure_def Let_def intro: logs_emit)
  ultimately show ?thesis by (blast intro: logs_trans)
qed

lemma configurePrivate_logs [simp]: "logs r (configurePrivate inst r)"
proof -
  have "logs r (first_configure inst r)"
    by (rule logs_same) (simp_all add: first_configure_def Let_def)
  moreover have "logs r (r\<lparr>m_parentsNeedingConnect := m_parentsNeedingConnect r @ [inst]\<rparr>)"
    by (rule logs_same) simp_all
  moreover have "logs r (foldl (inst_notify inst) (later_configure inst r) is)" for "is"
    by (rule logs_trans[OF later_configure_logs logs_fold]) simp
  ultimately show ?thesis by (simp add: configurePrivate_def Let_def)
qed

lemma init_values_logs: "logs r (snd (init_values E i vs r))"
proof (induction vs arbitrary: i r)
  case (Cons v vs)
  have "logs r (snd (init_values E (i + 1) vs (setProperty i w r)))" for w
    by (rule logs_trans[OF logs_setProperty Cons.IH])
  then show ?case using Cons.IH by (auto simp: Let_def case_prod_beta split: option.split)
qed simp

lemma logs_notified:
  "logs r s \<Longrightarrow> m_state s \<in> {Valid, SignatureMismatch} \<Longrightarrow> logs r (emit_event EvNotified s)"
  by (erule logs_trans) (auto intro: logs_emit)

lemma initialize_logs [simp]: "logs r (initialize E hb vs r)"
proof -
  obtain ch ra where iv: "init_values E 0 vs r = (ch, ra)" by fastforce
  have a: "logs r ra" using init_values_logs[of r E 0 vs] by (simp add: iv)
  let ?rc = "foldl notify_changed (setState Valid ra) ch"
  have "logs r ?rc"
    by (rule logs_trans[OF a], rule logs_trans[OF logs_setState logs_fold]) simp_all
  moreover have "m_state ?rc \<in> {Valid, SignatureMismatch}"
    using setState_Valid_state[of ra] state_fold_notify[of "\<lambda>i. i"] by simp
  ultimately have n: "logs r (emit_event EvNotified ?rc)" by (rule logs_notified)
  show ?thesis
    using a by (auto simp: initialize_def iv Let_def intro!: logs_trans[OF n] logs_same)
qed

lemma setDynamicProperties_logs [simp]: "logs r (setDynamicProperties E vs r)"
proof (cases "m_metaObject r = []")
  case False
  define ra where "ra = (setProperties (dynamic_values E vs r) r)\<lparr>m_parentsNeedingConnect := []\<rparr>"
  define rb where "rb = foldl (\<lambda>r i. configurePrivate i r) ra (m_parentsNeedingConnect r)"
  define rc where "rc = setState Valid rb"
  define rd where "rd = foldl (\<lambda>r i. notify_changed r (i - m_propertyOffset r)) rc
    (map int [mo_propOffset (meta_of rc) ..< length (mo_props (meta_of rc))])"
  have "logs r ra" by (rule logs_same) (simp_all add: ra_def setProperties_def)
  also have "logs ra rb" unfolding rb_def by (rule logs_fold) simp
  also have "logs rb rc" unfolding rc_def by (rule logs_setState) simp
  also have "logs rc rd" unfolding rd_def by (rule logs_fold) simp
  finally have "logs r rd" .
  moreover have "m_state rd = m_state rc"
  proof -
    have "m_state (foldl (\<lambda>r i. notify_changed r (i - m_propertyOffset r)) x is) = m_state x" for x :: "'a replica" and "is"
      by (induction "is" arbitrary: x) simp_all
    then show ?thesis by (simp add: rd_def)
  qed
  ultimately have "logs r (emit_event EvNotified rd)"
    using setState_Valid_state[of rb] by (intro logs_notified) (simp_all add: rc_def)
  moreover have "setDynamicProperties E vs r = emit_event EvNotified rd"
    using False by (simp add: setDynamicProperties_def ra_def rb_def rc_def rd_def Let_def setProperties_def)
  ultimately show ?thesis by simp
qed (simp add: setDynamicProperties_def)

subsection \<open>What sending leaves alone\<close>

text \<open>Sending touches the codec, the device, the pending calls and the timer, never state or log.\<close>

definition quiet :: "'v replica \<Rightarrow> 'v replica \<Rightarrow> bool" where
  "quiet r r' \<longleftrightarrow> m_state r' = m_state r \<and> events r' = events r \<and>
     m_propertyStorage r' = m_propertyStorage r \<and> m_metaObject r' = m_metaObject r"

lemma quiet_refl [simp]: "quiet r r"
  by (simp add: quiet_def)

lemma quiet_trans: "quiet r s \<Longrightarrow> quiet s t \<Longrightarrow> quiet r t"
  by (simp add: quiet_def)

lemma quiet_logs: "quiet r r' \<Longrightarrow> logs r r'"
  by (simp add: quiet_def logs_same)

lemma quiet_fault [simp]: "quiet r (raise_fault f r)"
  by (simp add: quiet_def raise_fault_def)

lemma codec_write_quiet [simp]: "quiet (fst x) (fst (codec_write f c x))"
  by (cases x) (auto simp: codec_write_def split: option.split)

lemma sendCommand_quiet [simp]: "quiet (fst x) (fst (snd (sendCommand x)))"
  by (cases x) (auto simp: sendCommand_def quiet_def raise_fault_def split: option.split prod.split)

lemma sendCommandWithReply_quiet [simp]: "quiet (fst x) (fst (snd (sendCommandWithReply n x)))"
  using sendCommand_quiet[of x]
  by (auto simp: sendCommandWithReply_def Let_def quiet_def split: prod.splits)

lemma q_send_quiet [simp]: "quiet (fst x) (fst (q_send S E call i args x))"
  using quiet_trans[OF codec_write_quiet sendCommand_quiet]
  by (cases x) (auto simp: q_send_def Let_def split: option.split)

lemma next_serial_quiet [simp]: "quiet r (snd (next_serial r))"
  by (simp add: next_serial_def quiet_def)

lemma q_sendWithReply_quiet [simp]: "quiet (fst x) (fst (snd (q_sendWithReply S E call i args x)))"
proof (cases x)
  case (Pair r l)
  show ?thesis
  proof (cases "connectionToSource r")
    case (Some c)
    define y where "y = codec_write (serializeInvokePacket S (cenc E) (m_objectName r) call
       (word_of_int (i - m_methodOffset r)) args (fst (next_serial r)) (-1)) c (snd (next_serial r), l)"
    have "quiet r (snd (next_serial r))" by simp
    moreover have "quiet (snd (next_serial r)) (fst y)"
      using codec_write_quiet[of "(snd (next_serial r), l)"] by (simp add: y_def)
    ultimately have "quiet r (fst (snd (sendCommandWithReply (fst (next_serial r)) y)))"
      using quiet_trans sendCommandWithReply_quiet by blast
    then show ?thesis using Some by (simp add: Pair q_sendWithReply_def y_def case_prod_beta)
  qed (simp add: Pair q_sendWithReply_def)
qed

lemma notifyAboutReply_quiet [simp]: "quiet r (notifyAboutReply n v r)"
  by (auto simp: notifyAboutReply_def quiet_def update_call_def Let_def split: option.split)

lemma requestRemoteObjectSource_quiet [simp]: "quiet (fst x) (fst (requestRemoteObjectSource S x))"
  using quiet_trans[OF codec_write_quiet sendCommand_quiet]
  by (cases x) (auto simp: requestRemoteObjectSource_def split: option.split)

lemma setConnection_quiet [simp]: "quiet (fst x) (fst (setConnection S c x))"
proof (cases x)
  case (Pair r l)
  let ?r = "if connectionToSource r = None then r\<lparr>connectionToSource := Some c\<rparr> else r"
  have "quiet r ?r" by (simp add: quiet_def)
  then show ?thesis
    using requestRemoteObjectSource_quiet[of "(?r, l)" S] quiet_trans[of r ?r]
    by (simp add: setConnection_def Pair)
qed

lemma heartbeat_timeout_quiet [simp]: "quiet (fst x) (fst (snd (heartbeat_timeout S x)))"
proof (cases x)
  case (Pair r l)
  let ?r = "r\<lparr>hb_active := False\<rparr>"
  let ?y = "\<lambda>c. codec_write (serializePingPacket S (m_objectName r)) c (?r, l)"
  have "quiet ?r (fst (snd (sendCommandWithReply 0 (?y c))))" for c
    using quiet_trans[OF codec_write_quiet[of "(?r, l)"] sendCommandWithReply_quiet] by simp
  then show ?thesis
    by (auto simp: Pair heartbeat_timeout_def Let_def drop_connection_def quiet_def
        split: option.split prod.split) (metis fst_conv snd_conv)+
qed

text \<open>The other operations leave the calls alone.\<close>

definition same_calls :: "'v replica \<Rightarrow> 'v replica \<Rightarrow> bool" where
  "same_calls r r' \<longleftrightarrow> m_pendingCalls r' = m_pendingCalls r \<and> calls r' = calls r \<and>
     m_curSerialId r' = m_curSerialId r"

lemma same_calls_refl [simp]: "same_calls r r"
  by (simp add: same_calls_def)

lemma same_calls_trans [trans]: "same_calls r s \<Longrightarrow> same_calls s t \<Longrightarrow> same_calls r t"
  by (simp add: same_calls_def)

lemma same_calls_fold: "(\<And>i r. same_calls r (f r i)) \<Longrightarrow> same_calls r (foldl f r is)"
  by (induction "is" arbitrary: r) (auto intro: same_calls_trans)

lemma same_calls_basic [simp]:
  "same_calls r (raise_fault f r)" "same_calls r (emit_event e r)" "same_calls r (setProperty i v r)"
  "same_calls r (setState s r)" "same_calls r (notify_changed r i)" "same_calls r (inst_notify n r i)"
  "same_calls r (first_configure n r)" "same_calls r (later_configure n r)" "same_calls r (lose_connection r)"
  "same_calls r (setDynamicMetaObject ms r)"
  by (auto simp: same_calls_def raise_fault_def emit_event_def setProperty_def setState_def
      notify_changed_def inst_notify_def first_configure_def later_configure_def lose_connection_def
      setDynamicMetaObject_def Let_def split: option.split)

lemma same_calls_configurePrivate [simp]: "same_calls r (configurePrivate inst r)"
proof -
  have "same_calls r (foldl (inst_notify inst) (later_configure inst r) is)" for "is"
    by (rule same_calls_trans[OF _ same_calls_fold, of _ "later_configure inst r"]) simp_all
  moreover have "same_calls r (r\<lparr>m_parentsNeedingConnect := ps\<rparr>)" for ps
    by (simp add: same_calls_def)
  ultimately show ?thesis by (simp add: configurePrivate_def Let_def)
qed

lemma same_calls_init_values: "same_calls r (snd (init_values E i vs r))"
proof (induction vs arbitrary: i r)
  case (Cons v vs)
  have "same_calls r (snd (init_values E (i + 1) vs (setProperty i w r)))" for w
    by (rule same_calls_trans[OF _ Cons.IH]) simp
  then show ?case using Cons.IH by (auto simp: Let_def case_prod_beta split: option.split)
qed simp

lemma same_calls_initialize [simp]: "same_calls r (initialize E hb vs r)"
proof -
  obtain ch ra where iv: "init_values E 0 vs r = (ch, ra)" by fastforce
  have a: "same_calls r ra" using same_calls_init_values[of r E 0 vs] by (simp add: iv)
  also have "same_calls ra (setState Valid ra)" by simp
  also have "same_calls (setState Valid ra) (foldl notify_changed (setState Valid ra) ch)"
    by (rule same_calls_fold) simp
  finally show ?thesis
    using a by (simp add: initialize_def iv Let_def same_calls_def emit_event_def)
qed

lemma same_calls_setDynamicProperties [simp]: "same_calls r (setDynamicProperties E vs r)"
proof (cases "m_metaObject r = []")
  case False
  define ra where "ra = (setProperties (dynamic_values E vs r) r)\<lparr>m_parentsNeedingConnect := []\<rparr>"
  define rb where "rb = foldl (\<lambda>r i. configurePrivate i r) ra (m_parentsNeedingConnect r)"
  define rc where "rc = setState Valid rb"
  define rd where "rd = foldl (\<lambda>r i. notify_changed r (i - m_propertyOffset r)) rc
    (map int [mo_propOffset (meta_of rc) ..< length (mo_props (meta_of rc))])"
  have "same_calls r ra" by (simp add: ra_def setProperties_def same_calls_def)
  also have "same_calls ra rb" unfolding rb_def by (rule same_calls_fold) simp
  also have "same_calls rb rc" unfolding rc_def by simp
  also have "same_calls rc rd" unfolding rd_def by (rule same_calls_fold) simp
  finally show ?thesis
    using False by (simp add: setDynamicProperties_def ra_def rb_def rc_def rd_def Let_def setProperties_def
        same_calls_def emit_event_def)
qed (simp add: setDynamicProperties_def)

subsection \<open>Calls that wait for a reply\<close>

text \<open>
  The calls a replica waits for: one per serial id, each unfinished and numbered by that id. The
  heartbeat's is 0, the next id is always a positive \<open>int\<close>.
\<close>

definition pending_ok :: "'v replica \<Rightarrow> bool" where
  "pending_ok r \<longleftrightarrow> distinct (map fst (m_pendingCalls r)) \<and>
     (\<forall>(s, k) \<in> set (m_pendingCalls r). k < length (calls r) \<and> cd_serialId (calls r ! k) = s \<and>
        \<not> call_isFinished (calls r ! k)) \<and>
     1 \<le> m_curSerialId r \<and> m_curSerialId r \<le> max_int32"

lemma pending_ok_same: "same_calls r r' \<Longrightarrow> pending_ok r \<Longrightarrow> pending_ok r'"
  by (simp add: same_calls_def pending_ok_def)

lemma pending_ok_new [simp]: "pending_ok (new_connected_replica n ms a b c)"
  by (simp add: pending_ok_def new_connected_replica_def max_int32_def)

lemma next_serial_range:
  assumes "1 \<le> m_curSerialId r" and "m_curSerialId r \<le> max_int32"
  shows "1 \<le> m_curSerialId (snd (next_serial r))" and "m_curSerialId (snd (next_serial r)) \<le> max_int32"
    and "1 \<le> fst (next_serial r)" and "fst (next_serial r) < max_int32"
  using assms
  by (auto simp: next_serial_def max_int32_def word_le_nat_alt word_less_nat_alt unat_word_ariths
      word_unat_eq_iff)

lemma pending_ok_write:
  "pending_ok (fst x) \<Longrightarrow> pending_ok (fst (codec_write f c x))"
  by (cases x) (auto simp: codec_write_def pending_ok_def raise_fault_def split: option.split)

lemma pending_ok_sendCommand:
  "pending_ok (fst x) \<Longrightarrow> pending_ok (fst (snd (sendCommand x)))"
  by (cases x) (auto simp: sendCommand_def pending_ok_def raise_fault_def split: option.split prod.split)

lemma set_update:
  "distinct (map fst al) \<Longrightarrow> set (AList.update k v al) = insert (k, v) {e \<in> set al. fst e \<noteq> k}"
  by (induction al) (auto simp: image_iff)

lemma pending_ok_reply:
  assumes "pending_ok (fst x)"
  shows "pending_ok (fst (snd (sendCommandWithReply n x)))"
proof -
  obtain b r l where x: "sendCommand x = (b, r, l)" by (metis prod_cases3)
  have "pending_ok r" using pending_ok_sendCommand[OF assms] by (simp add: x)
  then show ?thesis
    by (auto simp: sendCommandWithReply_def x Let_def pending_ok_def set_update distinct_update
        nth_append call_isFinished_def)
qed

lemma pending_ok_q_sendWithReply:
  assumes "pending_ok (fst x)"
  shows "pending_ok (fst (snd (q_sendWithReply S E call i args x)))"
proof (cases x)
  case (Pair r l)
  have "pending_ok (snd (next_serial r))"
    using assms next_serial_range[of r]
    by (auto simp: Pair pending_ok_def) (auto simp: next_serial_def split: if_splits)
  then show ?thesis
    using assms by (auto simp: Pair q_sendWithReply_def case_prod_beta pending_ok_reply pending_ok_write
        split: option.split)
qed

lemma set_alist_delete: "e \<in> set (AList.delete k al) \<longleftrightarrow> e \<in> set al \<and> fst e \<noteq> k"
  by (auto simp: AList.delete_eq)

lemma pending_ok_notify:
  assumes ok: "pending_ok r"
  shows "pending_ok (notifyAboutReply n v r)"
proof -
  have dist: "distinct (map fst (AList.delete n (m_pendingCalls r)))"
    using ok by (simp add: pending_ok_def distinct_delete)
  have keep: "k \<noteq> k'" if "map_of (m_pendingCalls r) n = Some k'" and "(s, k) \<in> set (m_pendingCalls r)" and "s \<noteq> n" for s k k'
  proof -
    have "(n, k') \<in> set (m_pendingCalls r)" using that(1) by (rule map_of_SomeD)
    then have "cd_serialId (calls r ! k') = n" using ok by (auto simp: pending_ok_def)
    moreover have "cd_serialId (calls r ! k) = s" using ok that(2) by (auto simp: pending_ok_def)
    ultimately show ?thesis using that(3) by auto
  qed
  show ?thesis
    using ok dist keep
    by (fastforce simp: notifyAboutReply_def pending_ok_def update_call_def set_alist_delete Let_def
        split: option.split)
qed

lemma pending_ok_requestRemoteObjectSource:
  "pending_ok (fst x) \<Longrightarrow> pending_ok (fst (requestRemoteObjectSource S x))"
  by (cases x) (auto simp: requestRemoteObjectSource_def pending_ok_sendCommand pending_ok_write
      pending_ok_same[OF same_calls_basic(1)] split: option.split)

lemma pending_ok_setConnection: "pending_ok (fst x) \<Longrightarrow> pending_ok (fst (setConnection S c x))"
proof (cases x)
  case (Pair r l)
  assume "pending_ok (fst x)"
  then have "pending_ok (if connectionToSource r = None then r\<lparr>connectionToSource := Some c\<rparr> else r)"
    by (simp add: Pair pending_ok_def)
  then show ?thesis by (simp add: Pair setConnection_def pending_ok_requestRemoteObjectSource)
qed

lemma pending_ok_q_send: "pending_ok (fst x) \<Longrightarrow> pending_ok (fst (q_send S E call i args x))"
  by (cases x) (auto simp: q_send_def Let_def pending_ok_sendCommand pending_ok_write split: option.split)

lemma pending_ok_heartbeat:
  assumes "pending_ok (fst x)"
  shows "pending_ok (fst (snd (heartbeat_timeout S x)))"
proof (cases x)
  case (Pair r l)
  let ?r = "r\<lparr>hb_active := False\<rparr>"
  let ?y = "\<lambda>c. codec_write (serializePingPacket S (m_objectName r)) c (?r, l)"
  have r: "pending_ok ?r" using assms by (simp add: Pair pending_ok_def)
  then have "pending_ok (?r\<lparr>m_pendingCalls := AList.delete 0 (m_pendingCalls r)\<rparr>)"
    by (auto simp: pending_ok_def set_alist_delete distinct_delete)
  moreover have "pending_ok (fst (snd (sendCommandWithReply 0 (?y c))))" for c
    using r by (simp add: pending_ok_reply pending_ok_write)
  moreover have "pending_ok (s\<lparr>hb_active := b\<rparr>) = pending_ok s" for s :: "'a replica" and b
    by (simp add: pending_ok_def)
  ultimately show ?thesis
    using r by (auto simp: Pair heartbeat_timeout_def Let_def drop_connection_def
        split: option.split prod.split) (metis fst_conv snd_conv)+
qed

subsection \<open>The life of a replica\<close>

text \<open>
  What can happen to a replica: its instances are configured, its node gives it a connection, a class
  and the values of init packets, finds its signature wrong, takes the connection away; user code
  writes and calls, replies arrive, and the heartbeat's timer runs out.
\<close>

inductive life_step ::
    "'v qstream \<Rightarrow> 'v client_env \<Rightarrow> 'v replica \<times> links \<Rightarrow> 'v replica \<times> links \<Rightarrow> bool"
  for S :: "'v qstream" and E :: "'v client_env" where
  ls_configure: "life_step S E (r, l) (configurePrivate inst r, l)"
| ls_connect: "life_step S E x (setConnection S c x)"
| ls_class: "m_metaObject r = [] \<Longrightarrow> life_step S E (r, l) (setDynamicMetaObject ms r, l)"
| ls_dynamic: "life_step S E (r, l) (setDynamicProperties E vs r, l)"
| ls_init: "life_step S E (r, l) (initialize E hb vs r, l)"
| ls_mismatch: "life_step S E (r, l) (setState SignatureMismatch r, l)"
| ls_disconnect: "life_step S E (r, l) (lose_connection r, l)"
| ls_send: "life_step S E x (q_send S E call i args x)"
| ls_call: "life_step S E x (snd (q_sendWithReply S E call i args x))"
| ls_reply: "life_step S E (r, l) (notifyAboutReply n v r, l)"
| ls_heartbeat: "life_step S E x (snd (heartbeat_timeout S x))"
| ls_interval: "life_step S E (r, l) (heartbeat_changed n r, l)"
| ls_io: "life_step S E (r, l) (r, l')"

lemma life_step_logs: "life_step S E x y \<Longrightarrow> logs (fst x) (fst y)"
proof (induction rule: life_step.induct)
  case (ls_class r l ms)
  show ?case by (simp add: logs_same setDynamicMetaObject_def)
next
  case (ls_disconnect r l)
  have "logs r (r\<lparr>connectionToSource := None\<rparr>)" by (rule logs_same) simp_all
  also have "logs (r\<lparr>connectionToSource := None\<rparr>) (lose_connection r)"
    unfolding lose_connection_def by (rule logs_setState) simp
  finally show ?case by simp
next
  case (ls_interval r l n)
  show ?case by (simp add: logs_same heartbeat_changed_def)
qed (simp_all add: quiet_logs logs_setState)

lemma life_step_pending: "life_step S E x y \<Longrightarrow> pending_ok (fst x) \<Longrightarrow> pending_ok (fst y)"
proof (induction rule: life_step.induct)
  case (ls_interval r l n)
  then show ?case by (simp add: heartbeat_changed_def pending_ok_def)
qed (simp_all add: pending_ok_setConnection pending_ok_q_send pending_ok_q_sendWithReply pending_ok_notify
    pending_ok_heartbeat pending_ok_same[OF same_calls_basic(4)] pending_ok_same[OF same_calls_basic(9)]
    pending_ok_same[OF same_calls_basic(10)] pending_ok_same[OF same_calls_configurePrivate]
    pending_ok_same[OF same_calls_initialize] pending_ok_same[OF same_calls_setDynamicProperties])

inductive reached :: "'v qstream \<Rightarrow> 'v client_env \<Rightarrow> 'v replica \<times> links \<Rightarrow> 'v replica \<times> links \<Rightarrow> bool"
  for S :: "'v qstream" and E :: "'v client_env" and x :: "'v replica \<times> links" where
  reached_start: "reached S E x x"
| reached_step: "reached S E x y \<Longrightarrow> life_step S E y z \<Longrightarrow> reached S E x z"

lemma reached_logs: "reached S E x y \<Longrightarrow> logs (fst x) (fst y)"
  by (induction rule: reached.induct) (auto intro: logs_trans dest: life_step_logs)

lemma reached_pending: "reached S E x y \<Longrightarrow> pending_ok (fst x) \<Longrightarrow> pending_ok (fst y)"
  by (induction rule: reached.induct) (auto dest: life_step_pending)

lemma allowed_final: "\<not> allowed SignatureMismatch s"
  by (simp add: allowed_def)

lemma mismatch_log: "state_log s es t \<Longrightarrow> s = SignatureMismatch \<Longrightarrow> t = SignatureMismatch"
  by (induction s es t rule: state_log.induct) (auto simp: allowed_def split: list.splits rep_event.splits)

end
