(* ===== verification/ReplicaProps.thy ===== *)
theory ReplicaProps
  imports ReplicaLife ApiProps
begin

text \<open>
  The properties of replicas: their life cycle, what an init packet does, calls and replies, serial
  ids, watchers and the heartbeat.
\<close>

subsection \<open>A replica to look at\<close>

definition demo_env :: "u32 client_env" where
  "demo_env = \<lparr>cenc = id, cdec = (\<lambda>v t. v), child_of = (\<lambda>_. None)\<rparr>"

definition demo_replica :: "u32 replica" where
  "demo_replica = new_connected_replica ''thermo'' [thermo_meta] 0 0 10"

text \<open>A connection that is open and idle.\<close>

definition demo_links :: links where
  "demo_links = (\<lambda>_. \<lparr>io_dev = \<lparr>written = [], devOpen = True, isClosing = False\<rparr>,
     io_codec = Some \<lparr>barray = [], bufpos = 0, baseAddress = 0, psize = 0\<rparr>, m_remoteObjects = [],
     io_isClient = True, io_url = ''tcp:''\<rparr>)"

subsection \<open>The life cycle\<close>

text \<open>
  C12: Over every life of a replica its state is the one its log of signals leads to from the state it
  was made in, through allowed changes only: it becomes \<open>Valid\<close> from another state with
  \<open>initialized\<close> just before, \<open>notified\<close> goes out only in a final or valid state, and once the
  signature does not match it stays so.
\<close>

theorem replica_life:
  assumes "reached S E (new_connected_replica name ms so po hb, l) (r, l')"
  shows "state_log (if ms = [] then Uninitialized else Default) (events r) (m_state r) \<and>
     (reached S E (r, l') (r', l'') \<longrightarrow> (\<exists>es. events r' = events r @ es \<and> state_log (m_state r) es (m_state r') \<and>
        (m_state r = SignatureMismatch \<longrightarrow> m_state r' = SignatureMismatch)))"
proof
  show "state_log (if ms = [] then Uninitialized else Default) (events r) (m_state r)"
    using reached_logs[OF assms] by (auto simp: logs_def new_connected_replica_def)
next
  show "reached S E (r, l') (r', l'') \<longrightarrow> (\<exists>es. events r' = events r @ es \<and> state_log (m_state r) es (m_state r') \<and>
        (m_state r = SignatureMismatch \<longrightarrow> m_state r' = SignatureMismatch))"
    using reached_logs[of S E "(r, l')" "(r', l'')"] mismatch_log by (auto simp: logs_def)
qed


theorem replica_life_witness:
  "\<exists>r. reached le_stream demo_env (demo_replica, demo_links) (r, demo_links) \<and>
     m_state r = SignatureMismatch \<and> state_log Default (events r) SignatureMismatch"
proof -
  let ?r = "setState SignatureMismatch (initialize demo_env 0 [] demo_replica)"
  have "reached le_stream demo_env (demo_replica, demo_links) (initialize demo_env 0 [] demo_replica, demo_links)"
    by (rule reached_step[OF reached_start ls_init])
  then have r: "reached le_stream demo_env (demo_replica, demo_links) (?r, demo_links)"
    by (rule reached_step[OF _ ls_mismatch])
  have "m_state ?r = SignatureMismatch"
    by (simp add: setState_def initialize_def demo_replica_def new_connected_replica_def emit_event_def
        rstate_order Let_def)
  have "state_log Default (events ?r) (m_state ?r)"
    using replica_life[OF r[unfolded demo_replica_def], of ?r demo_links] by (simp add: demo_replica_def)
  with r \<open>m_state ?r = SignatureMismatch\<close> show ?thesis by auto
qed

subsection \<open>Calls and replies\<close>


lemma dev_write_open [simp]: "devOpen (dev_write b d) = devOpen d" "isClosing (dev_write b d) = isClosing d"
  by (simp_all add: dev_write_def)

definition demo_calling :: "u32 replica \<times> links" where
  "demo_calling = snd (q_sendWithReply le_stream demo_env 0 5 [] (setConnection le_stream 0 (demo_replica, demo_links)))"

lemma demo_calling_reached: "reached le_stream demo_env (demo_replica, demo_links) demo_calling"
  unfolding demo_calling_def by (rule reached_step[OF reached_step[OF reached_start ls_connect] ls_call])

lemma demo_calling_pending: "m_pendingCalls (fst demo_calling) = [(1, 0)]"
  by (simp add: demo_calling_def q_sendWithReply_def setConnection_def requestRemoteObjectSource_def
      demo_replica_def new_connected_replica_def demo_links_def sendCommand_def codec_write_def io_isOpen_def
      sendCommandWithReply_def next_serial_def max_int32_def send_one_def payload_def Let_def)


text \<open>A replica that can send.\<close>

definition can_send :: "'v replica \<Rightarrow> links \<Rightarrow> conn \<Rightarrow> dspacket \<Rightarrow> bool" where
  "can_send r l c d \<longleftrightarrow> connectionToSource r = Some c \<and> io_isOpen (l c) \<and> io_codec (l c) = Some d"

lemma sendCommand_can_send:
  assumes "can_send r l c d"
  shows "sendCommand (codec_write f c (r, l)) =
    (True, r\<lparr>hb_active := hb_active r \<or> hb_interval r \<noteq> 0\<rparr>,
     l(c := (l c)\<lparr>io_dev := fst (send_one (f d) (io_dev (l c))), io_codec := Some (snd (send_one (f d) (io_dev (l c))))\<rparr>))"
  using assms by (simp add: can_send_def sendCommand_def codec_write_def io_isOpen_def case_prod_beta)

lemma send_one_open [simp]:
  "devOpen (fst (send_one d dev)) = devOpen dev" "isClosing (fst (send_one d dev)) = isClosing dev"
  by (simp_all add: send_one_def case_prod_beta)

definition fresh_call :: "int32 \<Rightarrow> 'v call_data" where
  "fresh_call n = \<lparr>cd_serialId = n, cd_error = InvalidMessage, cd_returnValue = None, cd_hasHelper = False,
     cd_watchers = [], cd_queued = False, cd_notified = []\<rparr>"

lemma fresh_call_sel [simp]: "cd_serialId (fresh_call n) = n" "\<not> call_isFinished (fresh_call n)"
  by (simp_all add: fresh_call_def call_isFinished_def)

lemma q_sendWithReply_can_send:
  assumes "can_send r l c d"
  shows "\<exists>h l' d'. q_sendWithReply S E call i args (r, l) =
      (Some (length (calls r)),
       (snd (next_serial r))\<lparr>hb_active := h, calls := calls r @ [fresh_call (fst (next_serial r))],
          m_pendingCalls := AList.update (fst (next_serial r)) (length (calls r)) (m_pendingCalls r)\<rparr>, l') \<and>
      io_isOpen (l' c) \<and> io_codec (l' c) = Some d'"
proof -
  obtain n r1 where n: "next_serial r = (n, r1)" by fastforce
  have same: "calls r1 = calls r" "m_pendingCalls r1 = m_pendingCalls r" "connectionToSource r1 = connectionToSource r"
    using n by (auto simp: next_serial_def split: if_splits)
  have "can_send r1 l c d" using assms same by (simp add: can_send_def)
  note s = sendCommand_can_send[OF this]
  show ?thesis
    using assms by (simp add: q_sendWithReply_def n s sendCommandWithReply_def Let_def same fresh_call_def
        can_send_def io_isOpen_def) (rule exI, rule refl)
qed

text \<open>
  Once the serial ids are used up every call goes out with id 1: a second call takes the place
  of the first, and no reply whatever finishes the first any more.
\<close>

theorem serial_ids_run_out:
  assumes "can_send r l c d" and "m_curSerialId r = max_int32" and "pending_ok r"
  shows "let (k, x) = q_sendWithReply S E call i args (r, l);
             (k', r', l') = q_sendWithReply S E call i' args' x
     in k = Some (length (calls r)) \<and> k' = Some (length (calls r) + 1) \<and>
        cd_serialId (calls r' ! the k) = 1 \<and> cd_serialId (calls r' ! the k') = 1 \<and>
        (\<forall>n v. \<not> call_isFinished (calls (notifyAboutReply n v r') ! the k))"
proof -
  have ser: "next_serial r = (1, r)" using assms(2) by (simp add: next_serial_def)
  obtain l1 h1 d1 where one: "q_sendWithReply S E call i args (r, l) = (Some (length (calls r)),
      r\<lparr>hb_active := h1, calls := calls r @ [fresh_call 1], m_pendingCalls := AList.update 1 (length (calls r)) (m_pendingCalls r)\<rparr>, l1)"
    and l1: "io_isOpen (l1 c)" "io_codec (l1 c) = Some d1"
    using q_sendWithReply_can_send[OF assms(1), of S E call i args] by (auto simp: ser)
  define r1 where "r1 = r\<lparr>hb_active := h1, calls := calls r @ [fresh_call 1],
     m_pendingCalls := AList.update 1 (length (calls r)) (m_pendingCalls r)\<rparr>"
  have c1: "can_send r1 l1 c d1" using assms(1) l1 by (simp add: can_send_def r1_def)
  have ser1: "next_serial r1 = (1, r1)" using assms(2) by (simp add: next_serial_def r1_def)
  obtain l2 h2 where two: "q_sendWithReply S E call i' args' (r1, l1) = (Some (length (calls r1)),
      r1\<lparr>hb_active := h2, calls := calls r1 @ [fresh_call 1], m_pendingCalls := AList.update 1 (length (calls r1)) (m_pendingCalls r1)\<rparr>, l2)"
    using q_sendWithReply_can_send[OF c1, of S E call i' args'] by (auto simp: ser1)
  define r2 where "r2 = r1\<lparr>hb_active := h2, calls := calls r1 @ [fresh_call 1],
     m_pendingCalls := AList.update 1 (length (calls r1)) (m_pendingCalls r1)\<rparr>"
  have calls2: "calls r2 = calls r @ [fresh_call 1, fresh_call 1]" by (simp add: r2_def r1_def)
  have "distinct (map fst (m_pendingCalls r2))"
    using assms(3) by (simp add: r2_def r1_def pending_ok_def distinct_update)
  moreover have "(n, length (calls r)) \<notin> set (m_pendingCalls r2)" for n
    using assms(3) by (auto simp: r2_def r1_def pending_ok_def set_update distinct_update)
  ultimately have gone: "map_of (m_pendingCalls r2) n \<noteq> Some (length (calls r))" for n
    by (simp add: map_of_eq_Some_iff)
  have "calls (notifyAboutReply n v r2) ! length (calls r) = calls r2 ! length (calls r)" for n v
    using gone[of n] by (auto simp: notifyAboutReply_def update_call_def Let_def split: option.split)
  then have "\<not> call_isFinished (calls (notifyAboutReply n v r2) ! length (calls r))" for n v
    by (simp add: calls2 nth_append)
  then show ?thesis
    using one two by (simp add: r1_def[symmetric] r2_def[symmetric] calls2 nth_append) (simp add: r1_def)
qed

definition demo_full :: "u32 replica" where
  "demo_full = demo_replica\<lparr>connectionToSource := Some 0, m_curSerialId := max_int32\<rparr>"

lemma demo_full_can_send:
  "can_send demo_full demo_links 0 \<lparr>barray = [], bufpos = 0, baseAddress = 0, psize = 0\<rparr>"
  by (simp add: can_send_def demo_full_def demo_links_def io_isOpen_def)

lemma demo_full_serial: "m_curSerialId demo_full = max_int32"
  by (simp add: demo_full_def)

lemma demo_full_ok: "pending_ok demo_full"
  by (simp add: pending_ok_def demo_full_def demo_replica_def new_connected_replica_def max_int32_def)

theorem serial_ids_run_out_witness:
  "let (k, x) = q_sendWithReply le_stream demo_env 0 5 [] (demo_full, demo_links);
       (k', r', l') = q_sendWithReply le_stream demo_env 0 5 [] x
   in k = Some 0 \<and> k' = Some 1 \<and> (\<forall>n v. \<not> call_isFinished (calls (notifyAboutReply n v r') ! 0))"
proof -
  have z: "calls demo_full = []" by (simp add: demo_full_def demo_replica_def new_connected_replica_def)
  show ?thesis
    using serial_ids_run_out[OF demo_full_can_send demo_full_serial demo_full_ok, of le_stream demo_env 0 5 "[]" 5 "[]"]
    by (auto simp: z case_prod_beta Let_def)
qed

text \<open>
  A watcher of a finished call hears of it in the next turn of the event loop if it is the
  first one. One that is added when the call has a helper already, made by an earlier watcher or by
  \<open>waitForFinished\<close>, is never told, whatever turns follow.
\<close>

theorem late_watcher:
  assumes "call_isFinished cd" and "\<not> cd_queued cd"
  shows "(\<not> cd_hasHelper cd \<and> cd_watchers cd = [] \<longrightarrow>
       cd_notified (run_queued (add_watcher w cd)) = cd_notified cd @ [w]) \<and>
     (cd_hasHelper cd \<longrightarrow> (run_queued ^^ n) (add_watcher w cd) = add_watcher w cd \<and>
       cd_notified (add_watcher w cd) = cd_notified cd)"
proof -
  have "(run_queued ^^ n) (add_watcher w cd) = add_watcher w cd" if "cd_hasHelper cd"
    using assms(2) that by (induction n) (simp_all add: run_queued_def add_watcher_def Let_def)
  then show ?thesis
    using assms by (simp add: run_queued_def add_watcher_def emit_finished_def call_isFinished_def Let_def)
qed

theorem late_watcher_witness:
  "let waited = snd (waitForFinished True (\<lambda>cd. complete 7 cd) (fresh_call 1 :: u32 call_data))
   in fst (waitForFinished True (\<lambda>cd. complete 7 cd) (fresh_call 1 :: u32 call_data)) \<and>
      cd_notified ((run_queued ^^ 3) (add_watcher 0 waited)) = []"
proof -
  let ?w = "complete 7 ((fresh_call 1 :: u32 call_data)\<lparr>cd_hasHelper := True\<rparr>)"
  have "call_isFinished ?w" "\<not> cd_queued ?w" "cd_hasHelper ?w" "cd_notified ?w = []"
    by (simp_all add: complete_def emit_finished_def fresh_call_def call_isFinished_def)
  moreover have "snd (waitForFinished True (\<lambda>cd. complete 7 cd) (fresh_call 1 :: u32 call_data)) = ?w"
    by (simp add: waitForFinished_def fresh_call_def Let_def)
  ultimately show ?thesis
    using late_watcher[of ?w 0 3] by (simp add: waitForFinished_def fresh_call_def call_isFinished_def)
qed

subsection \<open>The heartbeat\<close>

lemma heartbeat_ping:
  assumes "can_send r l c d" and "map_of (m_pendingCalls r) 0 = None" and "hb_interval r \<noteq> 0"
  shows "heartbeat_timeout S (r, l) =
    (None, r\<lparr>hb_active := True, calls := calls r @ [fresh_call 0],
       m_pendingCalls := AList.update 0 (length (calls r)) (m_pendingCalls r)\<rparr>,
     l(c := (l c)\<lparr>io_dev := fst (send_one (serializePingPacket S (m_objectName r) d) (io_dev (l c))),
        io_codec := Some (snd (send_one (serializePingPacket S (m_objectName r) d) (io_dev (l c))))\<rparr>))"
proof -
  have "can_send (r\<lparr>hb_active := False\<rparr>) l c d" using assms(1) by (simp add: can_send_def)
  note s = sendCommand_can_send[OF this]
  show ?thesis
    using assms by (simp add: heartbeat_timeout_def sendCommandWithReply_def s can_send_def Let_def fresh_call_def)
qed

text \<open>
  With a heartbeat, a timeout without an open ping sends one and waits for its answer. The pong
  of the source restarts the timer and allows the next ping; a timeout before it drops the
  connection.
\<close>

theorem heartbeat_cycle:
  assumes "can_send r l c d" and "map_of (m_pendingCalls r) 0 = None" and "hb_interval r \<noteq> 0"
    and "io_isClient (l c)"
  shows "let (again, r1, l1) = heartbeat_timeout S (r, l);
             ponged = notifyAboutReply 0 v r1;
             (drop, r2, l2) = heartbeat_timeout S (r1, l1)
     in again = None \<and> hb_active r1 \<and> map_of (m_pendingCalls r1) 0 \<noteq> None \<and>
        io_dev (l1 c) = dev_write (fst (payload (serializePingPacket S (m_objectName r) d))) (io_dev (l c)) \<and>
        hb_active ponged \<and> m_pendingCalls ponged = AList.delete 0 (AList.update 0 (length (calls r)) (m_pendingCalls r)) \<and>
        (\<exists>d'. can_send ponged l1 c d') \<and> fst (heartbeat_timeout S (ponged, l1)) = None \<and>
        drop = Some c \<and> \<not> io_isOpen (l2 c) \<and> map_of (m_pendingCalls r2) 0 = None"
proof -
  note one = heartbeat_ping[OF assms(1-3), of S]
  define r1 where "r1 = r\<lparr>hb_active := True, calls := calls r @ [fresh_call 0],
     m_pendingCalls := AList.update 0 (length (calls r)) (m_pendingCalls r)\<rparr>"
  define l1 where "l1 = l(c := (l c)\<lparr>io_dev := fst (send_one (serializePingPacket S (m_objectName r) d) (io_dev (l c))),
        io_codec := Some (snd (send_one (serializePingPacket S (m_objectName r) d) (io_dev (l c))))\<rparr>)"
  define p where "p = notifyAboutReply 0 v r1"
  have p: "p = r1\<lparr>m_pendingCalls := AList.delete 0 (m_pendingCalls r1), hb_active := True\<rparr>"
    using assms(3) by (simp add: p_def notifyAboutReply_def r1_def Let_def)
  have conn: "connectionToSource r = Some c" "devOpen (io_dev (l c))" "\<not> isClosing (io_dev (l c))"
    using assms(1) by (auto simp: can_send_def io_isOpen_def)
  then have send: "can_send p l1 c (snd (send_one (serializePingPacket S (m_objectName r) d) (io_dev (l c))))"
    by (simp add: can_send_def p r1_def l1_def io_isOpen_def)
  have "map_of (m_pendingCalls p) 0 = None" by (simp add: p delete_conv')
  then have again: "fst (heartbeat_timeout S (p, l1)) = None"
    using heartbeat_ping[OF send, of S] assms(3) by (simp add: p r1_def)
  have pend: "map_of (m_pendingCalls r1) 0 \<noteq> None" by (simp add: r1_def update_conv')
  have two: "heartbeat_timeout S (r1, l1) = (Some c, r1\<lparr>hb_active := False,
      m_pendingCalls := AList.delete 0 (m_pendingCalls r1)\<rparr>, l1(c := disconnect_io (l1 c)))"
    using pend conn assms(4) by (auto simp: heartbeat_timeout_def Let_def drop_connection_def r1_def l1_def)
  have "\<not> io_isOpen (disconnect_io (l1 c))" by (simp add: disconnect_io_def close_io_def io_isOpen_def)
  moreover have "io_dev (l1 c) = dev_write (fst (payload (serializePingPacket S (m_objectName r) d))) (io_dev (l c))"
    by (simp add: l1_def send_one_def case_prod_beta)
  ultimately show ?thesis
    using send again pend two
    by (simp add: one r1_def[symmetric] l1_def[symmetric] p_def[symmetric])
      (auto simp: p delete_conv' r1_def)
qed

lemma demo_full_beats:
  "map_of (m_pendingCalls demo_full) 0 = None" "hb_interval demo_full \<noteq> 0" "io_isClient (demo_links 0)"
  by (simp_all add: demo_full_def demo_replica_def new_connected_replica_def demo_links_def)

theorem heartbeat_cycle_witness:
  "let (again, r1, l1) = heartbeat_timeout le_stream (demo_full, demo_links)
   in again = None \<and> fst (heartbeat_timeout le_stream (r1, l1)) = Some 0 \<and>
      fst (heartbeat_timeout le_stream (notifyAboutReply 0 9 r1, l1)) = None"
  using heartbeat_cycle[OF demo_full_can_send demo_full_beats, of le_stream 9]
  by (auto simp: Let_def case_prod_beta)

text \<open>
  A ping that was open when the connection was lost stays open: after a reconnection the next
  timeout drops the fresh connection, on which nothing was ever asked.
\<close>

theorem stale_ping_drops_connection:
  assumes "map_of (m_pendingCalls r) 0 \<noteq> None" and "io_isClient (l c')" and "io_codec (l c') \<noteq> None"
    and "io_isOpen (l c')"
  shows "let x = setConnection S c' (lose_connection r, l);
             (again, r2, l2) = heartbeat_timeout S x
     in connectionToSource (fst x) = Some c' \<and> io_isOpen (snd x c') \<and> again = Some c' \<and>
        \<not> io_isOpen (l2 c')"
proof -
  let ?r = "(lose_connection r)\<lparr>connectionToSource := Some c'\<rparr>"
  have lost: "connectionToSource (lose_connection r) = None" "m_pendingCalls (lose_connection r) = m_pendingCalls r"
    by (simp_all add: lose_connection_def setState_def emit_event_def Let_def)
  obtain d where send: "can_send ?r l c' d" using assms(3,4) by (auto simp: can_send_def)
  have x: "setConnection S c' (lose_connection r, l) =
      (?r\<lparr>hb_active := hb_active ?r \<or> hb_interval ?r \<noteq> 0\<rparr>, snd (snd (sendCommand (codec_write
         (serializeAddObjectPacket S (m_objectName ?r) (needsDynamicInitialization ?r)) c' (?r, l)))))"
    by (simp add: setConnection_def lost requestRemoteObjectSource_def sendCommand_can_send[OF send])
  have l2: "io_isClient (snd (snd (sendCommand (codec_write f c' (?r, l)))) c')"
      "io_isOpen (snd (snd (sendCommand (codec_write f c' (?r, l)))) c')" for f
    using assms(2,4) by (simp_all add: sendCommand_can_send[OF send] io_isOpen_def)
  show ?thesis
    using assms(1) l2 by (simp add: x heartbeat_timeout_def lost Let_def drop_connection_def
        disconnect_io_def io_isOpen_def)
qed

theorem stale_ping_drops_connection_witness:
  "let r = fst (snd (heartbeat_timeout le_stream (demo_full, demo_links)));
       x = setConnection le_stream 1 (lose_connection r, demo_links)
   in connectionToSource (fst x) = Some 1 \<and> fst (heartbeat_timeout le_stream x) = Some 1"
proof -
  have p: "map_of (m_pendingCalls (fst (snd (heartbeat_timeout le_stream (demo_full, demo_links))))) 0 \<noteq> None"
    using heartbeat_ping[OF demo_full_can_send demo_full_beats(1,2), of le_stream] by (simp add: update_conv')
  show ?thesis
    using stale_ping_drops_connection[OF p, of demo_links 1 le_stream]
    by (auto simp: demo_links_def io_isOpen_def Let_def case_prod_beta)
qed

subsection \<open>Initialization\<close>

text \<open>
  A replica that never got its values and loses its connection reports itself initialized.
\<close>

theorem lost_counts_as_initialized:
  "let r = new_connected_replica name ms so po hb :: 'v replica
   in \<not> isInitialized r \<and> isInitialized (lose_connection r) \<and>
      EvInitialized \<notin> set (events (lose_connection r)) \<and> m_propertyStorage (lose_connection r) = []"
  by (simp add: Let_def new_connected_replica_def lose_connection_def setState_def emit_event_def
      isInitialized_def rstate_order)

text \<open>The value property \<open>j\<close> has after an init packet that carries \<open>v\<close> for it.\<close>

definition init_value :: "'v client_env \<Rightarrow> 'v replica \<Rightarrow> nat \<Rightarrow> 'v \<Rightarrow> 'v" where
  "init_value E r j v =
    (if m_propertyStorage r ! j = v then v
     else cdec E v (map_option mp_type (prop_of (meta_of r) (int j + m_propertyOffset r))))"

definition init_range :: "'v client_env \<Rightarrow> 'v replica \<Rightarrow> nat \<Rightarrow> 'v list \<Rightarrow> 'v list" where
  "init_range E r i vs = take i (m_propertyStorage r) @
     map (\<lambda>j. init_value E r (i + j) (vs ! j)) [0 ..< length vs] @ drop (i + length vs) (m_propertyStorage r)"

lemma init_range_Cons:
  assumes "i + length (v # vs) \<le> length (m_propertyStorage r)"
  shows "init_range E (r\<lparr>m_propertyStorage := (m_propertyStorage r)[i := init_value E r i v]\<rparr>) (Suc i) vs =
    init_range E r i (v # vs)"
proof -
  have "[0 ..< length (v # vs)] = 0 # map Suc [0 ..< length vs]"
    by (simp add: map_Suc_upt upt_conv_Cons del: upt_Suc)
  then show ?thesis
    using assms
    by (auto simp: init_range_def init_value_def meta_of_def take_Suc_conv_app_nth nth_list_update simp del: upt_Suc)
qed

lemma init_values_all:
  assumes "m_metaObject r \<noteq> []" and "i + length vs \<le> length (m_propertyStorage r)"
  shows "init_values E (int i) vs r =
    (map int (filter (\<lambda>j. m_propertyStorage r ! j \<noteq> vs ! (j - i)) [i ..< i + length vs]),
     r\<lparr>m_propertyStorage := init_range E r i vs\<rparr>)"
  using assms
proof (induction vs arbitrary: i r)
  case Nil
  then show ?case by (simp add: init_range_def)
next
  case (Cons v vs)
  let ?st = "m_propertyStorage r"
  have i: "i < length ?st" using Cons.prems by simp
  have upt: "[i ..< i + length (v # vs)] = i # [Suc i ..< Suc i + length vs]"
    using upt_conv_Cons[of i "i + length (v # vs)"] by simp
  have idx: "filter (\<lambda>j. st ! j \<noteq> (v # vs) ! (j - i)) [Suc i ..< Suc i + length vs] =
      filter (\<lambda>j. st ! j \<noteq> vs ! (j - Suc i)) [Suc i ..< Suc i + length vs]" for st
    by (rule filter_cong) (auto simp: le_iff_add)
  have same: "filter (\<lambda>j. ?st[i := w] ! j \<noteq> vs ! (j - Suc i)) [Suc i ..< Suc i + length vs] =
      filter (\<lambda>j. ?st ! j \<noteq> vs ! (j - Suc i)) [Suc i ..< Suc i + length vs]" for w
    using i by (intro filter_cong) (auto simp: nth_list_update simp del: upt_Suc)
  let ?r = "r\<lparr>m_propertyStorage := ?st[i := init_value E r i v]\<rparr>"
  have IH: "init_values E (int (Suc i)) vs ?r =
      (map int (filter (\<lambda>j. ?st ! j \<noteq> vs ! (j - Suc i)) [Suc i ..< Suc i + length vs]),
       r\<lparr>m_propertyStorage := init_range E r i (v # vs)\<rparr>)"
    using Cons.IH[of ?r "Suc i"] Cons.prems init_range_Cons[of i v vs r E] same by simp
  have suc: "int i + 1 = int (Suc i)" by simp
  show ?case
  proof (cases "?st ! i = v")
    case True
    then have "?r = r" by (auto simp: init_value_def)
    note IH' = IH[unfolded this]
    show ?thesis
      unfolding upt using True i by (simp add: getProperty_def suc IH' idx[unfolded add_Suc] del: upt_Suc of_nat_Suc)
  next
    case False
    then have "setProperty (int i) (cdec E v (map_option mp_type (prop_of (meta_of r) (int i + m_propertyOffset r)))) r = ?r"
      using i by (simp add: setProperty_def init_value_def)
    then show ?thesis
      unfolding upt using False i Cons.prems(1)
      by (simp add: getProperty_def suc IH idx[unfolded add_Suc] del: upt_Suc of_nat_Suc)
  qed
qed

text \<open>The change signal of property \<open>j\<close>, when it has one.\<close>

definition change_event :: "'v replica \<Rightarrow> nat \<Rightarrow> 'v rep_event list" where
  "change_event r j =
    (let n = notify_of (meta_of r) (int j + m_propertyOffset r)
     in if n < 0 then [] else [EvActivate n [m_propertyStorage r ! j]])"

lemma notify_changed_all:
  assumes "\<forall>j \<in> set js. j < length (m_propertyStorage r)"
  shows "foldl notify_changed r (map int js) = r\<lparr>events := events r @ concat (map (change_event r) js)\<rparr>"
  using assms
proof (induction js arbitrary: r)
  case (Cons j js)
  have one: "notify_changed r (int j) = r\<lparr>events := events r @ change_event r j\<rparr>"
    using Cons.prems by (simp add: notify_changed_def change_event_def getProperty_def emit_event_def Let_def)
  have "change_event (r\<lparr>events := es\<rparr>) = change_event r" for es
    by (rule ext) (simp add: change_event_def meta_of_def Let_def)
  then show ?case
    using Cons.IH[of "r\<lparr>events := events r @ change_event r j\<rparr>"] Cons.prems
    by (simp add: one)
qed simp

text \<open>The signals of the change to \<open>Valid\<close>.\<close>

definition becomes_valid :: "rstate \<Rightarrow> 'v rep_event list" where
  "becomes_valid s = (if s = Valid \<or> s = SignatureMismatch then [] else [EvInitialized, EvStateChanged Valid s])"

lemma setState_Valid:
  "setState Valid r = r\<lparr>m_state := (if m_state r = SignatureMismatch then SignatureMismatch else Valid),
     events := events r @ becomes_valid (m_state r)\<rparr>"
  by (cases "m_state r") (auto simp: setState_def becomes_valid_def emit_event_def rstate_order Let_def)

lemma change_event_events:
  "change_event (r\<lparr>events := es\<rparr>) = change_event r" "change_event (r\<lparr>hb_active := h\<rparr>) = change_event r"
  "change_event (r\<lparr>m_state := st\<rparr>) = change_event r"
  by (rule ext, simp add: change_event_def meta_of_def Let_def)+

lemma initialize_run:
  assumes "m_metaObject r \<noteq> []" and "length vs = length (m_propertyStorage r)" and "rfault r = None"
    and "m_state r \<noteq> SignatureMismatch"
  shows "let changed = filter (\<lambda>j. m_propertyStorage r ! j \<noteq> vs ! j) [0 ..< length vs];
             ra = r\<lparr>m_propertyStorage := map (\<lambda>j. init_value E r j (vs ! j)) [0 ..< length vs]\<rparr>
     in initialize E hb vs r = ra\<lparr>m_state := Valid,
          events := events r @ becomes_valid (m_state r) @ concat (map (change_event ra) changed) @ [EvNotified],
          hb_active := hb_active r \<or> hb \<noteq> 0\<rparr>"
proof -
  let ?ch = "filter (\<lambda>j. m_propertyStorage r ! j \<noteq> vs ! j) [0 ..< length vs]"
  define ra where "ra = r\<lparr>m_propertyStorage := map (\<lambda>j. init_value E r j (vs ! j)) [0 ..< length vs]\<rparr>"
  have iv: "init_values E 0 vs r = (map int ?ch, ra)"
    using init_values_all[OF assms(1), of 0 vs E] assms(2) by (simp add: init_range_def ra_def)
  have sv: "setState Valid ra = ra\<lparr>m_state := Valid, events := events ra @ becomes_valid (m_state r)\<rparr>"
    using assms(4) by (simp add: setState_Valid ra_def)
  define rb where "rb = ra\<lparr>m_state := Valid, events := events ra @ becomes_valid (m_state r)\<rparr>"
  have "\<forall>j \<in> set ?ch. j < length (m_propertyStorage rb)" by (simp add: rb_def ra_def)
  note n = notify_changed_all[OF this]
  have "change_event rb = change_event ra" by (simp add: rb_def change_event_events)
  then have "initialize E hb vs r = rb\<lparr>events := events rb @ concat (map (change_event ra) ?ch) @ [EvNotified],
      hb_active := hb_active rb \<or> hb \<noteq> 0\<rparr>"
    using assms(3) n by (simp add: initialize_def iv sv rb_def[symmetric] emit_event_def Let_def) (simp add: ra_def rb_def)
  then show ?thesis unfolding ra_def[symmetric] by (simp add: Let_def rb_def) (simp add: ra_def)
qed

text \<open>
  C22: An init packet with a value for each property leaves every property whose value is as it was,
  stores the decoded value of the others and then tells the world in order: \<open>initialized\<close> and the
  state change, the change signals of exactly the changed properties with their new values, and
  \<open>notified\<close>.
\<close>

theorem initialize_effect:
  assumes "m_metaObject r \<noteq> []" and "length vs = length (m_propertyStorage r)" and "rfault r = None"
    and "m_state r \<noteq> SignatureMismatch"
  shows "let r' = initialize E hb vs r;
             changed = filter (\<lambda>j. m_propertyStorage r ! j \<noteq> vs ! j) [0 ..< length vs]
     in m_state r' = Valid \<and> m_propertyStorage r' = map (\<lambda>j. init_value E r j (vs ! j)) [0 ..< length vs] \<and>
        events r' = events r @ becomes_valid (m_state r) @ concat (map (change_event r') changed) @ [EvNotified] \<and>
        rfault r' = None"
  using initialize_run[OF assms, of E hb] assms(3) by (simp add: Let_def change_event_events)

definition demo_stored :: "u32 replica" where
  "demo_stored = setProperties [5] demo_replica"

theorem initialize_effect_witness:
  "events (initialize demo_env 10 [7] demo_stored) =
     [EvInitialized, EvStateChanged Valid Default] @ change_event (initialize demo_env 10 [7] demo_stored) 0 @ [EvNotified]"
proof -
  have p: "m_metaObject demo_stored \<noteq> []" "length [7 :: u32] = length (m_propertyStorage demo_stored)"
    "rfault demo_stored = None" "m_state demo_stored = Default" "events demo_stored = []"
    "m_propertyStorage demo_stored = [5]"
    by (simp_all add: demo_stored_def demo_replica_def new_connected_replica_def setProperties_def)
  then show ?thesis
    using initialize_effect[OF p(1-3), of demo_env 10] by (simp add: becomes_valid_def Let_def)
qed

end
