(* ===== verification/ClassDef.thy ===== *)
theory ClassDef
  imports Source
begin

text \<open>
  The definition of a class as it travels to a dynamic replica: \<open>serializeDefinition\<close> with its
  enums, gadgets, signals, methods and properties (\<open>qremoteobjectpacket.cpp\<close>). Metaobjects and
  metatypes come from Qt; \<open>type_env\<close> and \<open>object_env\<close> are what the code asks of them. A result
  \<open>None\<close> is a null pointer that the code goes through.
\<close>

type_synonym moid = nat

text \<open>
  A \<open>QMetaEnum\<close>: two are the same if they have the same enclosing metaobject and names. The null one
  is \<open>None\<close> where one can occur.
\<close>

record menum =
  me_mo :: moid
  me_scope :: string
  me_name :: string
  me_enumName :: string
  me_isFlag :: bool
  me_isScoped :: bool
  me_keys :: "(string \<times> int32) list"

text \<open>A metaobject of a gadget: \<open>qm_enums\<close> is indexed by enumerator number, inherited ones first.\<close>

record qmeta =
  qm_className :: string
  qm_props :: "(string \<times> metatype) list"
  qm_enumOffset :: nat
  qm_enums :: "menum list"

text \<open>
  \<open>te_seq\<close> and \<open>te_assoc\<close> give the value type of the containers that convert to a sequential or
  associative iterable, \<open>te_model\<close> says that a registered type is an item model, and the two
  orders are those in which a \<open>QSet\<close> is iterated.
\<close>

record type_env =
  te_mo :: "moid \<Rightarrow> qmeta"
  te_metaObject :: "metatype \<Rightarrow> moid option"
  te_qt :: moid
  te_indexOfEnum :: "moid \<Rightarrow> string \<Rightarrow> menum option"
  te_size :: "string \<Rightarrow> u32"
  te_seq :: "metatype \<Rightarrow> metatype option"
  te_assoc :: "metatype \<Rightarrow> metatype option"
  te_model :: "string \<Rightarrow> bool"
  te_enumOrder :: "menum option list \<Rightarrow> menum option list"
  te_metaOrder :: "moid list \<Rightarrow> moid list"

text \<open>A property of an object, with its notify signal's signature.\<close>

record qprop =
  qp_name :: string
  qp_type :: metatype
  qp_notify :: "string option"

record object_env =
  ob_prop :: "nat \<Rightarrow> int \<Rightarrow> qprop"
  ob_enum :: "nat \<Rightarrow> int \<Rightarrow> menum"
  ob_inherits :: "nat \<Rightarrow> string \<Rightarrow> bool"

subsection \<open>Types\<close>

definition isSequentialGadgetType :: "type_env \<Rightarrow> metatype \<Rightarrow> bool" where
  "isSequentialGadgetType E t = (case te_seq E t of None \<Rightarrow> False | Some v \<Rightarrow> mt_isGadget v)"

definition isAssociativeGadgetType :: "type_env \<Rightarrow> metatype \<Rightarrow> bool" where
  "isAssociativeGadgetType E t = (case te_assoc E t of None \<Rightarrow> False | Some v \<Rightarrow> mt_isGadget v)"

datatype object_type = CLASS | MODEL | GADGET

definition getObjectType :: "type_env \<Rightarrow> string \<Rightarrow> object_type" where
  "getObjectType E typeName =
    (if typeName = ''QAbstractItemModelAdapter'' then MODEL
     else if te_model E typeName then MODEL else CLASS)"

text \<open>
  \<open>MyPOD::Position\<close> and \<open>QFlags<MyPOD::Position>\<close> give \<open>Position\<close>. The last lookup takes a C string,
  which still has the closing bracket of the flags type.
\<close>

fun after_last_colon :: "string \<Rightarrow> string" where
  "after_last_colon [] = []"
| "after_last_colon (c # cs) =
     (if c = CHR '':'' \<and> CHR '':'' \<notin> set cs then cs
      else if CHR '':'' \<in> set cs then after_last_colon cs else c # cs)"

definition resolveEnumName :: "metatype \<Rightarrow> string \<times> bool" where
  "resolveEnumName t =
    (let isFlag = (take 7 (mt_name t) = ''QFlags<'');
         n = after_last_colon (mt_name t)
     in (if isFlag then butlast n else n, isFlag))"

definition metaEnumFromType :: "type_env \<Rightarrow> metatype \<Rightarrow> menum option" where
  "metaEnumFromType E t =
    (if \<not> mt_isEnum t then None
     else case te_metaObject E t of
       None \<Rightarrow> None
     | Some m \<Rightarrow>
        let (n, isFlag) = resolveEnumName t; mo = te_mo E m
        in case (if isFlag
                 then List.find (\<lambda>e. me_isFlag e \<and> me_enumName e = n) (drop (qm_enumOffset mo) (qm_enums mo))
                 else None) of
             Some e \<Rightarrow> Some e
           | None \<Rightarrow> te_indexOfEnum E m (after_last_colon (mt_name t)))"

text \<open>The sets of metaobjects and enums that have been found, as lists without duplicates.\<close>

type_synonym found = "moid list \<times> menum option list"

definition checkEnum :: "type_env \<Rightarrow> metatype \<Rightarrow> found \<Rightarrow> bool \<times> found" where
  "checkEnum E t f =
    (if mt_isEnum t then (True, fst f, List.insert (metaEnumFromType E t) (snd f)) else (False, f))"

text \<open>
  \<open>recurseMetaobject\<close> collects a gadget's metaobject and those of its gadget properties. Every call
  that goes on adds a metaobject, so the number of metaobjects bounds the depth.
\<close>

fun recurseMetaobject :: "type_env \<Rightarrow> nat \<Rightarrow> moid option \<Rightarrow> found \<Rightarrow> found" where
  "recurseMetaobject E 0 mo f = f"
| "recurseMetaobject E (Suc n) None f = f"
| "recurseMetaobject E (Suc n) (Some m) f =
     (if m \<in> set (fst f) then f
      else fold (\<lambda>p f.
             let (isEnum, f1) = checkEnum E (snd p) f
             in if isEnum then f1
                else if mt_isGadget (snd p) then recurseMetaobject E n (te_metaObject E (snd p)) f1
                else f1)
           (qm_props (te_mo E m)) (m # fst f, snd f))"

subsection \<open>The gadgets of a source\<close>

text \<open>
  One parameter or property type. \<open>sent\<close> are the names of the types the client has been sent, a
  part of the source's state. A gadget without a metaobject is a null pointer.
\<close>

definition search_type ::
    "type_env \<Rightarrow> nat \<Rightarrow> metatype \<Rightarrow> (found \<times> string list) option \<Rightarrow> (found \<times> string list) option" where
  "search_type E n t x =
    (case x of None \<Rightarrow> None
     | Some (f, sent) \<Rightarrow>
        let (isEnum, f1) = checkEnum E t f
        in if isEnum then Some (f1, sent)
           else if \<not> mt_isGadget t then Some (f1, sent)
           else case te_metaObject E t of
                  None \<Rightarrow> None
                | Some m \<Rightarrow>
                   let c = qm_className (te_mo E m)
                   in if c \<in> set sent then Some (f1, sent)
                      else Some (recurseMetaobject E n (Some m) f1, c # sent))"

fun forest_at :: "src_forest \<Rightarrow> int \<Rightarrow> src_tree option" where
  "forest_at NoChildren i = None"
| "forest_at (Child p t cs) i = (if p = i then Some t else forest_at cs i)"

fun tree_object :: "src_tree \<Rightarrow> nat option" where
  "tree_object (SrcTree a ob ad cs) = ob"

definition source_prop :: "object_env \<Rightarrow> api \<Rightarrow> nat option \<Rightarrow> nat option \<Rightarrow> int \<Rightarrow> qprop option" where
  "source_prop B a ob ad i =
    (case (if isAdapterProperty a i then ad else ob) of
       None \<Rightarrow> None
     | Some x \<Rightarrow> Some (ob_prop B x (sourcePropertyIndex a i)))"

text \<open>
  \<open>recurseForGadgets\<close>: the types of the parameters of the signals and methods, and of the
  properties, in the table; behind an object property also those of the child. The property
  loop carries the child trees with it.
\<close>

definition params_search ::
    "type_env \<Rightarrow> nat \<Rightarrow> (int \<Rightarrow> metatype list) \<Rightarrow> nat \<Rightarrow> (found \<times> string list) option \<Rightarrow>
     (found \<times> string list) option" where
  "params_search E n params count x = fold (\<lambda>i. fold (search_type E n) (params (int i))) [0 ..< count] x"

fun recurseForGadgets ::
    "type_env \<Rightarrow> object_env \<Rightarrow> nat \<Rightarrow> src_tree \<Rightarrow> (found \<times> string list) option \<Rightarrow> (found \<times> string list) option"
  and recurse_child ::
    "type_env \<Rightarrow> object_env \<Rightarrow> nat \<Rightarrow> src_forest \<Rightarrow> int \<Rightarrow> (found \<times> string list) option \<Rightarrow> (found \<times> string list) option"
where
  "recurseForGadgets E B n (SrcTree a ob ad cs) x =
     fold (\<lambda>i x.
         case source_prop B a ob ad (int i) of
           None \<Rightarrow> None
         | Some p \<Rightarrow>
            (case x of None \<Rightarrow> None
             | Some (f, sent) \<Rightarrow>
                let (isEnum, f1) = checkEnum E (qp_type p) f
                in if isEnum then Some (f1, sent)
                   else search_type E n (qp_type p)
                     (if mt_toQObject (qp_type p) \<and> getObjectType E (mt_name (qp_type p)) = CLASS
                      then recurse_child E B n cs (int i) (Some (f1, sent)) else Some (f1, sent))))
       [0 ..< propertyCount a]
       (params_search E n (methodParams a) (methodCount a)
         (params_search E n (signalParams a) (signalCount a) x))"
| "recurse_child E B n NoChildren i x = None"
| "recurse_child E B n (Child p t cs) i x =
     (if p = i then (if tree_object t = None then x else recurseForGadgets E B n t x)
      else recurse_child E B n cs i x)"

fun checkForEnumsInSource :: "object_env \<Rightarrow> string \<Rightarrow> src_tree \<Rightarrow> bool"
  and check_children :: "object_env \<Rightarrow> string \<Rightarrow> src_forest \<Rightarrow> bool"
where
  "checkForEnumsInSource B c (SrcTree a ob ad cs) =
     ((case ob of None \<Rightarrow> False | Some x \<Rightarrow> ob_inherits B x c) \<or> check_children B c cs)"
| "check_children B c NoChildren = False"
| "check_children B c (Child p t cs) =
     ((tree_object t \<noteq> None \<and> checkForEnumsInSource B c t) \<or> check_children B c cs)"

subsection \<open>Writing\<close>

text \<open>A C string is written with its terminating zero.\<close>

definition put_cstr :: "'v qstream \<Rightarrow> string \<Rightarrow> bytes" where
  "put_cstr S s = put_bytes S (latin1 s @ [0])"

definition put_qba :: "'v qstream \<Rightarrow> string \<Rightarrow> bytes" where
  "put_qba S s = put_bytes S (latin1 s)"

definition put_names :: "'v qstream \<Rightarrow> string list \<Rightarrow> bytes" where
  "put_names S ns = put_list S (put_qba S) ns"

definition serializeEnum :: "'v qstream \<Rightarrow> type_env \<Rightarrow> menum \<Rightarrow> bytes" where
  "serializeEnum S E e =
    put_qba S (me_name e) @ put_bool S (me_isFlag e) @ put_bool S (me_isScoped e) @
    put_u32 S (te_size E (me_scope e @ ''::'' @ me_name e)) @
    put_list S (\<lambda>kv. put_qba S (fst kv) @ put_u32 S (snd kv)) (me_keys e)"

definition own_enums :: "qmeta \<Rightarrow> menum list" where
  "own_enums mo = drop (qm_enumOffset mo) (qm_enums mo)"

text \<open>
  \<open>serializeGadgets\<close> first sorts the enums out: those of a gadget or of the source's own classes go
  with them, those of Qt are only named, and for any other the whole metaobject is sent, without
  properties. The class name of a null metaobject is a null pointer.
\<close>

fun sort_enums ::
    "type_env \<Rightarrow> object_env \<Rightarrow> moid list \<Rightarrow> src_tree \<Rightarrow> menum option list \<Rightarrow>
     menum list \<times> moid list \<Rightarrow> (menum list \<times> moid list) option" where
  "sort_enums E B gadgets root [] qd = Some qd"
| "sort_enums E B gadgets root (None # es) qd = None"
| "sort_enums E B gadgets root (Some en # es) qd =
     (if me_mo en \<in> set gadgets then sort_enums E B gadgets root es qd
      else if checkForEnumsInSource B (qm_className (te_mo E (me_mo en))) root
      then sort_enums E B gadgets root es qd
      else if me_mo en = te_qt E then sort_enums E B gadgets root es (List.insert en (fst qd), snd qd)
      else sort_enums E B gadgets root es (fst qd, List.insert (me_mo en) (snd qd)))"

definition put_gadget :: "'v qstream \<Rightarrow> type_env \<Rightarrow> moid list \<Rightarrow> moid \<Rightarrow> bytes" where
  "put_gadget S E gadgets m =
    (let mo = te_mo E m
     in put_qba S (qm_className mo) @
        put_list S (\<lambda>p. put_qba S (fst p) @ put_qba S (mt_name (snd p)))
          (if m \<in> set gadgets then qm_props mo else []) @
        put_list S (serializeEnum S E) (own_enums mo))"

definition serializeGadgets ::
    "'v qstream \<Rightarrow> type_env \<Rightarrow> object_env \<Rightarrow> found \<Rightarrow> src_tree \<Rightarrow> bytes option" where
  "serializeGadgets S E B f root =
    (case sort_enums E B (fst f) root (te_enumOrder E (snd f)) ([], []) of
       None \<Rightarrow> None
     | Some (qtEnums, dyn) \<Rightarrow>
        Some (put_list S (\<lambda>e. put_qba S (me_scope e @ ''::'' @ me_name e)) qtEnums @
              put_list S (put_gadget S E (fst f)) (te_metaOrder E (fst f @ filter (\<lambda>m. m \<notin> set (fst f)) dyn))))"

text \<open>\<open>QByteArray::replace\<close>, every occurrence from the left.\<close>

fun replace_all :: "string \<Rightarrow> string \<Rightarrow> nat \<Rightarrow> string \<Rightarrow> string" where
  "replace_all old new skip [] = []"
| "replace_all old new (Suc k) (c # cs) = replace_all old new k cs"
| "replace_all old new 0 (c # cs) =
     (if old \<noteq> [] \<and> take (length old) (c # cs) = old
      then new @ replace_all old new (length old - 1) cs
      else c # replace_all old new 0 cs)"

definition replaced :: "string \<Rightarrow> string \<Rightarrow> string \<Rightarrow> string" where
  "replaced old new s = replace_all old new 0 s"

definition container_names :: "type_env \<Rightarrow> metatype list \<Rightarrow> string \<Rightarrow> string" where
  "container_names E ts sig =
    fold (\<lambda>t sig.
        if isSequentialGadgetType E t then replaced (mt_name t) ''QtROSequentialContainer'' sig
        else if isAssociativeGadgetType E t then replaced (mt_name t) ''QtROAssociativeContainer'' sig
        else sig) ts sig"

definition wire_signature :: "type_env \<Rightarrow> api \<Rightarrow> metatype list \<Rightarrow> string \<Rightarrow> string" where
  "wire_signature E a ts sig = container_names E ts (replaced (api_className a) (api_typeName a) sig)"

definition wire_propType :: "type_env \<Rightarrow> metatype \<Rightarrow> string" where
  "wire_propType E t =
    (if mt_toQObject t
     then (if getObjectType E (mt_name t) = CLASS then ''QObject*'' else ''QAbstractItemModel*'')
     else if isSequentialGadgetType E t then ''QtROSequentialContainer''
     else if isAssociativeGadgetType E t then ''QtROAssociativeContainer''
     else mt_name t)"

definition put_signal_def :: "'v qstream \<Rightarrow> type_env \<Rightarrow> api \<Rightarrow> nat \<Rightarrow> bytes" where
  "put_signal_def S E a i =
    put_qba S (wire_signature E a (signalParams a (int i)) (signalSignature a (int i))) @
    put_names S (signalNames a (int i))"

definition put_method_def :: "'v qstream \<Rightarrow> type_env \<Rightarrow> api \<Rightarrow> nat \<Rightarrow> bytes" where
  "put_method_def S E a i =
    put_qba S (wire_signature E a (methodParams a (int i)) (methodSignature a (int i))) @
    put_qba S (replaced (api_className a) (api_typeName a) (methodTypeName a (int i))) @
    put_names S (methodNames a (int i))"

definition put_prop_def :: "'v qstream \<Rightarrow> type_env \<Rightarrow> api \<Rightarrow> qprop \<Rightarrow> bytes" where
  "put_prop_def S E a p =
    put_cstr S (qp_name p) @ put_cstr S (wire_propType E (qp_type p)) @
    put_qba S (case qp_notify p of None \<Rightarrow> [] | Some sig \<Rightarrow> replaced (api_className a) (api_typeName a) sig)"

fun those_props :: "object_env \<Rightarrow> api \<Rightarrow> nat option \<Rightarrow> nat option \<Rightarrow> nat list \<Rightarrow> qprop list option" where
  "those_props B a ob ad [] = Some []"
| "those_props B a ob ad (i # is) =
     (case source_prop B a ob ad (int i) of
        None \<Rightarrow> None
      | Some p \<Rightarrow> map_option ((#) p) (those_props B a ob ad is))"

text \<open>
  \<open>serializeDefinition\<close>. \<open>root\<close> is the tree the source belongs to; the second component of the
  result are the types sent so far.
\<close>

definition serializeDefinition ::
    "'v qstream \<Rightarrow> type_env \<Rightarrow> object_env \<Rightarrow> nat \<Rightarrow> src_tree \<Rightarrow> src_tree \<Rightarrow> string list \<Rightarrow>
     (bytes \<times> string list) option" where
  "serializeDefinition S E B n root t sent =
    (case t of SrcTree a ob ad cs \<Rightarrow>
      (case ob of
         None \<Rightarrow> None
       | Some x \<Rightarrow>
          (case recurseForGadgets E B n t (Some (([], []), sent)) of
             None \<Rightarrow> None
           | Some (f, sent') \<Rightarrow>
              (case (serializeGadgets S E B f root, those_props B a ob ad [0 ..< propertyCount a]) of
                 (Some g, Some ps) \<Rightarrow>
                   Some (put_str S (api_typeName a) @
                         put_list S (\<lambda>i. serializeEnum S E (ob_enum B x (sourceEnumIndex a (int i)))) [0 ..< nat (enumCount a)] @
                         g @
                         put_list S (put_signal_def S E a) [0 ..< signalCount a] @
                         put_list S (put_method_def S E a) [0 ..< methodCount a] @
                         put_list S (put_prop_def S E a) ps, sent')
               | _ \<Rightarrow> None))))"

end
