(* ===== verification/DynType.thy ===== *)
theory DynType
  imports ClassDef "HOL-Library.AList"
begin

text \<open>
  Reading the definition of a class and making it known (\<open>QRemoteObjectMetaObjectManager\<close> and the
  type registry in \<open>qremoteobjectnode.cpp\<close>). A metatype id stands for the name it is registered
  under; \<open>registered\<close> are the names \<open>QMetaType::fromName\<close> finds. \<open>s_managedTypes\<close> and
  \<open>s_trackedConnections\<close> are the global tables of the gadgets made here and the connections that
  use them. A \<open>QHash\<close> is a list in the order of its iteration.
\<close>

subsection \<open>What a definition holds\<close>

record enum_data =
  ed_name :: bytes
  ed_isFlag :: bool
  ed_isScoped :: bool
  ed_size :: u32
  ed_values :: "(bytes \<times> int32) list"

record gadget_data =
  gd_properties :: "(bytes \<times> bytes) list"
  gd_enums :: "enum_data list"

type_synonym gadgets = "(bytes \<times> gadget_data) list"

text \<open>A class as \<open>QMetaObjectBuilder\<close> holds it: signals come before methods in its numbering.\<close>

record dyn_class =
  dc_className :: bytes
  dc_enums :: "enum_data list"
  dc_signals :: "(bytes \<times> bytes list) list"
  dc_methods :: "(bytes \<times> bool \<times> bytes list) list"
  dc_props :: "(bytes \<times> bytes \<times> nat option) list"

record gadget_entry =
  ge_properties :: "(bytes \<times> bytes) list"
  ge_types :: "bytes option list"
  ge_enums :: "enum_data list"
  ge_enumTypes :: "bytes list"

record type_state =
  registered :: "bytes list"
  s_managedTypes :: "(bytes \<times> gadget_entry) list"
  s_trackedConnections :: "(bytes \<times> conn list) list"
  dynamicTypes :: "(string \<times> dyn_class) list"
  staticTypes :: "(string \<times> metaobject list) list"

subsection \<open>The registry of types\<close>

definition register_name :: "bytes \<Rightarrow> type_state \<Rightarrow> type_state" where
  "register_name n ts = ts\<lparr>registered := List.insert n (registered ts)\<rparr>"

definition tracking :: "bytes \<Rightarrow> type_state \<Rightarrow> conn list" where
  "tracking n ts = (case map_of (s_trackedConnections ts) n of None \<Rightarrow> [] | Some cs \<Rightarrow> cs)"

definition trackConnection :: "conn \<Rightarrow> bytes \<Rightarrow> type_state \<Rightarrow> type_state" where
  "trackConnection c n ts =
    (if c \<in> set (tracking n ts) then ts
     else ts\<lparr>s_trackedConnections := AList.update n (c # tracking n ts) (s_trackedConnections ts)\<rparr>)"

text \<open>
  A connection is destroyed: \<open>unregisterIfNotUsed\<close> for each type it is tracked for. A type that is
  tracked but was not made here has an empty entry, and nothing is unregistered.
\<close>

definition unregisterMetaTypes :: "bytes \<Rightarrow> type_state \<Rightarrow> type_state" where
  "unregisterMetaTypes n ts =
    (case map_of (s_managedTypes ts) n of
       None \<Rightarrow> ts
     | Some e \<Rightarrow> ts\<lparr>registered := filter (\<lambda>m. m \<noteq> n \<and> m \<notin> set (ge_enumTypes e)) (registered ts)\<rparr>)"

definition unregisterIfNotUsed :: "conn \<Rightarrow> bytes \<Rightarrow> type_state \<Rightarrow> type_state" where
  "unregisterIfNotUsed c n ts =
    (let cs = removeAll c (tracking n ts)
     in if cs = []
        then (unregisterMetaTypes n ts)\<lparr>s_trackedConnections := AList.delete n (s_trackedConnections ts),
               s_managedTypes := AList.delete n (s_managedTypes ts)\<rparr>
        else ts\<lparr>s_trackedConnections := AList.update n cs (s_trackedConnections ts)\<rparr>)"

definition connection_destroyed :: "conn \<Rightarrow> type_state \<Rightarrow> type_state" where
  "connection_destroyed c ts =
    fold (unregisterIfNotUsed c) (map fst (filter (\<lambda>e. c \<in> set (snd e)) (s_trackedConnections ts))) ts"

text \<open>
  \<open>registerEnum\<close>: nothing for a known name, otherwise the size the enum gets.
\<close>

definition registerEnum :: "bytes \<Rightarrow> u32 \<Rightarrow> type_state \<Rightarrow> u32 option" where
  "registerEnum n sz ts =
    (if n \<in> set (registered ts) then None
     else Some (if sz = 1 \<or> sz = 2 \<or> sz = 4 then sz else 4))"

definition scoped_name :: "bytes \<Rightarrow> bytes \<Rightarrow> bytes" where
  "scoped_name c n = c @ latin1 ''::'' @ n"

text \<open>
  \<open>registerGadgets\<close> takes a gadget out of the table and registers it, the gadgets of its properties
  first. The table shrinks at each call, so its size bounds the depth.
\<close>

definition take_gadget :: "bytes \<Rightarrow> gadgets \<Rightarrow> gadget_data \<times> gadgets" where
  "take_gadget n g =
    ((case map_of g n of None \<Rightarrow> \<lparr>gd_properties = [], gd_enums = []\<rparr> | Some d \<Rightarrow> d), AList.delete n g)"

definition finish_gadget ::
    "conn \<Rightarrow> bytes \<Rightarrow> gadget_data \<Rightarrow> bytes option list \<Rightarrow> type_state \<Rightarrow> type_state" where
  "finish_gadget c n d types ts =
    (let enums = filter (\<lambda>m. registerEnum m 4 ts \<noteq> None) (map (\<lambda>e. scoped_name n (ed_name e)) (gd_enums d));
         ts1 = register_name n (fold register_name enums ts);
         ts2 = trackConnection c n ts1
     in ts2\<lparr>s_managedTypes := AList.update n \<lparr>ge_properties = gd_properties d, ge_types = types,
              ge_enums = gd_enums d, ge_enumTypes = enums\<rparr> (s_managedTypes ts2)\<rparr>)"

fun registerGadgets ::
    "conn \<Rightarrow> nat \<Rightarrow> bytes \<Rightarrow> gadgets \<times> type_state \<Rightarrow> gadgets \<times> type_state" where
  "registerGadgets c 0 n x = x"
| "registerGadgets c (Suc fuel) n (g, ts) =
     (let (d, g1) = take_gadget n g
      in if n \<in> set (registered ts) then (g1, trackConnection c n ts)
         else
           let (types, g2, ts2) =
                 fold (\<lambda>p (types, g, ts).
                     let (g', ts') = (if snd p \<notin> set (registered ts) \<and> snd p \<in> fst ` set g
                                      then registerGadgets c fuel (snd p) (g, ts) else (g, ts))
                     in (types @ [if snd p \<in> set (registered ts') then Some (snd p) else None], g', ts'))
                   (gd_properties d) ([], g1, ts)
           in (g2, finish_gadget c n d types ts2))"

fun registerAll :: "conn \<Rightarrow> nat \<Rightarrow> gadgets \<times> type_state \<Rightarrow> gadgets \<times> type_state" where
  "registerAll c 0 x = x"
| "registerAll c (Suc fuel) (g, ts) =
     (case g of [] \<Rightarrow> (g, ts)
      | e # _ \<Rightarrow> registerAll c fuel (registerGadgets c (length g) (fst e) (g, ts)))"

definition registerAllGadgets :: "conn \<Rightarrow> gadgets \<Rightarrow> type_state \<Rightarrow> type_state" where
  "registerAllGadgets c g ts = snd (registerAll c (length g) (g, ts))"

subsection \<open>Reading\<close>

definition get_pair :: "(bytes \<Rightarrow> 'a \<times> bytes) \<Rightarrow> (bytes \<Rightarrow> 'b \<times> bytes) \<Rightarrow> bytes \<Rightarrow> ('a \<times> 'b) \<times> bytes" where
  "get_pair g h i = (let (x, i1) = g i; (y, i2) = h i1 in ((x, y), i2))"

definition deserializeEnum :: "'v qstream \<Rightarrow> bytes \<Rightarrow> enum_data \<times> bytes" where
  "deserializeEnum S i =
    (let (n, i1) = get_bytes S i; (f, i2) = get_bool S i1; (sc, i3) = get_bool S i2;
         (sz, i4) = get_u32 S i3; (vs, i5) = get_list S (get_pair (get_bytes S) (get_u32 S)) i4
     in (\<lparr>ed_name = n, ed_isFlag = f, ed_isScoped = sc, ed_size = sz, ed_values = vs\<rparr>, i5))"

definition get_gadget :: "'v qstream \<Rightarrow> bytes \<Rightarrow> (bytes \<times> gadget_data) \<times> bytes" where
  "get_gadget S i =
    (let (t, i1) = get_bytes S i; (ps, i2) = get_list S (get_pair (get_bytes S) (get_bytes S)) i1;
         (es, i3) = get_list S (deserializeEnum S) i2
     in ((t, \<lparr>gd_properties = ps, gd_enums = es\<rparr>), i3))"

text \<open>A gadget that is named twice gets the members of both.\<close>

definition add_gadget :: "bytes \<times> gadget_data \<Rightarrow> gadgets \<Rightarrow> gadgets" where
  "add_gadget nd g =
    (case map_of g (fst nd) of
       None \<Rightarrow> g @ [nd]
     | Some d \<Rightarrow> AList.update (fst nd) \<lparr>gd_properties = gd_properties d @ gd_properties (snd nd),
                    gd_enums = gd_enums d @ gd_enums (snd nd)\<rparr> g)"

text \<open>\<open>H\<close> is the order in which the hash of gadgets is iterated.\<close>

definition parseGadgets ::
    "'v qstream \<Rightarrow> (gadgets \<Rightarrow> gadgets) \<Rightarrow> conn \<Rightarrow> bytes \<times> type_state \<Rightarrow> bytes \<times> type_state" where
  "parseGadgets S H c x =
    (let (i, ts) = x;
         (names, i1) = get_list S (get_bytes S) i;
         ts1 = fold register_name names ts;
         (gs, i2) = get_list S (get_gadget S) i1
     in if gs = [] then (i2, ts1)
        else (i2, registerAllGadgets c (H (fold add_gadget gs [])) ts1))"

definition get_signal_def :: "'v qstream \<Rightarrow> bytes \<Rightarrow> (bytes \<times> bytes list) \<times> bytes" where
  "get_signal_def S = get_pair (get_bytes S) (get_list S (get_bytes S))"

definition get_method_def :: "'v qstream \<Rightarrow> bytes \<Rightarrow> (bytes \<times> bytes \<times> bytes list) \<times> bytes" where
  "get_method_def S = get_pair (get_bytes S) (get_pair (get_bytes S) (get_list S (get_bytes S)))"

definition get_prop_def :: "'v qstream \<Rightarrow> bytes \<Rightarrow> (bytes \<times> bytes \<times> bytes) \<times> bytes" where
  "get_prop_def S = get_pair (get_bytes S) (get_pair (get_bytes S) (get_bytes S))"

subsection \<open>Building the class\<close>

definition is_void :: "bytes \<Rightarrow> bool" where
  "is_void t \<longleftrightarrow> t = [] \<or> t = latin1 ''void''"

definition build_method :: "bytes \<times> bytes \<times> bytes list \<Rightarrow> bytes \<times> bool \<times> bytes list" where
  "build_method m = (fst m, \<not> is_void (fst (snd m)), snd (snd m))"

fun after_scope :: "bytes \<Rightarrow> bytes option" where
  "after_scope (a # b # cs) = (if a = 58 \<and> b = 58 then Some cs else after_scope (b # cs))"
| "after_scope _ = None"

text \<open>The type of a property: an enum of the class gets the name it is registered under.\<close>

definition build_type :: "(bytes \<times> bytes) list \<Rightarrow> bytes \<Rightarrow> bytes" where
  "build_type classEnums t =
    (case after_scope (butlast t) of
       None \<Rightarrow> t
     | Some n \<Rightarrow> (case map_of classEnums n of None \<Rightarrow> t | Some r \<Rightarrow> r @ [0]))"

fun index_of :: "bytes \<Rightarrow> (bytes \<times> 'b) list \<Rightarrow> nat option" where
  "index_of n [] = None"
| "index_of n (s # ss) = (if fst s = n then Some 0 else map_option Suc (index_of n ss))"

definition build_prop ::
    "(bytes \<times> bytes) list \<Rightarrow> (bytes \<times> bytes list) list \<Rightarrow> bytes \<times> bytes \<times> bytes \<Rightarrow> bytes \<times> bytes \<times> nat option" where
  "build_prop classEnums sigs p =
    (fst p, build_type classEnums (fst (snd p)),
     if snd (snd p) = [] then None else index_of (snd (snd p)) sigs)"

definition class_enums :: "bytes \<Rightarrow> enum_data list \<Rightarrow> (bytes \<times> bytes) list" where
  "class_enums c es = rev (map (\<lambda>e. (ed_name e, scoped_name c (ed_name e))) es)"

definition register_class_enum :: "bytes \<Rightarrow> enum_data \<Rightarrow> type_state \<Rightarrow> type_state" where
  "register_class_enum c e ts =
    (case registerEnum (scoped_name c (ed_name e)) (ed_size e) ts of
       None \<Rightarrow> ts | Some _ \<Rightarrow> register_name (scoped_name c (ed_name e)) ts)"

definition addDynamicType ::
    "'v qstream \<Rightarrow> (gadgets \<Rightarrow> gadgets) \<Rightarrow> conn \<Rightarrow> bytes \<times> type_state \<Rightarrow> dyn_class \<times> bytes \<times> type_state" where
  "addDynamicType S H c x =
    (let (i, ts) = x;
         (typeString, i1) = get_str S i;
         t = latin1 typeString;
         (enums, i2) = get_list S (deserializeEnum S) i1;
         ts1 = fold (register_class_enum t) enums ts;
         (i3, ts2) = parseGadgets S H c (i2, ts1);
         (sigs, i4) = get_list S (get_signal_def S) i3;
         (ms, i5) = get_list S (get_method_def S) i4;
         (ps, i6) = get_list S (get_prop_def S) i5;
         cl = \<lparr>dc_className = t, dc_enums = enums, dc_signals = sigs, dc_methods = map build_method ms,
               dc_props = map (build_prop (class_enums t enums) sigs) ps\<rparr>
     in (cl, i6, ts2\<lparr>dynamicTypes := AList.update typeString cl (dynamicTypes ts2)\<rparr>))"

text \<open>
  The static classes of templated replicas. The name is looked up before \<open>Replica\<close> is cut off, and
  kept without it.
\<close>

definition ends_with :: "string \<Rightarrow> string \<Rightarrow> bool" where
  "ends_with suf s \<longleftrightarrow> length suf \<le> length s \<and> drop (length s - length suf) s = suf"

definition addFromMetaObject :: "metaobject list \<Rightarrow> type_state \<Rightarrow> type_state" where
  "addFromMetaObject meta ts =
    (case meta of
       [] \<Rightarrow> ts
     | mo # _ \<Rightarrow>
        let className = mo_className mo
        in if \<not> ends_with ''Replica'' className then ts
           else if className = ''QRemoteObjectDynamicReplica'' \<or> className \<in> fst ` set (staticTypes ts) then ts
           else ts\<lparr>staticTypes := AList.update (take (length className - 7) className) meta (staticTypes ts)\<rparr>)"

text \<open>
  \<open>metaObjectForType\<close>: a static class before a dynamic one, and null for an unknown name. \<open>mk\<close> is the
  metaobject that Qt's builder makes of a class.
\<close>

definition metaObjectForType :: "(dyn_class \<Rightarrow> metaobject) \<Rightarrow> metaobject list \<Rightarrow> string \<Rightarrow> type_state \<Rightarrow> metaobject list" where
  "metaObjectForType mk super t ts =
    (case map_of (staticTypes ts) t of
       Some m \<Rightarrow> m
     | None \<Rightarrow> (case map_of (dynamicTypes ts) t of Some c \<Rightarrow> mk c # super | None \<Rightarrow> []))"

end
