(* ===== verification/DefProps.thy ===== *)
theory DefProps
  imports DynType LittleEndian ApiProps
begin

text \<open>
  Class definitions from end to end: what \<open>serializeDefinition\<close> writes is what \<open>addDynamicType\<close>
  builds; the registry of gadget types; and where the two ends disagree.
\<close>

subsection \<open>Lists that are read into another type\<close>

lemma get_elems_as:
  assumes "\<And>x r. x \<in> set xs \<Longrightarrow> g (p x @ r) = (f x, r)"
  shows "get_elems g (length xs) (put_elems p xs @ r) = (map f xs, r)"
  using assms by (induction xs) auto

context qdata_stream
begin

lemma get_list_as:
  assumes "list_fits xs" and "\<And>x r. x \<in> set xs \<Longrightarrow> g (p x @ r) = (f x, r)"
  shows "get_list S g (put_list S p xs @ r) = (map f xs, r)"
  using assms get_elems_as[of xs g p f r]
  by (simp add: put_list_def get_list_def u32_rt list_fits_def unat_of_nat_u32)

lemma qba_rt: "bytes_fit (latin1 s) \<Longrightarrow> get_bytes S (put_qba S s @ r) = (latin1 s, r)"
  by (simp add: put_qba_def bytes_rt)

lemma names_rt:
  "list_fits ns \<Longrightarrow> \<forall>n \<in> set ns. bytes_fit (latin1 n) \<Longrightarrow>
     get_list S (get_bytes S) (put_names S ns @ r) = (map latin1 ns, r)"
  unfolding put_names_def by (rule get_list_as) (auto simp: qba_rt)

end

subsection \<open>What the receiver should see\<close>

definition enum_content :: "type_env \<Rightarrow> menum \<Rightarrow> enum_data" where
  "enum_content E e =
    \<lparr>ed_name = latin1 (me_name e), ed_isFlag = me_isFlag e, ed_isScoped = me_isScoped e,
     ed_size = te_size E (me_scope e @ ''::'' @ me_name e),
     ed_values = map (\<lambda>kv. (latin1 (fst kv), snd kv)) (me_keys e)\<rparr>"

definition name_fits :: "string \<Rightarrow> bool" where
  "name_fits s \<longleftrightarrow> length s < 2 ^ 32 - 2"

definition enum_fits :: "menum \<Rightarrow> bool" where
  "enum_fits e \<longleftrightarrow> name_fits (me_name e) \<and> list_fits (me_keys e) \<and> (\<forall>kv \<in> set (me_keys e). name_fits (fst kv))"

definition gadget_content :: "type_env \<Rightarrow> moid list \<Rightarrow> moid \<Rightarrow> bytes \<times> gadget_data" where
  "gadget_content E gadgets m =
    (latin1 (qm_className (te_mo E m)),
     \<lparr>gd_properties = (if m \<in> set gadgets
        then map (\<lambda>p. (latin1 (fst p), latin1 (mt_name (snd p)))) (qm_props (te_mo E m)) else []),
      gd_enums = map (enum_content E) (own_enums (te_mo E m))\<rparr>)"

definition gadget_fits :: "type_env \<Rightarrow> moid \<Rightarrow> bool" where
  "gadget_fits E m \<longleftrightarrow> name_fits (qm_className (te_mo E m)) \<and> list_fits (qm_props (te_mo E m)) \<and>
     (\<forall>p \<in> set (qm_props (te_mo E m)). name_fits (fst p) \<and> name_fits (mt_name (snd p))) \<and>
     list_fits (own_enums (te_mo E m)) \<and> (\<forall>e \<in> set (own_enums (te_mo E m)). enum_fits e)"

lemma name_fits_bytes [simp]: "name_fits s \<Longrightarrow> bytes_fit (latin1 s)"
  by (simp add: name_fits_def bytes_fit_def latin1_def)

lemma name_fits_cstr [simp]: "name_fits s \<Longrightarrow> bytes_fit (latin1 s @ [0])"
  by (simp add: name_fits_def bytes_fit_def latin1_def)

context qdata_stream
begin

lemma pair_rt:
  assumes "\<And>r. g (p @ r) = (x, r)" and "\<And>r. h (q @ r) = (y, r)"
  shows "get_pair g h ((p @ q) @ r) = ((x, y), r)"
  using assms(1)[of "q @ r"] assms(2)[of r] by (simp add: get_pair_def)

lemma enum_rt:
  assumes "enum_fits e"
  shows "deserializeEnum S (serializeEnum S E e @ r) = (enum_content E e, r)"
proof -
  let ?p = "\<lambda>kv. put_qba S (fst kv) @ put_u32 S (snd kv)"
  have "get_list S (get_pair (get_bytes S) (get_u32 S)) (put_list S ?p (me_keys e) @ r) =
      (map (\<lambda>kv. (latin1 (fst kv), snd kv)) (me_keys e), r)" for r
    using assms by (intro get_list_as pair_rt) (auto simp: enum_fits_def qba_rt u32_rt)
  then show ?thesis
    using assms by (simp add: deserializeEnum_def serializeEnum_def enum_content_def enum_fits_def
        qba_rt bool_rt u32_rt)
qed

lemma gadget_rt:
  assumes "gadget_fits E m"
  shows "get_gadget S (put_gadget S E gs m @ r) = (gadget_content E gs m, r)"
proof -
  let ?ps = "if m \<in> set gs then qm_props (te_mo E m) else []"
  have "get_list S (get_pair (get_bytes S) (get_bytes S))
      (put_list S (\<lambda>p. put_qba S (fst p) @ put_qba S (mt_name (snd p))) ?ps @ r) =
      (map (\<lambda>p. (latin1 (fst p), latin1 (mt_name (snd p)))) ?ps, r)" for r
    using assms by (intro get_list_as pair_rt) (auto simp: gadget_fits_def qba_rt list_fits_def)
  moreover have "get_list S (deserializeEnum S) (put_list S (serializeEnum S E) (own_enums (te_mo E m)) @ r) =
      (map (enum_content E) (own_enums (te_mo E m)), r)" for r
    using assms by (intro get_list_as enum_rt) (auto simp: gadget_fits_def)
  ultimately show ?thesis
    using assms by (simp add: get_gadget_def put_gadget_def gadget_content_def gadget_fits_def qba_rt Let_def)
qed

end

definition signal_content :: "type_env \<Rightarrow> api \<Rightarrow> nat \<Rightarrow> bytes \<times> bytes list" where
  "signal_content E a i =
    (latin1 (wire_signature E a (signalParams a (int i)) (signalSignature a (int i))),
     map latin1 (signalNames a (int i)))"

definition method_content :: "type_env \<Rightarrow> api \<Rightarrow> nat \<Rightarrow> bytes \<times> bytes \<times> bytes list" where
  "method_content E a i =
    (latin1 (wire_signature E a (methodParams a (int i)) (methodSignature a (int i))),
     latin1 (replaced (api_className a) (api_typeName a) (methodTypeName a (int i))),
     map latin1 (methodNames a (int i)))"

definition notify_content :: "api \<Rightarrow> qprop \<Rightarrow> string" where
  "notify_content a p =
    (case qp_notify p of None \<Rightarrow> [] | Some sig \<Rightarrow> replaced (api_className a) (api_typeName a) sig)"

definition prop_content :: "type_env \<Rightarrow> api \<Rightarrow> qprop \<Rightarrow> bytes \<times> bytes \<times> bytes" where
  "prop_content E a p =
    (latin1 (qp_name p) @ [0], latin1 (wire_propType E (qp_type p)) @ [0], latin1 (notify_content a p))"

definition class_content ::
    "type_env \<Rightarrow> object_env \<Rightarrow> api \<Rightarrow> nat \<Rightarrow> qprop list \<Rightarrow> dyn_class" where
  "class_content E B a x ps =
    (let t = latin1 (api_typeName a);
         es = map (\<lambda>i. enum_content E (ob_enum B x (sourceEnumIndex a (int i)))) [0 ..< nat (enumCount a)];
         sigs = map (signal_content E a) [0 ..< signalCount a]
     in \<lparr>dc_className = t, dc_enums = es, dc_signals = sigs,
         dc_methods = map (build_method \<circ> method_content E a) [0 ..< methodCount a],
         dc_props = map (build_prop (class_enums t es) sigs \<circ> prop_content E a) ps\<rparr>)"

text \<open>Nothing in the definition is too long for its length field.\<close>

definition def_fits ::
    "type_env \<Rightarrow> object_env \<Rightarrow> api \<Rightarrow> nat \<Rightarrow> qprop list \<Rightarrow> menum list \<Rightarrow> moid list \<Rightarrow> bool" where
  "def_fits E B a x ps qts ms \<longleftrightarrow>
     str_fits (api_typeName a) \<and> nat (enumCount a) < 2 ^ 32 \<and>
     (\<forall>i < nat (enumCount a). enum_fits (ob_enum B x (sourceEnumIndex a (int i)))) \<and>
     list_fits qts \<and> (\<forall>e \<in> set qts. name_fits (me_scope e @ ''::'' @ me_name e)) \<and>
     list_fits ms \<and> (\<forall>m \<in> set ms. gadget_fits E m) \<and>
     signalCount a < 2 ^ 32 \<and> methodCount a < 2 ^ 32 \<and> list_fits ps \<and>
     (\<forall>i < signalCount a. name_fits (wire_signature E a (signalParams a (int i)) (signalSignature a (int i))) \<and>
        list_fits (signalNames a (int i)) \<and> (\<forall>n \<in> set (signalNames a (int i)). name_fits n)) \<and>
     (\<forall>i < methodCount a. name_fits (wire_signature E a (methodParams a (int i)) (methodSignature a (int i))) \<and>
        name_fits (replaced (api_className a) (api_typeName a) (methodTypeName a (int i))) \<and>
        list_fits (methodNames a (int i)) \<and> (\<forall>n \<in> set (methodNames a (int i)). name_fits n)) \<and>
     (\<forall>p \<in> set ps. name_fits (qp_name p) \<and> name_fits (wire_propType E (qp_type p)) \<and> name_fits (notify_content a p))"

context qdata_stream
begin

lemma signal_def_rt:
  assumes "def_fits E B a x ps qts ms" and "i < signalCount a"
  shows "get_signal_def S (put_signal_def S E a i @ r) = (signal_content E a i, r)"
  unfolding get_signal_def_def put_signal_def_def signal_content_def
  using assms by (intro pair_rt) (auto simp: def_fits_def qba_rt names_rt)

lemma method_def_rt:
  assumes "def_fits E B a x ps qts ms" and "i < methodCount a"
  shows "get_method_def S (put_method_def S E a i @ r) = (method_content E a i, r)"
  unfolding get_method_def_def put_method_def_def method_content_def
  using assms by (intro pair_rt) (auto simp: def_fits_def qba_rt names_rt)

lemma prop_def_rt:
  assumes "def_fits E B a x ps qts ms" and "p \<in> set ps"
  shows "get_prop_def S (put_prop_def S E a p @ r) = (prop_content E a p, r)"
proof -
  have "put_prop_def S E a p = put_cstr S (qp_name p) @ put_cstr S (wire_propType E (qp_type p)) @
      put_qba S (notify_content a p)"
    by (simp add: put_prop_def_def notify_content_def)
  then show ?thesis
    unfolding get_prop_def_def prop_content_def
    using assms by (simp only:) (intro pair_rt; auto simp: def_fits_def qba_rt put_cstr_def bytes_rt)
qed

text \<open>The gadgets of a definition reach \<open>registerAllGadgets\<close> as they are.\<close>

lemma parseGadgets_rt:
  assumes "list_fits qts" and "\<forall>e \<in> set qts. name_fits (me_scope e @ ''::'' @ me_name e)"
    and "list_fits ms" and "\<forall>m \<in> set ms. gadget_fits E m"
  shows "\<exists>ts'. parseGadgets S H c ((put_list S (\<lambda>e. put_qba S (me_scope e @ ''::'' @ me_name e)) qts @
      put_list S (put_gadget S E gs) ms) @ r, ts) = (r, ts')"
proof -
  have "get_list S (get_bytes S) (put_list S (\<lambda>e. put_qba S (me_scope e @ ''::'' @ me_name e)) qts @ r) =
      (map (\<lambda>e. latin1 (me_scope e @ ''::'' @ me_name e)) qts, r)" for r
    using assms by (intro get_list_as) (auto simp: qba_rt)
  moreover have "get_list S (get_gadget S) (put_list S (put_gadget S E gs) ms @ r) = (map (gadget_content E gs) ms, r)" for r
    using assms by (intro get_list_as) (auto simp: gadget_rt)
  ultimately show ?thesis by (simp add: parseGadgets_def Let_def)
qed

lemma definition_rt:
  assumes d: "def_fits E B a x ps qts ms"
  shows "\<exists>ts'. addDynamicType S H c ((put_str S (api_typeName a) @
       put_list S (\<lambda>i. serializeEnum S E (ob_enum B x (sourceEnumIndex a (int i)))) [0 ..< nat (enumCount a)] @
       (put_list S (\<lambda>e. put_qba S (me_scope e @ ''::'' @ me_name e)) qts @ put_list S (put_gadget S E gs) ms) @
       put_list S (put_signal_def S E a) [0 ..< signalCount a] @
       put_list S (put_method_def S E a) [0 ..< methodCount a] @
       put_list S (put_prop_def S E a) ps) @ r, ts) = (class_content E B a x ps, r, ts') \<and>
     map_of (dynamicTypes ts') (api_typeName a) = Some (class_content E B a x ps)"
proof -
  let ?ser = "\<lambda>i. serializeEnum S E (ob_enum B x (sourceEnumIndex a (int i)))"
  have e: "get_list S (deserializeEnum S) (put_list S ?ser [0 ..< nat (enumCount a)] @ r) =
      (map (\<lambda>i. enum_content E (ob_enum B x (sourceEnumIndex a (int i)))) [0 ..< nat (enumCount a)], r)" for r
    using d by (intro get_list_as enum_rt) (auto simp: def_fits_def list_fits_def)
  have s: "get_list S (get_signal_def S) (put_list S (put_signal_def S E a) [0 ..< signalCount a] @ r) =
      (map (signal_content E a) [0 ..< signalCount a], r)" for r
    using d by (intro get_list_as signal_def_rt[OF d]) (auto simp: def_fits_def list_fits_def)
  have m: "get_list S (get_method_def S) (put_list S (put_method_def S E a) [0 ..< methodCount a] @ r) =
      (map (method_content E a) [0 ..< methodCount a], r)" for r
    using d by (intro get_list_as method_def_rt[OF d]) (auto simp: def_fits_def list_fits_def)
  have p: "get_list S (get_prop_def S) (put_list S (put_prop_def S E a) ps @ r) = (map (prop_content E a) ps, r)" for r
    using d by (intro get_list_as prop_def_rt[OF d]) (auto simp: def_fits_def)
  define t where "t = latin1 (api_typeName a)"
  define es where "es = map (\<lambda>i. enum_content E (ob_enum B x (sourceEnumIndex a (int i)))) [0 ..< nat (enumCount a)]"
  define rest where "rest = put_list S (put_signal_def S E a) [0 ..< signalCount a] @
       put_list S (put_method_def S E a) [0 ..< methodCount a] @ put_list S (put_prop_def S E a) ps @ r"
  have fits: "list_fits qts" "\<forall>e \<in> set qts. name_fits (me_scope e @ ''::'' @ me_name e)"
    "list_fits ms" "\<forall>m \<in> set ms. gadget_fits E m"
    using d by (auto simp: def_fits_def)
  obtain ts' where "parseGadgets S H c ((put_list S (\<lambda>e. put_qba S (me_scope e @ ''::'' @ me_name e)) qts @
      put_list S (put_gadget S E gs) ms) @ rest, fold (register_class_enum t) es ts) = (rest, ts')"
    using parseGadgets_rt[OF fits, where H = H and c = c and gs = gs and r = rest] by blast
  note pg = this[unfolded append_assoc rest_def]
  have "str_fits (api_typeName a)" using d by (simp add: def_fits_def)
  then show ?thesis
    unfolding append_assoc
    by (simp only: addDynamicType_def str_rt e s m p t_def[symmetric] es_def[symmetric] pg
        class_content_def Let_def prod.case) (simp add: update_conv' comp_def)
qed

end

text \<open>Nothing that \<open>serializeDefinition\<close> finds for this source is too long.\<close>

definition definition_fits ::
    "type_env \<Rightarrow> object_env \<Rightarrow> nat \<Rightarrow> src_tree \<Rightarrow> src_tree \<Rightarrow> string list \<Rightarrow> bool" where
  "definition_fits E B n root t sent =
    (case t of SrcTree a ob ad cs \<Rightarrow>
      (case (ob, recurseForGadgets E B n t (Some (([], []), sent)), those_props B a ob ad [0 ..< propertyCount a]) of
         (Some x, Some (f, sent'), Some ps) \<Rightarrow>
           (case sort_enums E B (fst f) root (te_enumOrder E (snd f)) ([], []) of
              Some (qts, dyn) \<Rightarrow> def_fits E B a x ps qts (te_metaOrder E (fst f @ filter (\<lambda>m. m \<notin> set (fst f)) dyn))
            | None \<Rightarrow> False)
       | _ \<Rightarrow> False))"

subsection \<open>A source to look at\<close>

definition demo_types :: type_env where
  "demo_types = \<lparr>te_mo = (\<lambda>_. \<lparr>qm_className = ''Item'', qm_props = [(''id'', int_type)], qm_enumOffset = 0, qm_enums = []\<rparr>),
     te_metaObject = (\<lambda>t. if mt_name t = ''Item'' then Some 1 else None), te_qt = 0, te_indexOfEnum = (\<lambda>_ _. None),
     te_size = (\<lambda>_. 4), te_seq = (\<lambda>t. if mt_name t = ''QList<Item>'' then
        Some \<lparr>mt_name = ''Item'', mt_size = 4, mt_isEnum = False, mt_isGadget = True, mt_toQObject = False, mt_isVariant = False\<rparr>
        else None), te_assoc = (\<lambda>_. None), te_model = (\<lambda>_. False), te_enumOrder = id, te_metaOrder = id\<rparr>"

definition items_type :: metatype where
  "items_type = \<lparr>mt_name = ''QList<Item>'', mt_size = 24, mt_isEnum = False, mt_isGadget = False,
     mt_toQObject = False, mt_isVariant = False\<rparr>"

definition shelf_meta :: metaobject where
  "shelf_meta = \<lparr>mo_className = ''ShelfSource'', mo_enumOffset = 0, mo_enumCount = 0, mo_propOffset = 0,
     mo_props = [\<lparr>mp_name = ''items'', mp_type = items_type, mp_notify = Some 0, mp_child = None\<rparr>],
     mo_methodOffset = 0,
     mo_methods = [\<lparr>mm_kind = Signal, mm_signature = ''itemsChanged(QList<Item>)'', mm_params = [items_type],
          mm_names = [''items''], mm_typeName = ''void''\<rparr>],
     mo_classInfo = [], mo_ownClassInfo = []\<rparr>"

definition shelf_api :: api where
  "shelf_api = dynamic_table (DynamicApiMap shelf_meta ''shelf'' ''Shelf'')"

lemma shelf_api_values:
  "api_typeName shelf_api = ''Shelf''" "api_className shelf_api = ''ShelfSource''" "enumCount shelf_api = 0"
  "propertyCount shelf_api = 1" "signalCount shelf_api = 1" "methodCount shelf_api = 0"
  "sourcePropertyIndex shelf_api 0 = 0" "signalParams shelf_api 0 = [items_type]"
  "signalSignature shelf_api 0 = ''itemsChanged(QList<Item>)''" "signalNames shelf_api 0 = [''items'']"
  "isAdapterProperty shelf_api 0 = False"
  by code_simp+

definition shelf_prop :: qprop where
  "shelf_prop = \<lparr>qp_name = ''items'', qp_type = items_type, qp_notify = Some ''itemsChanged(QList<Item>)''\<rparr>"

definition shelf_objects :: object_env where
  "shelf_objects = \<lparr>ob_prop = (\<lambda>_ _. shelf_prop), ob_enum = (\<lambda>_ _. undefined), ob_inherits = (\<lambda>_ _. False)\<rparr>"

definition shelf_tree :: src_tree where
  "shelf_tree = SrcTree shelf_api (Some 7) None NoChildren"

lemma shelf_found:
  "recurseForGadgets demo_types shelf_objects 5 shelf_tree (Some (([], []), [])) = Some (([], []), [])"
  by (simp add: shelf_tree_def shelf_api_values params_search_def search_type_def checkEnum_def source_prop_def
      shelf_objects_def shelf_prop_def items_type_def)

lemma shelf_props: "those_props shelf_objects shelf_api (Some 7) None [0 ..< propertyCount shelf_api] = Some [shelf_prop]"
  by (simp add: shelf_api_values source_prop_def shelf_objects_def)

lemma demo_orders [simp]: "te_enumOrder demo_types = id" "te_metaOrder demo_types = id"
  by (simp_all add: demo_types_def)

lemma shelf_serializes:
  "\<exists>b. serializeDefinition S demo_types shelf_objects 5 shelf_tree shelf_tree [] = Some (b, [])"
  using shelf_found shelf_props
  by (simp add: serializeDefinition_def shelf_tree_def serializeGadgets_def del: recurseForGadgets.simps those_props.simps)

lemma shelf_wire:
  "wire_signature demo_types shelf_api [items_type] ''itemsChanged(QList<Item>)'' = ''itemsChanged(QtROSequentialContainer)''"
  "wire_propType demo_types items_type = ''QtROSequentialContainer''"
  "notify_content shelf_api shelf_prop = ''itemsChanged(QList<Item>)''"
  by (simp_all add: wire_signature_def wire_propType_def notify_content_def shelf_prop_def shelf_api_values
      container_names_def replaced_def isSequentialGadgetType_def demo_types_def items_type_def eval_nat_numeral)

lemma shelf_prop_sel [simp]: "qp_name shelf_prop = ''items''" "qp_type shelf_prop = items_type"
  by (simp_all add: shelf_prop_def)

lemma shelf_fits: "definition_fits demo_types shelf_objects 5 shelf_tree shelf_tree []"
proof -
  have "def_fits demo_types shelf_objects shelf_api 7 [shelf_prop] [] []"
    using shelf_wire by (simp add: def_fits_def shelf_api_values name_fits_def str_fits_def list_fits_def)
  then show ?thesis
    using shelf_found shelf_props by (simp add: definition_fits_def shelf_tree_def del: recurseForGadgets.simps those_props.simps)
qed



text \<open>
  The change signal of a property that holds a list of gadgets is lost on the way: the signal is sent
  with the container's name in place of its parameter's, the property names it with the parameter's,
  and the receiver finds no such signal.
\<close>

theorem container_notify_lost:
  assumes "signalCount a = 1" and "qp_notify p = Some (signalSignature a 0)"
    and "replaced (api_className a) (api_typeName a) (signalSignature a 0) \<noteq> []"
    and "container_names E (signalParams a 0) (replaced (api_className a) (api_typeName a) (signalSignature a 0)) \<noteq>
      replaced (api_className a) (api_typeName a) (signalSignature a 0)"
  shows "dc_props (class_content E B a x [p]) =
      [(latin1 (qp_name p) @ [0], build_type (class_enums (latin1 (api_typeName a)) (dc_enums (class_content E B a x [p])))
          (latin1 (wire_propType E (qp_type p)) @ [0]), None)]"
proof -
  have inj: "latin1 s = latin1 t \<longleftrightarrow> s = t" for s t
  proof -
    have "inj (\<lambda>c :: char. word_of_nat (of_char c) :: byte)"
    proof (rule injI)
      fix c d :: char
      assume "(word_of_nat (of_char c) :: byte) = word_of_nat (of_char d)"
      then have "unat (word_of_nat (of_char c) :: byte) = unat (word_of_nat (of_char d) :: byte)" by simp
      then show "c = d" by (simp add: unat_of_nat take_bit_nat_eq_self_iff)
    qed
    then show ?thesis by (simp add: latin1_def inj_map_eq_map)
  qed
  have "latin1 s = [] \<longleftrightarrow> s = []" for s by (simp add: latin1_def)
  then show ?thesis
    using assms
    by (simp add: class_content_def build_prop_def prop_content_def notify_content_def signal_content_def
        wire_signature_def inj Let_def)
qed

theorem container_notify_lost_witness:
  "snd (snd (hd (dc_props (class_content demo_types shelf_objects shelf_api 7 [shelf_prop])))) = None"
proof -
  have n: "replaced (api_className shelf_api) (api_typeName shelf_api) (signalSignature shelf_api 0) = ''itemsChanged(QList<Item>)''"
    using shelf_wire(3) by (simp add: notify_content_def shelf_prop_def shelf_api_values)
  have "container_names demo_types (signalParams shelf_api 0) ''itemsChanged(QList<Item>)'' \<noteq> ''itemsChanged(QList<Item>)''"
    using shelf_wire(1) n by (simp add: wire_signature_def shelf_api_values)
  then show ?thesis
    using container_notify_lost[of shelf_api shelf_prop demo_types shelf_objects 7] n
    by (simp add: shelf_api_values shelf_prop_def)
qed

text \<open>
  A source whose signal has a parameter of an enum type that no metaobject declares cannot be
  described: the definition asks the null metaobject for its class name.
\<close>

theorem undeclared_enum_faults:
  assumes "signalCount a = 1" and "signalParams a 0 = [t]" and "methodCount a = 0" and "propertyCount a = 0"
    and "mt_isEnum t" and "te_metaObject E t = None" and "set (te_enumOrder E [None]) = {None}"
  shows "serializeDefinition S E B n root (SrcTree a (Some x) ad cs) sent = None"
proof -
  have f: "recurseForGadgets E B n (SrcTree a (Some x) ad cs) (Some (([], []), sent)) = Some (([], [None]), sent)"
    using assms by (simp add: params_search_def search_type_def checkEnum_def metaEnumFromType_def)
  have "None \<in> set es \<Longrightarrow> sort_enums E B gs root es qd = None" for es gs qd
    by (induction E B gs root es qd rule: sort_enums.induct) auto
  then have "serializeGadgets S E B ([], [None]) root = None"
    using assms(7) by (simp add: serializeGadgets_def)
  then show ?thesis using f by (simp add: serializeDefinition_def del: recurseForGadgets.simps)
qed

definition bare_enum :: metatype where
  "bare_enum = \<lparr>mt_name = ''Colour'', mt_size = 4, mt_isEnum = True, mt_isGadget = False,
     mt_toQObject = False, mt_isVariant = False\<rparr>"

definition signal_meta :: metaobject where
  "signal_meta = shelf_meta\<lparr>mo_props := [], mo_methods := [\<lparr>mm_kind = Signal, mm_signature = ''picked(Colour)'',
     mm_params = [bare_enum], mm_names = [''c''], mm_typeName = ''void''\<rparr>]\<rparr>"

theorem undeclared_enum_faults_witness:
  "serializeDefinition le_stream demo_types shelf_objects 5 shelf_tree
     (SrcTree (dynamic_table (DynamicApiMap signal_meta ''s'' ''S'')) (Some 7) None NoChildren) [] = None"
proof -
  let ?a = "dynamic_table (DynamicApiMap signal_meta ''s'' ''S'')"
  have "signalCount ?a = 1" "signalParams ?a 0 = [bare_enum]" "methodCount ?a = 0" "propertyCount ?a = 0"
    by code_simp+
  then show ?thesis
    by (rule undeclared_enum_faults) (simp_all add: bare_enum_def demo_types_def)
qed

subsection \<open>The registry of gadget types\<close>

definition names_of :: "gadgets \<Rightarrow> bytes set" where
  "names_of g = fst ` set g"

lemma names_of_delete [simp]: "names_of (AList.delete n g) = names_of g - {n}"
  by (auto simp: names_of_def AList.delete_eq)

lemma length_delete: "length (AList.delete n g) \<le> length g"
  by (simp add: AList.delete_eq)

lemma length_delete_less: "n \<in> names_of g \<Longrightarrow> length (AList.delete n g) < length g"
proof -
  assume "n \<in> names_of g"
  then obtain e where "e \<in> set g" "fst e = n" by (auto simp: names_of_def)
  then show ?thesis unfolding AList.delete_eq by (intro length_filter_less) auto
qed

text \<open>What a run of registrations has done: it only takes from the table, and what it took is known.\<close>

definition registers :: "gadgets \<times> type_state \<Rightarrow> gadgets \<times> type_state \<Rightarrow> bool" where
  "registers x y \<longleftrightarrow> names_of (fst y) \<subseteq> names_of (fst x) \<and> length (fst y) \<le> length (fst x) \<and>
     set (registered (snd x)) \<subseteq> set (registered (snd y)) \<and>
     names_of (fst x) - names_of (fst y) \<subseteq> set (registered (snd y))"

lemma registers_refl [simp]: "registers x x"
  by (simp add: registers_def)

lemma registers_trans: "registers x y \<Longrightarrow> registers y z \<Longrightarrow> registers x z"
  unfolding registers_def by auto

lemma registered_track [simp]: "registered (trackConnection c n ts) = registered ts"
  by (simp add: trackConnection_def)

lemma registered_fold: "set (registered (fold register_name ns ts)) = set ns \<union> set (registered ts)"
  by (induction ns arbitrary: ts) (auto simp: register_name_def)

lemma registered_finish:
  "n \<in> set (registered (finish_gadget c n d types ts))" "set (registered ts) \<subseteq> set (registered (finish_gadget c n d types ts))"
  by (auto simp: finish_gadget_def Let_def register_name_def registered_fold)

lemma registerGadgets_registers:
  assumes "length (fst x) \<le> fuel" and "n \<in> names_of (fst x)"
  shows "registers x (registerGadgets c fuel n x) \<and> n \<in> set (registered (snd (registerGadgets c fuel n x))) \<and>
     length (fst (registerGadgets c fuel n x)) < length (fst x)"
  using assms
proof (induction fuel arbitrary: n x)
  case 0
  then show ?case by (simp add: names_of_def)
next
  case (Suc fuel)
  obtain g ts where x: "x = (g, ts)" by (cases x)
  define g1 where "g1 = AList.delete n g"
  have n: "n \<in> names_of g" and shorter: "length g1 < length g"
    using Suc.prems length_delete_less by (auto simp: x g1_def)
  have len1: "length g1 \<le> fuel" using shorter Suc.prems by (simp add: x)
  define step where "step = (\<lambda>(p :: bytes \<times> bytes) (types, g, ts).
      let (g', ts') = (if snd p \<notin> set (registered ts) \<and> snd p \<in> fst ` set g
                       then registerGadgets c fuel (snd p) (g, ts) else (g, ts))
      in (types @ [if snd p \<in> set (registered ts') then Some (snd p) else None], g', ts'))"
  have inner: "registers (ga, tsa) (snd (step p (types, ga, tsa)))" if "length ga \<le> fuel" for p types ga tsa
    using Suc.IH[of "(ga, tsa)" "snd p"] that
    by (auto simp: step_def case_prod_beta names_of_def Let_def)
  have loop: "registers (ga, tsa) (snd (fold step ps (types, ga, tsa)))" if "length ga \<le> fuel" for ps types ga tsa
    using that
  proof (induction ps arbitrary: types ga tsa)
    case (Cons p ps)
    obtain t' g' ts' where s: "step p (types, ga, tsa) = (t', g', ts')" by (metis prod_cases3)
    have r: "registers (ga, tsa) (g', ts')" using inner[OF Cons.prems, of tsa p types] by (simp add: s)
    then have "length g' \<le> fuel" using Cons.prems by (simp add: registers_def)
    from registers_trans[OF r Cons.IH[OF this]] show ?case by (simp add: s)
  qed simp
  define d where "d = fst (take_gadget n g)"
  obtain types g2 ts2 where f: "fold step (gd_properties d) ([], g1, ts) = (types, g2, ts2)" by (metis prod_cases3)
  have r2: "registers (g1, ts) (g2, ts2)" using loop[OF len1, of ts "gd_properties d" "[]"] by (simp add: f)
  have res: "registerGadgets c (Suc fuel) n (g, ts) =
      (if n \<in> set (registered ts) then (g1, trackConnection c n ts) else (g2, finish_gadget c n d types ts2))"
    using f by (simp add: take_gadget_def g1_def d_def step_def)
  show ?case
  proof (cases "n \<in> set (registered ts)")
    case True
    then show ?thesis using shorter n by (auto simp: x res registers_def g1_def simp del: registerGadgets.simps)
  next
    case False
    moreover have "length g2 < length g" "names_of g2 \<subseteq> names_of g"
      using r2 shorter by (auto simp: registers_def g1_def)
    ultimately show ?thesis
      using r2 registered_finish[where n = n and c = c and d = d and types = types and ts = ts2]
      by (auto simp: x res registers_def g1_def simp del: registerGadgets.simps)
  qed
qed

lemma registerAll_registers:
  assumes "length (fst x) \<le> fuel"
  shows "registers x (registerAll c fuel x) \<and> fst (registerAll c fuel x) = []"
  using assms
proof (induction fuel arbitrary: x)
  case (Suc fuel)
  obtain g ts where x: "x = (g, ts)" by (cases x)
  show ?case
  proof (cases g)
    case (Cons e g')
    let ?y = "registerGadgets c (length g) (fst e) (g, ts)"
    have "registers x ?y \<and> length (fst ?y) < length g"
      using registerGadgets_registers[of "(g, ts)" "length g" "fst e" c] by (simp add: x Cons names_of_def)
    moreover from this have "length (fst ?y) \<le> fuel" using Suc.prems by (simp add: x)
    ultimately have "registers x (registerAll c fuel ?y) \<and> fst (registerAll c fuel ?y) = []"
      using Suc.IH[of ?y] registers_trans by blast
    moreover have "registerAll c (Suc fuel) x = registerAll c fuel ?y"
      unfolding x by (simp add: Cons del: registerGadgets.simps)
    ultimately show ?thesis by simp
  qed (simp add: x)
qed simp

text \<open>
  C27: However the gadgets of a definition refer to each other, in cycles too, the two nested loops end
  after at most one call per gadget, with the table empty, and afterwards every gadget of it is a
  registered type and no type has been lost.
\<close>

theorem gadgets_all_registered:
  "fst (registerAll c (length g) (g, ts)) = [] \<and>
   set (registered ts) \<subseteq> set (registered (registerAllGadgets c g ts)) \<and>
   fst ` set g \<subseteq> set (registered (registerAllGadgets c g ts))"
proof -
  let ?y = "registerAll c (length g) (g, ts)"
  have "registers (g, ts) ?y" and e: "fst ?y = []" using registerAll_registers[of "(g, ts)" "length g" c] by auto
  then have "set (registered ts) \<subseteq> set (registered (snd ?y))"
    and "names_of g - names_of [] \<subseteq> set (registered (snd ?y))"
    by (auto simp: registers_def)
  with e show ?thesis by (simp add: registerAllGadgets_def names_of_def)
qed

text \<open>The tables of the registry hold one entry per type.\<close>

definition registry_ok :: "type_state \<Rightarrow> bool" where
  "registry_ok ts \<longleftrightarrow> distinct (map fst (s_trackedConnections ts)) \<and> distinct (map fst (s_managedTypes ts))"

lemma managed_unregister [simp]:
  "s_managedTypes (unregisterMetaTypes n ts) = s_managedTypes ts"
  "s_trackedConnections (unregisterMetaTypes n ts) = s_trackedConnections ts"
  by (simp_all add: unregisterMetaTypes_def split: option.split)

lemma tracking_step:
  "tracking m (unregisterIfNotUsed c n ts) = (if m = n then removeAll c (tracking n ts) else tracking m ts)"
  by (simp add: unregisterIfNotUsed_def tracking_def Let_def delete_conv' update_conv')

lemma managed_step:
  "map_of (s_managedTypes (unregisterIfNotUsed c n ts)) m =
    (if m = n \<and> removeAll c (tracking n ts) = [] then None else map_of (s_managedTypes ts) m)"
  by (simp add: unregisterIfNotUsed_def Let_def delete_conv')

lemma registered_step:
  "set (registered (unregisterIfNotUsed c n ts)) \<subseteq> set (registered ts)"
  "map_of (s_managedTypes ts) n \<noteq> None \<Longrightarrow> removeAll c (tracking n ts) = [] \<Longrightarrow>
     n \<notin> set (registered (unregisterIfNotUsed c n ts))"
  by (auto simp: unregisterIfNotUsed_def Let_def unregisterMetaTypes_def split: option.splits)

lemma destroyed_fold:
  assumes "distinct ns"
  shows "let ts' = fold (unregisterIfNotUsed c) ns ts
     in tracking m ts' = (if m \<in> set ns then removeAll c (tracking m ts) else tracking m ts) \<and>
        map_of (s_managedTypes ts') m =
          (if m \<in> set ns \<and> removeAll c (tracking m ts) = [] then None else map_of (s_managedTypes ts) m) \<and>
        set (registered ts') \<subseteq> set (registered ts) \<and>
        (m \<in> set ns \<and> map_of (s_managedTypes ts) m \<noteq> None \<and> removeAll c (tracking m ts) = [] \<longrightarrow>
           m \<notin> set (registered ts'))"
  using assms
proof (induction ns arbitrary: ts)
  case (Cons n ns)
  let ?t = "unregisterIfNotUsed c n ts"
  note IH = Cons.IH[of ?t, unfolded Let_def]
  have sub: "set (registered ?t) \<subseteq> set (registered ts)" by (rule registered_step(1))
  show ?case
    using IH Cons.prems registered_step(2)[of ts n c] sub
    by (auto simp: tracking_step managed_step Let_def split: if_splits)
qed simp



end
