(* ===== verification/Registry.thy ===== *)
theory Registry
  imports Replica
begin

text \<open>
  The registry: its source (\<open>qremoteobjectregistrysource.cpp\<close>), a table of where each source lives,
  and the replica every node has of it (\<open>qremoteobjectregistry.cpp\<close>), which pushes the node's own
  sources. A \<open>QHash\<close> is an association list in the order it is iterated.
\<close>

record location =
  loc_typeName :: string
  loc_hostUrl :: string

type_synonym locations = "(string \<times> location) list"

definition put_location :: "'v qstream \<Rightarrow> (string \<Rightarrow> bytes) \<Rightarrow> location \<Rightarrow> bytes" where
  "put_location S put_url x = put_str S (loc_typeName x) @ put_url (loc_hostUrl x)"

definition get_location :: "'v qstream \<Rightarrow> (bytes \<Rightarrow> string \<times> bytes) \<Rightarrow> bytes \<Rightarrow> location \<times> bytes" where
  "get_location S get_url i =
    (let (t, i1) = get_str S i; (u, i2) = get_url i1 in (\<lparr>loc_typeName = t, loc_hostUrl = u\<rparr>, i2))"

subsection \<open>The source\<close>

datatype reg_signal = RegAdded string location | RegRemoved string location

record registry_source =
  m_sourceLocations :: locations
  reg_signals :: "reg_signal list"

fun remove_urls :: "string \<Rightarrow> locations \<Rightarrow> locations" where
  "remove_urls u [] = []"
| "remove_urls u (e # es) = (if loc_hostUrl (snd e) = u then remove_urls u es else e # remove_urls u es)"

definition removeServer :: "string \<Rightarrow> registry_source \<Rightarrow> registry_source" where
  "removeServer u rs = rs\<lparr>m_sourceLocations := remove_urls u (m_sourceLocations rs)\<rparr>"

definition addSource :: "string \<times> location \<Rightarrow> registry_source \<Rightarrow> registry_source" where
  "addSource e rs =
    (if fst e \<in> fst ` set (m_sourceLocations rs) then rs
     else rs\<lparr>m_sourceLocations := AList.update (fst e) (snd e) (m_sourceLocations rs),
             reg_signals := reg_signals rs @ [RegAdded (fst e) (snd e)]\<rparr>)"

definition removeSource :: "string \<times> location \<Rightarrow> registry_source \<Rightarrow> registry_source" where
  "removeSource e rs =
    (case map_of (m_sourceLocations rs) (fst e) of
       None \<Rightarrow> rs
     | Some x \<Rightarrow>
        if loc_hostUrl x = loc_hostUrl (snd e)
        then rs\<lparr>m_sourceLocations := AList.delete (fst e) (m_sourceLocations rs),
                reg_signals := reg_signals rs @ [RegRemoved (fst e) (snd e)]\<rparr>
        else rs)"

subsection \<open>The replica\<close>

text \<open>What the code asks of Qt: the values that carry locations, and the numbers of the two slots.\<close>

record 'v reg_env =
  of_locations :: "locations \<Rightarrow> 'v"
  to_locations :: "'v \<Rightarrow> locations"
  of_entry :: "string \<times> location \<Rightarrow> 'v"
  add_index :: int
  remove_index :: int

text \<open>The values a registry replica starts with.\<close>

definition registry_initialize :: "'v reg_env \<Rightarrow> 'v replica \<Rightarrow> 'v replica" where
  "registry_initialize G r =
    setProperties [of_locations G [], of_entry G ([], \<lparr>loc_typeName = [], loc_hostUrl = []\<rparr>),
      of_entry G ([], \<lparr>loc_typeName = [], loc_hostUrl = []\<rparr>)] r"

definition sourceLocations :: "'v reg_env \<Rightarrow> 'v replica \<Rightarrow> locations" where
  "sourceLocations G r = (case getProperty 0 r of None \<Rightarrow> [] | Some v \<Rightarrow> to_locations G v)"

text \<open>\<open>hostedSources\<close> are the node's own sources.\<close>

definition reg_addSource ::
    "'v qstream \<Rightarrow> 'v client_env \<Rightarrow> 'v reg_env \<Rightarrow> string \<times> location \<Rightarrow>
     locations \<times> 'v replica \<times> links \<Rightarrow> locations \<times> 'v replica \<times> links" where
  "reg_addSource S E G e x =
    (let (hosted, r, l) = x
     in if fst e \<in> fst ` set hosted then x
        else
          let hosted' = AList.update (fst e) (snd e) hosted
          in if m_state r \<noteq> Valid then (hosted', r, l)
             else if fst e \<in> fst ` set (sourceLocations G r) then (hosted', r, l)
             else (hosted', q_send S E 0 (add_index G) [of_entry G e] (r, l)))"

definition reg_removeSource ::
    "'v qstream \<Rightarrow> 'v client_env \<Rightarrow> 'v reg_env \<Rightarrow> string \<times> location \<Rightarrow>
     locations \<times> 'v replica \<times> links \<Rightarrow> locations \<times> 'v replica \<times> links" where
  "reg_removeSource S E G e x =
    (let (hosted, r, l) = x
     in if fst e \<notin> fst ` set hosted then x
        else
          let hosted' = AList.delete (fst e) hosted
          in if m_state r \<noteq> Valid then (hosted', r, l)
             else (hosted', q_send S E 0 (remove_index G) [of_entry G e] (r, l)))"

text \<open>
  On (re)connection the node's sources are announced. One whose name the registry has already is
  dropped, whoever it belongs to.
\<close>

fun push_loop ::
    "'v qstream \<Rightarrow> 'v client_env \<Rightarrow> 'v reg_env \<Rightarrow> locations \<Rightarrow> locations \<Rightarrow> 'v replica \<times> links \<Rightarrow>
     locations \<times> 'v replica \<times> links" where
  "push_loop S E G locs [] x = ([], x)"
| "push_loop S E G locs (e # es) x =
     (if fst e \<in> fst ` set locs then push_loop S E G locs es x
      else let (kept, y) = push_loop S E G locs es (q_send S E 0 (add_index G) [of_entry G e] x)
           in (e # kept, y))"

definition pushToRegistryIfNeeded ::
    "'v qstream \<Rightarrow> 'v client_env \<Rightarrow> 'v reg_env \<Rightarrow> locations \<times> 'v replica \<times> links \<Rightarrow> locations \<times> 'v replica \<times> links" where
  "pushToRegistryIfNeeded S E G x =
    (let (hosted, r, l) = x
     in if m_state r \<noteq> Valid then x
        else if hosted = [] then x
        else push_loop S E G (sourceLocations G r) hosted (r, l))"

end
