(* ===== verification/Node.thy ===== *)
theory Node
  imports DynType Registry
begin

text \<open>
  A client node (\<open>QRemoteObjectNodePrivate\<close> in \<open>qremoteobjectnode.cpp\<close>): the replicas it holds by
  name, the sources its connections offer, the connections it opens and reopens, and the handling of
  everything a host sends. Implementations and replica instances are numbered; a weak pointer is the
  number of an implementation, which is gone when the number has no entry. Connections are numbered
  as in \<open>links\<close>.
\<close>

datatype node_error =
    NodeNoError | RegistryNotAcquired | RegistryAlreadyHosted | NodeIsNoServer | ServerAlreadyCreated
  | UnintendedRegistryHosting | OperationNotValidOnClientNode | SourceNotRegistered | MissingObjectName
  | HostUrlInvalid | ProtocolMismatch | ListenFailed | SocketAccessError

record source_info =
  si_device :: conn
  si_typeName :: string
  si_signature :: bytes

datatype node_fault = NullReplica string | BadProperty int

record 'v node =
  replicas :: "(string \<times> repid) list"
  connectedSources :: "(string, source_info) qmap"
  schemaHandlers :: "string list"
  handled :: "string list"
  pendingReconnect :: "conn list"
  requestedUrls :: "string list"
  registry :: "repid option"
  registryAddress :: string
  reconnectTimer :: bool
  errors :: "node_error list"
  n_rxArgs :: "'v list"
  n_rxValue :: "'v option"
  m_heartbeatInterval :: nat
  dynamicTypeManager :: type_state
  n_links :: links
  nextConn :: conn
  impls :: "repid \<Rightarrow> 'v replica option"
  nextImpl :: repid
  d_impls :: "nat \<Rightarrow> repid option"
  nextInstance :: nat
  n_fault :: "node_fault option"

text \<open>
  A \<open>QRO_\<close>, an object or gadget inside a value.
\<close>

record qro =
  qro_name :: string
  qro_typeName :: string
  qro_type :: object_type
  qro_isNull :: bool
  qro_classDefinition :: bytes
  qro_parameters :: bytes

text \<open>
  What the code asks of Qt and of the application: \<open>ne_client\<close> and \<open>ne_reg\<close> the values, \<open>creates\<close> the
  schemes the client factory knows, \<open>asQro\<close> a value's \<open>QRO_\<close>, \<open>instance_value\<close> and \<open>model_value\<close> pointers
  to a replica and \<open>instance_of\<close> the replica in a pointer, \<open>mk_class\<close> the metaobject that the builder
  makes, \<open>replica_bases\<close> those of \<open>QRemoteObjectReplica\<close>, and \<open>hashOrder\<close> a hash's order.
\<close>

record 'v node_env =
  ne_client :: "'v client_env"
  ne_reg :: "'v reg_env"
  scheme_of :: "string \<Rightarrow> string"
  creates :: "string \<Rightarrow> bool"
  asQro :: "'v \<Rightarrow> qro option"
  null_class :: 'v
  null_model :: 'v
  no_value :: 'v
  instance_value :: "nat \<Rightarrow> 'v"
  model_value :: "nat \<Rightarrow> 'v"
  instance_of :: "'v \<Rightarrow> nat option"
  value_typeName :: "'v \<Rightarrow> string"
  mk_class :: "dyn_class \<Rightarrow> metaobject"
  replica_bases :: "metaobject list"
  signal_base :: int
  property_base :: int
  model_class :: "metaobject list"
  registry_class :: "metaobject list"
  hashOrder :: "gadgets \<Rightarrow> gadgets"

subsection \<open>Small steps\<close>

definition setLastError :: "node_error \<Rightarrow> 'v node \<Rightarrow> 'v node" where
  "setLastError e nd = nd\<lparr>errors := errors nd @ [e]\<rparr>"

definition node_fail :: "node_fault \<Rightarrow> 'v node \<Rightarrow> 'v node" where
  "node_fail f nd = (if n_fault nd = None then nd\<lparr>n_fault := Some f\<rparr> else nd)"

definition setHeartbeatInterval :: "nat \<Rightarrow> 'v node \<Rightarrow> 'v node" where
  "setHeartbeatInterval n nd =
    (if m_heartbeatInterval nd = n then nd
     else nd\<lparr>m_heartbeatInterval := n, impls := (\<lambda>k. map_option (heartbeat_changed n) (impls nd k))\<rparr>)"

text \<open>The implementation a name's weak pointer leads to.\<close>

definition strong_ref :: "string \<Rightarrow> 'v node \<Rightarrow> repid option" where
  "strong_ref name nd =
    (case map_of (replicas nd) name of
       None \<Rightarrow> None | Some k \<Rightarrow> if impls nd k = None then None else Some k)"

definition forget :: "string \<Rightarrow> 'v node \<Rightarrow> 'v node" where
  "forget name nd = nd\<lparr>replicas := AList.delete name (replicas nd)\<rparr>"

definition with_impl ::
    "repid \<Rightarrow> ('v replica \<times> links \<Rightarrow> 'v replica \<times> links) \<Rightarrow> 'v node \<Rightarrow> 'v node" where
  "with_impl k f nd =
    (case impls nd k of
       None \<Rightarrow> nd
     | Some r \<Rightarrow> (let (r', l') = f (r, n_links nd) in nd\<lparr>impls := (impls nd)(k \<mapsto> r'), n_links := l'\<rparr>))"

definition with_rep :: "repid \<Rightarrow> ('v replica \<Rightarrow> 'v replica) \<Rightarrow> 'v node \<Rightarrow> 'v node" where
  "with_rep k f nd = with_impl k (\<lambda>(r, l). (f r, l)) nd"

definition remoteObjectAddresses :: "'v node_env \<Rightarrow> 'v node \<Rightarrow> locations" where
  "remoteObjectAddresses E nd =
    (case registry nd of
       None \<Rightarrow> []
     | Some k \<Rightarrow> (case impls nd k of None \<Rightarrow> [] | Some r \<Rightarrow> sourceLocations (ne_reg E) r))"

definition checkSignatures :: "bytes \<Rightarrow> bytes \<Rightarrow> bool" where
  "checkSignatures a b \<longleftrightarrow> a = [] \<or> b = [] \<or> a = b"

subsection \<open>Connections\<close>

definition new_link :: "string \<Rightarrow> clientio" where
  "new_link url = \<lparr>io_dev = \<lparr>written = [], devOpen = True, isClosing = False\<rparr>, io_codec = None,
     m_remoteObjects = [], io_isClient = True, io_url = url\<rparr>"

definition initConnection :: "'v node_env \<Rightarrow> string \<Rightarrow> 'v node \<Rightarrow> bool \<times> 'v node" where
  "initConnection E address nd =
    (if address \<in> set (requestedUrls nd) then (True, nd)
     else
       let nd1 = nd\<lparr>requestedUrls := address # requestedUrls nd\<rparr>
       in if scheme_of E address \<in> set (schemaHandlers nd1)
          then (True, nd1\<lparr>handled := handled nd1 @ [address]\<rparr>)
          else if \<not> creates E (scheme_of E address) then (False, nd1)
          else (True, nd1\<lparr>n_links := (n_links nd1)(nextConn nd1 := new_link address),
                          nextConn := Suc (nextConn nd1)\<rparr>))"

definition openConnectionIfNeeded :: "'v node_env \<Rightarrow> string \<Rightarrow> 'v node \<Rightarrow> 'v node" where
  "openConnectionIfNeeded E name nd =
    (case map_of (remoteObjectAddresses E nd) name of
       None \<Rightarrow> nd
     | Some x \<Rightarrow> snd (initConnection E (loc_hostUrl x) nd))"

definition connectToNode :: "'v node_env \<Rightarrow> string \<Rightarrow> 'v node \<Rightarrow> bool \<times> 'v node" where
  "connectToNode E address nd =
    (let (ok, nd1) = initConnection E address nd
     in if \<not> ok then (False, setLastError RegistryNotAcquired nd1) else (True, nd1))"

text \<open>\<open>addClientSideConnection\<close> with a device of the application's.\<close>

definition addClientSideConnection :: "iodevice option \<Rightarrow> 'v node \<Rightarrow> 'v node" where
  "addClientSideConnection dev nd =
    (case dev of
       None \<Rightarrow> nd
     | Some d \<Rightarrow>
        if \<not> devOpen d then nd
        else nd\<lparr>n_links := (n_links nd)(nextConn nd := \<lparr>io_dev = d\<lparr>isClosing := False\<rparr>, io_codec = None,
                  m_remoteObjects = [], io_isClient = False, io_url = []\<rparr>), nextConn := Suc (nextConn nd)\<rparr>)"

text \<open>The reconnect timer: a device that is open again is done with, the others try again.\<close>

definition timerEvent :: "'v node \<Rightarrow> conn list \<times> 'v node" where
  "timerEvent nd =
    (let waiting = filter (\<lambda>c. \<not> io_isOpen (n_links nd c)) (pendingReconnect nd)
     in (waiting, nd\<lparr>pendingReconnect := waiting, reconnectTimer := (waiting \<noteq> [] \<and> reconnectTimer nd)\<rparr>))"

subsection \<open>Connecting replicas to sources\<close>

definition hasInstance :: "string \<Rightarrow> 'v node \<Rightarrow> bool \<times> 'v node" where
  "hasInstance name nd =
    (case map_of (replicas nd) name of
       None \<Rightarrow> (False, nd)
     | Some k \<Rightarrow> if impls nd k = None then (False, forget name nd) else (True, nd))"

definition connect_impl :: "'v qstream \<Rightarrow> bytes \<Rightarrow> repid \<Rightarrow> conn \<Rightarrow> 'v node \<Rightarrow> 'v node" where
  "connect_impl S sourceSignature k c nd =
    with_impl k (\<lambda>(r, l).
      if \<not> checkSignatures (m_objectSignature r) sourceSignature then (setState SignatureMismatch r, l)
      else setConnection S c (r, l)) nd"

definition handleReplicaConnection :: "'v qstream \<Rightarrow> string \<Rightarrow> 'v node \<Rightarrow> 'v node" where
  "handleReplicaConnection S name nd =
    (case strong_ref name nd of
       None \<Rightarrow> forget name nd
     | Some k \<Rightarrow>
        (case impls nd k of
           None \<Rightarrow> nd
         | Some r \<Rightarrow>
            if connectionToSource r \<noteq> None then nd
            else (case map_of (connectedSources nd) name of
                    None \<Rightarrow> nd
                  | Some si \<Rightarrow> connect_impl S (si_signature si) k (si_device si) nd)))"

definition handleNewAcquire ::
    "'v qstream \<Rightarrow> 'v node_env \<Rightarrow> metaobject list \<Rightarrow> nat \<Rightarrow> string \<Rightarrow> 'v node \<Rightarrow> repid \<times> 'v node" where
  "handleNewAcquire S E meta inst name nd =
    (let k = nextImpl nd;
         rp = configurePrivate inst (new_connected_replica name meta (signal_base E) (property_base E) (m_heartbeatInterval nd));
         nd1 = nd\<lparr>impls := (impls nd)(k \<mapsto> rp), nextImpl := Suc k\<rparr>
     in (k, case map_of (connectedSources nd1) name of
              Some si \<Rightarrow> connect_impl S (si_signature si) k (si_device si) nd1
            | None \<Rightarrow>
               (case map_of (remoteObjectAddresses E nd1) name of
                  None \<Rightarrow> nd1 | Some x \<Rightarrow> snd (initConnection E (loc_hostUrl x) nd1))))"

text \<open>
  \<open>setReplicaImplementation\<close>: the instance shares the implementation its name has, or gets a new one.
  \<open>ini\<close> is the instance's own \<open>initialize\<close>.
\<close>

definition setReplicaImplementation ::
    "'v qstream \<Rightarrow> 'v node_env \<Rightarrow> metaobject list \<Rightarrow> nat \<Rightarrow> string \<Rightarrow> ('v replica \<Rightarrow> 'v replica) \<Rightarrow> 'v node \<Rightarrow> 'v node" where
  "setReplicaImplementation S E meta inst name ini nd =
    (let (has, nd1) = hasInstance name (openConnectionIfNeeded E name nd)
     in if has
        then let k = the (map_of (replicas nd1) name)
             in with_rep k (configurePrivate inst) (nd1\<lparr>d_impls := (d_impls nd1)(inst \<mapsto> k)\<rparr>)
        else let (k, nd2) = handleNewAcquire S E meta inst name nd1;
                 nd3 = with_rep k ini (nd2\<lparr>d_impls := (d_impls nd2)(inst \<mapsto> k)\<rparr>)
             in nd3\<lparr>replicas := AList.update name k (replicas nd3)\<rparr>)"

text \<open>
  \<open>initializeReplica\<close>, for dynamic and for compiled replicas: the latter's class becomes known and gives
  the name when there is none. \<open>acquire\<close> makes the instance first.
\<close>

definition class_typeName :: "metaobject list \<Rightarrow> string" where
  "class_typeName meta =
    (case meta of [] \<Rightarrow> [] | mo # _ \<Rightarrow>
       (case map_of (mo_classInfo mo) ''RemoteObject Type'' of None \<Rightarrow> [] | Some t \<Rightarrow> t))"

definition new_instance :: "'v node \<Rightarrow> nat \<times> 'v node" where
  "new_instance nd = (nextInstance nd, nd\<lparr>nextInstance := Suc (nextInstance nd)\<rparr>)"

definition acquireDynamic :: "'v qstream \<Rightarrow> 'v node_env \<Rightarrow> string \<Rightarrow> 'v node \<Rightarrow> nat \<times> 'v node" where
  "acquireDynamic S E name nd =
    (let (inst, nd1) = new_instance nd in (inst, setReplicaImplementation S E [] inst name (\<lambda>r. r) nd1))"

definition acquire ::
    "'v qstream \<Rightarrow> 'v node_env \<Rightarrow> metaobject list \<Rightarrow> string \<Rightarrow> ('v replica \<Rightarrow> 'v replica) \<Rightarrow> 'v node \<Rightarrow> nat \<times> 'v node" where
  "acquire S E meta name ini nd =
    (let (inst, nd1) = new_instance nd;
         nd2 = nd1\<lparr>dynamicTypeManager := addFromMetaObject meta (dynamicTypeManager nd1)\<rparr>
     in (inst, setReplicaImplementation S E meta inst (if name = [] then class_typeName meta else name) ini nd2))"

definition acquireModel :: "'v qstream \<Rightarrow> 'v node_env \<Rightarrow> string \<Rightarrow> 'v node \<Rightarrow> nat \<times> 'v node" where
  "acquireModel S E name nd = acquire S E (model_class E) name (\<lambda>r. r) nd"

text \<open>The names under which sources of a type are known.\<close>

definition instances_of :: "string \<Rightarrow> 'v node \<Rightarrow> string list" where
  "instances_of typeName nd = map fst (filter (\<lambda>e. si_typeName (snd e) = typeName) (connectedSources nd))"

text \<open>
  An instance goes away. The last one of an implementation takes it along, which tells the source.
\<close>

definition delete_instance :: "'v qstream \<Rightarrow> nat \<Rightarrow> 'v node \<Rightarrow> 'v node" where
  "delete_instance S inst nd =
    (case d_impls nd inst of
       None \<Rightarrow> nd
     | Some k \<Rightarrow>
        let nd1 = with_rep k (\<lambda>r. r\<lparr>instances := removeAll inst (instances r)\<rparr>) (nd\<lparr>d_impls := (d_impls nd)(inst := None)\<rparr>)
        in case impls nd1 k of
             None \<Rightarrow> nd1
           | Some r \<Rightarrow>
              if \<exists>i < nextInstance nd1. d_impls nd1 i = Some k then nd1
              else nd1\<lparr>impls := (impls nd1)(k := None), n_links := delete_replica S (r, n_links nd1)\<rparr>)"

subsection \<open>The registry\<close>

definition setRegistryUrl :: "'v qstream \<Rightarrow> 'v node_env \<Rightarrow> string \<Rightarrow> 'v node \<Rightarrow> bool \<times> 'v node" where
  "setRegistryUrl S E url nd =
    (if registry nd \<noteq> None then (False, setLastError RegistryAlreadyHosted nd)
     else
       let (inst, nd1) = acquire S E (registry_class E) [] (registry_initialize (ne_reg E)) (nd\<lparr>registryAddress := url\<rparr>);
           nd2 = nd1\<lparr>registry := d_impls nd1 inst\<rparr>
       in (True, snd (connectToNode E url nd2)))"

definition set_locations :: "'v node_env \<Rightarrow> (locations \<Rightarrow> locations) \<Rightarrow> 'v node \<Rightarrow> 'v node" where
  "set_locations E f nd =
    (case registry nd of
       None \<Rightarrow> nd
     | Some k \<Rightarrow> with_rep k (\<lambda>r. setProperty 0 (of_locations (ne_reg E) (f (sourceLocations (ne_reg E) r))) r) nd)"

definition onRemoteObjectSourceAdded :: "'v node_env \<Rightarrow> string \<times> location \<Rightarrow> 'v node \<Rightarrow> 'v node" where
  "onRemoteObjectSourceAdded E e nd =
    (let nd1 = (if fst e \<noteq> [] then set_locations E (AList.update (fst e) (snd e)) nd else nd)
     in if fst e \<notin> fst ` set (replicas nd1) then nd1
        else if strong_ref (fst e) nd1 = None then forget (fst e) nd1
        else snd (initConnection E (loc_hostUrl (snd e)) nd1))"

definition onRemoteObjectSourceRemoved :: "'v node_env \<Rightarrow> string \<times> location \<Rightarrow> 'v node \<Rightarrow> 'v node" where
  "onRemoteObjectSourceRemoved E e nd = (if fst e \<noteq> [] then set_locations E (AList.delete (fst e)) nd else nd)"

definition onRegistryInitialized :: "'v node_env \<Rightarrow> 'v node \<Rightarrow> 'v node" where
  "onRegistryInitialized E nd =
    fold (\<lambda>e nd.
        if fst e \<notin> fst ` set (replicas nd) then nd
        else if strong_ref (fst e) nd = None then forget (fst e) nd
        else if loc_hostUrl (snd e) \<in> set (requestedUrls nd) then nd
        else snd (initConnection E (loc_hostUrl (snd e)) nd))
      (remoteObjectAddresses E nd) nd"

end
