(* ===== verification/NodeRead.thy ===== *)
theory NodeRead
  imports Node
begin

text \<open>
  What a client node does with the packets of its hosts (\<open>QRemoteObjectNodePrivate::onClientRead\<close>),
  with the objects inside them (\<open>handlePointerToQObjectProperty\<close>), and when a connection is lost
  (\<open>onShouldReconnect\<close>).
\<close>

subsection \<open>Objects inside values\<close>

definition get_qro :: "'v qstream \<Rightarrow> (bytes \<Rightarrow> nat \<times> bytes) \<Rightarrow> bytes \<Rightarrow> qro \<times> bytes" where
  "get_qro S get_u8 i =
    (let (n, i1) = get_str S i; (t, i2) = get_str S i1; (k, i3) = get_u8 i2; (d, i4) = get_bytes S i3;
         (nul, i5) = get_bool S i4;
         (ps, i6) = (if nul then ([], i5) else get_bytes S i5)
     in (\<lparr>qro_name = n, qro_typeName = t, qro_type = (if k = 0 then CLASS else if k = 1 then MODEL else GADGET),
          qro_isNull = nul, qro_classDefinition = d, qro_parameters = ps\<rparr>, i6))"

definition null_qro :: qro where
  "null_qro = \<lparr>qro_name = [], qro_typeName = [], qro_type = CLASS, qro_isNull = True,
     qro_classDefinition = [], qro_parameters = []\<rparr>"

text \<open>A default \<open>QRO_\<close> stands in for a value that holds none.\<close>

definition qro_value :: "'v node_env \<Rightarrow> 'v \<Rightarrow> qro" where
  "qro_value E v = (case asQro E v of Some q \<Rightarrow> q | None \<Rightarrow> null_qro)"

text \<open>The class of a child that came without a definition: a \<open>QObject*\<close> has the type of the templated parent's value.\<close>

definition child_typeName :: "'v node_env \<Rightarrow> qro \<Rightarrow> 'v option \<Rightarrow> string" where
  "child_typeName E q old =
    (if qro_typeName q \<noteq> ''QObject'' then qro_typeName q
     else case old of
            None \<Rightarrow> []
          | Some v \<Rightarrow>
             (let t = value_typeName E v
              in if ends_with ''Replica*'' t then take (length t - 8) t else t))"

definition child_parameters :: "'v qstream \<Rightarrow> qro \<Rightarrow> 'v list" where
  "child_parameters S q =
    (if qro_parameters q = [] then [] else fst (get_list S (get_var S) (qro_parameters q)))"

text \<open>
  The replica for a child, and the value its parent's property gets. A child that is there when its
  parent is initialized again is replaced.
\<close>

definition child_value ::
    "'v qstream \<Rightarrow> 'v node_env \<Rightarrow> repid \<Rightarrow> int \<Rightarrow> qro \<Rightarrow> 'v node \<Rightarrow> 'v option \<times> 'v node" where
  "child_value S E k index q nd =
    (case impls nd k of
       None \<Rightarrow> (None, nd)
     | Some rep \<Rightarrow>
        if qro_name q \<notin> fst ` set (replicas nd) \<or> isInitialized rep then
          let nd1 = (if isInitialized rep
                     then (case strong_ref (qro_name q) nd of
                             None \<Rightarrow> forget (qro_name q) nd
                           | Some c \<Rightarrow>
                              (let ms = (case impls nd c of None \<Rightarrow> [] | Some r \<Rightarrow> m_metaObject r)
                               in (forget (qro_name q) nd)\<lparr>dynamicTypeManager := addFromMetaObject ms (dynamicTypeManager nd)\<rparr>))
                     else nd)
          in if qro_type q = CLASS
             then let (inst, nd2) = acquireDynamic S E (qro_name q) nd1 in (Some (instance_value E inst), nd2)
             else let (inst, nd2) = acquireModel S E (qro_name q) nd1 in (Some (model_value E inst), nd2)
        else (getProperty index rep, nd))"

text \<open>The class of a dynamic child: by its name, or from the definition that came with it.\<close>

definition give_class ::
    "'v qstream \<Rightarrow> 'v node_env \<Rightarrow> repid \<Rightarrow> int \<Rightarrow> repid \<Rightarrow> conn option \<Rightarrow> qro \<Rightarrow> 'v node \<Rightarrow> 'v node" where
  "give_class S E k index c conn q nd =
    (if qro_classDefinition q = [] then
       with_rep c (setDynamicMetaObject (metaObjectForType (mk_class E) (replica_bases E)
         (child_typeName E q (case impls nd k of None \<Rightarrow> None | Some r \<Rightarrow> getProperty index r))
         (dynamicTypeManager nd))) nd
     else
       let (cl, rest, ts) = addDynamicType S (hashOrder E) (case conn of None \<Rightarrow> 0 | Some x \<Rightarrow> x)
             (qro_classDefinition q, dynamicTypeManager nd)
       in with_rep c (setDynamicMetaObject (mk_class E cl # replica_bases E)) (nd\<lparr>dynamicTypeManager := ts\<rparr>))"

text \<open>
  \<open>handlePointerToQObjectProperty\<close> and its loop over the object properties. The values nest only as
  deep as the packet does, which the fuel bounds.
\<close>

fun handlePointerToQObjectProperty ::
    "'v qstream \<Rightarrow> 'v node_env \<Rightarrow> nat \<Rightarrow> repid \<Rightarrow> int \<Rightarrow> 'v \<Rightarrow> 'v node \<Rightarrow> 'v option \<times> 'v node"
  and handlePointerToQObjectProperties ::
    "'v qstream \<Rightarrow> 'v node_env \<Rightarrow> nat \<Rightarrow> repid \<Rightarrow> int list \<Rightarrow> 'v list \<Rightarrow> 'v node \<Rightarrow> 'v list \<times> 'v node"
where
  "handlePointerToQObjectProperty S E 0 k index property nd = (None, nd)"
| "handlePointerToQObjectProperty S E (Suc n) k index property nd =
     (let q = qro_value E property
      in if qro_isNull q
         then (Some (if qro_type q = CLASS then null_class E else null_model E), forget (qro_name q) nd)
         else
           let (retval, nd1) = child_value S E k index q nd
           in case strong_ref (qro_name q) nd1 of
                None \<Rightarrow> (retval, node_fail (NullReplica (qro_name q)) nd1)
              | Some c \<Rightarrow>
                 let conn = (case impls nd1 k of None \<Rightarrow> None | Some r \<Rightarrow> connectionToSource r);
                     nd2 = with_rep c (\<lambda>r. if connectionToSource r = None then r\<lparr>connectionToSource := conn\<rparr> else r) nd1;
                     ps = child_parameters S q
                 in if (case impls nd2 c of None \<Rightarrow> False | Some r \<Rightarrow> needsDynamicInitialization r) then
                      let nd3 = give_class S E k index c conn q nd2;
                          (ps', nd4) = handlePointerToQObjectProperties S E n c
                            (case impls nd3 c of None \<Rightarrow> [] | Some r \<Rightarrow> m_childIndices r) ps nd3
                      in (retval, with_rep c (setDynamicProperties (ne_client E) ps') nd4)
                    else
                      let (ps', nd4) = handlePointerToQObjectProperties S E n c
                            (case impls nd2 c of None \<Rightarrow> [] | Some r \<Rightarrow> m_childIndices r) ps nd2
                      in (retval, with_rep c (initialize (ne_client E) (m_heartbeatInterval nd4) ps') nd4))"
| "handlePointerToQObjectProperties S E n k [] ps nd = (ps, nd)"
| "handlePointerToQObjectProperties S E n k (i # is) ps nd =
     (if i < 0 \<or> length ps \<le> nat i then (ps, node_fail (BadProperty i) nd)
      else case handlePointerToQObjectProperty S E n k i (ps ! nat i) nd of
             (None, nd1) \<Rightarrow> (ps, nd1)
           | (Some v, nd1) \<Rightarrow> handlePointerToQObjectProperties S E n k is (ps[nat i := v]) nd1)"

subsection \<open>The packets\<close>

definition protocol_error :: "conn \<Rightarrow> 'v node \<Rightarrow> 'v node" where
  "protocol_error c nd =
    (let nd1 = setLastError ProtocolMismatch nd
     in nd1\<lparr>n_links := (n_links nd1)(c := close_io (n_links nd1 c))\<rparr>)"

text \<open>Most packets are for one replica; when it is gone its name is forgotten.\<close>

definition for_replica :: "string \<Rightarrow> (repid \<Rightarrow> 'v node \<Rightarrow> 'v node) \<Rightarrow> 'v node \<Rightarrow> 'v node" where
  "for_replica name f nd = (case strong_ref name nd of None \<Rightarrow> forget name nd | Some k \<Rightarrow> f k nd)"

definition handle_handshake :: "'v qstream \<Rightarrow> conn \<Rightarrow> string \<Rightarrow> 'v node \<Rightarrow> 'v node" where
  "handle_handshake S c name nd =
    (if name \<noteq> protocolVersion then protocol_error c nd
     else nd\<lparr>n_links := (n_links nd)(c := (n_links nd c)\<lparr>io_codec := Some (dsp_new S 0)\<rparr>)\<rparr>)"

text \<open>
  An object list: first every new source is noted (the registry's replica is connected at once),
  then the replicas that wait for one of the sources are connected.
\<close>

definition note_source :: "'v qstream \<Rightarrow> conn \<Rightarrow> object_info \<Rightarrow> 'v node \<Rightarrow> 'v node" where
  "note_source S c ob nd =
    (if oi_name ob \<in> fst ` set (connectedSources nd) then nd
     else
       let nd1 = nd\<lparr>connectedSources := qmap_insert (oi_name ob) \<lparr>si_device = c, si_typeName = oi_typeName ob,
                      si_signature = oi_signature ob\<rparr> (connectedSources nd),
                    n_links := (n_links nd)(c := (n_links nd c)\<lparr>m_remoteObjects := List.insert (oi_name ob) (m_remoteObjects (n_links nd c))\<rparr>)\<rparr>
       in if oi_name ob = ''Registry'' \<and> oi_name ob \<in> fst ` set (replicas nd1)
          then handleReplicaConnection S (oi_name ob) nd1 else nd1)"

definition connect_waiting :: "'v qstream \<Rightarrow> object_info \<Rightarrow> 'v node \<Rightarrow> 'v node" where
  "connect_waiting S ob nd =
    (if oi_name ob \<in> fst ` set (replicas nd) then handleReplicaConnection S (oi_name ob) nd else nd)"

definition handle_objectList :: "'v qstream \<Rightarrow> conn \<Rightarrow> object_info list \<Rightarrow> 'v node \<Rightarrow> 'v node" where
  "handle_objectList S c obs nd = fold (connect_waiting S) obs (fold (note_source S c) obs nd)"

definition child_indices_of :: "repid \<Rightarrow> 'v node \<Rightarrow> int list" where
  "child_indices_of k nd = (case impls nd k of None \<Rightarrow> [] | Some r \<Rightarrow> m_childIndices r)"

definition handle_init :: "'v qstream \<Rightarrow> 'v node_env \<Rightarrow> nat \<Rightarrow> string \<Rightarrow> bytes \<Rightarrow> 'v node \<Rightarrow> 'v node \<times> bytes" where
  "handle_init S E fuel name i nd =
    (let (args, i1) = deserializeInitPacket S i (n_rxArgs nd);
         nd1 = nd\<lparr>n_rxArgs := args\<rparr>
     in (for_replica name (\<lambda>k nd.
           let (args', nd2) = handlePointerToQObjectProperties S E fuel k (child_indices_of k nd) args nd
           in with_rep k (initialize (ne_client E) (m_heartbeatInterval nd2) args') (nd2\<lparr>n_rxArgs := args'\<rparr>)) nd1, i1))"

definition handle_initDynamic ::
    "'v qstream \<Rightarrow> 'v node_env \<Rightarrow> nat \<Rightarrow> conn \<Rightarrow> string \<Rightarrow> bytes \<Rightarrow> 'v node \<Rightarrow> 'v node \<times> bytes" where
  "handle_initDynamic S E fuel c name i nd =
    (let (cl, i1, ts) = addDynamicType S (hashOrder E) c (i, dynamicTypeManager nd);
         (args, i2) = deserializeInitPacket S i1 (n_rxArgs nd);
         nd1 = nd\<lparr>n_rxArgs := args, dynamicTypeManager := ts\<rparr>
     in (for_replica name (\<lambda>k nd.
           let nd2 = with_rep k (setDynamicMetaObject (mk_class E cl # replica_bases E)) nd;
               (args', nd3) = handlePointerToQObjectProperties S E fuel k (child_indices_of k nd2) args nd2
           in with_rep k (setDynamicProperties (ne_client E) args') (nd3\<lparr>n_rxArgs := args'\<rparr>)) nd1, i2))"

text \<open>The source has been withdrawn. The children of the replica are left as they are.\<close>

definition handle_removeObject :: "conn \<Rightarrow> string \<Rightarrow> 'v node \<Rightarrow> 'v node" where
  "handle_removeObject c name nd =
    (let nd1 = nd\<lparr>connectedSources := qmap_remove name (connectedSources nd),
                  n_links := (n_links nd)(c := (n_links nd c)\<lparr>m_remoteObjects := removeAll name (m_remoteObjects (n_links nd c))\<rparr>)\<rparr>
     in if name \<notin> fst ` set (replicas nd1) then nd1
        else case strong_ref name nd1 of
               None \<Rightarrow> forget name nd1
             | Some k \<Rightarrow> with_rep k (\<lambda>r. if connectionToSource r = None then r else lose_connection r) nd1)"

definition is_variant_prop :: "metaprop option \<Rightarrow> bool" where
  "is_variant_prop p = (case p of None \<Rightarrow> False | Some q \<Rightarrow> mt_isVariant (mp_type q))"

text \<open>
  One change of a property. The type it is decoded to is that of the property behind the class's own
  offset; a gadget type that is new comes with its definition.
\<close>

definition change_property ::
    "'v qstream \<Rightarrow> 'v node_env \<Rightarrow> nat \<Rightarrow> conn \<Rightarrow> int \<Rightarrow> 'v \<Rightarrow> repid \<Rightarrow> 'v node \<Rightarrow> 'v node" where
  "change_property S E fuel c index v k nd =
    (if index \<in> set (child_indices_of k nd) then
       (case handlePointerToQObjectProperty S E fuel k index v nd of
          (None, nd2) \<Rightarrow> nd2
        | (Some v', nd2) \<Rightarrow> with_rep k (setProperty index v') nd2)
     else
       case impls nd k of
         None \<Rightarrow> nd
       | Some r \<Rightarrow>
          if m_metaObject r = [] then with_rep k (raise_fault NoMetaObject) nd
          else
            let p = prop_of (meta_of r) (index + int (mo_propOffset (meta_of r)));
                (v', ts) = (case asQro E v of
                    Some q \<Rightarrow>
                      if is_variant_prop p
                      then (fst (get_var S (qro_parameters q)),
                            snd (parseGadgets S (hashOrder E) c (qro_classDefinition q, dynamicTypeManager nd)))
                      else (v, dynamicTypeManager nd)
                  | None \<Rightarrow> (v, dynamicTypeManager nd))
            in with_rep k (setProperty index (cdec (ne_client E) v' (map_option mp_type p)))
                 (nd\<lparr>dynamicTypeManager := ts\<rparr>))"

definition handle_propertyChange ::
    "'v qstream \<Rightarrow> 'v node_env \<Rightarrow> nat \<Rightarrow> conn \<Rightarrow> string \<Rightarrow> bytes \<Rightarrow> 'v node \<Rightarrow> 'v node \<times> bytes" where
  "handle_propertyChange S E fuel c name i nd =
    (let (w, v, i1) = deserializePropertyChangePacket S i
     in (for_replica name (change_property S E fuel c (sint w) v) (nd\<lparr>n_rxValue := Some v\<rparr>), i1))"

text \<open>
  A signal of the source: with arguments they are decoded, without any the parameter is the changed
  property's value.
\<close>

definition signal_args :: "'v client_env \<Rightarrow> metamethod option \<Rightarrow> 'v list \<Rightarrow> 'v list" where
  "signal_args E m args =
    map (\<lambda>i. case m of
          None \<Rightarrow> cdec E (args ! i) None
        | Some mm \<Rightarrow>
           if i < length (mm_params mm)
           then (if mt_isVariant (mm_params mm ! i) then args ! i else cdec E (args ! i) (Some (mm_params mm ! i)))
           else cdec E (args ! i) None) [0 ..< length args]"

definition method_of :: "metaobject list \<Rightarrow> int \<Rightarrow> metamethod option" where
  "method_of ms i =
    (case ms of [] \<Rightarrow> None
     | mo # _ \<Rightarrow> if 0 \<le> i \<and> nat i < length (mo_methods mo) then Some (mo_methods mo ! nat i) else None)"

definition handle_signal :: "'v qstream \<Rightarrow> 'v node_env \<Rightarrow> string \<Rightarrow> bytes \<Rightarrow> 'v node \<Rightarrow> 'v node \<times> bytes" where
  "handle_signal S E name i nd =
    (let (p, i1) = deserializeInvokePacket S i (n_rxArgs nd);
         nd1 = nd\<lparr>n_rxArgs := inv_args p\<rparr>;
         index = sint (inv_index p)
     in (for_replica name (\<lambda>k nd.
           with_rep k (\<lambda>r.
             let m = method_of (m_metaObject r) (index + m_signalOffset r)
             in if inv_args p \<noteq> [] then
                  (if m_metaObject r = [] then raise_fault NoMetaObject r
                   else emit_event (EvActivate (index + m_signalOffset r) (signal_args (ne_client E) m (inv_args p))) r)
                else if inv_property p \<noteq> -1 then
                  (case getProperty (sint (inv_property p)) r of
                     None \<Rightarrow> raise_fault (NoSuchProperty (sint (inv_property p))) r
                   | Some v \<Rightarrow> emit_event (EvActivate (index + m_signalOffset r) [v]) r)
                else emit_event (EvActivate (index + m_signalOffset r) []) r)
           (nd\<lparr>n_rxArgs := (case impls nd k of None \<Rightarrow> inv_args p
               | Some r \<Rightarrow> signal_args (ne_client E) (method_of (m_metaObject r) (index + m_signalOffset r)) (inv_args p))\<rparr>)) nd1, i1))"

definition handle_reply :: "'v qstream \<Rightarrow> 'v node_env \<Rightarrow> string \<Rightarrow> bytes \<Rightarrow> 'v node \<Rightarrow> 'v node \<times> bytes" where
  "handle_reply S E name i nd =
    (let (acked, v, i1) = deserializeInvokeReplyPacket S i
     in (for_replica name (\<lambda>k nd.
           let v' = cdec (ne_client E) v None
           in with_rep k (notifyAboutReply acked v') (nd\<lparr>n_rxValue := Some v'\<rparr>)) (nd\<lparr>n_rxValue := Some v\<rparr>), i1))"

definition client_handler :: "'v qstream \<Rightarrow> 'v node_env \<Rightarrow> nat \<Rightarrow> conn \<Rightarrow> 'v node handler" where
  "client_handler S E fuel c t name i nd =
    (if t \<noteq> Handshake \<and> io_codec (n_links nd c) = None then (False, protocol_error c nd, i)
     else case t of
       Pong \<Rightarrow> (True, for_replica name (\<lambda>k. with_rep k (notifyAboutReply 0 (no_value E))) nd, i)
     | Handshake \<Rightarrow> (True, handle_handshake S c name nd, i)
     | ObjectList \<Rightarrow> (let (obs, i1) = deserializeObjectListPacket S i in (True, handle_objectList S c obs nd, i1))
     | InitPacket \<Rightarrow> (let (nd1, i1) = handle_init S E fuel name i nd in (True, nd1, i1))
     | InitDynamicPacket \<Rightarrow> (let (nd1, i1) = handle_initDynamic S E fuel c name i nd in (True, nd1, i1))
     | RemoveObject \<Rightarrow> (True, handle_removeObject c name nd, i)
     | PropertyChangePacket \<Rightarrow> (let (nd1, i1) = handle_propertyChange S E fuel c name i nd in (True, nd1, i1))
     | InvokePacket \<Rightarrow> (let (nd1, i1) = handle_signal S E name i nd in (True, nd1, i1))
     | InvokeReplyPacket \<Rightarrow> (let (nd1, i1) = handle_reply S E name i nd in (True, nd1, i1))
     | _ \<Rightarrow> (True, nd, i))"

definition onClientRead ::
    "'v qstream \<Rightarrow> 'v node_env \<Rightarrow> nat \<Rightarrow> conn \<Rightarrow> bytes \<Rightarrow> string \<times> 'v node \<times> rxdevice \<Rightarrow> string \<times> 'v node \<times> rxdevice" where
  "onClientRead S E fuel c = on_ready_read S (client_handler S E fuel c)"

subsection \<open>A lost connection\<close>

text \<open>The environment with the replicas that values point to at this moment.\<close>

definition client_now :: "'v node_env \<Rightarrow> 'v node \<Rightarrow> 'v client_env" where
  "client_now E nd =
    (ne_client E)\<lparr>child_of := (\<lambda>v. case instance_of E v of None \<Rightarrow> None | Some inst \<Rightarrow> d_impls nd inst)\<rparr>"

definition lose_source :: "'v node_env \<Rightarrow> nat \<Rightarrow> conn \<Rightarrow> string \<Rightarrow> 'v node \<Rightarrow> 'v node" where
  "lose_source E fuel c name nd =
    (let nd1 = nd\<lparr>connectedSources := qmap_remove name (connectedSources nd),
                  n_links := (n_links nd)(c := (n_links nd c)\<lparr>m_remoteObjects := removeAll name (m_remoteObjects (n_links nd c))\<rparr>)\<rparr>
     in if name \<notin> fst ` set (replicas nd1) then nd1
        else case strong_ref name nd1 of
               None \<Rightarrow> forget name nd1
             | Some k \<Rightarrow>
                (case impls nd1 k of
                   None \<Rightarrow> nd1
                 | Some r \<Rightarrow>
                    if connectionToSource r = None then nd1
                    else nd1\<lparr>impls := setDisconnected (client_now E nd1) fuel k (impls nd1)\<rparr>))"

definition onShouldReconnect :: "'v node_env \<Rightarrow> nat \<Rightarrow> conn \<Rightarrow> 'v node \<Rightarrow> 'v node" where
  "onShouldReconnect E fuel c nd =
    (let nd1 = fold (lose_source E fuel c) (m_remoteObjects (n_links nd c)) nd
     in if io_url (n_links nd1 c) \<in> set (requestedUrls nd1)
        then nd1\<lparr>pendingReconnect := List.insert c (pendingReconnect nd1), reconnectTimer := True\<rparr>
        else nd1)"

end
