(* ===== verification/NodeLife.thy ===== *)
theory NodeLife
  imports NodeRead
begin

text \<open>
  What stays true of a client node whatever happens to it: the sources it knows are noted at the
  connection they came by, and every address it dials is remembered.
\<close>

subsection \<open>The identity of connections\<close>

definition link_id :: "clientio \<Rightarrow> string list \<times> bool \<times> string" where
  "link_id io = (m_remoteObjects io, io_isClient io, io_url io)"

definition same_ids :: "links \<Rightarrow> links \<Rightarrow> bool" where
  "same_ids l l' \<longleftrightarrow> (\<forall>c. link_id (l' c) = link_id (l c))"

lemma same_ids_refl [simp]: "same_ids l l"
  by (simp add: same_ids_def)

lemma same_ids_trans: "same_ids l l' \<Longrightarrow> same_ids l' l'' \<Longrightarrow> same_ids l l''"
  by (simp add: same_ids_def)

lemma same_ids_write [simp]: "same_ids (snd x) (snd (codec_write f c x))"
  by (cases x) (auto simp: codec_write_def same_ids_def link_id_def split: option.split)

lemma same_ids_send [simp]: "same_ids (snd x) (snd (snd (sendCommand x)))"
  by (cases x) (auto simp: sendCommand_def same_ids_def link_id_def split: option.split prod.split)

lemma same_ids_command: "same_ids l (snd (snd (sendCommand (codec_write f c (r, l)))))"
  using same_ids_trans[OF same_ids_write[of "(r, l)" f c] same_ids_send] by simp

lemma same_ids_reply [simp]: "same_ids (snd x) (snd (snd (sendCommandWithReply n x)))"
proof -
  obtain b r l where "sendCommand x = (b, r, l)" by (metis prod_cases3)
  then show ?thesis using same_ids_send[of x] by (simp add: sendCommandWithReply_def Let_def)
qed

lemma same_ids_request [simp]: "same_ids (snd x) (snd (requestRemoteObjectSource S x))"
  by (cases x) (auto simp: requestRemoteObjectSource_def same_ids_command split: option.split)

lemma same_ids_setConnection [simp]: "same_ids (snd x) (snd (setConnection S c x))"
proof (cases x)
  case (Pair r l)
  show ?thesis
    using same_ids_request[of "(if connectionToSource r = None then r\<lparr>connectionToSource := Some c\<rparr> else r, l)" S]
    by (simp add: Pair setConnection_def)
qed

lemma same_ids_q_send [simp]: "same_ids (snd x) (snd (q_send S E call i args x))"
  by (cases x) (auto simp: q_send_def Let_def same_ids_command split: option.split)

lemma same_ids_delete [simp]: "same_ids l (delete_replica S (r, l))"
  by (auto simp: delete_replica_def same_ids_command split: option.split)

lemma same_ids_q_sendWithReply [simp]: "same_ids (snd x) (snd (snd (q_sendWithReply S E call i args x)))"
proof (cases x)
  case (Pair r l)
  have "same_ids l (snd (snd (sendCommandWithReply n (codec_write f c (r', l)))))" for n f c and r' :: "'a replica"
    using same_ids_trans[OF same_ids_write[of "(r', l)" f c] same_ids_reply] by simp
  then show ?thesis by (auto simp: Pair q_sendWithReply_def case_prod_beta split: option.split)
qed

lemma same_ids_drop: "same_ids l (snd (snd (drop_connection c (r, l))))"
  by (auto simp: drop_connection_def same_ids_def link_id_def disconnect_io_def close_io_def)

lemma same_ids_heartbeat [simp]: "same_ids (snd x) (snd (snd (heartbeat_timeout S x)))"
proof (cases x)
  case (Pair r l)
  show ?thesis
  proof (cases "connectionToSource r")
    case None
    then show ?thesis by (simp add: Pair heartbeat_timeout_def Let_def)
  next
    case (Some c)
    obtain o1 ra la where s: "sendCommandWithReply 0 (codec_write (serializePingPacket S (m_objectName r)) c
        (r\<lparr>hb_active := False\<rparr>, l)) = (o1, ra, la)" by (metis prod_cases3)
    have la: "same_ids l la"
      using same_ids_trans[OF same_ids_write[of "(r\<lparr>hb_active := False\<rparr>, l)" "serializePingPacket S (m_objectName r)" c]
          same_ids_reply[of _ 0]] by (simp add: s)
    have "same_ids l (snd (snd (drop_connection c (rb, la))))" for rb :: "'a replica"
      using same_ids_trans[OF la same_ids_drop] .
    then show ?thesis
      using Some s la by (cases o1) (simp_all add: Pair heartbeat_timeout_def Let_def same_ids_drop)
  qed
qed

subsection \<open>The invariant\<close>

definition sources_noted :: "'v node \<Rightarrow> bool" where
  "sources_noted nd \<longleftrightarrow> qmap_ok (connectedSources nd) \<and>
     (\<forall>(name, si) \<in> set (connectedSources nd). si_device si < nextConn nd \<and>
        name \<in> set (m_remoteObjects (n_links nd (si_device si))))"

definition urls_noted :: "'v node \<Rightarrow> bool" where
  "urls_noted nd \<longleftrightarrow> (\<forall>c < nextConn nd. io_isClient (n_links nd c) \<longrightarrow> io_url (n_links nd c) \<in> set (requestedUrls nd))"

text \<open>A step that leaves the known sources and the reconnecting alone, and at most adds connections.\<close>

definition keeps :: "'v node \<Rightarrow> 'v node \<Rightarrow> bool" where
  "keeps nd nd' \<longleftrightarrow> connectedSources nd' = connectedSources nd \<and>
     pendingReconnect nd' = pendingReconnect nd \<and> reconnectTimer nd' = reconnectTimer nd \<and>
     set (requestedUrls nd) \<subseteq> set (requestedUrls nd') \<and> nextConn nd \<le> nextConn nd' \<and>
     (\<forall>c < nextConn nd. link_id (n_links nd' c) = link_id (n_links nd c)) \<and>
     (\<forall>c < nextConn nd'. nextConn nd \<le> c \<longrightarrow> io_isClient (n_links nd' c) \<longrightarrow>
        io_url (n_links nd' c) \<in> set (requestedUrls nd'))"

lemma keeps_refl [simp]: "keeps nd nd"
  by (simp add: keeps_def)

lemma keeps_trans [trans]:
  assumes "keeps a b" and "keeps b c" shows "keeps a c"
proof -
  have "io_url (n_links c x) \<in> set (requestedUrls c)"
    if "x < nextConn c" "nextConn a \<le> x" "io_isClient (n_links c x)" for x
  proof (cases "x < nextConn b")
    case True
    then have "link_id (n_links c x) = link_id (n_links b x)" using assms(2) by (simp add: keeps_def)
    then have "io_url (n_links b x) \<in> set (requestedUrls b)" "io_url (n_links c x) = io_url (n_links b x)"
      using assms(1) that True by (auto simp: keeps_def link_id_def)
    then show ?thesis using assms(2) by (auto simp: keeps_def)
  next
    case False
    then show ?thesis using assms(2) that by (simp add: keeps_def)
  qed
  then show ?thesis using assms by (auto simp: keeps_def)
qed

lemma keeps_fold: "(\<And>x nd. keeps nd (f x nd)) \<Longrightarrow> keeps nd (fold f xs nd)"
  by (induction xs arbitrary: nd) (auto intro: keeps_trans)

lemma keeps_invariants:
  assumes "keeps nd nd'"
  shows "sources_noted nd \<Longrightarrow> sources_noted nd'" and "urls_noted nd \<Longrightarrow> urls_noted nd'"
proof -
  show "sources_noted nd'" if s: "sources_noted nd"
  proof -
    have "si_device si < nextConn nd' \<and> name \<in> set (m_remoteObjects (n_links nd' (si_device si)))"
      if "(name, si) \<in> set (connectedSources nd)" for name si
    proof -
      have a: "si_device si < nextConn nd" "name \<in> set (m_remoteObjects (n_links nd (si_device si)))"
        using s that by (auto simp: sources_noted_def)
      then have "link_id (n_links nd' (si_device si)) = link_id (n_links nd (si_device si))"
        using assms by (simp add: keeps_def)
      then show ?thesis using a assms by (auto simp: keeps_def link_id_def)
    qed
    then show ?thesis using s assms by (auto simp: sources_noted_def keeps_def)
  qed
  show "urls_noted nd'" if u: "urls_noted nd"
    unfolding urls_noted_def
  proof (intro allI impI)
    fix c assume c: "c < nextConn nd'" "io_isClient (n_links nd' c)"
    show "io_url (n_links nd' c) \<in> set (requestedUrls nd')"
    proof (cases "c < nextConn nd")
      case True
      then have "link_id (n_links nd' c) = link_id (n_links nd c)" using assms by (simp add: keeps_def)
      then show ?thesis using u c True assms by (auto simp: urls_noted_def keeps_def link_id_def)
    next
      case False
      then show ?thesis using assms c by (simp add: keeps_def)
    qed
  qed
qed

text \<open>Steps that change nothing but what \<open>keeps\<close> does not look at.\<close>

lemma keeps_same:
  assumes "connectedSources nd' = connectedSources nd" and "requestedUrls nd' = requestedUrls nd"
    and "nextConn nd' = nextConn nd" and "same_ids (n_links nd) (n_links nd')"
    and "pendingReconnect nd' = pendingReconnect nd" and "reconnectTimer nd' = reconnectTimer nd"
  shows "keeps nd nd'"
  using assms by (simp add: keeps_def same_ids_def)

lemma keeps_basic [simp]:
  "keeps nd (setLastError e nd)" "keeps nd (node_fail f nd)" "keeps nd (forget name nd)"
  "keeps nd (setHeartbeatInterval n nd)"
  by (auto intro: keeps_same simp: setLastError_def node_fail_def forget_def setHeartbeatInterval_def)

lemma keeps_with_impl:
  assumes "\<And>r l. same_ids l (snd (f (r, l)))"
  shows "keeps nd (with_impl k f nd)"
  using assms by (auto simp: with_impl_def case_prod_beta intro!: keeps_same split: option.split)

lemma keeps_with_rep [simp]: "keeps nd (with_rep k f nd)"
  unfolding with_rep_def by (rule keeps_with_impl) simp

lemma keeps_initConnection [simp]: "keeps nd (snd (initConnection E u nd))"
  by (auto simp: initConnection_def keeps_def Let_def new_link_def)

lemma keeps_openConnectionIfNeeded [simp]: "keeps nd (openConnectionIfNeeded E name nd)"
  by (simp add: openConnectionIfNeeded_def split: option.split)

lemma keeps_connect_impl [simp]: "keeps nd (connect_impl S g k c nd)"
proof -
  have "same_ids l (snd (setConnection S c (r, l)))" for l and r :: "'a replica"
    using same_ids_setConnection[of "(r, l)"] by simp
  then show ?thesis unfolding connect_impl_def by (intro keeps_with_impl) simp
qed

lemma keeps_handleReplicaConnection [simp]: "keeps nd (handleReplicaConnection S name nd)"
  by (simp add: handleReplicaConnection_def split: option.split)

lemma keeps_hasInstance [simp]: "keeps nd (snd (hasInstance name nd))"
  by (simp add: hasInstance_def split: option.split)

lemma keeps_handleNewAcquire [simp]: "keeps nd (snd (handleNewAcquire S E ms inst name nd))"
proof -
  have "keeps nd (nd\<lparr>impls := ia, nextImpl := ib\<rparr>)" for ia ib by (rule keeps_same) simp_all
  then show ?thesis
    by (auto simp: handleNewAcquire_def Let_def split: option.split
        intro: keeps_trans[OF _ keeps_connect_impl] keeps_trans[OF _ keeps_initConnection])
qed

lemma keeps_setReplicaImplementation [simp]: "keeps nd (setReplicaImplementation S E ms inst name ini nd)"
proof -
  obtain h na where h: "hasInstance name (openConnectionIfNeeded E name nd) = (h, na)" by fastforce
  have a: "keeps nd na"
    by (metis h keeps_hasInstance keeps_openConnectionIfNeeded keeps_trans snd_conv)
  have upd: "keeps x (x\<lparr>d_impls := d\<rparr>)" "keeps x (x\<lparr>replicas := rs\<rparr>)" for x :: "'a node" and d rs
    by (rule keeps_same; simp)+
  obtain k nb where b: "handleNewAcquire S E ms inst name na = (k, nb)" by fastforce
  have "keeps na nb" using keeps_handleNewAcquire[of na S E ms inst name] by (simp add: b)
  then have "keeps nd nb" using a by (rule keeps_trans[rotated])
  then have "keeps nd (with_rep k ini (nb\<lparr>d_impls := (d_impls nb)(inst \<mapsto> k)\<rparr>))"
    by (rule keeps_trans[OF keeps_trans[OF _ upd(1)] keeps_with_rep])
  then have "keeps nd ((with_rep k ini (nb\<lparr>d_impls := (d_impls nb)(inst \<mapsto> k)\<rparr>))\<lparr>replicas := rs\<rparr>)" for rs
    by (rule keeps_trans[OF _ upd(2)])
  moreover have "keeps nd (with_rep k' f (na\<lparr>d_impls := d\<rparr>))" for k' f d
    by (rule keeps_trans[OF keeps_trans[OF a upd(1)] keeps_with_rep])
  ultimately show ?thesis by (simp add: setReplicaImplementation_def h b Let_def)
qed

lemma keeps_acquireDynamic [simp]: "keeps nd (snd (acquireDynamic S E name nd))"
proof -
  have "keeps nd (nd\<lparr>nextInstance := x\<rparr>)" for x by (rule keeps_same) simp_all
  then show ?thesis
    by (simp add: acquireDynamic_def new_instance_def keeps_trans[OF _ keeps_setReplicaImplementation])
qed

lemma keeps_acquire [simp]: "keeps nd (snd (acquire S E ms name ini nd))"
proof -
  have "keeps nd (nd\<lparr>nextInstance := x, dynamicTypeManager := y\<rparr>)" for x y by (rule keeps_same) simp_all
  then show ?thesis
    by (simp add: acquire_def new_instance_def Let_def keeps_trans[OF _ keeps_setReplicaImplementation])
qed

lemma keeps_acquireModel [simp]: "keeps nd (snd (acquireModel S E name nd))"
  by (simp add: acquireModel_def)

subsection \<open>The handler and the other operations\<close>

lemma keeps_types: "keeps nd (nd\<lparr>dynamicTypeManager := ts\<rparr>)"
  by (rule keeps_same) simp_all

lemma keeps_rx: "keeps nd (nd\<lparr>n_rxArgs := xs\<rparr>)" "keeps nd (nd\<lparr>n_rxValue := v\<rparr>)"
  by (rule keeps_same; simp)+

lemma keeps_child_value [simp]: "keeps nd (snd (child_value S E k index q nd))"
proof (cases "impls nd k")
  case (Some rep)
  define nd1 where "nd1 = (if isInitialized rep
      then (case strong_ref (qro_name q) nd of None \<Rightarrow> forget (qro_name q) nd
            | Some c \<Rightarrow> (let ms = (case impls nd c of None \<Rightarrow> [] | Some r \<Rightarrow> m_metaObject r)
                 in (forget (qro_name q) nd)\<lparr>dynamicTypeManager := addFromMetaObject ms (dynamicTypeManager nd)\<rparr>))
      else nd)"
  have "keeps nd nd1"
    by (auto simp: nd1_def Let_def split: option.split intro: keeps_trans[OF _ keeps_types])
  then have "keeps nd (snd (acquireDynamic S E (qro_name q) nd1))" "keeps nd (snd (acquireModel S E (qro_name q) nd1))"
    by (rule keeps_trans, simp)+
  then show ?thesis by (simp add: child_value_def Some nd1_def[symmetric] case_prod_beta)
qed (simp add: child_value_def)

lemma keeps_give_class [simp]: "keeps nd (give_class S E k index c conn q nd)"
  using keeps_trans[OF keeps_types keeps_with_rep] by (auto simp: give_class_def case_prod_beta)

lemma keeps_child:
  "keeps nd (snd (handlePointerToQObjectProperty S E n k index v nd))"
  "keeps nd (snd (handlePointerToQObjectProperties S E n k is vs nd))"
proof (induction S E n k index v nd and S E n k "is" vs nd
    rule: handlePointerToQObjectProperty_handlePointerToQObjectProperties.induct)
  case (2 S E n k index property nd)
  let ?q = "qro_value E property"
  obtain rv nd1 where cv: "child_value S E k index ?q nd = (rv, nd1)" by fastforce
  have a: "keeps nd nd1" using keeps_child_value[of nd S E k index ?q] by (simp add: cv)
  show ?case
  proof (cases "qro_isNull ?q \<or> strong_ref (qro_name ?q) nd1 = None")
    case True
    then show ?thesis using a by (auto simp: cv Let_def intro: keeps_trans)
  next
    case False
    then obtain c where c: "strong_ref (qro_name ?q) nd1 = Some c" by auto
    define conn where "conn = (case impls nd1 k of None \<Rightarrow> None | Some r \<Rightarrow> connectionToSource r)"
    define nd2 where "nd2 = with_rep c (\<lambda>r. if connectionToSource r = None then r\<lparr>connectionToSource := conn\<rparr> else r) nd1"
    have b: "keeps nd nd2" using keeps_trans[OF a keeps_with_rep] by (simp add: nd2_def)
    define nd3 where "nd3 = give_class S E k index c conn ?q nd2"
    have d: "keeps nd nd3" using keeps_trans[OF b keeps_give_class] by (simp add: nd3_def)
    note IH = "2.IH"[OF refl _ cv[symmetric] refl c conn_def nd2_def refl]
    show ?thesis
    proof (cases "case impls nd2 c of None \<Rightarrow> False | Some r \<Rightarrow> needsDynamicInitialization r")
      case True
      obtain ps' nd4 where e: "handlePointerToQObjectProperties S E n c
          (case impls nd3 c of None \<Rightarrow> [] | Some r \<Rightarrow> m_childIndices r) (child_parameters S ?q) nd3 = (ps', nd4)" by fastforce
      have "keeps nd3 nd4"
        using IH(1)[OF _ True nd3_def] False e by simp
      then have "keeps nd (with_rep c f nd4)" for f
        using d by (blast intro: keeps_trans keeps_with_rep)
      then show ?thesis
        using False True c by (simp add: cv e Let_def conn_def[symmetric] nd2_def[symmetric] nd3_def[symmetric])
    next
      case dyn: False
      obtain ps' nd4 where e: "handlePointerToQObjectProperties S E n c
          (case impls nd2 c of None \<Rightarrow> [] | Some r \<Rightarrow> m_childIndices r) (child_parameters S ?q) nd2 = (ps', nd4)" by fastforce
      have "keeps nd2 nd4" using IH(2)[OF _ dyn] False e by simp
      then have "keeps nd (with_rep c f nd4)" for f
        using b by (blast intro: keeps_trans keeps_with_rep)
      then show ?thesis
        using False dyn c by (simp add: cv e Let_def conn_def[symmetric] nd2_def[symmetric])
    qed
  qed
next
  case (4 S E n k i "is" ps nd)
  then show ?case
    by (cases "handlePointerToQObjectProperty S E n k i (ps ! nat i) nd")
      (auto split: option.split intro: keeps_trans)
qed auto

text \<open>A packet for a replica never touches what is known of the sources.\<close>

lemma keeps_for_replica: "(\<And>k nd. keeps nd (f k nd)) \<Longrightarrow> keeps nd (for_replica name f nd)"
  by (simp add: for_replica_def split: option.split)

lemma keeps_handle_init [simp]: "keeps nd (fst (handle_init S E fuel name i nd))"
proof -
  have "keeps x (let (args', nd2) = handlePointerToQObjectProperties S E fuel k (child_indices_of k x) args x
      in with_rep k (initialize (ne_client E) (m_heartbeatInterval nd2) args') (nd2\<lparr>n_rxArgs := args'\<rparr>))"
    for x :: "'a node" and k args
    using keeps_child(2)[of x S E fuel k "child_indices_of k x" args]
    by (auto simp: case_prod_beta Let_def intro: keeps_trans[OF keeps_trans[OF _ keeps_rx(1)] keeps_with_rep])
  then show ?thesis
    by (auto simp: handle_init_def case_prod_beta Let_def intro!: keeps_trans[OF keeps_rx(1) keeps_for_replica])
qed

lemma keeps_handle_initDynamic [simp]: "keeps nd (fst (handle_initDynamic S E fuel c name i nd))"
proof -
  have "keeps x (let nd2 = with_rep k f x;
        (args', nd3) = handlePointerToQObjectProperties S E fuel k (child_indices_of k nd2) args nd2
      in with_rep k (setDynamicProperties (ne_client E) args') (nd3\<lparr>n_rxArgs := args'\<rparr>))"
    for x :: "'a node" and k args f
  proof -
    have "keeps x (snd (handlePointerToQObjectProperties S E fuel k is args (with_rep k f x)))" for "is"
      by (rule keeps_trans[OF keeps_with_rep keeps_child(2)])
    then show ?thesis
      by (auto simp: case_prod_beta Let_def intro: keeps_trans[OF keeps_trans[OF _ keeps_rx(1)] keeps_with_rep])
  qed
  moreover have "keeps nd (nd\<lparr>n_rxArgs := xs, dynamicTypeManager := ts\<rparr>)" for xs ts by (rule keeps_same) simp_all
  ultimately show ?thesis
    by (auto simp: handle_initDynamic_def case_prod_beta Let_def intro!: keeps_trans[OF _ keeps_for_replica])
qed

lemma keeps_change_property [simp]: "keeps nd (change_property S E fuel c index v k nd)"
proof -
  obtain o1 y where o1: "handlePointerToQObjectProperty S E fuel k index v nd = (o1, y)" by fastforce
  have "keeps nd y" using keeps_child(1)[of nd S E fuel k index v] by (simp add: o1)
  then show ?thesis
    using keeps_trans[OF keeps_types keeps_with_rep]
    by (auto simp: change_property_def o1 Let_def case_prod_beta split: option.split intro: keeps_trans)
qed

lemma keeps_handle_propertyChange [simp]: "keeps nd (fst (handle_propertyChange S E fuel c name i nd))"
  by (auto simp: handle_propertyChange_def case_prod_beta Let_def intro!: keeps_trans[OF keeps_rx(2) keeps_for_replica])

lemma keeps_handle_signal [simp]: "keeps nd (fst (handle_signal S E name i nd))"
proof -
  have "keeps x (with_rep k f (x\<lparr>n_rxArgs := xs\<rparr>))" for x :: "'a node" and k f xs
    by (rule keeps_trans[OF keeps_rx(1) keeps_with_rep])
  then show ?thesis
    by (auto simp: handle_signal_def case_prod_beta Let_def intro!: keeps_trans[OF keeps_rx(1) keeps_for_replica])
qed

lemma keeps_handle_reply [simp]: "keeps nd (fst (handle_reply S E name i nd))"
proof -
  have "keeps x (with_rep k f (x\<lparr>n_rxValue := v\<rparr>))" for x :: "'a node" and k f v
    by (rule keeps_trans[OF keeps_rx(2) keeps_with_rep])
  then show ?thesis
    by (auto simp: handle_reply_def case_prod_beta Let_def intro!: keeps_trans[OF keeps_rx(2) keeps_for_replica])
qed

definition invariant :: "'v node \<Rightarrow> bool" where
  "invariant nd \<longleftrightarrow> sources_noted nd \<and> urls_noted nd"

lemma keeps_inv: "keeps nd nd' \<Longrightarrow> invariant nd \<Longrightarrow> invariant nd'"
  using keeps_invariants by (auto simp: invariant_def)

lemma inv_relink:
  assumes "invariant nd" and "io_isClient io = io_isClient (n_links nd c)" and "io_url io = io_url (n_links nd c)"
    and "qmap_ok cs" and "nextConn nd = n"
    and "\<forall>(name, si) \<in> set cs. si_device si < n \<and>
      name \<in> set (m_remoteObjects (((n_links nd)(c := io)) (si_device si)))"
  shows "invariant (nd\<lparr>connectedSources := cs, n_links := (n_links nd)(c := io)\<rparr>)"
  using assms by (auto simp: invariant_def sources_noted_def urls_noted_def)

lemma in_qmap_insert: "e \<in> set (qmap_insert k v m) \<Longrightarrow> e = (k, v) \<or> e \<in> set m"
  by (induction k v m rule: qmap_insert.induct) (auto split: if_splits)

lemma inv_note_source:
  assumes "invariant nd" and "c < nextConn nd"
  shows "invariant (note_source S c ob nd) \<and> nextConn (note_source S c ob nd) \<ge> nextConn nd"
proof (cases "oi_name ob \<in> fst ` set (connectedSources nd)")
  case False
  let ?io = "(n_links nd c)\<lparr>m_remoteObjects := List.insert (oi_name ob) (m_remoteObjects (n_links nd c))\<rparr>"
  let ?cs = "qmap_insert (oi_name ob) \<lparr>si_device = c, si_typeName = oi_typeName ob, si_signature = oi_signature ob\<rparr> (connectedSources nd)"
  let ?n = "nd\<lparr>connectedSources := ?cs, n_links := (n_links nd)(c := ?io)\<rparr>"
  have n: "invariant ?n"
    using assms by (intro inv_relink[OF assms(1)])
      (auto simp: invariant_def sources_noted_def qmap_insert_ok dest!: in_qmap_insert)
  have k: "keeps ?n (handleReplicaConnection S (oi_name ob) ?n)" by simp
  then have "invariant (handleReplicaConnection S (oi_name ob) ?n)" "nextConn nd \<le> nextConn (handleReplicaConnection S (oi_name ob) ?n)"
    using keeps_inv[OF k n] by (simp_all add: keeps_def)
  moreover have "note_source S c ob nd \<in> {?n, handleReplicaConnection S (oi_name ob) ?n}"
    using False unfolding note_source_def Let_def by (simp only: if_False) (auto simp only: split: if_split)
  ultimately show ?thesis using n by auto
qed (use assms in \<open>simp add: note_source_def\<close>)

lemma inv_objectList:
  assumes "invariant nd" and "c < nextConn nd" shows "invariant (handle_objectList S c obs nd)"
proof -
  have "invariant (fold (note_source S c) obs nd)"
    using assms
  proof (induction obs arbitrary: nd)
    case (Cons ob obs)
    then show ?case using inv_note_source[OF Cons.prems, of S ob] by (simp add: Cons.IH)
  qed simp
  moreover have "keeps x (fold (connect_waiting S) obs x)" for x :: "'a node"
    by (rule keeps_fold) (simp add: connect_waiting_def)
  ultimately show ?thesis unfolding handle_objectList_def by (rule keeps_inv[rotated])
qed

text \<open>Forgetting a source, in both places.\<close>

lemma inv_drop_source:
  assumes "invariant nd"
  shows "invariant (nd\<lparr>connectedSources := qmap_remove name (connectedSources nd),
     n_links := (n_links nd)(c := (n_links nd c)\<lparr>m_remoteObjects := removeAll name (m_remoteObjects (n_links nd c))\<rparr>)\<rparr>)"
  using assms by (intro inv_relink[OF assms])
    (use qmap_remove_ok[of "connectedSources nd" name] in
      \<open>auto simp: invariant_def sources_noted_def qmap_remove_def\<close>)

lemma inv_removeObject: "invariant nd \<Longrightarrow> invariant (handle_removeObject c name nd)"
  using inv_drop_source[where nd = nd and name = name and c = c]
  by (auto simp: handle_removeObject_def Let_def split: option.split intro: keeps_inv[OF keeps_with_rep] keeps_inv[OF keeps_basic(3)])

lemma inv_relink_dev:
  assumes "invariant nd" and "link_id io = link_id (n_links nd c)"
  shows "invariant (nd\<lparr>n_links := (n_links nd)(c := io)\<rparr>)"
proof -
  have "keeps nd (nd\<lparr>n_links := (n_links nd)(c := io)\<rparr>)"
    using assms(2) by (intro keeps_same) (simp_all add: same_ids_def)
  then show ?thesis using assms(1) by (rule keeps_inv)
qed

lemma inv_protocol_error: "invariant nd \<Longrightarrow> invariant (protocol_error c nd)"
proof -
  assume "invariant nd"
  then have "invariant (setLastError ProtocolMismatch nd)" by (rule keeps_inv[rotated]) simp
  then show ?thesis by (simp add: protocol_error_def Let_def inv_relink_dev link_id_def close_io_def)
qed

lemma inv_handler:
  assumes "invariant nd" and "c < nextConn nd"
  shows "invariant (fst (snd (client_handler S E fuel c t name i nd)))"
proof -
  have h: "invariant (handle_handshake S c name nd)"
    using assms inv_protocol_error inv_relink_dev[of nd _ c] by (auto simp: handle_handshake_def link_id_def)
  have k: "invariant x" if "keeps nd x" for x using keeps_inv[OF that assms(1)] .
  have p: "keeps nd (for_replica name (\<lambda>k. with_rep k f) nd)" for f by (rule keeps_for_replica) simp
  show ?thesis
    using h p k inv_objectList[OF assms] inv_removeObject[OF assms(1)] inv_protocol_error[OF assms(1)]
    by (cases t) (simp_all add: client_handler_def case_prod_beta)
qed

subsection \<open>Losing a connection\<close>

lemma lose_source_sources [simp]:
  "connectedSources (lose_source E fuel c name nd) = qmap_remove name (connectedSources nd)"
  "nextConn (lose_source E fuel c name nd) = nextConn nd"
  "requestedUrls (lose_source E fuel c name nd) = requestedUrls nd"
  "io_url (n_links (lose_source E fuel c name nd) c') = io_url (n_links nd c')"
  by (auto simp: lose_source_def forget_def Let_def split: option.split)

lemma inv_lose_source: "invariant nd \<Longrightarrow> invariant (lose_source E fuel c name nd)"
proof -
  assume "invariant nd"
  note d = inv_drop_source[OF this, where name = name and c = c]
  have "keeps x (x\<lparr>impls := is\<rparr>)" for x :: "'a node" and "is" by (rule keeps_same) simp_all
  then show ?thesis
    using d by (auto simp: lose_source_def Let_def split: option.split intro: keeps_inv[OF keeps_basic(3)] keeps_inv)
qed

lemma fold_lose_source:
  "invariant nd \<Longrightarrow> invariant (fold (lose_source E fuel c) ns nd)"
  "connectedSources (fold (lose_source E fuel c) ns nd) = filter (\<lambda>e. fst e \<notin> set ns) (connectedSources nd)"
  "requestedUrls (fold (lose_source E fuel c) ns nd) = requestedUrls nd"
  "nextConn (fold (lose_source E fuel c) ns nd) = nextConn nd"
  "io_url (n_links (fold (lose_source E fuel c) ns nd) c') = io_url (n_links nd c')"
  by (induction ns arbitrary: nd) (auto simp: inv_lose_source qmap_remove_def intro: filter_cong)

lemma inv_pending [simp]:
  "invariant (x\<lparr>pendingReconnect := p, reconnectTimer := b\<rparr>) = invariant x"
  by (simp add: invariant_def sources_noted_def urls_noted_def)

lemma inv_onShouldReconnect: "invariant nd \<Longrightarrow> invariant (onShouldReconnect E fuel c nd)"
proof -
  assume "invariant nd"
  then have a: "invariant (fold (lose_source E fuel c) (m_remoteObjects (n_links nd c)) nd)" by (rule fold_lose_source)
  then show ?thesis by (simp add: onShouldReconnect_def Let_def)
qed

subsection \<open>The life of a node\<close>

text \<open>A new node knows nothing and has no connection.\<close>

definition new_node :: "'v node" where
  "new_node = \<lparr>replicas = [], connectedSources = [], schemaHandlers = [], handled = [], pendingReconnect = [],
     requestedUrls = [], registry = None, registryAddress = [], reconnectTimer = False, errors = [],
     n_rxArgs = [], n_rxValue = None, m_heartbeatInterval = 0,
     dynamicTypeManager = \<lparr>registered = [], s_managedTypes = [], s_trackedConnections = [],
       dynamicTypes = [], staticTypes = []\<rparr>,
     n_links = (\<lambda>_. new_link []), nextConn = 0, impls = (\<lambda>_. None), nextImpl = 0,
     d_impls = (\<lambda>_. None), nextInstance = 0, n_fault = None\<rparr>"

lemma inv_new_node [simp]: "invariant new_node"
  by (simp add: invariant_def sources_noted_def urls_noted_def new_node_def qmap_ok_def)

text \<open>
  What can happen to a node: the application acquires and deletes replicas, names a registry, dials
  hosts or passes a device in, and calls its replicas; packets arrive on a connection; devices ask
  to be reconnected; the registry announces sources; timers run out.
\<close>

inductive node_step :: "'v qstream \<Rightarrow> 'v node_env \<Rightarrow> 'v node \<Rightarrow> 'v node \<Rightarrow> bool"
  for S :: "'v qstream" and E :: "'v node_env" where
  ns_acquire: "node_step S E nd (snd (acquire S E ms name ini nd))"
| ns_acquireDynamic: "node_step S E nd (snd (acquireDynamic S E name nd))"
| ns_acquireModel: "node_step S E nd (snd (acquireModel S E name nd))"
| ns_delete: "node_step S E nd (delete_instance S inst nd)"
| ns_registry: "node_step S E nd (snd (setRegistryUrl S E url nd))"
| ns_connect: "node_step S E nd (snd (connectToNode E url nd))"
| ns_external: "node_step S E nd (addClientSideConnection dev nd)"
| ns_read: "c < nextConn nd \<Longrightarrow> node_step S E nd (fst (snd (client_handler S E fuel c t name i nd)))"
| ns_lost: "c < nextConn nd \<Longrightarrow> node_step S E nd (onShouldReconnect E fuel c nd)"
| ns_timer: "node_step S E nd (snd (timerEvent nd))"
| ns_added: "node_step S E nd (onRemoteObjectSourceAdded E e nd)"
| ns_removed: "node_step S E nd (onRemoteObjectSourceRemoved E e nd)"
| ns_regInit: "node_step S E nd (onRegistryInitialized E nd)"
| ns_heartbeat: "node_step S E nd (setHeartbeatInterval n nd)"
| ns_send: "node_step S E nd (with_impl k (q_send S (ne_client E) call idx args) nd)"
| ns_call: "node_step S E nd (with_impl k (\<lambda>x. snd (q_sendWithReply S (ne_client E) call idx args x)) nd)"
| ns_timeout: "node_step S E nd (with_impl k (\<lambda>x. snd (heartbeat_timeout S x)) nd)"
| ns_device: "node_step S E nd (nd\<lparr>n_links := (n_links nd)(c := (n_links nd c)\<lparr>io_dev := d\<rparr>)\<rparr>)"

lemma keeps_connectToNode [simp]: "keeps nd (snd (connectToNode E url nd))"
proof -
  obtain ok x where x: "initConnection E url nd = (ok, x)" by fastforce
  have "keeps nd x" using keeps_initConnection[of nd E url] by (simp add: x)
  then show ?thesis by (auto simp: connectToNode_def x intro: keeps_trans)
qed

lemma keeps_setRegistryUrl [simp]: "keeps nd (snd (setRegistryUrl S E url nd))"
proof -
  have "keeps nd (nd\<lparr>registryAddress := url\<rparr>)" by (rule keeps_same) simp_all
  then have a: "keeps nd (snd (acquire S E ms n ini (nd\<lparr>registryAddress := url\<rparr>)))" for ms n ini
    by (rule keeps_trans) simp
  have "keeps x (x\<lparr>registry := r\<rparr>)" for x :: "'a node" and r by (rule keeps_same) simp_all
  then have "keeps nd (snd (connectToNode E url ((snd (acquire S E ms n ini (nd\<lparr>registryAddress := url\<rparr>)))\<lparr>registry := r\<rparr>)))" for ms n ini r
    using a keeps_trans keeps_connectToNode by blast
  then show ?thesis by (simp add: setRegistryUrl_def case_prod_beta Let_def)
qed

lemma keeps_delete_instance [simp]: "keeps nd (delete_instance S inst nd)"
proof -
  have u: "keeps x (x\<lparr>d_impls := d\<rparr>)" for x :: "'a node" and d by (rule keeps_same) simp_all
  have "keeps x (x\<lparr>impls := is, n_links := delete_replica S (r, n_links x)\<rparr>)" for x :: "'a node" and "is" r
    by (rule keeps_same) simp_all
  then show ?thesis
    using keeps_trans[OF u keeps_with_rep] keeps_trans
    by (simp add: delete_instance_def Let_def split: option.split) blast
qed

lemma keeps_external [simp]: "keeps nd (addClientSideConnection dev nd)"
  by (auto simp: addClientSideConnection_def keeps_def split: option.split)

lemma keeps_set_locations [simp]: "keeps nd (set_locations E f nd)"
  by (simp add: set_locations_def split: option.split)

lemma keeps_added [simp]: "keeps nd (onRemoteObjectSourceAdded E e nd)"
proof -
  have "keeps nd (snd (initConnection E u (set_locations E f nd)))" "keeps nd (forget n (set_locations E f nd))" for u f n
    using keeps_trans[OF keeps_set_locations keeps_initConnection] keeps_trans[OF keeps_set_locations keeps_basic(3)] by blast+
  then show ?thesis by (simp add: onRemoteObjectSourceAdded_def Let_def)
qed

lemma keeps_regInit [simp]: "keeps nd (onRegistryInitialized E nd)"
  unfolding onRegistryInitialized_def by (rule keeps_fold) simp

lemma keeps_q_send [simp]: "keeps nd (with_impl k (q_send S E call idx args) nd)"
  by (rule keeps_with_impl) (metis same_ids_q_send snd_conv)

lemma keeps_q_call [simp]: "keeps nd (with_impl k (\<lambda>x. snd (q_sendWithReply S E call idx args x)) nd)"
  by (rule keeps_with_impl) (metis same_ids_q_sendWithReply snd_conv)

lemma keeps_timeout [simp]: "keeps nd (with_impl k (\<lambda>x. snd (heartbeat_timeout S x)) nd)"
  by (rule keeps_with_impl) (metis same_ids_heartbeat snd_conv)

lemma inv_step: "node_step S E nd nd' \<Longrightarrow> invariant nd \<Longrightarrow> invariant nd'"
proof (induction rule: node_step.induct)
  case (ns_read c nd fuel t name i)
  then show ?case by (simp add: inv_handler)
next
  case (ns_lost c nd fuel)
  then show ?case by (simp add: inv_onShouldReconnect)
next
  case (ns_timer nd)
  then show ?case by (simp add: timerEvent_def Let_def)
next
  case (ns_device nd c d)
  then show ?case by (simp add: inv_relink_dev link_id_def)
qed (simp_all add: onRemoteObjectSourceRemoved_def keeps_inv[OF keeps_acquire] keeps_inv[OF keeps_acquireDynamic]
      keeps_inv[OF keeps_acquireModel] keeps_inv[OF keeps_delete_instance] keeps_inv[OF keeps_setRegistryUrl]
      keeps_inv[OF keeps_connectToNode] keeps_inv[OF keeps_external] keeps_inv[OF keeps_added]
      keeps_inv[OF keeps_set_locations] keeps_inv[OF keeps_regInit] keeps_inv[OF keeps_basic(4)]
      keeps_inv[OF keeps_q_send] keeps_inv[OF keeps_q_call] keeps_inv[OF keeps_timeout])

subsection \<open>What waits to be reconnected\<close>

definition redialling :: "conn \<Rightarrow> 'v node \<Rightarrow> bool" where
  "redialling c nd \<longleftrightarrow> c \<in> set (pendingReconnect nd) \<and> reconnectTimer nd"

lemma redialling_keeps: "keeps nd nd' \<Longrightarrow> redialling c nd' = redialling c nd"
  by (simp add: keeps_def redialling_def)

lemma redialling_relink:
  "redialling c (nd\<lparr>connectedSources := cs\<rparr>) = redialling c nd"
  "redialling c (nd\<lparr>n_links := l\<rparr>) = redialling c nd"
  by (simp_all add: redialling_def)

lemma redialling_note_source [simp]: "redialling c (note_source S d ob nd) = redialling c nd"
  by (simp add: note_source_def Let_def redialling_keeps[OF keeps_handleReplicaConnection] redialling_relink)

lemma redialling_fold: "(\<And>x nd. redialling c (f x nd) = redialling c nd) \<Longrightarrow> redialling c (fold f xs nd) = redialling c nd"
  by (induction xs arbitrary: nd) auto

lemma redialling_handler: "redialling c (fst (snd (client_handler S E fuel d t name i nd))) = redialling c nd"
proof -
  have e: "redialling c (protocol_error d nd) = redialling c nd"
    by (simp add: protocol_error_def Let_def redialling_relink redialling_keeps[OF keeps_basic(1)])
  have h: "redialling c (handle_handshake S d name nd) = redialling c nd"
    by (simp add: handle_handshake_def e redialling_relink)
  have "keeps x (connect_waiting S ob x)" for x :: "'a node" and ob by (simp add: connect_waiting_def)
  then have o1: "redialling c (handle_objectList S d obs nd) = redialling c nd" for obs
    unfolding handle_objectList_def by (simp add: redialling_fold redialling_keeps)
  have r: "redialling c (handle_removeObject d name nd) = redialling c nd"
    by (simp add: handle_removeObject_def Let_def redialling_relink redialling_keeps[OF keeps_with_rep]
        redialling_keeps[OF keeps_basic(3)] split: option.split)
  have p: "keeps nd (for_replica name (\<lambda>k. with_rep k f) nd)" for f by (rule keeps_for_replica) simp
  show ?thesis
    using e h o1 r
    by (cases t) (simp_all add: client_handler_def case_prod_beta redialling_keeps[OF p] redialling_keeps[OF keeps_handle_init]
      redialling_keeps[OF keeps_handle_initDynamic] redialling_keeps[OF keeps_handle_propertyChange]
      redialling_keeps[OF keeps_handle_signal] redialling_keeps[OF keeps_handle_reply])
qed

lemma redialling_lost: "redialling c nd \<Longrightarrow> redialling c (onShouldReconnect E fuel d nd)"
proof -
  have "redialling c (lose_source E fuel d name x) = redialling c x" for name x
    by (simp add: lose_source_def Let_def redialling_def forget_def split: option.split)
  then have "redialling c (fold (lose_source E fuel d) ns nd) = redialling c nd" for ns by (rule redialling_fold)
  then show "redialling c nd \<Longrightarrow> redialling c (onShouldReconnect E fuel d nd)"
    by (simp add: onShouldReconnect_def Let_def redialling_def)
qed

lemma redialling_step:
  assumes "node_step S E nd nd'" and "redialling c nd" and "\<not> io_isOpen (n_links nd c)"
  shows "redialling c nd'"
  using assms
proof (induction rule: node_step.induct)
  case (ns_read d nd fuel t name i)
  then show ?case by (simp add: redialling_handler)
next
  case (ns_lost d nd fuel)
  then show ?case by (simp add: redialling_lost)
next
  case (ns_timer nd)
  then show ?case by (auto simp: redialling_def timerEvent_def Let_def filter_empty_conv)
qed (simp_all add: redialling_keeps[OF keeps_acquire] redialling_keeps[OF keeps_acquireDynamic]
      redialling_keeps[OF keeps_acquireModel] redialling_keeps[OF keeps_delete_instance] redialling_keeps[OF keeps_setRegistryUrl]
      redialling_keeps[OF keeps_connectToNode] redialling_keeps[OF keeps_external] redialling_keeps[OF keeps_added]
      onRemoteObjectSourceRemoved_def redialling_keeps[OF keeps_set_locations] redialling_keeps[OF keeps_regInit]
      redialling_keeps[OF keeps_basic(4)] redialling_keeps[OF keeps_q_send] redialling_keeps[OF keeps_q_call]
      redialling_keeps[OF keeps_timeout] redialling_relink)

lemma inv_steps: "(node_step S E)\<^sup>*\<^sup>* nd nd' \<Longrightarrow> invariant nd \<Longrightarrow> invariant nd'"
  by (induction rule: rtranclp_induct) (auto dest: inv_step)

end
