(* ===== verification/NodeProps.thy ===== *)
theory NodeProps
  imports NodeLife ReplicaProps
begin

text \<open>
  The properties of a client node: what a lost connection leaves behind, that it is dialled again,
  the handshake, and connections that cannot be made.
\<close>

subsection \<open>A node to look at\<close>

text \<open>The gadget tables and metaobjects play no role in the examples.\<close>

definition demo_node_env :: "u32 node_env" where
  "demo_node_env = \<lparr>ne_client = demo_env,
     ne_reg = \<lparr>of_locations = (\<lambda>_. 0), to_locations = (\<lambda>_. []), of_entry = (\<lambda>_. 0), add_index = 0, remove_index = 1\<rparr>,
     scheme_of = takeWhile (\<lambda>ch. ch \<noteq> CHR '':''), creates = (\<lambda>s. s = ''tcp''), asQro = (\<lambda>_. None),
     null_class = 0, null_model = 0, no_value = 0, instance_value = word_of_nat, model_value = word_of_nat,
     instance_of = (\<lambda>_. None), value_typeName = (\<lambda>_. []), mk_class = (\<lambda>_. thermo_meta),
     replica_bases = [], signal_base = 0, property_base = 0, model_class = [], registry_class = [],
     hashOrder = id\<rparr>"

subsection \<open>A lost connection\<close>

text \<open>Disconnecting a replica never connects another one, and makes none come or go.\<close>

definition calmer :: "(repid \<Rightarrow> 'v replica option) \<Rightarrow> (repid \<Rightarrow> 'v replica option) \<Rightarrow> bool" where
  "calmer reps reps' \<longleftrightarrow> (\<forall>c. (reps c = None \<longleftrightarrow> reps' c = None) \<and>
     (\<forall>r r'. reps c = Some r \<longrightarrow> reps' c = Some r' \<longrightarrow> connectionToSource r = None \<longrightarrow> connectionToSource r' = None))"

lemma calmer_refl [simp]: "calmer reps reps"
  by (simp add: calmer_def)

lemma calmer_trans: "calmer a b \<Longrightarrow> calmer b c \<Longrightarrow> calmer a c"
  unfolding calmer_def by (metis not_Some_eq)

lemma calmer_fold: "(\<And>i reps. calmer reps (f reps i)) \<Longrightarrow> calmer reps (foldl f reps is)"
  by (induction "is" arbitrary: reps) (auto intro: calmer_trans)

lemma connection_kept [simp]:
  "connectionToSource (raise_fault f r) = connectionToSource r" "connectionToSource (lose_connection r) = None"
  by (simp_all add: raise_fault_def lose_connection_def setState_def emit_event_def Let_def)

text \<open>The loop over the object properties.\<close>

definition disconnect_children ::
    "'v client_env \<Rightarrow> nat \<Rightarrow> 'v replica \<Rightarrow> (repid \<Rightarrow> 'v replica option) \<Rightarrow> (repid \<Rightarrow> 'v replica option)" where
  "disconnect_children E n r reps = foldl (\<lambda>reps i. case getProperty i r of
       None \<Rightarrow> reps
     | Some v \<Rightarrow> (case child_of E v of None \<Rightarrow> reps | Some c \<Rightarrow> setDisconnected E n c reps)) reps (m_childIndices r)"

lemma setDisconnected_Suc:
  "setDisconnected E (Suc n) k reps = (case reps k of None \<Rightarrow> reps | Some r \<Rightarrow>
     if connectionToSource r = None then reps(k \<mapsto> raise_fault NoConnection r)
     else disconnect_children E n (lose_connection r) (reps(k \<mapsto> lose_connection r)))"
  by (simp add: disconnect_children_def Let_def split: option.split)

lemma calmer_setDisconnected: "calmer reps (setDisconnected E n k reps)"
proof (induction n arbitrary: k reps)
  case (Suc n)
  have f: "calmer x (disconnect_children E n r x)" for x r
    unfolding disconnect_children_def by (rule calmer_fold) (simp add: Suc.IH split: option.split)
  have u: "calmer reps (reps(k \<mapsto> r'))" if "reps k = Some r" "connectionToSource r = None \<longrightarrow> connectionToSource r' = None" for r r'
    using that by (simp add: calmer_def)
  show ?case
    unfolding setDisconnected_Suc
    by (auto intro: u calmer_trans[OF u f] split: option.split)
qed simp

lemma calmer_children: "calmer reps (disconnect_children E n r reps)"
  unfolding disconnect_children_def by (rule calmer_fold) (simp add: calmer_setDisconnected split: option.split)

lemma setDisconnected_disconnects:
  assumes "setDisconnected E (Suc n) k reps k = Some r'" shows "connectionToSource r' = None"
proof (cases "reps k")
  case (Some r)
  let ?r = "lose_connection r"
  have "connectionToSource x = None" if "disconnect_children E n ?r (reps(k \<mapsto> ?r)) k = Some x" for x
  proof -
    have "\<forall>r'. disconnect_children E n ?r (reps(k \<mapsto> ?r)) k = Some r' \<longrightarrow> connectionToSource r' = None"
      using calmer_children[of "reps(k \<mapsto> ?r)" E n ?r, unfolded calmer_def, rule_format, of k] by simp
    with that show ?thesis by simp
  qed
  then show ?thesis
    using assms Some unfolding setDisconnected_Suc by (auto split: if_splits)
qed (use assms in \<open>simp add: setDisconnected_Suc\<close>)

lemma lose_source_calmer [simp]: "calmer (impls nd) (impls (lose_source E n c name nd))"
  by (simp add: lose_source_def Let_def forget_def calmer_setDisconnected split: option.split)

lemma lose_source_replicas [simp]:
  "x \<noteq> name \<Longrightarrow> map_of (replicas (lose_source E n c name nd)) x = map_of (replicas nd) x"
  by (simp add: lose_source_def Let_def forget_def AList.delete_conv split: option.split)

lemma lose_source_disconnects:
  assumes "strong_ref name nd = Some k" and "impls (lose_source E (Suc n) c name nd) k = Some r'"
  shows "connectionToSource r' = None"
proof -
  let ?n = "nd\<lparr>connectedSources := qmap_remove name (connectedSources nd),
        n_links := (n_links nd)(c := (n_links nd c)\<lparr>m_remoteObjects := removeAll name (m_remoteObjects (n_links nd c))\<rparr>)\<rparr>"
  obtain r where k: "map_of (replicas nd) name = Some k" "impls nd k = Some r"
    using assms(1) by (auto simp: strong_ref_def split: option.splits if_splits)
  have s: "strong_ref name ?n = Some k" using k by (simp add: strong_ref_def)
  have m: "name \<in> fst ` set (replicas nd)" using k(1) by (metis domI dom_map_of_conv_image_fst)
  have "impls (lose_source E (Suc n) c name nd) = (if connectionToSource r = None then impls nd
      else setDisconnected (client_now E ?n) (Suc n) k (impls nd))"
    using k s m by (simp add: lose_source_def Let_def del: setDisconnected.simps)
  then show ?thesis
    using assms(2) k(2) setDisconnected_disconnects by (metis option.inject)
qed

lemma fold_lose_calmer: "calmer (impls nd) (impls (fold (lose_source E n c) ns nd))"
  by (induction ns arbitrary: nd) (auto intro: calmer_trans lose_source_calmer)

lemma fold_lose_disconnects:
  "name \<in> set ns \<Longrightarrow> strong_ref name nd = Some k \<Longrightarrow>
     impls (fold (lose_source E (Suc n) c) ns nd) k = Some r' \<Longrightarrow> connectionToSource r' = None"
proof (induction ns arbitrary: nd)
  case (Cons a ns)
  let ?n = "lose_source E (Suc n) c a nd"
  have c: "calmer (impls ?n) (impls (fold (lose_source E (Suc n) c) ns ?n))" by (rule fold_lose_calmer)
  show ?case
  proof (cases "a = name")
    case True
    obtain r where r: "impls ?n k = Some r"
      using c Cons.prems(3) by (fastforce simp: calmer_def)
    then have "connectionToSource r = None"
      using lose_source_disconnects Cons.prems(2) True by metis
    then show ?thesis using c r Cons.prems(3) by (simp add: calmer_def)
  next
    case False
    then have "strong_ref name ?n = Some k"
      using Cons.prems(2) lose_source_calmer[of nd E "Suc n" c a] lose_source_replicas[of name a E "Suc n" c nd]
      by (auto simp: strong_ref_def calmer_def split: option.splits if_splits)
    then show ?thesis using Cons False by simp
  qed
qed simp

lemma onShouldReconnect_fields:
  assumes "nd' = onShouldReconnect E n c nd" and "L = fold (lose_source E n c) (m_remoteObjects (n_links nd c)) nd"
  shows "connectedSources nd' = connectedSources L" and "impls nd' = impls L" and "n_links nd' = n_links L"
  using assms by (simp_all add: onShouldReconnect_def Let_def)

text \<open>
  C7: When a connection of a node is lost, the node knows no source behind it any more, whatever
  happened before; sources of other connections stay known unless the lost one also offered their
  name, and the replica of every source of the lost connection is disconnected.
\<close>

theorem connection_lost:
  assumes "(node_step S E)\<^sup>*\<^sup>* new_node nd" and "nd' = onShouldReconnect E (Suc n) c nd"
  shows "(\<forall>e \<in> set (connectedSources nd'). si_device (snd e) \<noteq> c) \<and>
    (\<forall>e \<in> set (connectedSources nd). fst e \<notin> set (m_remoteObjects (n_links nd c)) \<longrightarrow> e \<in> set (connectedSources nd')) \<and>
    (\<forall>name \<in> set (m_remoteObjects (n_links nd c)). \<forall>k r'. strong_ref name nd = Some k \<longrightarrow>
       impls nd' k = Some r' \<longrightarrow> connectionToSource r' = None)"
proof -
  let ?ns = "m_remoteObjects (n_links nd c)"
  note f = onShouldReconnect_fields[OF assms(2) refl]
  have cs: "connectedSources nd' = filter (\<lambda>e. fst e \<notin> set ?ns) (connectedSources nd)"
    using f(1) by (simp add: fold_lose_source)
  have "sources_noted nd" using inv_steps[OF assms(1) inv_new_node] by (simp add: invariant_def)
  then have "fst e \<in> set ?ns" if "e \<in> set (connectedSources nd)" "si_device (snd e) = c" for e
    using that by (cases e) (auto simp: sources_noted_def)
  then have a: "\<forall>e \<in> set (connectedSources nd'). si_device (snd e) \<noteq> c" by (auto simp: cs)
  have b: "\<forall>e \<in> set (connectedSources nd). fst e \<notin> set ?ns \<longrightarrow> e \<in> set (connectedSources nd')" by (simp add: cs)
  have "\<forall>name \<in> set ?ns. \<forall>k r'. strong_ref name nd = Some k \<longrightarrow> impls nd' k = Some r' \<longrightarrow> connectionToSource r' = None"
    using f(2) fold_lose_disconnects by metis
  with a b show ?thesis by blast
qed

text \<open>A node that has dialled, and then knows one source of that connection.\<close>

definition demo_dialled :: "u32 node" where
  "demo_dialled =
     new_node\<lparr>requestedUrls := [''tcp:a''], n_links := (\<lambda>_. new_link [])(0 := new_link ''tcp:a''), nextConn := 1\<rparr>"

definition demo_node :: "u32 node" where
  "demo_node = fst (snd (client_handler le_stream demo_node_env 5 0 ObjectList []
     (put_list le_stream (put_object_info le_stream) [\<lparr>oi_name = ''thermo'', oi_typeName = ''Thermo'', oi_signature = []\<rparr>])
     (fst (snd (client_handler le_stream demo_node_env 5 0 Handshake protocolVersion [] demo_dialled)))))"

lemma demo_dialled_eq: "snd (connectToNode demo_node_env ''tcp:a'' new_node) = demo_dialled"
  by (simp add: demo_dialled_def connectToNode_def initConnection_def demo_node_env_def new_node_def)

lemma demo_node_reached: "(node_step le_stream demo_node_env)\<^sup>*\<^sup>* new_node demo_node"
proof -
  let ?b = "fst (snd (client_handler le_stream demo_node_env 5 0 Handshake protocolVersion [] demo_dialled))"
  have a: "node_step le_stream demo_node_env new_node demo_dialled" by (metis demo_dialled_eq ns_connect)
  have b: "node_step le_stream demo_node_env demo_dialled ?b" by (rule ns_read) (simp add: demo_dialled_def)
  have "nextConn ?b = 1" by (simp add: demo_dialled_def client_handler_def handle_handshake_def)
  then have c: "node_step le_stream demo_node_env ?b demo_node"
    unfolding demo_node_def by (intro ns_read) simp
  show ?thesis using a b c by (meson converse_rtranclp_into_rtranclp rtranclp.rtrancl_refl)
qed

lemma demo_node_fields:
  "connectedSources demo_node = [(''thermo'', \<lparr>si_device = 0, si_typeName = ''Thermo'', si_signature = []\<rparr>)]"
  "m_remoteObjects (n_links demo_node 0) = [''thermo'']" "io_isClient (n_links demo_node 0)"
  "nextConn demo_node = 1" "replicas demo_node = []" "io_url (n_links demo_node 0) = ''tcp:a''"
  "requestedUrls demo_node = [''tcp:a'']" "io_isOpen (n_links demo_node 0)" "pendingReconnect demo_node = []"
proof -
  have "object_info_fits \<lparr>oi_name = ''thermo'', oi_typeName = ''Thermo'', oi_signature = []\<rparr>"
    by (simp add: object_info_fits_def str_fits_def bytes_fit_def)
  then have r: "deserializeObjectListPacket le_stream (put_list le_stream (put_object_info le_stream)
      [\<lparr>oi_name = ''thermo'', oi_typeName = ''Thermo'', oi_signature = []\<rparr>]) =
      ([\<lparr>oi_name = ''thermo'', oi_typeName = ''Thermo'', oi_signature = []\<rparr>], [])"
    using qdata_stream.deserializeObjectList_rt[OF le_stream_laws, of "[\<lparr>oi_name = ''thermo'', oi_typeName = ''Thermo'', oi_signature = []\<rparr>]" "[]"]
    by (simp add: list_fits_def)
  show "connectedSources demo_node = [(''thermo'', \<lparr>si_device = 0, si_typeName = ''Thermo'', si_signature = []\<rparr>)]"
    "m_remoteObjects (n_links demo_node 0) = [''thermo'']" "io_isClient (n_links demo_node 0)"
    "nextConn demo_node = 1" "replicas demo_node = []" "io_url (n_links demo_node 0) = ''tcp:a''"
    "requestedUrls demo_node = [''tcp:a'']" "io_isOpen (n_links demo_node 0)" "pendingReconnect demo_node = []"
    by (simp_all add: demo_node_def demo_dialled_def client_handler_def handle_handshake_def r handle_objectList_def
        note_source_def connect_waiting_def new_node_def new_link_def io_isOpen_def)
qed

theorem connection_lost_witness:
  "list_all (\<lambda>e. si_device (snd e) \<noteq> 0) (connectedSources (onShouldReconnect demo_node_env 1 0 demo_node)) \<and>
   connectedSources demo_node \<noteq> []"
  using connection_lost[OF demo_node_reached, of _ 0 0] by (simp add: demo_node_fields list_all_iff)

text \<open>What can happen while a device is closed.\<close>

definition closed_step :: "'v qstream \<Rightarrow> 'v node_env \<Rightarrow> conn \<Rightarrow> 'v node \<Rightarrow> 'v node \<Rightarrow> bool" where
  "closed_step S E c nd nd' \<longleftrightarrow> node_step S E nd nd' \<and> \<not> io_isOpen (n_links nd c)"

lemma closed_steps_redial: "(closed_step S E c)\<^sup>*\<^sup>* nd nd' \<Longrightarrow> redialling c nd \<Longrightarrow> redialling c nd'"
  by (induction rule: rtranclp_induct) (auto simp: closed_step_def dest: redialling_step)

text \<open>
  C13: A connection the node made itself is dialled again when it is lost, whoever asked for it, and
  whatever else happens: until its device is open every turn of the timer dials it once more and the
  timer goes on.
\<close>

theorem redialled_until_open:
  assumes "(node_step S E)\<^sup>*\<^sup>* new_node nd" and "c < nextConn nd" and "io_isClient (n_links nd c)"
    and "(closed_step S E c)\<^sup>*\<^sup>* (onShouldReconnect E fuel c nd) nd'" and "\<not> io_isOpen (n_links nd' c)"
  shows "reconnectTimer nd' \<and> c \<in> set (fst (timerEvent nd')) \<and> redialling c (snd (timerEvent nd'))"
proof -
  have "io_url (n_links nd c) \<in> set (requestedUrls nd)"
    using inv_steps[OF assms(1) inv_new_node] assms(2,3) by (simp add: invariant_def urls_noted_def)
  then have "redialling c (onShouldReconnect E fuel c nd)"
    by (simp add: onShouldReconnect_def Let_def fold_lose_source redialling_def)
  then have "redialling c nd'" by (rule closed_steps_redial[OF assms(4)])
  then show ?thesis using assms(5) by (auto simp: redialling_def timerEvent_def Let_def filter_empty_conv)
qed

theorem redialled_until_open_witness:
  "let nd = demo_node\<lparr>n_links := (n_links demo_node)(0 := (n_links demo_node 0)\<lparr>io_dev := \<lparr>written = [], devOpen = False, isClosing = False\<rparr>\<rparr>)\<rparr>;
       nd' = onShouldReconnect demo_node_env 1 0 nd
   in 0 \<in> set (fst (timerEvent nd'))"
proof -
  let ?nd = "demo_node\<lparr>n_links := (n_links demo_node)(0 := (n_links demo_node 0)\<lparr>io_dev := \<lparr>written = [], devOpen = False, isClosing = False\<rparr>\<rparr>)\<rparr>"
  have "(node_step le_stream demo_node_env)\<^sup>*\<^sup>* new_node ?nd"
    using demo_node_reached ns_device by (rule rtranclp.rtrancl_into_rtrancl)
  moreover have "\<not> io_isOpen (n_links (onShouldReconnect demo_node_env 1 0 ?nd) 0)"
    by (simp add: onShouldReconnect_def Let_def demo_node_fields lose_source_def io_isOpen_def)
  ultimately show ?thesis
    using redialled_until_open[of le_stream demo_node_env ?nd 0 1] by (simp add: Let_def demo_node_fields)
qed

subsection \<open>The handshake\<close>

lemma dev_read_frame:
  assumes "qdata_stream S" and "msg_fits S m"
  shows "dev_read S old \<lparr>rxBuf = msg_frame S m @ rest, curReadSize = 0\<rparr> =
    ((True, msg_type m, msg_name old m), \<lparr>rxBuf = msg_args S m @ rest, curReadSize = 0\<rparr>)"
proof -
  note size = qdata_stream.frame_size_word[OF assms]
  have f: "msg_frame S m = put_u32 S (word_of_nat (2 + length (msg_body S m))) @ put_u16 S (packet_id (msg_type m)) @ msg_body S m"
    by (simp add: msg_frame_def frame_def)
  have len: "length (put_u32 S w) = 4" "length (put_u16 S v) = 2" for w v
    using assms(1) by (simp_all add: qdata_stream.u32_len qdata_stream.u16_len)
  show ?thesis
    using size qdata_stream.fromDataStream_msg[OF assms, of old rest]
    by (simp add: dev_read_def f qdata_stream.u32_rt[OF assms(1)] len)
qed



subsection \<open>Connections that cannot be made\<close>

text \<open>
  An address whose scheme nobody knows is refused, with an error, the first time only: it stays
  among the addresses asked for, so the next attempt counts as successful although there is still no
  connection to it.
\<close>

theorem failure_forgotten:
  assumes "url \<notin> set (requestedUrls nd)" and "scheme_of E url \<notin> set (schemaHandlers nd)"
    and "\<not> creates E (scheme_of E url)" and "connectToNode E url nd = (ok, nd1)"
  shows "\<not> ok \<and> errors nd1 = errors nd @ [RegistryNotAcquired] \<and> nextConn nd1 = nextConn nd \<and>
     connectToNode E url nd1 = (True, nd1)"
  using assms by (auto simp: connectToNode_def initConnection_def setLastError_def Let_def split: prod.splits if_splits)

theorem failure_forgotten_witness:
  "fst (connectToNode demo_node_env ''foo:a'' (snd (connectToNode demo_node_env ''foo:a'' new_node)))"
proof -
  obtain ok nd1 where c: "connectToNode demo_node_env ''foo:a'' new_node = (ok, nd1)" by fastforce
  have "connectToNode demo_node_env ''foo:a'' nd1 = (True, nd1)"
    using failure_forgotten[OF _ _ _ c] by (simp add: new_node_def demo_node_env_def)
  then show ?thesis by (simp add: c)
qed

end
