(* ===== verification/RegistryProps.thy ===== *)
theory RegistryProps
  imports Registry ReplicaProps
begin

text \<open>
  The properties of the registry: its table is what its signals say, but for a host that went away;
  and a node that reconnects to a registry forgets sources it still hosts.
\<close>

subsection \<open>The table and the signals\<close>

text \<open>What is called on the registry's source, and what a listener makes of a signal.\<close>

datatype reg_call = CallAdd string location | CallRemove string location

fun reg_do :: "reg_call \<Rightarrow> registry_source \<Rightarrow> registry_source" where
  "reg_do (CallAdd n x) rs = addSource (n, x) rs"
| "reg_do (CallRemove n x) rs = removeSource (n, x) rs"

fun heard :: "reg_signal \<Rightarrow> (string \<rightharpoonup> location) \<Rightarrow> (string \<rightharpoonup> location)" where
  "heard (RegAdded n x) t = t(n \<mapsto> x)"
| "heard (RegRemoved n x) t = t(n := None)"

definition table_heard :: "registry_source \<Rightarrow> bool" where
  "table_heard rs \<longleftrightarrow> map_of (m_sourceLocations rs) = fold heard (reg_signals rs) Map.empty"

definition empty_registry :: registry_source where
  "empty_registry = \<lparr>m_sourceLocations = [], reg_signals = []\<rparr>"

lemma table_heard_do: "table_heard rs \<Longrightarrow> table_heard (reg_do c rs)"
  by (cases c) (auto simp: table_heard_def addSource_def removeSource_def update_conv AList.delete_conv split: option.split)

lemma table_heard_run: "table_heard rs \<Longrightarrow> table_heard (fold reg_do cs rs)"
  by (induction cs arbitrary: rs) (simp_all add: table_heard_do)

lemma first_do:
  "map_of (m_sourceLocations rs) n = Some x \<Longrightarrow> (\<forall>y. c = CallRemove n y \<longrightarrow> loc_hostUrl y \<noteq> loc_hostUrl x) \<Longrightarrow>
   map_of (m_sourceLocations (reg_do c rs)) n = Some x"
  by (cases "n \<in> fst ` set (m_sourceLocations rs)"; cases c)
     (auto simp: addSource_def removeSource_def update_conv AList.delete_conv map_of_eq_None_iff[symmetric] split: option.split)


definition at :: "string \<Rightarrow> location" where
  "at url = \<lparr>loc_typeName = ''Thermo'', loc_hostUrl = url\<rparr>"


lemma remove_urls_filter: "remove_urls u es = filter (\<lambda>e. loc_hostUrl (snd e) \<noteq> u) es"
  by (induction es) auto

text \<open>
  When a host goes away, \<open>removeServer\<close> takes its sources out of the registry's table without a
  signal: the replicas of the registry are not told, and go on listing the sources.
\<close>

theorem server_removed_silently:
  assumes "rs = fold reg_do cs empty_registry" and "map_of (m_sourceLocations rs) n = Some x"
    and "rs' = removeServer (loc_hostUrl x) rs"
  shows "(n, x) \<notin> set (m_sourceLocations rs') \<and>
    (\<forall>e \<in> set (m_sourceLocations rs). loc_hostUrl (snd e) \<noteq> loc_hostUrl x \<longrightarrow> e \<in> set (m_sourceLocations rs')) \<and>
    fold heard (reg_signals rs') Map.empty n = Some x"
proof -
  have "table_heard rs" unfolding assms(1) by (rule table_heard_run) (simp add: table_heard_def empty_registry_def)
  then have "fold heard (reg_signals rs) Map.empty n = Some x" using assms(2) by (simp add: table_heard_def)
  then show ?thesis by (simp add: assms(3) removeServer_def remove_urls_filter)
qed

theorem server_removed_silently_witness:
  "let rs' = removeServer ''tcp:a'' (fold reg_do [CallAdd ''thermo'' (at ''tcp:a'')] empty_registry)
   in fold heard (reg_signals rs') Map.empty ''thermo'' = Some (at ''tcp:a'')"
proof -
  let ?rs = "fold reg_do [CallAdd ''thermo'' (at ''tcp:a'')] empty_registry"
  have "map_of (m_sourceLocations ?rs) ''thermo'' = Some (at ''tcp:a'')"
    by (simp add: addSource_def empty_registry_def)
  from server_removed_silently[OF refl this refl] show ?thesis by (simp add: Let_def at_def del: fold.simps)
qed

subsection \<open>Pushing a node's sources\<close>

lemma push_loop_kept: "fst (push_loop S E G locs es x) = filter (\<lambda>e. fst e \<notin> fst ` set locs) es"
  by (induction es arbitrary: x) (auto simp: case_prod_beta)

text \<open>
  When the registry comes back and still lists a source of the node, even under the node's own
  address, the node forgets that it hosts the source. If the source is withdrawn later, nothing is
  sent, and the registry goes on listing it.
\<close>

theorem own_entry_forgotten:
  assumes "m_state r = Valid" and "map_of hosted name = Some x" and "map_of (sourceLocations G r) name = Some x"
    and "pushToRegistryIfNeeded S E G (hosted, r, l) = (hosted', y)"
  shows "map_of hosted' name = None \<and> reg_removeSource S E G (name, x) (hosted', y) = (hosted', y)"
proof -
  have "hosted' = filter (\<lambda>e. fst e \<notin> fst ` set (sourceLocations G r)) hosted"
    using assms push_loop_kept[of S E G "sourceLocations G r" hosted "(r, l)"]
    by (auto simp: pushToRegistryIfNeeded_def split: if_splits)
  moreover have "name \<in> fst ` set (sourceLocations G r)" using assms(3) by (metis domI dom_map_of_conv_image_fst)
  ultimately have "name \<notin> fst ` set hosted'" by force
  then show ?thesis
    by (cases y) (auto simp: reg_removeSource_def map_of_eq_None_iff)
qed

definition demo_reg_env :: "u32 reg_env" where
  "demo_reg_env = \<lparr>of_locations = (\<lambda>_. 0), to_locations = (\<lambda>_. [(''thermo'', at ''tcp:a'')]),
     of_entry = (\<lambda>_. 0), add_index = 0, remove_index = 1\<rparr>"

theorem own_entry_forgotten_witness:
  "let r = demo_replica\<lparr>m_state := Valid, m_propertyStorage := [0, 0, 0]\<rparr>;
       pushed = pushToRegistryIfNeeded le_stream demo_env demo_reg_env ([(''thermo'', at ''tcp:a'')], r, demo_links)
   in reg_removeSource le_stream demo_env demo_reg_env (''thermo'', at ''tcp:a'') pushed = pushed"
proof -
  let ?r = "demo_replica\<lparr>m_state := Valid, m_propertyStorage := [0, 0, 0]\<rparr>"
  obtain h y where p: "pushToRegistryIfNeeded le_stream demo_env demo_reg_env ([(''thermo'', at ''tcp:a'')], ?r, demo_links) = (h, y)"
    using prod.exhaust by blast
  show ?thesis
    using own_entry_forgotten[OF _ _ _ p, of "''thermo''" "at ''tcp:a''"] p
    by (simp add: Let_def sourceLocations_def getProperty_def demo_reg_env_def)
qed

end
