(* ===== verification/HostClient.thy ===== *)
theory HostClient
  imports NodeProps HostProps
begin

text \<open>
  A host and a client together: the client handles what it receives message by message, however the
  bytes are cut, and a replica holds what its source holds.
\<close>

subsection \<open>The client as a handler of messages\<close>

definition client_step :: "'v qstream \<Rightarrow> 'v node_env \<Rightarrow> nat \<Rightarrow> Replica.conn \<Rightarrow> 'v msg \<Rightarrow> 'v node \<Rightarrow> 'v node" where
  "client_step S E fuel c m nd = fst (snd (client_handler S E fuel c (msg_type m) (msg_name [] m) (msg_args S m) nd))"

text \<open>
  After the handshake every packet is consumed whole but one that acquires an object, which a client
  leaves unread.
\<close>

fun is_add :: "'v msg \<Rightarrow> bool" where
  "is_add (M_Add n b) = True"
| "is_add _ = False"

definition client_accepts :: "Replica.conn \<Rightarrow> 'v msg \<Rightarrow> 'v node \<Rightarrow> bool" where
  "client_accepts c m nd \<longleftrightarrow> \<not> is_add m \<and> (msg_type m = Handshake \<or> io_codec (n_links nd c) \<noteq> None)"

context qdata_stream
begin

lemma client_consumes:
  assumes "msg_fits S m" and "client_accepts c m nd"
  shows "client_handler S E fuel c (msg_type m) (msg_name old m) (msg_args S m @ r) nd = (True, client_step S E fuel c m nd, r)"
proof -
  have rt: "deserializeInitPacket S (put_vars S vs) = (\<lambda>old. (vs, []))" "deserializeInitPacket S (put_vars S vs @ r) = (\<lambda>old. (vs, r))"
    if "m = M_Init n vs" for n vs
    using deserializeInitPacket_rt[of n vs "[]"] deserializeInitPacket_rt[of n vs r] assms(1) that
    by (auto simp: msg_fits_def fun_eq_iff)
  show ?thesis
  proof (cases m)
    case (M_Init n vs)
    with assms rt[OF M_Init] show ?thesis
      by (auto simp: client_step_def client_accepts_def client_handler_def handle_init_def Let_def)
  next
    case (M_Invoke n v)
    with assms deserializeInvokePacket_rt[of n v "[]"] deserializeInvokePacket_rt[of n v r] show ?thesis
      by (auto simp: client_step_def client_accepts_def client_handler_def handle_signal_def Let_def msg_fits_def)
  next
    case (M_Reply n i v)
    with assms deserializeReply_rt[of n i v "[]"] deserializeReply_rt[of n i v r] show ?thesis
      by (auto simp: client_step_def client_accepts_def client_handler_def handle_reply_def Let_def msg_fits_def)
  next
    case (M_Prop n i v)
    with assms deserializeProp_rt[of n i v "[]"] deserializeProp_rt[of n i v r] show ?thesis
      by (auto simp: client_step_def client_accepts_def client_handler_def handle_propertyChange_def Let_def msg_fits_def)
  next
    case (M_Objects os)
    with assms deserializeObjectList_rt[of os "[]"] deserializeObjectList_rt[of os r] show ?thesis
      by (auto simp: client_step_def client_accepts_def client_handler_def Let_def msg_fits_def)
  qed (use assms in \<open>auto simp: client_step_def client_accepts_def client_handler_def\<close>)
qed

lemma client_handles: "packet_handler S (client_handler S E fuel c) (client_step S E fuel c) (client_accepts c)"
  by unfold_locales (rule client_consumes)

end



subsection \<open>A replica follows its source\<close>

text \<open>Values that \<open>decodeVariant\<close> leaves alone and that hold no object or gadget.\<close>

definition plain :: "'v node_env \<Rightarrow> 'v \<Rightarrow> bool" where
  "plain E v \<longleftrightarrow> (\<forall>t. cdec (ne_client E) v t = v) \<and> asQro E v = None"

text \<open>The packets a host sends for an object with \<open>n\<close> properties, and what they say of its values.\<close>

fun tracked :: "'v node_env \<Rightarrow> string \<Rightarrow> nat \<Rightarrow> 'v msg \<Rightarrow> bool" where
  "tracked E name n (M_Init nm vs) \<longleftrightarrow> nm = name \<and> length vs = n \<and> list_all (plain E) vs"
| "tracked E name n (M_Prop nm i v) \<longleftrightarrow> nm = name \<and> 0 \<le> sint i \<and> sint i < int n \<and> plain E v"
| "tracked E name n (M_Invoke nm iv) \<longleftrightarrow> nm = name \<and>
     (inv_args iv \<noteq> [] \<or> inv_property iv = -1 \<or> (0 \<le> sint (inv_property iv) \<and> sint (inv_property iv) < int n))"
| "tracked E name n _ \<longleftrightarrow> False"

fun view_step :: "'v msg \<Rightarrow> 'v list \<Rightarrow> 'v list" where
  "view_step (M_Init nm vs) _ = vs"
| "view_step (M_Prop nm i v) vs = vs[nat (sint i) := v]"
| "view_step _ vs = vs"

fun is_init :: "'v msg \<Rightarrow> bool" where
  "is_init (M_Init nm vs) = True"
| "is_init _ = False"

text \<open>A replica of a known class without object properties, at a connection that has shaken hands.\<close>

definition following :: "Replica.conn \<Rightarrow> string \<Rightarrow> repid \<Rightarrow> 'v replica \<Rightarrow> 'v node \<Rightarrow> bool" where
  "following c name k r nd \<longleftrightarrow> strong_ref name nd = Some k \<and> impls nd k = Some r \<and>
     io_codec (n_links nd c) \<noteq> None \<and> m_metaObject r \<noteq> [] \<and> m_childIndices r = [] \<and> rfault r = None \<and>
     m_state r \<noteq> SignatureMismatch"

lemma strong_ref_rx [simp]:
  "strong_ref name (nd\<lparr>n_rxArgs := a\<rparr>) = strong_ref name nd"
  "strong_ref name (nd\<lparr>n_rxValue := v\<rparr>) = strong_ref name nd"
  "strong_ref name (nd\<lparr>dynamicTypeManager := ts\<rparr>) = strong_ref name nd"
  by (simp_all add: strong_ref_def split: option.split)

lemma following_with_rep:
  assumes "following c name k r nd" and "f r = r'" and "m_metaObject r' \<noteq> []" "m_childIndices r' = []"
    and "rfault r' = None" "m_state r' \<noteq> SignatureMismatch"
  shows "following c name k r' (with_rep k f nd)"
  using assms by (auto simp: following_def with_rep_def with_impl_def strong_ref_def split: option.splits)

lemma following_rx:
  "following c name k r nd \<Longrightarrow> following c name k r (nd\<lparr>n_rxArgs := a\<rparr>)"
  "following c name k r nd \<Longrightarrow> following c name k r (nd\<lparr>n_rxValue := v\<rparr>)"
  "following c name k r nd \<Longrightarrow> following c name k r (nd\<lparr>n_rxValue := v, dynamicTypeManager := dynamicTypeManager nd\<rparr>)"
  by (auto simp: following_def)

lemma following_init:
  assumes "following c name k r nd" and "length vs = length (m_propertyStorage r)" and "list_all (plain E) vs"
    and rt: "deserializeInitPacket S (put_vars S vs) (n_rxArgs nd) = (vs, [])"
  shows "\<exists>r'. following c name k r' (fst (handle_init S E fuel name (put_vars S vs) nd)) \<and>
      m_propertyStorage r' = vs \<and> m_state r' = Valid"
proof -
  let ?f = "initialize (ne_client E) (m_heartbeatInterval nd) vs"
  have v: "map (\<lambda>j. init_value (ne_client E) r j (vs ! j)) [0 ..< length vs] = vs"
    using assms(3) by (intro nth_equalityI) (auto simp: init_value_def plain_def list_all_length)
  have r': "m_metaObject (?f r) \<noteq> []" "m_childIndices (?f r) = []" "rfault (?f r) = None"
      "m_state (?f r) = Valid" "m_propertyStorage (?f r) = vs"
    using initialize_run[of r vs "ne_client E" "m_heartbeatInterval nd"] assms(1,2)
    by (simp_all add: following_def v[unfolded assms(2)] Let_def)
  have "fst (handle_init S E fuel name (put_vars S vs) nd) = with_rep k ?f (nd\<lparr>n_rxArgs := vs\<rparr>)"
    using assms(1) rt by (simp add: handle_init_def for_replica_def child_indices_of_def following_def)
  moreover have "following c name k (?f r) (with_rep k ?f (nd\<lparr>n_rxArgs := vs\<rparr>))"
    using following_rx(1)[OF assms(1)] refl r'(1-3) by (rule following_with_rep) (simp add: r')
  ultimately show ?thesis using r' by auto
qed

lemma following_step:
  assumes "qdata_stream S" and "msg_fits S m" and "following c name k r nd"
    and "tracked E name (length (m_propertyStorage r)) m"
  shows "\<exists>r'. following c name k r' (client_step S E fuel c m nd) \<and>
      m_propertyStorage r' = view_step m (m_propertyStorage r) \<and>
      (is_init m \<or> m_state r = Valid \<longrightarrow> m_state r' = Valid)"
proof (cases m)
  case (M_Init nm vs)
  have "deserializeInitPacket S (put_vars S vs) old = (vs, [])" for old
    using qdata_stream.deserializeInitPacket_rt[OF assms(1), of nm vs "[]" old] assms(2) M_Init by (auto simp: msg_fits_def)
  from following_init[OF assms(3) _ _ this, of E fuel] show ?thesis
    using assms(3,4) by (auto simp: M_Init client_step_def client_handler_def case_prod_beta following_def)
next
  case (M_Prop nm i v)
  have d: "deserializePropertyChangePacket S (put_u32 S i @ put_var S v) = (i, v, [])"
    using qdata_stream.deserializeProp_rt[OF assms(1), of nm i v "[]"] assms(2) M_Prop by (simp add: msg_fits_def)
  let ?r = "r\<lparr>m_propertyStorage := (m_propertyStorage r)[nat (sint i) := v]\<rparr>"
  have pl: "plain E v" and i: "0 \<le> sint i" "sint i < int (length (m_propertyStorage r))" and nm: "nm = name"
    using assms(4) M_Prop by simp_all
  have set: "setProperty (sint i) v r = ?r" using i by (simp add: setProperty_def)
  obtain t where "client_step S E fuel c m nd = with_rep k (setProperty (sint i) (cdec (ne_client E) v t))
      (nd\<lparr>n_rxValue := Some v, dynamicTypeManager := dynamicTypeManager nd\<rparr>)"
    using assms(3) pl
    by (auto simp: M_Prop nm client_step_def client_handler_def handle_propertyChange_def d for_replica_def
        change_property_def child_indices_of_def following_def plain_def Let_def)
  then have "client_step S E fuel c m nd = with_rep k (setProperty (sint i) v)
      (nd\<lparr>n_rxValue := Some v, dynamicTypeManager := dynamicTypeManager nd\<rparr>)" using pl by (simp add: plain_def)
  moreover have "following c name k ?r (with_rep k (setProperty (sint i) v)
      (nd\<lparr>n_rxValue := Some v, dynamicTypeManager := dynamicTypeManager nd\<rparr>))"
    using following_rx(3)[OF assms(3)] set by (rule following_with_rep) (use assms(3) in \<open>simp_all add: following_def\<close>)
  ultimately show ?thesis by (intro exI[of _ ?r]) (simp add: M_Prop)
next
  case (M_Invoke nm iv)
  have d: "deserializeInvokePacket S (msg_args S m) old = (iv, [])" for old
    using qdata_stream.deserializeInvokePacket_rt[OF assms(1), of nm iv "[]" old] assms(2) M_Invoke by (simp add: msg_fits_def)
  obtain f a where st: "client_step S E fuel c m nd = with_rep k f (nd\<lparr>n_rxArgs := a\<rparr>)"
      and f: "\<exists>e. f r = emit_event e r"
  proof -
    have nm: "nm = name" using assms(4) M_Invoke by simp
    define m0 where "m0 r = method_of (m_metaObject r) (sint (inv_index iv) + m_signalOffset r)" for r :: "'a replica"
    let ?f = "\<lambda>r. if inv_args iv \<noteq> [] then
                  (if m_metaObject r = [] then raise_fault NoMetaObject r
                   else emit_event (EvActivate (sint (inv_index iv) + m_signalOffset r) (signal_args (ne_client E) (m0 r) (inv_args iv))) r)
                else if inv_property iv \<noteq> -1 then
                  (case getProperty (sint (inv_property iv)) r of
                     None \<Rightarrow> raise_fault (NoSuchProperty (sint (inv_property iv))) r
                   | Some v \<Rightarrow> emit_event (EvActivate (sint (inv_index iv) + m_signalOffset r) [v]) r)
                else emit_event (EvActivate (sint (inv_index iv) + m_signalOffset r) []) r"
    have "client_step S E fuel c m nd = with_rep k ?f (nd\<lparr>n_rxArgs := signal_args (ne_client E) (m0 r) (inv_args iv)\<rparr>)"
      unfolding m0_def using assms(3) d by (auto simp: M_Invoke nm client_step_def client_handler_def handle_signal_def for_replica_def
          following_def Let_def)
    moreover have "\<exists>e. ?f r = emit_event e r"
      using assms(3,4) M_Invoke by (auto simp: following_def getProperty_def nat_less_iff)
    ultimately show ?thesis using that by blast
  qed
  then obtain e where e: "f r = emit_event e r" by blast
  have "following c name k (emit_event e r) (with_rep k f (nd\<lparr>n_rxArgs := a\<rparr>))"
    using following_rx(1)[OF assms(3)] e
    by (rule following_with_rep) (use assms(3) in \<open>simp_all add: following_def emit_event_def\<close>)
  then show ?thesis using st by (intro exI[of _ "emit_event e r"]) (simp add: M_Invoke emit_event_def)
qed (use assms(4) in simp_all)

text \<open>A run of tracked packets.\<close>

lemma view_length: "tracked E name (length vs) m \<Longrightarrow> length (view_step m vs) = length vs"
  by (cases m) auto

lemma tracked_not_add: "tracked E name n m \<Longrightarrow> \<not> is_add m"
  by (cases m) auto

lemma following_run:
  assumes "qdata_stream S" and "list_all (msg_fits S) ms" and "following c name k r nd"
    and "list_all (tracked E name (length (m_propertyStorage r))) ms"
  shows "run_accepts (client_accepts c) (client_step S E fuel c) ms nd \<and>
    (\<exists>r'. following c name k r' (fold (client_step S E fuel c) ms nd) \<and>
      m_propertyStorage r' = fold view_step ms (m_propertyStorage r) \<and>
      (list_ex is_init ms \<or> m_state r = Valid \<longrightarrow> m_state r' = Valid))"
  using assms(2-4)
proof (induction ms arbitrary: nd r)
  case (Cons m ms)
  obtain ra where ra: "following c name k ra (client_step S E fuel c m nd)"
      "m_propertyStorage ra = view_step m (m_propertyStorage r)" "is_init m \<or> m_state r = Valid \<longrightarrow> m_state ra = Valid"
    using following_step[OF assms(1) _ Cons.prems(2)] Cons.prems by fastforce
  have "length (m_propertyStorage ra) = length (m_propertyStorage r)"
    using view_length Cons.prems(3) ra(2) by fastforce
  then have "list_all (tracked E name (length (m_propertyStorage ra))) ms" using Cons.prems(3) by simp
  from Cons.IH[OF _ ra(1) this] Cons.prems ra(2,3) show ?case
    by (auto simp: client_accepts_def tracked_not_add following_def)
qed auto

subsection \<open>What the host sends\<close>

text \<open>
  Objects whose properties hold plain values: \<open>val name j w\<close> is property \<open>j\<close> of the object \<open>name\<close> in
  the world \<open>w\<close>, and writing it sends no type along.
\<close>

definition plain_props :: "'v qstream \<Rightarrow> ('v, 'w) environment \<Rightarrow> (string \<Rightarrow> int \<Rightarrow> 'w \<Rightarrow> 'v) \<Rightarrow> bool" where
  "plain_props S H val \<longleftrightarrow> (\<forall>s dyn j tw. propf H s dyn j tw = (put_var S (val (src_name s) j (snd tw)), tw))"

lemma plain_propsD: "plain_props S H val \<Longrightarrow> propf H s dyn j tw = (put_var S (val (src_name s) j (snd tw)), tw)"
  unfolding plain_props_def by blast

definition emission_msgs ::
    "('v, 'w) environment \<Rightarrow> (string \<Rightarrow> int \<Rightarrow> 'w \<Rightarrow> 'v) \<Rightarrow> 'v source \<Rightarrow> 'w \<Rightarrow> int \<Rightarrow> 'v list \<Rightarrow> 'v msg list" where
  "emission_msgs H val s w sig a =
    (let A = src_api s; raw = propertyRawIndexFromSignal A sig; isProp = propertyIndexFromSignal A sig \<ge> 0
     in (if isProp then [M_Prop (src_name s) (word_of_int raw) (val (src_name s) raw w)] else []) @
        [invoke_msg (enc H) (src_name s) InvokeMetaMethod (word_of_int sig) (marshalArgs A sig a (src_args s)) (-1)
           (word_of_int (if isProp then raw else propertyIndexFromSignal A sig))])"

lemma emission_bytes_msgs:
  assumes "plain_props S H val"
  shows "emission_bytes S H s dyn sig a tw = concat (map (msg_frame S) (emission_msgs H val s (snd tw) sig a))"
  by (simp add: emission_bytes_def emission_msgs_def plain_propsD[OF assms] Let_def prop_body_def msg_frame_def msg_body_def)

lemma plain_init_body:
  assumes "plain_props S H val"
  shows "frame S (packet_id InitPacket) (init_body S (propf H s dyn) (src_name s) n tw) =
    msg_frame S (M_Init (src_name s) (map (\<lambda>j. val (src_name s) j (snd tw)) (map int [0..<n])))"
proof -
  have "props_bytes (propf H s dyn) js tw = (put_elems (put_var S) (map (\<lambda>j. val (src_name s) j (snd tw)) js), tw)" for js
    by (induction js) (simp_all add: plain_propsD[OF assms])
  then show ?thesis by (simp add: init_body_def init_props_def msg_frame_def msg_body_def put_vars_def)
qed

text \<open>An open connection that listens to the root of source \<open>s\<close>.\<close>

definition listening :: "Source.conn \<Rightarrow> srcid \<Rightarrow> 'v source \<Rightarrow> ('v, 'w) sourceio \<Rightarrow> bool" where
  "listening c i s st \<longleftrightarrow> codec_clean st \<and> sources st i = Some s \<and>
     count_list (listeners (privates st (src_priv s))) c = 1 \<and>
     devOpen (devices st c) \<and> \<not> isClosing (devices st c)"

lemma emission_delivers:
  assumes "qdata_stream S" and "listening c i s st" and "plain_props S H val"
    and "st' = handleMetaCall S H i sig a st"
  shows "\<exists>s'. listening c i s' st' \<and> src_shape s' = src_shape s \<and> world st' = world st \<and>
    written (devices st' c) = written (devices st c) @ concat (map (msg_frame S) (emission_msgs H val s (world st) sig a))"
proof -
  have l: "codec_clean st" "sources st i = Some s" using assms(2) by (simp_all add: listening_def)
  have d: "devices st' c = dev_write (concat (map (msg_frame S) (emission_msgs H val s (world st) sig a))) (devices st c)"
    using qdata_stream.handleMetaCall_devices[OF assms(1) l refl, of H sig a] assms(2)
    by (simp add: assms(4) broadcast_def listening_def emission_bytes_msgs[OF assms(3)])
  have sh: "same_shape st st'" unfolding assms(4) by (rule handleMetaCall_shape)
  obtain s' where s': "sources st' i = Some s'" "src_shape s' = src_shape s" using sh l(2) by (rule same_shape_source)
  have p: "src_priv s' = src_priv s" using s'(2) by (cases s; cases s') (simp add: src_shape_def)
  have "world st' = world st"
    using l(2)
    by (simp add: assms(4) handleMetaCall_def Let_def split_beta plain_propsD[OF assms(3)] serializePropertyChangePacket_def send_list_def)
  moreover have "listening c i s' st'"
    using assms(2) s'(1) d handleMetaCall_clean[OF l(1), of S H i sig a]
    by (simp add: listening_def p same_shape_listeners[OF sh, unfolded assms(4)] assms(4))
  ultimately show ?thesis using s'(2) d assms(2) by (auto simp: listening_def dev_write_def)
qed

text \<open>
  The object lives on: each time its world changes it emits a signal, and a change of a property is
  announced by the signal that belongs to it.
\<close>

definition emit_all ::
    "'v qstream \<Rightarrow> ('v, 'w) environment \<Rightarrow> srcid \<Rightarrow> ('w \<times> int \<times> 'v list) list \<Rightarrow> ('v, 'w) sourceio \<Rightarrow> ('v, 'w) sourceio" where
  "emit_all S H i ems st = fold (\<lambda>(w, sig, a) st. handleMetaCall S H i sig a (st\<lparr>world := w\<rparr>)) ems st"

fun run_msgs ::
    "'v qstream \<Rightarrow> ('v, 'w) environment \<Rightarrow> (string \<Rightarrow> int \<Rightarrow> 'w \<Rightarrow> 'v) \<Rightarrow> srcid \<Rightarrow> ('w \<times> int \<times> 'v list) list \<Rightarrow>
     ('v, 'w) sourceio \<Rightarrow> 'v msg list" where
  "run_msgs S H val i [] st = []"
| "run_msgs S H val i ((w, sig, a) # ems) st =
     (case sources st i of None \<Rightarrow> [] | Some s \<Rightarrow> emission_msgs H val s w sig a) @
     run_msgs S H val i ems (handleMetaCall S H i sig a (st\<lparr>world := w\<rparr>))"

fun announced :: "api \<Rightarrow> (int \<Rightarrow> 'w \<Rightarrow> 'v) \<Rightarrow> 'w \<Rightarrow> ('w \<times> int \<times> 'v list) list \<Rightarrow> bool" where
  "announced A val w [] \<longleftrightarrow> True"
| "announced A val w ((w', sig, a) # ems) \<longleftrightarrow>
     (\<forall>j \<in> set [0 ..< propertyCount A]. val (int j) w' = val (int j) w \<or>
        (0 \<le> propertyIndexFromSignal A sig \<and> int j = propertyRawIndexFromSignal A sig)) \<and>
     announced A val w' ems"

definition values_at :: "api \<Rightarrow> (int \<Rightarrow> 'w \<Rightarrow> 'v) \<Rightarrow> 'w \<Rightarrow> 'v list" where
  "values_at A val w = map (\<lambda>j. val (int j) w) [0 ..< propertyCount A]"

text \<open>A table whose signals are numbered as the packets need it.\<close>

definition wire_api :: "api \<Rightarrow> bool" where
  "wire_api A \<longleftrightarrow> notifying_api A \<and> propertyCount A < 2 ^ 31 \<and> (\<forall>sig. -1 \<le> propertyIndexFromSignal A sig)"

lemma sint_of_index: "0 \<le> j \<Longrightarrow> j < 2 ^ 31 \<Longrightarrow> sint (word_of_int j :: int32) = j"
  by (simp add: sint_word_ariths signed_take_bit_int_eq_self_iff sint_sbintrunc')

lemma emission_view:
  assumes "wire_api A" and "src_api s = A" and "\<forall>j w. plain E (val (src_name s) j w)"
    and "announced A (val (src_name s)) w ((w', sig, a) # ems)"
  shows "list_all (tracked E (src_name s) (propertyCount A)) (emission_msgs H val s w' sig a) \<and>
    fold view_step (emission_msgs H val s w' sig a) (values_at A (val (src_name s)) w) = values_at A (val (src_name s)) w'"
proof (cases "0 \<le> propertyIndexFromSignal A sig")
  case True
  let ?raw = "propertyRawIndexFromSignal A sig"
  have r: "0 \<le> ?raw" "?raw < int (propertyCount A)"
    using assms(1) True notifying_api.signal_property notifying_api.raw_in_range by (auto simp: wire_api_def)
  have si: "sint (word_of_int ?raw :: int32) = ?raw"
    using r assms(1) by (intro sint_of_index) (auto simp: wire_api_def)
  have "(values_at A (val (src_name s)) w)[nat ?raw := val (src_name s) ?raw w'] = values_at A (val (src_name s)) w'"
  proof (rule nth_equalityI)
    fix j assume "j < length ((values_at A (val (src_name s)) w)[nat ?raw := val (src_name s) ?raw w'])"
    then have j: "j < propertyCount A" by (simp add: values_at_def)
    then have "val (src_name s) (int j) w' = val (src_name s) (int j) w \<or> int j = ?raw" using assms(4) by auto
    then show "(values_at A (val (src_name s)) w)[nat ?raw := val (src_name s) ?raw w'] ! j =
        values_at A (val (src_name s)) w' ! j"
      using j r by (auto simp: values_at_def nth_list_update)
  qed (simp add: values_at_def)
  then show ?thesis
    using True r assms(2,3) by (simp add: emission_msgs_def invoke_msg_def si Let_def)
next
  case False
  have "-1 \<le> propertyIndexFromSignal A sig" using assms(1) by (simp add: wire_api_def)
  with False have "propertyIndexFromSignal A sig = -1" by linarith
  moreover have "values_at A (val (src_name s)) w = values_at A (val (src_name s)) w'"
    using assms(4) False by (auto simp: values_at_def)
  ultimately show ?thesis using assms(2) by (simp add: emission_msgs_def invoke_msg_def Let_def)
qed

lemma run_delivers:
  assumes "qdata_stream S" and "plain_props S H val" and "wire_api (src_api s)" and "\<forall>j w. plain E (val (src_name s) j w)"
    and "listening c i s st" and "announced (src_api s) (val (src_name s)) (world st) ems"
  shows "let st' = emit_all S H i ems st; ms = run_msgs S H val i ems st
    in written (devices st' c) = written (devices st c) @ concat (map (msg_frame S) ms) \<and>
       list_all (tracked E (src_name s) (propertyCount (src_api s))) ms \<and>
       fold view_step ms (values_at (src_api s) (val (src_name s)) (world st)) =
         values_at (src_api s) (val (src_name s)) (world st')"
  using assms(3-6)
proof (induction ems arbitrary: st s)
  case (Cons e ems)
  obtain w sig a where e: "e = (w, sig, a)" by (cases e)
  let ?st = "st\<lparr>world := w\<rparr>"
  define st' where "st' = handleMetaCall S H i sig a ?st"
  have l: "listening c i s ?st" and src: "sources st i = Some s"
    using Cons.prems(3) by (simp_all add: listening_def codec_clean_def)
  obtain s' where s': "listening c i s' st'" "src_shape s' = src_shape s" "world st' = w"
      "written (devices st' c) = written (devices st c) @ concat (map (msg_frame S) (emission_msgs H val s w sig a))"
    using emission_delivers[OF assms(1) l assms(2) st'_def] by auto
  have n: "src_api s' = src_api s" "src_name s' = src_name s"
    using s'(2) by (cases s; cases s', simp add: src_shape_def)+
  note v = emission_view[where val = val and s = s, OF Cons.prems(1) refl Cons.prems(2) Cons.prems(4)[unfolded e], where H = H]
  from Cons.IH[OF _ _ s'(1)] Cons.prems e n s'(3)
  have "written (devices (emit_all S H i ems st') c) = written (devices st' c) @ concat (map (msg_frame S) (run_msgs S H val i ems st')) \<and>
     list_all (tracked E (src_name s) (propertyCount (src_api s))) (run_msgs S H val i ems st') \<and>
     fold view_step (run_msgs S H val i ems st') (values_at (src_api s) (val (src_name s)) w) =
       values_at (src_api s) (val (src_name s)) (world (emit_all S H i ems st'))" by (simp add: Let_def)
  then show ?case
    using v s'(4) src by (simp add: e emit_all_def st'_def[symmetric] Let_def)
qed (simp add: emit_all_def)

text \<open>
  C1: A replica follows its source. A client acquires an object of a host whose properties hold plain
  values, and the object then emits any number of signals, each change of a property with the signal
  of that property. Once the client has read what the host wrote to it, however cut into chunks, its
  replica is valid and its properties are those of the object.
\<close>

theorem replica_follows_source:
  assumes "qdata_stream S" and "plain_props S H val" and "wire_api (src_api s)"
    and "codec_clean st" and "map_of (m_sourceRoots st) (m_rxName st) = Some i" and "sources st i = Some s"
    and "c \<notin> set (listeners (privates st (src_priv s)))" and "devOpen (devices st c)" and "\<not> isClosing (devices st c)"
    and "announced (src_api s) (val (src_name s)) (world st) ems"
    and "st0 = handle_add S H c False st" and "st' = emit_all S H i ems st0"
    and "concat chunks = drop (length (written (devices st c))) (written (devices st' c))"
    and "list_all (msg_fits S) (M_Init (src_name s) (values_at (src_api s) (val (src_name s)) (world st)) # run_msgs S H val i ems st0)"
    and "following d (src_name s) k r nd" and "length (m_propertyStorage r) = propertyCount (src_api s)"
    and "\<forall>j w. plain E (val (src_name s) j w)"
    and "fold (onClientRead S E fuel d) chunks (nm, nd, \<lparr>rxBuf = [], curReadSize = 0\<rparr>) = (nm', nd', dv)"
  shows "\<exists>r'. impls nd' k = Some r' \<and> m_state r' = Valid \<and>
     m_propertyStorage r' = values_at (src_api s) (val (src_name s)) (world st') \<and> rxBuf dv = []"
proof -
  let ?init = "M_Init (src_name s) (values_at (src_api s) (val (src_name s)) (world st))"
  let ?ms = "run_msgs S H val i ems st0"
  have add: "st0 = addListener S H i c False st" using assms(5,11) by (simp add: handle_add_def)
  note add_sel = addListener_sel[OF assms(6), where S = S and E = H and io = c and dynamic = False, folded add]
  have dev0: "devices st0 c = dev_write (msg_frame S ?init) (devices st c)"
    using handle_add_result[OF assms(1,4,5,6) refl refl, of H c False] assms(11)
    by (simp add: plain_init_body[OF assms(2), unfolded packet_id.simps] values_at_def comp_def)
  have w0: "world st0 = world st"
  proof -
    have "fst (serialize_props (propf H s dyn) js (tw, x)) = tw" for dyn js tw x
      by (induction js arbitrary: x) (simp_all add: plain_propsD[OF assms(2)])
    then show ?thesis
      unfolding add using assms(6)
      by (simp add: addListener_def serializeInitPacket_def serializeProperties_def Let_def split_beta send_list_def)
  qed
  have "listening c i s st0"
    using add_sel(1,6,8) assms(6-9) dev0
    by (simp add: listening_def count_notin)
  from run_delivers[OF assms(1-3) assms(17) this, of ems] assms(10,12) w0
  have run: "written (devices st' c) = written (devices st0 c) @ concat (map (msg_frame S) ?ms)"
      "list_all (tracked E (src_name s) (propertyCount (src_api s))) ?ms"
      "fold view_step ?ms (values_at (src_api s) (val (src_name s)) (world st)) = values_at (src_api s) (val (src_name s)) (world st')"
    by (simp_all add: Let_def)
  have "written (devices st0 c) = written (devices st c) @ msg_frame S ?init" using dev0 assms(8,9) by (simp add: dev_write_def)
  then have bytes: "concat chunks = concat (map (msg_frame S) (?init # ?ms))" using run(1) assms(13) by simp
  have "tracked E (src_name s) (propertyCount (src_api s)) ?init"
    using assms(17) by (simp add: values_at_def list_all_iff)
  then have tr: "list_all (tracked E (src_name s) (length (m_propertyStorage r))) (?init # ?ms)" using run(2) assms(16) by simp
  note fr = following_run[OF assms(1,14,15) tr, of fuel]
  then obtain r' where "following d (src_name s) k r' (fold (client_step S E fuel d) (?init # ?ms) nd)"
      "m_propertyStorage r' = fold view_step (?init # ?ms) (m_propertyStorage r)" "m_state r' = Valid" by auto
  moreover have "nd' = fold (client_step S E fuel d) (?init # ?ms) nd \<and> rxBuf dv = []"
    using packet_handler.delivers_from_idle[OF qdata_stream.client_handles[OF assms(1)] assms(14) conjunct1[OF fr] bytes]
      assms(18) by (auto simp: onClientRead_def)
  ultimately show ?thesis using run(3) by (auto simp: following_def)
qed

lemma thermo_wire: "wire_api thermo_api"
proof -
  let ?d = "DynamicApiMap thermo_meta ''thermo'' ''Thermo''"
  have "notifying_api thermo_api"
    unfolding thermo_api_def by (rule dynamic_notifying) (simp_all add: thermo_meta_def int_type_def skipped_def)
  moreover have "m_propertyAssociatedWithSignal ?d = [0]" "m_properties ?d = [0]" by code_simp+
  ultimately show ?thesis
    by (simp add: wire_api_def thermo_api_values) (simp add: thermo_api_def dynamic_table_def index_at_def)
qed

definition level_at :: "string \<Rightarrow> int \<Rightarrow> nat \<Rightarrow> u32" where
  "level_at name j w = word_of_nat w"

definition demo_waiting :: "u32 node" where
  "demo_waiting = demo_node\<lparr>replicas := [(''thermo'', 0)], impls := [0 \<mapsto> demo_stored],
     n_links := (\<lambda>_. (new_link ''tcp:a'')\<lparr>io_codec := Some (dsp_new le_stream 0)\<rparr>)\<rparr>"

lemma demo_plain: "plain demo_node_env v"
  by (simp add: plain_def demo_node_env_def demo_env_def)

lemma thermo_plain_props: "plain_props le_stream thermo_env level_at"
  by (simp add: plain_props_def thermo_env_def level_at_def)

theorem replica_follows_source_witness:
  "let st = thermo_host\<lparr>m_rxName := ''thermo''\<rparr>;
       st' = emit_all le_stream thermo_env 0 [(21, 0, [21])] (handle_add le_stream thermo_env 3 False st);
       bytes = drop (length (written (devices st 3))) (written (devices st' 3));
       nd' = fst (snd (fold (onClientRead le_stream demo_node_env 5 0) [take 3 bytes, drop 3 bytes]
         ([], demo_waiting, \<lparr>rxBuf = [], curReadSize = 0\<rparr>)))
   in map_option m_propertyStorage (impls nd' 0) = Some [21]"
proof -
  let ?st = "thermo_host\<lparr>m_rxName := ''thermo''\<rparr>"
  let ?a = "handle_add le_stream thermo_env 3 False ?st"
  let ?st' = "emit_all le_stream thermo_env 0 [(21, 0, [21])] ?a"
  let ?b = "drop (length (written (devices ?st 3))) (written (devices ?st' 3))"
  let ?rd = "fold (onClientRead le_stream demo_node_env 5 0) [take 3 ?b, drop 3 ?b]
         ([], demo_waiting, \<lparr>rxBuf = [], curReadSize = 0\<rparr>)"
  obtain nm' nd' dv where rd: "?rd = (nm', nd', dv)" by (metis prod_cases3)
  have clean: "codec_clean ?st" using thermo_host_clean by simp
  have root: "map_of (m_sourceRoots ?st) (m_rxName ?st) = Some 0" and src: "sources ?st 0 = Some thermo_source"
    by (simp_all add: thermo_host_values)
  have dev: "devOpen (devices ?st 3)" "\<not> isClosing (devices ?st 3)"
    by (simp_all add: thermo_host_def newConnection_def enableRemoting_api_def enableRemoting_def
      host_start_def thermo_tree_def thermo_api_values new_root_def registerSource_def Let_def send_list_def case_prod_beta)
  have a: "?a = addListener le_stream thermo_env 0 3 False ?st" using root by (simp add: handle_add_def)
  have a_src: "sources ?a 0 = Some thermo_source" unfolding a using addListener_sel(6)[OF src] by (simp add: thermo_host_values)
  have w: "world ?a = 20"
    unfolding a by (simp add: addListener_def thermo_host_values thermo_env_def thermo_api_values serializeInitPacket_def
        serializeProperties_def)
  have enc: "enc thermo_env = (\<lambda>v. v)" by (simp add: thermo_env_def)
  have margs: "marshalArgs thermo_api 0 [21 :: u32] [] = [21]" by code_simp
  have ms: "run_msgs le_stream thermo_env level_at 0 [(21, 0, [21])] ?a =
      [M_Prop ''thermo'' 0 21, invoke_msg (\<lambda>v. v) ''thermo'' 0 0 [21] (-1) 0]"
    using margs by (simp add: a_src emission_msgs_def thermo_api_values level_at_def enc InvokeMetaMethod_def Let_def)
  have fits: "list_all (msg_fits le_stream) (M_Init (src_name thermo_source) (values_at (src_api thermo_source) (level_at (src_name thermo_source))
      (world ?st)) # run_msgs le_stream thermo_env level_at 0 [(21, 0, [21])] ?a)"
    unfolding ms
    by (simp add: msg_fits_def str_fits_def msg_body_def le_put_str_def put_elems_append values_at_def thermo_api_values
        list_fits_def invoke_msg_def put_vars_def le_put_var_def)
  have ann: "announced (src_api thermo_source) (level_at (src_name thermo_source)) (world ?st) [(21, 0, [21])]"
    by (simp add: thermo_api_values)
  have fol: "following 0 (src_name thermo_source) 0 demo_stored demo_waiting"
    by (simp add: following_def demo_waiting_def strong_ref_def demo_stored_def demo_replica_def new_connected_replica_def
        setProperties_def getTypeNameAndMetaobjectFromClassInfo_def thermo_meta_def child_indices_def int_type_def)
  have len: "length (m_propertyStorage demo_stored) = propertyCount (src_api thermo_source)"
    by (simp add: demo_stored_def setProperties_def thermo_api_values)
  have notin: "3 \<notin> set (listeners (privates ?st (src_priv thermo_source)))" by (simp add: thermo_host_values)
  have wire: "wire_api (src_api thermo_source)" by (simp add: thermo_wire)
  have split: "concat [take 3 ?b, drop 3 ?b] = ?b" by (simp only: concat.simps append_take_drop_id append_Nil2)
  obtain r' where r: "impls nd' 0 = Some r'"
      "m_propertyStorage r' = values_at (src_api thermo_source) (level_at (src_name thermo_source)) (world ?st')"
    using replica_follows_source[OF le_stream_laws thermo_plain_props wire clean root src notin dev ann refl refl split fits fol len _ rd]
      demo_plain by blast
  have "world ?st' = 21"
    by (simp add: emit_all_def handleMetaCall_def a_src Let_def split_beta plain_propsD[OF thermo_plain_props] serializePropertyChangePacket_def send_list_def)
  then show ?thesis using r rd by (simp add: Let_def values_at_def thermo_api_values level_at_def)
qed

end
