(* ===== verification/ModelTypes.thy ===== *)
theory ModelTypes
  imports Stream
begin

text \<open>
  The data a model's two ends exchange (\<open>qremoteobjectabstractitemmodeltypes_p.h\<close>): positions in
  a model as lists of row and column pairs, and the tree of fetched entries, with their stream
  operators. A \<open>QAbstractItemModel\<close> is Qt's own class and therefore a parameter: a record of the
  queries the code makes, over an abstract state \<^typ>\<open>'m\<close> and abstract indexes \<^typ>\<open>'ix\<close>. What Qt
  documents of every such class is the hypothesis \<open>item_model_ok\<close>.

  Rows and columns are C++ \<open>int\<close>s; they are modelled as integers and cut to 32 bits where they are
  streamed.
\<close>

record model_index =
  mi_row :: int
  mi_column :: int

definition ModelIndex :: "int \<Rightarrow> int \<Rightarrow> model_index" where
  "ModelIndex r c = \<lparr>mi_row = r, mi_column = c\<rparr>"

definition ModelIndex0 :: model_index where
  "ModelIndex0 = ModelIndex (-1) (-1)"

definition model_index_eq :: "model_index \<Rightarrow> model_index \<Rightarrow> bool" where
  "model_index_eq i other \<longleftrightarrow> mi_row i = mi_row other \<and> mi_column i = mi_column other"

type_synonym index_list = "model_index list"
type_synonym qsize = "int \<times> int"

text \<open>A \<open>QSize\<close> is a pair of a width (the columns) and a height (the rows).\<close>

datatype 'v index_value_pair =
  IndexValuePair (ivp_index: index_list) (ivp_data: "'v list") (ivp_hasChildren: bool)
    (ivp_flags: int32) (ivp_children: "'v index_value_pair list") (ivp_size: qsize)

type_synonym 'v data_entries = "'v index_value_pair list"

record 'v meta_entries =
  me_data :: "'v data_entries"
  me_roles :: "int list"
  me_size :: qsize

datatype orientation = Horizontal | Vertical

definition orientation_int :: "orientation \<Rightarrow> int" where
  "orientation_int orient = (case orient of Horizontal \<Rightarrow> 1 | Vertical \<Rightarrow> 2)"

subsection \<open>Stream operators\<close>

definition put_int :: "'v qstream \<Rightarrow> int \<Rightarrow> bytes" where
  "put_int S i = put_u32 S (word_of_int i)"

definition get_int :: "'v qstream \<Rightarrow> bytes \<Rightarrow> int \<times> bytes" where
  "get_int S b = (let (w, b') = get_u32 S b in (sint w, b'))"

definition int_fits :: "int \<Rightarrow> bool" where
  "int_fits i \<longleftrightarrow> - (2 ^ 31) \<le> i \<and> i < 2 ^ 31"

definition put_model_index :: "'v qstream \<Rightarrow> model_index \<Rightarrow> bytes" where
  "put_model_index S index = put_int S (mi_row index) @ put_int S (mi_column index)"

definition get_model_index :: "'v qstream \<Rightarrow> bytes \<Rightarrow> model_index \<times> bytes" where
  "get_model_index S b =
    (let (r, b1) = get_int S b; (c, b2) = get_int S b1 in (ModelIndex r c, b2))"

definition model_index_fits :: "model_index \<Rightarrow> bool" where
  "model_index_fits i \<longleftrightarrow> int_fits (mi_row i) \<and> int_fits (mi_column i)"

text \<open>Qt streams a \<open>QSize\<close> as its width and its height, each an \<open>int\<close>.\<close>

definition put_size :: "'v qstream \<Rightarrow> qsize \<Rightarrow> bytes" where
  "put_size S sz = put_int S (fst sz) @ put_int S (snd sz)"

definition get_size :: "'v qstream \<Rightarrow> bytes \<Rightarrow> qsize \<times> bytes" where
  "get_size S b = (let (w, b1) = get_int S b; (h, b2) = get_int S b1 in ((w, h), b2))"

lemma put_elems_same [fundef_cong]:
  "xs = ys \<Longrightarrow> (\<And>x. x \<in> set ys \<Longrightarrow> p x = p' x) \<Longrightarrow> put_elems p xs = put_elems p' ys"
  by (induction xs arbitrary: ys) auto

fun put_entry :: "'v qstream \<Rightarrow> 'v index_value_pair \<Rightarrow> bytes" where
  "put_entry S (IndexValuePair index data hasChildren flags children sz) =
    put_list S (put_model_index S) index @ put_list S (put_var S) data @ put_bool S hasChildren @
    put_u32 S flags @
    (put_u32 S (of_nat (length children)) @ put_elems (put_entry S) children) @ put_size S sz"

text \<open>
  Reading recurses into the children a stream announces; \<open>fuel\<close> bounds the depth, and running out
  of it is \<open>None\<close>. The fuel the reader needs is the height of the tree that was written.
\<close>

fun get_elems_opt :: "(bytes \<Rightarrow> ('a \<times> bytes) option) \<Rightarrow> nat \<Rightarrow> bytes \<Rightarrow> ('a list \<times> bytes) option" where
  "get_elems_opt g 0 b = Some ([], b)"
| "get_elems_opt g (Suc n) b =
    (case g b of
       None \<Rightarrow> None
     | Some (x, b1) \<Rightarrow>
        (case get_elems_opt g n b1 of None \<Rightarrow> None | Some (xs, b2) \<Rightarrow> Some (x # xs, b2)))"

fun get_entry :: "'v qstream \<Rightarrow> nat \<Rightarrow> bytes \<Rightarrow> ('v index_value_pair \<times> bytes) option" where
  "get_entry S 0 b = None"
| "get_entry S (Suc fuel) b =
    (let (index, b1) = get_list S (get_model_index S) b;
         (data, b2) = get_list S (get_var S) b1;
         (hasChildren, b3) = get_bool S b2;
         (flags, b4) = get_u32 S b3;
         (n, b5) = get_u32 S b4
     in case get_elems_opt (get_entry S fuel) (unat n) b5 of
          None \<Rightarrow> None
        | Some (children, b6) \<Rightarrow>
           (let (sz, b7) = get_size S b6
            in Some (IndexValuePair index data hasChildren flags children sz, b7)))"

definition put_meta :: "'v qstream \<Rightarrow> 'v meta_entries \<Rightarrow> bytes" where
  "put_meta S entries =
    put_list S (put_entry S) (me_data entries) @ put_list S (put_int S) (me_roles entries) @
    put_size S (me_size entries)"

definition get_meta :: "'v qstream \<Rightarrow> nat \<Rightarrow> bytes \<Rightarrow> ('v meta_entries \<times> bytes) option" where
  "get_meta S fuel b =
    (let (n, b1) = get_u32 S b
     in case get_elems_opt (get_entry S fuel) (unat n) b1 of
          None \<Rightarrow> None
        | Some (d, b2) \<Rightarrow>
           (let (roles, b3) = get_list S (get_int S) b2; (sz, b4) = get_size S b3
            in Some (\<lparr>me_data = d, me_roles = roles, me_size = sz\<rparr>, b4)))"

fun pair_height :: "'v index_value_pair \<Rightarrow> nat" where
  "pair_height (IndexValuePair _ _ _ _ children _) = Suc (Max (insert 0 (set (map pair_height children))))"

fun pair_fits :: "'v qstream \<Rightarrow> 'v index_value_pair \<Rightarrow> bool" where
  "pair_fits S (IndexValuePair index data hasChildren flags children sz) \<longleftrightarrow>
    list_fits index \<and> list_all model_index_fits index \<and>
    list_fits data \<and> list_all (streamable S) data \<and>
    list_fits children \<and> list_all (pair_fits S) children \<and>
    int_fits (fst sz) \<and> int_fits (snd sz)"

lemma sint_of_int32: "int_fits i \<Longrightarrow> sint (word_of_int i :: 32 word) = i"
  by (simp add: int_fits_def sint_sbintrunc' signed_take_bit_int_eq_self)

context qdata_stream
begin

lemma int_rt: "int_fits i \<Longrightarrow> get_int S (put_int S i @ r) = (i, r)"
  by (simp add: get_int_def put_int_def u32_rt sint_of_int32)

lemma model_index_rt: "model_index_fits i \<Longrightarrow> get_model_index S (put_model_index S i @ r) = (i, r)"
  by (simp add: get_model_index_def put_model_index_def model_index_fits_def int_rt ModelIndex_def)

lemma size_rt: "int_fits (fst z) \<Longrightarrow> int_fits (snd z) \<Longrightarrow> get_size S (put_size S z @ r) = (z, r)"
  by (simp add: get_size_def put_size_def int_rt)

lemma elems_opt_rt:
  assumes "\<And>x r. x \<in> set xs \<Longrightarrow> g (p x @ r) = Some (x, r)"
  shows "get_elems_opt g (length xs) (put_elems p xs @ r) = Some (xs, r)"
  using assms by (induction xs) auto

lemma pair_rt:
  "pair_fits S t \<Longrightarrow> pair_height t \<le> n \<Longrightarrow> get_entry S n (put_entry S t @ r) = Some (t, r)"
proof (induction n arbitrary: t r)
  case 0
  then show ?case by (cases t) simp
next
  case (Suc n)
  obtain index data hc fl ch sz where t: "t = IndexValuePair index data hc fl ch sz" by (cases t)
  have ch: "get_entry S n (put_entry S x @ r') = Some (x, r')" if "x \<in> set ch" for x r'
  proof (rule Suc.IH)
    show "pair_fits S x" using Suc.prems(1) t that by (simp add: list_all_iff)
    show "pair_height x \<le> n" using Suc.prems(2) t that by simp
  qed
  have fits: "list_fits index" "list_fits data" "list_fits ch" "list_all model_index_fits index"
    "list_all (streamable S) data" "int_fits (fst sz)" "int_fits (snd sz)"
    using Suc.prems(1) t by simp_all
  have 1: "get_list S (get_model_index S) (put_list S (put_model_index S) index @ r') = (index, r')" for r'
    using fits by (intro get_put_list) (auto simp: list_all_iff model_index_rt)
  have 2: "get_list S (get_var S) (put_list S (put_var S) data @ r') = (data, r')" for r'
    using fits by (intro get_put_list) (auto simp: list_all_iff var_rt)
  have 3: "unat (word_of_nat (length ch) :: u32) = length ch"
    using fits(3) by (simp add: list_fits_def unat_of_nat_u32)
  show ?case
    using fits by (simp add: t 1 2 3 bool_rt u32_rt elems_opt_rt[OF ch] size_rt)
qed

lemma meta_rt:
  assumes "list_fits (me_data e)" "list_all (pair_fits S) (me_data e)" "list_fits (me_roles e)"
    "list_all int_fits (me_roles e)" "int_fits (fst (me_size e))" "int_fits (snd (me_size e))"
    "list_all (\<lambda>t. pair_height t \<le> n) (me_data e)"
  shows "get_meta S n (put_meta S e @ r) = Some (e, r)"
proof -
  have 1: "get_entry S n (put_entry S x @ r') = Some (x, r')" if "x \<in> set (me_data e)" for x r'
    using that assms by (intro pair_rt) (auto simp: list_all_iff)
  have 2: "get_list S (get_int S) (put_list S (put_int S) (me_roles e) @ r') = (me_roles e, r')" for r'
    using assms by (intro get_put_list) (auto simp: list_all_iff int_rt)
  have 3: "unat (word_of_nat (length (me_data e)) :: u32) = length (me_data e)"
    using assms(1) by (simp add: list_fits_def unat_of_nat_u32)
  show ?thesis
    using assms by (simp add: get_meta_def put_meta_def put_list_def[of S "put_entry S"] u32_rt 3
        elems_opt_rt[OF 1] 2 size_rt)
qed

end

subsection \<open>The item model parameter\<close>

record ('m, 'ix, 'v) item_model =
  m_root :: 'ix
  m_isValid :: "'ix \<Rightarrow> bool"
  m_rowOf :: "'ix \<Rightarrow> int"
  m_columnOf :: "'ix \<Rightarrow> int"
  m_index :: "'m \<Rightarrow> int \<Rightarrow> int \<Rightarrow> 'ix \<Rightarrow> 'ix"
  m_parent :: "'m \<Rightarrow> 'ix \<Rightarrow> 'ix"
  m_rowCount :: "'m \<Rightarrow> 'ix \<Rightarrow> int"
  m_columnCount :: "'m \<Rightarrow> 'ix \<Rightarrow> int"
  m_hasChildren :: "'m \<Rightarrow> 'ix \<Rightarrow> bool"
  m_flags :: "'m \<Rightarrow> 'ix \<Rightarrow> int32"
  m_multiData :: "'m \<Rightarrow> 'ix \<Rightarrow> int list \<Rightarrow> 'v list"
  m_headerData :: "'m \<Rightarrow> int \<Rightarrow> orientation \<Rightarrow> int \<Rightarrow> 'v"
  m_setData :: "'ix \<Rightarrow> 'v \<Rightarrow> int \<Rightarrow> 'm \<Rightarrow> bool \<times> 'm"

text \<open>
  The contract Qt documents for its models, as far as the code relies on it: an index is valid
  exactly for the rows and columns its parent has, remembers its row, column and parent, and every
  valid index is reached from the root, so that following parents ends. \<open>multiData\<close> fills one
  slot per role.
\<close>

definition item_model_ok :: "('m, 'ix, 'v) item_model \<Rightarrow> 'm \<Rightarrow> bool" where
  "item_model_ok M m \<longleftrightarrow>
    \<not> m_isValid M (m_root M) \<and>
    (\<forall>ix. \<not> m_isValid M ix \<longrightarrow> ix = m_root M) \<and>
    (\<forall>r c p. m_isValid M (m_index M m r c p) \<longleftrightarrow>
       0 \<le> r \<and> r < m_rowCount M m p \<and> 0 \<le> c \<and> c < m_columnCount M m p) \<and>
    (\<forall>r c p. m_isValid M (m_index M m r c p) \<longrightarrow>
       m_rowOf M (m_index M m r c p) = r \<and> m_columnOf M (m_index M m r c p) = c \<and>
       m_parent M m (m_index M m r c p) = p) \<and>
    (\<forall>ix. m_isValid M ix \<longrightarrow> m_index M m (m_rowOf M ix) (m_columnOf M ix) (m_parent M m ix) = ix) \<and>
    (\<forall>ix. \<exists>n. (m_parent M m ^^ n) ix = m_root M) \<and>
    (\<forall>ix roles. length (m_multiData M m ix roles) = length roles)"

text \<open>
  \<open>toQModelIndex\<close>: the walk from the root, and whether it stayed inside the model. Its callers
  decide what a failure means: with an \<open>ok\<close> argument they go on with an invalid index, without
  one the process aborts (\<open>qFatal\<close>).
\<close>

fun walk_index :: "('m, 'ix, 'v) item_model \<Rightarrow> 'm \<Rightarrow> index_list \<Rightarrow> 'ix \<Rightarrow> 'ix \<times> bool" where
  "walk_index M m [] res = (res, True)"
| "walk_index M m (i # list) res =
    (let res' = m_index M m (mi_row i) (mi_column i) res
     in if \<not> m_isValid M res' then (m_root M, False) else walk_index M m list res')"

definition toQModelIndex :: "('m, 'ix, 'v) item_model \<Rightarrow> 'm \<Rightarrow> index_list \<Rightarrow> 'ix \<times> bool" where
  "toQModelIndex M m list = walk_index M m list (m_root M)"

text \<open>
  \<open>toModelIndexList\<close> prepends ancestors until it meets an invalid index; on a model whose parents
  never end it does not return, and is \<open>None\<close> here.
\<close>

partial_function (option) prepend_parents ::
    "('m, 'ix, 'v) item_model \<Rightarrow> 'm \<Rightarrow> 'ix \<Rightarrow> index_list \<Rightarrow> index_list option" where
  "prepend_parents M m curIndex list =
    (if m_isValid M curIndex
     then prepend_parents M m (m_parent M m curIndex)
            (ModelIndex (m_rowOf M curIndex) (m_columnOf M curIndex) # list)
     else Some list)"

definition toModelIndexList :: "('m, 'ix, 'v) item_model \<Rightarrow> 'm \<Rightarrow> 'ix \<Rightarrow> index_list option" where
  "toModelIndexList M m index =
    (if m_isValid M index
     then prepend_parents M m (m_parent M m index) [ModelIndex (m_rowOf M index) (m_columnOf M index)]
     else Some [])"

end
