(* ===== verification/ModelAdapter.thy ===== *)
theory ModelAdapter
  imports ModelTypes Results
begin

text \<open>
  \<open>QAbstractItemModelSourceAdapter\<close> (\<open>qremoteobjectabstractitemmodeladapter.cpp\<close>): the object a
  node exposes for a \<open>QAbstractItemModel\<close>. It answers a replica's requests (sizes, rows, header
  data, a whole tree, a selection, a new value) from the model, and turns the model's signals into
  signals whose arguments can be streamed. The model and the selection model are Qt's; what the
  adapter asks of them are fields of the parameter \<open>M\<close> and entries in the log of effects.
\<close>

datatype model_fault =
    InvalidIndexFatal   \<comment> \<open>\<open>qFatal\<close> of \<open>toQModelIndex\<close>\<close>
  | EmptyIndexList      \<comment> \<open>\<open>last\<close> or \<open>pop_back\<close> of an empty list\<close>
  | ListOutOfRange      \<comment> \<open>indexing a \<open>QList\<close> past its end\<close>
  | ParentsNeverEnd     \<comment> \<open>\<open>toModelIndexList\<close> does not return\<close>

datatype 'ix adapter_effect =
    AvailableRolesChanged
  | DataChanged index_list index_list "int list"
  | RowsInserted index_list int int
  | RowsRemoved index_list int int
  | RowsMoved index_list int int index_list int
  | CurrentChanged index_list index_list
  | ColumnsInserted index_list int int
  | LayoutChanged index_list int
  | SetCurrentIndex 'ix int32

record ('m, 'ix) adapter =
  ad_model :: 'm
  ad_hasSelection :: bool
  ad_availableRoles :: "int list"
  ad_effects :: "'ix adapter_effect list"

definition ad_emit :: "'ix adapter_effect \<Rightarrow> ('m, 'ix) adapter \<Rightarrow> ('m, 'ix) adapter" where
  "ad_emit e a = a\<lparr>ad_effects := ad_effects a @ [e]\<rparr>"

definition new_adapter :: "'m \<Rightarrow> bool \<Rightarrow> int list \<Rightarrow> ('m, 'ix) adapter" where
  "new_adapter obj sel roles =
    \<lparr>ad_model = obj, ad_hasSelection = sel, ad_availableRoles = roles, ad_effects = []\<rparr>"

definition setAvailableRoles :: "int list \<Rightarrow> ('m, 'ix) adapter \<Rightarrow> ('m, 'ix) adapter" where
  "setAvailableRoles roles a =
    (if roles \<noteq> ad_availableRoles a
     then ad_emit AvailableRolesChanged (a\<lparr>ad_availableRoles := roles\<rparr>) else a)"

subsection \<open>Helpers\<close>

definition resolve :: "('m, 'ix, 'v) item_model \<Rightarrow> 'm \<Rightarrow> index_list \<Rightarrow> model_fault + 'ix" where
  "resolve M m list = (let (ix, ok) = toQModelIndex M m list in if ok then Inr ix else Inl InvalidIndexFatal)"

definition index_path :: "('m, 'ix, 'v) item_model \<Rightarrow> 'm \<Rightarrow> 'ix \<Rightarrow> model_fault + index_list" where
  "index_path M m ix =
    (case toModelIndexList M m ix of None \<Rightarrow> Inl ParentsNeverEnd | Some l \<Rightarrow> Inr l)"

definition last_index :: "index_list \<Rightarrow> model_fault + model_index" where
  "last_index l = (if l = [] then Inl EmptyIndexList else Inr (last l))"

text \<open>
  \<open>collectData\<close> makes one slot per role (\<open>createModelRoleData\<close>), has the model fill them and
  moves the values out.
\<close>

definition collectData :: "('m, 'ix, 'v) item_model \<Rightarrow> 'm \<Rightarrow> 'ix \<Rightarrow> int list \<Rightarrow> 'v list" where
  "collectData M m ix roles = m_multiData M m ix roles"

fun filter_roles_inner :: "int \<Rightarrow> int list \<Rightarrow> int list \<Rightarrow> int list" where
  "filter_roles_inner inRole [] neededRoles = neededRoles"
| "filter_roles_inner inRole (availableRole # rest) neededRoles =
    filter_roles_inner inRole rest
      (if inRole = availableRole then neededRoles @ [inRole] else neededRoles)"

definition filterRoles :: "int list \<Rightarrow> int list \<Rightarrow> int list" where
  "filterRoles roles availableRoles =
    (if roles = [] then availableRoles
     else fold (\<lambda>inRole needed. filter_roles_inner inRole availableRoles needed) roles [])"

subsection \<open>Requests of a replica\<close>

definition replicaSizeRequest ::
    "('m, 'ix, 'v) item_model \<Rightarrow> index_list \<Rightarrow> ('m, 'ix) adapter \<Rightarrow> model_fault + qsize" where
  "replicaSizeRequest M parentList a =
    bindE (resolve M (ad_model a) parentList) (\<lambda>parent.
      Inr (m_columnCount M (ad_model a) parent, m_rowCount M (ad_model a) parent))"

definition replicaSetData ::
    "('m, 'ix, 'v) item_model \<Rightarrow> index_list \<Rightarrow> 'v \<Rightarrow> int \<Rightarrow> ('m, 'ix) adapter \<Rightarrow>
     model_fault + ('m, 'ix) adapter" where
  "replicaSetData M index value role a =
    bindE (resolve M (ad_model a) index) (\<lambda>modelIndex.
      let (result, m') = m_setData M modelIndex value role (ad_model a)
      in Inr (a\<lparr>ad_model := m'\<rparr>))"

definition row_entry ::
    "('m, 'ix, 'v) item_model \<Rightarrow> 'm \<Rightarrow> int list \<Rightarrow> 'ix \<Rightarrow> int \<times> int \<Rightarrow>
     model_fault + 'v index_value_pair" where
  "row_entry M m roles parent rc =
    (let current = m_index M m (fst rc) (snd rc) parent
     in bindE (index_path M m current) (\<lambda>currentList.
          Inr (IndexValuePair currentList (collectData M m current roles)
                 (m_hasChildren M m current) (m_flags M m current) [] (-1, -1))))"

definition cells_between :: "int \<Rightarrow> int \<Rightarrow> int \<Rightarrow> int \<Rightarrow> (int \<times> int) list" where
  "cells_between startRow endRow startColumn endColumn =
    concat (map (\<lambda>row. map (\<lambda>column. (row, column)) [startColumn..endColumn]) [startRow..endRow])"

definition replicaRowRequest ::
    "('m, 'ix, 'v) item_model \<Rightarrow> index_list \<Rightarrow> index_list \<Rightarrow> int list \<Rightarrow> ('m, 'ix) adapter \<Rightarrow>
     model_fault + 'v data_entries" where
  "replicaRowRequest M start end1 roles0 a =
    (let m = ad_model a;
         roles = (if roles0 = [] then ad_availableRoles a else roles0)
     in bindE (last_index start) (\<lambda>startLast.
        bindE (resolve M m (butlast start)) (\<lambda>parent.
          let rowCount = m_rowCount M m parent; columnCount = m_columnCount M m parent
          in if rowCount \<le> 0 then Inr []
             else bindE (last_index end1) (\<lambda>endLast.
               mapE (row_entry M m roles parent)
                 (cells_between (mi_row startLast) (min (mi_row endLast) (rowCount - 1))
                    (mi_column startLast) (min (mi_column endLast) (columnCount - 1)))))))"

text \<open>
  \<open>replicaHeaderRequest\<close> loops over the roles and takes the section and orientation at the same
  place; shorter lists are read past their end.
\<close>

fun replicaHeaderRequest ::
    "('m, 'ix, 'v) item_model \<Rightarrow> orientation list \<Rightarrow> int list \<Rightarrow> int list \<Rightarrow> ('m, 'ix) adapter \<Rightarrow>
     model_fault + 'v list" where
  "replicaHeaderRequest M orientations sections [] a = Inr []"
| "replicaHeaderRequest M (orientation # os) (section # ss) (role # roles) a =
    bindE (replicaHeaderRequest M os ss roles a) (\<lambda>data.
      Inr (m_headerData M (ad_model a) section orientation role # data))"
| "replicaHeaderRequest M _ _ (role # roles) a = Inl ListOutOfRange"

definition replicaSetCurrentIndex ::
    "('m, 'ix, 'v) item_model \<Rightarrow> index_list \<Rightarrow> int32 \<Rightarrow> ('m, 'ix) adapter \<Rightarrow>
     model_fault + ('m, 'ix) adapter" where
  "replicaSetCurrentIndex M index command a =
    (if ad_hasSelection a
     then bindE (resolve M (ad_model a) index) (\<lambda>ix. Inr (ad_emit (SetCurrentIndex ix command) a))
     else Inr a)"

subsection \<open>Fetching a tree\<close>

text \<open>
  \<open>fetchTree\<close> walks the cells of a parent row by row, taking one unit of the shared budget \<open>size\<close>
  per cell and descending into a cell's children before it goes on to the next cell. The budget is
  a reference in the code; here it is returned. The two loops are one walk over the cells that
  stops when the budget is spent.
\<close>

definition cells_of :: "('m, 'ix, 'v) item_model \<Rightarrow> 'm \<Rightarrow> 'ix \<Rightarrow> (int \<times> int) list" where
  "cells_of M m parent =
    (let rowCount = m_rowCount M m parent; columnCount = m_columnCount M m parent
     in if columnCount = 0 \<or> rowCount = 0 then []
        else cells_between 0 (rowCount - 1) 0 (columnCount - 1))"

function fetch_cells ::
    "('m, 'ix, 'v) item_model \<Rightarrow> 'm \<Rightarrow> int list \<Rightarrow> 'ix \<Rightarrow> (int \<times> int) list \<Rightarrow> nat \<Rightarrow>
     model_fault + 'v data_entries \<times> nat" where
  "fetch_cells M m roles parent [] n = Inr ([], n)"
| "fetch_cells M m roles parent ((row, column) # cells) n =
    (if n = 0 then Inr ([], 0)
     else let index = m_index M m row column parent; rc = m_rowCount M m index; cc = m_columnCount M m index
          in bindE (index_path M m index) (\<lambda>currentList.
             bindE (if m_hasChildren M m index
                    then fetch_cells M m roles index (cells_of M m index) (n - 1)
                    else Inr ([], n - 1))
               (\<lambda>(children, n1).
                 bindE (fetch_cells M m roles parent cells n1) (\<lambda>(entries, n2).
                   Inr (IndexValuePair currentList (collectData M m index roles)
                          (m_hasChildren M m index) (m_flags M m index) children (cc, rc) # entries, n2)))))"
  by pat_completeness auto

lemma fetch_cells_budget:
  assumes "fetch_cells_dom (M, m, roles, parent, cells, n)"
    and "fetch_cells M m roles parent cells n = Inr (es, n')"
  shows "n' \<le> n"
  using assms
proof (induction M m roles parent cells n arbitrary: es n' rule: fetch_cells.pinduct)
  case (1 M m roles parent n)
  then show ?case by (simp add: fetch_cells.psimps)
next
  case (2 M m roles parent row column cells n)
  show ?case
  proof (cases "n = 0")
    case True
    then show ?thesis using 2 by (simp add: fetch_cells.psimps)
  next
    case False
    let ?ix = "m_index M m row column parent"
    from 2(1,4) False obtain l ch n1 rest n2 where
      l: "index_path M m ?ix = Inr l" and
      ch: "(if m_hasChildren M m ?ix then fetch_cells M m roles ?ix (cells_of M m ?ix) (n - 1)
            else Inr ([], n - 1)) = Inr (ch, n1)" and
      rest: "fetch_cells M m roles parent cells n1 = Inr (rest, n2)" and n': "n' = n2"
      by (auto simp: fetch_cells.psimps bindE_Inr_iff Let_def)
    have "n1 \<le> n - 1"
      using ch 2(2)[OF False refl refl refl l] by (auto split: if_splits)
    moreover have "n2 \<le> n1"
      by (rule 2(3)[OF False refl refl refl l ch refl rest])
    ultimately show ?thesis using n' by simp
  qed
qed

termination fetch_cells
proof (relation "measures [\<lambda>(M, m, roles, parent, cells, n). n, \<lambda>(M, m, roles, parent, cells, n). length cells]")
  fix M :: "('m, 'ix, 'v) item_model" and m roles parent row column cells n index rc cc l x children n1
  assume n: "n \<noteq> (0 :: nat)"
    and ch: "(if m_hasChildren M m index then fetch_cells M m roles index (cells_of M m index) (n - 1)
              else Inr ([], n - 1)) = Inr x" and x: "(children, n1) = x"
    and dom: "m_hasChildren M m index \<Longrightarrow> fetch_cells_dom (M, m, roles, index, cells_of M m index, n - 1)"
  have "n1 \<le> n - 1"
    using ch x dom fetch_cells_budget[of M m roles index "cells_of M m index" "n - 1" children n1]
    by (cases "m_hasChildren M m index") auto
  then show "((M, m, roles, parent, cells, n1), M, m, roles, parent, (row, column) # cells, n)
      \<in> measures [\<lambda>(M, m, roles, parent, cells, n). n, \<lambda>(M, m, roles, parent, cells, n). length cells]"
    using n by auto
qed auto

declare fetch_cells.simps [simp del]

definition fetchTree ::
    "('m, 'ix, 'v) item_model \<Rightarrow> 'm \<Rightarrow> 'ix \<Rightarrow> nat \<Rightarrow> int list \<Rightarrow> model_fault + 'v data_entries \<times> nat" where
  "fetchTree M m parent n roles = fetch_cells M m roles parent (cells_of M m parent) n"

definition replicaCacheRequest ::
    "('m, 'ix, 'v) item_model \<Rightarrow> nat \<Rightarrow> int list \<Rightarrow> ('m, 'ix) adapter \<Rightarrow> model_fault + 'v meta_entries" where
  "replicaCacheRequest M n roles a =
    (let m = ad_model a; roles' = (if roles = [] then ad_availableRoles a else roles)
     in bindE (fetchTree M m (m_root M) n roles') (\<lambda>(data, n').
          Inr \<lparr>me_data = data, me_roles = roles',
               me_size = (m_columnCount M m (m_root M), m_rowCount M m (m_root M))\<rparr>))"

subsection \<open>Signals of the model\<close>

definition sourceDataChanged ::
    "('m, 'ix, 'v) item_model \<Rightarrow> 'ix \<Rightarrow> 'ix \<Rightarrow> int list \<Rightarrow> ('m, 'ix) adapter \<Rightarrow>
     model_fault + ('m, 'ix) adapter" where
  "sourceDataChanged M topLeft bottomRight roles a =
    (let neededRoles = filterRoles roles (ad_availableRoles a)
     in if neededRoles = [] then Inr a
        else bindE (index_path M (ad_model a) topLeft) (\<lambda>start.
             bindE (index_path M (ad_model a) bottomRight) (\<lambda>end1.
               Inr (ad_emit (DataChanged start end1 neededRoles) a))))"

definition sourceRowsInserted ::
    "('m, 'ix, 'v) item_model \<Rightarrow> 'ix \<Rightarrow> int \<Rightarrow> int \<Rightarrow> ('m, 'ix) adapter \<Rightarrow>
     model_fault + ('m, 'ix) adapter" where
  "sourceRowsInserted M parent start end1 a =
    bindE (index_path M (ad_model a) parent) (\<lambda>l. Inr (ad_emit (RowsInserted l start end1) a))"

definition sourceColumnsInserted ::
    "('m, 'ix, 'v) item_model \<Rightarrow> 'ix \<Rightarrow> int \<Rightarrow> int \<Rightarrow> ('m, 'ix) adapter \<Rightarrow>
     model_fault + ('m, 'ix) adapter" where
  "sourceColumnsInserted M parent start end1 a =
    bindE (index_path M (ad_model a) parent) (\<lambda>l. Inr (ad_emit (ColumnsInserted l start end1) a))"

definition sourceRowsRemoved ::
    "('m, 'ix, 'v) item_model \<Rightarrow> 'ix \<Rightarrow> int \<Rightarrow> int \<Rightarrow> ('m, 'ix) adapter \<Rightarrow>
     model_fault + ('m, 'ix) adapter" where
  "sourceRowsRemoved M parent start end1 a =
    bindE (index_path M (ad_model a) parent) (\<lambda>l. Inr (ad_emit (RowsRemoved l start end1) a))"

definition sourceRowsMoved ::
    "('m, 'ix, 'v) item_model \<Rightarrow> 'ix \<Rightarrow> int \<Rightarrow> int \<Rightarrow> 'ix \<Rightarrow> int \<Rightarrow> ('m, 'ix) adapter \<Rightarrow>
     model_fault + ('m, 'ix) adapter" where
  "sourceRowsMoved M sourceParent sourceRow count destinationParent destinationChild a =
    bindE (index_path M (ad_model a) sourceParent) (\<lambda>s.
    bindE (index_path M (ad_model a) destinationParent) (\<lambda>d.
      Inr (ad_emit (RowsMoved s sourceRow count d destinationChild) a)))"

definition sourceCurrentChanged ::
    "('m, 'ix, 'v) item_model \<Rightarrow> 'ix \<Rightarrow> 'ix \<Rightarrow> ('m, 'ix) adapter \<Rightarrow>
     model_fault + ('m, 'ix) adapter" where
  "sourceCurrentChanged M current previous a =
    bindE (index_path M (ad_model a) current) (\<lambda>c.
    bindE (index_path M (ad_model a) previous) (\<lambda>p.
      Inr (ad_emit (CurrentChanged c p) a)))"

text \<open>
  \<open>sourceLayoutChanged\<close> appends the path of every parent to one flat list.
\<close>

definition sourceLayoutChanged ::
    "('m, 'ix, 'v) item_model \<Rightarrow> 'ix list \<Rightarrow> int \<Rightarrow> ('m, 'ix) adapter \<Rightarrow>
     model_fault + ('m, 'ix) adapter" where
  "sourceLayoutChanged M parents hint a =
    bindE (mapE (index_path M (ad_model a)) parents) (\<lambda>ls.
      Inr (ad_emit (LayoutChanged (concat ls) hint) a))"

end
