(* ===== verification/AdapterLemmas.thy ===== *)
theory AdapterLemmas
  imports ModelAdapter
begin

text \<open>
  Lemmas about the adapter on a model that keeps Qt's contract: positions and indexes determine
  each other, and what a fetched tree holds.
\<close>

subsection \<open>Positions and indexes\<close>

lemma item_model_okD:
  assumes "item_model_ok M m"
  shows item_root_invalid: "\<not> m_isValid M (m_root M)"
    and item_invalid_root: "\<not> m_isValid M ix \<Longrightarrow> ix = m_root M"
    and item_index_valid: "m_isValid M (m_index M m r c p) \<longleftrightarrow>
          0 \<le> r \<and> r < m_rowCount M m p \<and> 0 \<le> c \<and> c < m_columnCount M m p"
    and item_index_row: "m_isValid M (m_index M m r c p) \<Longrightarrow> m_rowOf M (m_index M m r c p) = r"
    and item_index_column: "m_isValid M (m_index M m r c p) \<Longrightarrow> m_columnOf M (m_index M m r c p) = c"
    and item_index_parent: "m_isValid M (m_index M m r c p) \<Longrightarrow> m_parent M m (m_index M m r c p) = p"
    and item_index_of: "m_isValid M ix \<Longrightarrow> m_index M m (m_rowOf M ix) (m_columnOf M ix) (m_parent M m ix) = ix"
    and item_depth: "\<exists>n. (m_parent M m ^^ n) ix = m_root M"
    and item_data_length: "length (m_multiData M m ix roles) = length roles"
  using assms unfolding item_model_ok_def by blast+

lemma prepend_parents_path:
  assumes ok: "item_model_ok M m" and "(m_parent M m ^^ n) ix = m_root M"
  shows "\<exists>l. (\<forall>acc. prepend_parents M m ix acc = Some (l @ acc)) \<and>
    (\<forall>rest. walk_index M m (l @ rest) (m_root M) = walk_index M m rest ix)"
  using assms(2)
proof (induction n arbitrary: ix)
  case 0
  then show ?case
    using item_root_invalid[OF ok] by (intro exI[of _ "[]"]) (simp add: prepend_parents.simps)
next
  case (Suc n)
  show ?case
  proof (cases "m_isValid M ix")
    case False
    then show ?thesis
      using item_invalid_root[OF ok False]
      by (intro exI[of _ "[]"]) (simp add: prepend_parents.simps)
  next
    case True
    let ?p = "m_parent M m ix" and ?i = "ModelIndex (m_rowOf M ix) (m_columnOf M ix)"
    have "(m_parent M m ^^ n) ?p = m_root M" using Suc.prems by (simp add: funpow_swap1)
    from Suc.IH[OF this] obtain l where
      l: "\<And>acc. prepend_parents M m ?p acc = Some (l @ acc)"
         "\<And>rest. walk_index M m (l @ rest) (m_root M) = walk_index M m rest ?p" by blast
    have "prepend_parents M m ix acc = Some ((l @ [?i]) @ acc)" for acc
      using True l(1) by (subst prepend_parents.simps) simp
    moreover have "walk_index M m ((l @ [?i]) @ rest) (m_root M) = walk_index M m rest ix" for rest
      using True l(2)[of "?i # rest"] item_index_of[OF ok True] by (simp add: ModelIndex_def)
    ultimately show ?thesis by blast
  qed
qed

lemma toModelIndexList_prepend:
  "toModelIndexList M m ix = prepend_parents M m ix []"
  by (subst prepend_parents.simps) (simp add: toModelIndexList_def)

lemma index_path_exists:
  assumes "item_model_ok M m"
  shows "\<exists>l. index_path M m ix = Inr l \<and> toQModelIndex M m l = (ix, True)"
proof -
  obtain n where "(m_parent M m ^^ n) ix = m_root M" using item_depth[OF assms] by blast
  from prepend_parents_path[OF assms this] obtain l where
    "prepend_parents M m ix [] = Some l" "walk_index M m l (m_root M) = walk_index M m [] ix"
    by (metis append_Nil2)
  then show ?thesis
    by (intro exI[of _ l]) (simp add: index_path_def toModelIndexList_prepend toQModelIndex_def)
qed

lemma walk_index_append:
  "walk_index M m (l1 @ l2) p =
    (case walk_index M m l1 p of (ix, ok) \<Rightarrow> if ok then walk_index M m l2 ix else (ix, False))"
  by (induction l1 arbitrary: p) (auto simp: Let_def)

lemma walk_snoc:
  "toQModelIndex M m (l @ [i]) = (ix, True) \<longleftrightarrow>
    (\<exists>p. toQModelIndex M m l = (p, True) \<and> ix = m_index M m (mi_row i) (mi_column i) p \<and> m_isValid M ix)"
  by (auto simp: toQModelIndex_def walk_index_append Let_def split: prod.splits if_splits)

lemma ModelIndex_surj [simp]: "ModelIndex (mi_row i) (mi_column i) = i"
  by (simp add: ModelIndex_def)

lemma prepend_parents_append:
  assumes "item_model_ok M m"
  shows "prepend_parents M m ix acc = map_option (\<lambda>l. l @ acc) (prepend_parents M m ix [])"
proof -
  obtain n where "(m_parent M m ^^ n) ix = m_root M" using item_depth[OF assms] by blast
  from prepend_parents_path[OF assms this] show ?thesis by auto
qed

lemma index_path_unique:
  assumes ok: "item_model_ok M m" and "toQModelIndex M m l = (ix, True)"
  shows "index_path M m ix = Inr l"
  using assms(2)
proof (induction l arbitrary: ix rule: rev_induct)
  case Nil
  then show ?case
    using item_root_invalid[OF ok] by (simp add: toQModelIndex_def index_path_def toModelIndexList_def)
next
  case (snoc i l)
  then obtain p where p: "toQModelIndex M m l = (p, True)" and
    ix: "ix = m_index M m (mi_row i) (mi_column i) p" and v: "m_isValid M ix" unfolding walk_snoc by blast
  note at = item_index_row[OF ok v[unfolded ix]] item_index_column[OF ok v[unfolded ix]]
    item_index_parent[OF ok v[unfolded ix]]
  have "prepend_parents M m p [] = Some l"
    using snoc.IH[OF p] by (simp add: index_path_def toModelIndexList_prepend split: option.splits)
  then have "prepend_parents M m p [i] = Some (l @ [i])"
    using prepend_parents_append[OF ok, of p "[i]"] by simp
  then show ?case
    using v at by (simp add: ix index_path_def toModelIndexList_def)
qed

lemma index_path_iff:
  assumes "item_model_ok M m"
  shows "index_path M m ix = Inr l \<longleftrightarrow> toQModelIndex M m l = (ix, True)"
  using index_path_exists[OF assms, of ix] index_path_unique[OF assms] by (metis sum.inject(2))

lemma index_path_child:
  assumes "item_model_ok M m" and "index_path M m p = Inr l" and "m_isValid M (m_index M m r c p)"
  shows "index_path M m (m_index M m r c p) = Inr (l @ [ModelIndex r c])"
  using assms by (simp add: index_path_iff walk_snoc ModelIndex_def)

lemma resolve_iff: "resolve M m l = Inr ix \<longleftrightarrow> toQModelIndex M m l = (ix, True)"
  by (auto simp: resolve_def split: prod.splits)

subsection \<open>Cells\<close>

lemma cells_between_mem:
  "(r, c) \<in> set (cells_between r0 r1 c0 c1) \<longleftrightarrow> r0 \<le> r \<and> r \<le> r1 \<and> c0 \<le> c \<and> c \<le> c1"
  by (auto simp: cells_between_def image_iff)

lemma cells_of_mem:
  assumes "item_model_ok M m"
  shows "(r, c) \<in> set (cells_of M m p) \<longleftrightarrow> m_isValid M (m_index M m r c p)"
  using item_index_valid[OF assms, of r c p]
  by (auto simp: cells_of_def cells_between_mem Let_def)

lemma distinct_cells_between: "distinct (cells_between r0 r1 c0 c1)"
proof -
  have "distinct (concat (map (\<lambda>row. map (\<lambda>column. (row, column)) [c0..c1]) rows))" if "distinct rows" for rows :: "int list"
    using that by (induction rows) (auto simp: distinct_map inj_on_def)
  then show ?thesis by (simp add: cells_between_def)
qed

lemma distinct_cells_of: "distinct (cells_of M m p)"
  by (simp add: cells_of_def distinct_cells_between Let_def)

subsection \<open>Roles\<close>

lemma filter_roles_inner_eq:
  "filter_roles_inner r av needed = needed @ replicate (count_list av r) r"
  by (induction r av needed rule: filter_roles_inner.induct)
     (auto simp: replicate_app_Cons_same)

lemma count_list_in_distinct: "distinct xs \<Longrightarrow> count_list xs x = (if x \<in> set xs then 1 else 0)"
  by (induction xs) auto

lemma filterRoles_filter:
  assumes "distinct available"
  shows "filterRoles roles available = (if roles = [] then available else filter (\<lambda>r. r \<in> set available) roles)"
proof -
  have "fold (\<lambda>r needed. filter_roles_inner r available needed) rs acc =
      acc @ filter (\<lambda>r. r \<in> set available) rs" for rs acc
    by (induction rs arbitrary: acc) (auto simp: filter_roles_inner_eq count_list_in_distinct[OF assms])
  then show ?thesis by (simp add: filterRoles_def)
qed

subsection \<open>What a fetched tree holds\<close>

text \<open>
  \<open>pair_of\<close> says that an entry describes the index \<open>ix\<close>: its position, data, flags and sizes are
  the model's, and its children describe the first cells of \<open>ix\<close>, as far as they go.
\<close>

lemma child_smaller:
  "(t, rc) \<in> set (zip children cells) \<Longrightarrow> size t < Suc (n + size_list size children)"
  using size_list_estimation'[of t children "size t" size] by (fastforce dest: set_zip_leftD)

function pair_of ::
    "('m, 'ix, 'v) item_model \<Rightarrow> 'm \<Rightarrow> int list \<Rightarrow> 'ix \<Rightarrow> 'v index_value_pair \<Rightarrow> bool" where
  "pair_of M m roles ix (IndexValuePair l data hasChildren flags children sz) \<longleftrightarrow>
    index_path M m ix = Inr l \<and> data = m_multiData M m ix roles \<and>
    hasChildren = m_hasChildren M m ix \<and> flags = m_flags M m ix \<and>
    sz = (m_columnCount M m ix, m_rowCount M m ix) \<and>
    (\<not> hasChildren \<longrightarrow> children = []) \<and> length children \<le> length (cells_of M m ix) \<and>
    (\<forall>(t, rc) \<in> set (zip children (cells_of M m ix)). pair_of M m roles (m_index M m (fst rc) (snd rc) ix) t)"
  by pat_completeness auto
termination
  by (relation "measure (\<lambda>(M, m, roles, ix, t). size t)") (auto simp: child_smaller)

definition pairs_of ::
    "('m, 'ix, 'v) item_model \<Rightarrow> 'm \<Rightarrow> int list \<Rightarrow> 'ix \<Rightarrow> (int \<times> int) list \<Rightarrow> 'v data_entries \<Rightarrow> bool" where
  "pairs_of M m roles p cells es \<longleftrightarrow> length es \<le> length cells \<and>
    (\<forall>(t, rc) \<in> set (zip es cells). pair_of M m roles (m_index M m (fst rc) (snd rc) p) t)"

lemma pair_of_children:
  "pair_of M m roles ix (IndexValuePair l data hasChildren flags children sz) \<longleftrightarrow>
    index_path M m ix = Inr l \<and> data = m_multiData M m ix roles \<and>
    hasChildren = m_hasChildren M m ix \<and> flags = m_flags M m ix \<and>
    sz = (m_columnCount M m ix, m_rowCount M m ix) \<and> (\<not> hasChildren \<longrightarrow> children = []) \<and>
    pairs_of M m roles ix (cells_of M m ix) children"
  by (auto simp: pairs_of_def)

declare pair_of.simps [simp del]

lemma pairs_of_Nil [simp]: "pairs_of M m roles p cells []"
  by (simp add: pairs_of_def)

lemma pairs_of_Cons [simp]:
  "pairs_of M m roles p (rc # cells) (t # es) \<longleftrightarrow>
    pair_of M m roles (m_index M m (fst rc) (snd rc) p) t \<and> pairs_of M m roles p cells es"
  by (auto simp: pairs_of_def)

fun tree_flat :: "'v index_value_pair \<Rightarrow> (index_list \<times> 'v list \<times> bool \<times> int32 \<times> qsize) list" where
  "tree_flat (IndexValuePair l d h f ch sz) = (l, d, h, f, sz) # concat (map tree_flat ch)"

definition forest_flat :: "'v data_entries \<Rightarrow> (index_list \<times> 'v list \<times> bool \<times> int32 \<times> qsize) list" where
  "forest_flat es = concat (map tree_flat es)"

lemma forest_flat_simps [simp]:
  "forest_flat [] = []"
  "forest_flat (IndexValuePair l d h f ch sz # es) = (l, d, h, f, sz) # forest_flat ch @ forest_flat es"
  by (simp_all add: forest_flat_def)

text \<open>On a model that keeps the contract the walk always returns, and describes the cells it visits.\<close>

lemma fetch_cells_total:
  assumes "item_model_ok M m"
  shows "\<exists>es n'. fetch_cells M m roles p cells n = Inr (es, n')"
  using assms
proof (induction M m roles p cells n rule: fetch_cells.induct)
  case (1 M m roles parent n)
  then show ?case by (simp add: fetch_cells.simps)
next
  case (2 M m roles parent row column cells n)
  let ?ix = "m_index M m row column parent"
  obtain l where l: "index_path M m ?ix = Inr l" using index_path_exists[OF 2(3)] by blast
  show ?case
  proof (cases "n = 0")
    case False
    obtain ch n1 where ch: "(if m_hasChildren M m ?ix then fetch_cells M m roles ?ix (cells_of M m ?ix) (n - 1)
        else Inr ([], n - 1)) = (Inr (ch, n1) :: model_fault + 'c data_entries \<times> nat)"
      using 2(1)[OF False refl refl refl l] 2(3) by (cases "m_hasChildren M m ?ix") fastforce+
    obtain es n2 where "fetch_cells M m roles parent cells n1 = Inr (es, n2)"
      using 2(2)[OF False refl refl refl l ch refl 2(3)] by blast
    then show ?thesis using False l ch by (simp add: fetch_cells.simps Let_def)
  qed (simp add: fetch_cells.simps)
qed

lemma fetch_cells_step:
  assumes "item_model_ok M m" and "0 < n"
  obtains l ch n1 es n2 where "index_path M m (m_index M m r c p) = Inr l"
    and "(if m_hasChildren M m (m_index M m r c p)
          then fetch_cells M m roles (m_index M m r c p) (cells_of M m (m_index M m r c p)) (n - 1)
          else Inr ([], n - 1)) = Inr (ch, n1)"
    and "fetch_cells M m roles p cells n1 = Inr (es, n2)"
    and "fetch_cells M m roles p ((r, c) # cells) n =
      Inr (IndexValuePair l (m_multiData M m (m_index M m r c p) roles) (m_hasChildren M m (m_index M m r c p))
             (m_flags M m (m_index M m r c p)) ch
             (m_columnCount M m (m_index M m r c p), m_rowCount M m (m_index M m r c p)) # es, n2)"
proof -
  let ?ix = "m_index M m r c p"
  obtain l where l: "index_path M m ?ix = Inr l" using index_path_exists[OF assms(1)] by blast
  obtain ch n1 where ch: "(if m_hasChildren M m ?ix then fetch_cells M m roles ?ix (cells_of M m ?ix) (n - 1)
        else Inr ([], n - 1)) = (Inr (ch, n1) :: model_fault + 'c data_entries \<times> nat)"
    using fetch_cells_total[OF assms(1), of roles ?ix "cells_of M m ?ix" "n - 1"]
    by (cases "m_hasChildren M m ?ix") fastforce+
  obtain es n2 where es: "fetch_cells M m roles p cells n1 = Inr (es, n2)"
    using fetch_cells_total[OF assms(1), of roles p cells n1] by blast
  show thesis
    by (rule that[OF l ch es]) (use assms(2) l ch es in \<open>simp add: fetch_cells.simps Let_def collectData_def\<close>)
qed

end
