(* ===== verification/AdapterProps.thy ===== *)
theory AdapterProps
  imports AdapterLemmas LittleEndian
begin

text \<open>
  The properties of the model adapter: positions name cells, requests are answered with the
  model's own cells, and a tree request never exceeds its budget and keeps to the model's order.
\<close>

subsection \<open>The budget of a tree request\<close>

lemma fetch_cells_count:
  assumes "item_model_ok M m" and "fetch_cells M m roles p cells n = Inr (es, n')"
  shows "length (forest_flat es) + n' = n"
  using assms
proof (induction M m roles p cells n arbitrary: es n' rule: fetch_cells.induct)
  case (1 M m roles parent n)
  then show ?case by (simp add: fetch_cells.simps)
next
  case (2 M m roles p r c cells n)
  show ?case
  proof (cases "n = 0")
    case True
    then show ?thesis using 2 by (simp add: fetch_cells.simps)
  next
    case False
    then obtain l ch n1 es1 n2 where l: "index_path M m (m_index M m r c p) = Inr l"
      and ch: "(if m_hasChildren M m (m_index M m r c p)
          then fetch_cells M m roles (m_index M m r c p) (cells_of M m (m_index M m r c p)) (n - 1)
          else Inr ([], n - 1)) = Inr (ch, n1)"
      and es1: "fetch_cells M m roles p cells n1 = Inr (es1, n2)"
      and eq: "fetch_cells M m roles p ((r, c) # cells) n =
        Inr (IndexValuePair l (m_multiData M m (m_index M m r c p) roles) (m_hasChildren M m (m_index M m r c p))
             (m_flags M m (m_index M m r c p)) ch
             (m_columnCount M m (m_index M m r c p), m_rowCount M m (m_index M m r c p)) # es1, n2)"
      using fetch_cells_step[OF 2(3)] by (metis neq0_conv)
    have "length (forest_flat ch) + n1 = n - 1"
      using ch 2(1)[OF False refl refl refl l _ 2(3)] by (auto split: if_splits)
    moreover have "length (forest_flat es1) + n2 = n1"
      by (rule 2(2)[OF False refl refl refl l ch refl 2(3) es1])
    ultimately show ?thesis using eq 2(4) False by auto
  qed
qed

lemma fetch_cells_pairs:
  assumes "item_model_ok M m" and "fetch_cells M m roles p cells n = Inr (es, n')"
  shows "pairs_of M m roles p cells es \<and> (0 < n' \<longrightarrow> length es = length cells)"
  using assms
proof (induction M m roles p cells n arbitrary: es n' rule: fetch_cells.induct)
  case (1 M m roles parent n)
  then show ?case by (simp add: fetch_cells.simps)
next
  case (2 M m roles p r c cells n)
  show ?case
  proof (cases "n = 0")
    case True
    then show ?thesis using 2 by (auto simp add: fetch_cells.simps)
  next
    case False
    then obtain l ch n1 es1 n2 where l: "index_path M m (m_index M m r c p) = Inr l"
      and ch: "(if m_hasChildren M m (m_index M m r c p)
          then fetch_cells M m roles (m_index M m r c p) (cells_of M m (m_index M m r c p)) (n - 1)
          else Inr ([], n - 1)) = Inr (ch, n1)"
      and es1: "fetch_cells M m roles p cells n1 = Inr (es1, n2)"
      and eq: "fetch_cells M m roles p ((r, c) # cells) n =
        Inr (IndexValuePair l (m_multiData M m (m_index M m r c p) roles) (m_hasChildren M m (m_index M m r c p))
             (m_flags M m (m_index M m r c p)) ch
             (m_columnCount M m (m_index M m r c p), m_rowCount M m (m_index M m r c p)) # es1, n2)"
      using fetch_cells_step[OF 2(3)] by (metis neq0_conv)
    have "pairs_of M m roles (m_index M m r c p) (cells_of M m (m_index M m r c p)) ch \<and>
        (\<not> m_hasChildren M m (m_index M m r c p) \<longrightarrow> ch = [])"
      using ch 2(1)[OF False refl refl refl l _ 2(3)] by (auto split: if_splits)
    moreover have "pairs_of M m roles p cells es1 \<and> (0 < n2 \<longrightarrow> length es1 = length cells)"
      by (rule 2(2)[OF False refl refl refl l ch refl 2(3) es1])
    ultimately show ?thesis using eq 2(4) l by (auto simp: pair_of_children)
  qed
qed

lemma fetch_cells_prefix:
  assumes "item_model_ok M m" and "n \<le> N"
    and "fetch_cells M m roles p cells N = Inr (ES, N')" and "fetch_cells M m roles p cells n = Inr (es, n')"
  shows "forest_flat es = take n (forest_flat ES)"
  using assms
proof (induction M m roles p cells N arbitrary: n ES N' es n' rule: fetch_cells.induct)
  case (1 M m roles parent N)
  then show ?case by (simp add: fetch_cells.simps)
next
  case (2 M m roles p r c cells N)
  show ?case
  proof (cases "n = 0")
    case True
    then show ?thesis using 2 by (auto simp add: fetch_cells.simps)
  next
    case n: False
    then have N: "N \<noteq> 0" using 2(4) by simp
    let ?ix = "m_index M m r c p"
    let ?kids = "\<lambda>k. if m_hasChildren M m ?ix then fetch_cells M m roles ?ix (cells_of M m ?ix) (k - 1)
        else Inr ([], k - 1)"
    let ?pair = "\<lambda>l ch. IndexValuePair l (m_multiData M m ?ix roles) (m_hasChildren M m ?ix)
      (m_flags M m ?ix) ch (m_columnCount M m ?ix, m_rowCount M m ?ix)"
    obtain l ch n1 es1 n2 where l: "index_path M m ?ix = Inr l" and ch: "?kids n = Inr (ch, n1)"
      and es1: "fetch_cells M m roles p cells n1 = Inr (es1, n2)"
      and eq: "fetch_cells M m roles p ((r, c) # cells) n = Inr (?pair l ch # es1, n2)"
      using fetch_cells_step[OF 2(3), of n] n by (metis neq0_conv)
    obtain l' CH N1 ES1 N2 where l': "index_path M m ?ix = Inr l'" and CH: "?kids N = Inr (CH, N1)"
      and ES1: "fetch_cells M m roles p cells N1 = Inr (ES1, N2)"
      and EQ: "fetch_cells M m roles p ((r, c) # cells) N = Inr (?pair l' CH # ES1, N2)"
      using fetch_cells_step[OF 2(3), of N] N by (metis neq0_conv)
    have count: "length (forest_flat ch) + n1 = n - 1" "length (forest_flat CH) + N1 = N - 1"
      using ch CH fetch_cells_count[OF 2(3)] by (auto split: if_splits)
    have kids: "forest_flat ch = take (n - 1) (forest_flat CH)"
      using ch CH 2(1)[OF N refl refl refl l' _ 2(3), of "n - 1" CH N1 ch n1] 2(4)
      by (auto split: if_splits)
    have "n1 \<le> N1"
    proof -
      have "length (forest_flat ch) = min (length (forest_flat CH)) (n - 1)" using kids by simp
      then show ?thesis using count 2(4) by linarith
    qed
    then have rest: "forest_flat es1 = take n1 (forest_flat ES1)"
      by (rule 2(2)[OF N refl refl refl l' CH refl 2(3) _ ES1 es1])
    have "n1 = n - 1 - length (forest_flat CH)"
    proof -
      have "length (forest_flat ch) = min (length (forest_flat CH)) (n - 1)" using kids by simp
      then show ?thesis using count by linarith
    qed
    then show ?thesis
      using eq EQ 2(5,6) l l' n kids rest by (cases n) auto
  qed
qed

subsection \<open>A small model\<close>

text \<open>Two rows and one column, the first row with one child: the model the witnesses run on.\<close>

datatype demo_ix = DRoot | DA | DB | DA1

definition demo_code :: "demo_ix \<Rightarrow> int" where
  "demo_code ix = (case ix of DRoot \<Rightarrow> 0 | DA \<Rightarrow> 10 | DB \<Rightarrow> 20 | DA1 \<Rightarrow> 30)"

definition demo_model :: "(unit, demo_ix, u32) item_model" where
  "demo_model =
    \<lparr>m_root = DRoot,
     m_isValid = (\<lambda>ix. ix \<noteq> DRoot),
     m_rowOf = (\<lambda>ix. if ix = DB then 1 else 0),
     m_columnOf = (\<lambda>ix. 0),
     m_index = (\<lambda>m r c p. if c \<noteq> 0 then DRoot
        else if p = DRoot then (if r = 0 then DA else if r = 1 then DB else DRoot)
        else if p = DA then (if r = 0 then DA1 else DRoot) else DRoot),
     m_parent = (\<lambda>m ix. if ix = DA1 then DA else DRoot),
     m_rowCount = (\<lambda>m ix. if ix = DRoot then 2 else if ix = DA then 1 else 0),
     m_columnCount = (\<lambda>m ix. if ix = DRoot \<or> ix = DA then 1 else 0),
     m_hasChildren = (\<lambda>m ix. ix = DRoot \<or> ix = DA),
     m_flags = (\<lambda>m ix. 33),
     m_multiData = (\<lambda>m ix. map (\<lambda>r. word_of_int (demo_code ix + r))),
     m_headerData = (\<lambda>m s orient r. word_of_int s),
     m_setData = (\<lambda>ix v r m. (True, m))\<rparr>"

lemma demo_model_ok: "item_model_ok demo_model ()"
proof -
  have "\<exists>n. (m_parent demo_model () ^^ n) ix = m_root demo_model" for ix
    by (cases ix) (auto simp: demo_model_def intro: exI[of _ 0] exI[of _ "Suc 0"] exI[of _ "Suc (Suc 0)"])
  moreover have "m_index demo_model () (m_rowOf demo_model ix) (m_columnOf demo_model ix) (m_parent demo_model () ix) = ix"
    if "m_isValid demo_model ix" for ix
    using that by (cases ix) (auto simp: demo_model_def)
  ultimately show ?thesis
    unfolding item_model_ok_def by (auto simp: demo_model_def split: if_splits)
qed

lemma demo_root [simp]: "m_root demo_model = DRoot" "m_columnCount demo_model () DRoot = 1"
  "m_rowCount demo_model () DRoot = 2"
  by (simp_all add: demo_model_def)

definition demo_adapter :: "(unit, demo_ix) adapter" where
  "demo_adapter = new_adapter () False [0, 2]"

lemma demo_adapter_model [simp]: "ad_model demo_adapter = ()"
  by simp

lemma demo_adapter_roles [simp]: "ad_availableRoles demo_adapter = [0, 2]"
  by (simp add: demo_adapter_def new_adapter_def)

text \<open>
  C34: In a model that keeps Qt's contract, the position list computed for an index leads back to that
  index, and a position list that leads to an index is the one computed for it: both ends name the
  same cell by the same list.
\<close>

theorem position_roundtrip:
  assumes "item_model_ok M m"
  shows "toModelIndexList M m ix = Some l \<longleftrightarrow> toQModelIndex M m l = (ix, True)"
  using index_path_iff[OF assms, of ix l] by (simp add: index_path_def split: option.splits)

theorem position_roundtrip_witness:
  "toModelIndexList demo_model () DA1 = Some [ModelIndex 0 0, ModelIndex 0 0]"
  by (subst position_roundtrip[OF demo_model_ok])
     (simp add: toQModelIndex_def demo_model_def ModelIndex_def)

text \<open>
  C33: A tree request of a budget returns on every model that keeps the contract, hands out at most
  as many entries as the budget, and exactly the budget when it stops early; a smaller budget gets
  the first entries, in preorder, of what a larger one gets.
\<close>

theorem fetch_tree_budget:
  assumes "item_model_ok M m" and "n \<le> N"
  shows "\<exists>es n' ES N'. fetchTree M m p n roles = Inr (es, n') \<and> fetchTree M m p N roles = Inr (ES, N') \<and>
    length (forest_flat es) + n' = n \<and> forest_flat es = take n (forest_flat ES) \<and>
    (0 < n' \<longrightarrow> length es = length (cells_of M m p))"
proof -
  let ?c = "cells_of M m p"
  obtain es n' ES N' where e: "fetch_cells M m roles p ?c n = Inr (es, n')"
    "fetch_cells M m roles p ?c N = Inr (ES, N')"
    using fetch_cells_total[OF assms(1)] by metis
  show ?thesis
    using e fetch_cells_count[OF assms(1) e(1)] fetch_cells_prefix[OF assms e(2,1)]
      fetch_cells_pairs[OF assms(1) e(1)] by (auto simp: fetchTree_def)
qed

theorem fetch_tree_budget_witness:
  "\<exists>es n' ES N'. fetchTree demo_model () DRoot 2 [0] = Inr (es, n') \<and>
    fetchTree demo_model () DRoot 9 [0] = Inr (ES, N') \<and>
    length (forest_flat es) + n' = 2 \<and> forest_flat es = take 2 (forest_flat ES)"
  using fetch_tree_budget[OF demo_model_ok, of 2 9 DRoot "[0]"] by auto

text \<open>
  C30: Every entry a cache request hands out describes one cell of the model: its position list leads
  to the cell, its values are the model's for the roles in the reply, one per role, its flags,
  sizes and children mark are the cell's, and its children are the cell's first cells, in order.
\<close>

theorem cache_request_describes_model:
  assumes "item_model_ok M (ad_model a)" and "replicaCacheRequest M n roles a = Inr reply"
  shows "pairs_of M (ad_model a) (me_roles reply) (m_root M) (cells_of M (ad_model a) (m_root M)) (me_data reply) \<and>
    length (forest_flat (me_data reply)) \<le> n \<and>
    me_size reply = (m_columnCount M (ad_model a) (m_root M), m_rowCount M (ad_model a) (m_root M)) \<and>
    me_roles reply = (if roles = [] then ad_availableRoles a else roles)"
proof -
  let ?roles = "if roles = [] then ad_availableRoles a else roles"
  obtain es n' where f: "fetch_cells M (ad_model a) ?roles (m_root M) (cells_of M (ad_model a) (m_root M)) n = Inr (es, n')"
    using fetch_cells_total[OF assms(1)] by blast
  show ?thesis
    using assms(2) f fetch_cells_pairs[OF assms(1) f] fetch_cells_count[OF assms(1) f]
    by (auto simp: replicaCacheRequest_def fetchTree_def Let_def)
qed

theorem cache_request_describes_model_witness:
  "\<exists>reply. replicaCacheRequest demo_model 2 [] demo_adapter = Inr reply \<and>
     pairs_of demo_model () (me_roles reply) DRoot (cells_of demo_model () DRoot) (me_data reply) \<and>
     length (forest_flat (me_data reply)) \<le> 2 \<and> me_size reply = (1, 2) \<and> me_roles reply = [0, 2]"
proof -
  obtain reply where r: "replicaCacheRequest demo_model 2 [] demo_adapter = Inr reply"
    using fetch_cells_total[OF demo_model_ok, of "[0, 2]" DRoot "cells_of demo_model () DRoot" 2]
    by (fastforce simp: replicaCacheRequest_def fetchTree_def)
  have ok: "item_model_ok demo_model (ad_model demo_adapter)" using demo_model_ok by simp
  show ?thesis
    using cache_request_describes_model[OF ok r] r by (intro exI[of _ reply]) auto
qed

text \<open>
  C31: A row request answers with exactly the cells of the requested rectangle that the parent has,
  row by row, each with its position, the values for the requested roles (all available roles if
  none were named), its flags and whether it has children.
\<close>

theorem row_request_rectangle:
  assumes ok: "item_model_ok M (ad_model a)" and p: "toQModelIndex M (ad_model a) pl = (p, True)"
    and "0 \<le> mi_row s" "0 \<le> mi_column s" "0 < m_rowCount M (ad_model a) p" and "end1 \<noteq> []"
  shows "replicaRowRequest M (pl @ [s]) end1 roles a =
    Inr (map (\<lambda>(r, c). let ix = m_index M (ad_model a) r c p
              in IndexValuePair (pl @ [ModelIndex r c])
                   (m_multiData M (ad_model a) ix (if roles = [] then ad_availableRoles a else roles))
                   (m_hasChildren M (ad_model a) ix) (m_flags M (ad_model a) ix) [] (-1, -1))
      (cells_between (mi_row s) (min (mi_row (last end1)) (m_rowCount M (ad_model a) p - 1))
                     (mi_column s) (min (mi_column (last end1)) (m_columnCount M (ad_model a) p - 1))))"
proof -
  let ?m = "ad_model a" and ?roles = "if roles = [] then ad_availableRoles a else roles"
  let ?cells = "cells_between (mi_row s) (min (mi_row (last end1)) (m_rowCount M ?m p - 1))
    (mi_column s) (min (mi_column (last end1)) (m_columnCount M ?m p - 1))"
  let ?f = "\<lambda>(r, c). let ix = m_index M ?m r c p
    in IndexValuePair (pl @ [ModelIndex r c]) (m_multiData M ?m ix ?roles) (m_hasChildren M ?m ix)
         (m_flags M ?m ix) [] (-1, -1)"
  have path: "index_path M ?m p = Inr pl" by (rule index_path_unique[OF ok p])
  have "mapE (row_entry M ?m ?roles p) ?cells = Inr (map ?f ?cells)"
  proof (rule mapE_Inr)
    fix x assume x: "x \<in> set ?cells"
    obtain r c where rc: "x = (r, c)" by (cases x)
    then have "m_isValid M (m_index M ?m r c p)"
      using x assms(3,4) item_index_valid[OF ok, of r c p] by (auto simp: cells_between_mem)
    then show "row_entry M ?m ?roles p x = Inr (?f x)"
      using index_path_child[OF ok path] by (simp add: rc row_entry_def collectData_def Let_def)
  qed
  then show ?thesis
    using p assms(5,6) by (simp add: replicaRowRequest_def last_index_def resolve_def Let_def)
qed

theorem row_request_rectangle_witness:
  "replicaRowRequest demo_model [ModelIndex 1 0] [ModelIndex 7 7] [0] demo_adapter =
    Inr [IndexValuePair [ModelIndex 1 0] [20] False 33 [] (-1, -1)]"
  using row_request_rectangle[of demo_model demo_adapter "[]" DRoot "ModelIndex 1 0" "[ModelIndex 7 7]" "[0]"]
    demo_model_ok
  by (simp add: toQModelIndex_def demo_model_def cells_between_def ModelIndex_def demo_code_def)

text \<open>
  A change of the source's data reaches the replicas for exactly the roles the adapter offers: the
  changed roles it has, in their order, or all of them when the model names none; when none of the
  changed roles is offered nothing is sent.
\<close>

theorem data_change_roles:
  assumes "item_model_ok M (ad_model a)" and "distinct (ad_availableRoles a)"
    and "toQModelIndex M (ad_model a) start = (topLeft, True)"
    and "toQModelIndex M (ad_model a) end1 = (bottomRight, True)"
  shows "sourceDataChanged M topLeft bottomRight roles a =
    (let needed = (if roles = [] then ad_availableRoles a else filter (\<lambda>r. r \<in> set (ad_availableRoles a)) roles)
     in Inr (if needed = [] then a else ad_emit (DataChanged start end1 needed) a))"
  using index_path_unique[OF assms(1,3)] index_path_unique[OF assms(1,4)]
  by (simp add: sourceDataChanged_def filterRoles_filter[OF assms(2)] Let_def)

theorem data_change_roles_witness:
  "sourceDataChanged demo_model DB DB [1, 2] demo_adapter =
    Inr (ad_emit (DataChanged [ModelIndex 1 0] [ModelIndex 1 0] [2]) demo_adapter)"
  using data_change_roles[of demo_model demo_adapter "[ModelIndex 1 0]" DB "[ModelIndex 1 0]" DB "[1, 2]"]
    demo_model_ok
  by (simp add: toQModelIndex_def demo_model_def ModelIndex_def)

text \<open>
  The reply to a cache request, a tree of entries with its roles and size, is read back from the
  stream as it was written, when the reader may nest as deep as the tree is high.
\<close>

theorem model_reply_roundtrip:
  assumes "qdata_stream S" and "list_fits (me_data e)" "list_all (pair_fits S) (me_data e)"
    and "list_fits (me_roles e)" "list_all int_fits (me_roles e)"
    and "int_fits (fst (me_size e))" "int_fits (snd (me_size e))"
    and "list_all (\<lambda>t. pair_height t \<le> n) (me_data e)"
  shows "get_meta S n (put_meta S e @ r) = Some (e, r)"
  by (rule qdata_stream.meta_rt[OF assms])

theorem model_reply_roundtrip_witness:
  "let e = \<lparr>me_data = [IndexValuePair [ModelIndex 0 0] [5 :: u32] True 33
                        [IndexValuePair [ModelIndex 0 0, ModelIndex 0 0] [6] False 33 [] (-1, -1)] (1, 1)],
            me_roles = [0], me_size = (1, 2)\<rparr>
   in get_meta le_stream 2 (put_meta le_stream e @ [7]) = Some (e, [7])"
  unfolding Let_def
  by (rule model_reply_roundtrip[OF le_stream_laws])
     (simp_all add: list_fits_def model_index_fits_def int_fits_def ModelIndex_def le_stream_def)

end
