(* ===== verification/ModelReplica.thy ===== *)
theory ModelReplica
  imports ModelTypes Results LRUCache
begin

text \<open>
  The replica of a model: \<open>QAbstractItemModelReplica\<close> and its implementation class
  (\<open>qremoteobjectabstractitemmodelreplica.cpp\<close> and \<open>_p.h\<close>). This theory has its state and the
  operations a view calls.

  The rows it has heard of are \<open>CacheData\<close> objects, allocated on the heap, that point to each other:
  a row to its parent, a parent through its \<open>LRUCache\<close> to its children; and an index a view holds
  points to the parent of the row it names. So the model has an explicit heap, a finite map from
  addresses to objects in which an absent address is one that was freed; address 0 is the member
  \<open>m_rootItem\<close>. Addresses are never reused. Reading a freed address is the fault \<open>UseAfterFree\<close>; the
  code guards some reads by \<open>m_activeParents\<close>, a set of addresses that objects enter when they
  get their first child and leave when they are destroyed.
\<close>

datatype replica_fault =
    CacheUB lru_ub      \<comment> \<open>undefined behaviour inside \<open>LRUCache\<close>\<close>
  | UseAfterFree
  | NullItem            \<comment> \<open>a null \<open>CacheData\<close> is dereferenced\<close>
  | FatalIndex          \<comment> \<open>\<open>qFatal\<close> of \<open>toQModelIndex\<close>\<close>
  | EmptyList           \<comment> \<open>\<open>last\<close> or \<open>pop_back\<close> of an empty list\<close>
  | BadRange            \<comment> \<open>a list is indexed or erased outside its bounds\<close>
  | EndlessParents

datatype qindex = NoIndex | QIndex (qi_row: int) (qi_column: int) (qi_ptr: nat)

definition qindex_row :: "qindex \<Rightarrow> int" where
  "qindex_row ix = (case ix of NoIndex \<Rightarrow> -1 | QIndex r c p \<Rightarrow> r)"

definition qindex_column :: "qindex \<Rightarrow> int" where
  "qindex_column ix = (case ix of NoIndex \<Rightarrow> -1 | QIndex r c p \<Rightarrow> c)"

record 'v cache_entry =
  ce_data :: "int \<rightharpoonup> 'v"
  ce_flags :: int32

definition new_entry :: "'v cache_entry" where
  "new_entry = \<lparr>ce_data = Map.empty, ce_flags = 0\<rparr>"

record 'v cache_data =
  cd_parent :: "nat option"
  cachedRowEntry :: "'v cache_entry list"
  cd_hasChildren :: bool
  children :: "nat lru"
  columnCount :: int
  rowCount :: int

record requested_data =
  rd_start :: index_list
  rd_end :: index_list
  rd_roles :: "int list"

record requested_header =
  rh_role :: int
  rh_section :: int
  rh_orientation :: orientation

text \<open>
  What is waiting for a reply: the class of the watcher with what it remembers, and for the plain
  watchers which handler is connected.
\<close>

datatype watcher =
    SizeWatcher index_list
  | RowWatcher index_list index_list "int list"
  | HeaderWatcher "orientation list" "int list" "int list"
  | CacheWatcher
  | LayoutWatcher "qindex list" int

datatype initial_action = FetchRootSize | PrefetchData

text \<open>
  What leaves the object, in order: the calls it sends to the source, the notifications and the
  signals of the model, and the calls it queues for itself.
\<close>

datatype 'v model_event =
    CallSize index_list
  | CallRows index_list index_list "int list"
  | CallHeader "orientation list" "int list" "int list"
  | CallSetCurrent index_list
  | CallSetData index_list 'v int
  | CallCache nat "int list"
  | QueueFetchPendingData
  | QueueFetchPendingHeaderData
  | BeginInsertRows qindex int int
  | EndInsertRows
  | BeginInsertColumns qindex int int
  | EndInsertColumns
  | BeginRemoveRows qindex int int
  | EndRemoveRows
  | BeginMoveRows qindex int int qindex int
  | EndMoveRows
  | BeginResetModel
  | EndResetModel
  | SigDataChanged qindex qindex "int list"
  | SigHeaderDataChanged orientation int int
  | SigInitialized
  | SelectCurrent qindex
  | SigLayoutAboutToBeChanged "qindex list" int
  | SigLayoutChanged "qindex list" int

record 'v mreplica =
  mr_heap :: "(nat \<times> 'v cache_data) list"
  mr_next :: nat
  activeParents :: "nat set"
  headerH :: "'v cache_entry list"
  headerV :: "'v cache_entry list"
  requestedData :: "requested_data list"
  requestedHeaderData :: "requested_header list"
  pendingRequests :: "(nat \<times> watcher) list"
  mr_watchers :: nat
  initDone :: bool
  initialized :: bool
  initialAction :: initial_action
  fetchRolesHint :: "int list"
  knownRoles :: "int list"
  propRoles :: "int list"
  envCacheSize :: nat
  mr_events :: "'v model_event list"

definition mr_emit :: "'v model_event \<Rightarrow> 'v mreplica \<Rightarrow> 'v mreplica" where
  "mr_emit e st = st\<lparr>mr_events := mr_events st @ [e]\<rparr>"

subsection \<open>Objects on the heap\<close>

definition new_cache_data :: "nat \<Rightarrow> nat option \<Rightarrow> 'v cache_data" where
  "new_cache_data envSize p =
    \<lparr>cd_parent = p, cachedRowEntry = [], cd_hasChildren = False, children = lru_new envSize,
     columnCount = 0, rowCount = 0\<rparr>"

definition cd_at :: "nat \<Rightarrow> 'v mreplica \<Rightarrow> replica_fault + 'v cache_data" where
  "cd_at a st = (case map_of (mr_heap st) a of None \<Rightarrow> Inl UseAfterFree | Some cd \<Rightarrow> Inr cd)"

definition cd_put :: "nat \<Rightarrow> 'v cache_data \<Rightarrow> 'v mreplica \<Rightarrow> 'v mreplica" where
  "cd_put a cd st = st\<lparr>mr_heap := AList.update a cd (mr_heap st)\<rparr>"

definition cd_update :: "nat \<Rightarrow> ('v cache_data \<Rightarrow> 'v cache_data) \<Rightarrow> 'v mreplica \<Rightarrow> replica_fault + 'v mreplica" where
  "cd_update a f st = bindE (cd_at a st) (\<lambda>cd. Inr (cd_put a (f cd) st))"

text \<open>The constructor makes the parent active.\<close>

definition alloc_child :: "nat \<Rightarrow> 'v mreplica \<Rightarrow> nat \<times> 'v mreplica" where
  "alloc_child p st =
    (mr_next st,
     st\<lparr>mr_heap := AList.update (mr_next st) (new_cache_data (envCacheSize st) (Some p)) (mr_heap st),
        mr_next := Suc (mr_next st), activeParents := insert p (activeParents st)\<rparr>)"

definition has_children_at :: "'v mreplica \<Rightarrow> nat \<Rightarrow> bool" where
  "has_children_at st a = (case map_of (mr_heap st) a of None \<Rightarrow> False | Some cd \<Rightarrow> cd_hasChildren cd)"

definition lru_values :: "'v lru \<Rightarrow> 'v list" where
  "lru_values c = map (\<lambda>(i, k, v). v) (cachedItems c)"

text \<open>
  Destroying objects: the destructor takes the object off the active parents, then its cache of
  children is destroyed and deletes each of them. The list holds what is still to be destroyed.
\<close>

function destroy :: "nat list \<Rightarrow> 'v mreplica \<Rightarrow> replica_fault + 'v mreplica" where
  "destroy [] st = Inr st"
| "destroy (a # todo) st =
    (case map_of (mr_heap st) a of
       None \<Rightarrow> Inl UseAfterFree
     | Some cd \<Rightarrow>
        destroy (lru_values (children cd) @ todo)
          (st\<lparr>mr_heap := AList.delete a (mr_heap st),
              activeParents := (if cd_parent cd \<noteq> None \<and> activeParents st \<noteq> {}
                                then activeParents st - {a} else activeParents st)\<rparr>))"
  by pat_completeness auto

lemma delete_shrinks: "map_of m a = Some v \<Longrightarrow> length (AList.delete a m) < length m"
proof (induction m)
  case (Cons x m)
  have "length (AList.delete a m) \<le> length m" by (rule length_delete_le)
  then show ?case using Cons by (cases x) (auto split: if_splits)
qed simp

termination destroy
  by (relation "measure (\<lambda>(todo, st). length (mr_heap st))") (auto simp: delete_shrinks)

text \<open>Running an operation of the cache of children, and destroying what it deletes.\<close>

definition with_children ::
    "nat \<Rightarrow> (nat lru \<Rightarrow> lru_ub + nat lru) \<Rightarrow> 'v mreplica \<Rightarrow> replica_fault + 'v mreplica" where
  "with_children a f st =
    bindE (cd_at a st) (\<lambda>cd.
      case f ((children cd)\<lparr>deleted := []\<rparr>) of
        Inl u \<Rightarrow> Inl (CacheUB u)
      | Inr c \<Rightarrow> destroy (deleted c) (cd_put a (cd\<lparr>children := c\<lparr>deleted := []\<rparr>\<rparr>) st))"

definition ensureChild :: "nat \<Rightarrow> int \<Rightarrow> 'v mreplica \<Rightarrow> replica_fault + 'v mreplica" where
  "ensureChild a i st =
    bindE (cd_at a st) (\<lambda>cd.
      if lru_exists i (children cd) then Inr st
      else let (n, st1) = alloc_child a st
           in with_children a (lru_ensure (has_children_at st1) i n) st1)"

definition ensureChildren :: "nat \<Rightarrow> int \<Rightarrow> int \<Rightarrow> 'v mreplica \<Rightarrow> replica_fault + 'v mreplica" where
  "ensureChildren a start end1 st = foldE (ensureChild a) [start..end1] st"

definition insertChild :: "nat \<Rightarrow> int \<Rightarrow> 'v mreplica \<Rightarrow> replica_fault + 'v mreplica" where
  "insertChild a i st =
    bindE (cd_at a st) (\<lambda>cd.
      let (n, st1) = alloc_child a st
      in bindE (cd_update n (\<lambda>c. c\<lparr>columnCount := columnCount cd\<rparr>) st1) (\<lambda>st2.
         bindE (with_children a (lru_insert (has_children_at st2) i n) st2)
           (cd_update a (\<lambda>c. c\<lparr>rowCount := rowCount c + 1\<rparr>))))"

definition insertChildren :: "nat \<Rightarrow> int \<Rightarrow> int \<Rightarrow> 'v mreplica \<Rightarrow> replica_fault + 'v mreplica" where
  "insertChildren a start end1 st =
    bindE (foldE (insertChild a) [start..end1] st)
      (cd_update a (\<lambda>c. if rowCount c \<noteq> 0 then c\<lparr>cd_hasChildren := True\<rparr> else c))"

definition removeChild :: "nat \<Rightarrow> int \<Rightarrow> 'v mreplica \<Rightarrow> replica_fault + 'v mreplica" where
  "removeChild a i st =
    bindE (with_children a (\<lambda>c. Inr (lru_remove i c)) st)
      (cd_update a (\<lambda>c. c\<lparr>rowCount := rowCount c - 1\<rparr>))"

definition removeChildren :: "nat \<Rightarrow> int \<Rightarrow> int \<Rightarrow> 'v mreplica \<Rightarrow> replica_fault + 'v mreplica" where
  "removeChildren a start end1 st =
    bindE (foldE (removeChild a) (rev [start..end1]) st)
      (cd_update a (\<lambda>c. c\<lparr>cd_hasChildren := (rowCount c \<noteq> 0)\<rparr>))"

definition cd_clear :: "nat \<Rightarrow> 'v mreplica \<Rightarrow> replica_fault + 'v mreplica" where
  "cd_clear a st =
    bindE (cd_update a (\<lambda>c. c\<lparr>cachedRowEntry := []\<rparr>) st) (\<lambda>st1.
    bindE (with_children a (\<lambda>c. Inr (lru_clear c)) st1)
      (cd_update a (\<lambda>c. c\<lparr>cd_hasChildren := False, columnCount := 0, rowCount := 0\<rparr>)))"

subsection \<open>From an index to its row\<close>

text \<open>
  \<open>cacheData\<close>: an invalid index is the root; another one is looked up among the children of the
  object it points to, if that object is still an active parent. The lookup marks the row as
  used, so the state changes.
\<close>

definition cacheData :: "qindex \<Rightarrow> 'v mreplica \<Rightarrow> replica_fault + nat option \<times> 'v mreplica" where
  "cacheData ix st =
    (case ix of
       NoIndex \<Rightarrow> Inr (Some 0, st)
     | QIndex r c p \<Rightarrow>
        if p \<in> activeParents st
        then bindE (cd_at p st) (\<lambda>cd.
               let (v, ch) = lru_get r (children cd)
               in Inr (v, cd_put p (cd\<lparr>children := ch\<rparr>) st))
        else Inr (None, st))"

definition cacheEntry ::
    "qindex \<Rightarrow> 'v mreplica \<Rightarrow> replica_fault + 'v cache_entry option \<times> 'v mreplica" where
  "cacheEntry ix st =
    bindE (cacheData ix st) (\<lambda>(d, st1).
      case d of
        None \<Rightarrow> Inr (None, st1)
      | Some a \<Rightarrow>
         bindE (cd_at a st1) (\<lambda>cd.
           if qindex_column ix < 0 \<or> qindex_column ix \<ge> int (length (cachedRowEntry cd))
           then Inr (None, st1)
           else Inr (Some (cachedRowEntry cd ! nat (qindex_column ix)), st1)))"

definition q_index ::
    "int \<Rightarrow> int \<Rightarrow> qindex \<Rightarrow> 'v mreplica \<Rightarrow> replica_fault + qindex \<times> 'v mreplica" where
  "q_index row column parent st =
    bindE (cacheData parent st) (\<lambda>(d, st1).
      case d of
        None \<Rightarrow> Inr (NoIndex, st1)
      | Some a \<Rightarrow>
         bindE (cd_at a st1) (\<lambda>cd.
           if row < 0 \<or> row \<ge> rowCount cd then Inr (NoIndex, st1)
           else if column < 0 \<or> column \<ge> columnCount cd then Inr (NoIndex, st1)
           else bindE (if a \<noteq> 0 then ensureChildren a row row st1 else Inr st1)
                  (\<lambda>st2. Inr (QIndex row column a, st2))))"

definition q_parent :: "qindex \<Rightarrow> 'v mreplica \<Rightarrow> replica_fault + qindex" where
  "q_parent ix st =
    (case ix of
       NoIndex \<Rightarrow> Inr NoIndex
     | QIndex r c p \<Rightarrow>
        if p = 0 then Inr NoIndex
        else if p \<notin> activeParents st then Inr NoIndex
        else bindE (cd_at p st) (\<lambda>cd.
               case cd_parent cd of
                 None \<Rightarrow> Inr NoIndex
               | Some pp \<Rightarrow>
                  if pp \<notin> activeParents st then Inr NoIndex
                  else bindE (cd_at pp st) (\<lambda>pcd. Inr (QIndex (lru_find p (children pcd)) 0 pp))))"

text \<open>
  The two walks of \<open>qremoteobjectabstractitemmodeltypes_p.h\<close> over this model. With \<open>ensureItem\<close>
  every step first makes sure that the row exists (\<open>setData\<close> with the role \<open>Qt::UserRole - 1\<close>).
  \<open>toModelIndexList\<close> follows parents; every object is allocated after its parent, so as many
  steps as there were allocations are enough.
\<close>

definition ensure_item :: "qindex \<Rightarrow> int \<Rightarrow> 'v mreplica \<Rightarrow> replica_fault + bool \<times> 'v mreplica" where
  "ensure_item ix row st =
    bindE (cacheData ix st) (\<lambda>(d, st1).
      case d of
        None \<Rightarrow> Inr (False, st1)
      | Some a \<Rightarrow> bindE (ensureChildren a row row st1) (\<lambda>st2. Inr (True, st2)))"

fun q_walk ::
    "bool \<Rightarrow> index_list \<Rightarrow> qindex \<Rightarrow> 'v mreplica \<Rightarrow> replica_fault + (qindex \<times> bool) \<times> 'v mreplica" where
  "q_walk ensureItem [] res st = Inr ((res, True), st)"
| "q_walk ensureItem (i # list) res st =
    bindE (if ensureItem then bindE (ensure_item res (mi_row i) st) (\<lambda>(b, st1). Inr st1) else Inr st)
      (\<lambda>st1. bindE (q_index (mi_row i) (mi_column i) res st1) (\<lambda>(res', st2).
         if res' = NoIndex then Inr ((NoIndex, False), st2) else q_walk ensureItem list res' st2))"

definition q_resolve :: "index_list \<Rightarrow> 'v mreplica \<Rightarrow> replica_fault + qindex \<times> 'v mreplica" where
  "q_resolve list st =
    bindE (q_walk False list NoIndex st) (\<lambda>((ix, ok), st1).
      if ok then Inr (ix, st1) else Inl FatalIndex)"

fun q_prepend :: "nat \<Rightarrow> qindex \<Rightarrow> index_list \<Rightarrow> 'v mreplica \<Rightarrow> replica_fault + index_list" where
  "q_prepend n NoIndex list st = Inr list"
| "q_prepend 0 (QIndex r c p) list st = Inl EndlessParents"
| "q_prepend (Suc n) (QIndex r c p) list st =
    bindE (q_parent (QIndex r c p) st) (\<lambda>ix. q_prepend n ix (ModelIndex r c # list) st)"

definition q_path :: "qindex \<Rightarrow> 'v mreplica \<Rightarrow> replica_fault + index_list" where
  "q_path ix st = q_prepend (Suc (mr_next st)) ix [] st"

definition createCacheData :: "index_list \<Rightarrow> 'v mreplica \<Rightarrow> replica_fault + nat option \<times> 'v mreplica" where
  "createCacheData list st =
    bindE (q_walk False list NoIndex st) (\<lambda>((ix, ok), st1).
      if \<not> ok then Inr (None, st1)
      else bindE (q_parent ix st1) (\<lambda>parent.
           bindE (cacheData parent st1) (\<lambda>(d, st2).
             case d of
               None \<Rightarrow> Inl NullItem
             | Some a \<Rightarrow>
                bindE (ensureChildren a (qindex_row ix) (qindex_row ix) st2) (cacheData ix))))"

subsection \<open>What a view calls\<close>

definition q_hasChildren :: "qindex \<Rightarrow> 'v mreplica \<Rightarrow> replica_fault + bool \<times> 'v mreplica" where
  "q_hasChildren parent st =
    bindE (cacheData parent st) (\<lambda>(d, st1).
      if parent \<noteq> NoIndex \<and> qindex_column parent \<noteq> 0 then Inr (False, st1)
      else case d of
             None \<Rightarrow> Inr (False, st1)
           | Some a \<Rightarrow> bindE (cd_at a st1) (\<lambda>cd. Inr (cd_hasChildren cd, st1)))"

definition q_rowCount :: "qindex \<Rightarrow> 'v mreplica \<Rightarrow> replica_fault + int \<times> 'v mreplica" where
  "q_rowCount parent st =
    bindE (cacheData parent st) (\<lambda>(d, st1).
      case d of
        None \<Rightarrow> Inr (0, st1)
      | Some a \<Rightarrow>
         bindE (cd_at a st1) (\<lambda>cd.
           if cd_hasChildren cd \<and> rowCount cd = 0 \<and> qindex_column parent = 0
           then bindE (q_path parent st1) (\<lambda>parentList. Inr (rowCount cd, mr_emit (CallSize parentList) st1))
           else if qindex_column parent > 0 then Inr (0, st1)
           else Inr (rowCount cd, st1)))"

fun column_count_up :: "nat \<Rightarrow> nat \<Rightarrow> 'v mreplica \<Rightarrow> replica_fault + int" where
  "column_count_up 0 a st = Inl EndlessParents"
| "column_count_up (Suc n) a st =
    bindE (cd_at a st) (\<lambda>cd.
      case cd_parent cd of
        Some p \<Rightarrow> if columnCount cd < 0 then column_count_up n p st else Inr (max 0 (columnCount cd))
      | None \<Rightarrow> Inr (max 0 (columnCount cd)))"

definition q_columnCount :: "qindex \<Rightarrow> 'v mreplica \<Rightarrow> replica_fault + int \<times> 'v mreplica" where
  "q_columnCount parent st =
    (if qindex_column parent > 0 then Inr (0, st)
     else bindE (cacheData parent st) (\<lambda>(d, st1).
            case d of
              None \<Rightarrow> Inr (0, st1)
            | Some a \<Rightarrow> bindE (column_count_up (Suc (mr_next st1)) a st1) (\<lambda>n. Inr (n, st1))))"

definition q_flags :: "qindex \<Rightarrow> 'v mreplica \<Rightarrow> replica_fault + int32 \<times> 'v mreplica" where
  "q_flags ix st =
    bindE (cacheEntry ix st) (\<lambda>(e, st1).
      Inr (case e of None \<Rightarrow> 0 | Some entry \<Rightarrow> ce_flags entry, st1))"

definition findData :: "'v cache_entry list \<Rightarrow> qindex \<Rightarrow> int \<Rightarrow> 'v option" where
  "findData row ix role =
    (if qindex_column ix < int (length row) then ce_data (row ! nat (qindex_column ix)) role else None)"

definition availableRoles :: "'v mreplica \<Rightarrow> int list \<times> 'v mreplica" where
  "availableRoles st =
    (let st' = (if knownRoles st = [] then st\<lparr>knownRoles := propRoles st\<rparr> else st)
     in (knownRoles st', st'))"

text \<open>
  \<open>multiData\<close> answers what is cached and asks for the rest. Its result has one slot per role, \<open>None\<close>
  for a cleared one.
\<close>

definition roles_to_fetch :: "'v cache_entry list option \<Rightarrow> qindex \<Rightarrow> int list \<Rightarrow> int list \<Rightarrow> int list" where
  "roles_to_fetch row ix roles span =
    filter (\<lambda>role. role \<in> set roles \<and>
      (case row of None \<Rightarrow> True | Some r \<Rightarrow> findData r ix role = None)) span"

definition cached_values :: "'v cache_entry list option \<Rightarrow> qindex \<Rightarrow> int list \<Rightarrow> int list \<Rightarrow> 'v option list" where
  "cached_values row ix roles span =
    map (\<lambda>role. if role \<in> set roles then (case row of None \<Rightarrow> None | Some r \<Rightarrow> findData r ix role) else None) span"

definition q_multiData ::
    "qindex \<Rightarrow> int list \<Rightarrow> 'v mreplica \<Rightarrow> replica_fault + 'v option list \<times> 'v mreplica" where
  "q_multiData ix span st =
    (if \<not> initialized st then Inr (map (\<lambda>_. None) span, st)
     else let (roles, st0) = availableRoles st
          in bindE (cacheData ix st0) (\<lambda>(d, st1).
             bindE (case d of None \<Rightarrow> Inr None
                    | Some a \<Rightarrow> bindE (cd_at a st1) (\<lambda>cd. Inr (Some (cachedRowEntry cd)))) (\<lambda>row.
               let values = cached_values row ix roles span; rolesToFetch = roles_to_fetch row ix roles span
               in if rolesToFetch = [] then Inr (values, st1)
                  else bindE (q_parent ix st1) (\<lambda>parent.
                       bindE (cacheData parent st1) (\<lambda>(pd, st2).
                         case pd of
                           None \<Rightarrow> Inl NullItem
                         | Some pa \<Rightarrow>
                            bindE (cd_at pa st2) (\<lambda>parentItem.
                            bindE (q_path parent st2) (\<lambda>parentList.
                              let start = parentList @ [ModelIndex (qindex_row ix) 0];
                                  end1 = parentList @ [ModelIndex (qindex_row ix) (max 0 (columnCount parentItem - 1))]
                              in Inr (values, mr_emit QueueFetchPendingData
                                   (st2\<lparr>requestedData := requestedData st2 @
                                      [\<lparr>rd_start = start, rd_end = end1, rd_roles = rolesToFetch\<rparr>]\<rparr>)))))))))"

definition q_data :: "qindex \<Rightarrow> int \<Rightarrow> 'v mreplica \<Rightarrow> replica_fault + 'v option \<times> 'v mreplica" where
  "q_data ix role st =
    (if ix = NoIndex then Inr (None, st)
     else bindE (q_multiData ix [role] st) (\<lambda>(vs, st1). Inr (hd vs, st1)))"

definition q_hasData :: "qindex \<Rightarrow> int \<Rightarrow> 'v mreplica \<Rightarrow> replica_fault + bool \<times> 'v mreplica" where
  "q_hasData ix role st =
    (if \<not> initialized st \<or> ix = NoIndex then Inr (False, st)
     else bindE (cacheData ix st) (\<lambda>(d, st1).
            case d of
              None \<Rightarrow> Inr (False, st1)
            | Some a \<Rightarrow> bindE (cd_at a st1) (\<lambda>cd. Inr (findData (cachedRowEntry cd) ix role \<noteq> None, st1))))"

definition header_of :: "orientation \<Rightarrow> 'v mreplica \<Rightarrow> 'v cache_entry list" where
  "header_of orient st = (case orient of Horizontal \<Rightarrow> headerH st | Vertical \<Rightarrow> headerV st)"

definition set_header :: "orientation \<Rightarrow> 'v cache_entry list \<Rightarrow> 'v mreplica \<Rightarrow> 'v mreplica" where
  "set_header orient l st =
    (case orient of Horizontal \<Rightarrow> st\<lparr>headerH := l\<rparr> | Vertical \<Rightarrow> st\<lparr>headerV := l\<rparr>)"

text \<open>\<open>headerData\<close> compares the section with the size from above only.\<close>

definition q_headerData ::
    "int \<Rightarrow> orientation \<Rightarrow> int \<Rightarrow> 'v mreplica \<Rightarrow> replica_fault + 'v option \<times> 'v mreplica" where
  "q_headerData section orient role st =
    (let elem = header_of orient st
     in if section \<ge> int (length elem) then Inr (None, st)
        else if section < 0 then Inl BadRange
        else case ce_data (elem ! nat section) role of
               Some v \<Rightarrow> Inr (Some v, st)
             | None \<Rightarrow>
                Inr (None, mr_emit QueueFetchPendingHeaderData
                  (st\<lparr>requestedHeaderData := requestedHeaderData st @
                     [\<lparr>rh_role = role, rh_section = section, rh_orientation = orient\<rparr>]\<rparr>)))"

text \<open>
  \<open>setData\<close>: with the role \<open>Qt::UserRole - 1\<close> it makes sure a row exists; \<open>toInt\<close> is Qt's conversion
  of a value to an \<open>int\<close>.
\<close>

definition userRoleMinus1 :: int where
  "userRoleMinus1 = 255"

definition q_setData ::
    "('v \<Rightarrow> int option) \<Rightarrow> qindex \<Rightarrow> 'v \<Rightarrow> int \<Rightarrow> 'v mreplica \<Rightarrow> replica_fault + bool \<times> 'v mreplica" where
  "q_setData toInt ix value role st =
    (if role = userRoleMinus1
     then bindE (cacheData ix st) (\<lambda>(d, st1).
            case d of
              None \<Rightarrow> Inr (False, st1)
            | Some a \<Rightarrow>
               (case toInt value of
                  None \<Rightarrow> Inr (False, st1)
                | Some row \<Rightarrow> bindE (ensureChildren a row row st1) (\<lambda>st2. Inr (True, st2))))
     else if ix = NoIndex then Inr (False, st)
     else bindE (q_parent ix st) (\<lambda>p1.
          bindE (if qindex_row ix < 0 then Inr (0, st) else q_rowCount p1 st) (\<lambda>(rows, st1).
            if qindex_row ix < 0 \<or> qindex_row ix \<ge> rows then Inr (False, st1)
            else bindE (q_parent ix st1) (\<lambda>p2.
                 bindE (if qindex_column ix < 0 then Inr (0, st1) else q_columnCount p2 st1) (\<lambda>(cols, st2).
                   if qindex_column ix < 0 \<or> qindex_column ix \<ge> cols then Inr (False, st2)
                   else let (roles, st3) = availableRoles st2
                        in if role \<notin> set roles then Inr (False, st3)
                           else bindE (q_path ix st3) (\<lambda>l. Inr (True, mr_emit (CallSetData l value role) st3)))))))"

definition rootCacheSize :: "'v mreplica \<Rightarrow> replica_fault + nat" where
  "rootCacheSize st = bindE (cd_at 0 st) (\<lambda>cd. Inr (cacheSize (children cd)))"

definition setRootCacheSize :: "nat \<Rightarrow> 'v mreplica \<Rightarrow> replica_fault + 'v mreplica" where
  "setRootCacheSize n st = with_children 0 (setCacheSize (has_children_at st) n) st"

end
