(* ===== verification/CacheOwned.thy ===== *)
theory CacheOwned
  imports LRUCache ModelReplica "HOL-Library.Multiset"
begin

text \<open>
  Ownership in a cache of children: the objects it holds and the ones it has deleted. No operation
  of the cache loses one or deletes one twice.
\<close>

definition lru_owned :: "'v lru \<Rightarrow> 'v multiset" where
  "lru_owned c = mset (lru_values c) + mset (deleted c)"

named_theorems owned_simps \<open>what a cache operation owns afterwards\<close>

lemma node_of_mem: "node_of c i = Some x \<Longrightarrow> x \<in> set (cachedItems c) \<and> fst x = i"
proof -
  have "find (\<lambda>n. fst n = i) xs = Some x \<Longrightarrow> x \<in> set xs \<and> fst x = i" for xs
    by (induction xs) (auto split: if_splits)
  then show "node_of c i = Some x \<Longrightarrow> x \<in> set (cachedItems c) \<and> fst x = i" by (simp add: node_of_def)
qed

lemma owned_erase:
  assumes "distinct (map fst (cachedItems c))" and "(i, k, v) \<in> set (cachedItems c)"
  shows "lru_owned (erase_node i k' v c) = lru_owned c"
proof -
  have "mset (map (\<lambda>(i, k, v). v) (filter (\<lambda>n. fst n \<noteq> i) xs)) + {#v#} = mset (map (\<lambda>(i, k, v). v) xs)"
    if "distinct (map fst xs)" "(i, k, v) \<in> set xs" for xs
    using that
  proof (induction xs)
    case (Cons x xs)
    show ?case
    proof (cases "fst x = i")
      case True
      have fresh: "fst y \<noteq> fst x" if "y \<in> set xs" for y
        using Cons.prems(1) that by (metis distinct.simps(2) imageI list.set_map list.simps(9))
      have x: "x = (i, k, v)" using Cons.prems(2) fresh True by fastforce
      have "filter (\<lambda>n. fst n \<noteq> i) xs = xs"
        using fresh True by (intro filter_True) auto
      then show ?thesis using x by simp
    next
      case False
      then have "(i, k, v) \<in> set xs" using Cons.prems(2) by auto
      then show ?thesis using Cons False by (cases x) auto
    qed
  qed simp
  from this[OF assms] show ?thesis
    by (simp add: lru_owned_def lru_values_def erase_node_def add.assoc add.commute)
qed

lemma values_changeKeys: "lru_values (changeKeys key delta c) = lru_values c"
  by (auto simp: lru_values_def changeKeys_def Let_def)

lemma owned_changeKeys [owned_simps]: "lru_owned (changeKeys key delta c) = lru_owned c"
  by (simp add: lru_owned_def values_changeKeys)

lemma owned_cleanCache:
  assumes "lru_wf c" and "cleanCache hc c = Inr c'"
  shows "lru_owned c' = lru_owned c"
proof (cases "lru_size c \<le> cacheSize c")
  case True
  then show ?thesis using assms(2) by (simp add: cleanCache_result)
next
  case False
  obtain i k v where v: "skip_parents hc (rev (cachedItems c)) = Some (i, k, v)"
    using assms(2) False by (auto simp: cleanCache_result split: option.splits)
  have "(i, k, v) \<in> set (cachedItems c)" using skip_parents_mem[OF v] by simp
  then have "lru_owned (erase_node i k v c) = lru_owned c"
    using assms(1) by (intro owned_erase) (simp_all add: lru_wf_def)
  then show ?thesis
    using assms(2) False v by (auto simp: cleanCache_result Let_def split: if_splits)
qed

lemma owned_push_front: "lru_owned (push_front key value c) = add_mset value (lru_owned c)"
  by (simp add: lru_owned_def lru_values_def push_front_def)

lemma owned_ensure:
  assumes "lru_wf c" and "lru_abs c key = None" and "lru_ensure hc key value c = Inr c'"
  shows "lru_owned c' = add_mset value (lru_owned c)"
  using owned_cleanCache[of "push_front key value c" hc c'] push_front_wf[of c key "value"] assms
  by (simp add: lru_ensure_push owned_push_front)

lemma owned_insert:
  assumes "lru_wf c" and "lru_insert hc key value c = Inr c'"
  shows "lru_owned c' = add_mset value (lru_owned c)"
proof -
  have "lru_wf (changeKeys key 1 c)" and "lru_abs (changeKeys key 1 c) key = None"
    using changeKeys_wf[OF assms(1), of key 1] shift_up_inj changeKeys_up_abs[OF assms(1), of key]
    by (auto simp: open_gap_def)
  then show ?thesis
    using owned_ensure[of "changeKeys key 1 c" key hc "value" c'] assms(2)
    by (simp add: lru_insert_def owned_changeKeys)
qed

lemma owned_remove [owned_simps]:
  assumes "lru_wf c"
  shows "lru_owned (lru_remove key c) = lru_owned c"
proof (cases "map_of (cachedItemsMap c) key")
  case None
  then show ?thesis by (simp add: lru_remove_def owned_changeKeys)
next
  case (Some i)
  show ?thesis
  proof (cases "node_of c i")
    case None
    then show ?thesis using Some by (simp add: lru_remove_def owned_changeKeys)
  next
    case (Some x)
    obtain i' k v where x: "x = (i', k, v)" by (cases x)
    have "x \<in> set (cachedItems c)" "fst x = i"
      using node_of_mem[OF Some] by simp_all
    then have "lru_owned (erase_node i key v c) = lru_owned c"
      using assms x by (intro owned_erase) (auto simp: lru_wf_def)
    then show ?thesis using Some \<open>map_of (cachedItemsMap c) key = Some i\<close> x
      by (simp add: lru_remove_def owned_changeKeys)
  qed
qed

lemma owned_clear [owned_simps]: "lru_owned (lru_clear c) = lru_owned c"
  by (simp add: lru_owned_def lru_values_def lru_clear_def add.commute)

lemma lru_get_items:
  assumes "lru_wf c"
  shows "set (cachedItems (snd (lru_get key c))) = set (cachedItems c)"
proof (cases "map_of (cachedItemsMap c) key")
  case None
  then show ?thesis by (simp add: lru_get_def)
next
  case (Some i)
  note k = this
  show ?thesis
  proof (cases "node_of c i")
    case None
    then show ?thesis using Some by (simp add: lru_get_def)
  next
    case (Some x)
    obtain i' k v where x: "x = (i', k, v)" by (cases x)
    have m: "x \<in> set (cachedItems c)" "fst x = i"
      using node_of_mem[OF Some] by simp_all
    have inj: "inj_on fst (set (cachedItems c))"
      using assms unfolding lru_wf_def by (simp add: distinct_map)
    have uniq: "y = x" if "y \<in> set (cachedItems c)" "fst y = i" for y
      by (rule inj_onD[OF inj _ that(1) m(1)]) (simp only: that(2) m(2))
    have "snd (lru_get key c) = c\<lparr>cachedItems := x # filter (\<lambda>n. fst n \<noteq> i) (cachedItems c)\<rparr>"
      by (simp add: lru_get_def k Some) (simp add: x)
    then have *: "set (cachedItems (snd (lru_get key c))) = insert x {y \<in> set (cachedItems c). fst y \<noteq> i}" by simp
    show ?thesis unfolding * using m(1) uniq by blast
  qed
qed

lemma lru_get_values:
  assumes "lru_wf c"
  shows "mset (lru_values (snd (lru_get key c))) = mset (lru_values c)"
proof -
  have "distinct (cachedItems (snd (lru_get key c)))" "distinct (cachedItems c)"
    using assms lru_get_result[OF assms, of key] by (auto simp: lru_wf_def distinct_map)
  then have "mset (cachedItems (snd (lru_get key c))) = mset (cachedItems c)"
    using lru_get_items[OF assms] by (metis set_eq_iff_mset_eq_distinct)
  then show ?thesis unfolding lru_values_def by (metis mset_map)
qed

lemma lru_abs_value: "lru_wf c \<Longrightarrow> lru_abs c k = Some v \<Longrightarrow> v \<in> set (lru_values c)"
  by (auto simp: lru_abs_Some lru_values_def image_iff intro!: bexI)

lemma lru_value_abs: "lru_wf c \<Longrightarrow> v \<in> set (lru_values c) \<Longrightarrow> \<exists>k. lru_abs c k = Some v"
  by (auto simp: lru_abs_Some lru_values_def)

lemma lru_new_values [simp]: "lru_values (lru_new n) = []"
  by (simp add: lru_new_def lru_values_def)

end
