(* ===== verification/ModelHandlers.thy ===== *)
theory ModelHandlers
  imports ModelReplica
begin

text \<open>
  The handlers of \<open>QAbstractItemModelReplicaImplementation\<close>: what a model replica does when the
  source signals a change, when a reply to one of its requests arrives, and when it comes round to
  the requests it has queued for itself.
\<close>

datatype 'v model_reply =
    SizeReply qsize
  | CacheReply "'v meta_entries"
  | RowsReply "'v data_entries"
  | HeaderReply "'v list"

text \<open>A variant converted to a type it does not hold is a default-constructed value.\<close>

definition reply_size :: "'v model_reply \<Rightarrow> qsize" where
  "reply_size r = (case r of SizeReply s \<Rightarrow> s | _ \<Rightarrow> (-1, -1))"

definition reply_meta :: "'v model_reply \<Rightarrow> 'v meta_entries" where
  "reply_meta r = (case r of CacheReply m \<Rightarrow> m | _ \<Rightarrow> \<lparr>me_data = [], me_roles = [], me_size = (-1, -1)\<rparr>)"

definition reply_rows :: "'v model_reply \<Rightarrow> 'v data_entries" where
  "reply_rows r = (case r of RowsReply d \<Rightarrow> d | _ \<Rightarrow> [])"

definition reply_list :: "'v model_reply \<Rightarrow> 'v list" where
  "reply_list r = (case r of HeaderReply d \<Rightarrow> d | _ \<Rightarrow> [])"

definition add_request :: "watcher \<Rightarrow> 'v mreplica \<Rightarrow> nat \<times> 'v mreplica" where
  "add_request w st =
    (mr_watchers st,
     st\<lparr>pendingRequests := pendingRequests st @ [(mr_watchers st, w)], mr_watchers := Suc (mr_watchers st)\<rparr>)"

definition drop_request :: "nat \<Rightarrow> 'v mreplica \<Rightarrow> 'v mreplica" where
  "drop_request i st = st\<lparr>pendingRequests := filter (\<lambda>w. fst w \<noteq> i) (pendingRequests st)\<rparr>"

definition last_of :: "index_list \<Rightarrow> replica_fault + model_index" where
  "last_of l = (if l = [] then Inl EmptyList else Inr (last l))"

subsection \<open>Filling the cache\<close>

fun fill_values :: "int list \<Rightarrow> 'v list \<Rightarrow> (int \<rightharpoonup> 'v) \<Rightarrow> replica_fault + (int \<rightharpoonup> 'v)" where
  "fill_values roles [] d = Inr d"
| "fill_values (role # roles) (v # vs) d = fill_values roles vs (d(role \<mapsto> v))"
| "fill_values [] (v # vs) d = Inl BadRange"

definition fillCacheEntry ::
    "'v index_value_pair \<Rightarrow> int list \<Rightarrow> 'v cache_entry \<Rightarrow> replica_fault + 'v cache_entry" where
  "fillCacheEntry pair roles entry =
    bindE (fill_values roles (ivp_data pair) (ce_data entry)) (\<lambda>d.
      Inr (entry\<lparr>ce_flags := ivp_flags pair, ce_data := d\<rparr>))"

text \<open>
  \<open>fillRow\<close> overwrites the entry of the pair's column if the row has one, and otherwise appends an
  entry at the end of the row, whatever the column is.
\<close>

definition fillRow ::
    "nat \<Rightarrow> 'v index_value_pair \<Rightarrow> int list \<Rightarrow> 'v mreplica \<Rightarrow> replica_fault + 'v mreplica" where
  "fillRow item pair roles st =
    bindE (q_resolve (ivp_index pair) st) (\<lambda>(ix, st1).
    bindE (cd_at item st1) (\<lambda>cd0.
      let cd = (if qindex_column ix = 0 then cd0\<lparr>cd_hasChildren := ivp_hasChildren pair\<rparr> else cd0);
          rowRef = cachedRowEntry cd; c = nat (qindex_column ix)
      in bindE (if 0 \<le> qindex_column ix \<and> c < length rowRef
                then bindE (fillCacheEntry pair roles (rowRef ! c)) (\<lambda>e. Inr (rowRef[c := e]))
                else bindE (fillCacheEntry pair roles new_entry) (\<lambda>e. Inr (rowRef @ [e])))
           (\<lambda>row. Inr (cd_put item (cd\<lparr>cachedRowEntry := row\<rparr>) st1))))"

fun collectEntriesForRow ::
    "'v data_entries \<Rightarrow> int \<Rightarrow> 'v data_entries \<Rightarrow> 'v data_entries \<times> 'v data_entries" where
  "collectEntriesForRow filtered row [] = (filtered, [])"
| "collectEntriesForRow filtered row (pair # entries) =
    (if mi_row (last (ivp_index pair)) = row
     then collectEntriesForRow (filtered @ [pair]) row entries else (filtered, pair # entries))"

lemma pair_list_size: "size_list size ch < size (IndexValuePair l d h f ch sz)"
  by simp

function fillCache ::
    "int list \<Rightarrow> 'v index_value_pair \<Rightarrow> 'v mreplica \<Rightarrow> replica_fault + 'v mreplica" and
  fillCaches :: "int list \<Rightarrow> 'v data_entries \<Rightarrow> 'v mreplica \<Rightarrow> replica_fault + 'v mreplica" where
  "fillCache roles (IndexValuePair l d h f ch sz) st =
    (let pair = IndexValuePair l d h f ch sz
     in bindE (createCacheData l st) (\<lambda>(item, st1).
        bindE (case item of
                 None \<Rightarrow> Inr st1
               | Some a \<Rightarrow>
                  bindE (fillRow a pair roles st1)
                    (cd_update a (\<lambda>c. c\<lparr>rowCount := snd sz, columnCount := fst sz\<rparr>)))
          (fillCaches roles ch)))"
| "fillCaches roles [] st = Inr st"
| "fillCaches roles (pair # pairs) st = bindE (fillCache roles pair st) (fillCaches roles pairs)"
  by pat_completeness auto
termination
  by (relation "measure (\<lambda>x. case x of Inl (roles, p, st) \<Rightarrow> 2 * size p
       | Inr (roles, ps, st) \<Rightarrow> Suc (2 * size_list size ps))") auto

subsection \<open>Resets and sizes\<close>

text \<open>\<open>qDeleteAll\<close> of the pending requests, and a new one.\<close>

definition doModelReset :: "'v mreplica \<Rightarrow> replica_fault + nat \<times> 'v mreplica" where
  "doModelReset st =
    (let st0 = st\<lparr>pendingRequests := []\<rparr>
     in if initialAction st = FetchRootSize
        then Inr (add_request (SizeWatcher []) (mr_emit (CallSize []) st0))
        else bindE (rootCacheSize st0) (\<lambda>n.
               Inr (add_request CacheWatcher (mr_emit (CallCache n (fetchRolesHint st0)) st0))))"

definition resize_header :: "int \<Rightarrow> 'v cache_entry list \<Rightarrow> replica_fault + 'v cache_entry list" where
  "resize_header n l =
    (if n < 0 then Inl BadRange
     else Inr (map (\<lambda>e. e\<lparr>ce_data := Map.empty\<rparr>)
            (take (nat n) l @ replicate (nat n - length l) new_entry)))"

definition reset_root :: "qsize \<Rightarrow> 'v mreplica \<Rightarrow> replica_fault + 'v mreplica" where
  "reset_root sz st =
    bindE (cd_clear 0 st) (cd_update 0 (\<lambda>c.
      let c1 = (if snd sz > 0 then c\<lparr>rowCount := snd sz, cd_hasChildren := True\<rparr> else c)
      in c1\<lparr>columnCount := fst sz\<rparr>))"

definition handleModelResetDone :: "nat \<Rightarrow> 'v model_reply \<Rightarrow> 'v mreplica \<Rightarrow> replica_fault + 'v mreplica" where
  "handleModelResetDone w reply st =
    (let sz = (if initialAction st = FetchRootSize then reply_size reply else me_size (reply_meta reply))
     in bindE (reset_root sz (mr_emit BeginResetModel st)) (\<lambda>st1.
        bindE (resize_header (fst sz) (headerH st1)) (\<lambda>h.
        bindE (resize_header (snd sz) (headerV st1)) (\<lambda>v.
        bindE (let st2 = st1\<lparr>headerH := h, headerV := v\<rparr>
               in if initialAction st = PrefetchData
                  then fillCaches (me_roles (reply_meta reply)) (me_data (reply_meta reply)) st2
                  else Inr st2)
          (\<lambda>st3. Inr (drop_request w (mr_emit EndResetModel st3)))))))"

definition handleInitDone :: "nat \<Rightarrow> 'v model_reply \<Rightarrow> 'v mreplica \<Rightarrow> replica_fault + 'v mreplica" where
  "handleInitDone w reply st =
    bindE (handleModelResetDone w reply st) (\<lambda>st1. Inr (mr_emit SigInitialized (st1\<lparr>initDone := True\<rparr>)))"

definition model_init :: "'v mreplica \<Rightarrow> replica_fault + nat \<times> 'v mreplica" where
  "model_init st = doModelReset st"

text \<open>The source's roles have changed: the copy of them is dropped and made again when it is next needed.\<close>

definition onAvailableRolesChanged :: "'v mreplica \<Rightarrow> 'v mreplica" where
  "onAvailableRolesChanged st = st\<lparr>knownRoles := []\<rparr>"

definition onModelReset :: "'v mreplica \<Rightarrow> replica_fault + 'v mreplica" where
  "onModelReset st =
    (if \<not> initDone st then Inr st else bindE (doModelReset st) (\<lambda>(w, st1). Inr st1))"

definition grow_columns :: "qindex \<Rightarrow> nat \<Rightarrow> int \<Rightarrow> 'v mreplica \<Rightarrow> replica_fault + 'v mreplica" where
  "grow_columns parent a width st =
    bindE (cd_at a st) (\<lambda>cd.
      if width \<noteq> columnCount cd
      then let old = max 0 (columnCount cd)
           in bindE (cd_update a (\<lambda>c. c\<lparr>columnCount := width\<rparr>) st) (\<lambda>s.
                Inr (if width > old
                     then mr_emit EndInsertColumns (mr_emit (BeginInsertColumns parent old (width - 1)) s)
                     else s))
      else Inr st)"

definition grow_rows :: "qindex \<Rightarrow> nat \<Rightarrow> int \<Rightarrow> 'v mreplica \<Rightarrow> replica_fault + 'v mreplica" where
  "grow_rows parent a height st =
    bindE (cd_at a st) (\<lambda>cd.
      if rowCount cd = 0 \<and> height > 0
      then bindE (cd_update a (\<lambda>c. c\<lparr>rowCount := height\<rparr>) (mr_emit (BeginInsertRows parent 0 (height - 1)) st))
             (\<lambda>s. Inr (mr_emit EndInsertRows s))
      else Inr st)"

definition handleSizeDone ::
    "nat \<Rightarrow> index_list \<Rightarrow> 'v model_reply \<Rightarrow> 'v mreplica \<Rightarrow> replica_fault + 'v mreplica" where
  "handleSizeDone w parentList reply st =
    (let sz = reply_size reply
     in bindE (q_resolve parentList st) (\<lambda>(ix, st0).
        bindE (cacheData ix st0) (\<lambda>(d, st1).
        bindE (q_resolve parentList st1) (\<lambda>(parent, st2).
          case d of
            None \<Rightarrow> Inl NullItem
          | Some a \<Rightarrow>
             bindE (grow_columns parent a (fst sz) st2) (\<lambda>st3.
             bindE (grow_rows parent a (snd sz) st3) (\<lambda>st4. Inr (drop_request w st4)))))))"

subsection \<open>Signals of the source\<close>

fun clear_row :: "int list \<Rightarrow> int list \<Rightarrow> 'v cache_entry list \<Rightarrow> 'v cache_entry list" where
  "clear_row roles [] row = row"
| "clear_row roles (column # columns) row =
    clear_row roles columns
      (if 0 \<le> column \<and> nat column < length row
       then row[nat column := (row ! nat column)
              \<lparr>ce_data := (if roles = [] then Map.empty
                           else (\<lambda>r. if r \<in> set roles then None else ce_data (row ! nat column) r))\<rparr>]
       else row)"

text \<open>
  \<open>removeIndexFromRow\<close> receives \<open>q->index(row, column, parentIndex)\<close>; an invalid index has column
  -1, which passes its bound check and is then used as a list index.
\<close>

definition removeIndexFromRow ::
    "qindex \<Rightarrow> int list \<Rightarrow> 'v cache_entry list \<Rightarrow> replica_fault + 'v cache_entry list" where
  "removeIndexFromRow ix roles row =
    (if qindex_column ix < int (length row)
     then if qindex_column ix < 0 then Inl BadRange else Inr (clear_row roles [qindex_column ix] row)
     else Inr row)"

definition clear_cell ::
    "nat \<Rightarrow> qindex \<Rightarrow> int list \<Rightarrow> int \<Rightarrow> int \<Rightarrow> 'v mreplica \<Rightarrow> replica_fault + 'v mreplica" where
  "clear_cell a parentIndex roles row column st =
    bindE (q_index row column parentIndex st) (\<lambda>(ix, st1).
    bindE (cd_at a st1) (\<lambda>cd.
    bindE (removeIndexFromRow ix roles (cachedRowEntry cd)) (\<lambda>row'.
      Inr (cd_put a (cd\<lparr>cachedRowEntry := row'\<rparr>) st1))))"

definition clearCache ::
    "index_list \<Rightarrow> index_list \<Rightarrow> int list \<Rightarrow> 'v mreplica \<Rightarrow> replica_fault + bool \<times> 'v mreplica" where
  "clearCache start end1 roles st =
    bindE (q_walk False start NoIndex st) (\<lambda>((startIndex, ok1), st1).
      if \<not> ok1 then Inr (False, st1)
      else bindE (q_walk False end1 NoIndex st1) (\<lambda>((endIndex, ok2), st2).
        if \<not> ok2 then Inr (False, st2)
        else bindE (q_parent startIndex st2) (\<lambda>parentIndex.
          bindE (cacheData parentIndex st2) (\<lambda>(d, st3).
          bindE (last_of start) (\<lambda>s.
          bindE (last_of end1) (\<lambda>e.
          bindE (foldE (\<lambda>row s'.
              case d of
                None \<Rightarrow> Inl NullItem
              | Some p \<Rightarrow>
                 bindE (cd_at p s') (\<lambda>pcd.
                   let (v, ch) = lru_get row (children pcd); s1 = cd_put p (pcd\<lparr>children := ch\<rparr>) s'
                   in case v of
                        None \<Rightarrow> Inr s1
                      | Some a \<Rightarrow> foldE (clear_cell a parentIndex roles row) [mi_column s..mi_column e] s1))
            [mi_row s..mi_row e] st3)
          (\<lambda>st4. Inr (True, st4))))))))"

text \<open>
  \<open>onDataChanged\<close> asks again for every run of rows that are in the cache.
\<close>

fun cached_runs :: "(int \<Rightarrow> bool) \<Rightarrow> int list \<Rightarrow> (int \<times> int) list" where
  "cached_runs cached [] = []"
| "cached_runs cached (r # rs) =
    (if cached r
     then (case cached_runs cached rs of
             (r1, r2) # runs \<Rightarrow> if r1 = r + 1 then (r, r2) # runs else (r, r) # (r1, r2) # runs
           | [] \<Rightarrow> [(r, r)])
     else cached_runs cached rs)"

definition with_last_row :: "int \<Rightarrow> index_list \<Rightarrow> index_list" where
  "with_last_row r l = butlast l @ [(last l)\<lparr>mi_row := r\<rparr>]"

definition onDataChanged ::
    "index_list \<Rightarrow> index_list \<Rightarrow> int list \<Rightarrow> 'v mreplica \<Rightarrow> replica_fault + 'v mreplica" where
  "onDataChanged start end1 roles st =
    bindE (clearCache start end1 roles st) (\<lambda>(cleared, st1).
      if \<not> cleared then Inr st1
      else bindE (q_walk False start NoIndex st1) (\<lambda>((startIndex, ok1), st2).
        if \<not> ok1 then Inr st2
        else bindE (q_walk False end1 NoIndex st2) (\<lambda>((endIndex, ok2), st3).
          if \<not> ok2 then Inr st3
          else bindE (q_parent startIndex st3) (\<lambda>parentIndex.
            bindE (cacheData parentIndex st3) (\<lambda>(d, st4).
            bindE (last_of start) (\<lambda>s.
            bindE (last_of end1) (\<lambda>e.
              if mi_row s > mi_row e then Inr st4
              else case d of
                None \<Rightarrow> Inl NullItem
              | Some p \<Rightarrow>
                 bindE (cd_at p st4) (\<lambda>pcd.
                   let runs = cached_runs (\<lambda>r. lru_exists r (children pcd)) [mi_row s..mi_row e];
                       reqs = map (\<lambda>(r1, r2). \<lparr>rd_start = with_last_row r1 start, rd_end = with_last_row r2 end1,
                                    rd_roles = roles\<rparr>) runs;
                       st5 = st4\<lparr>requestedData := requestedData st4 @ reqs\<rparr>
                   in Inr (if runs = [] then st5 else mr_emit QueueFetchPendingData st5)))))))))"

definition onRowsInserted :: "index_list \<Rightarrow> int \<Rightarrow> int \<Rightarrow> 'v mreplica \<Rightarrow> replica_fault + 'v mreplica" where
  "onRowsInserted parent start end1 st =
    bindE (q_walk True parent NoIndex st) (\<lambda>((parentIndex, ok), st1).
      if \<not> ok then Inr st1
      else bindE (cacheData parentIndex st1) (\<lambda>(d, st2).
        case d of
          None \<Rightarrow> Inl NullItem
        | Some a \<Rightarrow>
           bindE (insertChildren a start end1 (mr_emit (BeginInsertRows parentIndex start end1) st2)) (\<lambda>st3.
             let st4 = mr_emit EndInsertRows
                   (st3\<lparr>headerV := headerV st3 @ replicate (nat (end1 - start + 1)) new_entry\<rparr>)
             in bindE (cd_at a st4) (\<lambda>cd.
                  if \<not> cd_hasChildren cd \<and> columnCount cd > 0
                  then bindE (cd_update a (\<lambda>c. c\<lparr>cd_hasChildren := True\<rparr>) st4) (\<lambda>st5.
                         Inr (mr_emit (SigDataChanged parentIndex parentIndex []) st5))
                  else Inr st4))))"

definition onColumnsInserted :: "index_list \<Rightarrow> int \<Rightarrow> int \<Rightarrow> 'v mreplica \<Rightarrow> replica_fault + 'v mreplica" where
  "onColumnsInserted parent start end1 st =
    bindE (q_walk False parent NoIndex st) (\<lambda>((parentIndex, ok), st1).
      if \<not> ok then Inr st1
      else bindE (cacheData parentIndex st1) (\<lambda>(d, st2).
        case d of
          None \<Rightarrow> Inl NullItem
        | Some a \<Rightarrow>
           bindE (cd_at a st2) (\<lambda>cd.
           bindE (case cd_parent cd of
                    Some p \<Rightarrow> if a \<noteq> 0 then bindE (cd_at p st2) (\<lambda>pcd. Inr (columnCount pcd = columnCount cd))
                              else Inr False
                  | None \<Rightarrow> Inr False) (\<lambda>same.
             if same then Inr st2
             else bindE (cd_update a (\<lambda>c. c\<lparr>columnCount := columnCount c + (end1 - start + 1)\<rparr>)
                      (mr_emit (BeginInsertColumns parentIndex start end1) st2)) (\<lambda>st3.
                    let st4 = mr_emit EndInsertColumns
                          (st3\<lparr>headerH := headerH st3 @ replicate (nat (end1 - start + 1)) new_entry\<rparr>)
                    in if \<not> cd_hasChildren cd \<and> lru_size (children cd) > 0
                       then bindE (cd_update a (\<lambda>c. c\<lparr>cd_hasChildren := True\<rparr>) st4) (\<lambda>st5.
                              Inr (mr_emit (SigDataChanged parentIndex parentIndex []) st5))
                       else Inr st4)))))"

definition erase_range :: "int \<Rightarrow> int \<Rightarrow> 'a list \<Rightarrow> replica_fault + 'a list" where
  "erase_range start end1 l =
    (if 0 \<le> start \<and> start \<le> end1 + 1 \<and> end1 + 1 \<le> int (length l)
     then Inr (take (nat start) l @ drop (nat (end1 + 1)) l) else Inl BadRange)"

definition onRowsRemoved :: "index_list \<Rightarrow> int \<Rightarrow> int \<Rightarrow> 'v mreplica \<Rightarrow> replica_fault + 'v mreplica" where
  "onRowsRemoved parent start end1 st =
    bindE (q_walk False parent NoIndex st) (\<lambda>((parentIndex, ok), st1).
      if \<not> ok then Inr st1
      else bindE (cacheData parentIndex st1) (\<lambda>(d, st2).
        let st3 = mr_emit (BeginRemoveRows parentIndex start end1) st2
        in bindE (case d of None \<Rightarrow> Inr st3 | Some a \<Rightarrow> removeChildren a start end1 st3) (\<lambda>st4.
           bindE (erase_range start end1 (headerV st4)) (\<lambda>v.
             Inr (mr_emit EndRemoveRows (st4\<lparr>headerV := v\<rparr>))))))"

definition onRowsMoved ::
    "index_list \<Rightarrow> int \<Rightarrow> int \<Rightarrow> index_list \<Rightarrow> int \<Rightarrow> 'v mreplica \<Rightarrow> replica_fault + 'v mreplica" where
  "onRowsMoved srcParent srcRow count destParent destRow st =
    bindE (q_resolve srcParent st) (\<lambda>(sourceParent, st1).
    bindE (q_resolve destParent st1) (\<lambda>(destinationParent, st2).
    bindE (q_columnCount sourceParent
        (mr_emit (BeginMoveRows sourceParent srcRow count destinationParent destRow) st2)) (\<lambda>(cc1, st3).
    bindE (clearCache [ModelIndex srcRow 0] [ModelIndex (srcRow + count) (cc1 - 1)] [] st3) (\<lambda>(b1, st4).
    bindE (q_columnCount destinationParent st4) (\<lambda>(cc2, st5).
    bindE (clearCache [ModelIndex destRow 0] [ModelIndex (destRow + count) (cc2 - 1)] [] st5) (\<lambda>(b2, st6).
      Inr (mr_emit EndMoveRows st6)))))))"

definition onCurrentChanged :: "index_list \<Rightarrow> 'v mreplica \<Rightarrow> replica_fault + 'v mreplica" where
  "onCurrentChanged current st =
    bindE (q_walk False current NoIndex st) (\<lambda>((ix, ok), st1).
      Inr (if ok then mr_emit (SelectCurrent ix) st1 else st1))"

definition onReplicaCurrentChanged :: "qindex \<Rightarrow> 'v mreplica \<Rightarrow> replica_fault + 'v mreplica" where
  "onReplicaCurrentChanged current st =
    bindE (q_path current st) (\<lambda>l. Inr (mr_emit (CallSetCurrent l) st))"

definition onHeaderDataChanged :: "orientation \<Rightarrow> int \<Rightarrow> int \<Rightarrow> 'v mreplica \<Rightarrow> replica_fault + 'v mreplica" where
  "onHeaderDataChanged orient first last1 st =
    (if first < 0 \<and> first \<le> last1 then Inl BadRange
     else Inr (mr_emit (SigHeaderDataChanged orient first last1)
       (set_header orient
         (map (\<lambda>(i, e). if first \<le> int i \<and> int i \<le> last1 then e\<lparr>ce_data := Map.empty\<rparr> else e)
           (enumerate 0 (header_of orient st))) st)))"

text \<open>
  \<open>onLayoutChanged\<close> takes every position of the list for a row of the root; the rest of the work is
  done when the reply arrives.
\<close>

fun resolve_each :: "index_list \<Rightarrow> 'v mreplica \<Rightarrow> replica_fault + qindex list \<times> 'v mreplica" where
  "resolve_each [] st = Inr ([], st)"
| "resolve_each (p # ps) st =
    bindE (q_resolve [p] st) (\<lambda>(ix, st1).
    bindE (resolve_each ps st1) (\<lambda>(ixs, st2). Inr (ix # ixs, st2)))"

definition onLayoutChanged :: "index_list \<Rightarrow> int \<Rightarrow> 'v mreplica \<Rightarrow> replica_fault + 'v mreplica" where
  "onLayoutChanged parents hint st =
    bindE (resolve_each parents st) (\<lambda>(indexes, st1).
    bindE (rootCacheSize st1) (\<lambda>n.
      Inr (snd (add_request (LayoutWatcher indexes hint) (mr_emit (CallCache n (fetchRolesHint st1)) st1)))))"

definition layout_done ::
    "nat \<Rightarrow> qindex list \<Rightarrow> int \<Rightarrow> 'v model_reply \<Rightarrow> 'v mreplica \<Rightarrow> replica_fault + 'v mreplica" where
  "layout_done w indexes hint reply st =
    bindE (reset_root (me_size (reply_meta reply)) (mr_emit (SigLayoutAboutToBeChanged indexes hint) st)) (\<lambda>st1.
    bindE (if initialAction st = PrefetchData
           then fillCaches (me_roles (reply_meta reply)) (me_data (reply_meta reply)) st1 else Inr st1)
      (\<lambda>st2. Inr (mr_emit (SigLayoutChanged indexes hint) (drop_request w st2))))"

subsection \<open>Queued requests\<close>

definition rects_intersect :: "int \<times> int \<Rightarrow> int \<times> int \<Rightarrow> int \<times> int \<Rightarrow> int \<times> int \<Rightarrow> bool" where
  "rects_intersect s1 e1 s2 e2 \<longleftrightarrow>
    max (fst s1) (fst s2) \<le> min (fst e1) (fst e2) \<and> max (snd s1) (snd s2) \<le> min (snd e1) (snd e2)"

definition mi_pair :: "model_index \<Rightarrow> int \<times> int" where
  "mi_pair i = (mi_row i, mi_column i)"

fun merge_roles :: "int list \<Rightarrow> int list \<Rightarrow> int list \<Rightarrow> int list" where
  "merge_roles cur [] roles = roles"
| "merge_roles cur (role # rest) roles =
    merge_roles cur rest (if role \<notin> set cur then roles @ [role] else roles)"

text \<open>
  One turn of the loop of \<open>fetchPendingData\<close>: the requests already final, the one being grown, and
  the next one. Requests below different parents are not merged; the loop over the parents pushes
  the current request at the first difference and goes on with the next one, which equals itself.
\<close>

definition grow_request :: "requested_data \<Rightarrow> requested_data \<Rightarrow> requested_data list \<times> requested_data option" where
  "grow_request cur data =
    (let cs = last (rd_start cur); ce = last (rd_end cur); ds = last (rd_start data); de = last (rd_end data);
         resStart = ModelIndex (min (mi_row cs) (mi_row ds)) (min (mi_column cs) (mi_column ds));
         resEnd = ModelIndex (max (mi_row ce) (mi_row de)) (max (mi_column ce) (mi_column de));
         roles = (if rd_roles cur \<noteq> [] then merge_roles (rd_roles cur) (rd_roles data) (rd_roles cur) else rd_roles cur);
         borders = (\<bar>mi_row cs - mi_row ds\<bar> = 1 \<or> \<bar>mi_column cs - mi_column ds\<bar> = 1 \<or>
                    \<bar>mi_row ce - mi_row de\<bar> = 1 \<or> \<bar>mi_column ce - mi_column de\<bar> = 1)
     in if mi_row resEnd - mi_row resStart < 100 \<and>
           (rects_intersect (mi_pair cs) (mi_pair ce) (mi_pair ds) (mi_pair de) \<or> borders)
        then ([], Some \<lparr>rd_start = butlast (rd_start cur) @ [resStart], rd_end = butlast (rd_end cur) @ [resEnd],
                     rd_roles = roles\<rparr>)
        else ([cur], None))"

definition same_parents :: "requested_data \<Rightarrow> requested_data \<Rightarrow> bool" where
  "same_parents cur data \<longleftrightarrow> butlast (rd_start cur) = butlast (rd_start data)"

definition fetch_step ::
    "requested_data list \<times> requested_data option \<Rightarrow> requested_data \<Rightarrow>
     requested_data list \<times> requested_data option" where
  "fetch_step acc data =
    (let (final, cur0) = acc;
         cur = (case cur0 of None \<Rightarrow> data
                | Some c \<Rightarrow> if mi_row (last (rd_start c)) = -1 \<or> mi_column (last (rd_start c)) = -1 then data else c)
     in if length (rd_start cur) \<noteq> length (rd_start data) then (final @ [cur], Some data)
        else let (final1, cur1) = (if same_parents cur data then (final, cur) else (final @ [cur], data))
             in case grow_request cur1 data of
                  (pushed, Some c) \<Rightarrow> (final1 @ pushed, Some c)
                | (pushed, None) \<Rightarrow> (final1 @ pushed, Some data))"

definition merge_requests :: "requested_data list \<Rightarrow> requested_data list" where
  "merge_requests ds =
    (let (final, cur) = fold (\<lambda>d acc. fetch_step acc d) ds ([], None)
     in final @ (case cur of None \<Rightarrow> [] | Some c \<Rightarrow> [c]))"

text \<open>
  The final requests are sent newest first, as long as the rows asked for so far are fewer than
  the cache holds.
\<close>

fun send_requests :: "nat \<Rightarrow> int \<Rightarrow> requested_data list \<Rightarrow> 'v mreplica \<Rightarrow> 'v mreplica" where
  "send_requests limit rows [] st = st"
| "send_requests limit rows (d # ds) st =
    (if 0 \<le> rows \<and> rows < int limit
     then send_requests limit (rows + 1 + mi_row (hd (rd_end d)) - mi_row (hd (rd_start d))) ds
            (snd (add_request (RowWatcher (rd_start d) (rd_end d) (rd_roles d))
                    (mr_emit (CallRows (rd_start d) (rd_end d) (rd_roles d)) st)))
     else st)"

definition well_formed_request :: "requested_data \<Rightarrow> bool" where
  "well_formed_request d \<longleftrightarrow> rd_start d \<noteq> [] \<and> rd_end d \<noteq> []"

definition fetchPendingData :: "'v mreplica \<Rightarrow> replica_fault + 'v mreplica" where
  "fetchPendingData st =
    (if requestedData st = [] then Inr st
     else if \<not> list_all well_formed_request (requestedData st) then Inl EmptyList
     else bindE (rootCacheSize st) (\<lambda>limit.
            Inr (send_requests limit 0 (rev (merge_requests (requestedData st))) (st\<lparr>requestedData := []\<rparr>))))"

definition fill_rows :: "int list \<Rightarrow> 'v data_entries \<Rightarrow> 'v mreplica \<Rightarrow> replica_fault + 'v mreplica" where
  "fill_rows roles entries st =
    foldE (\<lambda>pair s.
      bindE (createCacheData (ivp_index pair) s) (\<lambda>(item, s1).
        case item of None \<Rightarrow> Inr s1 | Some a \<Rightarrow> fillRow a pair roles s1)) entries st"

text \<open>\<open>requestedData\<close> is the handler of a row reply. On an empty parent it returns without removing the watcher.\<close>

definition rows_done ::
    "nat \<Rightarrow> index_list \<Rightarrow> index_list \<Rightarrow> int list \<Rightarrow> 'v model_reply \<Rightarrow> 'v mreplica \<Rightarrow> replica_fault + 'v mreplica" where
  "rows_done w start end1 roles reply st =
    bindE (last_of start) (\<lambda>s. bindE (last_of end1) (\<lambda>e.
    bindE (q_resolve (butlast start) st) (\<lambda>(ix, st0).
    bindE (cacheData ix st0) (\<lambda>(d, st1).
      case d of
        None \<Rightarrow> Inl NullItem
      | Some p \<Rightarrow>
         bindE (cd_at p st1) (\<lambda>pcd.
           if rowCount pcd < 1 \<or> columnCount pcd < 1 then Inr st1
           else let startRow = min (mi_row s) (rowCount pcd - 1); endRow = min (mi_row e) (rowCount pcd - 1);
                    startColumn = min (mi_column s) (columnCount pcd - 1);
                    endColumn = min (mi_column e) (columnCount pcd - 1)
                in bindE (fill_rows roles (reply_rows reply) st1) (\<lambda>st2.
                   bindE (q_resolve (butlast start) st2) (\<lambda>(parentIndex, st3).
                   bindE (q_index startRow startColumn parentIndex st3) (\<lambda>(startIndex, st4).
                   bindE (q_index endRow endColumn parentIndex st4) (\<lambda>(endIndex, st5).
                     Inr (drop_request w (mr_emit (SigDataChanged startIndex endIndex roles) st5)))))))))))"

definition fetchPendingHeaderData :: "'v mreplica \<Rightarrow> 'v mreplica" where
  "fetchPendingHeaderData st =
    (let rs = requestedHeaderData st;
         os = map rh_orientation rs; ss = map rh_section rs; roles = map rh_role rs
     in snd (add_request (HeaderWatcher os ss roles)
          (mr_emit (CallHeader os ss roles) (st\<lparr>requestedHeaderData := []\<rparr>))))"

fun list_ranges_from :: "int \<times> int \<Rightarrow> int list \<Rightarrow> (int \<times> int) list" where
  "list_ranges_from cur [] = [cur]"
| "list_ranges_from cur (x # xs) =
    (if fst cur = x + 1 then list_ranges_from (x, snd cur) xs
     else if snd cur = x - 1 then list_ranges_from (fst cur, x) xs
     else if fst cur \<le> x \<and> snd cur \<ge> x then list_ranges_from cur xs
     else cur # list_ranges_from (x, x) xs)"

definition listRanges :: "int list \<Rightarrow> (int \<times> int) list" where
  "listRanges l = (case l of [] \<Rightarrow> [] | x # xs \<Rightarrow> list_ranges_from (x, x) xs)"

definition store_header :: "orientation \<Rightarrow> int \<Rightarrow> int \<Rightarrow> 'v \<Rightarrow> 'v mreplica \<Rightarrow> replica_fault + 'v mreplica" where
  "store_header orient section role v st =
    (let l = header_of orient st
     in if 0 \<le> section \<and> section < int (length l)
        then Inr (set_header orient
               (l[nat section := (l ! nat section)\<lparr>ce_data := (ce_data (l ! nat section))(role \<mapsto> v)\<rparr>]) st)
        else Inl BadRange)"

fun store_headers ::
    "orientation list \<Rightarrow> int list \<Rightarrow> int list \<Rightarrow> 'v list \<Rightarrow> 'v mreplica \<Rightarrow> replica_fault + 'v mreplica" where
  "store_headers os ss rs [] st = Inr st"
| "store_headers (orient # os) (s # ss) (r # rs) (v # vs) st =
    bindE (store_header orient s r v st) (store_headers os ss rs vs)"
| "store_headers os ss rs (v # vs) st = Inl BadRange"

definition sections_of :: "orientation \<Rightarrow> orientation list \<Rightarrow> int list \<Rightarrow> int list" where
  "sections_of orient os ss = map snd (filter (\<lambda>(o1, s). o1 = orient) (zip os ss))"

definition header_done ::
    "nat \<Rightarrow> orientation list \<Rightarrow> int list \<Rightarrow> int list \<Rightarrow> 'v model_reply \<Rightarrow> 'v mreplica \<Rightarrow> replica_fault + 'v mreplica" where
  "header_done w os ss rs reply st =
    bindE (store_headers os ss rs (reply_list reply) st) (\<lambda>st1.
      let n = length (reply_list reply);
          hor = listRanges (sections_of Horizontal (take n os) (take n ss));
          ver = listRanges (sections_of Vertical (take n os) (take n ss));
          st2 = fold (\<lambda>(a, b). mr_emit (SigHeaderDataChanged Horizontal a b)) hor st1;
          st3 = fold (\<lambda>(a, b). mr_emit (SigHeaderDataChanged Vertical a b)) ver st2
      in Inr (drop_request w st3))"

subsection \<open>Making and destroying a replica\<close>

definition new_mreplica :: "initial_action \<Rightarrow> int list \<Rightarrow> nat \<Rightarrow> int list \<Rightarrow> 'v mreplica" where
  "new_mreplica action rolesHint envSize roles =
    \<lparr>mr_heap = [(0, new_cache_data envSize None)], mr_next = 1, activeParents = {},
     headerH = [], headerV = [], requestedData = [], requestedHeaderData = [], pendingRequests = [],
     mr_watchers = 0, initDone = False, initialized = False, initialAction = action,
     fetchRolesHint = rolesHint, knownRoles = [], propRoles = roles, envCacheSize = envSize, mr_events = []\<rparr>"

text \<open>The destructor clears the root, which destroys every row, and deletes the pending requests.\<close>

definition destroy_mreplica :: "'v mreplica \<Rightarrow> replica_fault + 'v mreplica" where
  "destroy_mreplica st = bindE (cd_clear 0 st) (\<lambda>st1. Inr (st1\<lparr>pendingRequests := []\<rparr>))"

end
