(* ===== verification/TreeHeap.thy ===== *)
theory TreeHeap
  imports CacheOwned ModelHandlers
begin

text \<open>
  The heap of a model replica is a tree of rows: every object but the root is held by the cache of
  exactly the object its parent pointer names, addresses grow downwards, and the active parents
  are live objects. The invariant carries a list of detached objects, which nothing holds any
  more: it is empty between operations, and holds what is about to be linked or destroyed during
  one.
\<close>

abbreviation hp :: "'v mreplica \<Rightarrow> nat \<rightharpoonup> 'v cache_data" where
  "hp st \<equiv> map_of (mr_heap st)"

abbreviation kids :: "'v cache_data \<Rightarrow> nat list" where
  "kids cd \<equiv> lru_values (children cd)"

definition node_ok :: "(nat \<rightharpoonup> 'v cache_data) \<Rightarrow> nat \<Rightarrow> 'v cache_data \<Rightarrow> bool" where
  "node_ok H a cd \<longleftrightarrow>
    lru_wf (children cd) \<and> deleted (children cd) = [] \<and> lru_size (children cd) \<le> cacheSize (children cd) \<and>
    distinct (kids cd) \<and> (\<forall>n \<in> set (kids cd). a < n \<and> (\<exists>c. H n = Some c \<and> cd_parent c = Some a))"

definition detached :: "(nat \<rightharpoonup> 'v cache_data) \<Rightarrow> nat \<Rightarrow> bool" where
  "detached H t \<longleftrightarrow> t \<noteq> 0 \<and> H t \<noteq> None \<and> (\<forall>b cd. H b = Some cd \<longrightarrow> t \<notin> set (kids cd))"

definition held :: "(nat \<rightharpoonup> 'v cache_data) \<Rightarrow> nat \<Rightarrow> nat \<Rightarrow> bool" where
  "held H p a \<longleftrightarrow> (\<exists>pcd. H p = Some pcd \<and> a \<in> set (kids pcd))"

definition heap_ok :: "(nat \<rightharpoonup> 'v cache_data) \<Rightarrow> nat \<Rightarrow> nat set \<Rightarrow> nat list \<Rightarrow> bool" where
  "heap_ok H nx act todo \<longleftrightarrow>
    (\<forall>a. H a \<noteq> None \<longrightarrow> a < nx) \<and>
    (\<exists>cd. H 0 = Some cd \<and> cd_parent cd = None) \<and>
    (\<forall>a cd. H a = Some cd \<longrightarrow> node_ok H a cd) \<and>
    (\<forall>a cd. H a = Some cd \<longrightarrow> a \<noteq> 0 \<longrightarrow>
       (\<exists>p. cd_parent cd = Some p \<and> p < a \<and> (a \<notin> set todo \<longrightarrow> held H p a))) \<and>
    distinct todo \<and> (\<forall>t \<in> set todo. detached H t) \<and> (\<forall>a \<in> act. H a \<noteq> None) \<and>
    (\<forall>a cd. H a = Some cd \<longrightarrow> kids cd \<noteq> [] \<longrightarrow> a \<in> act)"

definition tree_inv :: "nat list \<Rightarrow> 'v mreplica \<Rightarrow> bool" where
  "tree_inv todo st \<longleftrightarrow> distinct (map fst (mr_heap st)) \<and> heap_ok (hp st) (mr_next st) (activeParents st) todo"

lemma heap_okD:
  assumes "heap_ok H nx act todo"
  shows "H a \<noteq> None \<Longrightarrow> a < nx"
    and "\<exists>cd. H 0 = Some cd \<and> cd_parent cd = None"
    and "H a = Some cd \<Longrightarrow> node_ok H a cd"
    and "H a = Some cd \<Longrightarrow> a \<noteq> 0 \<Longrightarrow> \<exists>p. cd_parent cd = Some p \<and> p < a \<and> (a \<notin> set todo \<longrightarrow> held H p a)"
    and "distinct todo"
    and "t \<in> set todo \<Longrightarrow> detached H t"
    and "a \<in> act \<Longrightarrow> H a \<noteq> None"
    and "H a = Some cd \<Longrightarrow> kids cd \<noteq> [] \<Longrightarrow> a \<in> act"
  using assms unfolding heap_ok_def by blast+

lemma heap_okI:
  assumes "\<And>a. H a \<noteq> None \<Longrightarrow> a < nx"
    and "\<exists>cd. H 0 = Some cd \<and> cd_parent cd = None"
    and "\<And>a cd. H a = Some cd \<Longrightarrow> node_ok H a cd"
    and "\<And>a cd. H a = Some cd \<Longrightarrow> a \<noteq> 0 \<Longrightarrow> \<exists>p. cd_parent cd = Some p \<and> p < a \<and> (a \<notin> set todo \<longrightarrow> held H p a)"
    and "distinct todo"
    and "\<And>t. t \<in> set todo \<Longrightarrow> detached H t"
    and "\<And>a. a \<in> act \<Longrightarrow> H a \<noteq> None"
    and "\<And>a cd. H a = Some cd \<Longrightarrow> kids cd \<noteq> [] \<Longrightarrow> a \<in> act"
  shows "heap_ok H nx act todo"
  unfolding heap_ok_def by (intro conjI allI impI ballI) (use assms in blast)+

lemma node_okD:
  assumes "node_ok H a cd"
  shows "lru_wf (children cd)" and "deleted (children cd) = []"
    and "lru_size (children cd) \<le> cacheSize (children cd)" and "distinct (kids cd)"
    and "n \<in> set (kids cd) \<Longrightarrow> a < n" and "n \<in> set (kids cd) \<Longrightarrow> \<exists>c. H n = Some c \<and> cd_parent c = Some a"
  using assms unfolding node_ok_def by blast+

subsection \<open>Destroying detached objects\<close>

lemma destroy_step:
  assumes ok: "heap_ok H nx act (a # todo)" and cd: "H a = Some cd"
  shows "heap_ok (H(a := None)) nx (act - {a}) (kids cd @ todo)"
proof (rule heap_okI)
  let ?H = "H(a := None)"
  have a0: "a \<noteq> 0" and free: "\<And>b c. H b = Some c \<Longrightarrow> a \<notin> set (kids c)"
    using heap_okD(6)[OF ok, of a] by (auto simp: detached_def)
  note node = heap_okD(3)[OF ok]
  have mine: "n \<notin> set (kids c)" if "n \<in> set (kids cd)" "H b = Some c" "b \<noteq> a" for n b c
    using node_okD(6)[OF node[OF cd] that(1)] node_okD(6)[OF node[OF that(2)], of n] that(3) by auto
  show "b < nx" if "?H b \<noteq> None" for b using that heap_okD(1)[OF ok, of b] by (auto split: if_splits)
  show "\<exists>cd. ?H 0 = Some cd \<and> cd_parent cd = None" using heap_okD(2)[OF ok] a0 by auto
  show "node_ok ?H b c" if "?H b = Some c" for b c
  proof -
    have b: "H b = Some c" using that by (auto split: if_splits)
    show ?thesis using node[OF b] free[OF b] by (auto simp: node_ok_def)
  qed
  show "\<exists>p. cd_parent c = Some p \<and> p < b \<and> (b \<notin> set (kids cd @ todo) \<longrightarrow> held ?H p b)"
    if h: "?H b = Some c" "b \<noteq> 0" for b c
  proof -
    have b: "H b = Some c" "b \<noteq> a" using h by (auto split: if_splits)
    obtain p where p: "cd_parent c = Some p" "p < b" "b \<notin> set (a # todo) \<longrightarrow> held H p b"
      using heap_okD(4)[OF ok b(1) h(2)] by blast
    have "held ?H p b" if "b \<notin> set (kids cd @ todo)"
    proof -
      have "held H p b" using p(3) that b(2) by simp
      then show ?thesis using cd that by (auto simp: held_def)
    qed
    then show ?thesis using p by blast
  qed
  have "detached ?H t" if "t \<in> set (kids cd)" for t
    using node_okD(5,6)[OF node[OF cd] that] mine[OF that] by (auto simp: detached_def)
  moreover have "detached ?H t" if "t \<in> set todo" for t
    using that heap_okD(5)[OF ok] heap_okD(6)[OF ok, of t] by (auto simp: detached_def)
  ultimately show "detached ?H t" if "t \<in> set (kids cd @ todo)" for t using that by auto
  have "t \<notin> set todo" if "t \<in> set (kids cd)" for t
    using that heap_okD(6)[OF ok, of t] cd by (auto simp: detached_def)
  then show "distinct (kids cd @ todo)"
    using heap_okD(5)[OF ok] node_okD(4)[OF node[OF cd]] by auto
  show "?H b \<noteq> None" if "b \<in> act - {a}" for b using that heap_okD(7)[OF ok, of b] by auto
  show "b \<in> act - {a}" if "?H b = Some c" "kids c \<noteq> []" for b c
    using that heap_okD(8)[OF ok, of b c] by (auto split: if_splits)
qed

text \<open>
  Destroying detached objects never meets a freed one, leaves a tree, and touches nothing above
  the objects destroyed.
\<close>

lemma destroy_ok:
  assumes "tree_inv todo st"
  shows "\<exists>st'. destroy todo st = Inr st' \<and> tree_inv [] st' \<and>
    st' = st\<lparr>mr_heap := mr_heap st', activeParents := activeParents st'\<rparr> \<and>
    (\<forall>b. (\<forall>t \<in> set todo. b < t) \<longrightarrow> hp st' b = hp st b \<and> (b \<in> activeParents st' \<longleftrightarrow> b \<in> activeParents st)) \<and>
    (\<forall>b cd. hp st' b = Some cd \<longrightarrow> hp st b = Some cd) \<and> activeParents st' \<subseteq> activeParents st"
  using assms
proof (induction todo st rule: destroy.induct)
  case (1 st)
  then show ?case by simp
next
  case (2 a todo st)
  have ok: "heap_ok (hp st) (mr_next st) (activeParents st) (a # todo)" and d: "distinct (map fst (mr_heap st))"
    using 2(2) by (simp_all add: tree_inv_def)
  have "detached (hp st) a" using heap_okD(6)[OF ok] by simp
  then obtain cd where cd: "hp st a = Some cd" and a0: "a \<noteq> 0" by (auto simp: detached_def)
  obtain p where "cd_parent cd = Some p" using heap_okD(4)[OF ok cd a0] by blast
  then have act: "(if cd_parent cd \<noteq> None \<and> activeParents st \<noteq> {} then activeParents st - {a} else activeParents st)
      = activeParents st - {a}" by auto
  let ?st = "st\<lparr>mr_heap := AList.delete a (mr_heap st), activeParents := activeParents st - {a}\<rparr>"
  have "tree_inv (kids cd @ todo) ?st"
    using destroy_step[OF ok cd] d by (simp add: tree_inv_def delete_conv' distinct_delete)
  from 2(1)[OF cd] this obtain st' where st': "destroy (kids cd @ todo) ?st = Inr st'" "tree_inv [] st'"
    "st' = ?st\<lparr>mr_heap := mr_heap st', activeParents := activeParents st'\<rparr>"
    "\<And>b. (\<forall>t \<in> set (kids cd @ todo). b < t) \<Longrightarrow> hp st' b = hp ?st b \<and> (b \<in> activeParents st' \<longleftrightarrow> b \<in> activeParents ?st)"
    "\<And>b c. hp st' b = Some c \<Longrightarrow> hp ?st b = Some c" "activeParents st' \<subseteq> activeParents ?st"
    unfolding act by blast
  have eq: "destroy (a # todo) st = Inr st'" using cd st'(1) act by simp
  have st2: "st' = st\<lparr>mr_heap := mr_heap st', activeParents := activeParents st'\<rparr>" using st'(3) by simp
  have frame: "hp st' b = hp st b \<and> (b \<in> activeParents st' \<longleftrightarrow> b \<in> activeParents st)"
    if "\<forall>t \<in> set (a # todo). b < t" for b
  proof -
    have "b < t" if t: "t \<in> set (kids cd)" for t
      using node_okD(5)[OF heap_okD(3)[OF ok cd] t] \<open>\<forall>t \<in> set (a # todo). b < t\<close> by simp
    then have "\<forall>t \<in> set (kids cd @ todo). b < t" using that by auto
    from st'(4)[OF this] show ?thesis using that by (simp add: delete_conv')
  qed
  have sub: "hp st b = Some c" if "hp st' b = Some c" for b c
    using st'(5)[OF that] by (simp add: delete_conv' split: if_splits)
  have "activeParents st' \<subseteq> activeParents st" using st'(6) by auto
  then show ?case
    by (intro exI[of _ st']) (use eq st'(2) st2 frame sub in blast)
qed

end
