(* ===== verification/TreeOps.thy ===== *)
theory TreeOps
  imports TreeHeap
begin

text \<open>
  The operations on the tree of rows keep the invariant and never fault: allocating and linking a
  row, running a cache operation and destroying what it deletes, looking a row up.
\<close>

subsection \<open>Updating one object\<close>

lemma hp_cd_put [simp]: "hp (cd_put a cd st) = (hp st)(a \<mapsto> cd)"
  by (simp add: cd_put_def update_conv')

lemma cd_put_frame [simp]:
  "mr_next (cd_put a cd st) = mr_next st" "activeParents (cd_put a cd st) = activeParents st"
  "envCacheSize (cd_put a cd st) = envCacheSize st" "initialized (cd_put a cd st) = initialized st"
  by (simp_all add: cd_put_def)

lemma cd_at_Some: "hp st a = Some cd \<Longrightarrow> cd_at a st = Inr cd"
  by (simp add: cd_at_def)

lemma tree_invD:
  assumes "tree_inv todo st"
  shows "heap_ok (hp st) (mr_next st) (activeParents st) todo" and "distinct (map fst (mr_heap st))"
  using assms by (simp_all add: tree_inv_def)

text \<open>
  Giving an object a cache that holds what it held and the detached objects \<open>X\<close>, less those in \<open>D\<close>.
\<close>

lemma relink_ok:
  assumes inv: "tree_inv X st" and a: "hp st a = Some cd"
    and X0: "\<forall>x \<in> set X. \<forall>c. hp st x = Some c \<longrightarrow> cd_parent c = Some a"
    and cd': "cd_parent cd' = cd_parent cd" "lru_wf (children cd')" "deleted (children cd') = []"
      "lru_size (children cd') \<le> cacheSize (children cd')"
    and own: "mset (kids cd') + mset D = mset (kids cd) + mset X"
    and act: "X \<noteq> [] \<longrightarrow> a \<in> activeParents st"
  shows "tree_inv D (cd_put a cd' st)"
proof -
  have X: "cd_parent c = Some a" if "x \<in> set X" "hp st x = Some c" for x c using X0 that by blast
  let ?H = "hp st" and ?H' = "(hp st)(a \<mapsto> cd')"
  note ok = tree_invD(1)[OF inv]
  note node = heap_okD(3)[OF ok]
  have Xd: "detached ?H x" if "x \<in> set X" for x using heap_okD(6)[OF ok that] .
  have mem: "x \<in> set (kids cd') \<or> x \<in> set D \<longleftrightarrow> x \<in> set (kids cd) \<or> x \<in> set X" for x
    using arg_cong[OF own, of "\<lambda>m. x \<in># m"] by simp
  have "distinct (kids cd @ X)"
    using heap_okD(5)[OF ok] node_okD(4)[OF node[OF a]] Xd a by (auto simp: detached_def)
  then have dist: "distinct (kids cd' @ D)"
    using mset_eq_imp_distinct_iff[of "kids cd' @ D" "kids cd @ X"] own by simp
  have child: "a < x \<and> (\<exists>c. ?H x = Some c \<and> cd_parent c = Some a)" if "x \<in> set (kids cd) \<or> x \<in> set X" for x
    using that
  proof
    assume "x \<in> set (kids cd)"
    then show ?thesis using node_okD(5,6)[OF node[OF a]] by blast
  next
    assume x: "x \<in> set X"
    then have "?H x \<noteq> None" "x \<noteq> 0" using Xd[OF x] by (auto simp: detached_def)
    then obtain c where c: "?H x = Some c" "x \<noteq> 0" by blast
    then show ?thesis using heap_okD(4)[OF ok c] X[OF x c(1)] by auto
  qed
  have elsewhere: "x \<notin> set (kids c)" if "x \<in> set (kids cd) \<or> x \<in> set X" "?H b = Some c" "b \<noteq> a" for x b c
    using child[OF that(1)] node_okD(6)[OF node[OF that(2)], of x] that(3) by auto
  have live: "?H' b \<noteq> None \<longleftrightarrow> ?H b \<noteq> None" for b using a by auto
  have parent: "\<exists>c'. ?H' b = Some c' \<and> cd_parent c' = q" if "?H b = Some c" "cd_parent c = q" for b c q
    using that a cd'(1) by auto
  have "heap_ok ?H' (mr_next st) (activeParents st) D"
  proof (rule heap_okI)
    show "b < mr_next st" if "?H' b \<noteq> None" for b using that live heap_okD(1)[OF ok] by blast
    show "\<exists>cd. ?H' 0 = Some cd \<and> cd_parent cd = None" using heap_okD(2)[OF ok] parent by blast
    show "node_ok ?H' b c" if c: "?H' b = Some c" for b c
    proof (cases "b = a")
      case True
      have "\<exists>c. ?H' x = Some c \<and> cd_parent c = Some a" if "x \<in> set (kids cd')" for x
        using child[of x] mem[of x] that parent by blast
      moreover have "a < x" if "x \<in> set (kids cd')" for x using child[of x] mem[of x] that by blast
      moreover have "c = cd'" using True c by simp
      moreover have "distinct (kids cd')" using dist by simp
      ultimately show ?thesis using True cd' unfolding node_ok_def by blast
    next
      case False
      then have b: "?H b = Some c" using c by simp
      show ?thesis unfolding node_ok_def using node_okD[OF node[OF b]] parent by blast
    qed
    show "\<exists>p. cd_parent c = Some p \<and> p < b \<and> (b \<notin> set D \<longrightarrow> held ?H' p b)"
      if h: "?H' b = Some c" "b \<noteq> 0" for b c
    proof -
      obtain c0 where c0: "?H b = Some c0" "cd_parent c = cd_parent c0"
        using h(1) a cd'(1) by (cases "b = a") auto
      obtain p where p: "cd_parent c0 = Some p" "p < b" "b \<notin> set X \<longrightarrow> held ?H p b"
        using heap_okD(4)[OF ok c0(1) h(2)] by blast
      have "held ?H' p b" if D: "b \<notin> set D"
      proof (cases "b \<in> set X")
        case True
        then have "p = a" using X[OF True c0(1)] p(1) by simp
        then show ?thesis using mem[of b] True D by (simp add: held_def)
      next
        case False
        then have "held ?H p b" using p(3) by simp
        then obtain pcd where pcd: "?H p = Some pcd" "b \<in> set (kids pcd)" by (auto simp: held_def)
        then show ?thesis using mem[of b] D a by (cases "p = a") (auto simp: held_def)
      qed
      then show ?thesis using p c0(2) by simp
    qed
    show "distinct D" using dist by simp
    show "detached ?H' t" if "t \<in> set D" for t
    proof -
      have "t \<in> set (kids cd) \<or> t \<in> set X" using mem[of t] that by blast
      then show ?thesis
        using child[of t] elsewhere[of t] dist that live[of t] by (auto simp: detached_def)
    qed
    show "?H' b \<noteq> None" if "b \<in> activeParents st" for b using that live heap_okD(7)[OF ok] by blast
    show "b \<in> activeParents st" if h: "?H' b = Some c" "kids c \<noteq> []" for b c
    proof (cases "b = a")
      case True
      then have "kids cd' \<noteq> []" using h by simp
      then have "kids cd \<noteq> [] \<or> X \<noteq> []" using own by auto
      then show ?thesis using True act heap_okD(8)[OF ok a] by blast
    next
      case False
      then show ?thesis using h heap_okD(8)[OF ok, of b c] by simp
    qed
  qed
  then show ?thesis using tree_invD(2)[OF inv] by (simp add: tree_inv_def cd_put_def distinct_update update_conv')
qed

lemma cd_put_inv:
  assumes "tree_inv X st" and "hp st a = Some cd" and "cd_parent cd' = cd_parent cd" and "children cd' = children cd"
  shows "tree_inv X (cd_put a cd' st)"
proof -
  note ok = tree_invD(1)[OF assms(1)]
  note n = node_okD[OF heap_okD(3)[OF ok assms(2)]]
  let ?H' = "(hp st)(a \<mapsto> cd')"
  have parent: "\<exists>c'. ?H' b = Some c' \<and> cd_parent c' = cd_parent c \<and> children c' = children c" if "hp st b = Some c" for b c
    using that assms(2-4) by auto
  have was: "\<exists>c'. hp st b = Some c' \<and> cd_parent c' = cd_parent c \<and> children c' = children c" if "?H' b = Some c" for b c
    using that assms(2-4) by (auto split: if_splits)
  have held: "held ?H' p b \<longleftrightarrow> held (hp st) p b" for p b
    unfolding held_def using parent was by metis
  have det: "detached ?H' t \<longleftrightarrow> detached (hp st) t" for t
    unfolding detached_def using parent was by (metis option.exhaust option.distinct(1))
  have "heap_ok ?H' (mr_next st) (activeParents st) X"
  proof (rule heap_okI)
    show "b < mr_next st" if "?H' b \<noteq> None" for b using that was heap_okD(1)[OF ok] by blast
    show "\<exists>cd. ?H' 0 = Some cd \<and> cd_parent cd = None" using heap_okD(2)[OF ok] parent by metis
    show "node_ok ?H' b c" if h: "?H' b = Some c" for b c
    proof -
      obtain c' where c': "hp st b = Some c'" "cd_parent c' = cd_parent c" "children c' = children c"
        using was[OF h] by blast
      have "node_ok (hp st) b c'" by (rule heap_okD(3)[OF ok c'(1)])
      then show ?thesis using c'(3) parent unfolding node_ok_def by metis
    qed
    show "\<exists>p. cd_parent c = Some p \<and> p < b \<and> (b \<notin> set X \<longrightarrow> held ?H' p b)"
      if h: "?H' b = Some c" "b \<noteq> 0" for b c
      using was[OF h(1)] heap_okD(4)[OF ok _ h(2)] held by metis
    show "distinct X" by (rule heap_okD(5)[OF ok])
    show "detached ?H' t" if "t \<in> set X" for t using heap_okD(6)[OF ok that] det by blast
    show "?H' b \<noteq> None" if "b \<in> activeParents st" for b using heap_okD(7)[OF ok that] parent by fastforce
    show "b \<in> activeParents st" if "?H' b = Some c" "kids c \<noteq> []" for b c
      using was[OF that(1)] that(2) heap_okD(8)[OF ok, of b] by auto
  qed
  then show ?thesis using tree_invD(2)[OF assms(1)] by (simp add: tree_inv_def cd_put_def distinct_update update_conv')
qed

subsection \<open>Allocating\<close>

lemma hp_alloc:
  "hp (snd (alloc_child p st)) = (hp st)(mr_next st \<mapsto> new_cache_data (envCacheSize st) (Some p))"
  "fst (alloc_child p st) = mr_next st"
  "mr_next (snd (alloc_child p st)) = Suc (mr_next st)"
  "activeParents (snd (alloc_child p st)) = insert p (activeParents st)"
  by (simp_all add: alloc_child_def update_conv')

lemma new_node: "kids (new_cache_data n p) = []" "cd_parent (new_cache_data n p) = p"
  "lru_wf (children (new_cache_data n p))" "deleted (children (new_cache_data n p)) = []"
  "lru_size (children (new_cache_data n p)) \<le> cacheSize (children (new_cache_data n p))"
  "cd_hasChildren (new_cache_data n p) = False"
  using lru_new_ok[of n] by (simp_all add: new_cache_data_def) (simp add: lru_new_def)

lemma alloc_ok:
  assumes inv: "tree_inv [] st" and p: "hp st p \<noteq> None"
  shows "tree_inv [mr_next st] (snd (alloc_child p st))" and "hp st (mr_next st) = None" and "p < mr_next st"
proof -
  note ok = tree_invD(1)[OF inv]
  let ?n = "mr_next st" and ?new = "new_cache_data (envCacheSize st) (Some p)"
  let ?H = "(hp st)(mr_next st \<mapsto> new_cache_data (envCacheSize st) (Some p))"
  show fresh: "hp st ?n = None" using heap_okD(1)[OF ok, of ?n] by (cases "hp st ?n") auto
  show pn: "p < ?n" by (rule heap_okD(1)[OF ok p])
  have old: "?H b = Some c" if "hp st b = Some c" for b c using that fresh by auto
  have unheld: "?n \<notin> set (kids c)" if "hp st b = Some c" for b c
    using node_okD(6)[OF heap_okD(3)[OF ok that], of ?n] fresh by auto
  have "heap_ok ?H (Suc ?n) (insert p (activeParents st)) [?n]"
  proof (rule heap_okI)
    show "b < Suc ?n" if "?H b \<noteq> None" for b using that heap_okD(1)[OF ok, of b] by (auto split: if_splits)
    show "\<exists>cd. ?H 0 = Some cd \<and> cd_parent cd = None" using heap_okD(2)[OF ok] old by blast
    show "node_ok ?H b c" if h: "?H b = Some c" for b c
    proof (cases "b = ?n")
      case True
      then have c: "c = ?new" using h by simp
      show ?thesis unfolding node_ok_def c by (simp add: new_node)
    next
      case False
      then have b: "hp st b = Some c" using h by simp
      show ?thesis unfolding node_ok_def using node_okD[OF heap_okD(3)[OF ok b]] old by blast
    qed
    show "\<exists>q. cd_parent c = Some q \<and> q < b \<and> (b \<notin> set [?n] \<longrightarrow> held ?H q b)"
      if h: "?H b = Some c" "b \<noteq> 0" for b c
    proof (cases "b = ?n")
      case True
      then have c: "c = ?new" using h by simp
      show ?thesis unfolding c using True pn by (simp add: new_node)
    next
      case False
      then have "hp st b = Some c" using h by simp
      from heap_okD(4)[OF ok this h(2)] obtain q where q: "cd_parent c = Some q" "q < b" "held (hp st) q b" by auto
      then have "held ?H q b" using old unfolding held_def by blast
      then show ?thesis using q by blast
    qed
    show "distinct [?n]" by simp
    show "detached ?H t" if "t \<in> set [?n]" for t
      using that unheld pn by (auto simp: detached_def new_node split: if_splits)
    show "?H b \<noteq> None" if "b \<in> insert p (activeParents st)" for b
      using that heap_okD(7)[OF ok, of b] p by auto
    show "b \<in> insert p (activeParents st)" if "?H b = Some c" "kids c \<noteq> []" for b c
      using that heap_okD(8)[OF ok, of b c] by (auto simp: new_node split: if_splits)
  qed
  then show "tree_inv [?n] (snd (alloc_child p st))"
    using tree_invD(2)[OF inv] by (simp add: tree_inv_def alloc_child_def distinct_update update_conv')
qed

subsection \<open>Running a cache operation\<close>

text \<open>What an operation on the children of \<open>a\<close> leaves alone.\<close>

definition spares :: "nat \<Rightarrow> 'v mreplica \<Rightarrow> 'v mreplica \<Rightarrow> bool" where
  "spares a st st' \<longleftrightarrow>
    st' = st\<lparr>mr_heap := mr_heap st', activeParents := activeParents st', mr_next := mr_next st'\<rparr> \<and>
    (\<forall>b < a. hp st' b = hp st b) \<and>
    (\<forall>b < a. b \<in> activeParents st' \<longleftrightarrow> b \<in> activeParents st) \<and>
    (a \<in> activeParents st \<longrightarrow> a \<in> activeParents st')"

lemma spares_refl [simp]: "spares a st st"
  by (simp add: spares_def)

lemma spares_trans: "spares a st st1 \<Longrightarrow> spares a st1 st2 \<Longrightarrow> spares a st st2"
  unfolding spares_def by (cases st, cases st1, cases st2) auto

lemma with_children_ok:
  assumes inv: "tree_inv X st" and a: "hp st a = Some cd"
    and X0: "\<forall>x \<in> set X. \<forall>c. hp st x = Some c \<longrightarrow> cd_parent c = Some a"
    and f: "f ((children cd)\<lparr>deleted := []\<rparr>) = Inr c'" and wf: "lru_wf c'" "lru_size c' \<le> cacheSize c'"
    and own: "lru_owned c' = lru_owned ((children cd)\<lparr>deleted := []\<rparr>) + mset X"
    and act: "X \<noteq> [] \<longrightarrow> a \<in> activeParents st"
  shows "\<exists>st'. with_children a f st = Inr st' \<and> tree_inv [] st' \<and>
    hp st' a = Some (cd\<lparr>children := c'\<lparr>deleted := []\<rparr>\<rparr>) \<and> spares a st st' \<and>
    (\<forall>b c. b \<noteq> a \<longrightarrow> hp st' b = Some c \<longrightarrow> hp st b = Some c) \<and>
    (deleted c' = [] \<longrightarrow> st' = cd_put a (cd\<lparr>children := c'\<lparr>deleted := []\<rparr>\<rparr>) st)"
proof -
  have X: "cd_parent c = Some a" if "x \<in> set X" "hp st x = Some c" for x c using X0 that by blast
  let ?cd = "cd\<lparr>children := c'\<lparr>deleted := []\<rparr>\<rparr>" and ?D = "deleted c'"
  have wf': "lru_wf (c'\<lparr>deleted := []\<rparr>)" using wf(1) by (simp add: lru_wf_def node_keys_def)
  have own': "mset (kids ?cd) + mset ?D = mset (kids cd) + mset X"
    using own by (simp add: lru_owned_def lru_values_def)
  have D: "tree_inv ?D (cd_put a ?cd st)"
    by (rule relink_ok[OF inv a X0]) (use wf wf' own' act in \<open>auto simp: lru_size_def\<close>)
  have above: "a < t" if t: "t \<in> set ?D" for t
  proof -
    have "t \<in> set (kids cd) \<or> t \<in> set X" using arg_cong[OF own', of "\<lambda>m. t \<in># m"] t by simp
    then show ?thesis
    proof
      assume "t \<in> set (kids cd)"
      then show ?thesis using node_okD(5)[OF heap_okD(3)[OF tree_invD(1)[OF inv] a]] by blast
    next
      assume x: "t \<in> set X"
      then obtain c where c: "hp st t = Some c" "t \<noteq> 0"
        using heap_okD(6)[OF tree_invD(1)[OF inv] x] by (auto simp: detached_def)
      then show ?thesis using heap_okD(4)[OF tree_invD(1)[OF inv] c] X[OF x c(1)] by auto
    qed
  qed
  obtain st' where st': "destroy ?D (cd_put a ?cd st) = Inr st'" "tree_inv [] st'"
    "st' = (cd_put a ?cd st)\<lparr>mr_heap := mr_heap st', activeParents := activeParents st'\<rparr>"
    "\<And>b. (\<forall>t \<in> set ?D. b < t) \<Longrightarrow> hp st' b = hp (cd_put a ?cd st) b \<and>
       (b \<in> activeParents st' \<longleftrightarrow> b \<in> activeParents (cd_put a ?cd st))"
    "\<And>b c. hp st' b = Some c \<Longrightarrow> hp (cd_put a ?cd st) b = Some c"
    using destroy_ok[OF D] by blast
  have eq: "with_children a f st = Inr st'"
    by (simp add: with_children_def cd_at_Some[OF a] f st'(1))
  have low: "hp st' b = hp (cd_put a ?cd st) b \<and> (b \<in> activeParents st' \<longleftrightarrow> b \<in> activeParents st)" if "b \<le> a" for b
    using st'(4)[of b] le_less_trans[OF that above] by simp
  have "spares a st st'"
    unfolding spares_def
  proof (intro conjI allI impI)
    show "st' = st\<lparr>mr_heap := mr_heap st', activeParents := activeParents st', mr_next := mr_next st'\<rparr>"
      using st'(3) by (auto simp: cd_put_def)
    show "hp st' b = hp st b" if "b < a" for b using low[of b] that by simp
    show "b \<in> activeParents st' \<longleftrightarrow> b \<in> activeParents st" if "b < a" for b using low[of b] that by simp
    show "a \<in> activeParents st'" if "a \<in> activeParents st" using low[of a] that by simp
  qed
  moreover have "hp st' a = Some ?cd" using low[of a] by simp
  moreover have "hp st b = Some c" if "b \<noteq> a" "hp st' b = Some c" for b c
    using st'(5)[OF that(2)] that(1) by simp
  moreover have "st' = cd_put a ?cd st" if "?D = []" using st'(1) that by simp
  ultimately show ?thesis using eq st'(2) by blast
qed

end
