(* ===== verification/TreeSafe.thy ===== *)
theory TreeSafe
  imports TreeOps
begin

text \<open>
  Linking, inserting and removing rows, and looking them up: each keeps the tree and never faults.
\<close>

abbreviation tree_ok :: "'v mreplica \<Rightarrow> bool" where
  "tree_ok st \<equiv> tree_inv [] st"

lemma tree_node: "tree_inv X st \<Longrightarrow> hp st a = Some cd \<Longrightarrow> node_ok (hp st) a cd"
  using heap_okD(3)[OF tree_invD(1)] by blast

lemma tree_active: "tree_inv X st \<Longrightarrow> a \<in> activeParents st \<Longrightarrow> \<exists>cd. hp st a = Some cd"
  using heap_okD(7)[OF tree_invD(1)] by blast

lemma tree_root: "tree_inv X st \<Longrightarrow> \<exists>cd. hp st 0 = Some cd \<and> cd_parent cd = None"
  using heap_okD(2)[OF tree_invD(1)] by blast

lemma cd_update_ok:
  assumes "tree_inv X st" and "hp st a = Some cd" and "cd_parent (f cd) = cd_parent cd" and "children (f cd) = children cd"
  shows "cd_update a f st = Inr (cd_put a (f cd) st)" and "tree_inv X (cd_put a (f cd) st)"
  using assms(2) cd_put_inv[OF assms(1,2,3,4)] by (simp_all add: cd_update_def cd_at_Some)

lemma spares_cd_put: "hp st a = Some cd \<Longrightarrow> spares a st (cd_put a cd' st)"
  by (simp add: spares_def) (simp add: cd_put_def)

lemma spares_cd_put_below: "a < b \<Longrightarrow> spares a st (cd_put b cd' st)"
  by (simp add: spares_def) (simp add: cd_put_def)

lemma spares_alloc: "hp st a \<noteq> None \<Longrightarrow> a < mr_next st \<Longrightarrow> spares a st (snd (alloc_child a st))"
  by (simp add: spares_def hp_alloc) (simp add: alloc_child_def)

lemma lru_wf_deleted [simp]: "lru_wf (c\<lparr>deleted := d\<rparr>) = lru_wf c"
  by (simp add: lru_wf_def node_keys_def)

lemma lru_abs_deleted [simp]: "lru_abs (c\<lparr>deleted := d\<rparr>) = lru_abs c"
  by (simp add: lru_abs_def)

lemma lru_size_deleted [simp]: "lru_size (c\<lparr>deleted := d\<rparr>) = lru_size c"
  by (simp add: lru_size_def)

lemma lru_values_deleted [simp]: "lru_values (c\<lparr>deleted := d\<rparr>) = lru_values c"
  by (simp add: lru_values_def)

subsection \<open>Making sure a row exists\<close>

lemma ensureChild_exists:
  assumes "tree_inv X st" and "hp st a = Some cd" and "lru_abs (children cd) i \<noteq> None"
  shows "ensureChild a i st = Inr st"
  using assms node_okD(1)[OF tree_node[OF assms(1,2)]]
  by (simp add: ensureChild_def cd_at_Some lru_exists_abs)

lemma ensureChild_new:
  assumes inv: "tree_ok st" and a: "hp st a = Some cd" and new: "lru_abs (children cd) i = None"
  shows "\<exists>st' c'. ensureChild a i st = Inr st' \<and> tree_ok st' \<and> spares a st st' \<and>
    hp st' a = Some (cd\<lparr>children := c'\<rparr>) \<and> cacheSize c' = cacheSize (children cd) \<and> a \<in> activeParents st' \<and>
    (lru_size (children cd) < cacheSize (children cd) \<longrightarrow>
       lru_abs c' = (lru_abs (children cd))(i \<mapsto> mr_next st) \<and>
       hp st' = (hp st)(mr_next st \<mapsto> new_cache_data (envCacheSize st) (Some a), a \<mapsto> cd\<lparr>children := c'\<rparr>) \<and>
       mr_next st' = Suc (mr_next st) \<and> activeParents st' = insert a (activeParents st))"
proof -
  let ?n = "mr_next st" and ?st1 = "snd (alloc_child a st)"
  let ?new = "new_cache_data (envCacheSize st) (Some a) :: 'a cache_data"
  have a1: "hp st a \<noteq> None" using a by simp
  have inv1: "tree_inv [?n] ?st1" and fresh: "hp st ?n = None" and less: "a < ?n"
    using alloc_ok[OF inv a1] by auto
  have hp1: "hp ?st1 a = Some cd" "hp ?st1 ?n = Some ?new" using a less by (simp_all add: hp_alloc)
  note node = node_okD[OF tree_node[OF inv a]]
  let ?hc = "has_children_at ?st1"
  have hc: "\<not> ?hc ?n" using hp1(2) by (simp add: has_children_at_def new_node)
  let ?c = "(children cd)\<lparr>deleted := []\<rparr>"
  obtain c1 where c1: "lru_ensure ?hc i ?n ?c = Inr c1" "lru_wf c1" "lru_size c1 \<le> cacheSize c1" "cacheSize c1 = cacheSize ?c"
    "lru_size ?c < cacheSize ?c \<longrightarrow> lru_abs c1 = (lru_abs ?c)(i \<mapsto> ?n) \<and> deleted c1 = deleted ?c"
    using lru_ensure_result[of ?c i ?hc ?n] node new hc by auto
  have own: "lru_owned c1 = lru_owned ?c + mset [?n]"
    using owned_ensure[OF _ _ c1(1)] node(1) new by simp
  have par: "\<forall>x \<in> set [?n]. \<forall>c. hp ?st1 x = Some c \<longrightarrow> cd_parent c = Some a"
    using hp1(2) by (auto simp: new_node)
  obtain st' where st': "with_children a (lru_ensure ?hc i ?n) ?st1 = Inr st'" "tree_ok st'"
    "hp st' a = Some (cd\<lparr>children := c1\<lparr>deleted := []\<rparr>\<rparr>)" "spares a ?st1 st'"
    "deleted c1 = [] \<longrightarrow> st' = cd_put a (cd\<lparr>children := c1\<lparr>deleted := []\<rparr>\<rparr>) ?st1"
    using with_children_ok[where f = "lru_ensure ?hc i ?n", OF inv1 hp1(1) par c1(1,2,3) own] hp_alloc(4)[of a st] by auto
  have "spares a st st'" using spares_trans[OF spares_alloc[OF a1 less] st'(4)] .
  moreover have "ensureChild a i st = Inr st'"
    using a new node(1) st'(1) by (simp add: ensureChild_def cd_at_Some lru_exists_abs case_prod_unfold hp_alloc(2))
  moreover have "a \<in> activeParents st'" using st'(4) by (simp add: spares_def hp_alloc)
  ultimately show ?thesis
    using st'(2,3,5) c1(4,5) by (intro exI[of _ st'] exI[of _ "c1\<lparr>deleted := []\<rparr>"]) (auto simp: hp_alloc)
qed

lemma ensureChild_ok:
  assumes "tree_ok st" and "hp st a = Some cd"
  shows "\<exists>st' c'. ensureChild a i st = Inr st' \<and> tree_ok st' \<and> spares a st st' \<and>
    hp st' a = Some (cd\<lparr>children := c'\<rparr>)"
proof (cases "lru_abs (children cd) i")
  case None
  then show ?thesis using ensureChild_new[OF assms None] by blast
next
  case (Some n)
  have "ensureChild a i st = Inr st" by (rule ensureChild_exists[OF assms]) (simp add: Some)
  then show ?thesis using assms by (intro exI[of _ st] exI[of _ "children cd"]) simp
qed

text \<open>A step on the children of \<open>a\<close> that may change counts too.\<close>

definition good_step :: "nat \<Rightarrow> 'v mreplica \<Rightarrow> 'v mreplica \<Rightarrow> bool" where
  "good_step a st st' \<longleftrightarrow> tree_ok st' \<and> spares a st st' \<and>
    (\<exists>cd cd'. hp st a = Some cd \<and> hp st' a = Some cd' \<and> cd_parent cd' = cd_parent cd)"

lemma good_step_trans: "good_step a st st1 \<Longrightarrow> good_step a st1 st2 \<Longrightarrow> good_step a st st2"
  unfolding good_step_def using spares_trans by (metis option.inject)

lemma good_step_fold:
  assumes "tree_ok st" and "hp st a \<noteq> None"
    and "\<And>x s. tree_ok s \<Longrightarrow> hp s a \<noteq> None \<Longrightarrow> \<exists>s'. f x s = Inr s' \<and> good_step a s s'"
  shows "\<exists>st'. foldE f xs st = Inr st' \<and> good_step a st st'"
proof -
  have "\<exists>st'. foldE f xs st = Inr st' \<and> good_step a st st'"
  proof (rule foldE_invariant)
    show "good_step a st st" using assms(1,2) by (auto simp: good_step_def)
    fix x s assume s: "good_step a st s"
    then have "tree_ok s" "hp s a \<noteq> None" by (auto simp: good_step_def)
    from assms(3)[OF this] obtain s' where "f x s = Inr s'" "good_step a s s'" by blast
    then show "\<exists>s'. f x s = Inr s' \<and> good_step a st s'" using good_step_trans[OF s] by blast
  qed
  then show ?thesis .
qed

lemma good_stepD:
  assumes "good_step a st st'"
  shows "tree_ok st'" and "hp st' a \<noteq> None" and "spares a st st'"
  using assms by (auto simp: good_step_def)

lemma ensureChildren_ok:
  assumes "tree_ok st" and "hp st a \<noteq> None"
  shows "\<exists>st'. ensureChildren a i j st = Inr st' \<and> good_step a st st'"
  unfolding ensureChildren_def
proof (rule good_step_fold[OF assms])
  fix x s assume "tree_ok s" "hp s a \<noteq> None"
  then obtain cd where cd: "hp s a = Some cd" by blast
  from ensureChild_ok[OF \<open>tree_ok s\<close> cd, of x] obtain s' c' where
    "ensureChild a x s = Inr s'" "tree_ok s'" "spares a s s'" "hp s' a = Some (cd\<lparr>children := c'\<rparr>)" by blast
  then show "\<exists>s'. ensureChild a x s = Inr s' \<and> good_step a s s'"
    using cd by (intro exI[of _ s']) (simp add: good_step_def)
qed

subsection \<open>Inserting and removing rows\<close>

lemma insertChild_ok:
  assumes inv: "tree_ok st" and "hp st a \<noteq> None"
  shows "\<exists>st'. insertChild a i st = Inr st' \<and> good_step a st st'"
proof -
  obtain cd where a: "hp st a = Some cd" using assms(2) by blast
  let ?n = "mr_next st" and ?st1 = "snd (alloc_child a st)"
  let ?new = "new_cache_data (envCacheSize st) (Some a) :: 'a cache_data"
  let ?new' = "?new\<lparr>columnCount := columnCount cd\<rparr>"
  let ?st2 = "cd_put ?n ?new' ?st1"
  have inv1: "tree_inv [?n] ?st1" and fresh: "hp st ?n = None" and less: "a < ?n"
    using alloc_ok[OF inv assms(2)] by auto
  have hp1: "hp ?st1 ?n = Some ?new" by (simp add: hp_alloc)
  have up: "cd_update ?n (\<lambda>c. c\<lparr>columnCount := columnCount cd\<rparr>) ?st1 = Inr ?st2" and inv2: "tree_inv [?n] ?st2"
    using cd_update_ok[OF inv1 hp1, of "\<lambda>c. c\<lparr>columnCount := columnCount cd\<rparr>"] by simp_all
  have hp2: "hp ?st2 a = Some cd" "hp ?st2 ?n = Some ?new'" using a less by (simp_all add: hp_alloc)
  note node = node_okD[OF tree_node[OF inv a]]
  let ?hc = "has_children_at ?st2"
  have hc: "\<not> ?hc ?n" by (simp add: has_children_at_def new_node hp2)
  let ?c = "(children cd)\<lparr>deleted := []\<rparr>"
  obtain c1 where c1: "lru_insert ?hc i ?n ?c = Inr c1" "lru_wf c1" "lru_size c1 \<le> cacheSize c1"
    using lru_insert_result[of ?c ?hc ?n i] node hc by auto
  have own: "lru_owned c1 = lru_owned ?c + mset [?n]"
    using owned_insert[OF _ c1(1)] node(1) by simp
  have par: "\<forall>x \<in> set [?n]. \<forall>c. hp ?st2 x = Some c \<longrightarrow> cd_parent c = Some a"
    using hp2(2) by (auto simp: new_node)
  obtain st3 where st3: "with_children a (lru_insert ?hc i ?n) ?st2 = Inr st3" "tree_ok st3"
    "hp st3 a = Some (cd\<lparr>children := c1\<lparr>deleted := []\<rparr>\<rparr>)" "spares a ?st2 st3"
    using with_children_ok[where f = "lru_insert ?hc i ?n", OF inv2 hp2(1) par c1 own] hp_alloc(4)[of a st] by auto
  let ?st4 = "cd_put a (cd\<lparr>children := c1\<lparr>deleted := []\<rparr>, rowCount := rowCount cd + 1\<rparr>) st3"
  have k2: "spares a st ?st2"
    by (rule spares_trans[OF spares_alloc[OF assms(2) less] spares_cd_put_below[OF less]])
  have "spares a st ?st4"
    by (rule spares_trans[OF spares_trans[OF k2 st3(4)] spares_cd_put[OF st3(3)]])
  moreover have "cd_update a (\<lambda>c. c\<lparr>rowCount := rowCount c + 1\<rparr>) st3 = Inr ?st4" "tree_ok ?st4"
    using cd_update_ok[OF st3(2,3), of "\<lambda>c. c\<lparr>rowCount := rowCount c + 1\<rparr>"] by simp_all
  moreover have "insertChild a i st = Inr ?st4"
    using a up st3(1) calculation(2) by (simp add: insertChild_def cd_at_Some case_prod_unfold hp_alloc(2))
  ultimately show ?thesis using a by (auto simp: good_step_def)
qed

lemma update_good:
  assumes "tree_ok st" and "hp st a \<noteq> None" and "\<And>c. cd_parent (f c) = cd_parent c" and "\<And>c. children (f c) = children c"
  shows "\<exists>st'. cd_update a f st = Inr st' \<and> good_step a st st'"
proof -
  obtain cd where cd: "hp st a = Some cd" using assms(2) by blast
  show ?thesis
    using cd_update_ok[OF assms(1) cd, of f] assms(3,4) spares_cd_put[OF cd] cd by (auto simp: good_step_def)
qed

lemma bind_good:
  assumes "\<exists>st1. x = Inr st1 \<and> good_step a st st1"
    and "\<And>st1. tree_ok st1 \<Longrightarrow> hp st1 a \<noteq> None \<Longrightarrow> \<exists>st2. f st1 = Inr st2 \<and> good_step a st1 st2"
  shows "\<exists>st2. bindE x f = Inr st2 \<and> good_step a st st2"
proof -
  obtain st1 where 1: "x = Inr st1" "good_step a st st1" using assms(1) by blast
  obtain st2 where "f st1 = Inr st2" "good_step a st1 st2"
    using assms(2)[OF good_stepD(1,2)[OF 1(2)]] by blast
  then show ?thesis using 1 good_step_trans by auto
qed

lemma insertChildren_ok:
  assumes "tree_ok st" and "hp st a \<noteq> None"
  shows "\<exists>st'. insertChildren a i j st = Inr st' \<and> good_step a st st'"
  unfolding insertChildren_def
  by (rule bind_good[OF good_step_fold[OF assms insertChild_ok]]) (simp_all add: update_good)

lemma with_children_good:
  assumes "tree_ok st" and "hp st a \<noteq> None"
    and "\<And>c. lru_wf c \<Longrightarrow> lru_size c \<le> cacheSize c \<Longrightarrow>
      \<exists>c'. f c = Inr c' \<and> lru_wf c' \<and> lru_size c' \<le> cacheSize c' \<and> lru_owned c' = lru_owned c"
  shows "\<exists>st'. with_children a f st = Inr st' \<and> good_step a st st'"
proof -
  obtain cd where cd: "hp st a = Some cd" using assms(2) by blast
  note node = node_okD[OF tree_node[OF assms(1) cd]]
  let ?c = "(children cd)\<lparr>deleted := []\<rparr>"
  have "lru_wf ?c" "lru_size ?c \<le> cacheSize ?c" using node by simp_all
  from assms(3)[OF this] obtain c1 where c1: "f ?c = Inr c1" "lru_wf c1" "lru_size c1 \<le> cacheSize c1" "lru_owned c1 = lru_owned ?c"
    by blast
  then have own: "lru_owned c1 = lru_owned ?c + mset []" by simp
  from with_children_ok[where X = "[]" and f = f, OF assms(1) cd _ c1(1,2,3) own] obtain st' where
    "with_children a f st = Inr st'" "tree_ok st'" "hp st' a = Some (cd\<lparr>children := c1\<lparr>deleted := []\<rparr>\<rparr>)" "spares a st st'"
    by auto
  then show ?thesis using cd by (auto simp: good_step_def)
qed

lemma removeChild_ok:
  assumes "tree_ok st" and "hp st a \<noteq> None"
  shows "\<exists>st'. removeChild a i st = Inr st' \<and> good_step a st st'"
  unfolding removeChild_def
proof (rule bind_good)
  show "\<exists>st1. with_children a (\<lambda>c. Inr (lru_remove i c)) st = Inr st1 \<and> good_step a st st1"
  proof (rule with_children_good[OF assms])
    fix c :: "nat lru" assume c: "lru_wf c" "lru_size c \<le> cacheSize c"
    show "\<exists>c'. Inr (lru_remove i c) = Inr c' \<and> lru_wf c' \<and> lru_size c' \<le> cacheSize c' \<and> lru_owned c' = lru_owned c"
      using lru_remove_result[OF c(1), of i] c(2) owned_remove[OF c(1), of i] by simp
  qed
qed (simp add: update_good)

lemma removeChildren_ok:
  assumes "tree_ok st" and "hp st a \<noteq> None"
  shows "\<exists>st'. removeChildren a i j st = Inr st' \<and> good_step a st st'"
  unfolding removeChildren_def
  by (rule bind_good[OF good_step_fold[OF assms removeChild_ok]]) (simp_all add: update_good)

lemma cd_clear_ok:
  assumes "tree_ok st" and "hp st a \<noteq> None"
  shows "\<exists>st'. cd_clear a st = Inr st' \<and> good_step a st st'"
  unfolding cd_clear_def
proof (rule bind_good)
  show "\<exists>st1. cd_update a (\<lambda>c. c\<lparr>cachedRowEntry := []\<rparr>) st = Inr st1 \<and> good_step a st st1"
    by (rule update_good[OF assms]) simp_all
  fix st1 :: "'a mreplica" assume 1: "tree_ok st1" "hp st1 a \<noteq> None"
  show "\<exists>st2. bindE (with_children a (\<lambda>c. Inr (lru_clear c)) st1)
      (cd_update a (\<lambda>c. c\<lparr>cd_hasChildren := False, columnCount := 0, rowCount := 0\<rparr>)) = Inr st2 \<and> good_step a st1 st2"
  proof (rule bind_good)
    show "\<exists>st2. with_children a (\<lambda>c. Inr (lru_clear c)) st1 = Inr st2 \<and> good_step a st1 st2"
    proof (rule with_children_good[OF 1])
      fix c :: "nat lru" assume "lru_size c \<le> cacheSize c"
      show "\<exists>c'. Inr (lru_clear c) = Inr c' \<and> lru_wf c' \<and> lru_size c' \<le> cacheSize c' \<and> lru_owned c' = lru_owned c"
        using lru_clear_result(1)[of c] owned_clear[of c] by (simp add: lru_size_def) (simp add: lru_clear_def)
    qed
  qed (simp add: update_good)
qed

end
