(* ===== verification/TreeLookup.thy ===== *)
theory TreeLookup
  imports TreeSafe
begin

text \<open>
  Looking rows up. A lookup reorders caches and changes nothing else (\<open>sim\<close>); walking down a path
  of rows that exist is such a lookup; and a walk that has to create rows creates them below the
  rows it has passed, which stay where they are.
\<close>

definition cd_like :: "'v cache_data \<Rightarrow> 'v cache_data \<Rightarrow> bool" where
  "cd_like c c' \<longleftrightarrow> c' = c\<lparr>children := children c'\<rparr> \<and> lru_abs (children c') = lru_abs (children c) \<and>
    cacheSize (children c') = cacheSize (children c) \<and> lru_size (children c') = lru_size (children c)"

definition sim :: "'v mreplica \<Rightarrow> 'v mreplica \<Rightarrow> bool" where
  "sim st st' \<longleftrightarrow> st' = st\<lparr>mr_heap := mr_heap st'\<rparr> \<and> (\<forall>a. rel_option cd_like (hp st a) (hp st' a))"

lemma cd_like_refl [simp]: "cd_like c c"
  by (simp add: cd_like_def)

lemma cd_like_trans: "cd_like a b \<Longrightarrow> cd_like b c \<Longrightarrow> cd_like a c"
  unfolding cd_like_def by (cases a, cases b, cases c) auto

lemma cd_like_fields:
  assumes "cd_like c c'"
  shows "cd_parent c' = cd_parent c" "cachedRowEntry c' = cachedRowEntry c" "cd_hasChildren c' = cd_hasChildren c"
    "columnCount c' = columnCount c" "rowCount c' = rowCount c" "lru_abs (children c') = lru_abs (children c)"
    "cacheSize (children c') = cacheSize (children c)" "lru_size (children c') = lru_size (children c)"
  using assms unfolding cd_like_def by (cases c, cases c', simp)+

lemma sim_refl [simp]: "sim st st"
  by (simp add: sim_def option.rel_refl)

lemma sim_trans:
  assumes "sim a b" and "sim b c"
  shows "sim a c"
proof -
  have "rel_option cd_like (hp a x) (hp c x)" for x
  proof -
    have "rel_option cd_like (hp a x) (hp b x)" "rel_option cd_like (hp b x) (hp c x)"
      using assms by (simp_all add: sim_def)
    then show ?thesis by (cases "hp a x"; cases "hp b x"; cases "hp c x") (auto intro: cd_like_trans)
  qed
  moreover have "c = a\<lparr>mr_heap := mr_heap c\<rparr>"
    using assms unfolding sim_def by (cases a, cases b, cases c) auto
  ultimately show ?thesis by (simp add: sim_def)
qed

lemma sim_hp: "sim st st' \<Longrightarrow> hp st a = Some cd \<Longrightarrow> \<exists>cd'. hp st' a = Some cd' \<and> cd_like cd cd'"
  unfolding sim_def by (metis option_rel_Some1)

lemma sim_hp_back: "sim st st' \<Longrightarrow> hp st' a = Some cd' \<Longrightarrow> \<exists>cd. hp st a = Some cd \<and> cd_like cd cd'"
  unfolding sim_def by (metis option_rel_Some2)

lemma sim_None: "sim st st' \<Longrightarrow> hp st' a = None \<longleftrightarrow> hp st a = None"
  using sim_hp sim_hp_back by (metis not_Some_eq)

lemma sim_rest:
  assumes "sim st st'"
  shows "activeParents st' = activeParents st" "mr_next st' = mr_next st" "mr_events st' = mr_events st"
    "initialized st' = initialized st" "requestedData st' = requestedData st" "knownRoles st' = knownRoles st"
    "propRoles st' = propRoles st" "envCacheSize st' = envCacheSize st" "headerH st' = headerH st" "headerV st' = headerV st"
    "initialAction st' = initialAction st" "initDone st' = initDone st"
  using assms unfolding sim_def by (cases st, cases st', simp)+

text \<open>The row an index names.\<close>

definition row_of :: "'v mreplica \<Rightarrow> qindex \<Rightarrow> nat option" where
  "row_of st ix =
    (case ix of
       NoIndex \<Rightarrow> Some 0
     | QIndex r c p \<Rightarrow>
        if p \<in> activeParents st then (case hp st p of None \<Rightarrow> None | Some cd \<Rightarrow> lru_abs (children cd) r) else None)"

lemma row_of_sim: "sim st st' \<Longrightarrow> row_of st' ix = row_of st ix"
proof (cases ix)
  case (QIndex r c p)
  assume s: "sim st st'"
  show ?thesis
  proof (cases "hp st p")
    case None
    then show ?thesis using sim_None[OF s, of p] sim_rest(1)[OF s] QIndex by (simp add: row_of_def)
  next
    case (Some cd)
    obtain cd' where "hp st' p = Some cd'" "cd_like cd cd'" using sim_hp[OF s Some] by blast
    then show ?thesis using Some sim_rest(1)[OF s] QIndex by (simp add: row_of_def cd_like_fields)
  qed
qed (simp add: row_of_def)

lemma row_of_live:
  assumes "tree_ok st" and "row_of st ix = Some a"
  shows "\<exists>cd. hp st a = Some cd"
proof (cases ix)
  case NoIndex
  then show ?thesis using assms tree_root[OF assms(1)] by (auto simp: row_of_def)
next
  case (QIndex r c p)
  then obtain pcd where p: "hp st p = Some pcd" "lru_abs (children pcd) r = Some a"
    using assms(2) by (auto simp: row_of_def split: if_splits option.splits)
  note n = node_okD[OF tree_node[OF assms(1) p(1)]]
  show ?thesis using n(6)[OF lru_abs_value[OF n(1) p(2)]] by blast
qed

lemma tree_kid_active: "tree_inv X st \<Longrightarrow> hp st a = Some cd \<Longrightarrow> lru_abs (children cd) r = Some n \<Longrightarrow> a \<in> activeParents st"
  using heap_okD(8)[OF tree_invD(1), of X st a cd] lru_abs_value[of "children cd" r n]
    node_okD(1)[OF tree_node, of X st a cd] by fastforce

lemma get_ok:
  assumes "tree_inv X st" and "hp st p = Some cd"
  shows "fst (lru_get r (children cd)) = lru_abs (children cd) r"
    and "tree_inv X (cd_put p (cd\<lparr>children := snd (lru_get r (children cd))\<rparr>) st)"
    and "sim st (cd_put p (cd\<lparr>children := snd (lru_get r (children cd))\<rparr>) st)"
proof -
  note n = node_okD[OF tree_node[OF assms]]
  let ?ch = "snd (lru_get r (children cd))"
  note g = lru_get_result[OF n(1), of r]
  have size: "lru_size ?ch = lru_size (children cd)"
    using g n(1) lru_wf_length[of ?ch] lru_wf_length[OF n(1)] mset_eq_length[OF lru_get_values[OF n(1), of r]]
    by (simp add: lru_size_def lru_values_def)
  show "fst (lru_get r (children cd)) = lru_abs (children cd) r" using g by simp
  show "tree_inv X (cd_put p (cd\<lparr>children := ?ch\<rparr>) st)"
  proof -
    have "kids (cd\<lparr>children := ?ch\<rparr>) = lru_values ?ch" by simp
    note ok = tree_invD(1)[OF assms(1)]
    have vals: "mset (lru_values ?ch) = mset (kids cd)" by (rule lru_get_values[OF n(1)])
    then have set: "set (lru_values ?ch) = set (kids cd)" by (metis set_mset_mset)
    let ?cd = "cd\<lparr>children := ?ch\<rparr>" and ?H' = "(hp st)(p \<mapsto> cd\<lparr>children := ?ch\<rparr>)"
    have fwd: "\<exists>c'. ?H' b = Some c' \<and> cd_parent c' = cd_parent c \<and> set (kids c') = set (kids c)" if "hp st b = Some c" for b c
      using that assms(2) set by (cases "b = p") simp_all
    have fwdp: "\<exists>c'. ?H' b = Some c' \<and> cd_parent c' = q" if "hp st b = Some c" "cd_parent c = q" for b c q
      using fwd[OF that(1)] that(2) by blast
    have bwd: "\<exists>c'. hp st b = Some c' \<and> cd_parent c' = cd_parent c \<and> set (kids c') = set (kids c)" if "?H' b = Some c" for b c
    proof (cases "b = p")
      case True
      then have "c = ?cd" using that by simp
      then show ?thesis using True assms(2) set by simp
    next
      case False
      then show ?thesis using that by simp
    qed
    have held: "held ?H' q b \<longleftrightarrow> held (hp st) q b" for q b
    proof
      assume "held ?H' q b"
      then obtain c where "?H' q = Some c" "b \<in> set (kids c)" unfolding held_def by blast
      then show "held (hp st) q b" using bwd[of q c] unfolding held_def by blast
    next
      assume "held (hp st) q b"
      then obtain c where "hp st q = Some c" "b \<in> set (kids c)" unfolding held_def by blast
      then show "held ?H' q b" using fwd[of q c] unfolding held_def by blast
    qed
    have live: "?H' b \<noteq> None \<longleftrightarrow> hp st b \<noteq> None" for b using assms(2) by auto
    have det: "detached ?H' t \<longleftrightarrow> detached (hp st) t" for t
      using live[of t] held[of _ t] unfolding detached_def held_def by blast
    have "heap_ok ?H' (mr_next st) (activeParents st) X"
    proof (rule heap_okI)
      show "b < mr_next st" if "?H' b \<noteq> None" for b using that live[of b] heap_okD(1)[OF ok, of b] by blast
      obtain c0 where c0: "hp st 0 = Some c0" "cd_parent c0 = None" using heap_okD(2)[OF ok] by blast
      show "\<exists>cd. ?H' 0 = Some cd \<and> cd_parent cd = None" by (rule fwdp[OF c0])
      show "node_ok ?H' b c" if h: "?H' b = Some c" for b c
      proof (cases "b = p")
        case True
        then have c: "c = ?cd" using h by simp
        have "distinct (lru_values ?ch)" using n(4) mset_eq_imp_distinct_iff[OF vals] by simp
        have kid: "p < x \<and> (\<exists>c. ?H' x = Some c \<and> cd_parent c = Some p)" if "x \<in> set (lru_values ?ch)" for x
        proof -
          have x: "x \<in> set (kids cd)" using that set by simp
          obtain c0 where c0: "hp st x = Some c0" "cd_parent c0 = Some p" using n(6)[OF x] by blast
          show ?thesis using n(5)[OF x] fwdp[OF c0] by blast
        qed
        have "lru_wf ?ch" "deleted ?ch = []" "lru_size ?ch \<le> cacheSize ?ch" using g n(2,3) size by simp_all
        then show ?thesis
          unfolding node_ok_def c using True kid \<open>distinct (lru_values ?ch)\<close> by simp
      next
        case False
        then have b: "hp st b = Some c" using h by simp
        have "node_ok (hp st) b c" by (rule heap_okD(3)[OF ok b])
        then show ?thesis using fwdp unfolding node_ok_def by blast
      qed
      show "\<exists>q. cd_parent c = Some q \<and> q < b \<and> (b \<notin> set X \<longrightarrow> held ?H' q b)"
        if h: "?H' b = Some c" "b \<noteq> 0" for b c
      proof -
        obtain c0 where c0: "hp st b = Some c0" "cd_parent c0 = cd_parent c" using bwd[OF h(1)] by blast
        then show ?thesis using heap_okD(4)[OF ok c0(1) h(2)] unfolding held by simp
      qed
      show "distinct X" by (rule heap_okD(5)[OF ok])
      show "detached ?H' t" if "t \<in> set X" for t using heap_okD(6)[OF ok that] det by blast
      show "?H' b \<noteq> None" if "b \<in> activeParents st" for b using heap_okD(7)[OF ok that] live by blast
      show "b \<in> activeParents st" if h: "?H' b = Some c" "kids c \<noteq> []" for b c
      proof -
        obtain c0 where c0: "hp st b = Some c0" "set (kids c0) = set (kids c)" using bwd[OF h(1)] by blast
        then show ?thesis using h(2) heap_okD(8)[OF ok c0(1)] by (metis set_empty)
      qed
    qed
    then show ?thesis
      using tree_invD(2)[OF assms(1)] by (simp add: tree_inv_def cd_put_def distinct_update update_conv')
  qed
  show "sim st (cd_put p (cd\<lparr>children := ?ch\<rparr>) st)"
  proof -
    have "rel_option cd_like (hp st b) (hp (cd_put p (cd\<lparr>children := ?ch\<rparr>) st) b)" for b
    proof (cases "b = p")
      case True
      have "cd_like cd (cd\<lparr>children := ?ch\<rparr>)" using g size by (simp add: cd_like_def)
      then show ?thesis using True assms(2) by simp
    qed (simp add: option.rel_refl)
    then show ?thesis unfolding sim_def by (simp add: cd_put_def)
  qed
qed

lemma cacheData_ok:
  assumes "tree_ok st"
  shows "\<exists>st'. cacheData ix st = Inr (row_of st ix, st') \<and> tree_ok st' \<and> sim st st'"
proof (cases ix)
  case NoIndex
  then show ?thesis using assms by (simp add: cacheData_def row_of_def)
next
  case (QIndex r c p)
  show ?thesis
  proof (cases "p \<in> activeParents st")
    case False
    then show ?thesis using assms QIndex by (simp add: cacheData_def row_of_def)
  next
    case True
    obtain cd where cd: "hp st p = Some cd" using tree_active[OF assms True] by blast
    show ?thesis
      using get_ok[OF assms cd, of r] True cd QIndex
      by (auto simp: cacheData_def row_of_def cd_at_Some Let_def case_prod_unfold)
  qed
qed

subsection \<open>Indexes and walks\<close>

lemma q_index_cases:
  assumes "tree_ok st"
  shows "\<exists>ix st'. q_index r c parent st = Inr (ix, st') \<and> tree_ok st' \<and>
    (case row_of st parent of
       None \<Rightarrow> ix = NoIndex \<and> sim st st'
     | Some a \<Rightarrow> \<exists>cd. hp st a = Some cd \<and>
        (if 0 \<le> r \<and> r < rowCount cd \<and> 0 \<le> c \<and> c < columnCount cd
         then ix = QIndex r c a \<and>
           (if a = 0 \<or> lru_abs (children cd) r \<noteq> None then sim st st'
            else \<exists>st1. sim st st1 \<and> tree_ok st1 \<and> ensureChild a r st1 = Inr st' \<and> good_step a st1 st')
         else ix = NoIndex \<and> sim st st'))"
proof -
  obtain st1 where c1: "cacheData parent st = Inr (row_of st parent, st1)" "tree_ok st1" "sim st st1"
    using cacheData_ok[OF assms] by blast
  show ?thesis
  proof (cases "row_of st parent")
    case None
    then have "q_index r c parent st = Inr (NoIndex, st1)" by (simp add: q_index_def c1(1))
    then show ?thesis using c1(2,3) None by auto
  next
    case (Some a)
    obtain cd where cd: "hp st a = Some cd" using row_of_live[OF assms Some] by blast
    obtain cd1 where cd1: "hp st1 a = Some cd1" "cd_like cd cd1" using sim_hp[OF c1(3) cd] by blast
    have st1a: "hp st1 a \<noteq> None" using cd1 by simp
    note here = cd_at_Some[OF cd1(1)] cd_like_fields(4,5)[OF cd1(2)]
    show ?thesis
    proof (cases "0 \<le> r \<and> r < rowCount cd \<and> 0 \<le> c \<and> c < columnCount cd")
      case False
      then have "q_index r c parent st = Inr (NoIndex, st1)"
        by (auto simp: q_index_def c1(1) Some here)
      then show ?thesis using False c1(2,3) Some cd by auto
    next
      case inside: True
      show ?thesis
      proof (cases "a = 0")
        case True
        then have "q_index r c parent st = Inr (QIndex r c a, st1)"
          using inside Some c1(1) here by (simp add: q_index_def)
        then show ?thesis using True inside c1(2,3) Some cd by auto
      next
        case a0: False
        obtain st2 where st2: "ensureChildren a r r st1 = Inr st2" "good_step a st1 st2"
          using ensureChildren_ok[OF c1(2) st1a] by blast
        have step: "ensureChild a r st1 = Inr st2"
          using st2(1) by (cases "ensureChild a r st1") (simp_all add: ensureChildren_def)
        have q: "q_index r c parent st = Inr (QIndex r c a, st2)"
          using inside Some a0 by (simp add: q_index_def c1(1) here st2(1))
        show ?thesis
        proof (cases "lru_abs (children cd) r")
          case None
          then show ?thesis using q Some cd inside a0 c1 step st2(2) good_stepD(1)[OF st2(2)] by auto
        next
          case (Some n)
          have "st2 = st1"
            using ensureChild_exists[OF c1(2) cd1(1), of r] Some cd_like_fields(6)[OF cd1(2)] step by simp
          then show ?thesis using q \<open>row_of st parent = Some a\<close> cd inside a0 c1 Some by auto
        qed
      qed
    qed
  qed
qed

lemma q_index_ok:
  assumes "tree_ok st"
  shows "\<exists>ix st'. q_index r c parent st = Inr (ix, st') \<and> tree_ok st'"
  using q_index_cases[OF assms, of r c parent] by blast

lemma ensure_item_ok:
  assumes "tree_ok st"
  shows "\<exists>b st'. ensure_item ix row st = Inr (b, st') \<and> tree_ok st'"
proof -
  obtain st1 where c1: "cacheData ix st = Inr (row_of st ix, st1)" "tree_ok st1" "sim st st1"
    using cacheData_ok[OF assms] by blast
  show ?thesis
  proof (cases "row_of st ix")
    case None
    then show ?thesis using c1 by (auto simp: ensure_item_def)
  next
    case (Some a)
    have "hp st1 a \<noteq> None" using row_of_live[OF assms Some] sim_None[OF c1(3)] by auto
    from ensureChildren_ok[OF c1(2) this, of row row] show ?thesis
      using c1 Some good_stepD(1) by (fastforce simp: ensure_item_def)
  qed
qed

lemma q_walk_ok:
  "tree_ok st \<Longrightarrow> \<exists>res st'. q_walk e l ix st = Inr (res, st') \<and> tree_ok st'"
proof (induction l arbitrary: ix st)
  case Nil
  then show ?case by auto
next
  case (Cons i l)
  obtain st1 where 1: "(if e then bindE (ensure_item ix (mi_row i) st) (\<lambda>(b, st1). Inr st1) else Inr st) = Inr st1"
    "tree_ok st1"
    using ensure_item_ok[OF Cons.prems, of ix "mi_row i"] Cons.prems by (cases e) fastforce+
  obtain ix' st2 where 2: "q_index (mi_row i) (mi_column i) ix st1 = Inr (ix', st2)" "tree_ok st2"
    using q_index_ok[OF 1(2)] by blast
  obtain res st' where "q_walk e l ix' st2 = Inr (res, st')" "tree_ok st'" using Cons.IH[OF 2(2)] by blast
  then show ?case by (simp only: q_walk.simps 1(1) bindE_simps 2(1) prod.case) (use 2(2) in auto)
qed

text \<open>The row at the end of a path, when all rows of the path are there.\<close>

fun row_at :: "'v mreplica \<Rightarrow> nat \<Rightarrow> index_list \<Rightarrow> nat option" where
  "row_at st a [] = Some a"
| "row_at st a (i # l) =
    (if a \<in> activeParents st
     then (case hp st a of
             None \<Rightarrow> None
           | Some cd \<Rightarrow>
              if 0 \<le> mi_row i \<and> mi_row i < rowCount cd \<and> 0 \<le> mi_column i \<and> mi_column i < columnCount cd
              then (case lru_abs (children cd) (mi_row i) of None \<Rightarrow> None | Some n \<Rightarrow> row_at st n l)
              else None)
     else None)"

lemma row_at_Cons:
  "row_at st b (i # l) = Some a \<longleftrightarrow>
    (\<exists>cd n. b \<in> activeParents st \<and> hp st b = Some cd \<and> 0 \<le> mi_row i \<and> mi_row i < rowCount cd \<and>
      0 \<le> mi_column i \<and> mi_column i < columnCount cd \<and> lru_abs (children cd) (mi_row i) = Some n \<and>
      row_at st n l = Some a)"
  by (auto split: option.splits)

declare row_at.simps(2) [simp del]

lemma row_at_append: "row_at st b (l @ l') = (case row_at st b l of None \<Rightarrow> None | Some a \<Rightarrow> row_at st a l')"
  by (induction l arbitrary: b) (auto simp: row_at.simps split: option.splits)

lemma row_at_sim: "sim st st' \<Longrightarrow> row_at st' b l = row_at st b l"
proof (induction l arbitrary: b)
  case (Cons i l)
  show ?case
  proof (cases "hp st b")
    case None
    then show ?thesis using sim_None[OF Cons.prems, of b] by (simp add: row_at.simps)
  next
    case (Some cd)
    obtain cd' where "hp st' b = Some cd'" "cd_like cd cd'" using sim_hp[OF Cons.prems Some] by blast
    then show ?thesis
      using Some Cons sim_rest(1)[OF Cons.prems] by (simp add: row_at.simps cd_like_fields split: option.split)
  qed
qed simp

lemma child_above:
  assumes "tree_inv X st" and "hp st b = Some cd" and "lru_abs (children cd) r = Some n"
  shows "b < n" and "\<exists>c. hp st n = Some c \<and> cd_parent c = Some b"
  using node_okD[OF tree_node[OF assms(1,2)]] lru_abs_value[OF _ assms(3)] by blast+

lemma row_at_above: "tree_inv X st \<Longrightarrow> row_at st b l = Some a \<Longrightarrow> b \<le> a"
proof (induction l arbitrary: b)
  case (Cons i l)
  from Cons.prems(2) obtain cd n where
    n: "hp st b = Some cd" "lru_abs (children cd) (mi_row i) = Some n" "row_at st n l = Some a"
    unfolding row_at_Cons by blast
  show ?case using child_above(1)[OF Cons.prems(1) n(1,2)] Cons.IH[OF Cons.prems(1) n(3)] by simp
qed simp

lemma row_at_live:
  "tree_inv X st \<Longrightarrow> hp st b \<noteq> None \<Longrightarrow> row_at st b l = Some a \<Longrightarrow> hp st a \<noteq> None"
proof (induction l arbitrary: b)
  case (Cons i l)
  from Cons.prems(3) obtain cd n where
    n: "hp st b = Some cd" "lru_abs (children cd) (mi_row i) = Some n" "row_at st n l = Some a"
    unfolding row_at_Cons by blast
  have "hp st n \<noteq> None" using child_above(2)[OF Cons.prems(1) n(1,2)] by auto
  then show ?case using Cons.IH[OF Cons.prems(1) _ n(3)] by blast
qed simp

lemma row_at_spares:
  "tree_inv X st \<Longrightarrow> spares a st st' \<Longrightarrow> row_at st b l = Some a \<Longrightarrow> row_at st' b l = Some a"
proof (induction l arbitrary: b)
  case (Cons i l)
  from Cons.prems(3) obtain cd n where
    n: "b \<in> activeParents st" "hp st b = Some cd" "lru_abs (children cd) (mi_row i) = Some n" "row_at st n l = Some a"
    and r: "0 \<le> mi_row i" "mi_row i < rowCount cd" "0 \<le> mi_column i" "mi_column i < columnCount cd"
    unfolding row_at_Cons by blast
  have "b < a" using child_above(1)[OF Cons.prems(1) n(2,3)] row_at_above[OF Cons.prems(1) n(4)] by simp
  then have "hp st' b = Some cd" "b \<in> activeParents st'"
    using Cons.prems(2) n(1,2) unfolding spares_def by auto
  then show ?case unfolding row_at_Cons using n r Cons.IH[OF Cons.prems(1,2) n(4)] by blast
qed simp

text \<open>Walking down rows that exist is a lookup.\<close>

lemma walk_existing:
  assumes "tree_ok st" and "row_of st res = Some b" and "row_at st b l = Some a"
  shows "\<exists>ix st'. q_walk False l res st = Inr ((ix, True), st') \<and> tree_ok st' \<and> sim st st' \<and>
    row_of st' ix = Some a \<and> (l = [] \<longrightarrow> ix = res) \<and>
    (l \<noteq> [] \<longrightarrow> (\<exists>p. ix = QIndex (mi_row (last l)) (mi_column (last l)) p \<and> row_at st b (butlast l) = Some p))"
  using assms
proof (induction l arbitrary: res b st)
  case Nil
  then show ?case by simp
next
  case (Cons i l)
  from Cons.prems(3) obtain cd n where b: "b \<in> activeParents st" "hp st b = Some cd"
    and r: "0 \<le> mi_row i" "mi_row i < rowCount cd" "0 \<le> mi_column i" "mi_column i < columnCount cd"
    and n: "lru_abs (children cd) (mi_row i) = Some n" "row_at st n l = Some a"
    unfolding row_at_Cons by blast
  let ?ix = "QIndex (mi_row i) (mi_column i) b"
  obtain st1 where st1: "q_index (mi_row i) (mi_column i) res st = Inr (?ix, st1)" "tree_ok st1" "sim st st1"
    using q_index_cases[OF Cons.prems(1), of "mi_row i" "mi_column i" res] Cons.prems(2) b r n by auto
  have row: "row_of st1 ?ix = Some n"
    unfolding row_of_sim[OF st1(3)] using b n(1) by (simp add: row_of_def)
  have "row_at st1 n l = Some a" using n(2) row_at_sim[OF st1(3)] by simp
  from Cons.IH[OF st1(2) row this] obtain ix st' where IH: "q_walk False l ?ix st1 = Inr ((ix, True), st')"
    "tree_ok st'" "sim st1 st'" "row_of st' ix = Some a" "l = [] \<longrightarrow> ix = ?ix"
    "l \<noteq> [] \<longrightarrow> (\<exists>p. ix = QIndex (mi_row (last l)) (mi_column (last l)) p \<and> row_at st1 n (butlast l) = Some p)"
    by blast
  have path: "row_at st b (i # butlast l) = row_at st n (butlast l)"
    using b r n(1) by (simp add: row_at.simps)
  have "q_walk False (i # l) res st = Inr ((ix, True), st')" using st1(1) IH(1) by simp
  moreover have "\<exists>p. ix = QIndex (mi_row (last (i # l))) (mi_column (last (i # l))) p \<and>
      row_at st b (butlast (i # l)) = Some p"
    using IH(5,6) path row_at_sim[OF st1(3)] by (cases "l = []") auto
  ultimately show ?case using IH(2,4) sim_trans[OF st1(3) IH(3)] by blast
qed

end
