(* ===== verification/ModelSafe.thy ===== *)
theory ModelSafe
  imports TreeLookup
begin

text \<open>
  Memory safety of the model replica: every operation a view calls, every handler of a signal and
  every handler of a reply keeps the tree of rows and never reads a freed row, never misuses a
  cache and never follows parents for ever. What is left are the faults the code can run into on
  input the source should not send: the fatal error of \<open>toQModelIndex\<close>, a missing row, an empty
  position and a range outside a list.
\<close>

definition benign :: "replica_fault set" where
  "benign = {NullItem, FatalIndex, EmptyList, BadRange}"

definition safe :: "replica_fault + 'a \<Rightarrow> ('a \<Rightarrow> bool) \<Rightarrow> bool" where
  "safe r P \<longleftrightarrow> (case r of Inl f \<Rightarrow> f \<in> benign | Inr x \<Rightarrow> P x)"

named_theorems safe_intro \<open>safety of the operations\<close>

lemma safe_simps [simp]:
  "safe (Inr x) P = P x" "safe (Inl NullItem) P" "safe (Inl FatalIndex) P" "safe (Inl EmptyList) P" "safe (Inl BadRange) P"
  by (simp_all add: safe_def benign_def)

lemma safe_bind: "safe r Q \<Longrightarrow> (\<And>x. Q x \<Longrightarrow> safe (f x) P) \<Longrightarrow> safe (bindE r f) P"
  by (cases r) (auto simp: safe_def)

lemma safe_bind_eq: "safe r Q \<Longrightarrow> (\<And>x. r = Inr x \<Longrightarrow> Q x \<Longrightarrow> safe (f x) P) \<Longrightarrow> safe (bindE r f) P"
  by (cases r) (auto simp: safe_def)

lemma safe_mono: "safe r Q \<Longrightarrow> (\<And>x. Q x \<Longrightarrow> P x) \<Longrightarrow> safe r P"
  by (cases r) (auto simp: safe_def)

lemma safe_Inr: "\<exists>x. r = Inr x \<and> P x \<Longrightarrow> safe r P"
  by auto

lemma safe_fold:
  assumes "P s" and "\<And>x s. x \<in> set xs \<Longrightarrow> P s \<Longrightarrow> safe (f x s) P"
  shows "safe (foldE f xs s) P"
  using assms
proof (induction xs arbitrary: s)
  case (Cons x xs)
  have "safe (bindE (f x s) (foldE f xs)) P"
    by (rule safe_bind[of _ P]) (use Cons in auto)
  then show ?case by simp
qed simp

abbreviation with_tree :: "('a \<Rightarrow> 'v mreplica \<Rightarrow> bool) \<Rightarrow> 'a \<times> 'v mreplica \<Rightarrow> bool" where
  "with_tree P \<equiv> \<lambda>(x, st). tree_ok st \<and> P x st"

subsection \<open>Lookups\<close>

lemma safe_cacheData:
  "tree_ok st \<Longrightarrow> safe (cacheData ix st) (\<lambda>(d, st'). tree_ok st' \<and> d = row_of st ix \<and> sim st st')"
  by (rule safe_Inr) (use cacheData_ok[of st ix] in auto)

lemma safe_cd_at: "hp st a = Some cd \<Longrightarrow> safe (cd_at a st) (\<lambda>c. c = cd)"
  by (simp add: cd_at_Some)

lemma safe_cd_at': "hp st a \<noteq> None \<Longrightarrow> safe (cd_at a st) (\<lambda>c. hp st a = Some c)"
  by (auto simp: cd_at_def)

lemma row_of_live': "tree_ok st \<Longrightarrow> sim st st' \<Longrightarrow> row_of st ix = Some a \<Longrightarrow> hp st' a \<noteq> None"
  using row_of_live[of st ix a] sim_None[of st st' a] by auto

lemma q_parent_ok:
  assumes "tree_ok st"
  shows "\<exists>ix'. q_parent ix st = Inr ix' \<and>
    (ix' = NoIndex \<or> (\<exists>r c p r' pp. ix = QIndex r c p \<and> ix' = QIndex r' 0 pp \<and> pp < p \<and> p \<in> activeParents st \<and> pp \<in> activeParents st))"
proof (cases ix)
  case (QIndex r c p)
  show ?thesis
  proof (cases "p = 0 \<or> p \<notin> activeParents st")
    case True
    then show ?thesis using QIndex by (auto simp: q_parent_def)
  next
    case False
    obtain cd where cd: "hp st p = Some cd" using tree_active[OF assms] False by blast
    obtain pp where pp: "cd_parent cd = Some pp" "pp < p"
      using heap_okD(4)[OF tree_invD(1)[OF assms] cd] False by auto
    show ?thesis
    proof (cases "pp \<in> activeParents st")
      case True
      then obtain pcd where "hp st pp = Some pcd" using tree_active[OF assms] by blast
      then show ?thesis using QIndex False cd pp True by (auto simp: q_parent_def cd_at_Some)
    next
      case False
      then show ?thesis using QIndex cd pp by (auto simp: q_parent_def cd_at_Some)
    qed
  qed
qed (simp add: q_parent_def)

lemma q_prepend_ok:
  assumes "tree_ok st"
  shows "(\<And>r c p. ix = QIndex r c p \<Longrightarrow> p \<in> activeParents st \<Longrightarrow> p < n) \<Longrightarrow> \<exists>l'. q_prepend (Suc n) ix l st = Inr l'"
proof (induction n arbitrary: ix l)
  case 0
  show ?case
  proof (cases ix)
    case (QIndex r c p)
    then have "q_parent ix st = Inr NoIndex" using 0 by (auto simp: q_parent_def)
    then show ?thesis using QIndex by simp
  qed simp
next
  case (Suc n)
  show ?case
  proof (cases ix)
    case (QIndex r c p)
    obtain ix' where p: "q_parent ix st = Inr ix'"
      "ix' = NoIndex \<or> (\<exists>r c p r' pp. ix = QIndex r c p \<and> ix' = QIndex r' 0 pp \<and> pp < p \<and> p \<in> activeParents st \<and> pp \<in> activeParents st)"
      using q_parent_ok[OF assms] by blast
    have "p' < n" if "ix' = QIndex r' c' p'" "p' \<in> activeParents st" for r' c' p'
    proof -
      have "p' < p \<and> p \<in> activeParents st" using p(2) that QIndex by auto
      moreover have "p < Suc n" if "p \<in> activeParents st" using Suc.prems QIndex that by blast
      ultimately show ?thesis by auto
    qed
    then obtain l' where "q_prepend (Suc n) ix' (ModelIndex r c # l) st = Inr l'"
      using Suc.IH[of ix' "ModelIndex r c # l"] by blast
    then show ?thesis using p(1) QIndex by simp
  qed simp
qed

lemma q_path_ok:
  assumes "tree_ok st"
  shows "\<exists>l. q_path ix st = Inr l"
  unfolding q_path_def
proof (rule q_prepend_ok[OF assms])
  fix r c p assume "p \<in> activeParents st"
  then have "hp st p \<noteq> None" using tree_active[OF assms] by fastforce
  then show "p < mr_next st" by (rule heap_okD(1)[OF tree_invD(1)[OF assms]])
qed

lemma safe_q_parent: "tree_ok st \<Longrightarrow> safe (q_parent ix st) (\<lambda>_. True)"
  using q_parent_ok[of st ix] by auto

lemma safe_q_path: "tree_ok st \<Longrightarrow> safe (q_path ix st) (\<lambda>_. True)"
  using q_path_ok[of st ix] by auto

lemma safe_q_index: "tree_ok st \<Longrightarrow> safe (q_index r c ix st) (\<lambda>(i, st'). tree_ok st')"
  using q_index_ok[of st r c ix] by auto

lemma safe_q_walk: "tree_ok st \<Longrightarrow> safe (q_walk e l ix st) (\<lambda>(x, st'). tree_ok st')"
  using q_walk_ok[of st e l ix] by fastforce

lemma safe_q_resolve: "tree_ok st \<Longrightarrow> safe (q_resolve l st) (\<lambda>(i, st'). tree_ok st')"
  unfolding q_resolve_def
  by (rule safe_bind[OF safe_q_walk]) (auto split: prod.splits)

lemma safe_good: "\<exists>st'. r = Inr st' \<and> good_step a st st' \<Longrightarrow> safe r (\<lambda>st'. tree_ok st' \<and> good_step a st st')"
  by (auto simp: good_step_def)

subsection \<open>Creating the row of a position\<close>

text \<open>
  A walk leaves a path of rows behind it, so the row created for a position can be found by walking
  again, and walking again changes no row.
\<close>

text \<open>What a walk from row \<open>n\<close> on leaves alone, up to the order of caches.\<close>

definition below :: "nat \<Rightarrow> 'v mreplica \<Rightarrow> 'v mreplica \<Rightarrow> bool" where
  "below n st st' \<longleftrightarrow>
    (\<forall>b < n. rel_option cd_like (hp st b) (hp st' b) \<and> (b \<in> activeParents st \<longrightarrow> b \<in> activeParents st'))"

lemma below_sim: "sim st st' \<Longrightarrow> below n st st'"
  by (simp add: below_def sim_def) (metis sim_def sim_rest(1))

lemma below_spares: "spares n st st' \<Longrightarrow> below n st st'"
  by (simp add: below_def spares_def option.rel_refl)

lemma below_mono: "below n st st' \<Longrightarrow> m \<le> n \<Longrightarrow> below m st st'"
  by (simp add: below_def)

lemma below_trans:
  assumes "below n a b" and "below n b c"
  shows "below n a c"
proof -
  have "rel_option cd_like (hp a x) (hp c x)" if "x < n" for x
  proof -
    have "rel_option cd_like (hp a x) (hp b x)" "rel_option cd_like (hp b x) (hp c x)"
      using assms that by (simp_all add: below_def)
    then show ?thesis by (cases "hp a x"; cases "hp b x"; cases "hp c x") (auto intro: cd_like_trans)
  qed
  then show ?thesis using assms by (simp add: below_def)
qed

lemma below_hp: "below n st st' \<Longrightarrow> b < n \<Longrightarrow> hp st b = Some cd \<Longrightarrow> \<exists>cd'. hp st' b = Some cd' \<and> cd_like cd cd'"
  unfolding below_def by (metis option_rel_Some1)

lemma q_index_below:
  assumes "tree_ok st" and "row_of st res = Some n" and "q_index r c res st = Inr (ix, st')"
  shows "below n st st'"
proof -
  obtain cd where cd: "hp st n = Some cd" using row_of_live[OF assms(1,2)] by blast
  have "sim st st' \<or> (\<exists>st1. sim st st1 \<and> good_step n st1 st')"
    using q_index_cases[OF assms(1), of r c res] assms(2,3) cd by (auto split: if_splits)
  then show ?thesis
    using below_sim below_trans below_spares good_stepD(3) by metis
qed

lemma walk_below:
  "tree_ok st \<Longrightarrow> row_of st res = Some n \<Longrightarrow> q_walk False l res st = Inr (x, st') \<Longrightarrow> below n st st'"
proof (induction l arbitrary: res n st)
  case Nil
  then show ?case by (auto intro: below_sim)
next
  case (Cons i l)
  obtain ix1 st1 where 1: "q_index (mi_row i) (mi_column i) res st = Inr (ix1, st1)" "tree_ok st1"
    using q_index_ok[OF Cons.prems(1)] by blast
  have b1: "below n st st1" by (rule q_index_below[OF Cons.prems(1,2) 1(1)])
  have rest: "st' = st1 \<or> (ix1 \<noteq> NoIndex \<and> q_walk False l ix1 st1 = Inr (x, st'))"
    using Cons.prems(3) 1(1) by (auto split: if_splits)
  show ?case
  proof (cases "st' = st1")
    case True
    then show ?thesis using b1 by simp
  next
    case False
    then have w: "ix1 \<noteq> NoIndex" "q_walk False l ix1 st1 = Inr (x, st')" using rest by simp_all
    show ?thesis
    proof (cases "row_of st1 ix1")
      case None
      have "sim st1 st'"
      proof (cases l)
        case Nil
        then show ?thesis using w by simp
      next
        case (Cons j l')
        then show ?thesis
          using w(2) q_index_cases[OF 1(2), of "mi_row j" "mi_column j" ix1] None by (auto simp: bindE_Inr_iff)
      qed
      then show ?thesis using b1 below_trans below_sim by blast
    next
      case (Some m)
      obtain cd where cd: "hp st n = Some cd" using row_of_live[OF Cons.prems(1,2)] by blast
      have ix1: "ix1 = QIndex (mi_row i) (mi_column i) n"
        using q_index_cases[OF Cons.prems(1), of "mi_row i" "mi_column i" res] Cons.prems(2) 1(1) w(1) cd
        by (auto split: if_splits)
      then obtain cd1 where "hp st1 n = Some cd1" "lru_abs (children cd1) (mi_row i) = Some m"
        using Some by (auto simp: row_of_def split: if_splits option.splits)
      then have "n < m" by (rule child_above(1)[OF 1(2)])
      then show ?thesis
        using b1 below_trans below_mono[OF Cons.IH[OF 1(2) Some w(2)], of n] by auto
    qed
  qed
qed

lemma walk_leaves_path:
  assumes "tree_ok st" and "row_of st res = Some b" and "q_walk False l res st = Inr ((ix, True), st')"
    and "l \<noteq> []"
  shows "\<exists>a cd. ix = QIndex (mi_row (last l)) (mi_column (last l)) a \<and> row_at st' b (butlast l) = Some a \<and>
    hp st' a = Some cd \<and> 0 \<le> mi_row (last l) \<and> mi_row (last l) < rowCount cd \<and>
    0 \<le> mi_column (last l) \<and> mi_column (last l) < columnCount cd \<and> (a \<noteq> 0 \<longrightarrow> a \<in> activeParents st')"
  using assms
proof (induction l arbitrary: res b st)
  case Nil
  then show ?case by simp
next
  case (Cons i l)
  obtain ix1 st1 where 1: "q_index (mi_row i) (mi_column i) res st = Inr (ix1, st1)" "tree_ok st1" "ix1 \<noteq> NoIndex"
    "q_walk False l ix1 st1 = Inr ((ix, True), st')"
    using Cons.prems(3) q_index_ok[OF Cons.prems(1), of "mi_row i" "mi_column i" res]
    by (auto simp: bindE_Inr_iff split: if_splits)
  obtain cd where cd: "hp st b = Some cd" using row_of_live[OF Cons.prems(1,2)] by blast
  have facts: "ix1 = QIndex (mi_row i) (mi_column i) b" "0 \<le> mi_row i" "mi_row i < rowCount cd" "0 \<le> mi_column i"
    "mi_column i < columnCount cd"
    "if b = 0 \<or> lru_abs (children cd) (mi_row i) \<noteq> None then sim st st1
     else \<exists>st2. sim st st2 \<and> tree_ok st2 \<and> ensureChild b (mi_row i) st2 = Inr st1 \<and> good_step b st2 st1"
    using q_index_cases[OF Cons.prems(1), of "mi_row i" "mi_column i" res] 1(1,3) Cons.prems(2) cd
    by (auto split: if_splits)
  obtain cd1 where cd1: "hp st1 b = Some cd1" "rowCount cd1 = rowCount cd" "columnCount cd1 = columnCount cd"
    and act: "b \<noteq> 0 \<longrightarrow> b \<in> activeParents st1"
  proof (cases "b = 0 \<or> lru_abs (children cd) (mi_row i) \<noteq> None")
    case True
    then have "sim st st1" using facts(6) by simp
    from sim_hp[OF this cd] obtain c where c: "hp st1 b = Some c" "cd_like cd c" by blast
    have "b \<in> activeParents st1" if "b \<noteq> 0"
      using that True tree_kid_active[OF Cons.prems(1) cd] sim_rest(1)[OF \<open>sim st st1\<close>] by auto
    then show thesis by (intro that[OF c(1)]) (simp_all add: cd_like_fields[OF c(2)])
  next
    case False
    then obtain st2 where s: "sim st st2" "tree_ok st2" "ensureChild b (mi_row i) st2 = Inr st1" using facts(6) by auto
    obtain cd2 where cd2: "hp st2 b = Some cd2" "cd_like cd cd2" using sim_hp[OF s(1) cd] by blast
    have "lru_abs (children cd2) (mi_row i) = None" using False cd_like_fields(6)[OF cd2(2)] by simp
    from ensureChild_new[OF s(2) cd2(1) this] s(3) obtain c' where
      c': "hp st1 b = Some (cd2\<lparr>children := c'\<rparr>)" "b \<in> activeParents st1" by auto
    show thesis by (rule that[OF c'(1)]) (simp_all add: cd_like_fields[OF cd2(2)] c'(2))
  qed
  show ?case
  proof (cases "l = []")
    case True
    then show ?thesis using 1(4) facts cd1 act by simp
  next
    case False
    have "row_of st1 ix1 \<noteq> None"
    proof
      assume none: "row_of st1 ix1 = None"
      obtain j l' where l: "l = j # l'" using False by (cases l) auto
      have "\<exists>st2. q_index (mi_row j) (mi_column j) ix1 st1 = Inr (NoIndex, st2)"
        using q_index_cases[OF 1(2), of "mi_row j" "mi_column j" ix1] none by auto
      then show False using 1(4) l by auto
    qed
    then obtain n where n: "row_of st1 ix1 = Some n" by blast
    have child: "b \<in> activeParents st1" "lru_abs (children cd1) (mi_row i) = Some n"
      using n facts(1) cd1(1) by (auto simp: row_of_def split: if_splits)
    have less: "b < n" by (rule child_above(1)[OF 1(2) cd1(1) child(2)])
    have bel: "below n st1 st'" by (rule walk_below[OF 1(2) n 1(4)])
    obtain cd' where cd': "hp st' b = Some cd'" "cd_like cd1 cd'" using below_hp[OF bel less cd1(1)] by blast
    have "b \<in> activeParents st'" using bel less child(1) by (simp add: below_def)
    then have "row_at st' b (i # l') = row_at st' n l'" for l'
      using cd' child(2) cd1(2,3) facts(2-5) by (simp add: row_at.simps cd_like_fields)
    then show ?thesis using Cons.IH[OF 1(2) n 1(4) False] False by simp
  qed
qed

lemma lru_find_abs:
  assumes "lru_wf c" and "v \<in> set (lru_values c)"
  shows "lru_abs c (lru_find v c) = Some v"
proof -
  let ?P = "\<lambda>(k, i). \<exists>n \<in> set (cachedItems c). fst n = i \<and> snd (snd n) = v"
  obtain i k where ik: "(i, k, v) \<in> set (cachedItems c)" using assms(2) by (auto simp: lru_values_def)
  then have "(k, i) \<in> set (cachedItemsMap c)" using assms(1) by (force simp: lru_wf_def)
  moreover have "?P (k, i)" using bexI[OF _ ik] by simp
  ultimately have "find ?P (cachedItemsMap c) \<noteq> None" unfolding find_None_iff by blast
  then obtain k1 i1 where f: "find ?P (cachedItemsMap c) = Some (k1, i1)" by auto
  have P: "(k1, i1) \<in> set (cachedItemsMap c) \<and> ?P (k1, i1)"
    using f by (metis (mono_tags, lifting) find_Some_iff nth_mem)
  then obtain k2 where n: "(i1, k2, v) \<in> set (cachedItems c)" by auto
  obtain v1 where n1: "(i1, k1, v1) \<in> set (cachedItems c)" using P assms(1) by (auto simp: lru_wf_def)
  have "inj_on fst (set (cachedItems c))" using assms(1) by (simp add: lru_wf_def distinct_map)
  from inj_onD[OF this _ n n1] have "k1 = k2" by simp
  then show ?thesis using f n lru_abs_Some[OF assms(1), of k1 v] by (auto simp: lru_find_def)
qed

lemma parent_row:
  assumes "tree_ok st" and "hp st a = Some cd" and "a \<noteq> 0 \<longrightarrow> a \<in> activeParents st"
  shows "\<exists>ix'. q_parent (QIndex r c a) st = Inr ix' \<and> row_of st ix' = Some a"
proof (cases "a = 0")
  case True
  then show ?thesis by (simp add: q_parent_def row_of_def)
next
  case False
  obtain p where p: "cd_parent cd = Some p" "held (hp st) p a"
    using heap_okD(4)[OF tree_invD(1)[OF assms(1)] assms(2) False] by auto
  then obtain pcd where pcd: "hp st p = Some pcd" "a \<in> set (kids pcd)" by (auto simp: held_def)
  have "p \<in> activeParents st" using heap_okD(8)[OF tree_invD(1)[OF assms(1)] pcd(1)] pcd(2) by (cases "kids pcd") auto
  moreover have "lru_abs (children pcd) (lru_find a (children pcd)) = Some a"
    by (rule lru_find_abs[OF node_okD(1)[OF tree_node[OF assms(1) pcd(1)]] pcd(2)])
  ultimately show ?thesis
    using False assms p(1) pcd(1) by (auto simp: q_parent_def cd_at_Some row_of_def)
qed

lemma ensureChildren_single: "ensureChildren a r r st = ensureChild a r st"
  by (cases "ensureChild a r st") (simp_all add: ensureChildren_def)

lemma row_at_snoc:
  assumes "row_at st b l = Some a" and "a \<in> activeParents st" and "hp st a = Some cd"
    and "0 \<le> mi_row i" "mi_row i < rowCount cd" "0 \<le> mi_column i" "mi_column i < columnCount cd"
    and "lru_abs (children cd) (mi_row i) = Some n"
  shows "row_at st b (l @ [i]) = Some n"
  using assms by (simp add: row_at_append row_at.simps)

lemma safe_createCacheData:
  assumes inv: "tree_ok st"
  shows "safe (createCacheData l st) (\<lambda>(d, st'). tree_ok st' \<and>
    (case d of None \<Rightarrow> True | Some x \<Rightarrow> hp st' x \<noteq> None \<and> (l = [] \<longrightarrow> x = 0) \<and> (l \<noteq> [] \<longrightarrow> row_at st' 0 l = Some x)))"
proof -
  obtain ix ok st1 where w: "q_walk False l NoIndex st = Inr ((ix, ok), st1)" "tree_ok st1"
    using q_walk_ok[OF inv, of False l NoIndex] by auto
  show ?thesis
  proof (cases ok)
    case False
    then show ?thesis using w by (simp add: createCacheData_def)
  next
    case True
    have w: "q_walk False l NoIndex st = Inr ((ix, True), st1)" "tree_ok st1" using w True by simp_all
    have root: "row_of s NoIndex = Some 0" for s :: "'a mreplica" by (simp add: row_of_def)
    show ?thesis
    proof (cases "l = []")
      case True
      have ix: "ix = NoIndex" "st1 = st" using w(1) True by simp_all
      obtain cd where "hp st 0 = Some cd" using tree_root[OF inv] by blast
      then have "\<exists>st2. ensureChild 0 (-1) st = Inr st2 \<and> tree_ok st2 \<and> hp st2 0 \<noteq> None"
        using ensureChild_ok[OF inv, of 0 _ "-1"] by (metis option.distinct(1))
      then show ?thesis
        using w True ix by (auto simp: createCacheData_def q_parent_def cacheData_def qindex_row_def ensureChildren_single)
    next
      case False
      obtain a cd where a: "ix = QIndex (mi_row (last l)) (mi_column (last l)) a" "row_at st1 0 (butlast l) = Some a"
        "hp st1 a = Some cd" "0 \<le> mi_row (last l)" "mi_row (last l) < rowCount cd" "0 \<le> mi_column (last l)"
        "mi_column (last l) < columnCount cd" "a \<noteq> 0 \<longrightarrow> a \<in> activeParents st1"
        using walk_leaves_path[OF inv root w(1) False] by blast
      let ?r = "mi_row (last l)"
      obtain pix where pix: "q_parent ix st1 = Inr pix" "row_of st1 pix = Some a"
        using parent_row[OF w(2) a(3,8)] a(1) by blast
      obtain st2 where st2: "cacheData pix st1 = Inr (Some a, st2)" "tree_ok st2" "sim st1 st2"
        using cacheData_ok[OF w(2), of pix] pix(2) by auto
      obtain cd2 where cd2: "hp st2 a = Some cd2" "cd_like cd cd2" using sim_hp[OF st2(3) a(3)] by blast
      obtain st3 c' where st3: "ensureChild a ?r st2 = Inr st3" "tree_ok st3" "spares a st2 st3"
        "hp st3 a = Some (cd2\<lparr>children := c'\<rparr>)" using ensureChild_ok[OF st2(2) cd2(1)] by blast
      obtain st4 where st4: "cacheData ix st3 = Inr (row_of st3 ix, st4)" "tree_ok st4" "sim st3 st4"
        using cacheData_ok[OF st3(2)] by blast
      have eq: "createCacheData l st = Inr (row_of st3 ix, st4)"
        using w(1) pix(1) st2(1) st3(1) st4(1) a(1)
        by (simp add: createCacheData_def qindex_row_def ensureChildren_single)
      have "row_at st4 0 l = Some x \<and> hp st4 x \<noteq> None" if x: "row_of st3 ix = Some x" for x
      proof -
        have act: "a \<in> activeParents st3" "lru_abs c' ?r = Some x"
          using x a(1) st3(4) by (auto simp: row_of_def split: if_splits)
        have "row_at st2 0 (butlast l) = Some a" using a(2) row_at_sim[OF st2(3)] by simp
        then have "row_at st3 0 (butlast l) = Some a" by (rule row_at_spares[OF st2(2) st3(3)])
        then have "row_at st3 0 (butlast l @ [last l]) = Some x"
          by (rule row_at_snoc[OF _ act(1) st3(4)]) (use a cd_like_fields[OF cd2(2)] act(2) in simp_all)
        then have "row_at st3 0 l = Some x" using False by simp
        then show ?thesis
          using row_at_sim[OF st4(3)] row_of_live'[OF st3(2) st4(3) x] by simp
      qed
      then show ?thesis using eq st4(2) False by (auto split: option.split)
    qed
  qed
qed

end
