(* ===== verification/ModelOps.thy ===== *)
theory ModelOps
  imports ModelSafe
begin

text \<open>
  Every handler of a model replica is safe, and so is every sequence of what can happen to one.
\<close>

abbreviation tree_st :: "'a \<times> 'v mreplica \<Rightarrow> bool" where
  "tree_st \<equiv> \<lambda>(x, st). tree_ok st"

lemma tree_ok_frame:
  assumes "mr_heap st' = mr_heap st" "mr_next st' = mr_next st" "activeParents st' = activeParents st"
  shows "tree_inv X st' = tree_inv X st"
  using assms by (simp add: tree_inv_def)

lemma tree_ok_updates [simp]:
  "tree_inv X (mr_emit e st) = tree_inv X st"
  "tree_inv X (st\<lparr>requestedData := rd\<rparr>) = tree_inv X st"
  "tree_inv X (st\<lparr>requestedHeaderData := rh\<rparr>) = tree_inv X st"
  "tree_inv X (st\<lparr>pendingRequests := pr\<rparr>) = tree_inv X st"
  "tree_inv X (st\<lparr>initDone := b\<rparr>) = tree_inv X st"
  "tree_inv X (st\<lparr>knownRoles := ks\<rparr>) = tree_inv X st"
  "tree_inv X (st\<lparr>headerH := hh\<rparr>) = tree_inv X st"
  "tree_inv X (st\<lparr>headerV := hv\<rparr>) = tree_inv X st"
  "tree_inv X (drop_request w st) = tree_inv X st"
  "tree_inv X (snd (add_request wt st)) = tree_inv X st"
  "tree_inv X (set_header orient hd1 st) = tree_inv X st"
  by (simp_all add: tree_inv_def mr_emit_def drop_request_def add_request_def set_header_def split: orientation.split)

lemma hp_updates [simp]:
  "mr_heap (mr_emit e st) = mr_heap st"
  "activeParents (mr_emit e st) = activeParents st"
  by (simp_all add: mr_emit_def)

lemma safe_update:
  assumes "tree_ok st" and "hp st a \<noteq> None" and "\<And>c. cd_parent (f c) = cd_parent c" and "\<And>c. children (f c) = children c"
  shows "safe (cd_update a f st) (\<lambda>st'. tree_ok st' \<and> good_step a st st')"
  by (rule safe_good[OF update_good[OF assms]])

subsection \<open>What a view calls\<close>

lemma safe_lookup:
  assumes "tree_ok st"
  shows "safe (cacheData ix st) (\<lambda>(d, st'). tree_ok st' \<and> sim st st' \<and> d = row_of st ix \<and>
    (\<forall>a. d = Some a \<longrightarrow> hp st' a \<noteq> None))"
  by (rule safe_mono[OF safe_cacheData[OF assms]]) (use row_of_live'[OF assms] in auto)

lemma safe_cacheEntry: "tree_ok st \<Longrightarrow> safe (cacheEntry ix st) tree_st"
  unfolding cacheEntry_def
  by (rule safe_bind[OF safe_lookup])
     (auto split: option.split intro!: safe_bind[OF safe_cd_at'])

lemma safe_q_hasChildren: "tree_ok st \<Longrightarrow> safe (q_hasChildren ix st) tree_st"
  unfolding q_hasChildren_def
  by (rule safe_bind[OF safe_lookup])
     (auto split: option.split intro!: safe_bind[OF safe_cd_at'])

lemma safe_q_rowCount: "tree_ok st \<Longrightarrow> safe (q_rowCount ix st) tree_st"
  unfolding q_rowCount_def
  by (rule safe_bind[OF safe_lookup])
     (auto split: option.split intro!: safe_bind[OF safe_cd_at'] safe_bind[OF safe_q_path])

lemma column_count_ok:
  "tree_ok st \<Longrightarrow> hp st a \<noteq> None \<Longrightarrow> a < n \<Longrightarrow> \<exists>k. column_count_up n a st = Inr k"
proof (induction n arbitrary: a)
  case (Suc n)
  obtain cd where cd: "hp st a = Some cd" using Suc.prems by blast
  show ?case
  proof (cases "cd_parent cd")
    case None
    then show ?thesis using cd by (simp add: cd_at_Some)
  next
    case (Some p)
    have "a \<noteq> 0" using tree_root[OF Suc.prems(1)] cd Some by (cases "a = 0") auto
    then have p: "p < a" "held (hp st) p a"
      using heap_okD(4)[OF tree_invD(1)[OF Suc.prems(1)] cd] Some by auto
    then have "hp st p \<noteq> None" by (auto simp: held_def)
    then have "\<exists>k. column_count_up n p st = Inr k" using Suc.IH[OF Suc.prems(1)] p(1) Suc.prems(3) by simp
    then show ?thesis using cd Some by (simp add: cd_at_Some)
  qed
qed simp

lemma safe_column_count:
  assumes "tree_ok st" and "hp st a \<noteq> None"
  shows "safe (column_count_up (Suc (mr_next st)) a st) (\<lambda>_. True)"
proof -
  have "a < Suc (mr_next st)" using heap_okD(1)[OF tree_invD(1)[OF assms(1)] assms(2)] by simp
  from column_count_ok[OF assms this] show ?thesis by auto
qed

lemma safe_q_columnCount: "tree_ok st \<Longrightarrow> safe (q_columnCount ix st) tree_st"
  unfolding q_columnCount_def
  by (auto split: option.split simp del: column_count_up.simps
      intro!: safe_bind[OF safe_lookup] safe_bind[OF safe_column_count])

lemma safe_q_flags: "tree_ok st \<Longrightarrow> safe (q_flags ix st) tree_st"
  unfolding q_flags_def by (rule safe_bind[OF safe_cacheEntry]) auto

lemma availableRoles_tree [simp]: "tree_inv X (snd (availableRoles st)) = tree_inv X st"
  by (simp add: availableRoles_def Let_def)


lemma safe_q_multiData: "tree_ok st \<Longrightarrow> safe (q_multiData ix span st) tree_st"
proof -
  assume inv: "tree_ok st"
  obtain roles st0 where r: "availableRoles st = (roles, st0)" by (cases "availableRoles st")
  then have inv0: "tree_ok st0" using inv availableRoles_tree[of "[]" st] by simp
  have row: "safe (case d of None \<Rightarrow> Inr None | Some a \<Rightarrow> bindE (cd_at a s) (\<lambda>cd. Inr (Some (cachedRowEntry cd)))) (\<lambda>_. True)"
    if "\<forall>a. d = Some a \<longrightarrow> hp s a \<noteq> None" for d and s :: "'a mreplica"
    using that by (auto split: option.split intro!: safe_bind[OF safe_cd_at'])
  show ?thesis
  proof (cases "initialized st")
    case False
    then show ?thesis using inv by (simp add: q_multiData_def)
  next
    case True
    then show ?thesis
      unfolding q_multiData_def r Let_def prod.case
      by (auto intro!: safe_bind[OF safe_lookup[OF inv0]] safe_bind[OF row] safe_bind[OF safe_q_parent]
          safe_bind[OF safe_lookup] safe_bind[OF safe_cd_at'] safe_bind[OF safe_q_path] split: option.split)
  qed
qed

lemma safe_q_data: "tree_ok st \<Longrightarrow> safe (q_data ix role st) tree_st"
  unfolding q_data_def by (auto intro!: safe_bind[OF safe_q_multiData])

lemma safe_q_hasData: "tree_ok st \<Longrightarrow> safe (q_hasData ix role st) tree_st"
  unfolding q_hasData_def
  by (auto intro!: safe_bind[OF safe_lookup] safe_bind[OF safe_cd_at'] split: option.split)

lemma safe_q_headerData: "tree_ok st \<Longrightarrow> safe (q_headerData s orient role st) tree_st"
  by (auto simp: q_headerData_def Let_def split: option.split)

lemma safe_ensureChildren:
  "tree_ok st \<Longrightarrow> hp st a \<noteq> None \<Longrightarrow> safe (ensureChildren a i j st) (\<lambda>st'. tree_ok st' \<and> good_step a st st')"
  by (rule safe_good[OF ensureChildren_ok])

lemma safe_q_setData: "tree_ok st \<Longrightarrow> safe (q_setData toInt ix v role st) tree_st"
  unfolding q_setData_def Let_def
  apply (split if_split, intro conjI impI)
   apply (rule safe_bind[OF safe_lookup], assumption)
   apply (auto split: option.split intro!: safe_bind[OF safe_ensureChildren])[1]
  apply (split if_split, intro conjI impI, simp)
  apply (rule safe_bind[OF safe_q_parent], assumption)
  apply (rule safe_bind[where Q = tree_st])
   apply (simp add: safe_q_rowCount)
  apply (auto intro!: safe_bind[OF safe_q_parent])
  apply (rule safe_bind[where Q = tree_st])
   apply (simp add: safe_q_columnCount)
  apply (auto simp: availableRoles_def Let_def intro!: safe_bind[OF safe_q_path])
  done

end
