(* ===== verification/ModelOpsSafe.thy ===== *)
theory ModelOpsSafe
  imports ModelOps
begin

text \<open>
  The handlers of signals and replies are safe, and so is every sequence of what can happen to a
  model replica.
\<close>

subsection \<open>Filling\<close>

lemma safe_fill_values: "safe (fill_values roles vs d) (\<lambda>_. True)"
  by (induction roles vs d rule: fill_values.induct) (simp_all del: fun_upd_apply)

lemma safe_fillCacheEntry: "safe (fillCacheEntry pair roles e) (\<lambda>_. True)"
  unfolding fillCacheEntry_def by (rule safe_bind[OF safe_fill_values]) simp

lemma resolve_existing:
  assumes "tree_ok st" and "l \<noteq> [] \<longrightarrow> row_at st 0 l = Some a" and "l = [] \<longrightarrow> a = 0"
  shows "\<exists>ix st'. q_resolve l st = Inr (ix, st') \<and> tree_ok st' \<and> sim st st' \<and> row_of st' ix = Some a \<and>
    (l \<noteq> [] \<longrightarrow> (\<exists>p. ix = QIndex (mi_row (last l)) (mi_column (last l)) p))"
proof -
  have "row_of st NoIndex = Some 0" by (simp add: row_of_def)
  from walk_existing[OF assms(1) this, of l a] assms(2,3) show ?thesis
    by (cases "l = []") (auto simp: q_resolve_def)
qed

lemma safe_fillRow:
  assumes "tree_ok st" and "hp st item \<noteq> None" and "ivp_index pair \<noteq> [] \<longrightarrow> row_at st 0 (ivp_index pair) = Some item"
    and "ivp_index pair = [] \<longrightarrow> item = 0"
  shows "safe (fillRow item pair roles st) (\<lambda>st'. tree_ok st' \<and> hp st' item \<noteq> None)"
proof -
  obtain ix st1 where 1: "q_resolve (ivp_index pair) st = Inr (ix, st1)" "tree_ok st1" "sim st st1"
    using resolve_existing[OF assms(1,3,4)] by blast
  obtain cd0 where cd0: "hp st1 item = Some cd0" using assms(2) sim_None[OF 1(3), of item] by auto
  let ?cd = "if qindex_column ix = 0 then cd0\<lparr>cd_hasChildren := ivp_hasChildren pair\<rparr> else cd0"
  show ?thesis
    unfolding fillRow_def 1(1) bindE_simps prod.case cd_at_Some[OF cd0] Let_def
    by (rule safe_bind[where Q = "\<lambda>_. True"])
       (auto intro!: safe_bind[OF safe_fillCacheEntry] cd_put_inv[OF 1(2) cd0])
qed

lemma safe_fill:
  "(tree_ok st \<longrightarrow> safe (fillCache roles p st) tree_ok)" "(tree_ok st \<longrightarrow> safe (fillCaches roles ps st) tree_ok)"
proof (induction roles p st and roles ps st rule: fillCache_fillCaches.induct)
  case (1 roles l d h f ch sz st)
  let ?pair = "IndexValuePair l d h f ch sz"
  have step: "safe (case item of None \<Rightarrow> Inr st1
      | Some a \<Rightarrow> bindE (fillRow a ?pair roles st1) (cd_update a (\<lambda>c. c\<lparr>rowCount := snd sz, columnCount := fst sz\<rparr>))) tree_ok"
    if "tree_ok st1" "case item of None \<Rightarrow> True | Some x \<Rightarrow> hp st1 x \<noteq> None \<and> (l = [] \<longrightarrow> x = 0) \<and>
      (l \<noteq> [] \<longrightarrow> row_at st1 0 l = Some x)" for item st1
  proof (cases item)
    case (Some a)
    then have a: "hp st1 a \<noteq> None" "ivp_index ?pair \<noteq> [] \<longrightarrow> row_at st1 0 (ivp_index ?pair) = Some a"
      "ivp_index ?pair = [] \<longrightarrow> a = 0" using that(2) by auto
    show ?thesis
      unfolding Some option.case
      by (rule safe_bind[OF safe_fillRow[OF that(1) a]], rule safe_mono[OF safe_update]) auto
  qed (simp add: that(1))
  show ?case
  proof
    assume inv: "tree_ok st"
    show "safe (fillCache roles ?pair st) tree_ok"
      unfolding fillCache.simps Let_def
    proof (rule safe_bind_eq[OF safe_createCacheData[OF inv]])
      fix x assume x: "createCacheData l st = Inr x"
        "case x of (d, st') \<Rightarrow> tree_ok st' \<and> (case d of None \<Rightarrow> True
           | Some x \<Rightarrow> hp st' x \<noteq> None \<and> (l = [] \<longrightarrow> x = 0) \<and> (l \<noteq> [] \<longrightarrow> row_at st' 0 l = Some x))"
      obtain item st1 where e: "x = (item, st1)" by (cases x)
      have "safe (bindE (case item of None \<Rightarrow> Inr st1
          | Some a \<Rightarrow> bindE (fillRow a ?pair roles st1) (cd_update a (\<lambda>c. c\<lparr>rowCount := snd sz, columnCount := fst sz\<rparr>)))
          (fillCaches roles ch)) tree_ok"
      proof (rule safe_bind_eq)
        show "safe (case item of None \<Rightarrow> Inr st1
            | Some a \<Rightarrow> bindE (fillRow a ?pair roles st1) (cd_update a (\<lambda>c. c\<lparr>rowCount := snd sz, columnCount := fst sz\<rparr>))) tree_ok"
          using step x(2) e by simp
        fix st2 assume "(case item of None \<Rightarrow> Inr st1
            | Some a \<Rightarrow> bindE (fillRow a ?pair roles st1) (cd_update a (\<lambda>c. c\<lparr>rowCount := snd sz, columnCount := fst sz\<rparr>))) = Inr st2"
          and "tree_ok st2"
        then show "safe (fillCaches roles ch st2) tree_ok" using 1[OF refl x(1) e[symmetric]] by blast
      qed
      then show "safe (case x of (item, st1) \<Rightarrow> bindE (case item of None \<Rightarrow> Inr st1
          | Some a \<Rightarrow> bindE (fillRow a ?pair roles st1) (cd_update a (\<lambda>c. c\<lparr>rowCount := snd sz, columnCount := fst sz\<rparr>)))
          (fillCaches roles ch)) tree_ok" by (simp add: e)
    qed
  qed
next
  case (2 roles st)
  then show ?case by simp
next
  case (3 roles pair pairs st)
  then show ?case by (auto intro!: safe_bind_eq[of _ tree_ok])
qed

lemmas safe_fillCaches = safe_fill(2)[rule_format]

lemma safe_fill_rows: "tree_ok st \<Longrightarrow> safe (fill_rows roles entries st) tree_ok"
  unfolding fill_rows_def
proof (rule safe_fold)
  fix pair and s :: "'a mreplica" assume s: "tree_ok s"
  show "safe (bindE (createCacheData (ivp_index pair) s) (\<lambda>(item, s1). case item of None \<Rightarrow> Inr s1
      | Some a \<Rightarrow> fillRow a pair roles s1)) tree_ok"
    by (rule safe_bind[OF safe_createCacheData[OF s]])
       (auto split: option.splits intro!: safe_mono[OF safe_fillRow])
qed

subsection \<open>Resets and sizes\<close>

lemma tree_root_live: "tree_ok st \<Longrightarrow> hp st 0 \<noteq> None"
  using tree_root by fastforce

lemma safe_rootCacheSize: "tree_ok st \<Longrightarrow> safe (rootCacheSize st) (\<lambda>_. True)"
  unfolding rootCacheSize_def by (rule safe_bind[OF safe_cd_at'[OF tree_root_live]]) simp_all

lemma add_watcher_tree: "tree_ok st \<Longrightarrow> add_request w st = (i, st') \<Longrightarrow> tree_ok st'"
  using tree_ok_updates(10)[of "[]" w st] by simp

lemma safe_doModelReset: "tree_ok st \<Longrightarrow> safe (doModelReset st) tree_st"
  unfolding doModelReset_def Let_def
  by (auto intro!: safe_bind[OF safe_rootCacheSize] intro: add_watcher_tree simp: case_prod_unfold)

lemma safe_resize: "safe (resize_header n l) (\<lambda>_. True)"
  by (simp add: resize_header_def)

lemma safe_reset_root: "tree_ok st \<Longrightarrow> safe (reset_root sz st) tree_ok"
  unfolding reset_root_def
  by (rule safe_bind[OF safe_good[OF cd_clear_ok]])
     (auto intro!: safe_mono[OF safe_update] simp: tree_root_live Let_def dest: good_stepD(2))

lemma safe_prefetch: "tree_ok st \<Longrightarrow> safe (if b then fillCaches roles ps st else Inr st) tree_ok"
  by (simp add: safe_fillCaches)

lemma safe_handleModelResetDone: "tree_ok st \<Longrightarrow> safe (handleModelResetDone w reply st) tree_ok"
  unfolding handleModelResetDone_def Let_def
  by (auto intro!: safe_bind[OF safe_reset_root] safe_bind[OF safe_resize] safe_bind[OF safe_prefetch])

lemma safe_handleInitDone: "tree_ok st \<Longrightarrow> safe (handleInitDone w reply st) tree_ok"
  unfolding handleInitDone_def by (auto intro!: safe_bind[OF safe_handleModelResetDone])

lemma safe_onModelReset: "tree_ok st \<Longrightarrow> safe (onModelReset st) tree_ok"
  unfolding onModelReset_def by (auto intro!: safe_bind[OF safe_doModelReset])

lemma safe_layout_done: "tree_ok st \<Longrightarrow> safe (layout_done w ixs hint reply st) tree_ok"
  unfolding layout_done_def
  by (rule safe_bind[OF safe_reset_root]) (auto intro!: safe_bind[OF safe_fillCaches])

end
