(* ===== verification/ModelEvents.thy ===== *)
theory ModelEvents
  imports ModelOpsSafe
begin

text \<open>
  The remaining handlers, the list of everything that can happen to a model replica, and the
  theorem that no sequence of it is a memory error.
\<close>

subsection \<open>Sizes\<close>

lemma resolve_row:
  assumes "tree_ok st" and "q_resolve l st = Inr (ix, st0)" and "row_of st0 ix = Some a"
  shows "l \<noteq> [] \<longrightarrow> row_at st0 0 l = Some a" and "l = [] \<longrightarrow> a = 0"
proof -
  have w: "q_walk False l NoIndex st = Inr ((ix, True), st0)"
    using assms(2) by (auto simp: q_resolve_def bindE_Inr_iff split: if_splits)
  show "l = [] \<longrightarrow> a = 0" using w assms(3) by (auto simp: row_of_def)
  show "l \<noteq> [] \<longrightarrow> row_at st0 0 l = Some a"
  proof
    assume l: "l \<noteq> []"
    have "row_of st NoIndex = Some 0" by (simp add: row_of_def)
    from walk_leaves_path[OF assms(1) this w l] obtain p cd where
      p: "ix = QIndex (mi_row (last l)) (mi_column (last l)) p" "row_at st0 0 (butlast l) = Some p" "hp st0 p = Some cd"
      "0 \<le> mi_row (last l)" "mi_row (last l) < rowCount cd" "0 \<le> mi_column (last l)" "mi_column (last l) < columnCount cd"
      by blast
    have "p \<in> activeParents st0" "lru_abs (children cd) (mi_row (last l)) = Some a"
      using assms(3) p(1,3) by (auto simp: row_of_def split: if_splits)
    then have "row_at st0 0 (butlast l @ [last l]) = Some a"
      using row_at_snoc[OF p(2) _ p(3)] p(4-7) by blast
    then show "row_at st0 0 l = Some a" using l by simp
  qed
qed

lemma safe_grow_columns:
  assumes "tree_ok st" and "hp st a \<noteq> None"
  shows "safe (grow_columns parent a width st) (\<lambda>s. tree_ok s \<and> hp s a \<noteq> None)"
  unfolding grow_columns_def Let_def
  by (rule safe_bind[OF safe_cd_at'[OF assms(2)]])
     (use assms in \<open>auto intro!: safe_bind[OF safe_update[OF assms]] dest!: good_stepD(2)\<close>)

lemma safe_grow_rows:
  assumes "tree_ok st" and "hp st a \<noteq> None"
  shows "safe (grow_rows parent a height st) tree_ok"
  unfolding grow_rows_def
  by (rule safe_bind[OF safe_cd_at'[OF assms(2)]])
     (use assms in \<open>auto intro!: safe_bind[OF safe_update]\<close>)

lemma safe_handleSizeDone:
  assumes inv: "tree_ok st"
  shows "safe (handleSizeDone w l reply st) tree_ok"
proof (cases "q_resolve l st")
  case (Inl f)
  then show ?thesis using safe_q_resolve[OF inv, of l] by (simp add: handleSizeDone_def safe_def)
next
  case (Inr x)
  obtain ix st0 where r: "q_resolve l st = Inr (ix, st0)" using Inr by (cases x) simp
  then have 0: "tree_ok st0" using safe_q_resolve[OF inv, of l] by simp
  obtain st1 where 1: "cacheData ix st0 = Inr (row_of st0 ix, st1)" "tree_ok st1" "sim st0 st1"
    using cacheData_ok[OF 0] by blast
  have "hp st2 a \<noteq> None" if r2: "q_resolve l st1 = Inr (parent, st2)" and a: "row_of st0 ix = Some a" for parent st2 a
  proof -
    note path = resolve_row[OF inv r a]
    have "l \<noteq> [] \<longrightarrow> row_at st1 0 l = Some a" using path(1) row_at_sim[OF 1(3)] by simp
    from resolve_existing[OF 1(2) this path(2)] r2 have s: "sim st1 st2" by auto
    show ?thesis using row_of_live'[OF 0 1(3) a] sim_None[OF s, of a] by simp
  qed
  then show ?thesis
    unfolding handleSizeDone_def Let_def r 1(1) bindE_simps prod.case
    by (auto split: option.split intro!: safe_bind_eq[OF safe_q_resolve[OF 1(2)]] safe_bind[OF safe_grow_columns]
        safe_bind[OF safe_grow_rows])
qed

subsection \<open>Signals of the source\<close>

lemma row_of_put:
  assumes "hp st a = Some cd" and "children cd' = children cd"
  shows "row_of (cd_put a cd' st) ix = row_of st ix"
  using assms by (auto simp: row_of_def split: qindex.split option.split)

lemma safe_removeIndexFromRow: "safe (removeIndexFromRow ix roles row) (\<lambda>_. True)"
  by (simp add: removeIndexFromRow_def)

text \<open>What the two loops of \<open>clearCache\<close> keep: the parent row, and the row being cleared under it.\<close>

definition clearing :: "qindex \<Rightarrow> nat \<Rightarrow> 'v mreplica \<Rightarrow> bool" where
  "clearing pix p st \<longleftrightarrow> tree_ok st \<and> row_of st pix = Some p"

definition clearing_row :: "qindex \<Rightarrow> nat \<Rightarrow> int \<Rightarrow> nat \<Rightarrow> 'v mreplica \<Rightarrow> bool" where
  "clearing_row pix p row a st \<longleftrightarrow>
    clearing pix p st \<and> (\<exists>pcd. hp st p = Some pcd \<and> lru_abs (children pcd) row = Some a)"

lemma clearing_row_sim: "clearing_row pix p row a st \<Longrightarrow> tree_ok st' \<Longrightarrow> sim st st' \<Longrightarrow> clearing_row pix p row a st'"
  unfolding clearing_row_def clearing_def
  using sim_hp[of st st' p] row_of_sim[of st st' pix] cd_like_fields(6) by metis

lemma safe_clear_cell:
  assumes "clearing_row pix p row a st"
  shows "safe (clear_cell a pix roles row column st) (clearing_row pix p row a)"
proof -
  have inv: "tree_ok st" and row: "row_of st pix = Some p" using assms by (auto simp: clearing_row_def clearing_def)
  obtain pcd where pcd: "hp st p = Some pcd" "lru_abs (children pcd) row = Some a"
    using assms by (auto simp: clearing_row_def)
  obtain ix st1 where 1: "q_index row column pix st = Inr (ix, st1)" "tree_ok st1" "sim st st1"
    using q_index_cases[OF inv, of row column pix] row pcd by (auto split: if_splits)
  have c1: "clearing_row pix p row a st1" by (rule clearing_row_sim[OF assms 1(2,3)])
  then obtain pcd1 where pcd1: "hp st1 p = Some pcd1" "lru_abs (children pcd1) row = Some a"
    by (auto simp: clearing_row_def)
  obtain cd where cd: "hp st1 a = Some cd" using child_above(2)[OF 1(2) pcd1] by blast
  have pa: "p \<noteq> a" using child_above(1)[OF 1(2) pcd1] by simp
  have "clearing_row pix p row a (cd_put a (cd\<lparr>cachedRowEntry := r\<rparr>) st1)" for r
    using c1 pcd1 pa cd_put_inv[OF 1(2) cd, of "cd\<lparr>cachedRowEntry := r\<rparr>"] row_of_put[OF cd, of "cd\<lparr>cachedRowEntry := r\<rparr>" pix]
    by (simp add: clearing_row_def clearing_def)
  then show ?thesis
    unfolding clear_cell_def 1(1) bindE_simps prod.case cd_at_Some[OF cd]
    by (auto intro!: safe_bind[OF safe_removeIndexFromRow])
qed

lemma safe_clearCache: "tree_ok st \<Longrightarrow> safe (clearCache start end1 roles st) tree_st"
proof -
  assume inv: "tree_ok st"
  have step: "safe (case d of None \<Rightarrow> Inl NullItem
      | Some p \<Rightarrow> bindE (cd_at p s') (\<lambda>pcd.
          let (v, ch) = lru_get row (children pcd); s1 = cd_put p (pcd\<lparr>children := ch\<rparr>) s'
          in case v of None \<Rightarrow> Inr s1
             | Some a \<Rightarrow> foldE (clear_cell a pix roles row) [c1..c2] s1)) (\<lambda>s. tree_ok s \<and> row_of s pix = d)"
    if h: "tree_ok s'" "row_of s' pix = d" for d s' row pix c1 c2
  proof (cases d)
    case (Some p)
    obtain pcd where pcd: "hp s' p = Some pcd" using row_of_live[OF h(1)] h(2) Some by blast
    let ?s1 = "cd_put p (pcd\<lparr>children := snd (lru_get row (children pcd))\<rparr>) s'"
    note g = get_ok[OF h(1) pcd, of row]
    have c1: "clearing pix p ?s1" using g(2) row_of_sim[OF g(3), of pix] h(2) Some by (simp add: clearing_def)
    show ?thesis
    proof (cases "lru_abs (children pcd) row")
      case None
      then show ?thesis using Some pcd g c1
        by (simp add: cd_at_Some case_prod_unfold Let_def clearing_def)
    next
      case (Some a)
      obtain cd' where "hp ?s1 p = Some cd'" "cd_like pcd cd'" using sim_hp[OF g(3) pcd] by blast
      then have "clearing_row pix p row a ?s1" using c1 Some cd_like_fields(6) unfolding clearing_row_def by metis
      then have "safe (foldE (clear_cell a pix roles row) [c1..c2] ?s1) (clearing_row pix p row a)"
        by (rule safe_fold) (rule safe_clear_cell)
      then have "safe (foldE (clear_cell a pix roles row) [c1..c2] ?s1) (\<lambda>s. tree_ok s \<and> row_of s pix = d)"
        by (rule safe_mono) (use \<open>d = Some p\<close> in \<open>auto simp: clearing_row_def clearing_def\<close>)
      then show ?thesis using \<open>d = Some p\<close> Some pcd g(1) by (simp add: cd_at_Some case_prod_unfold Let_def)
    qed
  qed simp
  have last: "safe (last_of l) (\<lambda>_. True)" for l by (simp add: last_of_def)
  have loop: "safe (foldE (\<lambda>row s'. case d of None \<Rightarrow> Inl NullItem
      | Some p \<Rightarrow> bindE (cd_at p s') (\<lambda>pcd.
          let (v, ch) = lru_get row (children pcd); s1 = cd_put p (pcd\<lparr>children := ch\<rparr>) s'
          in case v of None \<Rightarrow> Inr s1
             | Some a \<Rightarrow> foldE (clear_cell a pix roles row) [c1..c2] s1)) rows s) tree_ok"
    if "tree_ok s" "row_of s pix = d" for d s rows pix c1 c2
    by (rule safe_mono[OF safe_fold[of "\<lambda>s. tree_ok s \<and> row_of s pix = d"]]) (use that step in auto)
  show ?thesis
    unfolding clearCache_def
    by (auto intro!: safe_bind[OF safe_q_walk] inv safe_bind[OF safe_q_parent] safe_bind[OF safe_cacheData]
        safe_bind[OF last] safe_bind[OF loop] row_of_sim)
qed

lemma safe_last: "safe (last_of l) (\<lambda>_. True)"
  by (simp add: last_of_def)

lemma safe_onDataChanged: "tree_ok st \<Longrightarrow> safe (onDataChanged start end1 roles st) tree_ok"
  unfolding onDataChanged_def
  by (auto intro!: safe_bind[OF safe_clearCache] safe_bind[OF safe_q_walk] safe_bind[OF safe_q_parent]
      safe_bind[OF safe_lookup] safe_bind[OF safe_last] safe_bind[OF safe_cd_at'] simp: Let_def split: option.split)

lemma safe_good_live: "\<exists>st'. r = Inr st' \<and> good_step a st st' \<Longrightarrow> safe r (\<lambda>st'. tree_ok st' \<and> hp st' a \<noteq> None)"
  by (auto simp: good_step_def)

lemma safe_onRowsInserted: "tree_ok st \<Longrightarrow> safe (onRowsInserted parent start end1 st) tree_ok"
  unfolding onRowsInserted_def Let_def
  by (auto intro!: safe_bind[OF safe_q_walk] safe_bind[OF safe_lookup] safe_bind[OF safe_good_live[OF insertChildren_ok]]
      safe_bind[OF safe_cd_at'] safe_bind[OF safe_good_live[OF update_good]] split: option.split)

lemma parent_live:
  assumes "tree_ok st" and "hp st a = Some cd" and "cd_parent cd = Some p"
  shows "hp st p \<noteq> None"
proof -
  have "a \<noteq> 0" using tree_root[OF assms(1)] assms(2,3) by (cases "a = 0") auto
  then show ?thesis using heap_okD(4)[OF tree_invD(1)[OF assms(1)] assms(2)] assms(3) by (auto simp: held_def)
qed

lemma safe_onColumnsInserted: "tree_ok st \<Longrightarrow> safe (onColumnsInserted parent start end1 st) tree_ok"
proof -
  assume inv: "tree_ok st"
  have same: "safe (case cd_parent cd of
        Some p \<Rightarrow> if a \<noteq> 0 then bindE (cd_at p s) (\<lambda>pcd. Inr (columnCount pcd = columnCount cd)) else Inr False
      | None \<Rightarrow> Inr False) (\<lambda>_. True)" if "tree_ok s" "hp s a = Some cd" for a s and cd :: "'a cache_data"
    using parent_live[OF that] by (auto split: option.split intro!: safe_bind[OF safe_cd_at'])
  show ?thesis
    unfolding onColumnsInserted_def Let_def
    by (auto intro!: safe_bind[OF safe_q_walk[OF inv]] safe_bind[OF safe_lookup] safe_bind[OF same]
        safe_bind[OF safe_cd_at'] safe_bind[OF safe_good_live[OF update_good]] split: option.split)
qed

lemma safe_erase_range: "safe (erase_range i j l) (\<lambda>_. True)"
  by (simp add: erase_range_def)

lemma safe_onRowsRemoved: "tree_ok st \<Longrightarrow> safe (onRowsRemoved parent start end1 st) tree_ok"
proof -
  assume inv: "tree_ok st"
  have rm: "safe (case d of None \<Rightarrow> Inr s | Some a \<Rightarrow> removeChildren a start end1 s) tree_ok"
    if "tree_ok s" "\<forall>a. d = Some a \<longrightarrow> hp s a \<noteq> None" for d and s :: "'a mreplica"
    using that by (auto split: option.split intro!: safe_mono[OF safe_good[OF removeChildren_ok]])
  show ?thesis
    unfolding onRowsRemoved_def Let_def
    by (auto intro!: safe_bind[OF safe_q_walk[OF inv]] safe_bind[OF safe_lookup] safe_bind[OF rm]
        safe_bind[OF safe_erase_range])
qed

lemma safe_onRowsMoved: "tree_ok st \<Longrightarrow> safe (onRowsMoved sp sr n dp dr st) tree_ok"
  unfolding onRowsMoved_def
  by (auto intro!: safe_bind[OF safe_q_resolve] safe_bind[OF safe_q_columnCount] safe_bind[OF safe_clearCache])

lemma safe_onCurrentChanged: "tree_ok st \<Longrightarrow> safe (onCurrentChanged l st) tree_ok"
  unfolding onCurrentChanged_def by (auto intro!: safe_bind[OF safe_q_walk])

lemma safe_onReplicaCurrentChanged: "tree_ok st \<Longrightarrow> safe (onReplicaCurrentChanged ix st) tree_ok"
  unfolding onReplicaCurrentChanged_def by (auto intro!: safe_bind[OF safe_q_path])

lemma safe_resolve_each: "tree_ok st \<Longrightarrow> safe (resolve_each ps st) tree_st"
proof (induction ps arbitrary: st)
  case (Cons p ps)
  show ?case
    unfolding resolve_each.simps
    by (rule safe_bind[OF safe_q_resolve[OF Cons.prems]]) (auto intro!: safe_bind[OF Cons.IH])
qed simp

lemma safe_onLayoutChanged: "tree_ok st \<Longrightarrow> safe (onLayoutChanged ps hint st) tree_ok"
  unfolding onLayoutChanged_def
  by (auto intro!: safe_bind[OF safe_resolve_each] safe_bind[OF safe_rootCacheSize])

lemma safe_onHeaderDataChanged: "tree_ok st \<Longrightarrow> safe (onHeaderDataChanged orient i j st) tree_ok"
  by (simp add: onHeaderDataChanged_def)

subsection \<open>Queued requests and their replies\<close>

lemma send_requests_tree: "tree_ok st \<Longrightarrow> tree_ok (send_requests limit rows ds st)"
  by (induction limit rows ds st rule: send_requests.induct) simp_all

lemma safe_fetchPendingData: "tree_ok st \<Longrightarrow> safe (fetchPendingData st) tree_ok"
  unfolding fetchPendingData_def
  by (auto intro!: safe_bind[OF safe_rootCacheSize] send_requests_tree)

lemma tree_fetchPendingHeaderData: "tree_ok st \<Longrightarrow> tree_ok (fetchPendingHeaderData st)"
  by (simp add: fetchPendingHeaderData_def Let_def)

lemma safe_rows_done: "tree_ok st \<Longrightarrow> safe (rows_done w start end1 roles reply st) tree_ok"
  unfolding rows_done_def Let_def
  by (auto intro!: safe_bind[OF safe_last] safe_bind[OF safe_q_resolve] safe_bind[OF safe_lookup] safe_bind[OF safe_cd_at']
      safe_bind[OF safe_fill_rows] safe_bind[OF safe_q_index] split: option.split)

lemma safe_store_header: "tree_ok st \<Longrightarrow> safe (store_header orient i role v st) tree_ok"
  by (simp add: store_header_def Let_def)

lemma safe_store_headers: "tree_ok st \<Longrightarrow> safe (store_headers os ss rs vs st) tree_ok"
proof (induction os ss rs vs st rule: store_headers.induct)
  case (2 orient os s ss r rs v vs st)
  show ?case
    unfolding store_headers.simps by (rule safe_bind_eq[OF safe_store_header[OF 2(2)]]) (rule 2(1))
qed simp_all

lemma emit_all_tree:
  "tree_ok (fold (\<lambda>(a, b). mr_emit (SigHeaderDataChanged orient a b)) rs st) = tree_ok st"
  by (induction rs arbitrary: st) (simp_all add: case_prod_unfold)

lemma safe_header_done: "tree_ok st \<Longrightarrow> safe (header_done w os ss rs reply st) tree_ok"
  unfolding header_done_def Let_def
  by (rule safe_bind[OF safe_store_headers]) (simp_all add: emit_all_tree)

end
