(* ===== verification/ModelReplicaProps.thy ===== *)
theory ModelReplicaProps
  imports ModelEvents
begin

text \<open>
  Everything that can happen to a model replica, as one list of events: the calls of its views, the
  source's signals, the replies, and its own queued calls.
\<close>

datatype 'v happening =
    VIndex int int qindex | VParent qindex | VRowCount qindex | VColumnCount qindex | VHasChildren qindex
  | VData qindex int | VMultiData qindex "int list" | VFlags qindex | VHasData qindex int
  | VHeaderData int orientation int | VSetData qindex 'v int | VSetCurrent qindex
  | SDataChanged index_list index_list "int list" | SRowsInserted index_list int int
  | SColumnsInserted index_list int int | SRowsRemoved index_list int int
  | SRowsMoved index_list int int index_list int | SCurrentChanged index_list | SModelReset | SAvailableRoles "int list"
  | SHeaderDataChanged orientation int int | SLayoutChanged index_list int
  | RInit nat "'v model_reply" | RReset nat "'v model_reply" | RSize nat index_list "'v model_reply"
  | RRows nat index_list index_list "int list" "'v model_reply"
  | RHeader nat "orientation list" "int list" "int list" "'v model_reply"
  | RLayout nat "qindex list" int "'v model_reply"
  | QInit | QPendingData | QPendingHeaderData

definition drop_result :: "replica_fault + 'a \<times> 'v mreplica \<Rightarrow> replica_fault + 'v mreplica" where
  "drop_result r = bindE r (\<lambda>(x, st). Inr st)"

fun happen :: "('v \<Rightarrow> int option) \<Rightarrow> 'v happening \<Rightarrow> 'v mreplica \<Rightarrow> replica_fault + 'v mreplica" where
  "happen toInt (VIndex r c ix) st = drop_result (q_index r c ix st)"
| "happen toInt (VParent ix) st = bindE (q_parent ix st) (\<lambda>_. Inr st)"
| "happen toInt (VRowCount ix) st = drop_result (q_rowCount ix st)"
| "happen toInt (VColumnCount ix) st = drop_result (q_columnCount ix st)"
| "happen toInt (VHasChildren ix) st = drop_result (q_hasChildren ix st)"
| "happen toInt (VData ix role) st = drop_result (q_data ix role st)"
| "happen toInt (VMultiData ix roles) st = drop_result (q_multiData ix roles st)"
| "happen toInt (VFlags ix) st = drop_result (q_flags ix st)"
| "happen toInt (VHasData ix role) st = drop_result (q_hasData ix role st)"
| "happen toInt (VHeaderData s orient role) st = drop_result (q_headerData s orient role st)"
| "happen toInt (VSetData ix v role) st = drop_result (q_setData toInt ix v role st)"
| "happen toInt (VSetCurrent ix) st = onReplicaCurrentChanged ix st"
| "happen toInt (SDataChanged s e roles) st = onDataChanged s e roles st"
| "happen toInt (SRowsInserted p i j) st = onRowsInserted p i j st"
| "happen toInt (SColumnsInserted p i j) st = onColumnsInserted p i j st"
| "happen toInt (SRowsRemoved p i j) st = onRowsRemoved p i j st"
| "happen toInt (SRowsMoved p i n d r) st = onRowsMoved p i n d r st"
| "happen toInt (SCurrentChanged l) st = onCurrentChanged l st"
| "happen toInt SModelReset st = onModelReset st"
| "happen toInt (SAvailableRoles roles) st = Inr (onAvailableRolesChanged (st\<lparr>propRoles := roles\<rparr>))"
| "happen toInt (SHeaderDataChanged orient i j) st = onHeaderDataChanged orient i j st"
| "happen toInt (SLayoutChanged ps hint) st = onLayoutChanged ps hint st"
| "happen toInt (RInit w r) st = handleInitDone w r st"
| "happen toInt (RReset w r) st = handleModelResetDone w r st"
| "happen toInt (RSize w l r) st = handleSizeDone w l r st"
| "happen toInt (RRows w s e roles r) st = rows_done w s e roles r st"
| "happen toInt (RHeader w os ss rs r) st = header_done w os ss rs r st"
| "happen toInt (RLayout w ixs hint r) st = layout_done w ixs hint r st"
| "happen toInt QInit st = drop_result (model_init (st\<lparr>initialized := True\<rparr>))"
| "happen toInt QPendingData st = fetchPendingData st"
| "happen toInt QPendingHeaderData st = Inr (fetchPendingHeaderData st)"

lemma safe_drop: "safe r tree_st \<Longrightarrow> safe (drop_result r) tree_ok"
  unfolding drop_result_def by (rule safe_bind[of r tree_st]) auto

lemma tree_initialized [simp]:
  "tree_inv X (st\<lparr>initialized := b\<rparr>) = tree_inv X st"
  "tree_inv X (onAvailableRolesChanged (st\<lparr>propRoles := roles\<rparr>)) = tree_inv X st"
  by (simp_all add: tree_inv_def onAvailableRolesChanged_def)

lemma safe_happen: "tree_ok st \<Longrightarrow> safe (happen toInt e st) tree_ok"
  by (cases e)
     (auto intro!: safe_drop safe_q_rowCount safe_q_columnCount safe_q_hasChildren safe_q_data safe_q_multiData
        safe_q_flags safe_q_hasData safe_q_headerData safe_q_setData safe_onReplicaCurrentChanged safe_onDataChanged
        safe_onRowsInserted safe_onColumnsInserted safe_onRowsRemoved safe_onRowsMoved safe_onCurrentChanged
        safe_onModelReset safe_onLayoutChanged safe_handleInitDone safe_handleModelResetDone safe_handleSizeDone
        safe_rows_done safe_header_done safe_layout_done safe_fetchPendingData safe_onHeaderDataChanged
        tree_fetchPendingHeaderData safe_q_index safe_bind[OF safe_q_parent] safe_doModelReset
        simp: model_init_def)

lemma new_mreplica_ok: "tree_ok (new_mreplica action hint n roles)"
proof -
  have "lru_wf (lru_new n)" "lru_size (lru_new n) \<le> cacheSize (lru_new n)" by (rule lru_new_ok)+
  then show ?thesis
    by (auto simp: tree_inv_def new_mreplica_def heap_ok_def node_ok_def new_cache_data_def lru_new_def
        lru_values_def split: if_splits)
qed

subsection \<open>Destroying a replica\<close>

lemma root_only:
  assumes ok: "tree_ok st" and root: "hp st 0 = Some root" "kids root = []"
  shows "hp st a \<noteq> None \<Longrightarrow> a = 0"
proof (induction a rule: less_induct)
  case (less a)
  show ?case
  proof (rule ccontr)
    assume "a \<noteq> 0"
    then obtain p where p: "p < a" "held (hp st) p a"
      using heap_okD(4)[OF tree_invD(1)[OF ok], of a] less(2) by fastforce
    then have "p = 0" using less(1)[of p] by (auto simp: held_def)
    then show False using p(2) root by (simp add: held_def)
  qed
qed

lemma cleared_root:
  assumes ok: "tree_ok st" and root: "hp st 0 = Some root"
  shows "\<exists>st' root'. cd_clear 0 st = Inr st' \<and> tree_ok st' \<and> spares 0 st st' \<and> hp st' 0 = Some root' \<and>
    rowCount root' = 0 \<and> columnCount root' = 0 \<and> kids root' = [] \<and>
    cacheSize (children root') = cacheSize (children root) \<and> lru_abs (children root') = Map.empty"
proof -
  let ?f1 = "\<lambda>c. c\<lparr>cachedRowEntry := []\<rparr>" and ?f2 = "\<lambda>c. c\<lparr>cd_hasChildren := False, columnCount := 0, rowCount := 0\<rparr>"
  let ?st1 = "cd_put 0 (?f1 root) st"
  have u1: "cd_update 0 ?f1 st = Inr ?st1" "tree_ok ?st1" by (rule cd_update_ok[OF ok root]; simp)+
  have h1: "hp ?st1 0 = Some (?f1 root)" by simp
  let ?c = "(children (?f1 root))\<lparr>deleted := []\<rparr>"
  have wf: "lru_wf (lru_clear ?c)" "lru_size (lru_clear ?c) \<le> cacheSize (lru_clear ?c)"
    by (simp_all add: lru_wf_def lru_clear_def node_keys_def lru_size_def)
  have own: "lru_owned (lru_clear ?c) = lru_owned ?c + mset []" by (simp add: owned_clear)
  let ?r2 = "(?f1 root)\<lparr>children := (lru_clear ?c)\<lparr>deleted := []\<rparr>\<rparr>"
  obtain st2 where s2: "with_children 0 (\<lambda>c. Inr (lru_clear c)) ?st1 = Inr st2" "tree_ok st2"
    "hp st2 0 = Some ?r2" "spares 0 ?st1 st2"
    using with_children_ok[where f = "\<lambda>c. Inr (lru_clear c)" and X = "[]", OF u1(2) h1 _ refl wf own] by auto
  have u3: "cd_update 0 ?f2 st2 = Inr (cd_put 0 (?f2 ?r2) st2)" "tree_ok (cd_put 0 (?f2 ?r2) st2)"
    by (rule cd_update_ok[OF s2(2,3)]; simp)+
  have "cd_clear 0 st = Inr (cd_put 0 (?f2 ?r2) st2)"
    using u1(1) s2(1) u3(1) by (simp add: cd_clear_def)
  moreover have "spares 0 st (cd_put 0 (?f2 ?r2) st2)"
    using spares_trans[OF spares_trans[OF spares_cd_put[OF root] s2(4)] spares_cd_put[OF s2(3)]] .
  ultimately show ?thesis
    using u3(2) by (intro exI[of _ "cd_put 0 (?f2 ?r2) st2"] exI[of _ "?f2 ?r2"])
      (auto simp: lru_clear_def lru_abs_def lru_values_def)
qed


end
