(* ===== verification/ModelFetchProps.thy ===== *)
theory ModelFetchProps
  imports ModelEvents
begin

text \<open>
  What the queued requests of a model replica ask for, and which header sections it reports as
  changed.
\<close>

subsection \<open>Merging requests\<close>

definition request_ok :: "requested_data \<Rightarrow> bool" where
  "request_ok d \<longleftrightarrow> rd_start d \<noteq> [] \<and> rd_end d \<noteq> [] \<and> rd_roles d \<noteq> [] \<and>
    0 \<le> mi_row (last (rd_start d)) \<and> mi_row (last (rd_start d)) \<le> mi_row (last (rd_end d)) \<and>
    0 \<le> mi_column (last (rd_start d)) \<and> mi_column (last (rd_start d)) \<le> mi_column (last (rd_end d))"

text \<open>One request asks for at least what another does: the same parent, a larger rectangle, more roles.\<close>

definition covers :: "requested_data \<Rightarrow> requested_data \<Rightarrow> bool" where
  "covers f d \<longleftrightarrow> butlast (rd_start f) = butlast (rd_start d) \<and> set (rd_roles d) \<subseteq> set (rd_roles f) \<and>
    mi_row (last (rd_start f)) \<le> mi_row (last (rd_start d)) \<and> mi_row (last (rd_end d)) \<le> mi_row (last (rd_end f)) \<and>
    mi_column (last (rd_start f)) \<le> mi_column (last (rd_start d)) \<and>
    mi_column (last (rd_end d)) \<le> mi_column (last (rd_end f))"

definition span :: "requested_data \<Rightarrow> int" where
  "span d = mi_row (last (rd_end d)) - mi_row (last (rd_start d))"

lemma covers_refl [simp]: "covers d d"
  by (simp add: covers_def)

lemma covers_trans: "covers a b \<Longrightarrow> covers b c \<Longrightarrow> covers a c"
  by (auto simp: covers_def)

lemma merge_roles_set: "set (merge_roles cur new roles) = set roles \<union> {r \<in> set new. r \<notin> set cur}"
  by (induction cur new roles rule: merge_roles.induct) auto

lemma merge_roles_not_empty [simp]: "roles \<noteq> [] \<Longrightarrow> merge_roles cur new roles \<noteq> []"
  by (induction cur new roles rule: merge_roles.induct) auto

lemma grow_request_result:
  assumes "request_ok cur" and "request_ok data" and "butlast (rd_start cur) = butlast (rd_start data)"
  shows "case grow_request cur data of
      (pushed, Some c) \<Rightarrow> pushed = [] \<and> request_ok c \<and> covers c cur \<and> covers c data \<and> span c < 100
    | (pushed, None) \<Rightarrow> pushed = [cur]"
proof -
  define c where "c = \<lparr>rd_start = butlast (rd_start cur) @
        [ModelIndex (min (mi_row (last (rd_start cur))) (mi_row (last (rd_start data))))
          (min (mi_column (last (rd_start cur))) (mi_column (last (rd_start data))))],
      rd_end = butlast (rd_end cur) @
        [ModelIndex (max (mi_row (last (rd_end cur))) (mi_row (last (rd_end data))))
          (max (mi_column (last (rd_end cur))) (mi_column (last (rd_end data))))],
      rd_roles = merge_roles (rd_roles cur) (rd_roles data) (rd_roles cur)\<rparr>"
  have roles: "rd_roles cur \<noteq> []" using assms(1) by (simp add: request_ok_def)
  have res: "(\<exists>b. grow_request cur data = (if span c < 100 \<and> b then ([], Some c) else ([cur], None)))"
    using roles by (simp add: grow_request_def Let_def c_def span_def ModelIndex_def exI)
  have set: "set (rd_roles c) = set (rd_roles cur) \<union> set (rd_roles data)"
    by (auto simp: c_def merge_roles_set)
  have ok: "request_ok c" using assms(1,2) roles by (simp add: request_ok_def c_def ModelIndex_def min_le_iff_disj le_max_iff_disj)
  moreover have "covers c cur" using set by (simp add: covers_def c_def ModelIndex_def)
  moreover have "covers c data" using set assms(3) by (simp add: covers_def c_def ModelIndex_def)
  ultimately show ?thesis using res by (auto split: if_splits)
qed

definition good_cover :: "requested_data set \<Rightarrow> requested_data set \<Rightarrow> bool" where
  "good_cover A D \<longleftrightarrow> (\<forall>f \<in> A. request_ok f \<and> (f \<in> D \<or> span f < 100)) \<and> (\<forall>d \<in> D. \<exists>f \<in> A. covers f d)"

text \<open>One request of a cover may be exchanged for one that covers it and the next request.\<close>

lemma good_cover_exchange:
  assumes A: "good_cover A D" and d: "request_ok d"
    and keep: "A - {c} \<subseteq> B" and new: "\<forall>f \<in> B. f \<in> A \<or> f = d \<or> request_ok f \<and> span f < 100"
    and c: "\<exists>f \<in> B. covers f c" and cd: "\<exists>f \<in> B. covers f d"
  shows "good_cover B (insert d D)"
  unfolding good_cover_def
proof (intro conjI ballI)
  fix f assume "f \<in> B"
  then show "request_ok f" and "f \<in> insert d D \<or> span f < 100"
    using A d new unfolding good_cover_def by blast+
next
  fix x assume "x \<in> insert d D"
  then consider "x = d" | "x \<in> D" by blast
  then show "\<exists>f \<in> B. covers f x"
  proof cases
    case 1
    then show ?thesis using cd by simp
  next
    case 2
    then obtain f where f: "f \<in> A" "covers f x" using A unfolding good_cover_def by blast
    show ?thesis
    proof (cases "f = c")
      case True
      then show ?thesis using c f(2) covers_trans by blast
    next
      case False
      then show ?thesis using f keep by blast
    qed
  qed
qed

definition covered :: "requested_data list \<times> requested_data option \<Rightarrow> requested_data list \<Rightarrow> bool" where
  "covered acc ds \<longleftrightarrow> good_cover (set (fst acc) \<union> set_option (snd acc)) (set ds)"

lemma good_cover_ok: "good_cover A D \<Longrightarrow> f \<in> A \<Longrightarrow> request_ok f"
  by (simp add: good_cover_def)

lemma request_ok_valid: "request_ok c \<Longrightarrow> mi_row (last (rd_start c)) \<noteq> -1 \<and> mi_column (last (rd_start c)) \<noteq> -1"
  by (simp add: request_ok_def)

lemma covered_step:
  assumes acc: "covered (final, cur) ds" and d: "request_ok d"
  shows "covered (fetch_step (final, cur) d) (ds @ [d])"
proof -
  have good: "good_cover (set final \<union> set_option cur) (set ds)" using acc by (simp add: covered_def)
  define c where "c = (case cur of None \<Rightarrow> d | Some c \<Rightarrow> c)"
  have c: "request_ok c" using good_cover_ok[OF good] d by (auto simp: c_def split: option.split)
  have init: "(case cur of None \<Rightarrow> d | Some c \<Rightarrow> if mi_row (last (rd_start c)) = -1 \<or> mi_column (last (rd_start c)) = -1 then d else c) = c"
    using request_ok_valid[OF c] by (auto simp: c_def split: option.split)
  have old: "set final \<union> set_option cur - {c} \<subseteq> set final" "c = d \<or> c \<in> set final \<union> set_option cur"
    by (cases cur; auto simp: c_def)+
  have goal: "covered (final @ ps, Some x) (ds @ [d])"
    if "\<forall>f \<in> insert x (set ps). f = c \<or> f = d \<or> request_ok f \<and> span f < 100"
      "\<exists>f \<in> insert x (set ps). covers f c" "\<exists>f \<in> insert x (set ps). covers f d" for ps x
  proof -
    have "good_cover (set final \<union> insert x (set ps)) (insert d (set ds))"
    proof (rule good_cover_exchange[OF good d, where c = c])
      show "set final \<union> set_option cur - {c} \<subseteq> set final \<union> insert x (set ps)" using old(1) by blast
      show "\<forall>f \<in> set final \<union> insert x (set ps). f \<in> set final \<union> set_option cur \<or> f = d \<or> request_ok f \<and> span f < 100"
      proof
        fix f assume "f \<in> set final \<union> insert x (set ps)"
        then consider "f \<in> set final" | "f \<in> insert x (set ps)" by blast
        then show "f \<in> set final \<union> set_option cur \<or> f = d \<or> request_ok f \<and> span f < 100"
          using that(1) old(2) by cases (blast, metis)
      qed
      show "\<exists>f \<in> set final \<union> insert x (set ps). covers f c" using that(2) by blast
      show "\<exists>f \<in> set final \<union> insert x (set ps). covers f d" using that(3) by blast
    qed
    then show ?thesis by (simp add: covered_def Un_assoc)
  qed
  show ?thesis
  proof (cases "length (rd_start c) \<noteq> length (rd_start d)")
    case True
    then show ?thesis
      using goal[of d "[c]"] init by (simp add: fetch_step_def Let_def)
  next
    case False
    show ?thesis
    proof (cases "same_parents c d")
      case True
      then have "butlast (rd_start c) = butlast (rd_start d)" by (simp add: same_parents_def)
      note g = grow_request_result[OF c d this]
      obtain pushed x where gx: "grow_request c d = (pushed, x)" by (cases "grow_request c d")
      show ?thesis
        using g gx goal[of "the x" pushed] goal[of d pushed] False True init
        by (cases x) (simp_all add: fetch_step_def Let_def)
    next
      case other: False
      note g = grow_request_result[OF d d refl]
      obtain pushed x where gx: "grow_request d d = (pushed, x)" by (cases "grow_request d d")
      show ?thesis
        using g gx goal[of "the x" "c # pushed"] goal[of d "c # pushed"] False other init
        by (cases x) (simp_all add: fetch_step_def Let_def)
    qed
  qed
qed

lemma fold_covered:
  "list_all request_ok ds \<Longrightarrow> covered (fold (\<lambda>d acc. fetch_step acc d) ds ([], None)) ds"
proof (induction ds rule: rev_induct)
  case Nil
  then show ?case by (simp add: covered_def good_cover_def)
next
  case (snoc d ds)
  then show ?case
    using covered_step[of "fst (fold (\<lambda>d acc. fetch_step acc d) ds ([], None))" "snd (fold (\<lambda>d acc. fetch_step acc d) ds ([], None))" ds d]
    by simp
qed

lemma merge_requests_covered:
  assumes "list_all request_ok ds"
  shows "\<forall>d \<in> set ds. \<exists>f \<in> set (merge_requests ds). covers f d"
    and "\<forall>f \<in> set (merge_requests ds). request_ok f \<and> (f \<in> set ds \<or> span f < 100)"
proof -
  obtain final cur where f: "fold (\<lambda>d acc. fetch_step acc d) ds ([], None) = (final, cur)"
    by (cases "fold (\<lambda>d acc. fetch_step acc d) ds ([], None :: requested_data option)")
  then have m: "set (merge_requests ds) = set final \<union> set_option cur"
    by (auto simp: merge_requests_def split: option.split)
  show "\<forall>d \<in> set ds. \<exists>f \<in> set (merge_requests ds). covers f d"
    and "\<forall>f \<in> set (merge_requests ds). request_ok f \<and> (f \<in> set ds \<or> span f < 100)"
    using fold_covered[OF assms] unfolding f m by (simp_all add: covered_def good_cover_def)
qed

fun row_call :: "requested_data \<Rightarrow> 'v model_event" where
  "row_call d = CallRows (rd_start d) (rd_end d) (rd_roles d)"

lemma send_requests_events:
  "\<exists>k. mr_events (send_requests limit rows ds st) = mr_events st @ map row_call (take k ds) \<and>
     requestedData (send_requests limit rows ds st) = requestedData st \<and> (0 < k \<or> ds = [] \<or> \<not> (0 \<le> rows \<and> rows < int limit))"
proof (induction limit rows ds st rule: send_requests.induct)
  case (2 limit rows d ds st)
  show ?case
  proof (cases "0 \<le> rows \<and> rows < int limit")
    case True
    let ?st = "snd (add_request (RowWatcher (rd_start d) (rd_end d) (rd_roles d))
                    (mr_emit (CallRows (rd_start d) (rd_end d) (rd_roles d)) st))"
    obtain k where "mr_events (send_requests limit (rows + 1 + mi_row (hd (rd_end d)) - mi_row (hd (rd_start d))) ds ?st) =
        mr_events ?st @ map row_call (take k ds)"
      "requestedData (send_requests limit (rows + 1 + mi_row (hd (rd_end d)) - mi_row (hd (rd_start d))) ds ?st) = requestedData ?st"
      using 2[OF True] by blast
    then show ?thesis
      using True by (intro exI[of _ "Suc k"]) (simp add: add_request_def mr_emit_def)
  next
    case False
    then show ?thesis by (intro exI[of _ 0]) auto
  qed
qed simp

text \<open>
  C32: The queued requests for rows are merged without losing any of them: every cell and role that was
  asked for lies in a merged request below the same parent, and merging never makes a request of
  more than a hundred rows. The merged requests are then sent, the newest first and at least one of them, and
  the queue is empty.
\<close>

theorem pending_requests_covered:
  assumes "list_all request_ok (requestedData st)" and "requestedData st \<noteq> []"
    and "rootCacheSize st = Inr limit" and "0 < limit"
  shows "\<exists>st' final k. fetchPendingData st = Inr st' \<and> requestedData st' = [] \<and> 0 < k \<and>
    mr_events st' = mr_events st @ map row_call (take k (rev final)) \<and>
    (\<forall>d \<in> set (requestedData st). \<exists>f \<in> set final. covers f d) \<and>
    (\<forall>f \<in> set final. f \<in> set (requestedData st) \<or> span f < 100)"
proof -
  let ?ds = "requestedData st" and ?final = "merge_requests (requestedData st)"
  have wf: "list_all well_formed_request ?ds"
    using assms(1) by (simp add: list_all_iff request_ok_def well_formed_request_def)
  obtain d where "d \<in> set ?ds" using assms(2) by (cases ?ds) auto
  then have ne: "?final \<noteq> []" using merge_requests_covered(1)[OF assms(1)] by auto
  let ?st' = "send_requests limit 0 (rev ?final) (st\<lparr>requestedData := []\<rparr>)"
  obtain k where k: "mr_events ?st' = mr_events st @ map row_call (take k (rev ?final))" "requestedData ?st' = []" "0 < k"
    using send_requests_events[of limit 0 "rev ?final" "st\<lparr>requestedData := []\<rparr>"] ne assms(4) by auto
  have "fetchPendingData st = Inr ?st'"
    using assms(2,3) wf by (simp add: fetchPendingData_def)
  then show ?thesis
    using k merge_requests_covered[OF assms(1)] by (intro exI[of _ ?st'] exI[of _ ?final] exI[of _ k]) auto
qed

definition two_requests :: "nat mreplica" where
  "two_requests = (new_mreplica FetchRootSize [] 50 [0])
    \<lparr>requestedData := map (\<lambda>r. \<lparr>rd_start = [ModelIndex r 0], rd_end = [ModelIndex r 0], rd_roles = [r]\<rparr>) [1, 2]\<rparr>"

theorem pending_requests_covered_witness:
  "\<exists>st' final k. fetchPendingData two_requests = Inr st' \<and> requestedData st' = [] \<and> 0 < k \<and>
    mr_events st' = map row_call (take k (rev final)) \<and>
    list_all (\<lambda>d. list_ex (\<lambda>f. covers f d) final) (requestedData two_requests)"
  using pending_requests_covered[of two_requests 50]
  by (auto simp: two_requests_def new_mreplica_def request_ok_def rootCacheSize_def cd_at_def new_cache_data_def
      lru_new_def ModelIndex_def list_all_iff list_ex_iff)

subsection \<open>Header sections\<close>

lemma list_ranges_from_set:
  "fst cur \<le> snd cur \<Longrightarrow> (\<Union>(a, b) \<in> set (list_ranges_from cur xs). {a..b}) = {fst cur..snd cur} \<union> set xs"
  by (induction cur xs rule: list_ranges_from.induct) auto

text \<open>
  The ranges of header sections a reply is announced with are exactly the sections it holds, in
  whatever order they were asked for.
\<close>

theorem header_ranges_exact: "(\<Union>(a, b) \<in> set (listRanges l). {a..b}) = set l"
  by (cases l) (simp_all add: listRanges_def list_ranges_from_set)

end
