(* ===== verification/ModelBugs.thy ===== *)
theory ModelBugs
  imports ModelReplicaProps
begin

text \<open>
  Runs of a model replica in which its views end up with something the source does not have, or the
  program is stopped. Each run starts from a new replica and is a list of the events of
  \<open>ModelReplicaProps\<close>; the values in it are arbitrary.
\<close>

text \<open>What a view reads at the display role of a cell of the root, without its side effects.\<close>

definition shown :: "int \<Rightarrow> int \<Rightarrow> 'v mreplica \<Rightarrow> replica_fault + 'v option" where
  "shown r c st = bindE (q_index r c NoIndex st) (\<lambda>(ix, st1). bindE (q_data ix 0 st1) (\<lambda>(v, st2). Inr v))"

definition cell_pair :: "int \<Rightarrow> int \<Rightarrow> 'v \<Rightarrow> 'v index_value_pair" where
  "cell_pair r c v = IndexValuePair [ModelIndex r c] [v] False 0 [] (0, 0)"

definition run_model :: "'v happening list \<Rightarrow> replica_fault + 'v mreplica" where
  "run_model es = foldE (happen (\<lambda>_. None)) es (new_mreplica FetchRootSize [] 10 [0])"

text \<open>Evaluating a run whose values are variables: every test of the result has to come out the same.\<close>

lemma run_result: "(\<And>P. (case r of Inl f \<Rightarrow> False | Inr x \<Rightarrow> P x) = P y) \<Longrightarrow> r = Inr y"
  by (cases r) (auto dest: meta_spec[of _ "\<lambda>x. x = y"] meta_spec[of _ "\<lambda>_. True"])

lemma run_fails: "(\<And>P. (case r of Inl f \<Rightarrow> P f | Inr x \<Rightarrow> False) = P e) \<Longrightarrow> r = Inl e"
  by (cases r) (auto dest: meta_spec[of _ "\<lambda>x. x = e"] meta_spec[of _ "\<lambda>_. True"])

definition shown_cells :: "(int \<times> int) list \<Rightarrow> 'v mreplica \<Rightarrow> replica_fault + 'v option list" where
  "shown_cells cells st = mapE (\<lambda>(r, c). shown r c st) cells"

text \<open>
  The value of one column is shown in another: a row is inserted at the source and then its second
  column gets a value \<open>v\<close>; the reply for that column is filled in as the first entry of the row,
  which has none yet, so the views read \<open>v\<close> in the first column and nothing in the second.
\<close>

theorem misplaced_column:
  "bindE (run_model [QInit, RInit 0 (SizeReply (2, 0)), SRowsInserted [] 0 0,
       SDataChanged [ModelIndex 0 1] [ModelIndex 0 1] [0], QPendingData,
       RRows 1 [ModelIndex 0 1] [ModelIndex 0 1] [0] (RowsReply [cell_pair 0 1 v])])
     (shown_cells [(0, 0), (0, 1)]) = Inr [Some v, None]"
  by (rule run_result) code_simp

text \<open>
  A move leaves a stale row. The source's rows \<open>a\<close>, \<open>b\<close>, \<open>c\<close> become \<open>b\<close>, \<open>a\<close>, \<open>c\<close> when row 0
  moves in front of row 2, which Qt signals with the first and last moved row, 0 and 0. The
  replica takes the last row for a count, clears the rows 0 and 2 and goes on showing \<open>b\<close> in row 1.
\<close>

theorem moved_row_stale:
  "bindE (run_model [QInit, RInit 0 (SizeReply (1, 3)),
       RRows 1 [ModelIndex 0 0] [ModelIndex 2 0] [0] (RowsReply [cell_pair 0 0 a, cell_pair 1 0 b, cell_pair 2 0 c]),
       SRowsMoved [] 0 0 [] 2])
     (shown_cells [(0, 0), (1, 0), (2, 0)]) = Inr [None, Some b, None]"
  by (rule run_result) code_simp

text \<open>
  The removal of rows below another row stops the program. Three children of row 0 are known by
  their number only; when the source removes the second, the replica erases section 1 of the
  vertical header, which has one section for the one row of the root.
\<close>

theorem child_removal_faults:
  "run_model [QInit, RInit 0 (SizeReply (1, 1)),
       RRows 1 [ModelIndex 0 0] [ModelIndex 0 0] [0] (RowsReply [IndexValuePair [ModelIndex 0 0] [v] True 0 [] (0, 0)]),
       VRowCount (QIndex 0 0 0), RSize 1 [ModelIndex 0 0] (SizeReply (1, 3)),
       SRowsRemoved [ModelIndex 0 0] 1 1] = Inl BadRange"
  by (rule run_fails) code_simp

text \<open>
  A layout change below a nested row stops the program. The source announces the path of the
  affected parent, here the third child of row 0; the replica resolves every step of the path as a
  row of the root, and the root has one row.
\<close>

theorem nested_layout_fatal:
  "run_model [QInit, RInit 0 (SizeReply (1, 1)),
       RRows 1 [ModelIndex 0 0] [ModelIndex 0 0] [0] (RowsReply [IndexValuePair [ModelIndex 0 0] [v] True 0 [] (0, 0)]),
       VRowCount (QIndex 0 0 0), RSize 1 [ModelIndex 0 0] (SizeReply (1, 3)),
       SLayoutChanged [ModelIndex 0 0, ModelIndex 2 0] 0] = Inl FatalIndex"
  by (rule run_fails) code_simp

text \<open>
  A request of more than a hundred rows is sent twice: the first request of a round is merged with
  itself, and where that is refused for its size it is pushed and kept.
\<close>

theorem large_request_twice:
  "merge_requests [\<lparr>rd_start = path @ [ModelIndex r c], rd_end = path @ [ModelIndex (r + 100 + int n) c'],
       rd_roles = roles\<rparr>] =
     replicate 2 \<lparr>rd_start = path @ [ModelIndex r c], rd_end = path @ [ModelIndex (r + 100 + int n) c'],
       rd_roles = roles\<rparr>"
  by (simp add: merge_requests_def fetch_step_def Let_def grow_request_def same_parents_def ModelIndex_def
      numeral_2_eq_2)

end
