(* ===== verification/ModelPrefetch.thy ===== *)
theory ModelPrefetch
  imports ModelReplicaProps AdapterProps
begin

text \<open>
  The adapter and the replica of a model together: what a prefetching replica shows after the reply to
  its cache request. The requests of a flat table come row by row; a row of the replica exists once
  its first cell has been filled in, and as the budget of the request is the size of the root's
  cache, none is evicted.
\<close>

subsection \<open>The rows of the root\<close>

definition row_entries :: "'v mreplica \<Rightarrow> int \<Rightarrow> 'v cache_entry list option" where
  "row_entries st r =
    Option.bind (hp st 0) (\<lambda>root. Option.bind (lru_abs (children root) r) (\<lambda>a.
      map_option cachedRowEntry (hp st a)))"

lemma row_entries_sim:
  assumes "sim st st'"
  shows "row_entries st' r = row_entries st r"
proof -
  have e: "map_option cachedRowEntry (hp st' a) = map_option cachedRowEntry (hp st a)" for a
    using sim_hp[OF assms, of a] sim_None[OF assms, of a] by (cases "hp st a") (auto simp: cd_like_fields)
  show ?thesis
  proof (cases "hp st 0")
    case None
    then show ?thesis using sim_None[OF assms, of 0] by (simp add: row_entries_def)
  next
    case (Some root)
    obtain root' where "hp st' 0 = Some root'" "cd_like root root'" using sim_hp[OF assms Some] by blast
    then show ?thesis using Some e by (simp add: row_entries_def cd_like_fields)
  qed
qed

lemma lru_abs_inj:
  assumes "node_ok H a cd" and "lru_abs (children cd) r = Some n" and "lru_abs (children cd) s = Some n"
  shows "r = s"
proof -
  note n = node_okD[OF assms(1)]
  obtain i j where ij: "(i, r, n) \<in> set (cachedItems (children cd))" "(j, s, n) \<in> set (cachedItems (children cd))"
    using assms(2,3) unfolding lru_abs_Some[OF n(1)] by blast
  have "inj_on (\<lambda>(i, k, v). v) (set (cachedItems (children cd)))"
    using n(4) by (simp add: lru_values_def distinct_map)
  from inj_onD[OF this _ ij] have "(i, r, n) = (j, s, n)" by simp
  then show ?thesis by simp
qed

lemma lru_size_card:
  assumes "lru_wf c"
  shows "lru_size c = card (dom (lru_abs c))"
proof -
  have d: "distinct (node_keys c)" using assms by (simp add: lru_wf_def)
  have "dom (lru_abs c) = set (node_keys c)"
    using lru_abs_Some[OF assms] by (force simp: node_keys_def dom_def image_iff)
  then show ?thesis
    using d distinct_card[OF d] lru_wf_length[OF assms] by (simp add: lru_size_def node_keys_def)
qed

lemma row_exists_iff:
  assumes "tree_ok st" and "hp st 0 = Some root"
  shows "row_entries st r = None \<longleftrightarrow> lru_abs (children root) r = None"
proof (cases "lru_abs (children root) r")
  case (Some a)
  note n = node_okD[OF tree_node[OF assms]]
  obtain c where "hp st a = Some c" using n(6)[OF lru_abs_value[OF n(1) Some]] by blast
  then show ?thesis using assms Some by (simp add: row_entries_def)
qed (use assms in \<open>simp add: row_entries_def\<close>)

lemma sim_spares: "sim st st' \<Longrightarrow> spares 0 st st'"
  unfolding sim_def spares_def by (cases st, cases st') auto

text \<open>Making sure that a row of the root exists while there is room.\<close>

lemma ensure_row:
  assumes ok: "tree_ok st" and root: "hp st 0 = Some root"
    and room: "row_entries st r = None \<longrightarrow> lru_size (children root) < cacheSize (children root)"
  shows "\<exists>st' root'. ensureChildren 0 r r st = Inr st' \<and> tree_ok st' \<and> spares 0 st st' \<and> hp st' 0 = Some root' \<and>
    rowCount root' = rowCount root \<and> columnCount root' = columnCount root \<and>
    cacheSize (children root') = cacheSize (children root) \<and> dom (lru_abs (children root')) = insert r (dom (lru_abs (children root))) \<and>
    row_entries st' = (row_entries st)(r \<mapsto> (case row_entries st r of None \<Rightarrow> [] | Some es \<Rightarrow> es))"
proof (cases "row_entries st r")
  case (Some es)
  then have "lru_abs (children root) r \<noteq> None" using row_exists_iff[OF ok root] by (metis option.distinct(1))
  then have "ensureChildren 0 r r st = Inr st" "r \<in> dom (lru_abs (children root))"
    using ensureChild_exists[OF ok root] by (simp_all add: ensureChildren_def domIff)
  then show ?thesis
    using ok root Some by (intro exI[of _ st] exI[of _ root]) (auto simp: fun_eq_iff)
next
  case None
  then have new: "lru_abs (children root) r = None" using row_exists_iff[OF ok root] by blast
  let ?n = "mr_next st"
  have n: "hp st ?n = None" "0 < ?n" using alloc_ok[OF ok, of 0] root by auto
  obtain st' c' where s: "ensureChild 0 r st = Inr st'" "tree_ok st'" "spares 0 st st'" "cacheSize c' = cacheSize (children root)"
    "lru_abs c' = (lru_abs (children root))(r \<mapsto> ?n)"
    "hp st' = (hp st)(?n \<mapsto> new_cache_data (envCacheSize st) (Some 0), 0 \<mapsto> root\<lparr>children := c'\<rparr>)"
    using ensureChild_new[OF ok root new] room None by blast
  have "row_entries st' x = ((row_entries st)(r \<mapsto> [])) x" for x
  proof (cases "x = r")
    case True
    then show ?thesis using n by (simp add: row_entries_def s(5,6) new_cache_data_def)
  next
    case x: False
    show ?thesis
    proof (cases "lru_abs (children root) x")
      case (Some a)
      note k = node_okD[OF tree_node[OF ok root]]
      have "a \<noteq> ?n" "a \<noteq> 0" using k(5,6)[OF lru_abs_value[OF k(1) Some]] n by auto
      then show ?thesis using x Some root by (simp add: row_entries_def s(5,6))
    qed (use x root in \<open>simp add: row_entries_def s(5,6)\<close>)
  qed
  then show ?thesis
    using s None by (intro exI[of _ st'] exI[of _ "root\<lparr>children := c'\<rparr>"]) (auto simp: ensureChildren_def fun_eq_iff)
qed

subsection \<open>One cell of a flat table\<close>

lemma root_cell:
  assumes "hp st 0 = Some root" and "0 \<le> r" "r < rowCount root" "0 \<le> c" "c < columnCount root"
  shows "q_walk False [ModelIndex r c] NoIndex st = Inr ((QIndex r c 0, True), st)"
    and "q_resolve [ModelIndex r c] st = Inr (QIndex r c 0, st)"
  using assms by (simp_all add: q_resolve_def q_index_def cacheData_def cd_at_Some ModelIndex_def)

lemma fill_values_upds:
  "length vs \<le> length roles \<Longrightarrow> fill_values roles vs d = Inr (d(roles [\<mapsto>] vs))"
  by (induction roles vs d rule: fill_values.induct) auto

definition filled_entry :: "int list \<Rightarrow> 'v list \<Rightarrow> int32 \<Rightarrow> 'v cache_entry" where
  "filled_entry roles vs fl = \<lparr>ce_data = Map.empty(roles [\<mapsto>] vs), ce_flags = fl\<rparr>"

lemma tree_row_live:
  assumes "tree_ok st" and "hp st 0 = Some root" and "lru_abs (children root) r = Some a"
  shows "\<exists>cd. hp st a = Some cd" and "a \<noteq> 0" and "0 \<in> activeParents st"
proof -
  note n = node_okD[OF tree_node[OF assms(1,2)]]
  show "\<exists>cd. hp st a = Some cd" and "a \<noteq> 0"
    using n(5,6)[OF lru_abs_value[OF n(1) assms(3)]] by auto
  show "0 \<in> activeParents st" by (rule tree_kid_active[OF assms])
qed

text \<open>Changing what one row of the root holds.\<close>

lemma put_row:
  assumes ok: "tree_ok st" and root: "hp st 0 = Some root" and row: "lru_abs (children root) r = Some a"
    and a: "hp st a = Some cd" and cd': "cd_parent cd' = cd_parent cd" "children cd' = children cd"
  shows "tree_ok (cd_put a cd' st)" and "hp (cd_put a cd' st) 0 = Some root"
    and "row_entries (cd_put a cd' st) = (row_entries st)(r \<mapsto> cachedRowEntry cd')"
proof -
  show "tree_ok (cd_put a cd' st)" by (rule cd_put_inv[OF ok a cd'])
  have a0: "a \<noteq> 0" by (rule tree_row_live[OF ok root row])
  then show "hp (cd_put a cd' st) 0 = Some root" using root by simp
  have "row_entries (cd_put a cd' st) x = ((row_entries st)(r \<mapsto> cachedRowEntry cd')) x" for x
  proof (cases "x = r")
    case False
    then have "lru_abs (children root) x \<noteq> Some a"
      using lru_abs_inj[OF tree_node[OF ok root] _ row] by blast
    then show ?thesis using False root a0
      by (cases "lru_abs (children root) x") (auto simp: row_entries_def)
  qed (use a0 root row in \<open>simp add: row_entries_def\<close>)
  then show "row_entries (cd_put a cd' st) = (row_entries st)(r \<mapsto> cachedRowEntry cd')" by (rule ext)
qed

lemma fill_flat_cell:
  assumes ok: "tree_ok st" and root: "hp st 0 = Some root"
    and rc: "0 \<le> r" "r < rowCount root" "0 \<le> c" "c < columnCount root"
    and room: "row_entries st r = None \<longrightarrow> lru_size (children root) < cacheSize (children root)"
    and es: "(case row_entries st r of None \<Rightarrow> [] | Some es \<Rightarrow> es) = es" "int (length es) = c"
    and vs: "length vs \<le> length roles"
  shows "\<exists>st' root'. fillCache roles (IndexValuePair [ModelIndex r c] vs hasCh fl [] sz) st = Inr st' \<and>
    tree_ok st' \<and> spares 0 st st' \<and> hp st' 0 = Some root' \<and> rowCount root' = rowCount root \<and> columnCount root' = columnCount root \<and>
    cacheSize (children root') = cacheSize (children root) \<and>
    dom (lru_abs (children root')) = insert r (dom (lru_abs (children root))) \<and>
    row_entries st' = (row_entries st)(r \<mapsto> es @ [filled_entry roles vs fl])"
proof -
  let ?pair = "IndexValuePair [ModelIndex r c] vs hasCh fl [] sz"
  obtain st1 root1 where s1: "ensureChildren 0 r r st = Inr st1" "tree_ok st1" "hp st1 0 = Some root1"
    "rowCount root1 = rowCount root" "columnCount root1 = columnCount root" "cacheSize (children root1) = cacheSize (children root)"
    "dom (lru_abs (children root1)) = insert r (dom (lru_abs (children root)))"
    "row_entries st1 = (row_entries st)(r \<mapsto> es)" "spares 0 st st1"
    using ensure_row[OF ok root room] unfolding es(1) by blast
  obtain a where a: "lru_abs (children root1) r = Some a" using s1(7) by blast
  have "row_of st1 (QIndex r c 0) = Some a"
    using a tree_row_live(3)[OF s1(2,3) a] s1(3) by (simp add: row_of_def)
  then obtain st2 where s2: "cacheData (QIndex r c 0) st1 = Inr (Some a, st2)" "tree_ok st2" "sim st1 st2"
    using cacheData_ok[OF s1(2), of "QIndex r c 0"] by metis
  obtain root2 where r2: "hp st2 0 = Some root2" "cd_like root1 root2" using sim_hp[OF s2(3) s1(3)] by blast
  note like = cd_like_fields[OF r2(2)]
  have a2: "lru_abs (children root2) r = Some a" using a like by simp
  obtain cd where cd: "hp st2 a = Some cd" using tree_row_live(1)[OF s2(2) r2(1) a2] by blast
  have "row_entries st2 r = Some es" using row_entries_sim[OF s2(3)] s1(8) by simp
  then have row: "cachedRowEntry cd = es" using r2(1) a2 cd by (simp add: row_entries_def)
  have create: "createCacheData [ModelIndex r c] st = Inr (Some a, st2)"
    using rc root s1(1) s2(1) by (simp add: createCacheData_def root_cell[OF root rc] q_parent_def cacheData_def[of NoIndex] qindex_row_def del: q_walk.simps)
  define cd1 where "cd1 = (if c = 0 then cd\<lparr>cd_hasChildren := hasCh\<rparr> else cd)\<lparr>cachedRowEntry := es @ [filled_entry roles vs fl]\<rparr>"
  have rc2: "0 \<le> r" "r < rowCount root2" "0 \<le> c" "c < columnCount root2" using rc s1(4,5) like by auto
  have row_done: "fillRow a ?pair roles st2 = Inr (cd_put a cd1 st2)"
    using row fill_values_upds[OF vs, of "\<lambda>_. None"] unfolding es(2)[symmetric]
    by (simp add: fillRow_def root_cell(2)[OF r2(1) rc2[unfolded es(2)[symmetric]]] cd_at_Some[OF cd] fillCacheEntry_def new_entry_def
        filled_entry_def cd1_def es(2)[symmetric] qindex_column_def Let_def)
  have cd1: "cd_parent cd1 = cd_parent cd" "children cd1 = children cd" "cachedRowEntry cd1 = es @ [filled_entry roles vs fl]"
    by (simp_all add: cd1_def)
  note put1 = put_row[OF s2(2) r2(1) a2 cd cd1(1,2)]
  let ?st3 = "cd_put a cd1 st2"
  define cd2 where "cd2 = cd1\<lparr>rowCount := snd sz, columnCount := fst sz\<rparr>"
  have at3: "hp ?st3 a = Some cd1" by simp
  have cd2: "cd_parent cd2 = cd_parent cd1" "children cd2 = children cd1" "cachedRowEntry cd2 = es @ [filled_entry roles vs fl]"
    using cd1(3) by (simp_all add: cd2_def)
  note put2 = put_row[OF put1(1,2) a2 at3 cd2(1,2)]
  have "fillCache roles ?pair st = Inr (cd_put a cd2 ?st3)"
    using cd_at_Some[OF at3] by (simp add: create row_done cd_update_def cd2_def Let_def)
  moreover have "row_entries (cd_put a cd2 ?st3) = (row_entries st)(r \<mapsto> es @ [filled_entry roles vs fl])"
    unfolding put2(3) put1(3) cd2(3) using row_entries_sim[OF s2(3)] s1(8) by (auto simp: fun_eq_iff)
  moreover have "spares 0 st (cd_put a cd2 ?st3)"
    using spares_trans[OF spares_trans[OF spares_trans[OF s1(9) sim_spares[OF s2(3)]]]] spares_cd_put_below[of 0 a]
      tree_row_live(2)[OF s2(2) r2(1) a2] by blast
  ultimately show ?thesis
    using put2(1,2) s1(4-7) like by (intro exI[of _ "cd_put a cd2 ?st3"] exI[of _ root2]) auto
qed

subsection \<open>The cells of a table, row by row\<close>

text \<open>Every cell comes after the cells to its left in the same row, and no other cell of its row.\<close>

definition row_major :: "(int \<times> int) list \<Rightarrow> bool" where
  "row_major cells \<longleftrightarrow>
    (\<forall>k < length cells. int (length (filter (\<lambda>x. fst x = fst (cells ! k)) (take k cells))) = snd (cells ! k))"

definition row_of_cells :: "(int \<times> int \<Rightarrow> 'a) \<Rightarrow> (int \<times> int) list \<Rightarrow> int \<Rightarrow> 'a list option" where
  "row_of_cells f ps r =
    (let es = map f (filter (\<lambda>x. fst x = r) ps) in if es = [] then None else Some es)"

lemma row_of_cells_snoc:
  "row_of_cells f (ps @ [x]) =
    (row_of_cells f ps)(fst x \<mapsto> (case row_of_cells f ps (fst x) of None \<Rightarrow> [] | Some es \<Rightarrow> es) @ [f x])"
  by (rule ext) (auto simp: row_of_cells_def Let_def)

lemma row_of_cells_list:
  "(case row_of_cells f ps r of None \<Rightarrow> [] | Some es \<Rightarrow> es) = map f (filter (\<lambda>x. fst x = r) ps)"
  by (simp add: row_of_cells_def Let_def)

definition table_inv :: "'v mreplica \<Rightarrow> int \<Rightarrow> int \<Rightarrow> nat \<Rightarrow> (int \<times> int \<Rightarrow> 'v cache_entry) \<Rightarrow> (int \<times> int) list \<Rightarrow> 'v mreplica \<Rightarrow> bool" where
  "table_inv st0 R C n f ps st \<longleftrightarrow> tree_ok st \<and> spares 0 st0 st \<and>
    (\<exists>root. hp st 0 = Some root \<and> rowCount root = R \<and> columnCount root = C \<and> cacheSize (children root) = n \<and>
      dom (lru_abs (children root)) = fst ` set ps) \<and>
    row_entries st = row_of_cells f ps"

lemma table_step:
  assumes inv: "table_inv st0 R C n f ps st" and x: "0 \<le> fst x" "fst x < R" "0 \<le> snd x" "snd x < C"
    and col: "int (length (filter (\<lambda>y. fst y = fst x) ps)) = snd x" and room: "length ps < n"
    and vs: "length vs \<le> length roles" and f: "f x = filled_entry roles vs fl"
  shows "\<exists>st'. fillCache roles (IndexValuePair [ModelIndex (fst x) (snd x)] vs hasCh fl [] sz) st = Inr st' \<and>
    table_inv st0 R C n f (ps @ [x]) st'"
proof -
  from inv obtain root where root: "tree_ok st" "hp st 0 = Some root" "rowCount root = R" "columnCount root = C"
    "cacheSize (children root) = n" "dom (lru_abs (children root)) = fst ` set ps" "row_entries st = row_of_cells f ps"
    "spares 0 st0 st"
    unfolding table_inv_def by blast
  have "lru_size (children root) = card (fst ` set ps)"
    using lru_size_card[OF node_okD(1)[OF tree_node[OF root(1,2)]]] root(6) by simp
  also have "\<dots> \<le> length ps" using card_image_le[of "set ps" fst] card_length[of ps] by simp
  finally have size: "lru_size (children root) < cacheSize (children root)" using room root(5) by simp
  let ?es = "map f (filter (\<lambda>y. fst y = fst x) ps)"
  have es: "(case row_entries st (fst x) of None \<Rightarrow> [] | Some es \<Rightarrow> es) = ?es"
    unfolding root(7) by (rule row_of_cells_list)
  have len: "int (length ?es) = snd x" using col by simp
  obtain st' root' where s: "fillCache roles (IndexValuePair [ModelIndex (fst x) (snd x)] vs hasCh fl [] sz) st = Inr st'"
    "tree_ok st'" "hp st' 0 = Some root'" "rowCount root' = R" "columnCount root' = C" "cacheSize (children root') = n"
    "dom (lru_abs (children root')) = insert (fst x) (fst ` set ps)"
    "row_entries st' = (row_entries st)(fst x \<mapsto> ?es @ [filled_entry roles vs fl])" "spares 0 st st'"
    using fill_flat_cell[OF root(1,2), of "fst x" "snd x" ?es vs roles hasCh fl sz] x root(3-6) size es len vs by auto
  have "row_entries st' = row_of_cells f (ps @ [x])"
    unfolding s(8) root(7) row_of_cells_snoc row_of_cells_list f by simp
  then show ?thesis using s spares_trans[OF root(8) s(9)] unfolding table_inv_def by auto
qed

text \<open>The whole reply.\<close>

lemma fillCaches_append:
  "fillCaches roles (xs @ ys) st = bindE (fillCaches roles xs st) (fillCaches roles ys)"
proof (induction xs arbitrary: st)
  case (Cons x xs)
  then show ?case by (cases "fillCache roles x st") simp_all
qed simp

lemma table_filled:
  assumes major: "row_major cells" and inside: "\<forall>x \<in> set cells. 0 \<le> fst x \<and> fst x < R \<and> 0 \<le> snd x \<and> snd x < C"
    and vs: "\<forall>x. length (vals x) \<le> length roles"
  shows "table_inv st0 R C n (\<lambda>x. filled_entry roles (vals x) (fl x)) [] st \<Longrightarrow> k \<le> n \<Longrightarrow>
    \<exists>st'. fillCaches roles (map (\<lambda>x. IndexValuePair [ModelIndex (fst x) (snd x)] (vals x) (hasCh x) (fl x) [] (sz x)) (take k cells)) st = Inr st' \<and>
      table_inv st0 R C n (\<lambda>x. filled_entry roles (vals x) (fl x)) (take k cells) st'"
proof (induction k)
  case (Suc k)
  let ?f = "\<lambda>x. filled_entry roles (vals x) (fl x)" and ?p = "\<lambda>x. IndexValuePair [ModelIndex (fst x) (snd x)] (vals x) (hasCh x) (fl x) [] (sz x)"
  obtain s where s: "fillCaches roles (map ?p (take k cells)) st = Inr s" "table_inv st0 R C n ?f (take k cells) s"
    using Suc by auto
  show ?case
  proof (cases "k < length cells")
    case True
    let ?x = "cells ! k"
    have "?x \<in> set cells" using True by simp
    then have x: "0 \<le> fst ?x" "fst ?x < R" "0 \<le> snd ?x" "snd ?x < C" using inside by auto
    have col: "int (length (filter (\<lambda>y. fst y = fst ?x) (take k cells))) = snd ?x"
      using major True by (simp add: row_major_def)
    obtain s' where "fillCache roles (?p ?x) s = Inr s'" "table_inv st0 R C n ?f (take k cells @ [?x]) s'"
      using table_step[OF s(2) x col _ spec[OF vs, of ?x] refl, of "hasCh ?x" "sz ?x"] Suc(3) True by auto
    then show ?thesis
      using s(1) True by (intro exI[of _ s']) (simp add: take_Suc_conv_app_nth fillCaches_append)
  qed (use s in \<open>simp add: not_less\<close>)
qed simp

lemma row_major_append:
  assumes "row_major xs" and "row_major ys" and "fst ` set xs \<inter> fst ` set ys = {}"
  shows "row_major (xs @ ys)"
  unfolding row_major_def
proof (intro allI impI)
  fix k assume k: "k < length (xs @ ys)"
  show "int (length (filter (\<lambda>x. fst x = fst ((xs @ ys) ! k)) (take k (xs @ ys)))) = snd ((xs @ ys) ! k)"
  proof (cases "k < length xs")
    case True
    then show ?thesis using assms(1) by (simp add: row_major_def nth_append)
  next
    case False
    define j where "j = k - length xs"
    have j: "j < length ys" "(xs @ ys) ! k = ys ! j" "take k (xs @ ys) = xs @ take j ys"
      using False k by (simp_all add: j_def nth_append)
    have "fst (ys ! j) \<notin> fst ` set xs" using assms(3) j(1) nth_mem[of j ys] by blast
    then have "filter (\<lambda>x. fst x = fst (ys ! j)) xs = []" by (intro filter_False) (metis imageI)
    then show ?thesis using assms(2) j(1) unfolding j(2,3) by (simp add: row_major_def)
  qed
qed

lemma row_major_row: "row_major (map (Pair r) [0..C])"
proof -
  have "filter (\<lambda>x. fst x = r) (take k (map (Pair r) l)) = take k (map (Pair r) l)" for k and l :: "int list"
    by (rule filter_True) (auto dest: in_set_takeD)
  then show ?thesis by (simp add: row_major_def)
qed

lemma row_major_cells: "row_major (cells_between r0 r1 0 C)"
proof -
  have "row_major (concat (map (\<lambda>r. map (Pair r) [0..C]) rs))" if "distinct rs" for rs
    using that
  proof (induction rs)
    case Nil
    then show ?case by (simp add: row_major_def)
  next
    case (Cons r rs)
    have "fst ` set (map (Pair r) [0..C]) \<inter> fst ` set (concat (map (\<lambda>r. map (Pair r) [0..C]) rs)) = {}"
      using Cons(2) by auto
    then show ?case using Cons row_major_append[OF row_major_row[of r C]] by simp
  qed
  then show ?thesis by (simp add: cells_between_def)
qed

subsection \<open>The reset before the table\<close>

lemma clear_root:
  assumes ok: "tree_ok st" and root: "hp st 0 = Some root"
  shows "\<exists>st' root'. reset_root sz st = Inr st' \<and> tree_ok st' \<and> spares 0 st st' \<and> hp st' 0 = Some root' \<and>
    rowCount root' = max 0 (snd sz) \<and> columnCount root' = fst sz \<and>
    cacheSize (children root') = cacheSize (children root) \<and> lru_abs (children root') = Map.empty"
proof -
  obtain st1 root1 where s: "cd_clear 0 st = Inr st1" "tree_ok st1" "spares 0 st st1" "hp st1 0 = Some root1"
    "rowCount root1 = 0" "columnCount root1 = 0" "cacheSize (children root1) = cacheSize (children root)"
    "lru_abs (children root1) = Map.empty"
    using cleared_root[OF ok root] by blast
  let ?f = "\<lambda>c. (if snd sz > 0 then c\<lparr>rowCount := snd sz, cd_hasChildren := True\<rparr> else c)\<lparr>columnCount := fst sz\<rparr>"
  have u: "cd_update 0 ?f st1 = Inr (cd_put 0 (?f root1) st1)" "tree_ok (cd_put 0 (?f root1) st1)"
    by (rule cd_update_ok[OF s(2,4)]; simp)+
  have "reset_root sz st = Inr (cd_put 0 (?f root1) st1)"
    using s(1) u(1) by (simp add: reset_root_def Let_def)
  then show ?thesis
    using u(2) s(5-8) spares_trans[OF s(3) spares_cd_put[OF s(4)]]
    by (intro exI[of _ "cd_put 0 (?f root1) st1"] exI[of _ "?f root1"]) auto
qed

subsection \<open>What a view reads\<close>

lemma cached_data:
  assumes ok: "tree_ok st" and init: "initialized st" and row: "row_entries st r = Some es"
    and c: "0 \<le> c" "c < int (length es)" and v: "ce_data (es ! nat c) role = Some v"
    and role: "role \<in> set (fst (availableRoles st))"
  shows "\<exists>st'. q_data (QIndex r c 0) role st = Inr (Some v, st') \<and> mr_events st' = mr_events st \<and> requestedData st' = requestedData st"
proof -
  let ?st0 = "snd (availableRoles st)" and ?ix = "QIndex r c 0"
  have st0: "tree_ok ?st0" "row_entries ?st0 = row_entries st" "mr_events ?st0 = mr_events st" "requestedData ?st0 = requestedData st"
    using ok by (simp_all add: availableRoles_def Let_def row_entries_def tree_inv_def fun_eq_iff)
  obtain root a cd where root: "hp ?st0 0 = Some root" "lru_abs (children root) r = Some a" "hp ?st0 a = Some cd" "cachedRowEntry cd = es"
    using row unfolding st0(2)[symmetric] by (auto simp: row_entries_def bind_eq_Some_conv)
  have "row_of ?st0 ?ix = Some a"
    using root tree_row_live(3)[OF st0(1) root(1,2)] by (simp add: row_of_def)
  then obtain st1 where s1: "cacheData ?ix ?st0 = Inr (Some a, st1)" "sim ?st0 st1" using cacheData_ok[OF st0(1), of ?ix] by metis
  obtain cd1 where cd1: "hp st1 a = Some cd1" "cachedRowEntry cd1 = es"
    using sim_hp[OF s1(2) root(3)] root(4) cd_like_fields(2) by metis
  have find: "findData es ?ix role = Some v" using c v by (simp add: findData_def qindex_column_def)
  have "q_multiData ?ix [role] st = Inr ([Some v], st1)"
    using init role s1(1) cd_at_Some[OF cd1(1)] cd1(2) find
    by (simp add: q_multiData_def case_prod_unfold cached_values_def roles_to_fetch_def Let_def)
  then show ?thesis
    using sim_rest[OF s1(2)] st0(3,4) by (simp add: q_data_def)
qed

subsection \<open>The reply of the adapter\<close>

lemma fetch_flat:
  assumes ok: "item_model_ok M m" and "\<forall>x \<in> set cells. m_isValid M (m_index M m (fst x) (snd x) (m_root M)) \<and>
      \<not> m_hasChildren M m (m_index M m (fst x) (snd x) (m_root M))"
  shows "\<exists>n'. fetch_cells M m roles (m_root M) cells n =
    Inr (map (\<lambda>x. let ix = m_index M m (fst x) (snd x) (m_root M)
              in IndexValuePair [ModelIndex (fst x) (snd x)] (m_multiData M m ix roles) False (m_flags M m ix) []
                   (m_columnCount M m ix, m_rowCount M m ix)) (take n cells), n')"
  using assms(2)
proof (induction cells arbitrary: n)
  case Nil
  then show ?case by (simp add: fetch_cells.simps)
next
  case (Cons x cells)
  obtain r c where x: "x = (r, c)" by (cases x)
  have root: "index_path M m (m_root M) = Inr []"
    using index_path_unique[OF ok, of "[]" "m_root M"] by (simp add: toQModelIndex_def)
  have path: "index_path M m (m_index M m r c (m_root M)) = Inr [ModelIndex r c]"
    using index_path_child[OF ok root] Cons(2) x by simp
  show ?case
  proof (cases n)
    case 0
    then show ?thesis using x by (simp add: fetch_cells.simps)
  next
    case (Suc k)
    obtain n' where "fetch_cells M m roles (m_root M) cells k = Inr (map (\<lambda>x. let ix = m_index M m (fst x) (snd x) (m_root M)
              in IndexValuePair [ModelIndex (fst x) (snd x)] (m_multiData M m ix roles) False (m_flags M m ix) []
                   (m_columnCount M m ix, m_rowCount M m ix)) (take k cells), n')"
      using Cons(1)[of k] Cons(2) by auto
    then show ?thesis
      using Suc x path Cons(2) by (intro exI[of _ n']) (simp add: fetch_cells.simps collectData_def Let_def)
  qed
qed

subsection \<open>A table arrives whole\<close>

lemma upds_nth:
  "distinct roles \<Longrightarrow> length vs = length roles \<Longrightarrow> i < length roles \<Longrightarrow> (d(roles [\<mapsto>] vs)) (roles ! i) = Some (vs ! i)"
proof (induction roles arbitrary: vs i d)
  case (Cons x roles)
  then obtain v vs' where "vs = v # vs'" by (cases vs) auto
  then show ?case using Cons by (cases i) (auto simp: map_upds_apply_nontin)
qed simp

lemma filled_entry_value:
  assumes "distinct roles" and "length vs = length roles" and "i < length roles"
  shows "ce_data (filled_entry roles vs fl) (roles ! i) = Some (vs ! i)"
  using upds_nth[OF assms] by (simp add: filled_entry_def)

lemma spares_fields:
  assumes "spares a st st'"
  shows "initialized st' = initialized st" "propRoles st' = propRoles st" "knownRoles st' = knownRoles st"
    "initialAction st' = initialAction st" "headerH st' = headerH st" "headerV st' = headerV st"
  using assms unfolding spares_def by (cases st, cases st', simp)+

lemma row_entries_heap: "mr_heap st' = mr_heap st \<Longrightarrow> row_entries st' = row_entries st"
  by (simp add: row_entries_def fun_eq_iff)

lemma reset_table:
  assumes ok: "tree_ok st" and root: "hp st 0 = Some root" "cacheSize (children root) = n"
    and act: "initialAction st = PrefetchData" and sz: "0 \<le> fst sz" "0 \<le> snd sz"
    and major: "row_major cells" and inside: "\<forall>x \<in> set cells. 0 \<le> fst x \<and> fst x < snd sz \<and> 0 \<le> snd x \<and> snd x < fst sz"
    and vs: "\<forall>x. length (vals x) \<le> length roles"
  shows "\<exists>st' root'. handleModelResetDone w (CacheReply \<lparr>me_data = map (\<lambda>x. IndexValuePair [ModelIndex (fst x) (snd x)] (vals x) (hasCh x) (fl x) [] (s x)) (take n cells),
        me_roles = roles, me_size = sz\<rparr>) st = Inr st' \<and>
    tree_ok st' \<and> hp st' 0 = Some root' \<and> rowCount root' = snd sz \<and> columnCount root' = fst sz \<and> cd_parent root' = None \<and>
    row_entries st' = row_of_cells (\<lambda>x. filled_entry roles (vals x) (fl x)) (take n cells) \<and>
    initialized st' = initialized st \<and> propRoles st' = propRoles st \<and> knownRoles st' = knownRoles st"
proof -
  let ?f = "\<lambda>x. filled_entry roles (vals x) (fl x)"
  let ?pairs = "map (\<lambda>x. IndexValuePair [ModelIndex (fst x) (snd x)] (vals x) (hasCh x) (fl x) [] (s x)) (take n cells)"
  have ok0: "tree_ok (mr_emit BeginResetModel st)" "hp (mr_emit BeginResetModel st) 0 = Some root" using ok root by simp_all
  obtain st1 root1 where s1: "reset_root sz (mr_emit BeginResetModel st) = Inr st1" "tree_ok st1" "spares 0 (mr_emit BeginResetModel st) st1"
    "hp st1 0 = Some root1" "rowCount root1 = snd sz" "columnCount root1 = fst sz" "cacheSize (children root1) = n" "lru_abs (children root1) = Map.empty"
    using clear_root[OF ok0, of sz] sz(2) root(2) by auto
  obtain h v where h: "resize_header (fst sz) (headerH st1) = Inr h" "resize_header (snd sz) (headerV st1) = Inr v"
    using sz by (simp add: resize_header_def)
  define st2 where "st2 = st1\<lparr>headerH := h, headerV := v\<rparr>"
  have "row_entries st2 = row_of_cells ?f []"
    using s1(4,8) by (simp add: st2_def row_entries_def row_of_cells_def fun_eq_iff)
  then have inv: "table_inv st2 (snd sz) (fst sz) n ?f [] st2"
    using s1(2,4-8) by (simp add: table_inv_def st2_def)
  obtain st3 where s3: "fillCaches roles ?pairs st2 = Inr st3" "table_inv st2 (snd sz) (fst sz) n ?f (take n cells) st3"
    using table_filled[OF major inside vs inv order_refl, where hasCh = hasCh and sz = s] by blast
  let ?st' = "drop_request w (mr_emit EndResetModel st3)"
  have eq: "handleModelResetDone w (CacheReply \<lparr>me_data = ?pairs, me_roles = roles, me_size = sz\<rparr>) st = Inr ?st'"
    using act s1(1) h s3(1) by (simp add: handleModelResetDone_def reply_meta_def st2_def Let_def)
  have heap: "mr_heap ?st' = mr_heap st3" by (simp add: drop_request_def)
  from s3(2) obtain root3 where r3: "tree_ok st3" "spares 0 st2 st3" "hp st3 0 = Some root3" "rowCount root3 = snd sz" "columnCount root3 = fst sz"
    "row_entries st3 = row_of_cells ?f (take n cells)" unfolding table_inv_def by blast
  have fields: "initialized ?st' = initialized st \<and> propRoles ?st' = propRoles st \<and> knownRoles ?st' = knownRoles st"
    using spares_fields[OF r3(2)] spares_fields[OF s1(3)] by (simp add: st2_def mr_emit_def drop_request_def)
  have "cd_parent root3 = None" using tree_root[OF r3(1)] r3(3) by auto
  then show ?thesis
    unfolding eq using r3 fields row_entries_heap[OF heap] heap by (intro exI[of _ ?st'] exI[of _ root3]) simp
qed

lemma row_of_cells_at:
  assumes "row_major cells" and "k < length cells" and "k < n"
  shows "\<exists>es. row_of_cells f (take n cells) (fst (cells ! k)) = Some es \<and> 0 \<le> snd (cells ! k) \<and>
    snd (cells ! k) < int (length es) \<and> es ! nat (snd (cells ! k)) = f (cells ! k)"
proof -
  let ?P = "\<lambda>x. fst x = fst (cells ! k)" and ?j = "nat (snd (cells ! k))"
  have j: "length (filter ?P (take k cells)) = ?j" "0 \<le> snd (cells ! k)"
    using assms(1,2) unfolding row_major_def by fastforce+
  define rest where "rest = drop (Suc k) (take n cells)"
  have "take n cells = take k cells @ cells ! k # rest"
    using assms(2,3) id_take_nth_drop[of k "take n cells"] by (simp add: rest_def min_def)
  then have split: "filter ?P (take n cells) = filter ?P (take k cells) @ cells ! k # filter ?P rest" by simp
  have "map f (filter ?P (take n cells)) ! ?j = f (cells ! k)" unfolding split using j(1) by (simp add: nth_append)
  moreover have "?j < length (filter ?P (take n cells))" unfolding split using j(1) by simp
  ultimately show ?thesis
    using j(2) by (intro exI[of _ "map f (filter ?P (take n cells))"]) (auto simp: row_of_cells_def Let_def split)
qed

text \<open>A flat model keeps the contract, has no negative counts and no index of it has children.\<close>

definition flat_table :: "('m, 'ix, 'v) item_model \<Rightarrow> 'm \<Rightarrow> bool" where
  "flat_table M m \<longleftrightarrow> item_model_ok M m \<and> (\<forall>ix. m_isValid M ix \<longrightarrow> \<not> m_hasChildren M m ix) \<and>
    0 \<le> m_rowCount M m (m_root M) \<and> 0 \<le> m_columnCount M m (m_root M)"

lemma flat_reply:
  assumes "flat_table M (ad_model a)" and "replicaCacheRequest M n roles a = Inr reply"
  shows "reply = \<lparr>me_data = map (\<lambda>x. IndexValuePair [ModelIndex (fst x) (snd x)]
        (m_multiData M (ad_model a) (m_index M (ad_model a) (fst x) (snd x) (m_root M)) (me_roles reply)) False
        (m_flags M (ad_model a) (m_index M (ad_model a) (fst x) (snd x) (m_root M))) []
        (m_columnCount M (ad_model a) (m_index M (ad_model a) (fst x) (snd x) (m_root M)),
         m_rowCount M (ad_model a) (m_index M (ad_model a) (fst x) (snd x) (m_root M))))
      (take n (cells_of M (ad_model a) (m_root M))),
    me_roles = me_roles reply, me_size = (m_columnCount M (ad_model a) (m_root M), m_rowCount M (ad_model a) (m_root M))\<rparr>"
proof -
  let ?m = "ad_model a"
  have ok: "item_model_ok M ?m" using assms(1) by (simp add: flat_table_def)
  have "\<forall>x \<in> set (cells_of M ?m (m_root M)). m_isValid M (m_index M ?m (fst x) (snd x) (m_root M)) \<and>
      \<not> m_hasChildren M ?m (m_index M ?m (fst x) (snd x) (m_root M))"
    using assms(1) cells_of_mem[OF ok, of _ _ "m_root M"] by (auto simp: flat_table_def)
  from fetch_flat[OF ok this, of "me_roles reply" n] show ?thesis
    using assms(2) by (auto simp: replicaCacheRequest_def fetchTree_def Let_def bindE_Inr_iff)
qed

text \<open>
  C3: A flat table arrives whole. When a prefetching replica handles the adapter's reply to its cache
  request, whatever it showed before, it has the table's rows and columns, and a view reads in every
  cell within the budget, for every role of the reply the replica offers, the value the source's
  model has there, without a further request; no fetched row is evicted.
\<close>

theorem prefetched_table:
  assumes flat: "flat_table M (ad_model a)"
    and st: "tree_ok st" "initialAction st = PrefetchData" "initialized st" "rootCacheSize st = Inr n"
    and reply: "replicaCacheRequest M n (fetchRolesHint st) a = Inr reply" "distinct (me_roles reply)"
  shows "\<exists>st'. handleInitDone w (CacheReply reply) st = Inr st' \<and> tree_ok st' \<and>
    (\<exists>s. q_rowCount NoIndex st' = Inr (m_rowCount M (ad_model a) (m_root M), s)) \<and>
    (\<exists>s. q_columnCount NoIndex st' = Inr (m_columnCount M (ad_model a) (m_root M), s)) \<and>
    (\<forall>x \<in> set (take n (cells_of M (ad_model a) (m_root M))). \<forall>i < length (me_roles reply).
       me_roles reply ! i \<in> set (fst (availableRoles st)) \<longrightarrow>
       (\<exists>s. q_data (QIndex (fst x) (snd x) 0) (me_roles reply ! i) st' =
          Inr (Some (m_multiData M (ad_model a) (m_index M (ad_model a) (fst x) (snd x) (m_root M)) (me_roles reply) ! i), s) \<and>
          mr_events s = mr_events st' \<and> requestedData s = requestedData st'))"
proof -
  let ?m = "ad_model a" and ?roles = "me_roles reply" and ?cells = "cells_of M (ad_model a) (m_root M)"
  let ?vals = "\<lambda>x. m_multiData M ?m (m_index M ?m (fst x) (snd x) (m_root M)) ?roles"
  let ?fl = "\<lambda>x. m_flags M ?m (m_index M ?m (fst x) (snd x) (m_root M))"
  have ok: "item_model_ok M ?m" and sz: "0 \<le> m_columnCount M ?m (m_root M)" "0 \<le> m_rowCount M ?m (m_root M)"
    using flat by (simp_all add: flat_table_def)
  obtain root where root: "hp st 0 = Some root" "cacheSize (children root) = n"
    using tree_root[OF st(1)] st(4) by (auto simp: rootCacheSize_def cd_at_Some)
  have major: "row_major ?cells"
    using row_major_cells by (auto simp: cells_of_def Let_def row_major_def)
  have inside: "\<forall>x \<in> set ?cells. 0 \<le> fst x \<and> fst x < m_rowCount M ?m (m_root M) \<and> 0 \<le> snd x \<and> snd x < m_columnCount M ?m (m_root M)"
    using cells_of_mem[OF ok, of _ _ "m_root M"] item_index_valid[OF ok] by auto
  have len: "length (m_multiData M ?m ix rs) = length rs" for ix rs using ok by (simp add: item_model_ok_def)
  have vs: "\<forall>x. length (?vals x) \<le> length ?roles" by (simp add: len)
  obtain st1 root1 where s1: "handleModelResetDone w (CacheReply reply) st = Inr st1" "tree_ok st1" "hp st1 0 = Some root1"
    "rowCount root1 = m_rowCount M ?m (m_root M)" "columnCount root1 = m_columnCount M ?m (m_root M)" "cd_parent root1 = None"
    "row_entries st1 = row_of_cells (\<lambda>x. filled_entry ?roles (?vals x) (?fl x)) (take n ?cells)"
    "initialized st1" "propRoles st1 = propRoles st" "knownRoles st1 = knownRoles st"
    using reset_table[OF st(1) root st(2), of "(m_columnCount M ?m (m_root M), m_rowCount M ?m (m_root M))" ?cells ?vals ?roles w
        "\<lambda>x. False" ?fl "\<lambda>x. (m_columnCount M ?m (m_index M ?m (fst x) (snd x) (m_root M)), m_rowCount M ?m (m_index M ?m (fst x) (snd x) (m_root M)))"]
      sz major inside vs st(3) flat_reply[OF flat reply(1)] by auto
  let ?st' = "mr_emit SigInitialized (st1\<lparr>initDone := True\<rparr>)"
  have ok': "tree_ok ?st'" "initialized ?st'" using s1(2,8) by (simp, simp add: mr_emit_def)
  have rows: "row_entries ?st' = row_entries st1" and root': "hp ?st' 0 = Some root1"
    and av: "fst (availableRoles ?st') = fst (availableRoles st)"
    using s1(3,9,10) by (simp_all add: row_entries_def fun_eq_iff mr_emit_def availableRoles_def Let_def)
  have "\<exists>s. q_data (QIndex (fst x) (snd x) 0) (?roles ! i) ?st' = Inr (Some (?vals x ! i), s) \<and>
      mr_events s = mr_events ?st' \<and> requestedData s = requestedData ?st'"
    if x: "x \<in> set (take n ?cells)" and i: "i < length ?roles" and r: "?roles ! i \<in> set (fst (availableRoles st))" for x i
  proof -
    obtain k where k: "k < length ?cells" "k < n" "x = ?cells ! k" using x by (auto simp: in_set_conv_nth)
    obtain es where es: "row_entries ?st' (fst x) = Some es" "0 \<le> snd x" "snd x < int (length es)"
      "es ! nat (snd x) = filled_entry ?roles (?vals x) (?fl x)"
      using row_of_cells_at[OF major k(1,2), of "\<lambda>x. filled_entry ?roles (?vals x) (?fl x)"] unfolding rows s1(7) k(3) by blast
    have v: "ce_data (es ! nat (snd x)) (?roles ! i) = Some (?vals x ! i)"
      unfolding es(4) by (rule filled_entry_value[OF reply(2) len i])
    show ?thesis by (rule cached_data[OF ok' es(1-3) v]) (use r av in simp)
  qed
  moreover have "handleInitDone w (CacheReply reply) st = Inr ?st'" using s1(1) by (simp add: handleInitDone_def)
  moreover have "\<exists>s. q_rowCount NoIndex ?st' = Inr (m_rowCount M ?m (m_root M), s)"
    using cd_at_Some[OF root'] s1(4) by (simp add: q_rowCount_def cacheData_def qindex_column_def)
  moreover have "\<exists>s. q_columnCount NoIndex ?st' = Inr (m_columnCount M ?m (m_root M), s)"
    using cd_at_Some[OF root'] s1(5,6) sz(1) by (simp add: q_columnCount_def cacheData_def qindex_column_def)
  ultimately show ?thesis using ok' by (intro exI[of _ ?st']) simp
qed

text \<open>One row of three columns.\<close>

definition flat_demo :: "(unit, demo_ix, u32) item_model" where
  "flat_demo = demo_model
    \<lparr>m_rowOf := (\<lambda>ix. 0), m_columnOf := (\<lambda>ix. case ix of DB \<Rightarrow> 1 | DA1 \<Rightarrow> 2 | _ \<Rightarrow> 0),
     m_index := (\<lambda>m r c p. if r \<noteq> 0 \<or> p \<noteq> DRoot then DRoot
        else if c = 0 then DA else if c = 1 then DB else if c = 2 then DA1 else DRoot),
     m_parent := (\<lambda>m ix. DRoot), m_rowCount := (\<lambda>m ix. if ix = DRoot then 1 else 0),
     m_columnCount := (\<lambda>m ix. if ix = DRoot then 3 else 0), m_hasChildren := (\<lambda>m ix. ix = DRoot)\<rparr>"

lemma flat_demo_table: "flat_table flat_demo ()"
proof -
  have "\<exists>n. (m_parent flat_demo () ^^ n) ix = m_root flat_demo" for ix
    by (rule exI[of _ "Suc 0"]) (simp add: flat_demo_def demo_model_def)
  moreover have "m_index flat_demo () (m_rowOf flat_demo ix) (m_columnOf flat_demo ix) (m_parent flat_demo () ix) = ix"
    if "m_isValid flat_demo ix" for ix
    using that by (cases ix) (auto simp: flat_demo_def demo_model_def)
  ultimately have "item_model_ok flat_demo ()"
    unfolding item_model_ok_def by (auto simp: flat_demo_def demo_model_def split: if_splits)
  then show ?thesis by (simp add: flat_table_def flat_demo_def demo_model_def)
qed

definition prefetch_start :: "u32 mreplica" where
  "prefetch_start = (new_mreplica PrefetchData [0, 2] 2 [0, 2])\<lparr>initialized := True\<rparr>"

theorem prefetched_table_witness:
  "\<exists>reply st' s. replicaCacheRequest flat_demo 2 [0, 2] demo_adapter = Inr reply \<and>
     handleInitDone 0 (CacheReply reply) prefetch_start = Inr st' \<and>
     q_data (QIndex 0 1 0) 2 st' = Inr (Some 22, s)"
proof -
  obtain reply where r: "replicaCacheRequest flat_demo 2 [0, 2] demo_adapter = Inr reply" "me_roles reply = [0, 2]"
    using fetch_cells_total[of flat_demo "()" "[0, 2]" DRoot "cells_of flat_demo () DRoot" 2] flat_demo_table
    by (fastforce simp: replicaCacheRequest_def fetchTree_def flat_table_def flat_demo_def demo_model_def)
  have st: "tree_ok prefetch_start" "initialAction prefetch_start = PrefetchData" "initialized prefetch_start"
    "rootCacheSize prefetch_start = Inr 2" "fetchRolesHint prefetch_start = [0, 2]" "fst (availableRoles prefetch_start) = [0, 2]"
    using new_mreplica_ok[of PrefetchData "[0, 2]" 2 "[0, 2]"]
    by (simp_all add: prefetch_start_def new_mreplica_def rootCacheSize_def cd_at_def new_cache_data_def lru_new_def
        availableRoles_def tree_inv_def)
  have m: "ad_model demo_adapter = ()" by simp
  have cells: "(0, 1) \<in> set (take 2 (cells_of flat_demo () (m_root flat_demo)))"
    by (simp add: flat_demo_def demo_model_def cells_of_def cells_between_def upto.simps)
  have value22: "m_multiData flat_demo () (m_index flat_demo () 0 1 (m_root flat_demo)) [0, 2] ! 1 = 22"
    by (simp add: flat_demo_def demo_model_def demo_code_def)
  show ?thesis
    using prefetched_table[of flat_demo demo_adapter prefetch_start 2 reply 0] flat_demo_table st r m
      cells value22 by fastforce
qed

end
