(* ===== verification/Variants.thy ===== *)
theory Variants
  imports Stream
begin

text \<open>
  Variants on the wire: \<open>encodeVariant\<close> and \<open>decodeVariant\<close> of \<open>qremoteobjectpacket.cpp\<close>, which
  turn enums into integers and containers of gadgets into the transfer types \<open>QSQ_\<close> and
  \<open>QAS_\<close>, and the containers of \<open>qremoteobjectcontainers.cpp\<close> that stand for a container whose
  type the receiver does not know.

  Qt's meta types are the parameter \<open>metatypes\<close>: a type has a name, flags, a size, stream
  operators and conversions, and may be a sequential or an associative container, whose
  operations are parameters too. An invalid \<open>QMetaType\<close> is \<open>None\<close>. Type names are byte arrays.
\<close>

record meta_enumerator =
  me_name :: bytes
  me_enumName :: bytes
  me_isFlag :: bool

record meta_class =
  mc_className :: bytes
  mc_remoteType :: "bytes option"
  mc_enumerators :: "meta_enumerator list"

record 't sequence_info =
  si_valueType :: 't
  si_viewable :: bool
  si_canAddValue :: bool
  si_canRemoveValue :: bool

record 't association_info =
  ai_keyType :: 't
  ai_mappedType :: 't
  ai_viewable :: bool
  ai_canSetMapped :: bool

record ('t, 'v) metatypes =
  mt_name :: "'t \<Rightarrow> bytes"
  mt_fromName :: "bytes \<Rightarrow> 't option"
  mt_isEnum :: "'t \<Rightarrow> bool"
  mt_isGadget :: "'t \<Rightarrow> bool"
  mt_sizeOf :: "'t \<Rightarrow> nat"
  mt_metaObject :: "'t \<Rightarrow> meta_class option"
  mt_int8 :: 't
  mt_int16 :: 't
  mt_int32 :: 't
  mt_save :: "'t \<Rightarrow> 'v \<Rightarrow> bytes option"
  mt_load :: "'t \<Rightarrow> bytes \<Rightarrow> ('v \<times> bytes) option"
  mt_convert :: "'t \<Rightarrow> 't \<Rightarrow> 'v \<Rightarrow> 'v"
  mt_default :: "'t \<Rightarrow> 'v"
  mt_toString :: "'t \<Rightarrow> 'v \<Rightarrow> string"
  mt_sequence :: "'t \<Rightarrow> 't sequence_info option"
  mt_association :: "'t \<Rightarrow> 't association_info option"
  addValue :: "'t \<Rightarrow> 't \<times> 'v \<Rightarrow> 'v list \<Rightarrow> 'v list"
  removeValue :: "'t \<Rightarrow> 'v list \<Rightarrow> 'v list"
  setMapped :: "'t \<Rightarrow> 't \<times> 'v \<Rightarrow> 't \<times> 'v \<Rightarrow> ('v \<times> 'v) list \<Rightarrow> ('v \<times> 'v) list"
  mt_QString :: 't
  mt_string :: "string \<Rightarrow> 'v"

text \<open>
  The transfer types, the stand-in containers (\<open>QtROSequentialContainer\<close> is a \<open>QVariantList\<close>,
  \<open>QtROAssociativeContainer\<close> a \<open>QVariantMap\<close> under the string forms of its keys, with the keys
  themselves in \<open>m_keys\<close>), and a \<open>QVariant\<close> by what it holds. A registered container lists its
  entries in the order it is iterated in.
\<close>

record qsq =
  qsq_typeName :: bytes
  qsq_valueTypeName :: bytes
  qsq_values :: bytes

record qas =
  qas_typeName :: bytes
  qas_keyTypeName :: bytes
  qas_valueTypeName :: bytes
  qas_values :: bytes

record ('t, 'v) ro_sequence =
  rs_typeName :: bytes
  rs_valueTypeName :: bytes
  rs_valueType :: "'t option"
  rs_values :: "'v list"

record ('t, 'v) ro_association =
  ra_typeName :: bytes
  ra_keyTypeName :: bytes
  ra_valueTypeName :: bytes
  ra_keyType :: "'t option"
  ra_valueType :: "'t option"
  ra_map :: "(string, 'v) qmap"
  m_keys :: "'v list"

datatype ('t, 'v) qvariant =
    Invalid
  | Value 't 'v
  | Sequence 't "'v list"
  | Association 't "('v \<times> 'v) list"
  | Ro_sequence "('t, 'v) ro_sequence"
  | Ro_association "('t, 'v) ro_association"
  | Qsq qsq
  | Qas qas

subsection \<open>Byte arrays\<close>

definition ascii :: "string \<Rightarrow> bytes" where
  "ascii s = map (\<lambda>c. word_of_nat (of_char c)) s"

definition startsWith :: "bytes \<Rightarrow> bytes \<Rightarrow> bool" where
  "startsWith s p \<longleftrightarrow> take (length p) s = p"

text \<open>\<open>replace\<close> of every occurrence, from the left, of a pattern that is not empty.\<close>

function substitute_all :: "bytes \<Rightarrow> bytes \<Rightarrow> bytes \<Rightarrow> bytes" where
  "substitute_all before after s =
     (if s = [] \<or> before = [] then s
      else if startsWith s before then after @ substitute_all before after (drop (length before) s)
      else hd s # substitute_all before after (tl s))"
  by pat_completeness auto
termination by (relation "measure (\<lambda>(before, after, s). length s)") auto

text \<open>What follows the last colon of a name; the whole name when it has none.\<close>

definition after_colon :: "bytes \<Rightarrow> bytes" where
  "after_colon s = rev (takeWhile (\<lambda>b. b \<noteq> 0x3A) (rev s))"

definition descopedName :: "('t, 'v) metatypes \<Rightarrow> 't \<Rightarrow> bytes" where
  "descopedName M t = after_colon (mt_name M t)"

subsection \<open>Enums\<close>

definition transferTypeForEnum :: "('t, 'v) metatypes \<Rightarrow> 't \<Rightarrow> 't" where
  "transferTypeForEnum M enumType =
     (let size = mt_sizeOf M enumType
      in if size = 1 then mt_int8 M
         else if size = 2 then mt_int16 M
         else if size = 4 then mt_int32 M
         else mt_int32 M)"

definition transfer_type :: "('t, 'v) metatypes \<Rightarrow> 't \<Rightarrow> 't" where
  "transfer_type M t = (if mt_isEnum M t then transferTypeForEnum M t else t)"

text \<open>
  The rest of \<open>QVariant::convert\<close>: a variant that holds no value of a type that converts
  becomes the default value of the target.
\<close>

definition convert :: "('t, 'v) metatypes \<Rightarrow> 't \<Rightarrow> ('t, 'v) qvariant \<Rightarrow> ('t, 'v) qvariant" where
  "convert M t value =
     (case value of Value s v \<Rightarrow> Value t (mt_convert M s t v) | _ \<Rightarrow> Value t (mt_default M t))"

definition sequential_of_gadgets :: "('t, 'v) metatypes \<Rightarrow> 't \<Rightarrow> bool" where
  "sequential_of_gadgets M t =
     (case mt_sequence M t of None \<Rightarrow> False | Some info \<Rightarrow> mt_isGadget M (si_valueType info))"

definition association_of_gadgets :: "('t, 'v) metatypes \<Rightarrow> 't \<Rightarrow> bool" where
  "association_of_gadgets M t =
     (case mt_association M t of None \<Rightarrow> False | Some info \<Rightarrow> mt_isGadget M (ai_mappedType info))"

subsection \<open>Building \<open>QSQ_\<close>\<close>

text \<open>
  The loop that saves the items behind what is already written (\<open>out\<close>): when one cannot be
  saved, the buffer is cut back and an empty container is written instead (\<open>none\<close>).
\<close>

fun save_items :: "('a \<Rightarrow> bytes option) \<Rightarrow> bytes \<Rightarrow> 'a list \<Rightarrow> bytes \<Rightarrow> bytes" where
  "save_items save none [] out = out"
| "save_items save none (x # xs) out =
     (case save x of None \<Rightarrow> none | Some b \<Rightarrow> save_items save none xs (out @ b))"

definition save_as :: "('t, 'v) metatypes \<Rightarrow> 't option \<Rightarrow> 'v \<Rightarrow> bytes option" where
  "save_as M t v = (case t of None \<Rightarrow> None | Some t \<Rightarrow> mt_save M t v)"

definition load_as :: "('t, 'v) metatypes \<Rightarrow> 't option \<Rightarrow> bytes \<Rightarrow> ('v \<times> bytes) option" where
  "load_as M t i = (case t of None \<Rightarrow> None | Some t \<Rightarrow> mt_load M t i)"

definition build_qsq :: "('t, 'v) metatypes \<Rightarrow> 'w qstream \<Rightarrow> bytes \<Rightarrow> bytes \<Rightarrow> 't option \<Rightarrow> 'v list \<Rightarrow> qsq" where
  "build_qsq M S typeName valueTypeName valueType vs =
     (let head = put_bytes S valueTypeName
      in \<lparr>qsq_typeName = typeName, qsq_valueTypeName = valueTypeName,
          qsq_values = save_items (save_as M valueType) (head @ put_u32 S 0) vs
                         (head @ put_u32 S (of_nat (length vs)))\<rparr>)"

definition QSQ_of_sequence :: "('t, 'v) metatypes \<Rightarrow> 'w qstream \<Rightarrow> 't \<Rightarrow> 't sequence_info \<Rightarrow> 'v list \<Rightarrow> qsq" where
  "QSQ_of_sequence M S t info vs =
     build_qsq M S (mt_name M t) (mt_name M (si_valueType info)) (Some (si_valueType info)) vs"

definition QSQ_of_ro :: "('t, 'v) metatypes \<Rightarrow> 'w qstream \<Rightarrow> ('t, 'v) ro_sequence \<Rightarrow> qsq" where
  "QSQ_of_ro M S c = build_qsq M S (rs_typeName c) (rs_valueTypeName c) (rs_valueType c) (rs_values c)"

subsection \<open>Building \<open>QAS_\<close>\<close>

text \<open>
  The names sent for a key type that is an enum of a class with a \<open>RemoteObject Type\<close> class
  info: the class name becomes that of the downstream types, and for a flags type
  \<open>QFlags<Enum>\<close> the enum's name becomes that of the flags.
\<close>

definition flag_alias :: "meta_class \<Rightarrow> bytes \<Rightarrow> bytes" where
  "flag_alias meta keyTypeName =
     (let name = butlast (drop 7 keyTypeName);
          p = length name - length (after_colon name)
      in fold (\<lambda>en k.
           if me_isFlag en \<and> me_enumName en = drop p k
           then take p k @ me_name en @ drop (p + length (me_enumName en)) k
           else k) (mc_enumerators meta) name)"

definition downstream_names :: "('t, 'v) metatypes \<Rightarrow> 't \<Rightarrow> bytes \<times> bytes \<Rightarrow> bytes \<times> bytes" where
  "downstream_names M keyType names =
     (let (keyTypeName, typeName) = names in
      case (mt_isEnum M keyType, mt_metaObject M keyType) of
        (True, Some meta) \<Rightarrow>
          (case mc_remoteType meta of
             None \<Rightarrow> names
           | Some remote \<Rightarrow>
               (let isFlag = startsWith keyTypeName (ascii ''QFlags<'')
                in if isFlag \<or> startsWith keyTypeName (mc_className meta)
                   then (let k = (if isFlag then flag_alias meta keyTypeName else keyTypeName)
                         in (substitute_all (mc_className meta) remote k,
                             substitute_all (mc_className meta) (remote @ ascii ''Replica'') typeName))
                   else names))
      | _ \<Rightarrow> names)"

definition save_entry :: "('t, 'v) metatypes \<Rightarrow> 't option \<Rightarrow> 't option \<Rightarrow> 'v \<times> 'v \<Rightarrow> bytes option" where
  "save_entry M keyType valueType kv =
     (let (key, val) = kv;
          transferType = map_option (transfer_type M) keyType;
          key' = (case keyType of
                    None \<Rightarrow> key
                  | Some t \<Rightarrow> if transfer_type M t \<noteq> t then mt_convert M t (transfer_type M t) key else key)
      in case save_as M transferType key' of
           None \<Rightarrow> None
         | Some kb \<Rightarrow> map_option (\<lambda>vb. kb @ vb) (save_as M valueType val))"

definition build_qas :: "('t, 'v) metatypes \<Rightarrow> 'w qstream \<Rightarrow> bytes \<Rightarrow> bytes \<Rightarrow> bytes \<Rightarrow> 't option \<Rightarrow> 't option
    \<Rightarrow> ('v \<times> 'v) list \<Rightarrow> qas" where
  "build_qas M S typeName keyTypeName valueTypeName keyType valueType kvs =
     (let head = put_bytes S keyTypeName @ put_bytes S valueTypeName
      in \<lparr>qas_typeName = typeName, qas_keyTypeName = keyTypeName, qas_valueTypeName = valueTypeName,
          qas_values = save_items (save_entry M keyType valueType) (head @ put_u32 S 0) kvs
                         (head @ put_u32 S (of_nat (length kvs)))\<rparr>)"

definition QAS_of_association :: "('t, 'v) metatypes \<Rightarrow> 'w qstream \<Rightarrow> 't \<Rightarrow> 't association_info
    \<Rightarrow> ('v \<times> 'v) list \<Rightarrow> qas" where
  "QAS_of_association M S t info kvs =
     (let keyType = ai_keyType info; valueType = ai_mappedType info;
          (keyTypeName, typeName) = downstream_names M keyType (mt_name M keyType, mt_name M t)
      in build_qas M S typeName keyTypeName (mt_name M valueType) (Some keyType) (Some valueType) kvs)"

text \<open>
  The stand-in container is iterated as a \<open>QVariantMap\<close>, in the order of the string keys, and
  the key of the \<open>i\<close>th entry is taken from \<open>m_keys\<close>.
\<close>

definition QAS_of_ro :: "('t, 'v) metatypes \<Rightarrow> 'w qstream \<Rightarrow> ('t, 'v) ro_association \<Rightarrow> qas" where
  "QAS_of_ro M S c =
     build_qas M S (ra_typeName c) (ra_keyTypeName c) (ra_valueTypeName c) (ra_keyType c) (ra_valueType c)
       (map (\<lambda>i. (m_keys c ! i, snd (ra_map c ! i))) [0..<length (ra_map c)])"

subsection \<open>\<open>encodeVariant\<close>\<close>

definition encodeVariant :: "('t, 'v) metatypes \<Rightarrow> 'w qstream \<Rightarrow> ('t, 'v) qvariant \<Rightarrow> ('t, 'v) qvariant" where
  "encodeVariant M S value =
     (case value of
        Value t v \<Rightarrow> if mt_isEnum M t then convert M (transferTypeForEnum M t) value else value
      | Sequence t vs \<Rightarrow>
          (case mt_sequence M t of
             None \<Rightarrow> value
           | Some info \<Rightarrow> if sequential_of_gadgets M t then Qsq (QSQ_of_sequence M S t info vs) else value)
      | Ro_sequence c \<Rightarrow> Qsq (QSQ_of_ro M S c)
      | Association t kvs \<Rightarrow>
          (case mt_association M t of
             None \<Rightarrow> value
           | Some info \<Rightarrow> if association_of_gadgets M t then Qas (QAS_of_association M S t info kvs) else value)
      | Ro_association c \<Rightarrow> Qas (QAS_of_ro M S c)
      | _ \<Rightarrow> value)"

subsection \<open>The stream operators of the transfer types\<close>

definition put_qsq :: "'w qstream \<Rightarrow> qsq \<Rightarrow> bytes" where
  "put_qsq S q = put_bytes S (qsq_typeName q) @ put_bytes S (qsq_valueTypeName q) @ put_bytes S (qsq_values q)"

definition get_qsq :: "'w qstream \<Rightarrow> bytes \<Rightarrow> qsq \<times> bytes" where
  "get_qsq S i =
     (let (t, i1) = get_bytes S i; (v, i2) = get_bytes S i1; (d, i3) = get_bytes S i2
      in (\<lparr>qsq_typeName = t, qsq_valueTypeName = v, qsq_values = d\<rparr>, i3))"

definition put_qas :: "'w qstream \<Rightarrow> qas \<Rightarrow> bytes" where
  "put_qas S q = put_bytes S (qas_typeName q) @ put_bytes S (qas_keyTypeName q) @
     put_bytes S (qas_valueTypeName q) @ put_bytes S (qas_values q)"

definition get_qas :: "'w qstream \<Rightarrow> bytes \<Rightarrow> qas \<times> bytes" where
  "get_qas S i =
     (let (t, i1) = get_bytes S i; (k, i2) = get_bytes S i1; (v, i3) = get_bytes S i2;
          (d, i4) = get_bytes S i3
      in (\<lparr>qas_typeName = t, qas_keyTypeName = k, qas_valueTypeName = v, qas_values = d\<rparr>, i4))"

subsection \<open>Reading a sequence\<close>

text \<open>
  The elements of a registered container: after a failed load the values added so far are
  removed again when the container can do that, and otherwise stay.
\<close>

fun load_sequence :: "('t, 'v) metatypes \<Rightarrow> 't \<Rightarrow> 't sequence_info \<Rightarrow> 't option \<Rightarrow> nat \<Rightarrow> nat
    \<Rightarrow> 'v list \<Rightarrow> bytes \<Rightarrow> 'v list" where
  "load_sequence M t info valueType i 0 seq s = seq"
| "load_sequence M t info valueType i (Suc n) seq s =
     (case (valueType, load_as M valueType s) of
        (Some vt, Some (v, s')) \<Rightarrow> load_sequence M t info valueType (Suc i) n (addValue M t (vt, v) seq) s'
      | _ \<Rightarrow> if si_canRemoveValue info \<or> i = 0 then (removeValue M t ^^ i) seq else seq)"

text \<open>\<open>operator>>\<close> of \<open>QtROSequentialContainer\<close>: a failed load empties the list.\<close>

fun load_values :: "(bytes \<Rightarrow> ('v \<times> bytes) option) \<Rightarrow> nat \<Rightarrow> 'v list \<Rightarrow> bytes \<Rightarrow> 'v list \<times> bytes" where
  "load_values load 0 vs s = (vs, s)"
| "load_values load (Suc n) vs s =
     (case load s of None \<Rightarrow> ([], s) | Some (v, s') \<Rightarrow> load_values load n (vs @ [v]) s')"

definition setValueType :: "('t, 'v) metatypes \<Rightarrow> bytes \<Rightarrow> ('t, 'v) ro_sequence \<Rightarrow> ('t, 'v) ro_sequence" where
  "setValueType M valueTypeName c =
     c\<lparr>rs_valueTypeName := valueTypeName, rs_valueType := mt_fromName M valueTypeName, rs_values := []\<rparr>"

definition new_ro_sequence :: "('t, 'v) ro_sequence" where
  "new_ro_sequence = \<lparr>rs_typeName = [], rs_valueTypeName = [], rs_valueType = None, rs_values = []\<rparr>"

definition get_ro_sequence :: "('t, 'v) metatypes \<Rightarrow> 'w qstream \<Rightarrow> bytes \<Rightarrow> ('t, 'v) ro_sequence \<times> bytes" where
  "get_ro_sequence M S i =
     (let (typeName, i1) = get_bytes S i;
          c = setValueType M typeName new_ro_sequence;
          (count, i2) = get_u32 S i1;
          (vs, i3) = load_values (load_as M (rs_valueType c)) (unat count) (rs_values c) i2
      in (c\<lparr>rs_values := vs\<rparr>, i3))"

definition decode_qsq :: "('t, 'v) metatypes \<Rightarrow> 'w qstream \<Rightarrow> qsq \<Rightarrow> ('t, 'v) qvariant" where
  "decode_qsq M S q =
     (case mt_fromName M (qsq_typeName q) of
        None \<Rightarrow> Ro_sequence ((fst (get_ro_sequence M S (qsq_values q)))\<lparr>rs_typeName := qsq_typeName q\<rparr>)
      | Some t \<Rightarrow>
          (case mt_sequence M t of
             None \<Rightarrow> Invalid
           | Some info \<Rightarrow>
               if \<not> si_viewable info then Invalid
               else if \<not> si_canAddValue info then Invalid
               else
                 (let (valueTypeName, i1) = get_bytes S (qsq_values q);
                      (count, i2) = get_u32 S i1;
                      valueType = mt_fromName M valueTypeName
                  in Sequence t (load_sequence M t info valueType 0 (unat count) [] i2))))"

subsection \<open>Reading an association\<close>

text \<open>The \<open>None\<close> of \<open>load_entry\<close> is a key or a value that cannot be loaded.\<close>

definition load_entry :: "('t, 'v) metatypes \<Rightarrow> 't option \<Rightarrow> 't option \<Rightarrow> bytes \<Rightarrow> (('v \<times> 'v) \<times> bytes) option" where
  "load_entry M transferType valueType s =
     (case load_as M transferType s of
        None \<Rightarrow> None
      | Some (key, s1) \<Rightarrow>
          (case load_as M valueType s1 of None \<Rightarrow> None | Some (val, s2) \<Rightarrow> Some ((key, val), s2)))"

fun load_association :: "('t, 'v) metatypes \<Rightarrow> 't \<Rightarrow> 't \<Rightarrow> 't option \<Rightarrow> nat \<Rightarrow> ('v \<times> 'v) list \<Rightarrow> bytes
    \<Rightarrow> ('v \<times> 'v) list" where
  "load_association M t keyType valueType 0 m s = m"
| "load_association M t keyType valueType (Suc n) m s =
     (case (valueType, load_entry M (Some (transfer_type M keyType)) valueType s) of
        (Some vt, Some ((key, val), s')) \<Rightarrow>
          (let key' = (if transfer_type M keyType \<noteq> keyType
                       then mt_convert M (transfer_type M keyType) keyType key else key)
           in load_association M t keyType valueType n (setMapped M t (keyType, key') (vt, val) m) s')
      | _ \<Rightarrow> [])"

definition is_flag :: "('t, 'v) metatypes \<Rightarrow> 't \<Rightarrow> bool" where
  "is_flag M t =
     (case mt_metaObject M t of
        None \<Rightarrow> False
      | Some meta \<Rightarrow>
          (case List.find (\<lambda>en. me_name en = descopedName M t) (mc_enumerators meta) of
             Some en \<Rightarrow> me_isFlag en
           | None \<Rightarrow>
               (case List.find (\<lambda>en. me_enumName en = descopedName M t) (mc_enumerators meta) of
                  Some en \<Rightarrow> me_isFlag en
                | None \<Rightarrow> False)))"

text \<open>
  \<open>operator>>\<close> of \<open>QtROAssociativeContainer\<close>: each value is inserted under the string form of
  its key and the key appended to \<open>m_keys\<close>. \<open>clear\<close> after a failed load empties the map, not
  \<open>m_keys\<close>. An invalid key type loads nothing.
\<close>

definition insert_entry :: "('t, 'v) metatypes \<Rightarrow> 't option \<Rightarrow> 'v \<times> 'v \<Rightarrow> (string, 'v) qmap \<times> 'v list
    \<Rightarrow> (string, 'v) qmap \<times> 'v list" where
  "insert_entry M keyType kv mk =
     (let (key, val) = kv; (m, keys) = mk in
      case keyType of
        None \<Rightarrow> (m, keys)
      | Some kt \<Rightarrow>
          (let tt = transfer_type M kt
           in if tt \<noteq> kt
              then (let enumKey = mt_convert M tt kt key;
                        name = (if is_flag M kt then mt_toString M tt key else mt_toString M kt enumKey)
                    in (qmap_insert name val m, keys @ [enumKey]))
              else (qmap_insert (mt_toString M tt key) val m, keys @ [key])))"

fun load_entries :: "('t, 'v) metatypes \<Rightarrow> 't option \<Rightarrow> 't option \<Rightarrow> nat
    \<Rightarrow> (string, 'v) qmap \<times> 'v list \<Rightarrow> bytes \<Rightarrow> (string, 'v) qmap \<times> 'v list" where
  "load_entries M keyType valueType 0 mk s = mk"
| "load_entries M keyType valueType (Suc n) mk s =
     (case load_entry M (map_option (transfer_type M) keyType) valueType s of
        None \<Rightarrow> ([], snd mk)
      | Some (kv, s') \<Rightarrow> load_entries M keyType valueType n (insert_entry M keyType kv mk) s')"

definition setTypes :: "('t, 'v) metatypes \<Rightarrow> bytes \<Rightarrow> bytes \<Rightarrow> ('t, 'v) ro_association
    \<Rightarrow> ('t, 'v) ro_association" where
  "setTypes M keyTypeName valueTypeName c =
     c\<lparr>ra_keyTypeName := keyTypeName, ra_keyType := mt_fromName M keyTypeName,
       ra_valueTypeName := valueTypeName, ra_valueType := mt_fromName M valueTypeName,
       ra_map := [], m_keys := []\<rparr>"

definition new_ro_association :: "('t, 'v) ro_association" where
  "new_ro_association = \<lparr>ra_typeName = [], ra_keyTypeName = [], ra_valueTypeName = [],
     ra_keyType = None, ra_valueType = None, ra_map = [], m_keys = []\<rparr>"

definition get_ro_association :: "('t, 'v) metatypes \<Rightarrow> 'w qstream \<Rightarrow> bytes \<Rightarrow> ('t, 'v) ro_association" where
  "get_ro_association M S i =
     (let (keyTypeName, i1) = get_bytes S i;
          (valueTypeName, i2) = get_bytes S i1;
          c = setTypes M keyTypeName valueTypeName new_ro_association;
          (count, i3) = get_u32 S i2;
          (m, keys) = load_entries M (ra_keyType c) (ra_valueType c) (unat count) (ra_map c, m_keys c) i3
      in c\<lparr>ra_map := m, m_keys := keys\<rparr>)"

definition decode_qas :: "('t, 'v) metatypes \<Rightarrow> 'w qstream \<Rightarrow> qas \<Rightarrow> ('t, 'v) qvariant" where
  "decode_qas M S q =
     (case mt_fromName M (qas_typeName q) of
        None \<Rightarrow> Ro_association ((get_ro_association M S (qas_values q))\<lparr>ra_typeName := qas_typeName q\<rparr>)
      | Some t \<Rightarrow>
          (case mt_association M t of
             None \<Rightarrow> Invalid
           | Some info \<Rightarrow>
               if \<not> ai_viewable info then Invalid
               else if \<not> ai_canSetMapped info then Invalid
               else
                 (let (keyTypeName, i1) = get_bytes S (qas_values q);
                      keyType = (case mt_fromName M keyTypeName of None \<Rightarrow> ai_keyType info | Some k \<Rightarrow> k);
                      (valueTypeName, i2) = get_bytes S i1;
                      valueType = mt_fromName M valueTypeName;
                      (count, i3) = get_u32 S i2
                  in Association t (load_association M t keyType valueType (unat count) [] i3))))"

subsection \<open>\<open>decodeVariant\<close>\<close>

definition is_enum_type :: "('t, 'v) metatypes \<Rightarrow> 't option \<Rightarrow> bool" where
  "is_enum_type M t = (case t of None \<Rightarrow> False | Some t \<Rightarrow> mt_isEnum M t)"

definition decodeVariant :: "('t, 'v) metatypes \<Rightarrow> 'w qstream \<Rightarrow> ('t, 'v) qvariant \<Rightarrow> 't option
    \<Rightarrow> ('t, 'v) qvariant" where
  "decodeVariant M S value metaType =
     (if is_enum_type M metaType then convert M (the metaType) value
      else
        (case value of
           Qsq q \<Rightarrow> decode_qsq M S q
         | Qas q \<Rightarrow> decode_qas M S q
         | _ \<Rightarrow> value))"

subsection \<open>The stand-ins' stream operators\<close>

text \<open>
  \<open>operator<<\<close> of the stand-ins writes to a device at a position, behind which what was written
  before stays. The map's keys are saved from the variants \<open>iter.key()\<close> that iterating the
  \<open>QVariantMap\<close> gives, which hold a \<open>QString\<close>: to save one as another type reads memory of the
  wrong type (\<open>None\<close>); keys of an enum are converted first.
\<close>

record device =
  d_bytes :: bytes
  d_pos :: nat

definition dev_put :: "bytes \<Rightarrow> device \<Rightarrow> device" where
  "dev_put bs d =
     \<lparr>d_bytes = take (d_pos d) (d_bytes d) @ bs @ drop (d_pos d + length bs) (d_bytes d),
      d_pos = d_pos d + length bs\<rparr>"

fun put_values :: "('v \<Rightarrow> bytes option) \<Rightarrow> bytes \<Rightarrow> nat \<Rightarrow> 'v list \<Rightarrow> device \<Rightarrow> device" where
  "put_values save zero pos [] d = d"
| "put_values save zero pos (v # vs) d =
     (case save v of
        None \<Rightarrow> dev_put zero (d\<lparr>d_pos := pos\<rparr>)
      | Some b \<Rightarrow> put_values save zero pos vs (dev_put b d))"

definition put_ro_sequence :: "('t, 'v) metatypes \<Rightarrow> 'w qstream \<Rightarrow> ('t, 'v) ro_sequence \<Rightarrow> device \<Rightarrow> device" where
  "put_ro_sequence M S p d =
     (let d1 = dev_put (put_bytes S (rs_valueTypeName p)) d;
          pos = d_pos d1;
          d2 = dev_put (put_u32 S (of_nat (length (rs_values p)))) d1
      in put_values (save_as M (rs_valueType p)) (put_u32 S 0) pos (rs_values p) d2)"

fun put_entries :: "('t, 'v) metatypes \<Rightarrow> 't option \<Rightarrow> 't option \<Rightarrow> bytes \<Rightarrow> nat \<Rightarrow> (string \<times> 'v) list \<Rightarrow> device
    \<Rightarrow> device option" where
  "put_entries M keyType valueType zero pos [] d = Some d"
| "put_entries M keyType valueType zero pos ((name, val) # es) d =
     (case keyType of
        None \<Rightarrow> Some (dev_put zero (d\<lparr>d_pos := pos\<rparr>))
      | Some kt \<Rightarrow>
          (let tt = transfer_type M kt; key = mt_string M name in
           if tt = kt \<and> tt \<noteq> mt_QString M then None
           else
             (case mt_save M tt (if tt \<noteq> kt then mt_convert M (mt_QString M) tt key else key) of
                None \<Rightarrow> Some (dev_put zero (d\<lparr>d_pos := pos\<rparr>))
              | Some kb \<Rightarrow>
                  (case save_as M valueType val of
                     None \<Rightarrow> Some (dev_put zero ((dev_put kb d)\<lparr>d_pos := pos\<rparr>))
                   | Some vb \<Rightarrow> put_entries M keyType valueType zero pos es (dev_put vb (dev_put kb d))))))"

definition put_ro_association :: "('t, 'v) metatypes \<Rightarrow> 'w qstream \<Rightarrow> ('t, 'v) ro_association \<Rightarrow> device
    \<Rightarrow> device option" where
  "put_ro_association M S p d =
     (let d1 = dev_put (put_bytes S (ra_valueTypeName p)) (dev_put (put_bytes S (ra_keyTypeName p)) d);
          pos = d_pos d1;
          d2 = dev_put (put_u32 S (of_nat (length (ra_map p)))) d1
      in put_entries M (ra_keyType p) (ra_valueType p) (put_u32 S 0) pos (ra_map p) d2)"

end
