(* ===== verification/VariantProps.thy ===== *)
theory VariantProps
  imports Variants LittleEndian
begin

text \<open>
  What arrives of a container that travels as a variant: the elements of a sequence and the
  entries of a map at a receiver that knows the container's type, the stand-in containers at
  one that does not, and what they send on.
\<close>

subsection \<open>Saving and loading items\<close>

definition all_saved :: "('a \<Rightarrow> bytes option) \<Rightarrow> 'a list \<Rightarrow> bool" where
  "all_saved save xs \<longleftrightarrow> list_all (\<lambda>x. save x \<noteq> None) xs"

definition saved :: "('a \<Rightarrow> bytes option) \<Rightarrow> 'a list \<Rightarrow> bytes" where
  "saved save xs = concat (map (\<lambda>x. the (save x)) xs)"

lemma all_saved_simps [simp]:
  "all_saved save []" "all_saved save (x # xs) \<longleftrightarrow> save x \<noteq> None \<and> all_saved save xs"
  by (simp_all add: all_saved_def)

lemma saved_simps [simp]: "saved save [] = []" "saved save (x # xs) = the (save x) @ saved save xs"
  by (simp_all add: saved_def)

lemma save_items_eq:
  "save_items save none xs out = (if all_saved save xs then out @ saved save xs else none)"
  by (induction xs arbitrary: out) (auto split: option.split)

text \<open>What one end's save operator writes the other end's load operator reads.\<close>

definition reads_back :: "('a \<Rightarrow> bytes option) \<Rightarrow> (bytes \<Rightarrow> ('a \<times> bytes) option) \<Rightarrow> bool" where
  "reads_back save load \<longleftrightarrow> (\<forall>x b r. save x = Some b \<longrightarrow> load (b @ r) = Some (x, r))"

lemma reads_backD: "reads_back save load \<Longrightarrow> save x \<noteq> None \<Longrightarrow> load (the (save x) @ r) = Some (x, r)"
  by (auto simp: reads_back_def)

lemma load_values_saved:
  assumes "reads_back save load" and "all_saved save xs"
  shows "load_values load (length xs) vs (saved save xs @ r) = (vs @ xs, r)"
  using assms(2) by (induction xs arbitrary: vs) (simp_all add: reads_backD[OF assms(1)])

lemma load_sequence_saved:
  assumes "reads_back save (mt_load M vt)" and "all_saved save xs"
  shows "load_sequence M t info (Some vt) i (length xs) seq (saved save xs @ r) =
    fold (\<lambda>v. addValue M t (vt, v)) xs seq"
  using assms(2)
  by (induction xs arbitrary: seq i) (simp_all add: reads_backD[OF assms(1)] load_as_def)

lemma build_qsq_values:
  "qsq_values (build_qsq M S tn vn vt vs) =
     put_bytes S vn @ (if all_saved (save_as M vt) vs
                       then put_u32 S (of_nat (length vs)) @ saved (save_as M vt) vs else put_u32 S 0)"
  by (simp add: build_qsq_def Let_def save_items_eq)

lemma build_qsq_names [simp]:
  "qsq_typeName (build_qsq M S tn vn vt vs) = tn" "qsq_valueTypeName (build_qsq M S tn vn vt vs) = vn"
  by (simp_all add: build_qsq_def Let_def)

definition qsq_fits :: "qsq \<Rightarrow> bool" where
  "qsq_fits q \<longleftrightarrow> bytes_fit (qsq_typeName q) \<and> bytes_fit (qsq_valueTypeName q) \<and> bytes_fit (qsq_values q)"

definition qas_fits :: "qas \<Rightarrow> bool" where
  "qas_fits q \<longleftrightarrow> bytes_fit (qas_typeName q) \<and> bytes_fit (qas_keyTypeName q) \<and>
     bytes_fit (qas_valueTypeName q) \<and> bytes_fit (qas_values q)"

context qdata_stream
begin

lemma qsq_rt: "qsq_fits q \<Longrightarrow> get_qsq S (put_qsq S q @ r) = (q, r)"
  by (simp add: get_qsq_def put_qsq_def qsq_fits_def bytes_rt)

lemma qas_rt: "qas_fits q \<Longrightarrow> get_qas S (put_qas S q @ r) = (q, r)"
  by (simp add: get_qas_def put_qas_def qas_fits_def bytes_rt)

text \<open>A \<open>QSQ_\<close> that is read: by a receiver with the container's type, and by one without.\<close>

lemma decode_build_qsq:
  assumes "qsq_fits (build_qsq M S tn vn (Some vt) vs)" and "list_fits vs"
    and "mt_fromName N tn = Some t" and "mt_sequence N t = Some info"
    and "si_viewable info" and "si_canAddValue info"
    and "mt_fromName N vn = Some vt'" and "reads_back (mt_save M vt) (mt_load N vt')"
  shows "decode_qsq N S (build_qsq M S tn vn (Some vt) vs) =
     Sequence t (if all_saved (mt_save M vt) vs then fold (\<lambda>v. addValue N t (vt', v)) vs [] else [])"
proof -
  have vn: "bytes_fit vn" using assms(1) by (simp add: qsq_fits_def)
  have save: "save_as M (Some vt) = mt_save M vt" by (simp add: save_as_def fun_eq_iff)
  have "get_u32 S (put_u32 S 0) = (0, [])" by (rule u32_rt0)
  then show ?thesis
    using assms vn load_sequence_saved[OF assms(8), of vs t info 0 "[]" "[]"]
    by (simp add: decode_qsq_def build_qsq_values save bytes_rt u32_rt list_fits_def unat_of_nat_u32)
qed

lemma get_ro_sequence_build:
  assumes "qsq_fits (build_qsq M S tn vn (Some vt) vs)" and "list_fits vs"
    and "mt_fromName N vn = Some vt'" and "reads_back (mt_save M vt) (mt_load N vt')"
    and "all_saved (mt_save M vt) vs"
  shows "fst (get_ro_sequence N S (qsq_values (build_qsq M S tn vn (Some vt) vs))) =
     \<lparr>rs_typeName = [], rs_valueTypeName = vn, rs_valueType = Some vt', rs_values = vs\<rparr>"
proof -
  have vn: "bytes_fit vn" using assms(1) by (simp add: qsq_fits_def)
  have save: "save_as M (Some vt) = mt_save M vt" and load: "load_as N (Some vt') = mt_load N vt'"
    by (simp_all add: save_as_def load_as_def fun_eq_iff)
  show ?thesis
    using assms vn load_values_saved[OF assms(4,5), of "[]" "[]"]
    by (simp add: get_ro_sequence_def setValueType_def new_ro_sequence_def build_qsq_values save load bytes_rt u32_rt list_fits_def
          unat_of_nat_u32)
qed

end

subsection \<open>Entries of an association\<close>

text \<open>
  The entry that arrives for \<open>(k, v)\<close>: its key in the transfer type. Its type is the receiver's
  \<open>kt'\<close>, and \<open>reads_entry\<close> says that what the sender saves as transfer keys and as values the
  receiver loads.
\<close>

definition transfer_key :: "('t, 'v) metatypes \<Rightarrow> 't \<Rightarrow> 'v \<Rightarrow> 'v" where
  "transfer_key M t k = (if transfer_type M t \<noteq> t then mt_convert M t (transfer_type M t) k else k)"

definition received_key :: "('t, 'v) metatypes \<Rightarrow> 't \<Rightarrow> 'v \<Rightarrow> 'v" where
  "received_key M t k = (if transfer_type M t \<noteq> t then mt_convert M (transfer_type M t) t k else k)"

definition reads_entry :: "('t, 'v) metatypes \<Rightarrow> ('t, 'v) metatypes \<Rightarrow> 't \<Rightarrow> 't \<Rightarrow> 't \<Rightarrow> 't \<Rightarrow> bool" where
  "reads_entry M N kt vt kt' vt' \<longleftrightarrow>
     reads_back (mt_save M (transfer_type M kt)) (mt_load N (transfer_type N kt')) \<and>
     reads_back (mt_save M vt) (mt_load N vt')"

lemma load_saved_entry:
  assumes "reads_entry M N kt vt kt' vt'" and "save_entry M (Some kt) (Some vt) (k, v) = Some b"
  shows "load_entry N (Some (transfer_type N kt')) (Some vt') (b @ r) =
    Some ((transfer_key M kt k, v), r)"
proof -
  obtain kb vb where "mt_save M (transfer_type M kt) (transfer_key M kt k) = Some kb"
    and "mt_save M vt v = Some vb" and "b = kb @ vb"
    using assms(2) by (auto simp: save_entry_def save_as_def transfer_key_def split: option.splits if_splits)
  then show ?thesis
    using assms(1) by (simp add: load_entry_def load_as_def reads_entry_def reads_back_def)
qed

lemma load_association_saved:
  assumes "reads_entry M N kt vt kt' vt'" and "all_saved (save_entry M (Some kt) (Some vt)) kvs"
  shows "load_association N t kt' (Some vt') (length kvs) m
           (saved (save_entry M (Some kt) (Some vt)) kvs @ r) =
    fold (\<lambda>(k, v). setMapped N t (kt', received_key N kt' (transfer_key M kt k)) (vt', v)) kvs m"
  using assms(2)
proof (induction kvs arbitrary: m)
  case (Cons kv kvs)
  obtain k v where kv: "kv = (k, v)" by (cases kv)
  then obtain b where b: "save_entry M (Some kt) (Some vt) (k, v) = Some b" using Cons.prems by auto
  show ?case
    using Cons load_saved_entry[OF assms(1) b] b kv by (simp add: received_key_def Let_def)
qed simp

lemma load_entries_saved:
  assumes "reads_entry M N kt vt kt' vt'" and "all_saved (save_entry M (Some kt) (Some vt)) kvs"
  shows "load_entries N (Some kt') (Some vt') (length kvs) mk
           (saved (save_entry M (Some kt) (Some vt)) kvs @ r) =
    fold (\<lambda>(k, v). insert_entry N (Some kt') (transfer_key M kt k, v)) kvs mk"
  using assms(2)
proof (induction kvs arbitrary: mk)
  case (Cons kv kvs)
  obtain k v where kv: "kv = (k, v)" by (cases kv)
  then obtain b where b: "save_entry M (Some kt) (Some vt) (k, v) = Some b" using Cons.prems by auto
  show ?case using Cons load_saved_entry[OF assms(1) b] b kv by simp
qed simp

text \<open>The string form under which a received entry is inserted.\<close>

definition entry_name :: "('t, 'v) metatypes \<Rightarrow> 't \<Rightarrow> 'v \<Rightarrow> string" where
  "entry_name M kt key =
     (let tt = transfer_type M kt
      in if tt \<noteq> kt \<and> \<not> is_flag M kt then mt_toString M kt (mt_convert M tt kt key)
         else mt_toString M tt key)"

lemma insert_entry_eq:
  "insert_entry M (Some kt) (key, val) (m, keys) =
     (qmap_insert (entry_name M kt key) val m, keys @ [received_key M kt key])"
  by (simp add: insert_entry_def entry_name_def received_key_def Let_def)

lemma qmap_insert_last:
  "list_all (\<lambda>e. fst e < k) m \<Longrightarrow> qmap_insert k v m = m @ [(k, v)]"
  by (induction k v m rule: qmap_insert.induct) (auto dest: order.strict_trans)

text \<open>When the string forms increase, the map keeps the order of the entries.\<close>

lemma fold_insert_sorted:
  assumes "sorted_wrt (<) (map fst m @ map (\<lambda>(k, v). entry_name M kt k) kvs)"
  shows "fold (\<lambda>(k, v). insert_entry M (Some kt) (k, v)) kvs (m, keys) =
    (m @ map (\<lambda>(k, v). (entry_name M kt k, v)) kvs, keys @ map (\<lambda>(k, v). received_key M kt k) kvs)"
  using assms
proof (induction kvs arbitrary: m keys)
  case (Cons kv kvs)
  obtain k v where kv: "kv = (k, v)" by (cases kv)
  have "list_all (\<lambda>e. fst e < entry_name M kt k) m"
    using Cons.prems by (auto simp: kv sorted_wrt_append list_all_iff)
  then show ?case
    using Cons.prems Cons.IH[of "m @ [(entry_name M kt k, v)]" "keys @ [received_key M kt k]"]
    by (simp add: kv insert_entry_eq qmap_insert_last sorted_wrt_append)
qed simp

lemma build_qas_values:
  "qas_values (build_qas M S tn kn vn kt vt kvs) =
     put_bytes S kn @ put_bytes S vn @
       (if all_saved (save_entry M kt vt) kvs
        then put_u32 S (of_nat (length kvs)) @ saved (save_entry M kt vt) kvs else put_u32 S 0)"
  by (simp add: build_qas_def Let_def save_items_eq)

lemma build_qas_names [simp]:
  "qas_typeName (build_qas M S tn kn vn kt vt kvs) = tn"
  "qas_keyTypeName (build_qas M S tn kn vn kt vt kvs) = kn"
  "qas_valueTypeName (build_qas M S tn kn vn kt vt kvs) = vn"
  by (simp_all add: build_qas_def Let_def)

context qdata_stream
begin

lemma decode_build_qas:
  assumes "qas_fits (build_qas M S tn kn vn (Some kt) (Some vt) kvs)" and "list_fits kvs"
    and "mt_fromName N tn = Some t" and "mt_association N t = Some info"
    and "ai_viewable info" and "ai_canSetMapped info"
    and "kt' = (case mt_fromName N kn of None \<Rightarrow> ai_keyType info | Some k \<Rightarrow> k)"
    and "mt_fromName N vn = Some vt'" and "reads_entry M N kt vt kt' vt'"
  shows "decode_qas N S (build_qas M S tn kn vn (Some kt) (Some vt) kvs) =
     Association t (if all_saved (save_entry M (Some kt) (Some vt)) kvs
       then fold (\<lambda>(k, v). setMapped N t (kt', received_key N kt' (transfer_key M kt k)) (vt', v)) kvs []
       else [])"
proof -
  have fit: "bytes_fit kn" "bytes_fit vn" using assms(1) by (simp_all add: qas_fits_def)
  have "get_u32 S (put_u32 S 0) = (0, [])" by (rule u32_rt0)
  then show ?thesis
    using assms(2-6,8) fit load_association_saved[OF assms(9), of kvs t "[]" "[]"]
    unfolding decode_qas_def build_qas_names build_qas_values
    by (simp add: bytes_rt u32_rt list_fits_def unat_of_nat_u32 flip: assms(7))
qed

lemma get_ro_association_build:
  assumes "qas_fits (build_qas M S tn kn vn (Some kt) (Some vt) kvs)" and "list_fits kvs"
    and "mt_fromName N kn = Some kt'" and "mt_fromName N vn = Some vt'"
    and "reads_entry M N kt vt kt' vt'" and "all_saved (save_entry M (Some kt) (Some vt)) kvs"
    and sorted: "sorted_wrt (<) (map (\<lambda>(k, v). entry_name N kt' (transfer_key M kt k)) kvs)"
  shows "get_ro_association N S (qas_values (build_qas M S tn kn vn (Some kt) (Some vt) kvs)) =
     \<lparr>ra_typeName = [], ra_keyTypeName = kn, ra_valueTypeName = vn, ra_keyType = Some kt',
      ra_valueType = Some vt',
      ra_map = map (\<lambda>(k, v). (entry_name N kt' (transfer_key M kt k), v)) kvs,
      m_keys = map (\<lambda>(k, v). received_key N kt' (transfer_key M kt k)) kvs\<rparr>"
proof -
  have fit: "bytes_fit kn" "bytes_fit vn" using assms(1) by (simp_all add: qas_fits_def)
  let ?f = "\<lambda>(k, v). (transfer_key M kt k, v)"
  have fold: "fold (\<lambda>(k, v). insert_entry N (Some kt') (transfer_key M kt k, v)) kvs ([], []) =
      fold (\<lambda>(k, v). insert_entry N (Some kt') (k, v)) (map ?f kvs) ([], [])"
    unfolding fold_map comp_def by (rule fold_cong) (auto simp: case_prod_beta)
  have "fold (\<lambda>(k, v). insert_entry N (Some kt') (transfer_key M kt k, v)) kvs ([], []) =
      (map (\<lambda>(k, v). (entry_name N kt' (transfer_key M kt k), v)) kvs,
       map (\<lambda>(k, v). received_key N kt' (transfer_key M kt k)) kvs)"
    unfolding fold using sorted
    by (subst fold_insert_sorted) (simp_all add: comp_def case_prod_unfold)
  then show ?thesis
    using assms(2-4,6) fit load_entries_saved[OF assms(5,6), of "([], [])" "[]"]
    unfolding get_ro_association_def build_qas_values setTypes_def new_ro_association_def
    by (simp add: bytes_rt u32_rt list_fits_def unat_of_nat_u32)
qed

end

subsection \<open>What arrives\<close>

text \<open>
  C15: a sequence of gadgets arrives with its elements. The sender turns the container into a
  \<open>QSQ_\<close>, its stream operators carry it, and a receiver that has a container type of that name
  builds it from the elements, in their order; when an element cannot be saved the receiver
  gets the empty container.
\<close>

theorem sequence_arrives:
  assumes "qdata_stream S" and "mt_sequence M t = Some info" and "si_valueType info = vt"
    and "mt_isGadget M vt"
    and "mt_fromName N (mt_name M t) = Some t'" and "mt_sequence N t' = Some info'"
    and "si_viewable info'" and "si_canAddValue info'"
    and "mt_fromName N (mt_name M vt) = Some vt'" and "reads_back (mt_save M vt) (mt_load N vt')"
    and "\<forall>v xs. addValue N t' (vt', v) xs = xs @ [v]"
    and "encodeVariant M S (Sequence t vs) = Qsq q" and "qsq_fits q" and "list_fits vs"
    and "\<not> is_enum_type N p"
  shows "decodeVariant N S (Qsq (fst (get_qsq S (put_qsq S q @ rest)))) p =
    Sequence t' (if all_saved (mt_save M vt) vs then vs else [])"
proof -
  have q: "q = build_qsq M S (mt_name M t) (mt_name M vt) (Some vt) vs"
    using assms(2-4,12)
    by (simp add: encodeVariant_def sequential_of_gadgets_def QSQ_of_sequence_def)
  have app: "fold (\<lambda>v. addValue N t' (vt', v)) vs seq = seq @ vs" for seq
    using assms(11) by (induction vs arbitrary: seq) simp_all
  show ?thesis
    using qdata_stream.decode_build_qsq[OF assms(1) assms(13)[unfolded q] assms(14,5-10)]
      qdata_stream.qsq_rt[OF assms(1,13), of rest] app[of "[]"] assms(15)
    by (simp add: decodeVariant_def q)
qed

text \<open>
  C16: a map arrives with its entries, its keys read in the integer type of their size and
  converted back when they are enums; when a key or a value cannot be saved the receiver gets
  the empty map.
\<close>

theorem association_arrives:
  assumes "qdata_stream S" and "mt_association M t = Some info" and "mt_isGadget M (ai_mappedType info)"
    and "kt = ai_keyType info" and "vt = ai_mappedType info"
    and "downstream_names M kt (mt_name M kt, mt_name M t) = (kn, tn)"
    and "mt_fromName N tn = Some t'" and "mt_association N t' = Some info'"
    and "ai_viewable info'" and "ai_canSetMapped info'"
    and "kt' = (case mt_fromName N kn of None \<Rightarrow> ai_keyType info' | Some k \<Rightarrow> k)"
    and "mt_fromName N (mt_name M vt) = Some vt'" and "reads_entry M N kt vt kt' vt'"
    and "list_all (\<lambda>(k, v). received_key N kt' (transfer_key M kt k) = k) kvs"
    and "fold (\<lambda>(k, v). setMapped N t' (kt', k) (vt', v)) kvs [] = kvs"
    and "encodeVariant M S (Association t kvs) = Qas q" and "qas_fits q" and "list_fits kvs"
    and "\<not> is_enum_type N p"
  shows "decodeVariant N S (Qas (fst (get_qas S (put_qas S q @ rest)))) p =
    Association t' (if all_saved (save_entry M (Some kt) (Some vt)) kvs then kvs else [])"
proof -
  have q: "q = build_qas M S tn kn (mt_name M vt) (Some kt) (Some vt) kvs"
    using assms(2-6,16)
    by (simp add: encodeVariant_def association_of_gadgets_def QAS_of_association_def Let_def)
  have keys: "fold (\<lambda>(k, v). setMapped N t' (kt', received_key N kt' (transfer_key M kt k)) (vt', v)) kvs [] =
      fold (\<lambda>(k, v). setMapped N t' (kt', k) (vt', v)) kvs []"
    using assms(14) by (intro fold_cong) (auto simp: list_all_iff)
  show ?thesis
    using qdata_stream.decode_build_qas[OF assms(1) assms(17)[unfolded q] assms(18,7-13)]
      qdata_stream.qas_rt[OF assms(1,17), of rest] keys assms(15,19)
    by (simp add: decodeVariant_def q)
qed

text \<open>
  a node that does not know a container's type forwards it unchanged when it is a sequence:
  the \<open>QSQ_\<close> it sends on is the one it has received.
\<close>

theorem sequence_forwarded:
  assumes "qdata_stream S" and "encodeVariant M S (Sequence t vs) = Qsq q"
    and "mt_sequence M t = Some info" and "si_valueType info = vt"
    and "mt_fromName P (mt_name M t) = None" and "mt_fromName P (mt_name M vt) = Some vt'"
    and "reads_back (mt_save M vt) (mt_load P vt')" and "mt_save P vt' = mt_save M vt"
    and "all_saved (mt_save M vt) vs" and "qsq_fits q" and "list_fits vs"
  shows "encodeVariant P S (decodeVariant P S (Qsq q) None) = Qsq q"
proof -
  have q: "q = build_qsq M S (mt_name M t) (mt_name M vt) (Some vt) vs"
    using assms(2-4)
    by (simp add: encodeVariant_def QSQ_of_sequence_def split: if_splits)
  have "save_as P (Some vt') = save_as M (Some vt)" using assms(8) by (simp add: save_as_def fun_eq_iff)
  then have "build_qsq P S tn vn (Some vt') vs = build_qsq M S tn vn (Some vt) vs" for tn vn
    by (simp add: build_qsq_def)
  then show ?thesis
    using qdata_stream.get_ro_sequence_build[OF assms(1) assms(10)[unfolded q] assms(11,6,7,9)] assms(5)
    by (simp add: decodeVariant_def is_enum_type_def decode_qsq_def q encodeVariant_def QSQ_of_ro_def)
qed

text \<open>
  Maps are forwarded unchanged when the string forms of their keys increase in the order in
  which they travel.
\<close>

lemma association_forwarded:
  assumes "qdata_stream S" and "q = build_qas M S tn kn vn (Some kt) (Some vt) kvs"
    and "mt_fromName P tn = None" and "mt_fromName P kn = Some kt'" and "mt_fromName P vn = Some vt'"
    and "reads_entry M P kt vt kt' vt'" and "all_saved (save_entry M (Some kt) (Some vt)) kvs"
    and sorted: "sorted_wrt (<) (map (\<lambda>(k, v). entry_name P kt' (transfer_key M kt k)) kvs)"
    and same: "list_all (\<lambda>(k, v). save_entry P (Some kt') (Some vt') (received_key P kt' (transfer_key M kt k), v) =
                   save_entry M (Some kt) (Some vt) (k, v)) kvs"
    and "qas_fits q" and "list_fits kvs"
  shows "encodeVariant P S (decodeVariant P S (Qas q) None) = Qas q"
proof -
  let ?recv = "map (\<lambda>(k, v). (received_key P kt' (transfer_key M kt k), v)) kvs"
  have "save_items (save_entry P (Some kt') (Some vt')) none ?recv out =
      save_items (save_entry M (Some kt) (Some vt)) none kvs out" for none out
    using same by (induction kvs arbitrary: out) (auto split: option.split)
  then have "build_qas P S tn kn vn (Some kt') (Some vt') ?recv = q"
    by (simp add: build_qas_def assms(2))
  moreover have "map (\<lambda>i. (map (\<lambda>(k, v). received_key P kt' (transfer_key M kt k)) kvs ! i,
        snd (map (\<lambda>(k, v). (entry_name P kt' (transfer_key M kt k), v)) kvs ! i))) [0..<length kvs] = ?recv"
    by (rule nth_equalityI) (simp_all add: case_prod_unfold)
  moreover have ro: "get_ro_association P S (qas_values q) =
     \<lparr>ra_typeName = [], ra_keyTypeName = kn, ra_valueTypeName = vn, ra_keyType = Some kt',
      ra_valueType = Some vt',
      ra_map = map (\<lambda>(k, v). (entry_name P kt' (transfer_key M kt k), v)) kvs,
      m_keys = map (\<lambda>(k, v). received_key P kt' (transfer_key M kt k)) kvs\<rparr>"
    using qdata_stream.get_ro_association_build[OF assms(1) assms(10)[unfolded assms(2)] assms(11,4-7) sorted]
    by (simp add: assms(2))
  ultimately show ?thesis
    using assms(2,3)
    by (simp add: decodeVariant_def is_enum_type_def decode_qas_def encodeVariant_def QAS_of_ro_def)
qed

subsection \<open>A small set of types\<close>

text \<open>
  Types 0 (a number, one byte), 1 (a gadget, one byte), 2 (an enum of one byte, negated as a
  number), 3 (\<open>qint8\<close>), 5 (a list of gadgets), 6 (a map from numbers) and 7 (a map from the
  enum); \<open>without ts\<close> is a node that does not know the types \<open>ts\<close>.
\<close>

definition two_digits :: "nat \<Rightarrow> string" where
  "two_digits n = (if n < 10 then [char_of (48 + n)] else [char_of (48 + n div 10), char_of (48 + n mod 10)])"

definition without :: "nat list \<Rightarrow> (nat, nat) metatypes" where
  "without ts = \<lparr>mt_name = (\<lambda>t. [of_nat t]),
     mt_fromName = (\<lambda>n. case n of [b] \<Rightarrow> if unat b < 8 \<and> unat b \<notin> set ts then Some (unat b) else None | _ \<Rightarrow> None),
     mt_isEnum = (\<lambda>t. t = 2), mt_isGadget = (\<lambda>t. t = 1), mt_sizeOf = (\<lambda>_. 1),
     mt_metaObject = (\<lambda>_. None), mt_int8 = 3, mt_int16 = 0, mt_int32 = 0,
     mt_save = (\<lambda>t v. if v < 256 \<and> t \<in> set [0, 1, 3] then Some [of_nat v] else None),
     mt_load = (\<lambda>t i. case i of b # r \<Rightarrow> Some (unat b, r) | [] \<Rightarrow> None),
     mt_convert = (\<lambda>s t v. 255 - v), mt_default = (\<lambda>_. 0), mt_toString = (\<lambda>_. two_digits),
     mt_sequence = (\<lambda>t. if t = 5 then Some \<lparr>si_valueType = 1, si_viewable = True, si_canAddValue = True,
                                               si_canRemoveValue = True\<rparr> else None),
     mt_association = (\<lambda>t. if t = 6 then Some \<lparr>ai_keyType = 0, ai_mappedType = 1, ai_viewable = True, ai_canSetMapped = True\<rparr>
                            else if t = 7 then Some \<lparr>ai_keyType = 2, ai_mappedType = 1, ai_viewable = True, ai_canSetMapped = True\<rparr>
                            else None),
     addValue = (\<lambda>t v vs. vs @ [snd v]), removeValue = (\<lambda>t. butlast),
     setMapped = (\<lambda>t k v m. qmap_insert (snd k) (snd v) m),
     mt_QString = 4, mt_string = (\<lambda>s. 0)\<rparr>"

lemma without_reads_back: "t \<in> set [0, 1, 3] \<Longrightarrow> reads_back (mt_save (without ts) t) (mt_load (without us) t)"
  by (auto simp: reads_back_def without_def unat_of_nat split: if_splits)

theorem sequence_arrives_witness:
  "\<exists>q. encodeVariant (without []) le_stream (Sequence 5 [4, 9]) = Qsq q \<and>
     decodeVariant (without []) le_stream (Qsq (fst (get_qsq le_stream (put_qsq le_stream q @ [])))) None =
       Sequence 5 [4, 9]"
proof -
  let ?q = "build_qsq (without []) le_stream [5] [1] (Some 1) [4, 9]"
  let ?i = "\<lparr>si_valueType = 1, si_viewable = True, si_canAddValue = True, si_canRemoveValue = True\<rparr>"
  have info: "mt_sequence (without []) 5 = Some ?i" and gadget: "mt_isGadget (without []) 1"
    and names: "mt_fromName (without []) (mt_name (without []) 5) = Some 5"
      "mt_fromName (without []) (mt_name (without []) 1) = Some 1"
    and add: "\<forall>v xs. addValue (without []) 5 (1, v) xs = xs @ [v]"
    and saved: "all_saved (mt_save (without []) 1) [4, 9]"
    by (simp_all add: without_def)
  have enc: "encodeVariant (without []) le_stream (Sequence 5 [4, 9]) = Qsq ?q"
    by (simp add: encodeVariant_def sequential_of_gadgets_def QSQ_of_sequence_def without_def)
  have "?q = \<lparr>qsq_typeName = [5], qsq_valueTypeName = [1],
      qsq_values = [1, 0, 0, 0, 1, 2, 0, 0, 0, 4, 9]\<rparr>"
    by code_simp
  then have fits: "qsq_fits ?q" by (simp add: qsq_fits_def bytes_fit_def)
  have vt: "si_valueType ?i = 1" and flags: "si_viewable ?i" "si_canAddValue ?i" by simp_all
  have rb: "reads_back (mt_save (without []) 1) (mt_load (without []) 1)"
    by (simp add: without_reads_back)
  have small: "list_fits [4, 9 :: nat]" and p: "\<not> is_enum_type (without []) None"
    by (simp_all add: list_fits_def is_enum_type_def)
  from sequence_arrives[OF le_stream_laws info vt gadget names(1) info flags names(2) rb add enc fits small p,
      of "[]"] saved enc
  show ?thesis by (intro exI[of _ ?q]) simp
qed

lemma without_reads_entry: "t \<in> set [0, 1, 2, 3] \<Longrightarrow> reads_entry (without ts) (without us) t 1 t 1"
proof -
  assume t: "t \<in> set [0, 1, 2, 3]"
  then have "transfer_type (without us) t = transfer_type (without ts) t"
    and "transfer_type (without ts) t \<in> set [0, 1, 3]"
    by (auto simp: transfer_type_def transferTypeForEnum_def without_def)
  with without_reads_back[of _ ts us] show ?thesis by (simp add: reads_entry_def)
qed

theorem association_arrives_witness:
  "\<exists>q. encodeVariant (without []) le_stream (Association 7 [(3, 30), (7, 40)]) = Qas q \<and>
     decodeVariant (without []) le_stream (Qas (fst (get_qas le_stream (put_qas le_stream q @ [])))) None =
       Association 7 [(3, 30), (7, 40)]"
proof -
  let ?M = "without []" and ?kvs = "[(3, 30), (7, 40)] :: (nat \<times> nat) list"
  let ?q = "build_qas ?M le_stream [7] [2] [1] (Some 2) (Some 1) ?kvs"
  let ?i = "\<lparr>ai_keyType = 2, ai_mappedType = 1, ai_viewable = True, ai_canSetMapped = True\<rparr>"
  have info: "mt_association ?M 7 = Some ?i" and gadget: "mt_isGadget ?M (ai_mappedType ?i)"
    and names: "mt_fromName ?M [7] = Some 7" "mt_fromName ?M (mt_name ?M 1) = Some 1"
    and down: "downstream_names ?M 2 (mt_name ?M 2, mt_name ?M 7) = ([2], [7])"
    and kt: "2 = (case mt_fromName ?M [2] of None \<Rightarrow> ai_keyType ?i | Some k \<Rightarrow> k)"
    and ord: "fold (\<lambda>(k, v). setMapped ?M 7 (2, k) (1, v)) ?kvs [] = ?kvs"
    by (simp_all add: without_def downstream_names_def)
  have keys: "list_all (\<lambda>(k, v). received_key ?M 2 (transfer_key ?M 2 k) = k) ?kvs"
    and saved: "all_saved (save_entry ?M (Some 2) (Some 1)) ?kvs"
    by code_simp+
  have enc: "encodeVariant ?M le_stream (Association 7 ?kvs) = Qas ?q"
    using down info
    by (simp add: encodeVariant_def association_of_gadgets_def QAS_of_association_def) (simp add: without_def)
  have "?q = \<lparr>qas_typeName = [7], qas_keyTypeName = [2], qas_valueTypeName = [1],
      qas_values = [1, 0, 0, 0, 2, 1, 0, 0, 0, 1, 2, 0, 0, 0, 252, 30, 248, 40]\<rparr>"
    by code_simp
  then have fits: "qas_fits ?q" by (simp add: qas_fits_def bytes_fit_def)
  have key: "2 = ai_keyType ?i" and val: "1 = ai_mappedType ?i"
    and flags: "ai_viewable ?i" "ai_canSetMapped ?i" by simp_all
  have re: "reads_entry ?M ?M 2 1 2 1" using without_reads_entry[of 2 "[]" "[]"] by simp
  have small: "list_fits ?kvs" and p: "\<not> is_enum_type ?M None"
    by (simp_all add: list_fits_def is_enum_type_def)
  from association_arrives[OF le_stream_laws info gadget key val down names(1) info flags kt names(2) re keys
      ord enc fits small p, of "[]"] saved enc
  show ?thesis by (intro exI[of _ ?q]) simp
qed

theorem sequence_forwarded_witness:
  "\<exists>q. encodeVariant (without []) le_stream (Sequence 5 [4, 9]) = Qsq q \<and>
     encodeVariant (without [5]) le_stream (decodeVariant (without [5]) le_stream (Qsq q) None) = Qsq q"
proof -
  let ?M = "without []" and ?P = "without [5]"
  let ?q = "build_qsq ?M le_stream [5] [1] (Some 1) [4, 9]"
  let ?i = "\<lparr>si_valueType = 1, si_viewable = True, si_canAddValue = True, si_canRemoveValue = True\<rparr>"
  have info: "mt_sequence ?M 5 = Some ?i" and vt: "si_valueType ?i = 1"
    and names: "mt_fromName ?P (mt_name ?M 5) = None" "mt_fromName ?P (mt_name ?M 1) = Some 1"
    and save: "mt_save ?P 1 = mt_save ?M 1" and saved: "all_saved (mt_save ?M 1) [4, 9]"
    by (simp_all add: without_def)
  have enc: "encodeVariant ?M le_stream (Sequence 5 [4, 9]) = Qsq ?q"
    by (simp add: encodeVariant_def sequential_of_gadgets_def QSQ_of_sequence_def without_def)
  have "?q = \<lparr>qsq_typeName = [5], qsq_valueTypeName = [1],
      qsq_values = [1, 0, 0, 0, 1, 2, 0, 0, 0, 4, 9]\<rparr>"
    by code_simp
  then have fits: "qsq_fits ?q" by (simp add: qsq_fits_def bytes_fit_def)
  have rb: "reads_back (mt_save ?M 1) (mt_load ?P 1)" by (simp add: without_reads_back)
  have small: "list_fits [4, 9 :: nat]" by (simp add: list_fits_def)
  from sequence_forwarded[OF le_stream_laws enc info vt names(1,2) rb save saved fits small] enc
  show ?thesis by (intro exI[of _ ?q]) simp
qed

text \<open>
  a map is forwarded with its keys and values mixed up. The stand-in is iterated in the
  order of the string forms of the keys and paired with the keys in the order they arrived:
  the numbers 2 and 10 arrive in this order, ''10'' sorts before ''2'', and the node behind
  the forwarder gets the value of 10 under 2 and the value of 2 under 10.
\<close>

theorem forwarded_map_mixed_up:
  "let sent = encodeVariant (without []) le_stream (Association 6 [(2, 20), (10, 30)]);
       proxied = encodeVariant (without [6]) le_stream (decodeVariant (without [6]) le_stream sent None)
   in decodeVariant (without []) le_stream sent None = Association 6 [(2, 20), (10, 30)] \<and>
      decodeVariant (without []) le_stream proxied None = Association 6 [(2, 30), (10, 20)]"
  by code_simp

text \<open>
  The stand-ins' own stream operators are not used by \<open>encodeVariant\<close>. A failed save writes
  the count 0 but leaves what was saved before it behind the position, and the entries of a map
  are saved from the string keys of the \<open>QVariantMap\<close>, which are not of the key type.
\<close>

lemma stand_in_leaves_saved_items:
  "put_ro_sequence (without []) le_stream
     \<lparr>rs_typeName = [], rs_valueTypeName = [1], rs_valueType = Some 1, rs_values = [4, 300]\<rparr>
     \<lparr>d_bytes = [], d_pos = 0\<rparr> =
   \<lparr>d_bytes = [1, 0, 0, 0, 1, 0, 0, 0, 0, 4], d_pos = 9\<rparr>"
  by code_simp

lemma stand_in_map_saves_strings:
  "put_ro_association (without []) le_stream
     \<lparr>ra_typeName = [], ra_keyTypeName = [0], ra_valueTypeName = [1], ra_keyType = Some 0,
      ra_valueType = Some 1, ra_map = [(''2'', 20)], m_keys = [2]\<rparr> \<lparr>d_bytes = [], d_pos = 0\<rparr> = None"
  by code_simp

end
