(* ===== verification/RegexParser.thy ===== *)
theory RegexParser
  imports Prelude "HOL-Library.Monad_Syntax"
begin

text \<open>
  The parser of \<open>repc\<close>'s \<open>.rep\<close> files: the template \<open>QRegexParser\<close> of
  \<open>repparser/qregexparser.h\<close>, a lexer that takes the longest match among the regular
  expressions a grammar gives for its tokens, and the table driven LR automaton over it.

  The base class \<open>_Table\<close> (generated by \<open>qlalr\<close> from the grammar) is the record
  \<open>lr_table\<close>, and the derived class \<open>_Parser\<close> gives \<open>consumeRule\<close> and \<open>reset\<close>: they are
  parameters, as are the regular expressions themselves, of which the code sees whether and
  what they match (\<open>lex_rx\<close>).
\<close>

subsection \<open>The lexer's state\<close>

text \<open>
  A compiled expression: its match anchored at the start of a subject (the captured groups by
  number, group 0 the whole match), whether a one-character subject has a match or a partial
  match, and the list \<open>namedCaptureGroups()\<close>.
\<close>

record lex_rx =
  rx_match :: "string \<Rightarrow> (nat \<Rightarrow> string) option"
  rx_partial :: "string \<Rightarrow> bool"
  rx_names :: "string list"

record lexer =
  m_regexes :: "lex_rx list"
  regexCandidates :: "char \<Rightarrow> nat list option"
  m_tokens :: "int list"
  m_buffer :: string
  m_lastMatchText :: string
  m_loc :: nat
  m_lastNewlinePosition :: nat
  m_lineno :: nat
  m_tokenNames :: "string list"
  m_captured :: "(string, string) qmap"
  m_maxMatchLen :: int
  m_errorString :: string
  m_names :: "(nat, string) qmap list"

subsection \<open>The generated tables\<close>

record lr_table =
  TERMINAL_COUNT :: int
  ACCEPT_STATE :: int
  EOF_SYMBOL :: int
  RULE_COUNT :: nat
  action_index :: "int \<Rightarrow> int"
  t_action :: "int \<Rightarrow> int \<Rightarrow> int"
  nt_action :: "int \<Rightarrow> int \<Rightarrow> int"
  lhs :: "nat \<Rightarrow> int"
  rhs :: "nat \<Rightarrow> nat"
  rule_index :: "nat \<Rightarrow> nat"
  rule_info :: "nat \<Rightarrow> int"
  spell :: "int \<Rightarrow> string option"

subsection \<open>The constructor\<close>

text \<open>
  The constructor splits the spelling \<open>[name,M]pattern\<close> of a token with the expression
  \<open>\[([_a-zA-Z][_0-9a-zA-Z]*)(,\s*M)?\](.+)$\<close>, searched from the left.
\<close>

definition ident_start :: "char \<Rightarrow> bool" where
  "ident_start c \<longleftrightarrow> c = CHR ''_'' \<or> (CHR ''a'' \<le> c \<and> c \<le> CHR ''z'') \<or> (CHR ''A'' \<le> c \<and> c \<le> CHR ''Z'')"

definition ident_part :: "char \<Rightarrow> bool" where
  "ident_part c \<longleftrightarrow> ident_start c \<or> (CHR ''0'' \<le> c \<and> c \<le> CHR ''9'')"

definition rx_space :: "char \<Rightarrow> bool" where
  "rx_space c \<longleftrightarrow> c \<in> set [CHR '' '', CHR 0x09, CHR 0x0A, CHR 0x0B, CHR 0x0C, CHR 0x0D]"

definition to_line_end :: "string \<Rightarrow> string option" where
  "to_line_end s =
     (let t = takeWhile (\<lambda>c. c \<noteq> CHR 0x0A) s
      in if t \<noteq> [] \<and> (s = t \<or> s = t @ [CHR 0x0A]) then Some t else None)"

fun spell_flag :: "string \<Rightarrow> (bool \<times> string) option" where
  "spell_flag (c # s) =
     (if c = CHR '']'' then Some (False, s)
      else if c = CHR '','' then
        (case dropWhile rx_space s of
           (m # b # t) \<Rightarrow> if m = CHR ''M'' \<and> b = CHR '']'' then Some (True, t) else None
         | _ \<Rightarrow> None)
      else None)"
| "spell_flag [] = None"

fun spell_here :: "string \<Rightarrow> (string \<times> bool \<times> string) option" where
  "spell_here (c # a # s) =
     (if c = CHR ''['' \<and> ident_start a
      then (case spell_flag (dropWhile ident_part s) of
              None \<Rightarrow> None
            | Some (multiline, t) \<Rightarrow>
                map_option (\<lambda>pattern. (a # takeWhile ident_part s, multiline, pattern)) (to_line_end t))
      else None)"
| "spell_here s = None"

fun spell_match :: "string \<Rightarrow> (string \<times> bool \<times> string) option" where
  "spell_match [] = None"
| "spell_match (c # s) = (case spell_here (c # s) of None \<Rightarrow> spell_match s | m \<Rightarrow> m)"

text \<open>
  \<open>group_names\<close> is the loop over the named groups: the names of the numbered groups that have
  one. \<open>add_token\<close> is one turn of the constructor's loop, on the symbol \<open>i\<close>; \<open>compile\<close>
  stands for \<open>QRegularExpression\<close>, with \<open>DotMatchesEverythingOption\<close> when its first
  argument is true, and gives \<open>None\<close> for a pattern that is not valid. A symbol without a
  usable spelling or with an invalid pattern is reported and skipped; the name of a token
  whose pattern is invalid stays in \<open>m_tokenNames\<close> and in the look-up table.
\<close>

definition group_names :: "string list \<Rightarrow> (nat, string) qmap" where
  "group_names ns = filter (\<lambda>e. snd e \<noteq> []) (enumerate 0 ns)"

definition add_token :: "(bool \<Rightarrow> string \<Rightarrow> lex_rx option) \<Rightarrow> lr_table \<Rightarrow> nat
    \<Rightarrow> (string \<rightharpoonup> nat) \<times> lexer \<Rightarrow> (string \<rightharpoonup> nat) \<times> lexer" where
  "add_token compile T i = (\<lambda>(token_lookup, L).
     case spell_match (case spell T (int i) of None \<Rightarrow> [] | Some s \<Rightarrow> s) of
       None \<Rightarrow> (token_lookup, L)
     | Some (token, multiline, pattern) \<Rightarrow>
         (let L1 = L\<lparr>m_tokenNames := m_tokenNames L @ [token]\<rparr>;
              index = (case token_lookup token of None \<Rightarrow> i | Some j \<Rightarrow> j);
              lookup' = (case token_lookup token of None \<Rightarrow> token_lookup(token \<mapsto> i)
                                                  | Some _ \<Rightarrow> token_lookup)
          in case compile multiline pattern of
               None \<Rightarrow> (lookup', L1)
             | Some pat \<Rightarrow>
                 (lookup', L1\<lparr>m_names := m_names L1 @ [group_names (rx_names pat)],
                              m_regexes := m_regexes L1 @ [pat],
                              m_tokens := m_tokens L1 @
                                [if take 6 token = ''ignore'' then -1 else int index]\<rparr>)))"

definition empty_lexer :: "int \<Rightarrow> lexer" where
  "empty_lexer maxMatchLen = \<lparr>m_regexes = [], regexCandidates = (\<lambda>_. None), m_tokens = [],
     m_buffer = [], m_lastMatchText = [], m_loc = 0, m_lastNewlinePosition = 0, m_lineno = 1,
     m_tokenNames = [], m_captured = [], m_maxMatchLen = maxMatchLen, m_errorString = [],
     m_names = []\<rparr>"

definition new_lexer :: "(bool \<Rightarrow> string \<Rightarrow> lex_rx option) \<Rightarrow> lr_table \<Rightarrow> int \<Rightarrow> lexer" where
  "new_lexer compile T maxMatchLen =
     snd (fold (add_token compile T) [1..<nat (lhs T 0)] (Map.empty, empty_lexer maxMatchLen))"

definition setBuffer :: "string \<Rightarrow> lexer \<Rightarrow> lexer" where
  "setBuffer buffer L = L\<lparr>m_buffer := buffer\<rparr>"

definition setErrorString :: "string \<Rightarrow> lexer \<Rightarrow> lexer" where
  "setErrorString error L = L\<lparr>m_errorString := error\<rparr>"

subsection \<open>The next token\<close>

text \<open>\<open>QStringView::mid\<close>, for a start inside the view; a negative length takes the rest.\<close>

definition mid :: "string \<Rightarrow> nat \<Rightarrow> int \<Rightarrow> string" where
  "mid s pos n = (if n < 0 then drop pos s else take (nat n) (drop pos s))"

definition newlines :: "string \<Rightarrow> nat" where
  "newlines s = length (filter (\<lambda>c. c = CHR 0x0A) s)"

text \<open>
  The newlines of the last match: each advances the line number, and the end of the last of
  them, a position in the match, is added to \<open>m_lastNewlinePosition\<close>.
\<close>

definition note_newlines :: "lexer \<Rightarrow> lexer" where
  "note_newlines L =
     (let t = m_lastMatchText L
      in L\<lparr>m_lineno := m_lineno L + newlines t,
           m_lastNewlinePosition := m_lastNewlinePosition L +
             (if newlines t = 0 then 0
              else length t - length (takeWhile (\<lambda>c. c \<noteq> CHR 0x0A) (rev t)))\<rparr>)"

text \<open>The candidates of a character, computed at its first occurrence.\<close>

definition candidates_of :: "lex_rx list \<Rightarrow> char \<Rightarrow> nat list" where
  "candidates_of regexes c = filter (\<lambda>i. rx_partial (regexes ! i) [c]) [0..<length regexes]"

definition note_candidates :: "char \<Rightarrow> lexer \<Rightarrow> lexer" where
  "note_candidates c L =
     (if regexCandidates L c = None
      then L\<lparr>regexCandidates := (regexCandidates L)(c \<mapsto> candidates_of (m_regexes L) c)\<rparr>
      else L)"

text \<open>
  The loop over the candidates, on the pair \<open>maxLen\<close> (with \<open>best\<close> and \<open>bestRegex\<close>, once
  there is one): a longer match replaces the best one, an equally long one does not.
\<close>

definition better_match :: "lex_rx list \<Rightarrow> string \<Rightarrow> nat \<Rightarrow> (nat \<times> (nat \<Rightarrow> string)) option
    \<Rightarrow> (nat \<times> (nat \<Rightarrow> string)) option" where
  "better_match regexes s i best =
     (case rx_match (regexes ! i) s of
        None \<Rightarrow> best
      | Some m \<Rightarrow>
          (case best of
             None \<Rightarrow> Some (i, m)
           | Some (j, m') \<Rightarrow> if length (m 0) > length (m' 0) then Some (i, m) else best))"

definition best_match :: "lex_rx list \<Rightarrow> nat list \<Rightarrow> string \<Rightarrow> (nat \<times> (nat \<Rightarrow> string)) option" where
  "best_match regexes is s = fold (better_match regexes s) is None"

text \<open>The named groups of the match replace the captured ones, if it has named groups at all.\<close>

definition note_captured :: "(nat, string) qmap \<Rightarrow> (nat \<Rightarrow> string) \<Rightarrow> lexer \<Rightarrow> lexer" where
  "note_captured names m L =
     (if names = [] then L
      else L\<lparr>m_captured := fold (\<lambda>(k, n) c. qmap_insert n (m k) c) names []\<rparr>)"

text \<open>
  One turn of the loop of \<open>nextToken\<close>: it returns a token (or \<open>-1\<close> after an error), goes on
  after a match that is to be ignored, or stands behind the end of the buffer (which a
  \<open>setBuffer\<close> after the lexer has run can do: it does not reset \<open>m_loc\<close>).
\<close>

datatype lex_outcome = Deliver int lexer | Ignored lexer | Out_of_buffer

definition lex_turn :: "lr_table \<Rightarrow> lexer \<Rightarrow> lex_outcome" where
  "lex_turn T L =
     (if m_loc L = length (m_buffer L) then Deliver (EOF_SYMBOL T) L
      else if m_loc L > length (m_buffer L) then Out_of_buffer
      else
        (let nextChar = m_buffer L ! m_loc L;
             L1 = note_candidates nextChar (note_newlines L);
             indices = the (regexCandidates L1 nextChar)
         in case best_match (m_regexes L1) indices (mid (m_buffer L1) (m_loc L1) (m_maxMatchLen L1)) of
              None \<Rightarrow>
                Deliver (-1) (setErrorString
                  (''Error generating tokens from file, next characters >'' @
                   mid (m_buffer L1) (m_loc L1) 15 @ ''<'') L1)
            | Some (best, m) \<Rightarrow>
                (let L2 = note_captured (m_names L1 ! best) m L1;
                     L3 = L2\<lparr>m_loc := m_loc L2 + length (m 0), m_lastMatchText := m 0\<rparr>
                 in if m_tokens L1 ! best \<ge> 0 then Deliver (m_tokens L1 ! best) L3
                    else Ignored L3)))"

text \<open>\<open>None\<close> is a loop that never ends, \<open>Some None\<close> the access behind the buffer.\<close>

partial_function (option) nextToken :: "lr_table \<Rightarrow> lexer \<Rightarrow> (int \<times> lexer) option option" where
  "nextToken T L =
     (case lex_turn T L of
        Deliver token L' \<Rightarrow> Some (Some (token, L'))
      | Ignored L' \<Rightarrow> nextToken T L'
      | Out_of_buffer \<Rightarrow> Some None)"

declare nextToken.simps [code]

subsection \<open>The automaton\<close>

text \<open>
  The stacks are arrays of \<open>stackSize\<close> entries, of which those up to \<open>tos\<close> are in use.
  \<open>junk\<close> is what
  \<open>QVarLengthArray::resize\<close> leaves in new integers, \<open>invalid\<close> the empty
  \<open>QVariant\<close>. \<open>consumeRule\<close> sees the lexer (\<open>captured()\<close>, \<open>lineNumber()\<close>) and the value
  stack with its top (\<open>sym\<close>); it says whether to go on, may set the error string, and
  updates the values and its own state.
\<close>

record ('v, 'u) parser =
  p_lexer :: lexer
  stateStack :: "int list"
  parseStack :: "'v list"
  stackSize :: nat
  tos :: nat
  p_user :: 'u

record ('v, 'u) grammar =
  g_table :: lr_table
  consumeRule :: "nat \<Rightarrow> lexer \<Rightarrow> nat \<Rightarrow> 'v list \<Rightarrow> 'u
    \<Rightarrow> bool \<times> string option \<times> 'v list \<times> 'u"
  g_reset :: "'u \<Rightarrow> 'u"
  junk :: int
  invalid :: 'v

definition resize :: "nat \<Rightarrow> 'a \<Rightarrow> 'a list \<Rightarrow> 'a list" where
  "resize n x xs = take n xs @ replicate (n - length xs) x"

definition reallocateStack :: "('v, 'u) grammar \<Rightarrow> ('v, 'u) parser \<Rightarrow> ('v, 'u) parser" where
  "reallocateStack G p =
     (let n = 2 * stackSize p
      in p\<lparr>stackSize := n, stateStack := resize n (junk G) (stateStack p),
           parseStack := resize n (invalid G) (parseStack p)\<rparr>)"

text \<open>\<open>sym(n)\<close> is the value of the \<open>n\<close>th symbol of the rule being consumed.\<close>

definition sym :: "nat \<Rightarrow> 'v list \<Rightarrow> nat \<Rightarrow> 'v" where
  "sym t values n = values ! (t + n - 1)"

definition shift :: "('v, 'u) grammar \<Rightarrow> int \<Rightarrow> ('v, 'u) parser \<Rightarrow> ('v, 'u) parser" where
  "shift G act p =
     (let p1 = p\<lparr>tos := tos p + 1\<rparr>;
          p2 = (if tos p1 = stackSize p1 then reallocateStack G p1 else p1)
      in p2\<lparr>parseStack := (parseStack p2)[tos p2 := parseStack p2 ! (tos p2 - 1)],
            stateStack := (stateStack p2)[tos p2 := act]\<rparr>)"

text \<open>
  The outcome of a turn of the loop of \<open>parse\<close>: accepted, on with the next turn, rejected
  (by \<open>consumeRule\<close> or because there is no action), or a fault: a stack index out of range,
  or the lexer behind its buffer.
\<close>

datatype ('v, 'u) parse_outcome =
    Accepted "('v, 'u) parser"
  | Continue int int "('v, 'u) parser"
  | Rejected "('v, 'u) parser"
  | Stack_fault
  | Buffer_fault

text \<open>
  Reducing by a rule: the symbols of its right-hand side leave the stack, and the slot above
  the state that is then on top gets the state of the left-hand side. \<open>++\<close> is not followed by
  a test of the capacity here.
\<close>

definition reduce :: "('v, 'u) grammar \<Rightarrow> nat \<Rightarrow> int \<Rightarrow> ('v, 'u) parser \<Rightarrow> ('v, 'u) parse_outcome" where
  "reduce G r token p =
     (let T = g_table G in
      if tos p < rhs T r then Stack_fault
      else
        (let act = stateStack p ! (tos p - rhs T r);
             p1 = p\<lparr>tos := tos p - rhs T r + 1\<rparr>;
             (ok, err, values, u) = consumeRule G r (p_lexer p1) (tos p1) (parseStack p1) (p_user p1);
             L = (case err of None \<Rightarrow> p_lexer p1 | Some e \<Rightarrow> setErrorString e (p_lexer p1));
             p2 = p1\<lparr>p_lexer := L, parseStack := values, p_user := u\<rparr>
         in if \<not> ok then Rejected p2
            else if tos p2 \<ge> stackSize p2 then Stack_fault
            else
              (let act' = nt_action T act (lhs T r - TERMINAL_COUNT T)
               in Continue act' token (p2\<lparr>stateStack := (stateStack p2)[tos p2 := act']\<rparr>))))"

definition unknown_token :: string where
  "unknown_token = ''Unknown token encountered''"

text \<open>
  A turn after the lookahead is there: \<open>act\<close> is the state on top of the stack. The lookahead
  is kept by a reduction and used up by a shift.
\<close>

definition act_turn :: "('v, 'u) grammar \<Rightarrow> int \<Rightarrow> int \<Rightarrow> ('v, 'u) parser \<Rightarrow> ('v, 'u) parse_outcome" where
  "act_turn G act token p =
     (let T = g_table G; act' = t_action T act token in
      if stateStack p ! tos p = ACCEPT_STATE T then Accepted p
      else if act' > 0 then Continue act' (-1) (shift G act' p)
      else if act' < 0 then reduce G (nat (- act' - 1)) token p
      else Rejected (p\<lparr>p_lexer := setErrorString unknown_token (p_lexer p)\<rparr>))"

definition parse_turn :: "('v, 'u) grammar \<Rightarrow> int \<Rightarrow> int \<Rightarrow> ('v, 'u) parser
    \<Rightarrow> ('v, 'u) parse_outcome option" where
  "parse_turn G act token p =
     (let T = g_table G in
      if token = -1 \<and> - TERMINAL_COUNT T \<noteq> action_index T act
      then nextToken T (p_lexer p) \<bind>
             (\<lambda>r. case r of
                None \<Rightarrow> Some Buffer_fault
              | Some (token', L) \<Rightarrow> Some (act_turn G act token' (p\<lparr>p_lexer := L\<rparr>)))
      else Some (act_turn G act token p))"

partial_function (option) parse_loop :: "('v, 'u) grammar \<Rightarrow> int \<Rightarrow> int \<Rightarrow> ('v, 'u) parser
    \<Rightarrow> ('v, 'u) parse_outcome option" where
  "parse_loop G act token p =
     parse_turn G act token p \<bind>
       (\<lambda>t. case t of Continue act' token' p' \<Rightarrow> parse_loop G act' token' p' | _ \<Rightarrow> Some t)"

declare parse_loop.simps [code]

definition new_parser :: "lexer \<Rightarrow> 'u \<Rightarrow> ('v, 'u) parser" where
  "new_parser L u = \<lparr>p_lexer = L, stateStack = [], parseStack = [], stackSize = 128, tos = 0,
                     p_user = u\<rparr>"

definition start_parse :: "('v, 'u) grammar \<Rightarrow> ('v, 'u) parser \<Rightarrow> ('v, 'u) parser" where
  "start_parse G p =
     (let p1 = reallocateStack G
                 (p\<lparr>p_lexer := setErrorString [] (p_lexer p), p_user := g_reset G (p_user p), tos := 0\<rparr>)
      in p1\<lparr>tos := 1, stateStack := (stateStack p1)[1 := 0]\<rparr>)"

definition parse :: "('v, 'u) grammar \<Rightarrow> ('v, 'u) parser \<Rightarrow> ('v, 'u) parse_outcome option" where
  "parse G p = parse_loop G 0 (-1) (start_parse G p)"

subsection \<open>The rules of the grammar\<close>

text \<open>
  The right-hand side of a rule as \<open>setDebug\<close> reads it from the tables, and what it prints
  for one of its symbols. The names and patterns are those at the symbol's own index, as they
  are when every terminal before it had a usable spelling.
\<close>

definition rule_rhs :: "lr_table \<Rightarrow> nat \<Rightarrow> int list" where
  "rule_rhs T r = map (rule_info T) [rule_index T r + 1 ..< rule_index T r + 1 + rhs T r]"

definition symbol_name :: "lr_table \<Rightarrow> lexer \<Rightarrow> int \<Rightarrow> string option" where
  "symbol_name T L symbol =
     (if symbol > 0 \<and> symbol < lhs T 0
      then (if nat symbol \<le> length (m_tokenNames L)
            then Some (''token_'' @ m_tokenNames L ! (nat symbol - 1)) else None)
      else spell T symbol)"

end
