(* ===== verification/LexerProps.thy ===== *)
theory LexerProps
  imports RegexParser "HOL-Library.Sublist"
begin

text \<open>
  What the lexer of \<^verbatim>\<open>RegexParser\<close> does: the candidate cache never hides a match, the
  match taken is the first of the longest ones, the text consumed is cut into matches, the
  line number is exact, and a call returns when no ignored expression matches the empty text.
\<close>

subsection \<open>The longest match\<close>

definition longest_first :: "lex_rx list \<Rightarrow> string \<Rightarrow> (nat \<times> (nat \<Rightarrow> string)) option \<Rightarrow> bool" where
  "longest_first regexes s b =
     (case b of
        None \<Rightarrow> \<forall>j < length regexes. rx_match (regexes ! j) s = None
      | Some (i, m) \<Rightarrow>
          i < length regexes \<and> rx_match (regexes ! i) s = Some m \<and>
          (\<forall>j < length regexes. \<forall>m'. rx_match (regexes ! j) s = Some m' \<longrightarrow>
             length (m' 0) \<le> length (m 0) \<and> (j < i \<longrightarrow> length (m' 0) < length (m 0))))"

lemma better_match_None [simp]:
  "rx_match (regexes ! i) s = None \<Longrightarrow> better_match regexes s i best = best"
  by (simp add: better_match_def)

lemma best_match_filter:
  assumes "\<And>i. i \<in> set is \<Longrightarrow> \<not> P i \<Longrightarrow> rx_match (regexes ! i) s = None"
  shows "best_match regexes (filter P is) s = best_match regexes is s"
proof -
  have "fold (better_match regexes s) (filter P is) b = fold (better_match regexes s) is b" for b
    using assms by (induction "is" arbitrary: b) auto
  then show ?thesis by (simp add: best_match_def)
qed

lemma best_match_snoc:
  "best_match regexes (is @ [n]) s = better_match regexes s n (best_match regexes is s)"
  by (simp add: best_match_def)

lemma best_match_prefix_longest:
  "case best_match regexes [0..<n] s of
     None \<Rightarrow> \<forall>j < n. rx_match (regexes ! j) s = None
   | Some (i, m) \<Rightarrow>
       i < n \<and> rx_match (regexes ! i) s = Some m \<and>
       (\<forall>j < n. \<forall>m'. rx_match (regexes ! j) s = Some m' \<longrightarrow>
          length (m' 0) \<le> length (m 0) \<and> (j < i \<longrightarrow> length (m' 0) < length (m 0)))"
proof (induction n)
  case 0
  then show ?case by (simp add: best_match_def)
next
  case (Suc n)
  show ?case
  proof (cases "best_match regexes [0..<n] s")
    case None
    with Suc show ?thesis
      by (auto simp: best_match_snoc better_match_def less_Suc_eq split: option.splits)
  next
    case (Some b)
    obtain i m where b: "b = (i, m)" by (cases b)
    note IH = Suc[unfolded Some b option.case prod.case]
    show ?thesis
    proof (cases "rx_match (regexes ! n) s")
      case None
      with IH show ?thesis by (auto simp: best_match_snoc better_match_def Some b less_Suc_eq)
    next
      case m1: (Some m1)
      show ?thesis
      proof (cases "length (m1 0) > length (m 0)")
        case True
        have "length (m' 0) < length (m1 0)" if "j < n" "rx_match (regexes ! j) s = Some m'" for j m'
          using IH that True by (meson le_less_trans)
        with True m1 show ?thesis
          by (fastforce simp: best_match_snoc better_match_def Some b less_Suc_eq)
      next
        case False
        with IH m1 show ?thesis
          by (auto simp: best_match_snoc better_match_def Some b less_Suc_eq)
      qed
    qed
  qed
qed

lemma best_match_longest:
  "longest_first regexes s (best_match regexes [0..<length regexes] s)"
  using best_match_prefix_longest[where n = "length regexes" and regexes = regexes and s = s] by (simp add: longest_first_def)

lemma longest_first_unique:
  assumes "longest_first regexes s a" and "longest_first regexes s b"
  shows "a = b"
proof -
  have *: "i = j \<and> m = m'" if A: "longest_first regexes s (Some (i, m))"
    and B: "longest_first regexes s (Some (j, m'))" for i m j m'
  proof -
    have "length (m 0) = length (m' 0)" and "\<not> i < j" and "\<not> j < i"
      using A B unfolding longest_first_def option.case prod.case
      by (meson le_antisym, (meson not_less)+)
    with A B show ?thesis by (simp add: longest_first_def)
  qed
  have no: "\<not> longest_first regexes s (Some (i, m))" if "longest_first regexes s None" for i m
    using that by (auto simp: longest_first_def)
  show ?thesis using assms * no by (cases a; cases b) auto
qed

subsection \<open>The lexer's invariant\<close>

text \<open>
  What \<open>QRegularExpression\<close> documents of its matches: an anchored match is a prefix of the
  subject, and an expression that matches a subject has a match or a partial match on the
  subject's first character.
\<close>

definition rx_ok :: "lex_rx \<Rightarrow> bool" where
  "rx_ok x \<longleftrightarrow> (\<forall>s m. rx_match x s = Some m \<longrightarrow> prefix (m 0) s) \<and>
               (\<forall>c s m. rx_match x (c # s) = Some m \<longrightarrow> rx_partial x [c])"

definition lex_inv :: "lexer \<Rightarrow> bool" where
  "lex_inv L \<longleftrightarrow>
     (\<forall>x \<in> set (m_regexes L). rx_ok x) \<and> length (m_tokens L) = length (m_regexes L) \<and>
     (\<forall>c is. regexCandidates L c = Some is \<longrightarrow> is = candidates_of (m_regexes L) c) \<and>
     m_maxMatchLen L \<noteq> 0 \<and> m_loc L \<le> length (m_buffer L)"

text \<open>
  The line number is that of the last match's start: the newlines of the text before it.
\<close>

definition line_inv :: "lexer \<Rightarrow> bool" where
  "line_inv L \<longleftrightarrow>
     (\<exists>before. take (m_loc L) (m_buffer L) = before @ m_lastMatchText L \<and>
               m_lineno L = 1 + newlines before)"

lemma newlines_append [simp]: "newlines (s @ t) = newlines s + newlines t"
  by (simp add: newlines_def)

lemma newlines_Nil [simp]: "newlines [] = 0"
  by (simp add: newlines_def)

lemma note_newlines_fields [simp]:
  "m_regexes (note_newlines L) = m_regexes L"
  "regexCandidates (note_newlines L) = regexCandidates L"
  "m_tokens (note_newlines L) = m_tokens L" "m_buffer (note_newlines L) = m_buffer L"
  "m_lastMatchText (note_newlines L) = m_lastMatchText L" "m_loc (note_newlines L) = m_loc L"
  "m_lineno (note_newlines L) = m_lineno L + newlines (m_lastMatchText L)"
  "m_captured (note_newlines L) = m_captured L"
  "m_maxMatchLen (note_newlines L) = m_maxMatchLen L" "m_names (note_newlines L) = m_names L"
  by (simp_all add: note_newlines_def Let_def)

lemma note_candidates_fields [simp]:
  "m_regexes (note_candidates c L) = m_regexes L" "m_tokens (note_candidates c L) = m_tokens L"
  "m_buffer (note_candidates c L) = m_buffer L"
  "m_lastMatchText (note_candidates c L) = m_lastMatchText L"
  "m_loc (note_candidates c L) = m_loc L" "m_lineno (note_candidates c L) = m_lineno L"
  "m_captured (note_candidates c L) = m_captured L"
  "m_maxMatchLen (note_candidates c L) = m_maxMatchLen L"
  "m_names (note_candidates c L) = m_names L"
  by (simp_all add: note_candidates_def)

lemma note_captured_fields [simp]:
  "m_regexes (note_captured ns m L) = m_regexes L"
  "regexCandidates (note_captured ns m L) = regexCandidates L"
  "m_tokens (note_captured ns m L) = m_tokens L" "m_buffer (note_captured ns m L) = m_buffer L"
  "m_lastMatchText (note_captured ns m L) = m_lastMatchText L"
  "m_loc (note_captured ns m L) = m_loc L" "m_lineno (note_captured ns m L) = m_lineno L"
  "m_maxMatchLen (note_captured ns m L) = m_maxMatchLen L"
  by (simp_all add: note_captured_def)

lemma setErrorString_fields [simp]:
  "m_regexes (setErrorString e L) = m_regexes L"
  "regexCandidates (setErrorString e L) = regexCandidates L"
  "m_tokens (setErrorString e L) = m_tokens L" "m_buffer (setErrorString e L) = m_buffer L"
  "m_lastMatchText (setErrorString e L) = m_lastMatchText L"
  "m_loc (setErrorString e L) = m_loc L" "m_lineno (setErrorString e L) = m_lineno L"
  "m_maxMatchLen (setErrorString e L) = m_maxMatchLen L"
  "m_errorString (setErrorString e L) = e"
  by (simp_all add: setErrorString_def)

lemma lex_inv_error [simp]: "lex_inv (setErrorString e L) = lex_inv L"
  by (simp add: lex_inv_def)

lemma candidates_noted:
  assumes "lex_inv L"
  shows "regexCandidates (note_candidates c L) c = Some (candidates_of (m_regexes L) c)"
  using assms by (auto simp: note_candidates_def lex_inv_def)

lemma candidates_inv:
  assumes "lex_inv L" and "regexCandidates (note_candidates c L) d = Some is"
  shows "is = candidates_of (m_regexes L) d"
  using assms by (auto simp: note_candidates_def lex_inv_def split: if_splits)

lemma mid_Cons:
  assumes "pos < length s" and "n \<noteq> 0"
  obtains t where "mid s pos n = s ! pos # t"
proof -
  have "drop pos s = s ! pos # drop (Suc pos) s" using assms(1) by (simp add: Cons_nth_drop_Suc)
  then have "mid s pos n = s ! pos # (if n < 0 then drop (Suc pos) s else take (nat n - 1) (drop (Suc pos) s))"
    using assms(2) by (cases "nat n") (auto simp: mid_def)
  then show ?thesis by (rule that)
qed

text \<open>The cache only drops expressions that cannot match here.\<close>

lemma candidates_complete:
  assumes "lex_inv L" and "m_loc L < length (m_buffer L)"
  shows "best_match (m_regexes L) (candidates_of (m_regexes L) (m_buffer L ! m_loc L))
           (mid (m_buffer L) (m_loc L) (m_maxMatchLen L)) =
         best_match (m_regexes L) [0..<length (m_regexes L)]
           (mid (m_buffer L) (m_loc L) (m_maxMatchLen L))"
proof -
  obtain t where t: "mid (m_buffer L) (m_loc L) (m_maxMatchLen L) = m_buffer L ! m_loc L # t"
    by (rule mid_Cons[of "m_loc L" "m_buffer L" "m_maxMatchLen L"])
       (use assms in \<open>auto simp: lex_inv_def\<close>)
  show ?thesis unfolding candidates_of_def t
  proof (rule best_match_filter)
    fix i assume "i \<in> set [0..<length (m_regexes L)]"
      and no: "\<not> rx_partial (m_regexes L ! i) [m_buffer L ! m_loc L]"
    then have "rx_ok (m_regexes L ! i)" using assms(1) by (simp add: lex_inv_def)
    then show "rx_match (m_regexes L ! i) (m_buffer L ! m_loc L # t) = None"
      using no by (metis not_Some_eq rx_ok_def)
  qed
qed

subsection \<open>One turn\<close>

definition same_lexer :: "lexer \<Rightarrow> lexer \<Rightarrow> bool" where
  "same_lexer L L' \<longleftrightarrow> m_regexes L' = m_regexes L \<and> m_tokens L' = m_tokens L \<and>
     m_buffer L' = m_buffer L \<and> m_maxMatchLen L' = m_maxMatchLen L"

lemma same_lexer_refl [simp]: "same_lexer L L"
  by (simp add: same_lexer_def)

lemma same_lexer_trans: "same_lexer L L1 \<Longrightarrow> same_lexer L1 L2 \<Longrightarrow> same_lexer L L2"
  by (simp add: same_lexer_def)

lemma same_lexer_error [simp]: "same_lexer L (setErrorString e L') = same_lexer L L'"
  by (simp add: same_lexer_def)

text \<open>The subject of a turn's matches.\<close>

definition subject :: "lexer \<Rightarrow> string" where
  "subject L = mid (m_buffer L) (m_loc L) (m_maxMatchLen L)"

definition after_match :: "lexer \<Rightarrow> (nat \<Rightarrow> string) \<Rightarrow> lexer \<Rightarrow> bool" where
  "after_match L m L' \<longleftrightarrow> same_lexer L L' \<and> m_loc L' = m_loc L + length (m 0) \<and>
     m_lastMatchText L' = m 0 \<and> m_lineno L' = m_lineno L + newlines (m_lastMatchText L)"

lemma prefix_mid: "prefix p (mid s pos n) \<Longrightarrow> prefix p (drop pos s)"
  by (auto simp: mid_def split: if_splits dest: prefix_order.trans[OF _ take_is_prefix])

lemma lex_turn_unfold:
  assumes "lex_inv L" and "m_loc L < length (m_buffer L)"
  shows "lex_turn T L =
     (let L1 = note_candidates (m_buffer L ! m_loc L) (note_newlines L)
      in case best_match (m_regexes L) [0..<length (m_regexes L)] (subject L) of
           None \<Rightarrow> Deliver (-1) (setErrorString
             (''Error generating tokens from file, next characters >'' @
              mid (m_buffer L) (m_loc L) 15 @ ''<'') L1)
         | Some (best, m) \<Rightarrow>
             (let L2 = note_captured (m_names L ! best) m L1;
                  L3 = L2\<lparr>m_loc := m_loc L2 + length (m 0), m_lastMatchText := m 0\<rparr>
              in if m_tokens L ! best \<ge> 0 then Deliver (m_tokens L ! best) L3 else Ignored L3))"
proof -
  have "lex_inv (note_newlines L)" using assms(1) by (simp add: lex_inv_def)
  then show ?thesis
    using assms candidates_noted[of "note_newlines L" "m_buffer L ! m_loc L"]
      candidates_complete[OF assms]
    by (simp add: lex_turn_def Let_def subject_def split: option.split)
qed

lemma turn_inv:
  assumes "lex_inv L" and "loc \<le> length (m_buffer L)"
  shows "lex_inv ((note_captured ns m (note_candidates c (note_newlines L)))
                    \<lparr>m_loc := loc, m_lastMatchText := t\<rparr>)"
proof -
  have "lex_inv (note_newlines L)" using assms(1) by (simp add: lex_inv_def)
  then show ?thesis
    using assms candidates_inv[of "note_newlines L" c] by (simp add: lex_inv_def)
qed

lemma turn_inv_error:
  "lex_inv L \<Longrightarrow> lex_inv (setErrorString e (note_candidates c (note_newlines L)))"
  using turn_inv[where ns = "[]" and loc = "m_loc L" and L = L and c = c]
  by (simp add: lex_inv_def note_captured_def)

text \<open>The match of a turn is the first longest one of all expressions, and it lies in the buffer.\<close>

lemma lex_turn_match:
  assumes inv: "lex_inv L" and loc: "m_loc L < length (m_buffer L)"
    and best: "longest_first (m_regexes L) (subject L) (Some (i, m))"
  shows "\<exists>L'. lex_turn T L = (if m_tokens L ! i \<ge> 0 then Deliver (m_tokens L ! i) L' else Ignored L') \<and>
             lex_inv L' \<and> after_match L m L' \<and>
             take (m_loc L') (m_buffer L) = take (m_loc L) (m_buffer L) @ m 0"
proof -
  have b: "best_match (m_regexes L) [0..<length (m_regexes L)] (subject L) = Some (i, m)"
    by (rule longest_first_unique[OF best_match_longest best])
  have i: "i < length (m_regexes L)" and m: "rx_match (m_regexes L ! i) (subject L) = Some m"
    using best by (simp_all add: longest_first_def)
  have "rx_ok (m_regexes L ! i)" using inv i by (simp add: lex_inv_def)
  then have "prefix (m 0) (subject L)" using m by (simp add: rx_ok_def)
  then have "prefix (m 0) (drop (m_loc L) (m_buffer L))" by (auto simp: subject_def intro: prefix_mid)
  then obtain rest where rest: "drop (m_loc L) (m_buffer L) = m 0 @ rest" by (auto elim: prefixE)
  have fits: "m_loc L + length (m 0) \<le> length (m_buffer L)"
    using arg_cong[OF rest, of length] loc by simp
  have cut: "take (m_loc L + length (m 0)) (m_buffer L) = take (m_loc L) (m_buffer L) @ m 0"
    by (simp add: take_add rest)
  define L' where "L' = (note_captured (m_names L ! i) m
      (note_candidates (m_buffer L ! m_loc L) (note_newlines L)))
        \<lparr>m_loc := m_loc L + length (m 0), m_lastMatchText := m 0\<rparr>"
  show ?thesis
  proof (intro exI[of _ L'] conjI)
    show "lex_turn T L = (if m_tokens L ! i \<ge> 0 then Deliver (m_tokens L ! i) L' else Ignored L')"
      by (simp add: lex_turn_unfold[OF inv loc] b Let_def L'_def)
    show "lex_inv L'" unfolding L'_def by (rule turn_inv[OF inv fits])
    show "after_match L m L'" by (simp add: after_match_def same_lexer_def L'_def)
    show "take (m_loc L') (m_buffer L) = take (m_loc L) (m_buffer L) @ m 0"
      using cut by (simp add: L'_def)
  qed
qed

lemma lex_turn_no_match:
  assumes inv: "lex_inv L" and loc: "m_loc L < length (m_buffer L)"
    and best: "longest_first (m_regexes L) (subject L) None"
  shows "\<exists>L'. lex_turn T L = Deliver (-1) L' \<and> lex_inv L' \<and> same_lexer L L' \<and>
             m_loc L' = m_loc L \<and> m_lastMatchText L' = m_lastMatchText L \<and>
             m_lineno L' = m_lineno L + newlines (m_lastMatchText L) \<and>
             m_errorString L' = ''Error generating tokens from file, next characters >'' @
               mid (m_buffer L) (m_loc L) 15 @ ''<''"
proof -
  have "best_match (m_regexes L) [0..<length (m_regexes L)] (subject L) = None"
    by (rule longest_first_unique[OF best_match_longest best])
  then show ?thesis
    using turn_inv_error[OF inv, of _ "m_buffer L ! m_loc L"]
    by (simp add: lex_turn_unfold[OF inv loc] Let_def) (simp add: same_lexer_def)
qed

lemma lex_turn_cases:
  assumes inv: "lex_inv L" and loc: "m_loc L < length (m_buffer L)"
  obtains (none) "longest_first (m_regexes L) (subject L) None"
  | (some) i m where "longest_first (m_regexes L) (subject L) (Some (i, m))"
  using best_match_longest[of "m_regexes L" "subject L"]
  by (metis option.exhaust surj_pair)

subsection \<open>The buffer is cut into matches\<close>

text \<open>
  The text \<open>s\<close> is cut into first longest matches, of which those that are not ignored give
  the tokens \<open>ts\<close>, up to the rest \<open>s'\<close>.
\<close>

inductive munches :: "lex_rx list \<Rightarrow> int list \<Rightarrow> int \<Rightarrow> string \<Rightarrow> int list \<Rightarrow> string \<Rightarrow> bool"
  for R toks n where
  munch_start: "munches R toks n s [] s"
| munch_snoc: "munches R toks n s ts s' \<Longrightarrow> s' \<noteq> [] \<Longrightarrow> longest_first R (mid s' 0 n) (Some (i, m)) \<Longrightarrow>
    munches R toks n s (if toks ! i \<ge> 0 then ts @ [toks ! i] else ts) (drop (length (m 0)) s')"

lemma munches_trans:
  "munches R toks n s' us s'' \<Longrightarrow> munches R toks n s ts s' \<Longrightarrow> munches R toks n s (ts @ us) s''"
proof (induction rule: munches.induct)
  case (munch_snoc s' us s'' i m)
  from munches.munch_snoc[OF munch_snoc.IH[OF munch_snoc.prems] munch_snoc.hyps(2,3)]
  show ?case by (simp split: if_splits)
qed simp

definition munched :: "lexer \<Rightarrow> int list \<Rightarrow> lexer \<Rightarrow> bool" where
  "munched L ts L' \<longleftrightarrow> same_lexer L L' \<and> lex_inv L' \<and>
     munches (m_regexes L) (m_tokens L) (m_maxMatchLen L) (drop (m_loc L) (m_buffer L)) ts
       (drop (m_loc L') (m_buffer L))"

lemma munched_refl: "lex_inv L \<Longrightarrow> munched L [] L"
  by (simp add: munched_def munch_start)

lemma munched_trans: "munched L ts L1 \<Longrightarrow> munched L1 us L2 \<Longrightarrow> munched L (ts @ us) L2"
  unfolding munched_def using same_lexer_trans by (auto simp: same_lexer_def intro: munches_trans)

lemma munched_error [simp]: "munched L ts (setErrorString e L') = munched L ts L'"
  by (simp add: munched_def)

lemma munched_turn:
  assumes inv: "lex_inv L" and loc: "m_loc L < length (m_buffer L)"
    and best: "longest_first (m_regexes L) (subject L) (Some (i, m))"
    and L': "lex_inv L'" "after_match L m L'"
  shows "munched L (if m_tokens L ! i \<ge> 0 then [m_tokens L ! i] else []) L'"
proof -
  have "longest_first (m_regexes L) (mid (drop (m_loc L) (m_buffer L)) 0 (m_maxMatchLen L)) (Some (i, m))"
    using best by (simp add: subject_def mid_def split: if_splits)
  from munch_snoc[OF munch_start _ this, of "m_tokens L"] loc L' show ?thesis
    by (simp add: munched_def after_match_def drop_drop add.commute split: if_splits)
qed

subsection \<open>\<open>nextToken\<close>\<close>

definition tokens_ok :: "lr_table \<Rightarrow> lexer \<Rightarrow> bool" where
  "tokens_ok T L \<longleftrightarrow> 0 \<le> EOF_SYMBOL T \<and> EOF_SYMBOL T \<notin> set (m_tokens L)"

definition delivered :: "lr_table \<Rightarrow> int \<Rightarrow> int list" where
  "delivered T token = (if token = -1 \<or> token = EOF_SYMBOL T then [] else [token])"

definition lex_result :: "lr_table \<Rightarrow> lexer \<Rightarrow> int \<Rightarrow> lexer \<Rightarrow> bool" where
  "lex_result T L token L' \<longleftrightarrow> munched L (delivered T token) L' \<and>
     (token = EOF_SYMBOL T \<longrightarrow> m_loc L' = length (m_buffer L)) \<and>
     (token = -1 \<or> token = EOF_SYMBOL T \<or> 0 \<le> token \<and> token \<in> set (m_tokens L)) \<and>
     (token = -1 \<longrightarrow> longest_first (m_regexes L) (subject L') None) \<and>
     (token \<noteq> -1 \<longrightarrow> line_inv L \<longrightarrow> line_inv L')"

lemma line_inv_turn:
  assumes "line_inv L" and "after_match L m L'"
    and "take (m_loc L') (m_buffer L) = take (m_loc L) (m_buffer L) @ m 0"
  shows "line_inv L'"
proof -
  obtain before where "take (m_loc L) (m_buffer L) = before @ m_lastMatchText L"
    and "m_lineno L = 1 + newlines before"
    using assms(1) by (auto simp: line_inv_def)
  then show ?thesis
    using assms(2,3)
    by (auto simp: line_inv_def after_match_def same_lexer_def intro!: exI[of _ "before @ m_lastMatchText L"])
qed

lemma nextToken_sound:
  assumes "nextToken T L = Some r" and "lex_inv L" and "tokens_ok T L"
  shows "\<exists>token L'. r = Some (token, L') \<and> lex_result T L token L'"
  using assms
proof (induction rule: nextToken.raw_induct[rotated, consumes 1, case_names turn])
  case (turn next_token T L r)
  note IH = turn(1) and run = turn(2) and inv = turn(3) and ok = turn(4)
  show ?case
  proof (cases "m_loc L = length (m_buffer L)")
    case True
    then have "r = Some (EOF_SYMBOL T, L)" using run by (simp add: lex_turn_def)
    then show ?thesis
      using True ok munched_refl[OF inv] by (simp add: lex_result_def delivered_def tokens_ok_def)
  next
    case False
    then have loc: "m_loc L < length (m_buffer L)" using inv by (simp add: lex_inv_def)
    show ?thesis
    proof (cases rule: lex_turn_cases[OF inv loc])
      case 1
      then obtain L' where turn: "lex_turn T L = Deliver (-1) L'" and L': "lex_inv L'" "same_lexer L L'"
        "m_loc L' = m_loc L"
        using lex_turn_no_match[OF inv loc] by blast
      then have "munched L [] L'" by (simp add: munched_def munch_start)
      then have "lex_result T L (-1) L'" using ok L'(2,3) 1 
        by (simp add: lex_result_def delivered_def tokens_ok_def subject_def same_lexer_def)
      moreover have "r = Some (-1, L')" using run turn by simp
      ultimately show ?thesis by blast
    next
      case (2 i m)
      have i: "i < length (m_tokens L)" using 2 inv by (simp add: longest_first_def lex_inv_def)
      obtain L' where turn: "lex_turn T L = (if m_tokens L ! i \<ge> 0 then Deliver (m_tokens L ! i) L' else Ignored L')"
        and L': "lex_inv L'" "after_match L m L'"
        and cut: "take (m_loc L') (m_buffer L) = take (m_loc L) (m_buffer L) @ m 0"
        using lex_turn_match[OF inv loc 2] by blast
      note m = munched_turn[OF inv loc 2 L'] and line = line_inv_turn[OF _ L'(2) cut]
      show ?thesis
      proof (cases "m_tokens L ! i \<ge> 0")
        case True
        then have "r = Some (m_tokens L ! i, L')" using run turn by simp
        moreover have "m_tokens L ! i \<in> set (m_tokens L)" using i by simp
        moreover have "m_tokens L ! i \<noteq> EOF_SYMBOL T" using calculation(2) ok by (auto simp: tokens_ok_def)
        ultimately show ?thesis
          using m True line by (simp add: lex_result_def delivered_def)
      next
        case False
        then have "next_token T L' = Some r" using run turn by simp
        moreover have same: "same_lexer L L'" using L'(2) by (simp add: after_match_def)
        ultimately obtain token L'' where "r = Some (token, L'')" and res: "lex_result T L' token L''"
          using IH L'(1) ok by (metis tokens_ok_def same_lexer_def)
        moreover have "munched L (delivered T token) L''"
          using munched_trans[of L "[]" L' "delivered T token" L''] m False res
          by (simp add: lex_result_def)
        ultimately show ?thesis
          using same line by (simp add: lex_result_def same_lexer_def)
      qed
    qed
  qed
qed

text \<open>
  A call returns when the ignored expressions match no empty text: every turn that goes on
  then moves forward in the buffer.
\<close>

definition ignored_advance :: "lexer \<Rightarrow> bool" where
  "ignored_advance L \<longleftrightarrow> (\<forall>i < length (m_regexes L). m_tokens L ! i < 0 \<longrightarrow>
     (\<forall>s m. rx_match (m_regexes L ! i) s = Some m \<longrightarrow> m 0 \<noteq> []))"

lemma nextToken_terminates:
  assumes "lex_inv L" and "ignored_advance L"
  shows "\<exists>r. nextToken T L = Some r"
  using assms
proof (induction "length (m_buffer L) - m_loc L" arbitrary: L rule: less_induct)
  case less
  note inv = less.prems(1)
  show ?case
  proof (cases "m_loc L = length (m_buffer L)")
    case True
    then show ?thesis by (simp add: nextToken.simps[of T L] lex_turn_def)
  next
    case False
    then have loc: "m_loc L < length (m_buffer L)" using inv by (simp add: lex_inv_def)
    show ?thesis
    proof (cases rule: lex_turn_cases[OF inv loc])
      case 1
      then obtain L' where "lex_turn T L = Deliver (-1) L'"
        using lex_turn_no_match[OF inv loc] by blast
      then show ?thesis by (simp add: nextToken.simps[of T L])
    next
      case (2 i m)
      obtain L' where turn: "lex_turn T L = (if m_tokens L ! i \<ge> 0 then Deliver (m_tokens L ! i) L' else Ignored L')"
        and L': "lex_inv L'" "after_match L m L'"
        using lex_turn_match[OF inv loc 2] by blast
      have go: ?thesis if neg: "m_tokens L ! i < 0"
      proof -
        have "m 0 \<noteq> []"
          using 2 less.prems(2) neg by (auto simp: longest_first_def ignored_advance_def)
        then have "length (m 0) > 0" by simp
        then have "length (m_buffer L') - m_loc L' < length (m_buffer L) - m_loc L"
          using L'(2) loc by (auto simp: after_match_def same_lexer_def diff_less_mono2)
        moreover have "ignored_advance L'"
          using less.prems(2) L'(2) by (simp add: ignored_advance_def after_match_def same_lexer_def)
        ultimately have "\<exists>r. nextToken T L' = Some r" using less.hyps L'(1) by blast
        then show ?thesis using turn neg by (simp add: nextToken.simps[of T L])
      qed
      then show ?thesis using turn by (cases "m_tokens L ! i \<ge> 0") (auto simp: nextToken.simps[of T L])
    qed
  qed
qed

end
