(* ===== verification/ParserProps.thy ===== *)
theory ParserProps
  imports LexerProps
begin

text \<open>
  The soundness of \<^verbatim>\<open>parse\<close>: for tables that are those of an LR automaton of the grammar
  (\<open>lr_ok\<close>, an executable check of the tables against the automaton's items), a parse that
  accepts has read the whole buffer, and the sequence of its tokens derives from the goal.
\<close>

subsection \<open>Derivations\<close>

text \<open>
  \<open>derives T Xs ts\<close>: the symbols \<open>Xs\<close> derive the terminals \<open>ts\<close>, by the rules that the tables
  list.
\<close>

inductive derives :: "lr_table \<Rightarrow> int list \<Rightarrow> int list \<Rightarrow> bool" for T where
  derives_Nil: "derives T [] []"
| derives_terminal: "0 \<le> a \<Longrightarrow> a < TERMINAL_COUNT T \<Longrightarrow> derives T Xs ts \<Longrightarrow> derives T (a # Xs) (a # ts)"
| derives_rule: "r < RULE_COUNT T \<Longrightarrow> derives T (rule_rhs T r) us \<Longrightarrow> derives T Xs ts \<Longrightarrow>
    derives T (lhs T r # Xs) (us @ ts)"

lemma derives_append: "derives T Xs us \<Longrightarrow> derives T Ys vs \<Longrightarrow> derives T (Xs @ Ys) (us @ vs)"
  by (induction rule: derives.induct) (auto intro: derives.intros)

lemma derives_split:
  assumes "derives T (Xs @ Ys) ts"
  shows "\<exists>us vs. ts = us @ vs \<and> derives T Xs us \<and> derives T Ys vs"
  using assms
proof (induction "Xs @ Ys" ts arbitrary: Xs rule: derives.induct)
  case derives_Nil
  then show ?case by (auto intro: derives.derives_Nil)
next
  case (derives_terminal a Zs ts)
  show ?case
  proof (cases Xs)
    case Nil
    then show ?thesis
      using derives.derives_terminal[OF derives_terminal(1-3)] derives_terminal.hyps(5)
      by (metis append_Nil derives.derives_Nil)
  next
    case (Cons X Xs')
    then obtain us vs where "ts = us @ vs" "derives T Xs' us" "derives T Ys vs"
      using derives_terminal by (metis append_Cons list.inject)
    then show ?thesis
      using Cons derives_terminal.hyps by (metis append_Cons derives.derives_terminal list.inject)
  qed
next
  case (derives_rule r us Zs ts)
  show ?case
  proof (cases Xs)
    case Nil
    then show ?thesis
      using derives.derives_rule[OF derives_rule(1,2,4)] derives_rule.hyps(6)
      by (metis append_Nil derives.derives_Nil)
  next
    case (Cons X Xs')
    then obtain us' vs where "ts = us' @ vs" "derives T Xs' us'" "derives T Ys vs"
      using derives_rule by (metis append_Cons list.inject)
    then show ?thesis
      using Cons derives_rule.hyps by (metis append_Cons append_assoc derives.derives_rule list.inject)
  qed
qed

subsection \<open>The automaton's certificate\<close>

text \<open>
  The automaton behind the tables: its edges (state, symbol, state), and for every state the
  items (rule, dot) it holds. \<open>lr_ok\<close> checks the tables against it: a shift or a goto goes
  along an edge, a state reduces by a rule whose complete item it holds, and an edge moves the
  dot of the items of its target over its symbol.
\<close>

record automaton =
  edges :: "(int \<times> int \<times> int) list"
  items :: "(int \<times> nat \<times> nat) list"
  a_goal :: nat

definition edges_ok :: "lr_table \<Rightarrow> automaton \<Rightarrow> bool" where
  "edges_ok T A \<longleftrightarrow>
     (\<forall>(q, X, q') \<in> set (edges A). q' \<noteq> 0 \<and> (X = EOF_SYMBOL T \<longrightarrow> q' = ACCEPT_STATE T))"

definition items_ok :: "lr_table \<Rightarrow> automaton \<Rightarrow> bool" where
  "items_ok T A \<longleftrightarrow>
     (\<forall>(q, r, k) \<in> set (items A).
        (k \<noteq> 0 \<longrightarrow> q \<noteq> 0 \<and> k \<le> rhs T r \<and>
           (\<forall>(p, X, q') \<in> set (edges A). q' = q \<longrightarrow>
              (p, r, k - 1) \<in> set (items A) \<and> X = rule_rhs T r ! (k - 1))) \<and>
        (r = a_goal A \<longrightarrow> (k = 0 \<longrightarrow> q = 0) \<and> (k = rhs T r \<longrightarrow> q = ACCEPT_STATE T)) \<and>
        (r \<noteq> a_goal A \<and> k = 0 \<longrightarrow>
           (q, lhs T r, nt_action T q (lhs T r - TERMINAL_COUNT T)) \<in> set (edges A))) \<and>
     (ACCEPT_STATE T, a_goal A, rhs T (a_goal A)) \<in> set (items A) \<and> 0 < rhs T (a_goal A)"

definition action_ok :: "lr_table \<Rightarrow> automaton \<Rightarrow> int \<Rightarrow> int \<Rightarrow> bool" where
  "action_ok T A q a \<longleftrightarrow>
     (let act = t_action T q a; r = nat (- act - 1) in
      (act > 0 \<longrightarrow> a \<noteq> -1 \<and> (q, a, act) \<in> set (edges A)) \<and>
      (act < 0 \<longrightarrow> r < RULE_COUNT T \<and> (q, r, rhs T r) \<in> set (items A)))"

definition lr_ok :: "lr_table \<Rightarrow> automaton \<Rightarrow> bool" where
  "lr_ok T A \<longleftrightarrow>
     edges_ok T A \<and> items_ok T A \<and>
     (\<forall>q \<in> set (0 # map (snd \<circ> snd) (edges A)). \<forall>a \<in> set [-1..TERMINAL_COUNT T - 1].
        action_ok T A q a) \<and>
     (\<forall>r \<in> set [0..<RULE_COUNT T]. TERMINAL_COUNT T \<le> lhs T r) \<and>
     0 \<le> EOF_SYMBOL T \<and> EOF_SYMBOL T < TERMINAL_COUNT T \<and>
     last (rule_rhs T (a_goal A)) = EOF_SYMBOL T"

lemma length_rule_rhs [simp]: "length (rule_rhs T r) = rhs T r"
  by (simp add: rule_rhs_def)

subsection \<open>The stack is a path of the automaton\<close>

text \<open>
  The abstract stack, top first: the states with the symbols of the edges that lead to them,
  above the initial state 0. The entry of the array at \<open>tos - i\<close> is the state below \<open>i\<close>
  entries.
\<close>

type_synonym stack = "(int \<times> int) list"

definition top_state :: "stack \<Rightarrow> int" where
  "top_state st = (case st of [] \<Rightarrow> 0 | (q, X) # _ \<Rightarrow> q)"

lemma top_state_simps [simp]: "top_state [] = 0" "top_state ((q, X) # st) = q"
  by (simp_all add: top_state_def)

fun path :: "automaton \<Rightarrow> stack \<Rightarrow> bool" where
  "path A [] = True"
| "path A ((q, X) # st) = ((top_state st, X, q) \<in> set (edges A) \<and> path A st)"

lemma path_drop: "path A st \<Longrightarrow> path A (drop n st)"
  by (induction A st arbitrary: n rule: path.induct) (auto simp: drop_Cons split: nat.splits)

lemma path_top:
  "path A st \<Longrightarrow> top_state st \<in> set (0 # map (snd \<circ> snd) (edges A))"
  by (cases "(A, st)" rule: path.cases) force+

definition holds :: "('v, 'u) parser \<Rightarrow> stack \<Rightarrow> bool" where
  "holds p st \<longleftrightarrow> tos p = length st + 1 \<and> tos p < stackSize p \<and>
     length (stateStack p) = stackSize p \<and>
     (\<forall>i \<le> length st. stateStack p ! (tos p - i) = top_state (drop i st))"

lemma holds_top: "holds p st \<Longrightarrow> stateStack p ! tos p = top_state st"
  by (auto simp: holds_def)

text \<open>An item with its dot at \<open>k\<close> on top of the stack: the last \<open>k\<close> symbols are the rule's first.\<close>

lemma item_below:
  assumes "items_ok T A" and "path A st" and "(top_state st, r, k) \<in> set (items A)"
  shows "k \<le> length st \<and> rev (map snd (take k st)) = take k (rule_rhs T r) \<and>
         (top_state (drop k st), r, 0) \<in> set (items A)"
  using assms(2,3)
proof (induction k arbitrary: st)
  case (Suc k)
  have item: "top_state st \<noteq> 0 \<and> Suc k \<le> rhs T r \<and>
      (\<forall>(p, X, q') \<in> set (edges A). q' = top_state st \<longrightarrow>
         (p, r, k) \<in> set (items A) \<and> X = rule_rhs T r ! k)"
    using assms(1) Suc.prems(2) unfolding items_ok_def by fastforce
  then obtain q X st' where st: "st = (q, X) # st'"
    by (metis list.exhaust surj_pair top_state_simps(1))
  then have "(top_state st', X, q) \<in> set (edges A)" and path: "path A st'"
    using Suc.prems(1) by simp_all
  with item st have "(top_state st', r, k) \<in> set (items A)" and X: "X = rule_rhs T r ! k"
    by auto
  from Suc.IH[OF path this(1)] X item st show ?case
    by (simp add: take_Suc_conv_app_nth)
qed simp

lemma item_complete:
  assumes "items_ok T A" and "path A st" and "(top_state st, r, rhs T r) \<in> set (items A)"
  shows "rhs T r \<le> length st" and "rev (map snd (take (rhs T r) st)) = rule_rhs T r"
    and "(top_state (drop (rhs T r) st), r, 0) \<in> set (items A)"
  using item_below[OF assms] by simp_all

subsection \<open>The invariant of \<open>parse\<close>\<close>

definition parse_inv :: "lr_table \<Rightarrow> automaton \<Rightarrow> lexer \<Rightarrow> int \<Rightarrow> int \<Rightarrow> ('v, 'u) parser
    \<Rightarrow> int list \<Rightarrow> stack \<Rightarrow> bool" where
  "parse_inv T A L0 act token p ts st \<longleftrightarrow>
     holds p st \<and> path A st \<and> act = top_state st \<and> derives T (rev (map snd st)) ts \<and>
     munched L0 (filter (\<lambda>t. t \<noteq> EOF_SYMBOL T) ts @ delivered T token) (p_lexer p) \<and>
     (token = -1 \<or> token = EOF_SYMBOL T \<or> 0 \<le> token \<and> token \<in> set (m_tokens L0)) \<and>
     (token = EOF_SYMBOL T \<or> EOF_SYMBOL T \<in> set ts \<longrightarrow> m_loc (p_lexer p) = length (m_buffer L0)) \<and>
     EOF_SYMBOL T \<notin> set (butlast ts) \<and>
     (EOF_SYMBOL T \<in> set ts \<longrightarrow> act = ACCEPT_STATE T \<and> (token = -1 \<or> token = EOF_SYMBOL T))"

definition lexer_fits :: "lr_table \<Rightarrow> lexer \<Rightarrow> bool" where
  "lexer_fits T L \<longleftrightarrow> lex_inv L \<and> tokens_ok T L \<and> (\<forall>t \<in> set (m_tokens L). t < TERMINAL_COUNT T)"

definition accepts :: "lr_table \<Rightarrow> automaton \<Rightarrow> lexer \<Rightarrow> lexer \<Rightarrow> bool" where
  "accepts T A L0 L \<longleftrightarrow>
     (\<exists>ts. munched L0 ts L \<and> m_loc L = length (m_buffer L0) \<and>
           derives T (rule_rhs T (a_goal A)) (ts @ [EOF_SYMBOL T]))"

lemma holds_lexer [simp]: "holds (p\<lparr>p_lexer := L\<rparr>) st = holds p st"
  by (simp add: holds_def)

lemma nextToken_at_end: "m_loc L = length (m_buffer L) \<Longrightarrow> nextToken T L = Some (Some (EOF_SYMBOL T, L))"
  by (simp add: nextToken.simps[of T L] lex_turn_def)

lemma fetch_inv:
  assumes inv: "parse_inv T A L0 act (-1) p ts st" and fits: "lexer_fits T L0"
    and fetch: "nextToken T (p_lexer p) = Some r"
  shows "\<exists>token L. r = Some (token, L) \<and> parse_inv T A L0 act token (p\<lparr>p_lexer := L\<rparr>) ts st"
proof -
  have m0: "munched L0 (filter (\<lambda>t. t \<noteq> EOF_SYMBOL T) ts) (p_lexer p)"
    using inv by (simp add: parse_inv_def delivered_def)
  then have same: "same_lexer L0 (p_lexer p)" and "lex_inv (p_lexer p)" by (simp_all add: munched_def)
  moreover have "tokens_ok T (p_lexer p)" using fits same by (simp add: lexer_fits_def tokens_ok_def same_lexer_def)
  ultimately obtain token L where r: "r = Some (token, L)" and res: "lex_result T (p_lexer p) token L"
    using nextToken_sound[OF fetch] by blast
  have "munched L0 (filter (\<lambda>t. t \<noteq> EOF_SYMBOL T) ts @ delivered T token) L"
    using munched_trans[OF m0] res by (simp add: lex_result_def)
  moreover have "token = EOF_SYMBOL T \<and> L = p_lexer p" if "EOF_SYMBOL T \<in> set ts"
    using inv that same fetch r nextToken_at_end[of "p_lexer p" T]
    by (simp add: parse_inv_def same_lexer_def)
  ultimately have "parse_inv T A L0 act token (p\<lparr>p_lexer := L\<rparr>) ts st"
    using inv res same by (auto simp: parse_inv_def lex_result_def same_lexer_def)
  with r show ?thesis by blast
qed

lemma nth_resize: "i < length xs \<Longrightarrow> length xs \<le> n \<Longrightarrow> resize n x xs ! i = xs ! i"
  by (simp add: resize_def nth_append)

lemma length_resize [simp]: "length (resize n x xs) = n"
  by (simp add: resize_def)

lemma shift_holds:
  assumes "holds p st"
  shows "holds (shift G act p) ((act, X) # st)" and "p_lexer (shift G act p) = p_lexer p"
proof -
  define p2 where "p2 = (let p1 = p\<lparr>tos := tos p + 1\<rparr>
     in if tos p1 = stackSize p1 then reallocateStack G p1 else p1)"
  have p2: "tos p2 = tos p + 1" "tos p2 < stackSize p2" "length (stateStack p2) = stackSize p2"
    "\<And>i. i < stackSize p \<Longrightarrow> stateStack p2 ! i = stateStack p ! i" "p_lexer p2 = p_lexer p"
    using assms by (auto simp: p2_def Let_def reallocateStack_def holds_def nth_resize)
  have shift: "shift G act p = p2\<lparr>parseStack := (parseStack p2)[tos p2 := parseStack p2 ! (tos p2 - 1)],
      stateStack := (stateStack p2)[tos p2 := act]\<rparr>"
    by (simp add: shift_def p2_def Let_def)
  show "p_lexer (shift G act p) = p_lexer p" by (simp add: shift p2)
  have "(stateStack p2)[tos p2 := act] ! (tos p2 - i) = top_state (drop i ((act, X) # st))"
    if i: "i \<le> Suc (length st)" for i
  proof (cases i)
    case 0
    then show ?thesis using p2 by simp
  next
    case (Suc j)
    then have "stateStack p ! (tos p - j) = top_state (drop j st)" and "tos p - j < stackSize p"
      using assms i by (auto simp: holds_def)
    then show ?thesis using p2 Suc i assms by (simp add: holds_def)
  qed
  then show "holds (shift G act p) ((act, X) # st)"
    using p2 assms by (simp add: holds_def shift)
qed

lemma action_okD:
  assumes "lr_ok T A" and "path A st" and "a = -1 \<or> 0 \<le> a \<and> a < TERMINAL_COUNT T"
  shows "action_ok T A (top_state st) a"
proof -
  have "a \<in> set [-1..TERMINAL_COUNT T - 1]" using assms(3) assms(1) by (auto simp: lr_ok_def)
  then show ?thesis using assms(1) path_top[OF assms(2)] unfolding lr_ok_def by blast
qed

lemma derives_EOF:
  assumes "lr_ok T A" and "derives T (rule_rhs T (a_goal A)) ts"
  shows "\<exists>us. ts = us @ [EOF_SYMBOL T]"
proof -
  have "rule_rhs T (a_goal A) \<noteq> []" and last: "last (rule_rhs T (a_goal A)) = EOF_SYMBOL T"
    using assms(1) by (auto simp: lr_ok_def items_ok_def simp flip: length_greater_0_conv)
  then have "rule_rhs T (a_goal A) = butlast (rule_rhs T (a_goal A)) @ [EOF_SYMBOL T]"
    by (metis append_butlast_last_id)
  then obtain us vs where "ts = us @ vs" and "derives T [EOF_SYMBOL T] vs"
    using derives_split assms(2) by metis
  moreover have "vs = [EOF_SYMBOL T]"
    using calculation(2)
  proof (cases rule: derives.cases)
    case (derives_terminal ts')
    then show ?thesis by (auto elim: derives.cases)
  next
    case (derives_rule r us' ts')
    then have "TERMINAL_COUNT T \<le> EOF_SYMBOL T" using assms(1) by (auto simp: lr_ok_def)
    then show ?thesis using assms(1) by (simp add: lr_ok_def)
  qed
  ultimately show ?thesis by blast
qed

subsection \<open>The turns of \<open>parse\<close>\<close>

definition turn_ok :: "lr_table \<Rightarrow> automaton \<Rightarrow> lexer \<Rightarrow> ('v, 'u) parse_outcome \<Rightarrow> bool" where
  "turn_ok T A L0 t \<longleftrightarrow>
     (case t of
        Accepted p \<Rightarrow> accepts T A L0 (p_lexer p)
      | Continue act token p \<Rightarrow> \<exists>ts st. parse_inv T A L0 act token p ts st
      | Rejected p \<Rightarrow> True
      | Stack_fault \<Rightarrow> \<exists>r < RULE_COUNT T. rhs T r = 0
      | Buffer_fault \<Rightarrow> False)"

lemma path_zero: "items_ok T A \<Longrightarrow> edges_ok T A \<Longrightarrow> path A st \<Longrightarrow> top_state st = 0 \<Longrightarrow> st = []"
  by (cases "(A, st)" rule: path.cases) (auto simp: edges_ok_def)

lemma accept_turn:
  assumes ok: "lr_ok T A" and inv: "parse_inv T A L0 act token p ts st" and "act = ACCEPT_STATE T"
  shows "accepts T A L0 (p_lexer p)"
proof -
  have items: "items_ok T A" and edges: "edges_ok T A" using ok by (simp_all add: lr_ok_def)
  let ?g = "a_goal A"
  have path: "path A st" and der: "derives T (rev (map snd st)) ts"
    and "(top_state st, ?g, rhs T ?g) \<in> set (items A)"
    using inv assms(3) items by (simp_all add: parse_inv_def items_ok_def)
  note c = item_complete[OF items path this(3)]
  have "top_state (drop (rhs T ?g) st) = 0" using items c(3) unfolding items_ok_def by blast
  then have "drop (rhs T ?g) st = []" using path_zero[OF items edges path_drop[OF path]] by blast
  then have "rev (map snd st) = rule_rhs T ?g" using c(1,2) by simp
  then have goal: "derives T (rule_rhs T ?g) ts" using der by simp
  then obtain us where us: "ts = us @ [EOF_SYMBOL T]" using derives_EOF[OF ok] by blast
  then have "filter (\<lambda>t. t \<noteq> EOF_SYMBOL T) ts = us" and "delivered T token = []"
    using inv by (auto simp: parse_inv_def delivered_def filter_id_conv)
  then have "munched L0 us (p_lexer p)" and "m_loc (p_lexer p) = length (m_buffer L0)"
    using inv us by (auto simp: parse_inv_def)
  then show ?thesis using goal us unfolding accepts_def by blast
qed

lemma shift_turn:
  assumes ok: "lr_ok T A" and fits: "lexer_fits T L0" and inv: "parse_inv T A L0 act token p ts st"
    and acc: "act \<noteq> ACCEPT_STATE T" and act: "0 < t_action T act token"
  shows "parse_inv T A L0 (t_action T act token) (-1) (shift G (t_action T act token) p)
           (ts @ [token]) ((t_action T act token, token) # st)"
proof -
  let ?q = "t_action T act token"
  have range: "token = -1 \<or> 0 \<le> token \<and> token < TERMINAL_COUNT T"
    using inv fits ok by (auto simp: parse_inv_def lexer_fits_def lr_ok_def)
  have path: "path A st" and top: "act = top_state st" and der: "derives T (rev (map snd st)) ts"
    using inv by (simp_all add: parse_inv_def)
  have "action_ok T A act token" using action_okD[OF ok path range] top by simp
  then have tok: "token \<noteq> -1" and edge: "(act, token, ?q) \<in> set (edges A)"
    using act by (simp_all add: action_ok_def Let_def)
  have no_EOF: "EOF_SYMBOL T \<notin> set ts" using inv acc by (auto simp: parse_inv_def)
  have "derives T [token] [token]" using range tok by (auto intro: derives.intros)
  from derives_append[OF der this]
  have "derives T (rev (map snd ((?q, token) # st))) (ts @ [token])" by simp
  moreover have "path A ((?q, token) # st)" using path edge top by simp
  moreover have "?q = ACCEPT_STATE T" if "token = EOF_SYMBOL T"
    using edge that ok by (auto simp: lr_ok_def edges_ok_def)
  moreover have "filter (\<lambda>t. t \<noteq> EOF_SYMBOL T) (ts @ [token]) @ delivered T (-1) =
      filter (\<lambda>t. t \<noteq> EOF_SYMBOL T) ts @ delivered T token"
    using tok by (simp add: delivered_def)
  moreover have "EOF_SYMBOL T \<noteq> -1" using ok by (auto simp: lr_ok_def)
  ultimately show ?thesis
    using inv no_EOF shift_holds(1)[of p st G ?q token] shift_holds(2)[of p st G ?q]
    by (auto simp: parse_inv_def)
qed

lemma reduce_holds:
  assumes "holds p st" and "k \<le> length st" and "tos p - k + 1 < stackSize p"
    and "stackSize p' = stackSize p" and "tos p' = tos p - k + 1"
    and "stateStack p' = (stateStack p)[tos p' := q]"
  shows "holds p' ((q, X) # drop k st)"
proof -
  have "stateStack p' ! (tos p' - i) = top_state (drop i ((q, X) # drop k st))"
    if i: "i \<le> Suc (length st - k)" for i
  proof (cases i)
    case 0
    then show ?thesis using assms by (simp add: holds_def)
  next
    case (Suc j)
    have "stateStack p ! (tos p - (j + k)) = top_state (drop (j + k) st)"
      using assms(1,2) i Suc by (auto simp: holds_def)
    moreover have "tos p' - i = tos p - (j + k)" and "tos p - (j + k) \<noteq> tos p'"
      using assms(1,2,5) Suc i by (auto simp: holds_def)
    ultimately show ?thesis using assms(6) Suc by simp
  qed
  then show ?thesis using assms by (simp add: holds_def)
qed

lemma reduce_turn:
  assumes T: "g_table G = T" and ok: "lr_ok T A" and fits: "lexer_fits T L0"
    and inv: "parse_inv T A L0 act token p ts st"
    and acc: "act \<noteq> ACCEPT_STATE T" and act: "t_action T act token < 0"
  shows "turn_ok T A L0 (reduce G (nat (- t_action T act token - 1)) token p)"
proof -
  define r where "r = nat (- t_action T act token - 1)"
  let ?k = "rhs T r"
  let ?q = "nt_action T (top_state (drop ?k st)) (lhs T r - TERMINAL_COUNT T)"
  have items: "items_ok T A" using ok by (simp add: lr_ok_def)
  have range: "token = -1 \<or> 0 \<le> token \<and> token < TERMINAL_COUNT T"
    using inv fits ok by (auto simp: parse_inv_def lexer_fits_def lr_ok_def)
  have path: "path A st" and top: "act = top_state st" and der: "derives T (rev (map snd st)) ts"
    and holds: "holds p st"
    using inv by (simp_all add: parse_inv_def)
  have "action_ok T A act token" using action_okD[OF ok path range] top by simp
  then have r: "r < RULE_COUNT T" and item: "(top_state st, r, ?k) \<in> set (items A)"
    using act top by (simp_all add: action_ok_def Let_def r_def)
  note c = item_complete[OF items path item]
  have "r \<noteq> a_goal A" using items item acc top unfolding items_ok_def by blast
  then have edge: "(top_state (drop ?k st), lhs T r, ?q) \<in> set (edges A)"
    using items c(3) unfolding items_ok_def by blast
  have below: "stateStack p ! (tos p - ?k) = top_state (drop ?k st)"
    using holds c(1) unfolding holds_def by blast
  have "rev (map snd st) = rev (map snd (drop ?k st)) @ rule_rhs T r"
    using c(2) by (metis append_take_drop_id map_append rev_append)
  then obtain us vs where ts: "ts = us @ vs" and "derives T (rev (map snd (drop ?k st))) us"
    and "derives T (rule_rhs T r) vs"
    using der derives_split by metis
  then have der': "derives T (rev (map snd ((?q, lhs T r) # drop ?k st))) ts"
    using derives_append derives_rule[OF r _ derives_Nil, of vs] by fastforce
  obtain go err vals u where consume:
      "consumeRule G r (p_lexer p) (tos p - ?k + 1) (parseStack p) (p_user p) = (go, err, vals, u)"
    by (metis prod_cases4)
  define L where "L = (case err of None \<Rightarrow> p_lexer p | Some e \<Rightarrow> setErrorString e (p_lexer p))"
  define p2 where "p2 = p\<lparr>tos := tos p - ?k + 1, p_lexer := L, parseStack := vals, p_user := u\<rparr>"
  define p3 where "p3 = p2\<lparr>stateStack := (stateStack p2)[tos p2 := ?q]\<rparr>"
  have red: "reduce G r token p = (if \<not> go then Rejected p2
       else if tos p2 \<ge> stackSize p2 then Stack_fault else Continue ?q token p3)"
    using holds c(1) consume below
    by (cases err) (simp_all add: reduce_def T Let_def holds_def L_def p2_def p3_def)
  have L: "munched L0 xs L = munched L0 xs (p_lexer p)" "m_loc L = m_loc (p_lexer p)" for xs
    by (simp_all add: L_def split: option.split)
  have full: "?k = 0" if "tos p2 \<ge> stackSize p2"
  proof -
    have "tos p < stackSize p" and "?k \<le> tos p" using holds c(1) by (simp_all add: holds_def)
    then show ?thesis using that by (simp add: p2_def)
  qed
  have fine: "parse_inv T A L0 ?q token p3 ts ((?q, lhs T r) # drop ?k st)" if "tos p2 < stackSize p2"
  proof -
    have "holds p3 ((?q, lhs T r) # drop ?k st)"
      using reduce_holds[OF holds c(1), of p3 ?q] that by (simp add: p3_def p2_def)
    moreover have "path A ((?q, lhs T r) # drop ?k st)" using edge path_drop[OF path] by simp
    moreover have "EOF_SYMBOL T \<notin> set ts" using inv acc by (auto simp: parse_inv_def)
    ultimately show ?thesis using inv der' L by (simp add: parse_inv_def p3_def p2_def)
  qed
  then have "\<exists>ts st. parse_inv T A L0 ?q token p3 ts st" if "tos p2 < stackSize p2"
    using that by blast
  then show ?thesis using full r unfolding r_def[symmetric] red turn_ok_def by (simp add: not_le) blast
qed

lemma act_turn_ok:
  assumes T: "g_table G = T" and ok: "lr_ok T A" and fits: "lexer_fits T L0"
    and inv: "parse_inv T A L0 act token p ts st"
  shows "turn_ok T A L0 (act_turn G act token p)"
proof -
  have top: "stateStack p ! tos p = act" using inv by (simp add: parse_inv_def holds_top)
  show ?thesis
  proof (cases "act = ACCEPT_STATE T")
    case True
    then show ?thesis using accept_turn[OF ok inv] top T by (simp add: act_turn_def Let_def turn_ok_def)
  next
    case False
    consider "0 < t_action T act token" | "t_action T act token < 0" | "t_action T act token = 0"
      by linarith
    then show ?thesis
    proof cases
      case 1
      then show ?thesis using shift_turn[OF ok fits inv False] top T False
        by (auto simp: act_turn_def Let_def turn_ok_def)
    next
      case 2
      then show ?thesis using reduce_turn[OF T ok fits inv False] top T False
        by (simp add: act_turn_def Let_def)
    next
      case 3
      then show ?thesis using top T False by (simp add: act_turn_def Let_def turn_ok_def)
    qed
  qed
qed

lemma parse_loop_ok:
  assumes "parse_loop G act token p = Some t" and "g_table G = T" and "lr_ok T A"
    and "lexer_fits T L0" and "\<exists>ts st. parse_inv T A L0 act token p ts st"
  shows "turn_ok T A L0 t"
  using assms
proof (induction rule: parse_loop.raw_induct[rotated, consumes 1, case_names turn])
  case (turn loop G act token p t)
  note IH = turn(1) and run = turn(2) and T = turn(3) and ok = turn(4) and fits = turn(5)
  obtain ts st where inv: "parse_inv T A L0 act token p ts st" using turn(6) by blast
  obtain t1 where t1: "parse_turn G act token p = Some t1"
    and cont: "(case t1 of Continue act' token' p' \<Rightarrow> loop G act' token' p' | _ \<Rightarrow> Some t1) = Some t"
    using run by (auto simp: bind_eq_Some_conv)
  have "turn_ok T A L0 t1"
  proof (cases "token = -1 \<and> - TERMINAL_COUNT T \<noteq> action_index T act")
    case True
    then obtain r where r: "nextToken T (p_lexer p) = Some r"
      using t1 T by (auto simp: parse_turn_def Let_def bind_eq_Some_conv)
    then obtain token' L where "r = Some (token', L)"
      and "parse_inv T A L0 act token' (p\<lparr>p_lexer := L\<rparr>) ts st"
      using fetch_inv[of T A L0 act p ts st r] inv fits True by blast
    then show ?thesis using act_turn_ok[OF T ok fits] t1 r T True by (auto simp: parse_turn_def Let_def)
  next
    case False
    then show ?thesis using act_turn_ok[OF T ok fits inv] t1 T by (auto simp: parse_turn_def Let_def)
  qed
  then show ?case using cont IH T ok fits by (cases t1) (auto simp: turn_ok_def)
qed

lemma start_inv:
  assumes "lexer_fits T (p_lexer p)" and "0 < stackSize p"
  shows "parse_inv T A (p_lexer p) 0 (-1) (start_parse G p) [] []"
  using assms munched_refl[of "p_lexer p"]
  by (simp add: parse_inv_def start_parse_def Let_def reallocateStack_def holds_def lexer_fits_def
        tokens_ok_def delivered_def derives_Nil)

lemma parse_ok:
  assumes "parse G p = Some t" and "lr_ok (g_table G) A" and "lexer_fits (g_table G) (p_lexer p)"
    and "0 < stackSize p"
  shows "turn_ok (g_table G) A (p_lexer p) t"
  using parse_loop_ok[OF assms(1)[unfolded parse_def] refl assms(2,3)] start_inv[OF assms(3,4)]
  by blast

end
