(* ===== verification/ParserSound.thy ===== *)
theory ParserSound
  imports ParserProps
begin

text \<open>
  The parser from its constructor to its result: the lexer that the constructor builds from
  the token spellings, the soundness of a parse of a text, its behaviour on errors, and a
  small grammar on which the tables' certificate and a whole parse are evaluated.
\<close>

subsection \<open>The constructor\<close>

definition built :: "lr_table \<Rightarrow> (string \<rightharpoonup> nat) \<times> lexer \<Rightarrow> bool" where
  "built T = (\<lambda>(token_lookup, L).
     (\<forall>x \<in> set (m_regexes L). rx_ok x) \<and> length (m_tokens L) = length (m_regexes L) \<and>
     length (m_names L) = length (m_regexes L) \<and>
     (\<forall>t \<in> set (m_tokens L). t = -1 \<or> 1 \<le> t \<and> t < lhs T 0) \<and>
     (\<forall>token j. token_lookup token = Some j \<longrightarrow> 1 \<le> j \<and> int j < lhs T 0) \<and>
     regexCandidates L = (\<lambda>_. None) \<and> m_loc L = 0 \<and> m_lineno L = 1 \<and> m_lastMatchText L = [])"

lemma add_token_built:
  assumes "\<And>multiline pattern x. compile multiline pattern = Some x \<Longrightarrow> rx_ok x"
    and "built T s" and "1 \<le> i" and "int i < lhs T 0"
  shows "built T (add_token compile T i s)"
proof -
  obtain lookup L where s: "s = (lookup, L)" by (cases s)
  show ?thesis
  proof (cases "spell_match (case spell T (int i) of None \<Rightarrow> [] | Some s \<Rightarrow> s)")
    case None
    then show ?thesis using assms(2) by (simp add: add_token_def s)
  next
    case (Some m)
    obtain token multiline pattern where m: "m = (token, multiline, pattern)" by (cases m)
    show ?thesis
      using assms Some
      by (cases "compile multiline pattern"; cases "lookup token")
         (auto simp: add_token_def s m Let_def built_def split: if_splits)
  qed
qed

lemma fold_add_token_built:
  assumes "\<And>multiline pattern x. compile multiline pattern = Some x \<Longrightarrow> rx_ok x"
    and "\<And>i. i \<in> set is \<Longrightarrow> 1 \<le> i \<and> int i < lhs T 0" and "built T s"
  shows "built T (fold (add_token compile T) is s)"
  using assms(2,3)
proof (induction "is" arbitrary: s)
  case (Cons i "is")
  then show ?case using add_token_built[where T = T and s = s and i = i, OF assms(1)] by simp
qed simp

lemma m_maxMatchLen_new: "m_maxMatchLen (new_lexer compile T n) = n"
proof -
  have "m_maxMatchLen (snd (fold (add_token compile T) is s)) = m_maxMatchLen (snd s)" for "is" s
  proof (induction "is" arbitrary: s)
    case (Cons i "is")
    have "m_maxMatchLen (snd (add_token compile T i s)) = m_maxMatchLen (snd s)"
      by (cases s) (simp add: add_token_def Let_def split: option.split prod.split)
    then show ?case using Cons by simp
  qed simp
  then show ?thesis by (simp add: new_lexer_def empty_lexer_def)
qed

lemma setBuffer_fields [simp]:
  "m_regexes (setBuffer s L) = m_regexes L" "m_tokens (setBuffer s L) = m_tokens L"
  "m_buffer (setBuffer s L) = s" "m_maxMatchLen (setBuffer s L) = m_maxMatchLen L"
  "m_loc (setBuffer s L) = m_loc L" "m_lineno (setBuffer s L) = m_lineno L"
  "regexCandidates (setBuffer s L) = regexCandidates L"
  "m_lastMatchText (setBuffer s L) = m_lastMatchText L"
  by (simp_all add: setBuffer_def)

text \<open>What the constructor and \<open>setBuffer\<close> establish.\<close>

lemma new_lexer_fits:
  assumes "\<And>multiline pattern x. compile multiline pattern = Some x \<Longrightarrow> rx_ok x"
    and "lhs T 0 = TERMINAL_COUNT T" and "EOF_SYMBOL T = 0" and "n \<noteq> 0"
    and "0 < TERMINAL_COUNT T"
  shows "lexer_fits T (setBuffer s (new_lexer compile T n))"
    and "line_inv (setBuffer s (new_lexer compile T n))"
    and "m_loc (setBuffer s (new_lexer compile T n)) = 0"
proof -
  define r where "r = fold (add_token compile T) [1..<nat (lhs T 0)] (Map.empty, empty_lexer n)"
  have "built T (Map.empty, empty_lexer n)" by (simp add: built_def empty_lexer_def)
  then have "built T r"
    unfolding r_def using assms(1) by (intro fold_add_token_built) auto
  then have built: "built T (fst r, new_lexer compile T n)"
    by (simp add: new_lexer_def r_def)
  show "m_loc (setBuffer s (new_lexer compile T n)) = 0" using built by (simp add: built_def)
  show "lexer_fits T (setBuffer s (new_lexer compile T n))"
    using built assms(2-5) m_maxMatchLen_new[of compile T n]
    by (auto simp: built_def lexer_fits_def lex_inv_def tokens_ok_def)
  show "line_inv (setBuffer s (new_lexer compile T n))"
    using built by (simp add: built_def line_inv_def)
qed

subsection \<open>The result of a parse\<close>

lemma parse_loop_cases:
  assumes "parse_turn G act token p \<bind>
       (\<lambda>t. case t of Continue act' token' p' \<Rightarrow> loop G act' token' p' | _ \<Rightarrow> Some t) = Some t"
  obtains (again) act' token' p' where "parse_turn G act token p = Some (Continue act' token' p')"
      "loop G act' token' p' = Some t"
  | (final) "parse_turn G act token p = Some t" "\<And>a b q. t \<noteq> Continue a b q"
  using assms by (cases "parse_turn G act token p") (auto split: parse_outcome.splits)

lemma parse_loop_no_Continue: "parse_loop G act token p = Some t \<Longrightarrow> t \<noteq> Continue a b p'"
proof (induction rule: parse_loop.raw_induct[rotated, consumes 1, case_names turn])
  case (turn loop G act token p t)
  from turn(2) show ?case by (cases rule: parse_loop_cases) (use turn(1) in blast)+
qed

text \<open>
  A parse that a rule does not reject reports one message, whatever went wrong: the message
  of \<open>nextToken\<close> about text that no expression matches is overwritten by it.
\<close>

lemma parse_error_string:
  assumes "parse_loop G act token p = Some (Rejected p')"
    and "\<And>r L t vs u. fst (consumeRule G r L t vs u)"
  shows "m_errorString (p_lexer p') = unknown_token"
  using assms
proof (induction "G" act token p "Rejected p' :: ('a, 'b) parse_outcome"
    rule: parse_loop.raw_induct[rotated, consumes 1, case_names turn])
  case (turn loop G act token p)
  have red: "reduce G r tok q \<noteq> Rejected q'" for r tok q q'
    using turn(3)[of r] by (auto simp: reduce_def Let_def split: prod.splits) (metis fst_conv)+
  have act: "m_errorString (p_lexer q') = unknown_token" if "act_turn G act tok q = Rejected q'" for tok q q'
    using that red by (auto simp: act_turn_def Let_def split: if_splits)
  from turn(2) show ?case
  proof (cases rule: parse_loop_cases)
    case again
    then show ?thesis using turn(1,3) by blast
  next
    case final
    then show ?thesis using act
      by (auto simp: parse_turn_def Let_def bind_eq_Some_conv split: if_splits option.splits)
  qed
qed

text \<open>A second attempt at the same place counts the newlines of the last match again.\<close>

lemma error_counts_lines_again:
  assumes inv: "lex_inv L" and loc: "m_loc L < length (m_buffer L)"
    and none: "longest_first (m_regexes L) (subject L) None"
  shows "\<exists>L1 L2. nextToken T L = Some (Some (-1, L1)) \<and> nextToken T L1 = Some (Some (-1, L2)) \<and>
           m_loc L2 = m_loc L \<and> m_lineno L2 = m_lineno L + 2 * newlines (m_lastMatchText L)"
proof -
  obtain L1 where 1: "lex_turn T L = Deliver (-1) L1" "lex_inv L1" "same_lexer L L1" "m_loc L1 = m_loc L"
    "m_lastMatchText L1 = m_lastMatchText L" "m_lineno L1 = m_lineno L + newlines (m_lastMatchText L)"
    using lex_turn_no_match[OF inv loc none] by blast
  then have "m_loc L1 < length (m_buffer L1)" and "longest_first (m_regexes L1) (subject L1) None"
    using loc none by (simp_all add: same_lexer_def subject_def)
  then obtain L2 where "lex_turn T L1 = Deliver (-1) L2" "m_loc L2 = m_loc L1"
    "m_lineno L2 = m_lineno L1 + newlines (m_lastMatchText L1)"
    using lex_turn_no_match[OF 1(2)] by blast
  with 1 show ?thesis by (simp add: nextToken.simps[of T L] nextToken.simps[of T L1])
qed

text \<open>
  Reducing by an empty rule pushes a state without a test of the capacity: with the stack
  full to its last entry the write falls behind the array.
\<close>

lemma empty_rule_overflows:
  assumes "rhs (g_table G) r = 0" and "tos p + 1 = stackSize p"
    and "\<And>L t vs u. fst (consumeRule G r L t vs u)"
  shows "reduce G r token p = Stack_fault"
  using assms(1,2) assms(3)[of "p_lexer p" "tos p + 1" "parseStack p" "p_user p"]
  by (auto simp: reduce_def Let_def split: prod.splits)

subsection \<open>A small grammar\<close>

text \<open>
  \<open>$accept: S $end\<close>, \<open>S: a\<close> and \<open>S: a S\<close>, with the token \<open>a\<close> spelt \<open>[a]a\<close> and a token
  \<open>[ignore]_\<close> for what stands between, in the form \<open>qlalr\<close> gives its tables: symbol 0 is
  the end, 1 and 2 are the tokens, 3 is \<open>$accept\<close> and 4 is \<open>S\<close>.
\<close>

definition tiny :: lr_table where
  "tiny = \<lparr>TERMINAL_COUNT = 3, ACCEPT_STATE = 4, EOF_SYMBOL = 0, RULE_COUNT = 3,
     action_index = (\<lambda>q. if q = 3 then -3 else 0),
     t_action = (\<lambda>q t. if t = 1 \<and> (q = 0 \<or> q = 2) then 2
                        else if t = 0 \<and> q = 1 then 4
                        else if t = 0 \<and> q = 2 then -2
                        else if q = 3 then -3 else 0),
     nt_action = (\<lambda>q X. if q = 0 then 1 else 3),
     lhs = (\<lambda>r. if r = 0 then 3 else 4),
     rhs = (\<lambda>r. if r = 1 then 1 else 2),
     rule_index = (\<lambda>r. if r = 0 then 0 else if r = 1 then 3 else 5),
     rule_info = (\<lambda>i. [3, 4, 0, 4, 1, 4, 1, 4] ! i),
     spell = (\<lambda>X. if X = 1 then Some ''[a]a'' else if X = 2 then Some ''[ignore]_'' else None)\<rparr>"

definition tiny_automaton :: automaton where
  "tiny_automaton = \<lparr>edges = [(0, 4, 1), (0, 1, 2), (2, 1, 2), (2, 4, 3), (1, 0, 4)],
     items = [(0, 0, 0), (0, 1, 0), (0, 2, 0), (1, 0, 1), (2, 1, 1), (2, 2, 1), (2, 1, 0),
              (2, 2, 0), (3, 2, 2), (4, 0, 2)],
     a_goal = 0\<rparr>"

text \<open>An expression that matches one character.\<close>

definition char_rx :: "char \<Rightarrow> lex_rx" where
  "char_rx a = \<lparr>rx_match = (\<lambda>s. case s of [] \<Rightarrow> None | c # _ \<Rightarrow> if c = a then Some (\<lambda>_. [c]) else None),
     rx_partial = (\<lambda>s. case s of [] \<Rightarrow> False | c # _ \<Rightarrow> c = a), rx_names = [[]]\<rparr>"

definition char_compile :: "bool \<Rightarrow> string \<Rightarrow> lex_rx option" where
  "char_compile multiline pattern = (case pattern of [] \<Rightarrow> None | c # _ \<Rightarrow> Some (char_rx c))"

definition tiny_grammar :: "(unit, nat) grammar" where
  "tiny_grammar = \<lparr>g_table = tiny, consumeRule = (\<lambda>r L t vs n. (True, None, vs, Suc n)),
     g_reset = (\<lambda>_. 0), junk = 0, invalid = ()\<rparr>"

lemma char_rx_ok: "rx_ok (char_rx a)"
  by (auto simp: rx_ok_def char_rx_def split: list.splits if_splits)

lemma char_compile_ok: "char_compile multiline pattern = Some x \<Longrightarrow> rx_ok x"
  by (auto simp: char_compile_def char_rx_ok split: list.splits)

lemma tiny_lr_ok: "lr_ok tiny tiny_automaton"
  by code_simp

definition tiny_parser :: "string \<Rightarrow> (unit, nat) parser" where
  "tiny_parser s = new_parser (setBuffer s (new_lexer char_compile tiny 4096)) 0"

definition accepted :: "('v, 'u) parse_outcome option \<Rightarrow> bool" where
  "accepted t = (case t of Some (Accepted p) \<Rightarrow> True | _ \<Rightarrow> False)"

lemma tiny_parse: "accepted (parse tiny_grammar (tiny_parser ''a_a''))"
  by code_simp

subsection \<open>Soundness\<close>

text \<open>
  C14: a parse that accepts is right about the whole text. For tables that pass the check
  \<open>lr_ok\<close>, expressions that match prefixes, and the lexer the constructor builds: when
  \<open>parse\<close> returns true, the text is cut from its first character to its last into longest
  matches, the first expression winning a tie, and the tokens of those that are not ignored,
  with the end symbol behind them, derive from the goal rule. No other fault happens on the
  way: the lexer never stands behind the buffer, and a stack access out of range needs a rule
  with an empty right-hand side.
\<close>

theorem parse_sound:
  assumes "g_table G = T" and "lr_ok T A" and "lhs T 0 = TERMINAL_COUNT T" and "EOF_SYMBOL T = 0"
    and "\<forall>multiline pattern x. compile multiline pattern = Some x \<longrightarrow> rx_ok x" and "n \<noteq> 0"
    and "parse G (new_parser (setBuffer s (new_lexer compile T n)) u) = Some t"
  shows "case t of
           Accepted p \<Rightarrow> \<exists>ts. munches (m_regexes (p_lexer p)) (m_tokens (p_lexer p)) n s ts [] \<and>
                              derives T (rule_rhs T (a_goal A)) (ts @ [EOF_SYMBOL T])
         | Rejected p \<Rightarrow> True
         | Stack_fault \<Rightarrow> \<not> list_all (\<lambda>r. 0 < rhs T r) [0..<RULE_COUNT T]
         | Buffer_fault \<Rightarrow> False
         | Continue _ _ _ \<Rightarrow> False"
proof -
  let ?L = "setBuffer s (new_lexer compile T n)"
  have "0 < TERMINAL_COUNT T" using assms(2) by (simp add: lr_ok_def)
  then have fits: "lexer_fits T ?L" and loc: "m_loc ?L = 0"
    using new_lexer_fits[of compile T n s] assms(3-6) by auto
  have ok: "turn_ok T A ?L t"
    using parse_ok[OF assms(7)] assms(1,2) fits by (simp add: new_parser_def)
  have acc: "\<exists>ts. munches (m_regexes L) (m_tokens L) n s ts [] \<and>
      derives T (rule_rhs T (a_goal A)) (ts @ [EOF_SYMBOL T])" if "accepts T A ?L L" for L
    using that loc by (auto simp: accepts_def munched_def same_lexer_def m_maxMatchLen_new)
  show ?thesis
    using ok acc parse_loop_no_Continue[OF assms(7)[unfolded parse_def]]
    by (cases t) (auto simp: turn_ok_def list_all_iff)
qed

lemma accepted_cases:
  assumes "accepted t"
  obtains p where "t = Some (Accepted p)"
  using assms by (auto simp: accepted_def split: option.splits parse_outcome.splits)

theorem parse_sound_witness:
  "\<exists>p ts. parse tiny_grammar (tiny_parser ''a_a'') = Some (Accepted p) \<and>
     munches (m_regexes (p_lexer p)) (m_tokens (p_lexer p)) 4096 ''a_a'' ts [] \<and>
     derives tiny (rule_rhs tiny 0) (ts @ [0])"
proof -
  obtain p where p: "parse tiny_grammar (tiny_parser ''a_a'') = Some (Accepted p)"
    using tiny_parse by (rule accepted_cases)
  from parse_sound[OF _ tiny_lr_ok _ _ _ _ p[unfolded tiny_parser_def]] char_compile_ok
  have "\<exists>ts. munches (m_regexes (p_lexer p)) (m_tokens (p_lexer p)) 4096 ''a_a'' ts [] \<and>
      derives tiny (rule_rhs tiny (a_goal tiny_automaton)) (ts @ [EOF_SYMBOL tiny])"
    by (simp add: tiny_grammar_def tiny_def)
  with p show ?thesis by (auto simp: tiny_automaton_def tiny_def)
qed

text \<open>
  C28: the lexer as a function of the text. A call of \<open>nextToken\<close> returns, unless an ignored
  expression matches the empty text; what it skips and delivers are first longest matches
  among all expressions, in spite of the cache of candidates; it delivers the end symbol at
  the end of the buffer only, and an error exactly where no expression matches; and after a
  token the line number is that of the token's first character.
\<close>

theorem next_token_exact:
  assumes "lex_inv L" and "tokens_ok T L" and "ignored_advance L"
  shows "\<exists>token L'. nextToken T L = Some (Some (token, L')) \<and> lex_result T L token L'"
  using nextToken_terminates[OF assms(1,3), of T] nextToken_sound[OF _ assms(1,2)] by metis

lemma tiny_lexer_fits: "lexer_fits tiny (p_lexer (tiny_parser s))"
  using new_lexer_fits(1)[of char_compile tiny 4096 s] char_compile_ok
  by (simp add: tiny_parser_def new_parser_def tiny_def)

lemma tiny_tokens: "m_tokens (p_lexer (tiny_parser s)) = [1, -1]"
  by code_simp

lemma tiny_regexes: "m_regexes (p_lexer (tiny_parser s)) = [char_rx CHR ''a'', char_rx CHR ''_'']"
proof -
  have "[1..<nat (lhs tiny 0)] = [1, 2]" by code_simp
  moreover have "spell_match ''[a]a'' = Some (''a'', False, ''a'')"
    and "spell_match ''[ignore]_'' = Some (''ignore'', False, ''_'')" by code_simp+
  ultimately show ?thesis
    by (simp add: tiny_parser_def new_parser_def new_lexer_def add_token_def char_compile_def
          empty_lexer_def)
       (simp add: tiny_def Let_def char_compile_def)
qed

theorem next_token_exact_witness:
  "\<exists>L'. nextToken tiny (p_lexer (tiny_parser ''_a'')) = Some (Some (1, L')) \<and>
     lex_result tiny (p_lexer (tiny_parser ''_a'')) 1 L'"
proof -
  let ?L = "p_lexer (tiny_parser ''_a'')"
  have "ignored_advance ?L"
    by (auto simp: ignored_advance_def tiny_tokens tiny_regexes less_Suc_eq char_rx_def split: list.splits if_splits)
  then obtain token L' where run: "nextToken tiny ?L = Some (Some (token, L'))"
    and res: "lex_result tiny ?L token L'"
    using next_token_exact[of ?L tiny] tiny_lexer_fits[of "''_a''"] by (auto simp: lexer_fits_def)
  have "map_option (map_option fst) (nextToken tiny ?L) = Some (Some 1)" by code_simp
  with run res show ?thesis by simp
qed

end
