(* ===== verification/ObjectValues.thy ===== *)
theory ObjectValues
  imports SourceIo NodeRead ClassDef Results
begin

text \<open>
  Objects inside properties, on the source's side: \<open>serializeProperty\<close>
  (\<open>qremoteobjectpacket.cpp\<close>), which writes a sub-object as a \<open>QRO_\<close> with the values of its
  properties, and \<open>resetObject\<close> and \<open>setConnections\<close> (\<open>qremoteobjectsource.cpp\<close>), by which a
  child source takes up another object when the property has changed.

  The user's objects and Qt's metaobjects are the parameter \<open>object_model\<close>, on top of the
  \<open>environment\<close> of the sources: reading a property of an object (by its number in the object's
  metaobject), the flags of its type, the object in a value, and for an object whether it is an
  item model or a dynamic replica. A null pointer the code would go through, a child that is
  missing and exhausted fuel are \<open>object_fault\<close>s.
\<close>

record qgadget =
  qg_name :: string
  qg_props :: "(string \<times> string) list"
  qg_enums :: "menum list"

record ('v, 'w) object_model =
  readProperty :: "nat \<Rightarrow> int \<Rightarrow> 'w \<Rightarrow> 'v"
  isPointerToQObject :: "nat \<Rightarrow> int \<Rightarrow> bool"
  isVariantProperty :: "nat \<Rightarrow> int \<Rightarrow> bool"
  toQObject :: "'v \<Rightarrow> nat option"
  gadget_of :: "'v \<Rightarrow> qgadget option"
  is_model :: "nat \<Rightarrow> bool"
  dynamic_api :: "nat \<Rightarrow> (string \<Rightarrow> api) option"
  child_count :: "api \<Rightarrow> nat"
  is_cloned :: "nat \<Rightarrow> int \<Rightarrow> bool"
  connects :: "nat \<Rightarrow> int \<Rightarrow> bool"
  fromQro :: "qro \<Rightarrow> 'v"
  types :: type_env

text \<open>
  Beside the sources: the signals that are connected (object, its signal, source, the source's
  signal), the parent each source was given last, and a counter for new adapters.
\<close>

record ('v, 'w) object_state =
  os_io :: "('v, 'w) sourceio"
  os_links :: "(nat \<times> int \<times> srcid \<times> int) list"
  os_parent :: "srcid \<Rightarrow> nat option"
  os_next :: nat

datatype object_fault = No_source srcid | No_target srcid | No_child srcid int | Too_deep

definition the_source :: "srcid \<Rightarrow> ('v, 'w) object_state \<Rightarrow> object_fault + 'v source" where
  "the_source i st = (case sources (os_io st) i of None \<Rightarrow> Inl (No_source i) | Some s \<Rightarrow> Inr s)"

definition set_source :: "srcid \<Rightarrow> 'v source \<Rightarrow> ('v, 'w) object_state \<Rightarrow> ('v, 'w) object_state" where
  "set_source i s st = st\<lparr>os_io := (os_io st)\<lparr>sources := (sources (os_io st))(i \<mapsto> s)\<rparr>\<rparr>"

definition property_target :: "'v source \<Rightarrow> int \<Rightarrow> nat option" where
  "property_target s i = (if isAdapterProperty (src_api s) i then src_adapter s else src_object s)"

subsection \<open>Taking up another object\<close>

text \<open>
  \<open>setConnections\<close> connects each signal of the table that is not cloned with the source, and
  stops at the first one that cannot be connected.
\<close>

fun connect_signals :: "('v, 'w) object_model \<Rightarrow> srcid \<Rightarrow> 'v source \<Rightarrow> int list
    \<Rightarrow> (nat \<times> int \<times> srcid \<times> int) list" where
  "connect_signals W i s [] = []"
| "connect_signals W i s (idx # is) =
     (let sourceIndex = sourceSignalIndex (src_api s) idx in
      case (if isAdapterSignal (src_api s) idx then src_adapter s else src_object s) of
        None \<Rightarrow> []
      | Some target \<Rightarrow>
          if is_cloned W target sourceIndex then connect_signals W i s is
          else if \<not> connects W target sourceIndex then []
          else (target, sourceIndex, i, idx) # connect_signals W i s is)"

definition setConnections :: "('v, 'w) object_model \<Rightarrow> srcid \<Rightarrow> 'v source
    \<Rightarrow> ('v, 'w) object_state \<Rightarrow> ('v, 'w) object_state" where
  "setConnections W i s st =
     st\<lparr>os_links := os_links st @ connect_signals W i s (map int [0..<signalCount (src_api s)])\<rparr>"

text \<open>\<open>QObject::disconnect(receiver)\<close>.\<close>

definition disconnect_from :: "nat option \<Rightarrow> srcid \<Rightarrow> ('v, 'w) object_state \<Rightarrow> ('v, 'w) object_state" where
  "disconnect_from target i st =
     (case target of
        None \<Rightarrow> st
      | Some t \<Rightarrow> st\<lparr>os_links := filter (\<lambda>(t', _, i', _). \<not> (t' = t \<and> i' = i)) (os_links st)\<rparr>)"

definition renew_api :: "('v, 'w) object_model \<Rightarrow> nat option \<Rightarrow> api \<Rightarrow> api" where
  "renew_api W newObject A =
     (case newObject of
        None \<Rightarrow> A
      | Some new_object \<Rightarrow>
          (case dynamic_api W new_object of
             None \<Rightarrow> A
           | Some new_api \<Rightarrow> if isDynamic A \<and> sourcePropertyIndex A 0 = 0 then new_api (api_name A) else A))"

definition reset_self :: "('v, 'w) object_model \<Rightarrow> srcid \<Rightarrow> nat option \<Rightarrow> 'v source
    \<Rightarrow> ('v, 'w) object_state \<Rightarrow> 'v source \<times> ('v, 'w) object_state" where
  "reset_self W i newObject s st =
     (let st1 = disconnect_from (src_adapter s) i (disconnect_from (src_object s) i st);
          s1 = s\<lparr>src_adapter := None, src_api := renew_api W newObject (src_api s), src_object := newObject\<rparr>;
          model = (case newObject of None \<Rightarrow> False | Some new_object \<Rightarrow> is_model W new_object);
          (s2, st2) =
            (if model
             then (s1\<lparr>src_adapter := Some (os_next st1)\<rparr>,
                   st1\<lparr>os_io := registerSource i s1 (os_io st1), os_next := Suc (os_next st1)\<rparr>)
             else (s1, st1));
          st3 = (set_source i s2 st2)\<lparr>os_parent := (os_parent st2)(i := newObject)\<rparr>
      in (s2, if newObject = None then st3 else setConnections W i s2 st3))"

text \<open>\<open>resetObject\<close> goes on to the children; the fuel bounds the depth of the tree of sources.\<close>

fun resetObject :: "('v, 'w) object_model \<Rightarrow> nat \<Rightarrow> srcid \<Rightarrow> nat option
    \<Rightarrow> ('v, 'w) object_state \<Rightarrow> object_fault + ('v, 'w) object_state" where
  "resetObject W 0 i newObject st = Inl Too_deep"
| "resetObject W (Suc n) i newObject st =
     bindE (the_source i st) (\<lambda>s.
       let (s', st1) = reset_self W i newObject s st
       in if child_count W (src_api s') = 0 then Inr st1
          else
            foldE (\<lambda>(j, c) st.
                case newObject of
                  None \<Rightarrow> resetObject W n c None st
                | Some new_object \<Rightarrow>
                    resetObject W n c
                      (toQObject W (readProperty W new_object (sourcePropertyIndex (src_api s') j) (world (os_io st)))) st)
              (src_children s') st1)"

subsection \<open>The values of objects and gadgets\<close>

text \<open>\<open>QRO_\<close> of a child source, its stream operator, and \<open>QRO_\<close> of a gadget with its definition.\<close>

definition qro_of_source :: "('v, 'w) object_model \<Rightarrow> 'v source \<Rightarrow> qro" where
  "qro_of_source W s =
     \<lparr>qro_name = src_name s, qro_typeName = api_typeName (src_api s),
      qro_type = (if src_adapter s \<noteq> None then MODEL else getObjectType (types W) (api_typeName (src_api s))),
      qro_isNull = (src_object s = None), qro_classDefinition = [], qro_parameters = []\<rparr>"

definition object_type_number :: "object_type \<Rightarrow> byte" where
  "object_type_number t = (case t of CLASS \<Rightarrow> 0 | MODEL \<Rightarrow> 1 | GADGET \<Rightarrow> 2)"

definition put_qro :: "'v qstream \<Rightarrow> qro \<Rightarrow> bytes" where
  "put_qro S q =
     put_str S (qro_name q) @ put_str S (qro_typeName q) @ [object_type_number (qro_type q)] @
     put_bytes S (qro_classDefinition q) @ put_bool S (qro_isNull q)"

definition qro_of_gadget :: "'v qstream \<Rightarrow> type_env \<Rightarrow> 'v \<Rightarrow> qgadget \<Rightarrow> qro" where
  "qro_of_gadget S E value g =
     \<lparr>qro_name = [], qro_typeName = [], qro_type = GADGET, qro_isNull = False,
      qro_classDefinition =
        put_u32 S 0 @ put_u32 S 1 @ put_qba S (qg_name g) @ put_u32 S (of_nat (length (qg_props g))) @
        put_elems (\<lambda>(n, t). put_qba S n @ put_qba S t) (qg_props g) @
        put_u32 S (of_nat (length (qg_enums g))) @ put_elems (serializeEnum S E) (qg_enums g),
      qro_parameters = put_var S value\<rparr>"

subsection \<open>\<open>serializeProperty\<close>\<close>

definition child_source :: "srcid \<Rightarrow> 'v source \<Rightarrow> int \<Rightarrow> object_fault + srcid" where
  "child_source i s internalIndex =
     (case map_of (src_children s) internalIndex of
        None \<Rightarrow> Inl (No_child i internalIndex) | Some c \<Rightarrow> Inr c)"

definition note_type :: "srcid \<Rightarrow> string \<Rightarrow> ('v, 'w) object_state \<Rightarrow> ('v, 'w) object_state" where
  "note_type priv typeName st =
     st\<lparr>os_io := (os_io st)\<lparr>privates := (privates (os_io st))(priv :=
        (privates (os_io st) priv)\<lparr>sentTypes := List.insert typeName (sentTypes (privates (os_io st) priv))\<rparr>)\<rparr>\<rparr>"

text \<open>
  The class definition goes with the first object of its type to dynamic replicas. \<open>classdef\<close> is
  \<open>serializeDefinition\<close>, which notes the gadget types it writes.
\<close>

definition add_definition :: "('v, 'w) environment \<Rightarrow> srcid \<Rightarrow> 'v source \<Rightarrow> qro
    \<Rightarrow> ('v, 'w) object_state \<Rightarrow> qro \<times> ('v, 'w) object_state" where
  "add_definition E priv child q st =
     (let p = privates (os_io st) priv in
      if p_isDynamic p \<and> qro_type q = CLASS \<and> src_object child \<noteq> None \<and> qro_typeName q \<notin> set (sentTypes p)
      then (let (bs, (sent, w)) = classdef E child (sentTypes p, world (os_io st));
                st1 = st\<lparr>os_io := (os_io st)\<lparr>privates := (privates (os_io st))(priv := p\<lparr>sentTypes := sent\<rparr>),
                                            world := w\<rparr>\<rparr>
            in (q\<lparr>qro_classDefinition := bs\<rparr>, note_type priv (qro_typeName q) st1))
      else (q, st))"

definition serialize_value :: "'v qstream \<Rightarrow> ('v, 'w) environment \<Rightarrow> ('v, 'w) object_model \<Rightarrow> srcid \<Rightarrow> bool \<Rightarrow> 'v
    \<Rightarrow> ('v, 'w) object_state \<Rightarrow> bytes \<times> ('v, 'w) object_state" where
  "serialize_value S E W priv isVariant value st =
     (let p = privates (os_io st) priv in
      case (if p_isDynamic p \<and> isVariant then gadget_of W value else None) of
        Some g \<Rightarrow>
          (if qg_name g \<notin> set (sentTypes p)
           then (let q = qro_of_gadget S (types W) value g
                 in (put_var S (fromQro W q) @ put_bytes S (qro_parameters q), note_type priv (qg_name g) st))
           else (put_var S (enc E value), st))
      | None \<Rightarrow> (put_var S (enc E value), st))"

text \<open>
  The properties of a child are written one after the other (\<open>collect\<close>); the fuel bounds the
  depth of the tree.
\<close>

definition collect :: "('j \<Rightarrow> 's \<Rightarrow> 'e + (bytes \<times> 's)) \<Rightarrow> 'j \<Rightarrow> bytes \<times> 's \<Rightarrow> 'e + (bytes \<times> 's)" where
  "collect ser = (\<lambda>j (out, st). bindE (ser j st) (\<lambda>(bs, st'). Inr (out @ bs, st')))"

definition take_up :: "('v, 'w) object_model \<Rightarrow> nat \<Rightarrow> srcid \<Rightarrow> 'v source \<Rightarrow> nat option
    \<Rightarrow> ('v, 'w) object_state \<Rightarrow> object_fault + ('v, 'w) object_state" where
  "take_up W n c child newObject st =
     (if src_object child \<noteq> newObject then resetObject W n c newObject st else Inr st)"

fun serializeProperty :: "'v qstream \<Rightarrow> ('v, 'w) environment \<Rightarrow> ('v, 'w) object_model \<Rightarrow> nat \<Rightarrow> srcid \<Rightarrow> int
    \<Rightarrow> ('v, 'w) object_state \<Rightarrow> object_fault + (bytes \<times> ('v, 'w) object_state)" where
  "serializeProperty S E W 0 i internalIndex st = Inl Too_deep"
| "serializeProperty S E W (Suc n) i internalIndex st =
     bindE (the_source i st) (\<lambda>s.
       let propertyIndex = sourcePropertyIndex (src_api s) internalIndex in
       case property_target s internalIndex of
         None \<Rightarrow> Inl (No_target i)
       | Some target \<Rightarrow>
           let value = readProperty W target propertyIndex (world (os_io st)) in
           if isPointerToQObject W target propertyIndex then
             bindE (child_source i s internalIndex) (\<lambda>c.
             bindE (the_source c st) (\<lambda>child0.
             bindE (take_up W n c child0 (toQObject W value) st) (\<lambda>st1.
             bindE (the_source c st1) (\<lambda>child.
               let (q, st2) = add_definition E (src_priv s) child (qro_of_source W child) st1;
                   head = put_var S (fromQro W q)
               in if qro_isNull q then Inr (head, st2)
                  else
                    let count = propertyCount (src_api child) in
                    bindE (foldE (collect (\<lambda>j st. serializeProperty S E W n c (int j) st))
                             [0..<count] (put_u32 S (of_nat count), st2))
                      (\<lambda>(params, st3). Inr (head @ put_bytes S params, st3))))))
           else Inr (serialize_value S E W (src_priv s) (isVariantProperty W target propertyIndex) value st))"

end
