(* ===== verification/ObjectProps.thy ===== *)
theory ObjectProps
  imports ObjectValues LittleEndian
begin

text \<open>
  A sub-object's values arrive: what \<^verbatim>\<open>serializeProperty\<close> writes for an object property is
  read as one value, a \<open>QRO_\<close> that names the child source and carries the values of its
  properties, at every depth. And a child that was null when its source was made is sent as an
  object later without being registered: calls to its replica reach nothing.
\<close>

subsection \<open>Streaming a \<open>QRO_\<close>\<close>

text \<open>
  Sizes of what is written, and how a variant of the type \<open>QRO_\<close> travels: a tag, then the
  type's own operators, and reading gives a variant that holds what they have read; \<open>asQ\<close> gives
  the \<open>QRO_\<close> in a value (\<open>asQro\<close> of a node's environment).
\<close>

definition sizes_ok :: "'v qstream \<Rightarrow> bool" where
  "sizes_ok S \<longleftrightarrow> (\<forall>b. length b \<le> length (put_bytes S b)) \<and> (\<forall>s. 2 * length s \<le> length (put_str S s))"

definition qro_variants :: "'v qstream \<Rightarrow> ('v, 'w) object_model \<Rightarrow> ('v \<Rightarrow> qro option) \<Rightarrow> (bytes \<Rightarrow> nat \<times> bytes)
    \<Rightarrow> bytes \<Rightarrow> bool" where
  "qro_variants S W asQ get_u8 tag \<longleftrightarrow>
     (\<forall>b r. get_u8 (b # r) = (unat b, r)) \<and>
     (\<forall>q. put_var S (fromQro W q) = tag @ put_qro S q) \<and>
     (\<forall>i. get_var S (tag @ i) = map_prod (fromQro W) id (get_qro S get_u8 i)) \<and>
     (\<forall>q. asQ (fromQro W q) = Some q)"

definition qro_params :: "'v qstream \<Rightarrow> bool \<Rightarrow> bytes \<Rightarrow> bytes" where
  "qro_params S isNull p = (if isNull then [] else put_bytes S p)"

lemma qro_rt:
  assumes "qdata_stream S" and "\<forall>b r. get_u8 (b # r) = (unat b, r)"
    and "str_fits (qro_name q)" and "str_fits (qro_typeName q)" and "bytes_fit (qro_classDefinition q)"
    and "bytes_fit p" and "qro_isNull q \<Longrightarrow> p = []"
  shows "get_qro S get_u8 (put_qro S q @ qro_params S (qro_isNull q) p @ r) = (q\<lparr>qro_parameters := p\<rparr>, r)"
  using assms(2-7)
  by (cases "qro_type q")
     (simp_all add: get_qro_def put_qro_def object_type_number_def qro_params_def
        qdata_stream.roundtrips[OF assms(1)])

lemma qro_arrives:
  assumes "qdata_stream S" and "sizes_ok S" and "qro_variants S W asQ get_u8 tag"
    and "bytes_fit (put_var S (fromQro W q) @ qro_params S (qro_isNull q) p)"
    and "qro_isNull q \<Longrightarrow> p = []"
  shows "get_var S (put_var S (fromQro W q) @ qro_params S (qro_isNull q) p @ r) =
    (fromQro W (q\<lparr>qro_parameters := p\<rparr>), r)"
proof -
  have len: "length b \<le> length (put_bytes S b)" "2 * length s \<le> length (put_str S s)" for b s
    using assms(2) by (simp_all add: sizes_ok_def)
  have var: "put_var S (fromQro W q) = tag @ put_qro S q"
    using assms(3) by (simp add: qro_variants_def)
  have "length (put_qro S q) + length (qro_params S (qro_isNull q) p) < 2 ^ 32 - 1"
    using assms(4) by (simp add: bytes_fit_def var)
  moreover have "length p \<le> length (qro_params S (qro_isNull q) p)"
    using len(1)[of p] assms(5) by (simp add: qro_params_def)
  ultimately have fits: "str_fits (qro_name q)" "str_fits (qro_typeName q)"
      "bytes_fit (qro_classDefinition q)" "bytes_fit p"
    using len(2)[of "qro_name q"] len(2)[of "qro_typeName q"] len(1)[of "qro_classDefinition q"]
    by (simp_all add: put_qro_def str_fits_def bytes_fit_def)
  have "get_qro S get_u8 (put_qro S q @ qro_params S (qro_isNull q) p @ r) = (q\<lparr>qro_parameters := p\<rparr>, r)"
    using qro_rt[OF assms(1) _ fits assms(5)] assms(3) by (simp add: qro_variants_def)
  then show ?thesis using assms(3) by (simp add: qro_variants_def)
qed

subsection \<open>What a value says of a property\<close>

text \<open>
  The child sources are in step with the objects when every object property, down the tree, has
  a child source, with the object the property holds: \<open>serializeProperty\<close> then resets nothing. It depends on the
  sources and on the world only, and \<open>n\<close> bounds the depth, as the fuel does.
\<close>

type_synonym ('v, 'w) scene = "(srcid \<Rightarrow> 'v source option) \<times> 'w"

definition scene :: "('v, 'w) object_state \<Rightarrow> ('v, 'w) scene" where
  "scene st = (sources (os_io st), world (os_io st))"

definition property_value :: "('v, 'w) object_model \<Rightarrow> ('v, 'w) scene \<Rightarrow> 'v source \<Rightarrow> int \<Rightarrow> nat \<Rightarrow> 'v" where
  "property_value W sc s idx target = readProperty W target (sourcePropertyIndex (src_api s) idx) (snd sc)"

definition holds_object :: "('v, 'w) object_model \<Rightarrow> 'v source \<Rightarrow> int \<Rightarrow> nat \<Rightarrow> bool" where
  "holds_object W s idx target = isPointerToQObject W target (sourcePropertyIndex (src_api s) idx)"

fun in_step :: "('v, 'w) object_model \<Rightarrow> ('v, 'w) scene \<Rightarrow> nat \<Rightarrow> srcid \<Rightarrow> int \<Rightarrow> bool" where
  "in_step W sc 0 i idx = False"
| "in_step W sc (Suc n) i idx =
     (\<exists>s target. fst sc i = Some s \<and> property_target s idx = Some target \<and>
        (holds_object W s idx target \<longrightarrow>
           (\<exists>c child. map_of (src_children s) idx = Some c \<and> fst sc c = Some child \<and>
              src_object child = toQObject W (property_value W sc s idx target) \<and>
              (src_object child \<noteq> None \<longrightarrow>
                 (\<forall>j < propertyCount (src_api child). in_step W sc n c (int j))))))"

text \<open>
  \<open>describes\<close>: what the value \<open>v\<close> that a receiver has read says of property \<open>idx\<close> of source
  \<open>i\<close>. A plain value is itself, or comes inside a \<open>QRO_\<close> when it is a gadget that brings its
  definition; an object is a \<open>QRO_\<close> with the child's name and type that is null when the child's
  object is, and else carries one parameter per property of the child, which describes it.
\<close>

fun describes :: "'v qstream \<Rightarrow> ('v, 'w) environment \<Rightarrow> ('v, 'w) object_model \<Rightarrow> ('v \<Rightarrow> qro option)
    \<Rightarrow> ('v, 'w) scene \<Rightarrow> nat \<Rightarrow> srcid \<Rightarrow> int \<Rightarrow> 'v \<Rightarrow> bool" where
  "describes S E W asQ sc 0 i idx v = False"
| "describes S E W asQ sc (Suc n) i idx v =
     (\<exists>s target. fst sc i = Some s \<and> property_target s idx = Some target \<and>
        (if holds_object W s idx target then
           \<exists>c child q. map_of (src_children s) idx = Some c \<and> fst sc c = Some child \<and> asQ v = Some q \<and>
             qro_name q = src_name child \<and> qro_typeName q = api_typeName (src_api child) \<and>
             qro_isNull q = (src_object child = None) \<and>
             (src_object child \<noteq> None \<longrightarrow>
                length (child_parameters S q) = propertyCount (src_api child) \<and>
                (\<forall>j < propertyCount (src_api child). describes S E W asQ sc n c (int j) (child_parameters S q ! j)))
         else
           let value = property_value W sc s idx target in
           v = enc E value \<or>
           (\<exists>q. asQ v = Some q \<and> qro_type q = GADGET \<and> qro_parameters q = put_var S value)))"

subsection \<open>Collecting the properties of a child\<close>

definition reads_as :: "'v qstream \<Rightarrow> bytes \<Rightarrow> 'v \<Rightarrow> bool" where
  "reads_as S bs v \<longleftrightarrow> (\<forall>r. get_var S (bs @ r) = (v, r))"

lemma collect_Inr: "collect ser j (out, st) = Inr (out', st') \<longleftrightarrow>
    (\<exists>bs. ser j st = Inr (bs, st') \<and> out' = out @ bs)"
  by (auto simp: collect_def bindE_Inr_iff)

lemma collect_grows:
  "foldE (collect ser) js (out, st) = Inr (out', st') \<Longrightarrow> \<exists>ext. out' = out @ ext"
proof (induction js arbitrary: out st)
  case (Cons j js)
  then obtain out1 st1 where "collect ser j (out, st) = Inr (out1, st1)"
    and "foldE (collect ser) js (out1, st1) = Inr (out', st')"
    by (auto simp: bindE_Inr_iff)
  then show ?case using Cons.IH by (fastforce simp: collect_Inr)
qed simp

lemma bytes_fit_parts: "bytes_fit (a @ b) \<Longrightarrow> bytes_fit a \<and> bytes_fit b"
  by (simp add: bytes_fit_def)

lemma collected:
  assumes step: "\<And>j st bs st'. j \<in> set js \<Longrightarrow> scene st = sc \<Longrightarrow> ser j st = Inr (bs, st') \<Longrightarrow> bytes_fit bs \<Longrightarrow>
      scene st' = sc \<and> (\<exists>v. reads_as S bs v \<and> D j v)"
    and "foldE (collect ser) js (out, st) = Inr (out', st')" and "scene st = sc" and "bytes_fit out'"
  shows "scene st' = sc \<and>
    (\<exists>bss vs. out' = out @ concat bss \<and> list_all2 (reads_as S) bss vs \<and> list_all2 D js vs)"
  using assms
proof (induction js arbitrary: out st)
  case (Cons j js)
  from Cons.prems(2) obtain bs st1 where bs: "ser j st = Inr (bs, st1)"
    and rest: "foldE (collect ser) js (out @ bs, st1) = Inr (out', st')"
    by (auto simp: bindE_Inr_iff collect_Inr)
  obtain ext where "out' = (out @ bs) @ ext" using collect_grows[OF rest] by blast
  then have "bytes_fit bs" using Cons.prems(4) bytes_fit_parts by (metis append_assoc)
  with Cons.prems(1)[of j, OF _ Cons.prems(3) bs]
  obtain v where sc1: "scene st1 = sc" and v: "reads_as S bs v" "D j v" by auto
  have "scene st' = sc \<and> (\<exists>bss vs. out' = (out @ bs) @ concat bss \<and> list_all2 (reads_as S) bss vs \<and> list_all2 D js vs)"
    using Cons.IH[OF _ rest sc1 Cons.prems(4)] Cons.prems(1) by (metis list.set_intros(2))
  then obtain bss vs where "scene st' = sc" "out' = (out @ bs) @ concat bss"
    "list_all2 (reads_as S) bss vs" "list_all2 D js vs" by blast
  then show ?case using v by (intro conjI exI[of _ "bs # bss"] exI[of _ "v # vs"]) simp_all
qed auto

lemma get_elems_reads:
  "list_all2 (reads_as S) bss vs \<Longrightarrow> get_elems (get_var S) (length vs) (concat bss @ r) = (vs, r)"
  by (induction bss vs rule: list_all2_induct) (simp_all add: reads_as_def)

subsection \<open>Objects arrive\<close>

definition transmits :: "'v qstream \<Rightarrow> ('v, 'w) environment \<Rightarrow> ('v, 'w) object_model \<Rightarrow> ('v \<Rightarrow> qro option)
    \<Rightarrow> (bytes \<Rightarrow> nat \<times> bytes) \<Rightarrow> bytes \<Rightarrow> ('v, 'w) scene \<Rightarrow> bool" where
  "transmits S E W asQ get_u8 tag sc \<longleftrightarrow>
     qdata_stream S \<and> sizes_ok S \<and> qro_variants S W asQ get_u8 tag \<and>
     (\<forall>s x. snd (snd (classdef E s x)) = snd x) \<and>
     (\<forall>object k w. streamable S (enc E (readProperty W object k w))) \<and>
     (\<forall>i s. fst sc i = Some s \<longrightarrow> propertyCount (src_api s) < 2 ^ 32)"

lemma note_type_scene [simp]: "scene (note_type priv t st) = scene st"
  by (simp add: note_type_def scene_def)

lemma add_definition_scene:
  assumes "\<forall>s x. snd (snd (classdef E s x)) = snd x" and "add_definition E priv child q st = (q', st')"
  shows "scene st' = scene st" and "\<exists>d. q' = q\<lparr>qro_classDefinition := d\<rparr>"
proof -
  obtain bs sent w where cd: "classdef E child (sentTypes (privates (os_io st) priv), world (os_io st)) = (bs, sent, w)"
    by (metis prod_cases3)
  have w: "w = world (os_io st)" using assms(1) cd by (metis snd_conv)
  show "scene st' = scene st"
    using assms(2) cd w by (auto simp: add_definition_def Let_def scene_def note_type_def split: if_splits)
  have "q' = q \<or> q' = q\<lparr>qro_classDefinition := bs\<rparr>"
    using assms(2) cd by (auto simp: add_definition_def Let_def split: if_splits)
  moreover have "q = q\<lparr>qro_classDefinition := qro_classDefinition q\<rparr>" by simp
  ultimately show "\<exists>d. q' = q\<lparr>qro_classDefinition := d\<rparr>" by metis
qed

lemma serialize_value_arrives:
  assumes tr: "transmits S E W asQ get_u8 tag sc" and v: "streamable S (enc E value)"
    and run: "serialize_value S E W priv isVariant value st = (bs, st')" and fit: "bytes_fit bs"
  shows "scene st' = scene st \<and>
    (\<exists>v. reads_as S bs v \<and> (v = enc E value \<or>
        (\<exists>q. asQ v = Some q \<and> qro_type q = GADGET \<and> qro_parameters q = put_var S value)))"
proof -
  have S: "qdata_stream S" "sizes_ok S" "qro_variants S W asQ get_u8 tag"
    using tr by (simp_all add: transmits_def)
  have plain: "reads_as S (put_var S (enc E value)) (enc E value)"
    using qdata_stream.var_rt[OF S(1) v] by (simp add: reads_as_def)
  let ?g = "\<lambda>g. qro_of_gadget S (types W) value g"
  have gadget: "reads_as S bs (fromQro W ((?g g)\<lparr>qro_parameters := put_var S value\<rparr>))"
    if "bs = put_var S (fromQro W (?g g)) @ put_bytes S (qro_parameters (?g g))" for g
    using qro_arrives[OF S, of "?g g" "put_var S value"] fit that
    by (simp add: reads_as_def qro_params_def qro_of_gadget_def)
  have qro: "asQ (fromQro W q) = Some q" for q using S(3) by (simp add: qro_variants_def)
  show ?thesis
  proof (cases "if p_isDynamic (privates (os_io st) priv) \<and> isVariant then gadget_of W value else None")
    case None
    then show ?thesis using run plain by (auto simp: serialize_value_def Let_def)
  next
    case (Some g)
    show ?thesis
    proof (cases "qg_name g \<in> set (sentTypes (privates (os_io st) priv))")
      case True
      then show ?thesis using run plain Some by (auto simp: serialize_value_def Let_def)
    next
      case False
      then have bs: "bs = put_var S (fromQro W (?g g)) @ put_bytes S (qro_parameters (?g g))"
        and st': "st' = note_type priv (qg_name g) st"
        using run Some by (auto simp: serialize_value_def Let_def)
      show ?thesis
        using gadget[OF bs] qro by (auto simp: st' qro_of_gadget_def intro!: exI)
    qed
  qed
qed

lemma serializeProperty_arrives:
  assumes "transmits S E W asQ get_u8 tag sc" and "scene st = sc"
    and "serializeProperty S E W n i idx st = Inr (bs, st')" and "in_step W sc n i idx" and "bytes_fit bs"
  shows "scene st' = sc \<and> (\<exists>v. reads_as S bs v \<and> describes S E W asQ sc n i idx v)"
  using assms(2-5)
proof (induction n arbitrary: i idx st bs st')
  case (Suc n)
  have S: "qdata_stream S" "sizes_ok S" "qro_variants S W asQ get_u8 tag"
    and cd: "\<forall>s x. snd (snd (classdef E s x)) = snd x"
    and str: "\<forall>object k w. streamable S (enc E (readProperty W object k w))"
    and small: "\<And>i s. fst sc i = Some s \<Longrightarrow> propertyCount (src_api s) < 2 ^ 32"
    using assms(1) by (simp_all add: transmits_def)
  have sc: "sources (os_io st) = fst sc" "world (os_io st) = snd sc" using Suc.prems(1) by (auto simp: scene_def)
  obtain s where s: "fst sc i = Some s"
    using Suc.prems(2) by (auto simp: bindE_Inr_iff the_source_def sc split: option.splits)
  obtain target where target: "property_target s idx = Some target"
    using Suc.prems(2) s by (auto simp: bindE_Inr_iff the_source_def sc Let_def split: option.splits)
  define pv where "pv = property_value W sc s idx target"
  show ?case
  proof (cases "holds_object W s idx target")
    case False
    then have "serialize_value S E W (src_priv s) (isVariantProperty W target (sourcePropertyIndex (src_api s) idx)) pv st = (bs, st')"
      using Suc.prems(2) s target
      by (simp add: the_source_def sc Let_def holds_object_def pv_def property_value_def)
    from serialize_value_arrives[OF assms(1) _ this Suc.prems(4)] str
    have "scene st' = scene st \<and> (\<exists>v. reads_as S bs v \<and> (v = enc E pv \<or>
        (\<exists>q. asQ v = Some q \<and> qro_type q = GADGET \<and> qro_parameters q = put_var S pv)))"
      by (simp add: pv_def property_value_def)
    then show ?thesis using False s target Suc.prems(1) by (simp add: pv_def Let_def)
  next
    case True
    have run: "bindE (child_source i s idx) (\<lambda>c. bindE (the_source c st) (\<lambda>child0.
        bindE (take_up W n c child0 (toQObject W pv) st) (\<lambda>st1. bindE (the_source c st1) (\<lambda>child.
          let (q, st2) = add_definition E (src_priv s) child (qro_of_source W child) st1;
              head = put_var S (fromQro W q)
          in if qro_isNull q then Inr (head, st2)
             else let count = propertyCount (src_api child) in
               bindE (foldE (collect (\<lambda>j st. serializeProperty S E W n c (int j) st)) [0..<count] (put_u32 S (of_nat count), st2))
                 (\<lambda>(params, st3). Inr (head @ put_bytes S params, st3)))))) = Inr (bs, st')"
      using Suc.prems(2) s target True
      by (simp add: the_source_def sc Let_def holds_object_def pv_def property_value_def collect_def)
    obtain c child where c: "map_of (src_children s) idx = Some c" and child: "fst sc c = Some child"
      using run by (auto simp: bindE_Inr_iff child_source_def the_source_def sc split: option.splits)
    have obj: "src_object child = toQObject W pv"
      and kids: "\<And>j. src_object child \<noteq> None \<Longrightarrow> j < propertyCount (src_api child) \<Longrightarrow> in_step W sc n c (int j)"
      using Suc.prems(3) s target True c child by (auto simp: pv_def)
    obtain q st2 where q: "add_definition E (src_priv s) child (qro_of_source W child) st = (q, st2)"
      by (cases "add_definition E (src_priv s) child (qro_of_source W child) st")
    note ad = add_definition_scene[OF cd q]
    obtain d where d: "q = (qro_of_source W child)\<lparr>qro_classDefinition := d\<rparr>" using ad(2) by blast
    have qs: "qro_name q = src_name child" "qro_typeName q = api_typeName (src_api child)"
      "qro_isNull q = (src_object child = None)" "qro_parameters q = []"
      by (simp_all add: d qro_of_source_def)
    let ?count = "propertyCount (src_api child)"
    have run': "(if qro_isNull q then Inr (put_var S (fromQro W q), st2)
        else bindE (foldE (collect (\<lambda>j st. serializeProperty S E W n c (int j) st)) [0..<?count] (put_u32 S (of_nat ?count), st2))
          (\<lambda>(params, st3). Inr (put_var S (fromQro W q) @ put_bytes S params, st3))) = Inr (bs, st')"
      using run c child obj q
      by (simp add: child_source_def the_source_def sc take_up_def Let_def split: if_splits)
    have as: "asQ (fromQro W q') = Some q'" for q' using S(3) by (simp add: qro_variants_def)
    show ?thesis
    proof (cases "qro_isNull q")
      case null: True
      then have bs: "bs = put_var S (fromQro W q)" and st': "st' = st2" using run' by auto
      have "reads_as S bs (fromQro W (q\<lparr>qro_parameters := []\<rparr>))"
        using qro_arrives[OF S, of q "[]"] Suc.prems(4) null bs by (simp add: reads_as_def qro_params_def)
      moreover have "describes S E W asQ sc (Suc n) i idx (fromQro W (q\<lparr>qro_parameters := []\<rparr>))"
        using s target True c child qs null as by simp
      ultimately show ?thesis using ad(1) Suc.prems(1) st' by blast
    next
      case notnull: False
      then obtain params st3 where
        fold: "foldE (collect (\<lambda>j st. serializeProperty S E W n c (int j) st)) [0..<?count] (put_u32 S (of_nat ?count), st2) = Inr (params, st3)"
        and bs: "bs = put_var S (fromQro W q) @ put_bytes S params" and st': "st' = st3"
        using run' by (auto simp: bindE_Inr_iff)
      have "length params \<le> length (put_bytes S params)" using S(2) by (simp add: sizes_ok_def)
      then have fit: "bytes_fit params" using Suc.prems(4) bs by (simp add: bytes_fit_def)
      have st2: "scene st2 = sc" using ad(1) Suc.prems(1) by simp
      have "scene st3 = sc \<and> (\<exists>bss vs. params = put_u32 S (of_nat ?count) @ concat bss \<and>
          list_all2 (reads_as S) bss vs \<and>
          list_all2 (\<lambda>j v. describes S E W asQ sc n c (int j) v) [0..<?count] vs)"
        by (rule collected[OF _ fold st2 fit]) (use Suc.IH kids notnull qs(3) in auto)
      then obtain bss vs where st3: "scene st3 = sc"
        and params: "params = put_u32 S (of_nat ?count) @ concat bss"
        and vs: "list_all2 (reads_as S) bss vs" and ds: "list_all2 (\<lambda>j v. describes S E W asQ sc n c (int j) v) [0..<?count] vs"
        by blast
      have len: "length vs = ?count" using list_all2_lengthD[OF ds] by simp
      have "params \<noteq> []"
        using qdata_stream.u32_len[OF S(1), of "of_nat ?count"] by (auto simp: params)
      then have "child_parameters S (q\<lparr>qro_parameters := params\<rparr>) = fst (get_list S (get_var S) params)"
        by (simp add: child_parameters_def)
      then have ps: "child_parameters S (q\<lparr>qro_parameters := params\<rparr>) = vs"
        using get_elems_reads[OF vs, of "[]"] len small[OF child]
        by (simp add: get_list_def params qdata_stream.u32_rt[OF S(1)] unat_of_nat_u32)
      have "reads_as S bs (fromQro W (q\<lparr>qro_parameters := params\<rparr>))"
        using qro_arrives[OF S, of q params] Suc.prems(4) notnull bs by (simp add: reads_as_def qro_params_def)
      moreover have "describes S E W asQ sc (Suc n) i idx (fromQro W (q\<lparr>qro_parameters := params\<rparr>))"
        using s target True c child qs notnull as ps len ds
        by (auto simp: list_all2_conv_all_nth)
      ultimately show ?thesis using st3 st' by blast
    qed
  qed
qed simp

text \<open>\<open>serializeProperty\<close> meets no fault when the tree is in step.\<close>

lemma serialize_value_scene:
  "scene (snd (serialize_value S E W priv isVariant x st)) = scene st"
  by (auto simp: serialize_value_def Let_def split: option.split)

lemma serializeProperty_returns:
  assumes cd: "\<forall>s x. snd (snd (classdef E s x)) = snd x"
    and "in_step W sc n i idx" and "scene st = sc"
  shows "\<exists>bs st'. serializeProperty S E W n i idx st = Inr (bs, st') \<and> scene st' = sc"
  using assms(2,3)
proof (induction n arbitrary: i idx st)
  case (Suc n)
  have sc: "sources (os_io st) = fst sc" "world (os_io st) = snd sc" using Suc.prems(2) by (auto simp: scene_def)
  obtain s target where s: "fst sc i = Some s" and target: "property_target s idx = Some target"
    and obj: "holds_object W s idx target \<Longrightarrow>
           (\<exists>c child. map_of (src_children s) idx = Some c \<and> fst sc c = Some child \<and>
              src_object child = toQObject W (property_value W sc s idx target) \<and>
              (src_object child \<noteq> None \<longrightarrow>
                 (\<forall>j < propertyCount (src_api child). in_step W sc n c (int j))))"
    using Suc.prems(1) by auto
  show ?case
  proof (cases "holds_object W s idx target")
    case False
    let ?r = "serialize_value S E W (src_priv s) (isVariantProperty W target (sourcePropertyIndex (src_api s) idx))
        (readProperty W target (sourcePropertyIndex (src_api s) idx) (snd sc)) st"
    have "serializeProperty S E W (Suc n) i idx st = Inr ?r"
      using s target False by (simp add: the_source_def sc Let_def holds_object_def)
    moreover have "scene (snd ?r) = sc" unfolding serialize_value_scene by (rule Suc.prems(2))
    ultimately show ?thesis by (metis prod.collapse)
  next
    case True
    obtain c child where c: "map_of (src_children s) idx = Some c" "fst sc c = Some child"
      and same: "src_object child = toQObject W (property_value W sc s idx target)"
      and kids: "src_object child \<noteq> None \<Longrightarrow> j < propertyCount (src_api child) \<Longrightarrow> in_step W sc n c (int j)" for j
      using obj[OF True] by blast
    obtain q st2 where q: "add_definition E (src_priv s) child (qro_of_source W child) st = (q, st2)"
      by (cases "add_definition E (src_priv s) child (qro_of_source W child) st")
    have st2: "scene st2 = sc" and null: "qro_isNull q = (src_object child = None)"
      using add_definition_scene[OF cd q] Suc.prems(2) by (auto simp: qro_of_source_def)
    let ?count = "propertyCount (src_api child)"
    let ?rest = "foldE (collect (\<lambda>j st. serializeProperty S E W n c (int j) st)) [0..<?count] (put_u32 S (of_nat ?count), st2)"
    have run: "serializeProperty S E W (Suc n) i idx st =
        (if qro_isNull q then Inr (put_var S (fromQro W q), st2)
         else bindE ?rest (\<lambda>(params, st3). Inr (put_var S (fromQro W q) @ put_bytes S params, st3)))"
      using s target True c same q
      by (simp add: the_source_def sc Let_def holds_object_def property_value_def child_source_def take_up_def)
    show ?thesis
    proof (cases "qro_isNull q")
      case True
      then show ?thesis using run st2 by simp
    next
      case False
      have "\<exists>x. ?rest = Inr x \<and> scene (snd x) = sc"
      proof (rule foldE_invariant)
        show "scene (snd (put_u32 S (of_nat ?count), st2)) = sc" using st2 by simp
      next
        fix j x assume j: "j \<in> set [0..<?count]" and x: "scene (snd (x :: bytes \<times> _)) = sc"
        obtain out st1 where xx: "x = (out, st1)" by (cases x)
        have "\<exists>bs st'. serializeProperty S E W n c (int j) st1 = Inr (bs, st') \<and> scene st' = sc"
          by (rule Suc.IH[OF kids]) (use j x xx False null in auto)
        then show "\<exists>y. collect (\<lambda>j st. serializeProperty S E W n c (int j) st) j x = Inr y \<and> scene (snd y) = sc"
          by (auto simp: xx collect_def)
      qed
      then show ?thesis using run False by auto
    qed
  qed
qed simp


end
