(* ===== verification/ObjectRuns.thy ===== *)
theory ObjectRuns
  imports ObjectProps
begin

text \<open>
  A host with a sub-object, on a concrete stream: a desk whose lamp is an object property. The
  values of the lamp arrive with the desk's; and a lamp that the desk gets after its source was
  made is announced to replicas but not registered for their calls.
\<close>

subsection \<open>Registration\<close>

lemma foldE_keeps:
  assumes "foldE f xs s = Inr s'" and "\<And>x s s'. x \<in> set xs \<Longrightarrow> f x s = Inr s' \<Longrightarrow> Q s' = Q s"
  shows "Q s' = Q s"
  using assms
proof (induction xs arbitrary: s)
  case (Cons x xs)
  then obtain s1 where "f x s = Inr s1" and "foldE f xs s1 = Inr s'" by (auto simp: bindE_Inr_iff)
  then show ?case using Cons by (metis list.set_intros)
qed simp

definition known_objects :: "('v, 'w) object_state \<Rightarrow> (string, srcid) qmap" where
  "known_objects st = m_sourceObjects (os_io st)"

lemma registered_simps [simp]:
  "known_objects (st\<lparr>os_links := l\<rparr>) = known_objects st" "known_objects (st\<lparr>os_parent := p\<rparr>) = known_objects st"
  "known_objects (set_source i s st) = known_objects st" "known_objects (note_type priv t st) = known_objects st"
  "known_objects (disconnect_from target i st) = known_objects st" "known_objects (setConnections W i s st) = known_objects st"
  by (simp_all add: known_objects_def set_source_def note_type_def disconnect_from_def setConnections_def
        split: option.split)

text \<open>Only item models are registered by a reset.\<close>

lemma reset_self_registered:
  "\<forall>ob. \<not> is_model W ob \<Longrightarrow> reset_self W i newObject s st = (s', st') \<Longrightarrow> known_objects st' = known_objects st"
  by (auto simp: reset_self_def Let_def split: option.splits if_splits)

lemma resetObject_registered:
  "\<forall>ob. \<not> is_model W ob \<Longrightarrow> resetObject W n i newObject st = Inr st' \<Longrightarrow> known_objects st' = known_objects st"
proof (induction n arbitrary: i newObject st st')
  case (Suc n)
  obtain s where s: "the_source i st = Inr s" using Suc.prems(2) by (auto simp: bindE_Inr_iff)
  obtain s' st1 where self: "reset_self W i newObject s st = (s', st1)"
    by (cases "reset_self W i newObject s st")
  have st1: "known_objects st1 = known_objects st" by (rule reset_self_registered[OF Suc.prems(1) self])
  show ?case
  proof (cases "child_count W (src_api s') = 0")
    case True
    then show ?thesis using Suc.prems(2) s self st1 by simp
  next
    case False
    then have "known_objects st' = known_objects st1"
      using Suc.prems(2) s self
      by (simp add: Let_def) (erule foldE_keeps, auto split: option.splits intro: Suc.IH[OF Suc.prems(1)])
    then show ?thesis using st1 by simp
  qed
qed simp

lemma add_definition_registered:
  "add_definition E priv child q st = (q', st') \<Longrightarrow> known_objects st' = known_objects st"
  by (auto simp: add_definition_def Let_def known_objects_def note_type_def split: if_splits prod.splits)

lemma serialize_value_registered:
  "serialize_value S E W priv isVariant x st = (bs, st') \<Longrightarrow> known_objects st' = known_objects st"
  by (auto simp: serialize_value_def Let_def split: option.splits if_splits)

lemma serializeProperty_registered:
  "\<forall>ob. \<not> is_model W ob \<Longrightarrow> serializeProperty S E W n i idx st = Inr (bs, st') \<Longrightarrow>
   known_objects st' = known_objects st"
proof (induction n arbitrary: i idx st bs st')
  case (Suc n)
  obtain s where s: "the_source i st = Inr s" using Suc.prems(2) by (auto simp: bindE_Inr_iff)
  obtain target where target: "property_target s idx = Some target"
    using Suc.prems(2) s by (auto simp: Let_def split: option.splits)
  show ?case
  proof (cases "isPointerToQObject W target (sourcePropertyIndex (src_api s) idx)")
    case False
    then show ?thesis using Suc.prems(2) s target
      by (auto simp: Let_def intro: serialize_value_registered)
  next
    case True
    let ?x = "readProperty W target (sourcePropertyIndex (src_api s) idx) (world (os_io st))"
    obtain c child0 st1 child where c: "child_source i s idx = Inr c" "the_source c st = Inr child0"
      and up: "take_up W n c child0 (toQObject W ?x) st = Inr st1" and child: "the_source c st1 = Inr child"
      using Suc.prems(2) s target True by (auto simp: Let_def bindE_Inr_iff)
    obtain q st2 where q: "add_definition E (src_priv s) child (qro_of_source W child) st1 = (q, st2)"
      by (cases "add_definition E (src_priv s) child (qro_of_source W child) st1")
    have "known_objects st1 = known_objects st"
      using up resetObject_registered[OF Suc.prems(1)] by (auto simp: take_up_def split: if_splits)
    then have st2: "known_objects st2 = known_objects st" using add_definition_registered[OF q] by simp
    show ?thesis
    proof (cases "qro_isNull q")
      case True
      then show ?thesis using Suc.prems(2) s target \<open>isPointerToQObject W target _\<close> c up child q st2
        by (simp add: Let_def)
    next
      case False
      let ?n = "propertyCount (src_api child)"
      obtain params st3 where fold: "foldE (collect (\<lambda>j st. serializeProperty S E W n c (int j) st)) [0..<?n]
          (put_u32 S (of_nat ?n), st2) = Inr (params, st3)" and st': "st' = st3"
        using Suc.prems(2) s target \<open>isPointerToQObject W target _\<close> c up child q False
        by (auto simp: Let_def bindE_Inr_iff)
      have "known_objects (snd (params, st3)) = known_objects (snd (put_u32 S (of_nat ?n), st2))"
        by (rule foldE_keeps[OF fold]) (auto simp: collect_Inr dest: Suc.IH[OF Suc.prems(1)])
      then have "known_objects st3 = known_objects st2" by simp
      then show ?thesis using st' st2 by simp
    qed
  qed
qed simp

subsection \<open>A desk and its lamp\<close>

text \<open>
  Values are numbers, objects (null or not) and \<open>QRO_\<close>s. The desk (object 7) has a number in
  property 0 and the lamp (object 9) in property 1; the lamp has one number.
\<close>

datatype desk_value = Num u32 | Obj "nat option" | Qro qro

definition le_get_u8 :: "bytes \<Rightarrow> nat \<times> bytes" where
  "le_get_u8 i = (case i of [] \<Rightarrow> (0, []) | b # r \<Rightarrow> (unat b, r))"

definition desk_put :: "desk_value \<Rightarrow> bytes" where
  "desk_put v = (case v of Num w \<Rightarrow> 0 # le_put32 w | Obj p \<Rightarrow> [2] | Qro q \<Rightarrow> 1 # put_qro le_stream q)"

definition desk_get :: "bytes \<Rightarrow> desk_value \<times> bytes" where
  "desk_get i = (case i of [] \<Rightarrow> (Obj None, [])
     | b # r \<Rightarrow> if b = 0 then map_prod Num id (le_get32 r)
                else if b = 1 then map_prod Qro id (get_qro le_stream le_get_u8 r) else (Obj None, r))"

definition desk_stream :: "desk_value qstream" where
  "desk_stream = \<lparr>put_u16 = le_put16, get_u16 = le_get16, put_u32 = le_put32, get_u32 = le_get32,
     put_bool = le_put_bool, get_bool = le_get_bool, put_str = le_put_str, get_str = le_get_str,
     put_bytes = le_put_bytes, get_bytes = le_get_bytes,
     put_var = desk_put, get_var = desk_get, streamable = (\<lambda>v. case v of Num w \<Rightarrow> True | _ \<Rightarrow> False)\<rparr>"

lemma qro_shrinks: "length (snd (get_qro le_stream le_get_u8 i)) \<le> length i"
proof -
  note le = qdata_stream.shrinks[OF le_stream_laws]
  let ?i1 = "snd (get_str le_stream i)" and ?i2 = "snd (get_str le_stream (snd (get_str le_stream i)))"
  let ?i3 = "snd (le_get_u8 ?i2)"
  let ?i4 = "snd (get_bytes le_stream ?i3)"
  let ?i5 = "snd (get_bool le_stream ?i4)"
  have "length ?i3 \<le> length ?i2" by (simp add: le_get_u8_def split: list.split)
  then have "length ?i5 \<le> length i"
    using le(4)[of i] le(4)[of ?i1] le(5)[of ?i3] le(3)[of ?i4] by linarith
  then show ?thesis
    using le(5)[of ?i5] by (simp add: get_qro_def Let_def split_beta)
qed

lemma desk_stream_laws: "qdata_stream desk_stream"
proof -
  note le = qdata_stream.roundtrips[OF le_stream_laws] qdata_stream.shrinks[OF le_stream_laws]
    qdata_stream.u16_len[OF le_stream_laws] qdata_stream.u32_len[OF le_stream_laws]
    qdata_stream.u32_consumes[OF le_stream_laws]
  have "length (snd (desk_get i)) \<le> length i" for i
    using qro_shrinks[of "tl i"]
    by (cases i) (auto simp: desk_get_def le_Suc_eq)
  then show ?thesis
    using le by unfold_locales
      (auto simp: desk_stream_def desk_put_def desk_get_def split: desk_value.splits)
qed

definition desk_model :: "(desk_value, nat option) object_model" where
  "desk_model = \<lparr>
     readProperty = (\<lambda>ob i lamp. if ob = 7 \<and> i = 1 then Obj lamp else if ob = 7 then Num 5 else Num 60),
     isPointerToQObject = (\<lambda>ob i. ob = 7 \<and> i = 1), isVariantProperty = (\<lambda>ob i. False),
     toQObject = (\<lambda>v. case v of Obj p \<Rightarrow> p | _ \<Rightarrow> None), gadget_of = (\<lambda>v. None),
     is_model = (\<lambda>ob. False), dynamic_api = (\<lambda>ob. None), child_count = (\<lambda>A. 0),
     is_cloned = (\<lambda>ob i. False), connects = (\<lambda>ob i. True), fromQro = Qro,
     types = \<lparr>te_mo = (\<lambda>m. \<lparr>qm_className = [], qm_props = [], qm_enumOffset = 0, qm_enums = []\<rparr>),
       te_metaObject = (\<lambda>t. None), te_qt = 0, te_indexOfEnum = (\<lambda>m n. None), te_size = (\<lambda>n. 0),
       te_seq = (\<lambda>t. None), te_assoc = (\<lambda>t. None), te_model = (\<lambda>n. False), te_enumOrder = (\<lambda>es. es),
       te_metaOrder = (\<lambda>ms. ms)\<rparr>\<rparr>"

definition desk_env :: "(desk_value, nat option) environment" where
  "desk_env = \<lparr>propf = (\<lambda>s dyn i tw. ([], tw)), classdef = (\<lambda>s tw. ([], tw)), enc = (\<lambda>v. case v of Obj p \<Rightarrow> Num 0 | Qro q \<Rightarrow> Num 0 | v \<Rightarrow> v),
     dec = (\<lambda>v t. v), callm = (\<lambda>s m args w. ([], Num 0, w)), setprop = (\<lambda>s p args w. ([], w)),
     pending = (\<lambda>v. None), hostUrl = (\<lambda>v. [])\<rparr>"

definition as_qro :: "desk_value \<Rightarrow> qro option" where
  "as_qro v = (case v of Qro q \<Rightarrow> Some q | _ \<Rightarrow> None)"

definition desk_api :: "string \<Rightarrow> string \<Rightarrow> nat \<Rightarrow> api" where
  "desk_api name type n = \<lparr>api_name = name, api_typeName = type, api_className = type, objectSignature = [],
     enumCount = 0, propertyCount = n, signalCount = 0, methodCount = 0, sourceEnumIndex = (\<lambda>_. -1),
     sourcePropertyIndex = (\<lambda>i. if 0 \<le> i \<and> i < int n then i else -1), sourceSignalIndex = (\<lambda>_. -1),
     sourceMethodIndex = (\<lambda>_. -1), signalParams = (\<lambda>_. []), signalSignature = (\<lambda>_. []), signalNames = (\<lambda>_. []),
     methodParams = (\<lambda>_. []), methodSignature = (\<lambda>_. []), methodNames = (\<lambda>_. []), methodTypeName = (\<lambda>_. []),
     propertyIndexFromSignal = (\<lambda>_. -1), propertyRawIndexFromSignal = (\<lambda>_. -1), isDynamic = True,
     isAdapterSignal = (\<lambda>_. False), isAdapterMethod = (\<lambda>_. False), isAdapterProperty = (\<lambda>_. False)\<rparr>"

definition no_host :: "nat option \<Rightarrow> (desk_value, nat option) sourceio" where
  "no_host lamp = \<lparr>m_sourceObjects = [], m_sourceRoots = [], m_objectToSourceMap = [],
     m_registryMapping = [], m_connections = [], m_codec = dsp_new desk_stream 1, m_rxName = [], m_rxArgs = [],
     sources = (\<lambda>_. None), privates = (\<lambda>_. \<lparr>listeners = [], p_isDynamic = False, sentTypes = []\<rparr>),
     nextSource = 0, devices = (\<lambda>_. \<lparr>written = [], devOpen = True, isClosing = False\<rparr>),
     serverAddress = None, signals = [], watchers = [], fault = None, world = lamp\<rparr>"

text \<open>The host of the desk: its sources are made when the lamp is \<open>old\<close>, and then it is \<open>lamp\<close>.\<close>

definition desk_host :: "nat option \<Rightarrow> nat option \<Rightarrow> (desk_value, nat option) object_state" where
  "desk_host old lamp =
     \<lparr>os_io = snd (new_root (SrcTree (desk_api ''desk'' ''Desk'' 2) (Some 7) None
                (Child 1 (SrcTree (desk_api ''lamp'' ''Lamp'' 1) old None NoChildren) NoChildren)) (no_host lamp)),
      os_links = [], os_parent = (\<lambda>_. None), os_next = 100\<rparr>"

definition lamp_source :: "nat option \<Rightarrow> desk_value source" where
  "lamp_source old = \<lparr>src_name = ''Class::desk::lamp'', src_isRoot = False, src_api = desk_api ''lamp'' ''Lamp'' 1,
     src_object = old, src_adapter = None, src_children = [], src_priv = 0, src_args = []\<rparr>"

definition desk_source :: "desk_value source" where
  "desk_source = \<lparr>src_name = ''desk'', src_isRoot = True, src_api = desk_api ''desk'' ''Desk'' 2,
     src_object = Some 7, src_adapter = None, src_children = [(1, 1)], src_priv = 0, src_args = []\<rparr>"

lemma desk_sources:
  "sources (os_io (desk_host old lamp)) = [0 \<mapsto> desk_source, 1 \<mapsto> lamp_source old]"
  "world (os_io (desk_host old lamp)) = lamp"
  by (cases old; simp add: desk_host_def new_root_def no_host_def registerSource_def Let_def
        child_name_def desk_api_def desk_source_def lamp_source_def fun_eq_iff)+

lemma desk_fields:
  "src_children desk_source = [(1, 1)]" "property_target desk_source i = Some 7"
  "property_target (lamp_source old) i = old" "src_object (lamp_source old) = old"
  "propertyCount (src_api (lamp_source old)) = 1" "propertyCount (src_api desk_source) = 2"
  "holds_object desk_model desk_source 1 7" "\<not> holds_object desk_model (lamp_source old) i 9"
  "toQObject desk_model (property_value desk_model (srcs, lamp) desk_source 1 7) = lamp"
  by (simp_all add: desk_source_def lamp_source_def property_target_def desk_api_def holds_object_def
        desk_model_def property_value_def scene_def desk_sources)



lemma desk_transmits:
  "transmits desk_stream desk_env desk_model as_qro le_get_u8 [1] (scene (desk_host (Some 9) (Some 9)))"
proof -
  have "length s \<le> length (put_elems le_put_unit s)" "2 * length s \<le> length (put_elems le_put_unit s)" for s
    by (induction s) simp_all
  then have "2 * length s \<le> length (put_str desk_stream s)" for s
    by (simp add: desk_stream_def le_put_str_def trans_le_add2)
  moreover have "length b \<le> length (put_bytes desk_stream b)" for b
    by (simp add: desk_stream_def le_put_bytes_def)
  ultimately have sizes: "sizes_ok desk_stream" by (simp add: sizes_ok_def)
  have "put_qro desk_stream q = put_qro le_stream q" for q
    by (simp add: put_qro_def desk_stream_def)
  moreover have "get_qro desk_stream g i = get_qro le_stream g i" for g i
    by (simp add: get_qro_def desk_stream_def Let_def split_beta)
  ultimately have "qro_variants desk_stream desk_model as_qro le_get_u8 [1]"
    by (simp add: qro_variants_def)
       (simp add: desk_stream_def desk_put_def desk_get_def desk_model_def as_qro_def le_get_u8_def)
  with sizes desk_stream_laws show ?thesis
    by (auto simp: transmits_def desk_env_def scene_def desk_sources desk_fields)
       (simp add: desk_model_def desk_stream_def)
qed


end
