(* ===== verification/InProcess.thy ===== *)
theory InProcess
  imports ObjectValues
begin

text \<open>
  Replicas of a source of the same process: \<open>QInProcessReplicaImplementation\<close>
  (\<open>qremoteobjectreplica.cpp\<close>), which runs every access on the source itself, and the calls of
  \<open>QRemoteObjectReplica\<close> and of a dynamic replica (\<open>qremoteobjectdynamicreplica.cpp\<close>), which go
  to the implementation behind the replica: none yet (a stub), one that is connected, or one in
  process.

  The objects behind sources are the parameter \<open>local_model\<close>, on top of \<open>object_model\<close>: writing a
  property of an object, the class of an object, and the number of properties of \<open>QObject\<close>. A
  null pointer the code would go through is a \<open>local_fault\<close>.
\<close>

record ('v, 'w) local_model =
  objects :: "('v, 'w) object_model"
  writeProperty :: "nat \<Rightarrow> int \<Rightarrow> 'v \<Rightarrow> 'w \<Rightarrow> (srcid \<times> int \<times> 'v list \<times> 'w) list \<times> 'w"
  object_class :: "nat \<Rightarrow> metaobject"
  qobjectPropertyOffset :: int
  memberOffset :: nat

datatype local_fault = No_class | No_local_source | No_local_object srcid | No_stub_property int
  | No_connected_members

text \<open>
  The members of \<open>QRemoteObjectReplicaImplementation\<close> are those of \<open>replica\<close>; \<open>ip_source\<close> is the
  weak pointer \<open>connectionToSource\<close>.
\<close>

record 'v inprocess =
  ip_base :: "'v replica"
  ip_source :: "srcid option"

definition new_local :: "string \<Rightarrow> metaobject list \<Rightarrow> int \<Rightarrow> int \<Rightarrow> 'v inprocess" where
  "new_local name meta signalOffset propertyOffset =
     \<lparr>ip_base = (new_connected_replica name meta signalOffset propertyOffset 0)\<lparr>m_childIndices := []\<rparr>,
      ip_source = None\<rparr>"

text \<open>
  \<open>configurePrivate\<close> of the base class. Its \<open>isInitialized\<close> is always true, and no value is
  announced to a later instance. Without a class the code goes through a null pointer.
\<close>

definition local_configure :: "nat \<Rightarrow> 'v inprocess \<Rightarrow> local_fault + 'v inprocess" where
  "local_configure inst ip =
     (let r = ip_base ip in
      if m_methodOffset r = 0 then
        (if m_metaObject r = [] then Inl No_class else Inr (ip\<lparr>ip_base := first_configure inst r\<rparr>))
      else
        let r1 = emit_event (EvInstInitialized inst) (r\<lparr>instances := instances r @ [inst]\<rparr>)
        in Inr (ip\<lparr>ip_base :=
             (if m_state r1 \<noteq> Valid
              then emit_event (EvInstStateChanged inst (m_state r1)
                     (if m_metaObject r1 \<noteq> [] then Default else Uninitialized)) r1
              else r1)\<rparr>))"

text \<open>
  \<open>connectReplica\<close>: the signals of the replica's class that the object has too, by signature; the
  object's are connected to the replica's.
\<close>

definition has_signal :: "metaobject \<Rightarrow> string \<Rightarrow> bool" where
  "has_signal mo sig \<longleftrightarrow> list_ex (\<lambda>mm. mm_kind mm = Signal \<and> mm_signature mm = sig) (mo_methods mo)"

definition connectReplica :: "('v, 'w) local_model \<Rightarrow> nat \<Rightarrow> metaobject \<Rightarrow> string list" where
  "connectReplica L ob us =
     map mm_signature
       (filter (\<lambda>mm. mm_kind mm = Signal \<and> has_signal (object_class L ob) (mm_signature mm))
         (drop (memberOffset L) (mo_methods us)))"

subsection \<open>Access to the source\<close>

definition local_source :: "'v inprocess \<Rightarrow> ('v, 'w) sourceio \<Rightarrow> local_fault + (srcid \<times> 'v source)" where
  "local_source ip st =
     (case ip_source ip of
        None \<Rightarrow> Inl No_local_source
      | Some i \<Rightarrow> (case sources st i of None \<Rightarrow> Inl No_local_source | Some s \<Rightarrow> Inr (i, s)))"

definition local_object :: "'v inprocess \<Rightarrow> ('v, 'w) sourceio \<Rightarrow> local_fault + nat" where
  "local_object ip st =
     bindE (local_source ip st) (\<lambda>(i, s).
       case src_object s of None \<Rightarrow> Inl (No_local_object i) | Some ob \<Rightarrow> Inr ob)"

definition local_getProperty :: "('v, 'w) local_model \<Rightarrow> int \<Rightarrow> 'v inprocess \<Rightarrow> ('v, 'w) sourceio \<Rightarrow> local_fault + 'v" where
  "local_getProperty L i ip st =
     bindE (local_object ip st) (\<lambda>ob.
       Inr (readProperty (objects L) ob (i + qobjectPropertyOffset L) (world st)))"

definition local_setProperty :: "'v qstream \<Rightarrow> ('v, 'w) environment \<Rightarrow> ('v, 'w) local_model \<Rightarrow> int \<Rightarrow> 'v \<Rightarrow> 'v inprocess
    \<Rightarrow> ('v, 'w) sourceio \<Rightarrow> local_fault + ('v, 'w) sourceio" where
  "local_setProperty S E L i v ip st =
     bindE (local_object ip st) (\<lambda>ob.
       let (es, w) = writeProperty L ob (i + qobjectPropertyOffset L) v (world st)
       in Inr ((run_emissions S E es st)\<lparr>world := w\<rparr>))"

definition local_setProperties :: "'v list \<Rightarrow> 'v inprocess \<Rightarrow> 'v inprocess" where
  "local_setProperties vs ip = ip"

definition local_send :: "'v qstream \<Rightarrow> ('v, 'w) environment \<Rightarrow> int32 \<Rightarrow> int \<Rightarrow> 'v list \<Rightarrow> 'v inprocess
    \<Rightarrow> ('v, 'w) sourceio \<Rightarrow> local_fault + ('v, 'w) sourceio" where
  "local_send S E call index args ip st =
     bindE (local_source ip st) (\<lambda>(i, s).
       if call = InvokeMetaMethod then
         (let n = index - m_methodOffset (ip_base ip) in
          if sourceMethodIndex (src_api s) n < 0 then Inr st
          else Inr (snd (invoke_method S E i n args st)))
       else
         (let n = index - m_propertyOffset (ip_base ip) in
          if sourcePropertyIndex (src_api s) n < 0 then Inr st
          else Inr (invoke_write S E i n args st)))"

definition local_sendWithReply :: "'v qstream \<Rightarrow> ('v, 'w) environment \<Rightarrow> int \<Rightarrow> 'v list \<Rightarrow> 'v inprocess
    \<Rightarrow> ('v, 'w) sourceio \<Rightarrow> local_fault + ('v call_data option \<times> ('v, 'w) sourceio)" where
  "local_sendWithReply S E index args ip st =
     bindE (local_source ip st) (\<lambda>(i, s).
       let n = index - m_methodOffset (ip_base ip) in
       if sourceMethodIndex (src_api s) n < 0 then Inr (None, st)
       else let (returnValue, st') = invoke_method S E i n args st
            in Inr (map_option fromCompletedCall returnValue, st'))"

subsection \<open>The implementation behind a replica\<close>

datatype 'v implementation = Stub "'v list" | Connected "'v replica" | InProcess "'v inprocess"

definition propAsVariant :: "('v, 'w) local_model \<Rightarrow> int \<Rightarrow> 'v implementation \<Rightarrow> ('v, 'w) sourceio \<Rightarrow> local_fault + 'v" where
  "propAsVariant L i x st =
     (case x of
        Stub vs \<Rightarrow> (if 0 \<le> i \<and> nat i < length vs then Inr (vs ! nat i) else Inl (No_stub_property i))
      | Connected r \<Rightarrow> (case getProperty i r of None \<Rightarrow> Inl (No_stub_property i) | Some v \<Rightarrow> Inr v)
      | InProcess ip \<Rightarrow> local_getProperty L i ip st)"

definition replica_setProperties :: "'v list \<Rightarrow> 'v implementation \<Rightarrow> 'v implementation" where
  "replica_setProperties vs x =
     (case x of
        Stub ws \<Rightarrow> Stub vs
      | Connected r \<Rightarrow> Connected (setProperties vs r)
      | InProcess ip \<Rightarrow> InProcess (local_setProperties vs ip))"

definition setChild :: "'v qstream \<Rightarrow> ('v, 'w) environment \<Rightarrow> ('v, 'w) local_model \<Rightarrow> int \<Rightarrow> 'v \<Rightarrow> 'v implementation
    \<Rightarrow> ('v, 'w) sourceio \<Rightarrow> local_fault + ('v implementation \<times> ('v, 'w) sourceio)" where
  "setChild S E L i v x st =
     (case x of
        Stub vs \<Rightarrow> (if 0 \<le> i \<and> nat i < length vs then Inr (Stub (vs[nat i := v]), st) else Inl (No_stub_property i))
      | Connected r \<Rightarrow> Inr (Connected (setProperty i v r), st)
      | InProcess ip \<Rightarrow> bindE (local_setProperty S E L i v ip st) (\<lambda>st'. Inr (x, st')))"

definition replica_state :: "'v implementation \<Rightarrow> rstate" where
  "replica_state x =
     (case x of Stub vs \<Rightarrow> Uninitialized | Connected r \<Rightarrow> m_state r | InProcess ip \<Rightarrow> m_state (ip_base ip))"

definition replica_isInitialized :: "'v implementation \<Rightarrow> bool" where
  "replica_isInitialized x =
     (case x of Stub vs \<Rightarrow> False | Connected r \<Rightarrow> isInitialized r | InProcess ip \<Rightarrow> True)"

definition isReplicaValid :: "'v implementation \<Rightarrow> bool" where
  "isReplicaValid x \<longleftrightarrow> replica_state x = Valid"

definition replica_waitForSource :: "('v replica \<Rightarrow> 'v replica) \<Rightarrow> 'v implementation \<Rightarrow> bool \<times> 'v implementation" where
  "replica_waitForSource during x =
     (case x of
        Stub vs \<Rightarrow> (False, x)
      | Connected r \<Rightarrow> (let (ok, r') = waitForSource during r in (ok, Connected r'))
      | InProcess ip \<Rightarrow> (True, x))"

text \<open>
  \<open>send\<close> and \<open>sendWithReply\<close>: a stub warns and does nothing. The state is the connections of the
  node and the sources of its host side.
\<close>

definition replica_send :: "'v qstream \<Rightarrow> 'v client_env \<Rightarrow> ('v, 'w) environment \<Rightarrow> int32 \<Rightarrow> int \<Rightarrow> 'v list
    \<Rightarrow> 'v implementation \<Rightarrow> links \<times> ('v, 'w) sourceio
    \<Rightarrow> local_fault + ('v implementation \<times> links \<times> ('v, 'w) sourceio)" where
  "replica_send S C E call index args x st =
     (case x of
        Stub vs \<Rightarrow> Inr (x, st)
      | Connected r \<Rightarrow> (let (r', l') = q_send S C call index args (r, fst st) in Inr (Connected r', l', snd st))
      | InProcess ip \<Rightarrow> bindE (local_send S E call index args ip (snd st)) (\<lambda>io. Inr (x, fst st, io)))"

datatype 'v pending_ref = No_call | Call_of_replica nat | Completed_call "'v call_data"

definition replica_sendWithReply :: "'v qstream \<Rightarrow> 'v client_env \<Rightarrow> ('v, 'w) environment \<Rightarrow> int32 \<Rightarrow> int \<Rightarrow> 'v list
    \<Rightarrow> 'v implementation \<Rightarrow> links \<times> ('v, 'w) sourceio
    \<Rightarrow> local_fault + ('v pending_ref \<times> 'v implementation \<times> links \<times> ('v, 'w) sourceio)" where
  "replica_sendWithReply S C E call index args x st =
     (case x of
        Stub vs \<Rightarrow> Inr (No_call, x, st)
      | Connected r \<Rightarrow>
          (let (k, r', l') = q_sendWithReply S C call index args (r, fst st)
           in Inr (case k of None \<Rightarrow> No_call | Some k \<Rightarrow> Call_of_replica k, Connected r', l', snd st))
      | InProcess ip \<Rightarrow>
          bindE (local_sendWithReply S E index args ip (snd st)) (\<lambda>(c, io).
            Inr (case c of None \<Rightarrow> No_call | Some c \<Rightarrow> Completed_call c, x, fst st, io)))"

subsection \<open>Calls of a dynamic replica\<close>

text \<open>
  \<open>qt_metacall\<close> of \<open>QRemoteObjectDynamicReplica\<close>. The base class takes the numbers of its own members
  (below the offsets) and counts the others from there. The implementation is taken for a connected
  one, whatever it is: reading the values of one in process goes to members it does not have, and a
  stub has none of them. \<open>transfer\<close> makes a \<open>QVariant\<close> of the transfer type of an enum.
\<close>

datatype meta_call = ReadProp | WriteProp | Invoke

datatype 'v metacall_out =
    Base_member
  | Not_known_yet int
  | Value_read 'v
  | Value_written
  | Activated int "'v list"
  | Called "'v pending_ref"

definition base_of :: "'v implementation \<Rightarrow> 'v replica option" where
  "base_of x = (case x of Stub vs \<Rightarrow> None | Connected r \<Rightarrow> Some r | InProcess ip \<Rightarrow> Some (ip_base ip))"

definition stored_value :: "'v implementation \<Rightarrow> int \<Rightarrow> local_fault + 'v" where
  "stored_value x i =
     (case x of
        Connected r \<Rightarrow> (case getProperty i r of None \<Rightarrow> Inl (No_stub_property i) | Some v \<Rightarrow> Inr v)
      | _ \<Rightarrow> Inl No_connected_members)"

definition method_at_number :: "'v replica \<Rightarrow> int \<Rightarrow> metamethod" where
  "method_at_number r n = mo_methods (meta_of r) ! nat n"

definition call_arguments :: "(metatype \<Rightarrow> 'v \<Rightarrow> 'v) \<Rightarrow> metamethod \<Rightarrow> 'v list \<Rightarrow> 'v list" where
  "call_arguments transfer mm argv =
     map2 (\<lambda>t v. if mt_isEnum t then transfer t v else v) (mm_params mm) argv"

definition dynamic_invoke :: "'v qstream \<Rightarrow> 'v client_env \<Rightarrow> ('v, 'w) environment \<Rightarrow> (metatype \<Rightarrow> 'v \<Rightarrow> 'v) \<Rightarrow> metamethod
    \<Rightarrow> int \<Rightarrow> 'v list \<Rightarrow> 'v implementation \<Rightarrow> links \<times> ('v, 'w) sourceio
    \<Rightarrow> local_fault + ('v metacall_out \<times> 'v implementation \<times> links \<times> ('v, 'w) sourceio)" where
  "dynamic_invoke S C E transfer mm saved_id argv x st =
     (let args = call_arguments transfer mm argv in
      if mm_typeName mm = ''void''
      then bindE (replica_send S C E InvokeMetaMethod saved_id args x st) (\<lambda>y. Inr (Called No_call, y))
      else bindE (replica_sendWithReply S C E InvokeMetaMethod saved_id args x st) (\<lambda>(c, y). Inr (Called c, y)))"

definition dynamic_metacall :: "'v qstream \<Rightarrow> 'v client_env \<Rightarrow> ('v, 'w) environment \<Rightarrow> ('v, 'w) local_model
    \<Rightarrow> (metatype \<Rightarrow> 'v \<Rightarrow> 'v) \<Rightarrow> int \<Rightarrow> int \<Rightarrow> meta_call \<Rightarrow> int \<Rightarrow> 'v list \<Rightarrow> 'v implementation \<Rightarrow> links \<times> ('v, 'w) sourceio
    \<Rightarrow> local_fault + ('v metacall_out \<times> 'v implementation \<times> links \<times> ('v, 'w) sourceio)" where
  "dynamic_metacall S C E L transfer baseMethods baseProperties call saved_id argv x st =
     (let id = saved_id - (if call = Invoke then baseMethods else baseProperties) in
      if id < 0 then Inr (Base_member, x, st)
      else
        case base_of x of
          None \<Rightarrow> Inl No_connected_members
        | Some r \<Rightarrow>
            if m_metaObject r = [] then Inr (Not_known_yet id, x, st)
            else
              (case call of
                 WriteProp \<Rightarrow>
                   bindE (replica_send S C E WriteProperty saved_id argv x st) (\<lambda>y. Inr (Value_written, y))
               | ReadProp \<Rightarrow>
                   (if map_option (mt_isVariant \<circ> mp_type) (prop_of (meta_of r) saved_id) = Some True
                    then bindE (stored_value x id) (\<lambda>v. Inr (Value_read v, x, st))
                    else bindE (propAsVariant L id x (snd st)) (\<lambda>v. Inr (Value_read v, x, st)))
               | Invoke \<Rightarrow>
                   (if id < m_numSignals r then Inr (Activated id argv, x, st)
                    else dynamic_invoke S C E transfer (method_at_number r saved_id) saved_id argv x st)))"

text \<open>The number it returns: negative when the call has been dealt with.\<close>

definition metacall_id :: "'v metacall_out \<Rightarrow> int" where
  "metacall_id y = (case y of Not_known_yet n \<Rightarrow> n | _ \<Rightarrow> -1)"

end
