(* ===== verification/HostNode.thy ===== *)
theory HostNode
  imports InProcess
begin

text \<open>
  Host nodes (\<open>QRemoteObjectHostBase\<close>, \<open>QRemoteObjectHost\<close> and \<open>QRemoteObjectRegistryHost\<close> in
  \<open>qremoteobjectnode.cpp\<close>): a node with a server side. The factories of back ends are those of
  \<open>qconnectionfactories.cpp\<close>; a server is known by its address, and whether it can listen is a
  parameter. The signals of the server side reach the node's own \<open>remoteObjectAdded\<close> and
  \<open>remoteObjectRemoved\<close>, and from there the registry.
\<close>

subsection \<open>Back ends\<close>

datatype backend = QnxBackend | AbstractLocalBackend | LocalBackend | TcpBackend | OtherBackend nat

type_synonym factory = "(string \<times> backend) list"

definition registerType :: "string \<Rightarrow> backend \<Rightarrow> factory \<Rightarrow> factory" where
  "registerType ident b f = AList.update ident b f"

definition factory_isValid :: "(string \<Rightarrow> string) \<Rightarrow> factory \<Rightarrow> string \<Rightarrow> bool" where
  "factory_isValid scheme f url \<longleftrightarrow> map_of f (scheme url) \<noteq> None"

definition factory_create :: "(string \<Rightarrow> string) \<Rightarrow> factory \<Rightarrow> string \<Rightarrow> backend option" where
  "factory_create scheme f url = map_of f (scheme url)"

text \<open>What the constructors register on each system.\<close>

definition new_factory :: "bool \<Rightarrow> bool \<Rightarrow> factory" where
  "new_factory qnx linux =
     (let f0 = (if qnx then registerType ''qnx'' QnxBackend [] else []);
          f1 = (if linux then registerType ''localabstract'' AbstractLocalBackend f0 else f0)
      in registerType ''tcp'' TcpBackend (registerType ''local'' LocalBackend f1))"

subsection \<open>The state of a host node\<close>

datatype allowed_schemas = BuiltInSchemasOnly | AllowExternalRegistration

text \<open>
  \<open>io_forwarded\<close>: the signals of the server side are connected to the node's. \<open>announced\<close> are those the
  node has emitted. \<open>hostedSources\<close> belongs to the registry replica, which is connected to them when
  \<open>registry_linked\<close>; on a registry host it is \<open>registrySource\<close>. \<open>short_circuit\<close> gives the source of
  each implementation that is in process, \<open>relays\<close> its signals that go straight to an instance.
\<close>

record ('v, 'w) host_node =
  hn_node :: "'v node"
  remoteObjectIo :: "('v, 'w) sourceio option"
  io_backend :: "backend option"
  io_name :: string
  io_forwarded :: bool
  hn_objectName :: string
  announced :: "src_signal list"
  hostedSources :: locations
  registry_linked :: bool
  registrySource :: "registry_source option"
  short_circuit :: "repid \<Rightarrow> srcid option"
  relays :: "(nat \<times> nat \<times> string list) list"

text \<open>
  What the code asks of the user's objects and of Qt: \<open>listens\<close> the address a back end has after
  listening on one, \<open>objectName\<close>, the class of an object, and the source tree the constructors find
  for an object that is shared under a name and type.
\<close>

record ('v, 'w) host_env =
  serverFactory :: factory
  url_scheme :: "string \<Rightarrow> string"
  listens :: "backend \<Rightarrow> string \<Rightarrow> string option"
  objectName :: "nat \<Rightarrow> string"
  meta_chain :: "nat \<Rightarrow> metaobject list"
  tree_of :: "nat \<Rightarrow> metaobject list \<Rightarrow> string \<Rightarrow> string \<Rightarrow> src_tree"
  model_tree :: "nat \<Rightarrow> string \<Rightarrow> src_tree"
  registry_object :: nat
  start_world :: 'w

definition host_error :: "node_error \<Rightarrow> ('v, 'w) host_node \<Rightarrow> ('v, 'w) host_node" where
  "host_error e hn = hn\<lparr>hn_node := setLastError e (hn_node hn)\<rparr>"

subsection \<open>The server side\<close>

text \<open>\<open>QRemoteObjectSourceIo\<close>: with an address and its back end, if there is one, or without.\<close>

definition new_sourceio :: "'v qstream \<Rightarrow> string option \<Rightarrow> 'w \<Rightarrow> ('v, 'w) sourceio" where
  "new_sourceio S address w =
     \<lparr>m_sourceObjects = [], m_sourceRoots = [], m_objectToSourceMap = [], m_registryMapping = [],
      m_connections = [], m_codec = dsp_new S (packet_id InvokePacket), m_rxName = [], m_rxArgs = [], sources = (\<lambda>_. None),
      privates = (\<lambda>_. \<lparr>listeners = [], p_isDynamic = False, sentTypes = []\<rparr>), nextSource = 0,
      devices = (\<lambda>_. \<lparr>written = [], devOpen = True, isClosing = False\<rparr>), serverAddress = address,
      signals = [], watchers = [], fault = None, world = w\<rparr>"

definition setHostUrlBaseImpl :: "'v qstream \<Rightarrow> ('v, 'w) host_env \<Rightarrow> string \<Rightarrow> allowed_schemas
    \<Rightarrow> ('v, 'w) host_node \<Rightarrow> bool \<times> ('v, 'w) host_node" where
  "setHostUrlBaseImpl S H hostAddress allowed hn =
     (let builtIn = factory_isValid (url_scheme H) (serverFactory H) hostAddress in
      if remoteObjectIo hn \<noteq> None then (False, host_error ServerAlreadyCreated hn)
      else if allowed = BuiltInSchemasOnly \<and> \<not> builtIn then (False, host_error HostUrlInvalid hn)
      else if allowed = AllowExternalRegistration \<and> builtIn then (False, host_error HostUrlInvalid hn)
      else
        let server = (if builtIn then factory_create (url_scheme H) (serverFactory H) hostAddress else None);
            address = (case server of None \<Rightarrow> Some hostAddress | Some b \<Rightarrow> listens H b hostAddress)
        in if allowed = BuiltInSchemasOnly \<and> address = None then (False, host_error ListenFailed hn)
           else (True, hn\<lparr>remoteObjectIo := Some (new_sourceio S address (start_world H)), io_backend := server,
                          io_name := (if hn_objectName hn \<noteq> [] then hn_objectName hn else []),
                          io_forwarded := True\<rparr>))"

definition host_setName :: "string \<Rightarrow> ('v, 'w) host_node \<Rightarrow> ('v, 'w) host_node" where
  "host_setName name hn =
     (let hn1 = hn\<lparr>hn_objectName := name\<rparr>
      in if remoteObjectIo hn1 \<noteq> None then hn1\<lparr>io_name := name\<rparr> else hn1)"

definition node_hostUrl :: "('v, 'w) host_node \<Rightarrow> string option" where
  "node_hostUrl hn = (case remoteObjectIo hn of None \<Rightarrow> None | Some io \<Rightarrow> serverAddress io)"

text \<open>A device of the application's on the server side. A server side made here is not connected.\<close>

definition addHostSideConnection :: "'v qstream \<Rightarrow> ('v, 'w) host_env \<Rightarrow> Source.conn \<Rightarrow> iodevice option
    \<Rightarrow> ('v, 'w) host_node \<Rightarrow> ('v, 'w) host_node" where
  "addHostSideConnection S H c dev hn =
     (case dev of
        None \<Rightarrow> hn
      | Some d \<Rightarrow>
          if \<not> devOpen d then hn
          else
            let io = (case remoteObjectIo hn of None \<Rightarrow> new_sourceio S None (start_world H) | Some io \<Rightarrow> io)
            in hn\<lparr>remoteObjectIo := Some (newConnection S c
                  (io\<lparr>devices := (devices io)(c := d\<lparr>isClosing := False\<rparr>)\<rparr>))\<rparr>)"

subsection \<open>Sharing objects\<close>

text \<open>
  \<open>registry_hears\<close> is what the registry does with a signal of the node: the source of a registry host,
  or the replica of the others.
\<close>

definition entry_of :: "string \<Rightarrow> string \<Rightarrow> ('v, 'w) sourceio \<Rightarrow> string \<times> location" where
  "entry_of name typeName io =
     (name, \<lparr>loc_typeName = typeName,
             loc_hostUrl = (case serverAddress io of None \<Rightarrow> [] | Some u \<Rightarrow> u)\<rparr>)"

definition on_registry_replica :: "(locations \<times> 'v replica \<times> links \<Rightarrow> locations \<times> 'v replica \<times> links)
    \<Rightarrow> ('v, 'w) host_node \<Rightarrow> ('v, 'w) host_node" where
  "on_registry_replica f hn =
     (case registry (hn_node hn) of
        None \<Rightarrow> hn
      | Some k \<Rightarrow>
          (case impls (hn_node hn) k of
             None \<Rightarrow> hn
           | Some r \<Rightarrow>
               (let (hosted, r', l') = f (hostedSources hn, r, n_links (hn_node hn))
                in hn\<lparr>hostedSources := hosted,
                      hn_node := (hn_node hn)\<lparr>impls := (impls (hn_node hn))(k \<mapsto> r'), n_links := l'\<rparr>\<rparr>)))"

definition registry_hears :: "'v qstream \<Rightarrow> 'v node_env \<Rightarrow> ('v, 'w) sourceio \<Rightarrow> src_signal
    \<Rightarrow> ('v, 'w) host_node \<Rightarrow> ('v, 'w) host_node" where
  "registry_hears S E io sg hn =
     (case registrySource hn of
        Some rs \<Rightarrow>
          hn\<lparr>registrySource := Some (case sg of
               RemoteObjectAdded n t \<Rightarrow> addSource (entry_of n t io) rs
             | RemoteObjectRemoved n t \<Rightarrow> removeSource (entry_of n t io) rs
             | ServerRemoved u \<Rightarrow> removeServer u rs)\<rparr>
      | None \<Rightarrow>
          if \<not> registry_linked hn then hn
          else
            (case sg of
               RemoteObjectAdded n t \<Rightarrow>
                 on_registry_replica (reg_addSource S (ne_client E) (ne_reg E) (entry_of n t io)) hn
             | RemoteObjectRemoved n t \<Rightarrow>
                 on_registry_replica (reg_removeSource S (ne_client E) (ne_reg E) (entry_of n t io)) hn
             | ServerRemoved u \<Rightarrow> hn))"

definition forward_signal :: "'v qstream \<Rightarrow> 'v node_env \<Rightarrow> ('v, 'w) sourceio \<Rightarrow> src_signal
    \<Rightarrow> ('v, 'w) host_node \<Rightarrow> ('v, 'w) host_node" where
  "forward_signal S E io sg hn =
     (case sg of
        ServerRemoved u \<Rightarrow> registry_hears S E io sg hn
      | _ \<Rightarrow> if io_forwarded hn then registry_hears S E io sg (hn\<lparr>announced := announced hn @ [sg]\<rparr>) else hn)"

text \<open>An operation of the server side; the signals it emits are those it appends to \<open>signals\<close>.\<close>

definition with_io :: "'v qstream \<Rightarrow> 'v node_env \<Rightarrow> ('v, 'w) sourceio \<Rightarrow> ('v, 'w) sourceio
    \<Rightarrow> ('v, 'w) host_node \<Rightarrow> ('v, 'w) host_node" where
  "with_io S E io io' hn =
     fold (forward_signal S E io') (drop (length (signals io)) (signals io')) (hn\<lparr>remoteObjectIo := Some io'\<rparr>)"

definition shared_name :: "('v, 'w) host_env \<Rightarrow> nat \<Rightarrow> string \<Rightarrow> string \<Rightarrow> string" where
  "shared_name H ob name typeName =
     (if name \<noteq> [] then name else if typeName = [] then objectName H ob else typeName)"

definition host_enableRemoting :: "'v qstream \<Rightarrow> 'v node_env \<Rightarrow> ('v, 'w) host_env \<Rightarrow> nat \<Rightarrow> string
    \<Rightarrow> ('v, 'w) host_node \<Rightarrow> bool \<times> ('v, 'w) host_node" where
  "host_enableRemoting S E H ob name hn =
     (case remoteObjectIo hn of
        None \<Rightarrow> (False, host_error OperationNotValidOnClientNode hn)
      | Some io \<Rightarrow>
          let (ty, meta) = getTypeNameAndMetaobjectFromClassInfo (meta_chain H ob);
              typeName = (case ty of None \<Rightarrow> [] | Some t \<Rightarrow> t);
              nm = shared_name H ob name typeName
          in if typeName = [] \<and> nm = [] then (False, host_error MissingObjectName hn)
             else let (ok, io') = enableRemoting S (tree_of H ob meta nm typeName) io
                  in (ok, with_io S E io io' hn))"

text \<open>A model is shared with an adapter; without a server side the code goes through a null pointer.\<close>

definition host_enableModel :: "'v qstream \<Rightarrow> 'v node_env \<Rightarrow> ('v, 'w) host_env \<Rightarrow> nat \<Rightarrow> string
    \<Rightarrow> ('v, 'w) host_node \<Rightarrow> (bool \<times> ('v, 'w) host_node) option" where
  "host_enableModel S E H model name hn =
     (case remoteObjectIo hn of
        None \<Rightarrow> None
      | Some io \<Rightarrow> (let (ok, io') = enableRemoting_api S (model_tree H model name) io in Some (ok, with_io S E io io' hn)))"

definition host_disableRemoting :: "'v qstream \<Rightarrow> 'v node_env \<Rightarrow> nat \<Rightarrow> ('v, 'w) host_node \<Rightarrow> bool \<times> ('v, 'w) host_node" where
  "host_disableRemoting S E ob hn =
     (case remoteObjectIo hn of
        None \<Rightarrow> (False, host_error OperationNotValidOnClientNode hn)
      | Some io \<Rightarrow>
          let (ok, io') = disableRemoting S (Some ob) io
          in if \<not> ok then (False, host_error SourceNotRegistered (hn\<lparr>remoteObjectIo := Some io'\<rparr>))
             else (True, with_io S E io io' hn))"

subsection \<open>Acquiring\<close>

definition host_addresses :: "'v node_env \<Rightarrow> ('v, 'w) host_node \<Rightarrow> locations" where
  "host_addresses E hn =
     (case registrySource hn of Some rs \<Rightarrow> m_sourceLocations rs | None \<Rightarrow> remoteObjectAddresses E (hn_node hn))"

definition host_openConnectionIfNeeded :: "'v node_env \<Rightarrow> string \<Rightarrow> ('v, 'w) host_node \<Rightarrow> ('v, 'w) host_node" where
  "host_openConnectionIfNeeded E name hn =
     (case map_of (host_addresses E hn) name of
        None \<Rightarrow> hn
      | Some x \<Rightarrow> hn\<lparr>hn_node := snd (initConnection E (loc_hostUrl x) (hn_node hn))\<rparr>)"

text \<open>
  A source of the node's own is given a replica in process. \<open>m_sourceObjects\<close> may lead to a deleted
  source, and a source may have no object.
\<close>

definition acquire_local :: "'v node_env \<Rightarrow> ('v, 'w) local_model \<Rightarrow> metaobject list \<Rightarrow> nat \<Rightarrow> string \<Rightarrow> srcid
    \<Rightarrow> ('v, 'w) sourceio \<Rightarrow> ('v, 'w) host_node \<Rightarrow> local_fault + (repid \<times> ('v, 'w) host_node)" where
  "acquire_local E L meta inst name i io hn =
     bindE (local_configure inst (new_local name meta (signal_base E) (property_base E))) (\<lambda>ip.
       case sources io i of
         None \<Rightarrow> Inl No_local_source
       | Some s \<Rightarrow>
           (case src_object s of
              None \<Rightarrow> Inl (No_local_object i)
            | Some ob \<Rightarrow>
                let nd = hn_node hn; k = nextImpl nd in
                Inr (k, hn\<lparr>hn_node := nd\<lparr>impls := (impls nd)(k \<mapsto> ip_base ip), nextImpl := Suc k\<rparr>,
                           short_circuit := (short_circuit hn)(k \<mapsto> i),
                           relays := relays hn @ [(ob, inst, connectReplica L ob (hd meta))]\<rparr>)))"

definition host_handleNewAcquire :: "'v qstream \<Rightarrow> 'v node_env \<Rightarrow> ('v, 'w) local_model \<Rightarrow> metaobject list \<Rightarrow> nat \<Rightarrow> string
    \<Rightarrow> ('v, 'w) host_node \<Rightarrow> local_fault + (repid \<times> ('v, 'w) host_node)" where
  "host_handleNewAcquire S E L meta inst name hn =
     (case remoteObjectIo hn of
        None \<Rightarrow> (let (k, nd) = handleNewAcquire S E meta inst name (hn_node hn) in Inr (k, hn\<lparr>hn_node := nd\<rparr>))
      | Some io \<Rightarrow>
          (case map_of (m_sourceObjects io) name of
             Some i \<Rightarrow> acquire_local E L meta inst name i io hn
           | None \<Rightarrow> (let (k, nd) = handleNewAcquire S E meta inst name (hn_node hn) in Inr (k, hn\<lparr>hn_node := nd\<rparr>))))"

text \<open>The implementation of number \<open>k\<close>, and a further instance of it.\<close>

definition host_impl :: "('v, 'w) host_node \<Rightarrow> repid \<Rightarrow> 'v implementation option" where
  "host_impl hn k =
     (case impls (hn_node hn) k of
        None \<Rightarrow> None
      | Some r \<Rightarrow> Some (case short_circuit hn k of
                          None \<Rightarrow> Connected r | Some i \<Rightarrow> InProcess \<lparr>ip_base = r, ip_source = Some i\<rparr>))"

definition join_instance :: "nat \<Rightarrow> repid \<Rightarrow> ('v, 'w) host_node \<Rightarrow> local_fault + ('v, 'w) host_node" where
  "join_instance inst k hn =
     (case host_impl hn k of
        Some (InProcess ip) \<Rightarrow>
          bindE (local_configure inst ip) (\<lambda>ip'. Inr (hn\<lparr>hn_node := with_rep k (\<lambda>_. ip_base ip') (hn_node hn)\<rparr>))
      | _ \<Rightarrow> Inr (hn\<lparr>hn_node := with_rep k (configurePrivate inst) (hn_node hn)\<rparr>))"

definition host_setReplicaImplementation :: "'v qstream \<Rightarrow> 'v node_env \<Rightarrow> ('v, 'w) local_model \<Rightarrow> metaobject list \<Rightarrow> nat
    \<Rightarrow> string \<Rightarrow> ('v replica \<Rightarrow> 'v replica) \<Rightarrow> ('v, 'w) host_node \<Rightarrow> local_fault + ('v, 'w) host_node" where
  "host_setReplicaImplementation S E L meta inst name ini hn =
     (let hn1 = host_openConnectionIfNeeded E name hn;
          (has, nd1) = hasInstance name (hn_node hn1);
          hn2 = hn1\<lparr>hn_node := nd1\<rparr>
      in if has
         then (let k = the (map_of (replicas nd1) name)
               in join_instance inst k (hn2\<lparr>hn_node := nd1\<lparr>d_impls := (d_impls nd1)(inst \<mapsto> k)\<rparr>\<rparr>))
         else bindE (host_handleNewAcquire S E L meta inst name hn2) (\<lambda>(k, hn3).
                let nd3 = (hn_node hn3)\<lparr>d_impls := (d_impls (hn_node hn3))(inst \<mapsto> k)\<rparr>;
                    nd4 = (if short_circuit hn3 k = None then with_rep k ini nd3 else nd3)
                in Inr (hn3\<lparr>hn_node := nd4\<lparr>replicas := AList.update name k (replicas nd4)\<rparr>\<rparr>)))"

definition host_acquire :: "'v qstream \<Rightarrow> 'v node_env \<Rightarrow> ('v, 'w) local_model \<Rightarrow> metaobject list \<Rightarrow> string
    \<Rightarrow> ('v replica \<Rightarrow> 'v replica) \<Rightarrow> ('v, 'w) host_node \<Rightarrow> local_fault + (nat \<times> ('v, 'w) host_node)" where
  "host_acquire S E L meta name ini hn =
     (let (inst, nd) = new_instance (hn_node hn);
          nd1 = (if meta = [] then nd else nd\<lparr>dynamicTypeManager := addFromMetaObject meta (dynamicTypeManager nd)\<rparr>);
          nm = (if meta \<noteq> [] \<and> name = [] then class_typeName meta else name)
      in bindE (host_setReplicaImplementation S E L meta inst nm ini (hn\<lparr>hn_node := nd1\<rparr>)) (\<lambda>hn'. Inr (inst, hn')))"

subsection \<open>Registries\<close>

definition host_setRegistryUrl :: "'v qstream \<Rightarrow> 'v node_env \<Rightarrow> ('v, 'w) local_model \<Rightarrow> string
    \<Rightarrow> ('v, 'w) host_node \<Rightarrow> local_fault + (bool \<times> ('v, 'w) host_node)" where
  "host_setRegistryUrl S E L url hn =
     (if registry (hn_node hn) \<noteq> None then Inr (False, host_error RegistryAlreadyHosted hn)
      else
        bindE (host_acquire S E L (registry_class E) [] (registry_initialize (ne_reg E))
                 (hn\<lparr>hn_node := (hn_node hn)\<lparr>registryAddress := url\<rparr>\<rparr>)) (\<lambda>(inst, hn1).
          let nd = (hn_node hn1)\<lparr>registry := d_impls (hn_node hn1) inst\<rparr>
          in Inr (True, hn1\<lparr>hn_node := snd (connectToNode E url nd), registry_linked := True\<rparr>)))"

definition registryHost_setRegistryUrl :: "'v qstream \<Rightarrow> 'v node_env \<Rightarrow> ('v, 'w) host_env \<Rightarrow> ('v, 'w) local_model
    \<Rightarrow> string \<Rightarrow> ('v, 'w) host_node \<Rightarrow> local_fault + (bool \<times> ('v, 'w) host_node)" where
  "registryHost_setRegistryUrl S E H L url hn =
     (let (success, hn1) = setHostUrlBaseImpl S H url BuiltInSchemasOnly hn
      in if \<not> success then Inr (False, hn1)
         else
           case remoteObjectIo hn1 of
             None \<Rightarrow> Inr (False, host_error ServerAlreadyCreated hn1)
           | Some io \<Rightarrow>
               if registry (hn_node hn1) \<noteq> None then Inr (False, host_error RegistryAlreadyHosted hn1)
               else
                 let hn2 = snd (host_enableRemoting S E H (registry_object H) [] hn1);
                     address = (case serverAddress io of None \<Rightarrow> [] | Some u \<Rightarrow> u);
                     hn3 = hn2\<lparr>hn_node := (hn_node hn2)\<lparr>registryAddress := address\<rparr>,
                               registrySource := Some \<lparr>m_sourceLocations = [], reg_signals = []\<rparr>\<rparr>
                 in bindE (host_acquire S E L (registry_class E) [] (registry_initialize (ne_reg E)) hn3) (\<lambda>(inst, hn4).
                      Inr (True, hn4\<lparr>hn_node := (hn_node hn4)\<lparr>registry := d_impls (hn_node hn4) inst\<rparr>\<rparr>)))"

subsection \<open>Construction\<close>

definition new_host_node :: "'v node \<Rightarrow> ('v, 'w) host_node" where
  "new_host_node nd =
     \<lparr>hn_node = nd, remoteObjectIo = None, io_backend = None, io_name = [], io_forwarded = False,
      hn_objectName = [], announced = [], hostedSources = [], registry_linked = False, registrySource = None,
      short_circuit = (\<lambda>_. None), relays = []\<rparr>"

definition host_constructor :: "'v qstream \<Rightarrow> 'v node_env \<Rightarrow> ('v, 'w) host_env \<Rightarrow> ('v, 'w) local_model
    \<Rightarrow> string \<Rightarrow> string \<Rightarrow> allowed_schemas \<Rightarrow> 'v node \<Rightarrow> local_fault + ('v, 'w) host_node" where
  "host_constructor S E H L address registryUrl allowed nd =
     (let hn = new_host_node nd;
          (ok, hn1) = (if address \<noteq> [] then setHostUrlBaseImpl S H address allowed hn else (True, hn))
      in if \<not> ok then Inr hn1
         else if registryUrl \<noteq> [] then bindE (host_setRegistryUrl S E L registryUrl hn1) (\<lambda>(_, hn2). Inr hn2)
         else Inr hn1)"

definition registryHost_constructor :: "'v qstream \<Rightarrow> 'v node_env \<Rightarrow> ('v, 'w) host_env \<Rightarrow> ('v, 'w) local_model
    \<Rightarrow> string \<Rightarrow> 'v node \<Rightarrow> local_fault + ('v, 'w) host_node" where
  "registryHost_constructor S E H L url nd =
     (if url = [] then Inr (new_host_node nd)
      else bindE (registryHost_setRegistryUrl S E H L url (new_host_node nd)) (\<lambda>(_, hn). Inr hn))"

end
