(* ===== verification/Proxy.thy ===== *)
theory Proxy
  imports HostNode
begin

text \<open>
  Proxies (\<open>ProxyInfo\<close>, \<open>QRemoteObjectHostBase::proxy\<close> and \<open>reverseProxy\<close> in \<open>qremoteobjectnode.cpp\<close>): a
  host acquires the sources that another registry lists, through a node of its own there, and
  shares their replicas under the same names; in reverse, the sources of its own network are shared
  by that node. Both nodes are a \<open>host_node\<close>; one without a server side is a plain client.
\<close>

datatype proxy_direction = Forward | Reverse

record proxy_entry =
  pr_instance :: nat
  pr_direction :: proxy_direction

text \<open>
  The replica as an object that is shared has the number \<open>object_of\<close>; the node that acquired it makes
  sense of its instance. \<open>hash_order\<close> is the order of \<open>proxiedReplicas\<close>, a hash.
\<close>

record ('v, 'w) proxy_env =
  pe_node :: "'v node_env"
  pe_host :: "('v, 'w) host_env"
  pe_local :: "('v, 'w) local_model"
  pe_client_ok :: "string \<Rightarrow> bool"
  object_of :: "proxy_direction \<Rightarrow> nat \<Rightarrow> nat"
  hash_order :: "(string \<times> proxy_entry) list \<Rightarrow> (string \<times> proxy_entry) list"

text \<open>
  \<open>reverse_handlers\<close>: how often the handlers of the parent's registry are connected. \<open>watched\<close>: the
  replicas whose \<open>initialized\<close> is connected, with the name and whether they stand for a model.
\<close>

record ('v, 'w) proxy =
  proxyNode :: "('v, 'w) host_node"
  proxy_isHost :: bool
  parentNode :: "('v, 'w) host_node"
  parent_isRegistryHost :: bool
  proxyFilter :: "string \<Rightarrow> string \<Rightarrow> bool"
  reverseFilter :: "string \<Rightarrow> string \<Rightarrow> bool"
  reverse_handlers :: nat
  proxiedReplicas :: "(string \<times> proxy_entry) list"
  watched :: "(proxy_entry \<times> string \<times> bool) list"

datatype proxy_fault = Acquire_fault local_fault | No_server_side

definition acquirer :: "proxy_direction \<Rightarrow> ('v, 'w) proxy \<Rightarrow> ('v, 'w) host_node" where
  "acquirer d px = (case d of Forward \<Rightarrow> proxyNode px | Reverse \<Rightarrow> parentNode px)"

definition set_acquirer :: "proxy_direction \<Rightarrow> ('v, 'w) host_node \<Rightarrow> ('v, 'w) proxy \<Rightarrow> ('v, 'w) proxy" where
  "set_acquirer d hn px = (case d of Forward \<Rightarrow> px\<lparr>proxyNode := hn\<rparr> | Reverse \<Rightarrow> px\<lparr>parentNode := hn\<rparr>)"

definition server :: "proxy_direction \<Rightarrow> ('v, 'w) proxy \<Rightarrow> ('v, 'w) host_node" where
  "server d px = (case d of Forward \<Rightarrow> parentNode px | Reverse \<Rightarrow> proxyNode px)"

definition set_server :: "proxy_direction \<Rightarrow> ('v, 'w) host_node \<Rightarrow> ('v, 'w) proxy \<Rightarrow> ('v, 'w) proxy" where
  "set_server d hn px = (case d of Forward \<Rightarrow> px\<lparr>parentNode := hn\<rparr> | Reverse \<Rightarrow> px\<lparr>proxyNode := hn\<rparr>)"

subsection \<open>Starting a proxy\<close>

definition QAIMADAPTER :: string where
  "QAIMADAPTER = ''QAbstractItemModelAdapter''"

text \<open>A model is acquired by its own class, anything else as a dynamic replica (without a class).\<close>

definition start_proxy :: "'v qstream \<Rightarrow> ('v, 'w) proxy_env \<Rightarrow> string \<Rightarrow> bool \<Rightarrow> proxy_direction
    \<Rightarrow> ('v, 'w) proxy \<Rightarrow> proxy_fault + ('v, 'w) proxy" where
  "start_proxy S P name isModel d px =
     (case host_acquire S (pe_node P) (pe_local P) (if isModel then model_class (pe_node P) else []) name (\<lambda>r. r) (acquirer d px) of
        Inl e \<Rightarrow> Inl (Acquire_fault e)
      | Inr (inst, hn) \<Rightarrow>
          let info = \<lparr>pr_instance = inst, pr_direction = d\<rparr>
          in Inr ((set_acquirer d hn px)\<lparr>proxiedReplicas := AList.update name info (proxiedReplicas px),
                                         watched := watched px @ [(info, name, isModel)]\<rparr>))"

definition url_text :: "string option \<Rightarrow> string" where
  "url_text u = (case u of None \<Rightarrow> [] | Some s \<Rightarrow> s)"

definition proxyObject :: "'v qstream \<Rightarrow> ('v, 'w) proxy_env \<Rightarrow> proxy_direction \<Rightarrow> string \<times> location
    \<Rightarrow> ('v, 'w) proxy \<Rightarrow> proxy_fault + ('v, 'w) proxy" where
  "proxyObject S P d entry px =
     (let name = fst entry; typeName = loc_typeName (snd entry); url = loc_hostUrl (snd entry)
      in case d of
           Forward \<Rightarrow>
             (if proxy_isHost px \<and> url = url_text (node_hostUrl (proxyNode px)) then Inr px
              else if \<not> proxyFilter px name typeName then Inr px
              else start_proxy S P name (typeName = QAIMADAPTER) Forward px)
         | Reverse \<Rightarrow>
             (if url = registryAddress (hn_node (parentNode px)) then Inr px
              else if \<not> reverseFilter px name typeName then Inr px
              else start_proxy S P name (typeName = QAIMADAPTER) Reverse px))"

text \<open>
  The assertion that the name has no proxy yet is no check: a second proxy takes the entry of the first.
  A proxied replica says that it is initialized, and is shared on the other side.
\<close>

definition replica_initialized :: "'v qstream \<Rightarrow> ('v, 'w) proxy_env \<Rightarrow> proxy_entry \<times> string \<times> bool
    \<Rightarrow> ('v, 'w) proxy \<Rightarrow> proxy_fault + ('v, 'w) proxy" where
  "replica_initialized S P w px =
     (let (info, name, isModel) = w; d = pr_direction info; ob = object_of P d (pr_instance info)
      in if isModel
         then (case host_enableModel S (pe_node P) (pe_host P) ob name (server d px) of
                 None \<Rightarrow> Inl No_server_side | Some (_, hn) \<Rightarrow> Inr (set_server d hn px))
         else Inr (set_server d (snd (host_enableRemoting S (pe_node P) (pe_host P) ob name (server d px))) px))"

subsection \<open>Ending a proxy\<close>

definition delete_proxied :: "'v qstream \<Rightarrow> proxy_entry \<Rightarrow> ('v, 'w) proxy \<Rightarrow> ('v, 'w) proxy" where
  "delete_proxied S info px =
     (let d = pr_direction info; hn = acquirer d px
      in (set_acquirer d (hn\<lparr>hn_node := delete_instance S (pr_instance info) (hn_node hn)\<rparr>) px)
           \<lparr>watched := filter (\<lambda>w. fst w \<noteq> info) (watched px)\<rparr>)"

definition disableAndDeleteObject :: "'v qstream \<Rightarrow> ('v, 'w) proxy_env \<Rightarrow> proxy_entry \<Rightarrow> ('v, 'w) proxy \<Rightarrow> ('v, 'w) proxy" where
  "disableAndDeleteObject S P info px =
     (let d = pr_direction info; ob = object_of P d (pr_instance info)
      in delete_proxied S info
           (set_server d (snd (host_disableRemoting S (pe_node P) ob (server d px))) px))"

definition unproxyObject :: "'v qstream \<Rightarrow> ('v, 'w) proxy_env \<Rightarrow> string \<times> location \<Rightarrow> ('v, 'w) proxy \<Rightarrow> ('v, 'w) proxy" where
  "unproxyObject S P entry px =
     (case map_of (proxiedReplicas px) (fst entry) of
        None \<Rightarrow> px
      | Some info \<Rightarrow>
          disableAndDeleteObject S P info (px\<lparr>proxiedReplicas := AList.delete (fst entry) (proxiedReplicas px)\<rparr>))"

text \<open>The destructor deletes the replicas, and the proxy's node; the parent remains.\<close>

definition destroy_proxy :: "'v qstream \<Rightarrow> ('v, 'w) proxy_env \<Rightarrow> ('v, 'w) proxy \<Rightarrow> ('v, 'w) host_node" where
  "destroy_proxy S P px = parentNode (fold (delete_proxied S) (map snd (hash_order P (proxiedReplicas px))) px)"

subsection \<open>The signals of the registries\<close>

definition source_added :: "'v qstream \<Rightarrow> ('v, 'w) proxy_env \<Rightarrow> proxy_direction \<Rightarrow> string \<times> location
    \<Rightarrow> ('v, 'w) proxy \<Rightarrow> proxy_fault + ('v, 'w) proxy" where
  "source_added S P d entry px =
     foldE (\<lambda>_. proxyObject S P d entry)
       [0..<(case d of Forward \<Rightarrow> 1 | Reverse \<Rightarrow> reverse_handlers px)] px"

definition registry_initialized :: "'v qstream \<Rightarrow> ('v, 'w) proxy_env \<Rightarrow> proxy_direction
    \<Rightarrow> ('v, 'w) proxy \<Rightarrow> proxy_fault + ('v, 'w) proxy" where
  "registry_initialized S P d px =
     foldE (proxyObject S P d) (host_addresses (pe_node P) (acquirer d px)) px"

definition registry_stateChanged :: "'v qstream \<Rightarrow> ('v, 'w) proxy_env \<Rightarrow> rstate \<Rightarrow> ('v, 'w) proxy \<Rightarrow> ('v, 'w) proxy" where
  "registry_stateChanged S P state px =
     (if state \<noteq> Suspect then px
      else (fold (disableAndDeleteObject S P) (map snd (hash_order P (proxiedReplicas px))) px)\<lparr>proxiedReplicas := []\<rparr>)"

subsection \<open>Construction\<close>

definition new_proxy :: "('v, 'w) host_node \<Rightarrow> bool \<Rightarrow> ('v, 'w) host_node \<Rightarrow> bool \<Rightarrow> (string \<Rightarrow> string \<Rightarrow> bool)
    \<Rightarrow> ('v, 'w) proxy" where
  "new_proxy nd isHost parent isRegistryHost flt =
     \<lparr>proxyNode = nd\<lparr>hn_objectName := ''_ProxyNode''\<rparr>, proxy_isHost = isHost, parentNode = parent,
      parent_isRegistryHost = isRegistryHost, proxyFilter = flt, reverseFilter = (\<lambda>_ _. False),
      reverse_handlers = 0, proxiedReplicas = [], watched = []\<rparr>"

definition setReverseProxy :: "(string \<Rightarrow> string \<Rightarrow> bool) \<Rightarrow> ('v, 'w) proxy \<Rightarrow> bool \<times> ('v, 'w) proxy" where
  "setReverseProxy flt px =
     (if \<not> parent_isRegistryHost px then (False, px)
      else (True, px\<lparr>reverseFilter := flt, reverse_handlers := Suc (reverse_handlers px)\<rparr>))"

text \<open>
  \<open>proxy\<close> of a host that has none yet: \<open>nd0\<close> is a node as the constructor of its base class leaves it.
\<close>

definition host_proxy :: "'v qstream \<Rightarrow> ('v, 'w) proxy_env \<Rightarrow> string \<Rightarrow> string \<Rightarrow> (string \<Rightarrow> string \<Rightarrow> bool)
    \<Rightarrow> ('v, 'w) host_node \<Rightarrow> bool \<Rightarrow> 'v node \<Rightarrow> ('v, 'w) proxy option
    \<Rightarrow> proxy_fault + (bool \<times> ('v, 'w) proxy option)" where
  "host_proxy S P registryUrl url flt parent isRegistryHost nd0 proxyInfo =
     (if \<not> pe_client_ok P registryUrl then Inr (False, proxyInfo)
      else if url \<noteq> [] \<and> \<not> pe_client_ok P url then Inr (False, proxyInfo)
      else if proxyInfo \<noteq> None then Inr (False, proxyInfo)
      else
        case (if url = []
              then Inr ((new_host_node nd0)\<lparr>hn_node := snd (setRegistryUrl S (pe_node P) registryUrl nd0)\<rparr>)
              else host_constructor S (pe_node P) (pe_host P) (pe_local P) url registryUrl BuiltInSchemasOnly nd0) of
          Inl e \<Rightarrow> Inl (Acquire_fault e)
        | Inr nd \<Rightarrow> Inr (True, Some (new_proxy nd (url \<noteq> []) parent isRegistryHost flt)))"

definition reverseProxy :: "(string \<Rightarrow> string \<Rightarrow> bool) \<Rightarrow> ('v, 'w) proxy option \<Rightarrow> bool \<times> ('v, 'w) proxy option" where
  "reverseProxy flt proxyInfo =
     (case proxyInfo of
        None \<Rightarrow> (False, proxyInfo)
      | Some px \<Rightarrow>
          if \<not> proxy_isHost px then (False, proxyInfo)
          else let (ok, px') = setReverseProxy flt px in (ok, Some px'))"

end
