(* ===== verification/LocalProps.thy ===== *)
theory LocalProps
  imports InProcess HostClient
begin

text \<open>
  Access to a source through a replica of the same process is the access of a connected replica, over
  the wire and the host.
\<close>

text \<open>The state of a host, with what it read last.\<close>

definition rx :: "string \<Rightarrow> 'v list \<Rightarrow> ('v, 'w) sourceio \<Rightarrow> ('v, 'w) sourceio" where
  "rx n a st = st\<lparr>m_rxName := n, m_rxArgs := a\<rparr>"

lemma rx_fields [simp]:
  "sources (rx n a st) = sources st" "privates (rx n a st) = privates st" "world (rx n a st) = world st"
  "m_codec (rx n a st) = m_codec st" "devices (rx n a st) = devices st" "fault (rx n a st) = fault st"
  "m_sourceObjects (rx n a st) = m_sourceObjects st"
  by (simp_all add: rx_def)

lemma rx_updates [simp]:
  "(rx n a st)\<lparr>world := w\<rparr> = rx n a (st\<lparr>world := w\<rparr>)"
  "(rx n a st)\<lparr>fault := f\<rparr> = rx n a (st\<lparr>fault := f\<rparr>)"
  "(rx n a st)\<lparr>m_codec := d\<rparr> = rx n a (st\<lparr>m_codec := d\<rparr>)"
  "(rx n a st)\<lparr>devices := ds\<rparr> = rx n a (st\<lparr>devices := ds\<rparr>)"
  "(rx n a st)\<lparr>sources := ss\<rparr> = rx n a (st\<lparr>sources := ss\<rparr>)"
  "(rx n a st)\<lparr>privates := ps\<rparr> = rx n a (st\<lparr>privates := ps\<rparr>)"
  by (simp_all add: rx_def)

lemma rx_send_list: "send_list cs (rx n a st) = rx n a (send_list cs st)"
  by (simp add: send_list_def split_beta)

lemma rx_handleMetaCall: "handleMetaCall S E i sig args (rx n a st) = rx n a (handleMetaCall S E i sig args st)"
  by (simp add: handleMetaCall_def Let_def split_beta rx_send_list split: option.split)

lemma rx_run_emissions: "run_emissions S E es (rx n a st) = rx n a (run_emissions S E es st)"
proof (induction es arbitrary: st)
  case (Cons e es)
  obtain i sig args w where "e = (i, sig, args, w)" by (cases e)
  then show ?case using Cons by (simp add: run_emissions_def rx_handleMetaCall)
qed (simp add: run_emissions_def)

lemma rx_invoke_method:
  "invoke_method S E i k args (rx n a st) = map_prod id (rx n a) (invoke_method S E i k args st)"
  by (simp add: invoke_method_def split_beta Let_def rx_run_emissions split: option.split)

lemma rx_invoke_write: "invoke_write S E i k args (rx n a st) = rx n a (invoke_write S E i k args st)"
  by (simp add: invoke_write_def split_beta Let_def rx_run_emissions split: option.split)


text \<open>
  What a host does for a call or a write, and what a replica in process does. \<open>n\<close> is the number in
  the source's table; the arguments of a method are decoded, the value of a property is not.
\<close>

lemma handle_invoke_runs:
  assumes "name \<noteq> ''Registry''" and "map_of (m_sourceObjects st) name = Some i" and "sources st i = Some s"
    and "fault st = None" and "inv_serial iv = -1" and "sint (inv_index iv) = n"
    and "inv_call iv = InvokeMetaMethod \<longrightarrow> 0 \<le> sourceMethodIndex (src_api s) n \<longrightarrow>
      prepare_args E (src_api s) n (inv_args iv) = Inr args"
  shows "\<exists>a. handle_invoke S E c iv (st\<lparr>m_rxName := name\<rparr>) = rx name a
    (if inv_call iv = InvokeMetaMethod
     then (if sourceMethodIndex (src_api s) n < 0 then st else snd (invoke_method S E i n args st))
     else (if sourcePropertyIndex (src_api s) n < 0 then st else invoke_write S E i n (inv_args iv) st))"
proof -
  have st: "st\<lparr>m_rxName := name, m_rxArgs := a\<rparr> = rx name a st" for a by (simp add: rx_def)
  have note1: "note_registry E c (rx name a st) = rx name a st" for a
    using assms(1) by (simp add: note_registry_def rx_def)
  have fin: "finish_call S E c (-1) y = snd y" for y :: "'a option \<times> ('a, 'b) sourceio"
    by (simp add: finish_call_def split: option.split)
  have upd: "(rx name b st)\<lparr>m_rxArgs := a\<rparr> = rx name a st" "m_rxArgs (rx name a st) = a" "m_rxName (rx name a st) = name"
    for a b by (simp_all add: rx_def)
  have "handle_method S E c iv i s (rx name (inv_args iv) st) =
      (if sourceMethodIndex (src_api s) n < 0 then rx name (inv_args iv) st
       else rx name args (snd (invoke_method S E i n args st)))" if "inv_call iv = InvokeMetaMethod"
    using assms(5-7) that by (auto simp: handle_method_def Let_def fin upd rx_invoke_method)
  moreover have "handle_write S E iv i s (rx name (inv_args iv) st) =
      (if sourcePropertyIndex (src_api s) n < 0 then rx name (inv_args iv) st
       else rx name (inv_args iv) (invoke_write S E i n (inv_args iv) st))"
    using assms(6) by (simp add: handle_write_def upd rx_invoke_write)
  ultimately show ?thesis
    using assms(2-4) by (auto simp: handle_invoke_def Let_def st note1 upd)
qed


text \<open>A connected replica writes one packet; \<open>clean_link\<close> says that its codec holds nothing else.\<close>

definition clean_link :: "Replica.conn \<Rightarrow> links \<Rightarrow> bool" where
  "clean_link c l \<longleftrightarrow> io_isOpen (l c) \<and>
     (case io_codec (l c) of None \<Rightarrow> False | Some d \<Rightarrow> dsp_idle d \<and> finished d = [])"

lemma q_send_writes:
  assumes "qdata_stream S" and "connectionToSource r = Some c" and "clean_link c l"
    and "(if call = InvokeMetaMethod then m_methodOffset r else m_propertyOffset r) = off" and "off \<le> index"
    and "q_send S C call index args (r, l) = (r', l')"
  shows "written (io_dev (l' c)) = written (io_dev (l c)) @
      msg_frame S (invoke_msg (cenc C) (m_objectName r) call (word_of_int (index - off)) args (-1) (-1))"
proof -
  obtain d where d: "io_codec (l c) = Some d" "dsp_idle d" "finished d = []" and op: "io_isOpen (l c)"
    using assms(3) by (auto simp: clean_link_def split: option.splits)
  let ?d = "serializeInvokePacket S (cenc C) (m_objectName r) call (word_of_int (index - off)) args (-1) (-1) d"
  let ?l = "l(c := (l c)\<lparr>io_codec := Some ?d\<rparr>)"
  have "fst (payload ?d) = msg_frame S (invoke_msg (cenc C) (m_objectName r) call (word_of_int (index - off)) args (-1) (-1))"
    using qdata_stream.serializeInvokePacket_frame[OF assms(1) d(2)] d(3) by (simp add: payload_idle)
  moreover have "codec_write (serializeInvokePacket S (cenc C) (m_objectName r) call (word_of_int (index - off)) args (-1) (-1))
      c (r, l) = (r, ?l)"
    using d(1) by (simp add: codec_write_def)
  moreover have "(call = 0) = (call = InvokeMetaMethod)" by (simp add: InvokeMetaMethod_def)
  ultimately have "q_send S C call index args (r, l) = snd (sendCommand (r, ?l))"
    using assms(2,4,5) by (auto simp: q_send_def Let_def)
  then show ?thesis
    using assms(6) op assms(2) \<open>fst (payload ?d) = _\<close>
    by (auto simp: sendCommand_def io_isOpen_def send_one_def dev_write_def split_beta)
qed


text \<open>A replica of the thermometer, and the bytes of its call read in two pieces.\<close>

definition raiser :: "u32 replica" where
  "raiser = demo_replica\<lparr>connectionToSource := Some 0\<rparr>"

definition no_rx :: "nat \<Rightarrow> rxdevice" where
  "no_rx = (\<lambda>_. \<lparr>rxBuf = [], curReadSize = 0\<rparr>)"


end
