(* ===== verification/HostNodeProps.thy ===== *)
theory HostNodeProps
  imports HostNode LocalProps RegistryProps
begin

text \<open>
  What sharing and withdrawing an object do to the table of shared types and to the signals of the
  server side, and which of its operations do neither.
\<close>

text \<open>The types of the objects that are shared, by name.\<close>

definition shared_types :: "('v, 'w) sourceio \<Rightarrow> string \<Rightarrow> string option" where
  "shared_types io n =
     (case map_of (m_sourceRoots io) n of
        None \<Rightarrow> None | Some i \<Rightarrow> map_option (api_typeName \<circ> src_api) (sources io i))"

lemma shared_types_cong:
  "m_sourceRoots b = m_sourceRoots a \<Longrightarrow> sources b = sources a \<Longrightarrow> shared_types b = shared_types a"
  by (rule ext) (simp add: shared_types_def split: option.split)

lemma shared_types_updates [simp]:
  "shared_types (b\<lparr>world := w\<rparr>) = shared_types b" "shared_types (b\<lparr>fault := f\<rparr>) = shared_types b"
  "shared_types (b\<lparr>m_rxArgs := l\<rparr>) = shared_types b" "shared_types (b\<lparr>m_rxName := n\<rparr>) = shared_types b"
  "shared_types (b\<lparr>watchers := ws\<rparr>) = shared_types b" "shared_types (b\<lparr>m_registryMapping := r\<rparr>) = shared_types b"
  "shared_types (b\<lparr>m_codec := d\<rparr>) = shared_types b" "shared_types (b\<lparr>privates := ps\<rparr>) = shared_types b"
  "shared_types (b\<lparr>m_connections := cs\<rparr>) = shared_types b" "shared_types (b\<lparr>devices := ds\<rparr>) = shared_types b"
  "shared_types (b\<lparr>signals := ss\<rparr>) = shared_types b"
  "shared_types (send_list cs' b) = shared_types b" "shared_types (write_packet g b) = shared_types b"
  by (rule shared_types_cong; simp)+

text \<open>Operations of the server side that neither share nor withdraw an object.\<close>

definition io_quiet :: "('v, 'w) sourceio \<Rightarrow> ('v, 'w) sourceio \<Rightarrow> bool" where
  "io_quiet io io' \<longleftrightarrow> signals io' = signals io \<and> serverAddress io' = serverAddress io \<and>
     shared_types io' = shared_types io"

lemma io_quiet_refl [simp]: "io_quiet io io"
  by (simp add: io_quiet_def)

lemma io_quiet_trans: "io_quiet a b \<Longrightarrow> io_quiet b c \<Longrightarrow> io_quiet a c"
  by (simp add: io_quiet_def)

lemma shared_types_shape:
  assumes "same_shape io io'"
  shows "shared_types io' = shared_types io"
proof
  fix n
  have m: "map_option src_shape (sources io' i) = map_option src_shape (sources io i)" for i
    using assms unfolding same_shape_def comp_def fun_eq_iff by blast
  have "src_api (src_shape s) = src_api s" for s :: "'a source" by (simp add: src_shape_def)
  then have "map_option (api_typeName \<circ> src_api) (sources x i) =
      map_option (api_typeName \<circ> src_api) (map_option src_shape (sources x i))" for i and x :: "('a, 'b) sourceio"
    by (simp add: option.map_comp comp_def)
  then have "map_option (api_typeName \<circ> src_api) (sources io' i) = map_option (api_typeName \<circ> src_api) (sources io i)" for i
    using m[of i] by metis
  then show "shared_types io' n = shared_types io n"
    using assms by (simp add: shared_types_def same_shape_def split: option.split)
qed

lemma quiet_handleMetaCall: "io_quiet io (handleMetaCall S E i sig a (io\<lparr>world := w\<rparr>))"
proof -
  let ?io = "io\<lparr>world := w\<rparr>"
  have "same_shape io (handleMetaCall S E i sig a ?io)"
    using handleMetaCall_shape[of ?io S E i sig a] by (simp add: same_shape_def)
  moreover have "signals (handleMetaCall S E i sig a ?io) = signals io \<and>
      serverAddress (handleMetaCall S E i sig a ?io) = serverAddress io"
    by (simp add: handleMetaCall_def Let_def split_beta split: option.split)
  ultimately show ?thesis by (simp add: io_quiet_def shared_types_shape)
qed

lemma quiet_run_emissions: "io_quiet io (run_emissions S E es io)"
proof (induction es arbitrary: io)
  case (Cons e es)
  obtain i sig a w where "e = (i, sig, a, w)" by (cases e)
  then show ?case
    using io_quiet_trans[OF quiet_handleMetaCall Cons] by (simp add: run_emissions_def)
qed (simp add: run_emissions_def)

lemma io_quiet_updates [simp]:
  "io_quiet a (b\<lparr>world := w\<rparr>) = io_quiet a b" "io_quiet a (b\<lparr>fault := f\<rparr>) = io_quiet a b"
  "io_quiet a (b\<lparr>m_rxArgs := l\<rparr>) = io_quiet a b" "io_quiet a (b\<lparr>m_rxName := n\<rparr>) = io_quiet a b"
  "io_quiet a (b\<lparr>watchers := ws\<rparr>) = io_quiet a b" "io_quiet a (b\<lparr>m_registryMapping := r\<rparr>) = io_quiet a b"
  "io_quiet a (b\<lparr>m_codec := d\<rparr>) = io_quiet a b" "io_quiet a (b\<lparr>privates := ps\<rparr>) = io_quiet a b"
  "io_quiet a (b\<lparr>m_connections := cs\<rparr>) = io_quiet a b" "io_quiet a (b\<lparr>devices := ds\<rparr>) = io_quiet a b"
  "io_quiet a (send_list cs' b) = io_quiet a b" "io_quiet a (write_packet g b) = io_quiet a b"
  by (simp_all add: io_quiet_def)

lemma quiet_newConnection [simp]: "io_quiet io (newConnection S c io)"
  by (simp add: newConnection_def Let_def)

lemma quiet_invoke:
  "io_quiet io (snd (invoke_method S E i n args io))" "io_quiet io (invoke_write S E i n args io)"
  by (simp_all add: invoke_method_def invoke_write_def split_beta Let_def quiet_run_emissions split: option.split)

lemma quiet_finish_call: "io_quiet io (snd y) \<Longrightarrow> io_quiet io (finish_call S E c k y)"
  by (simp add: finish_call_def send_reply_def split: option.split)

lemma quiet_handle_invoke: "io_quiet io (handle_invoke S E c iv io)"
proof -
  have n: "io_quiet io (note_registry E c io') = io_quiet io io'" for io'
    by (simp add: note_registry_def split: list.split)
  have m: "io_quiet io (handle_method S E c iv i s io')" if "io_quiet io io'" for i s io'
    using io_quiet_trans[OF that, of "snd (invoke_method S E i n args (io'\<lparr>m_rxArgs := args\<rparr>))" for n args]
      quiet_invoke(1)[of "io'\<lparr>m_rxArgs := args\<rparr>" for args]
    by (auto simp: handle_method_def Let_def that intro!: quiet_finish_call split: sum.split)
       (metis io_quiet_updates(3) io_quiet_trans quiet_invoke(1) io_quiet_refl)
  have w: "io_quiet io (handle_write S E iv i s io')" if "io_quiet io io'" for i s io'
    using io_quiet_trans[OF that quiet_invoke(2)] that by (simp add: handle_write_def)
  show ?thesis
    using m w n by (simp add: handle_invoke_def Let_def split: option.split)
qed


lemma quiet_listeners:
  "io_quiet io (addListener S E i c b io)" "io_quiet io (removeListener S i c b io)"
  by (simp_all add: addListener_def removeListener_def Let_def split_beta split: option.split)

lemma quiet_server_step: "io_quiet io (server_step S E c m io)"
proof -
  have rx: "io_quiet io (io\<lparr>m_rxName := n\<rparr>)" for n by simp
  note t = io_quiet_trans[OF rx]
  show ?thesis
  proof (cases m)
    case (M_Invoke n iv)
    then show ?thesis using t[OF quiet_handle_invoke] by simp
  qed (use t[OF quiet_listeners(1)] t[OF quiet_listeners(2)] in
      \<open>auto simp: handle_ping_def handle_add_def handle_remove_def split: option.split\<close>)
qed

subsection \<open>Sharing and withdrawing\<close>

lemma root_source:
  assumes "host_inv io" and "map_of (m_sourceRoots io) n = Some j"
  obtains s where "sources io j = Some s" and "j < nextSource io" and "src_isRoot s" and "src_name s = n"
proof -
  have "sio_ok io" and nf: "no_future io" using assms(1) by (simp_all add: host_inv_def full_ok_def)
  from this(1) assms(2) obtain s where s: "sources io j = Some s" "src_isRoot s" "src_name s = n"
    by (rule sio_ok_root)
  moreover from nf s(1) have "j < nextSource io" by (force simp: no_future_def not_le[symmetric])
  ultimately show ?thesis using that by blast
qed

lemma new_root_address:
  assumes "no_future io" and "new_root t io = (i, io')"
  shows "serverAddress io' = serverAddress io"
proof -
  obtain a ob ad cs where t: "t = SrcTree a ob ad cs" by (cases t)
  let ?st0 = "io\<lparr>nextSource := Suc (nextSource io),
      privates := (privates io)(nextSource io := \<lparr>listeners = [], p_isDynamic = False, sentTypes = []\<rparr>)\<rparr>"
  obtain kids st2 where k: "(if ob = None then ([], ?st0)
      else new_children cs (api_name a) (nextSource io) ?st0) = (kids, st2)" by fastforce
  have "no_future ?st0" using assms(1) by (simp add: no_future_def)
  then have "serverAddress st2 = serverAddress io"
    using k new_source_adds(2)[of ?st0 cs "api_name a" "nextSource io" kids st2]
    by (auto simp: adds_sources_def split: if_splits)
  then show ?thesis
    using assms(2) k by (auto simp: new_root_def t Let_def registerSource_def split: prod.splits option.splits)
qed

lemma delete_children_address: "serverAddress (delete_children n cs st) = serverAddress st"
proof (induction n arbitrary: cs st)
  case (Suc n)
  have "serverAddress (foldl (\<lambda>st (p, c). case sources st c of None \<Rightarrow> st
      | Some s \<Rightarrow> let st1 = delete_children n (src_children s) st in st1\<lparr>sources := (sources st1)(c := None)\<rparr>) st cs) =
    serverAddress st"
    using Suc by (induction cs arbitrary: st) (auto simp: Let_def split: option.split)
  then show ?case by simp
qed simp

lemma delete_root_address: "serverAddress (delete_root S i st) = serverAddress st"
proof -
  have "serverAddress (removeListener S j c b st) = serverAddress st" for j c b and st :: "('a, 'b) sourceio"
    using quiet_listeners(2)[of st S j c b] by (simp add: io_quiet_def)
  then have "serverAddress (foldl (\<lambda>st io. removeListener S i io True st) st ios) = serverAddress st"
    for ios and st :: "('a, 'b) sourceio"
    by (induction ios arbitrary: st) simp_all
  then show ?thesis
    by (simp add: delete_root_def Let_def unregisterSource_def delete_children_address split: option.split)
qed

lemma enableRemoting_effect:
  assumes "host_inv io" and "serverAddress io = Some u" and "enableRemoting S t io = (ok, io')"
  shows "let n = api_name (tree_api t); ty = api_typeName (tree_api t) in
    serverAddress io' = Some u \<and>
    (if shared_types io n = None
     then ok \<and> signals io' = signals io @ [RemoteObjectAdded n ty] \<and> shared_types io' = (shared_types io)(n \<mapsto> ty)
     else \<not> ok \<and> io' = io)"
proof (cases "map_of (m_sourceRoots io) (api_name (tree_api t))")
  case (Some j)
  then obtain s where "sources io j = Some s" using root_source[OF assms(1)] by blast
  then show ?thesis using Some assms(2,3) by (auto simp: enableRemoting_def shared_types_def)
next
  case None
  obtain i st1 where r: "new_root t io = (i, st1)" by fastforce
  have nf: "no_future io" and q: "qmap_ok (m_sourceRoots io)"
    using assms(1) by (simp_all add: host_inv_def full_ok_def sio_ok_def)
  note sel = new_root_sel[OF nf r]
  have addr: "serverAddress st1 = Some u" using new_root_address[OF nf r] assms(2) by simp
  have roots: "map_of (m_sourceRoots st1) = (map_of (m_sourceRoots io))(api_name (tree_api t) \<mapsto> i)"
    by (simp add: sel(2) map_of_qmap_insert[OF q])
  have "shared_types st1 n = ((shared_types io)(api_name (tree_api t) \<mapsto> api_typeName (tree_api t))) n" for n
  proof (cases "n = api_name (tree_api t)")
    case True
    then show ?thesis using sel(3) roots by (auto simp: shared_types_def)
  next
    case False
    show ?thesis
    proof (cases "map_of (m_sourceRoots io) n")
      case (Some j)
      then obtain s where "sources io j = Some s" "j < nextSource io" using root_source[OF assms(1)] by blast
      then have "sources st1 j = sources io j" using sel(1) sel(9)[of j] by simp
      then show ?thesis using False roots Some by (simp add: shared_types_def)
    qed (use False roots in \<open>simp add: shared_types_def\<close>)
  qed
  then have "shared_types st1 = (shared_types io)(api_name (tree_api t) \<mapsto> api_typeName (tree_api t))" by (rule ext)
  moreover have "shared_types io (api_name (tree_api t)) = None" using None by (simp add: shared_types_def)
  ultimately show ?thesis
    using assms(3) None r addr sel(14) assms(2)
    by (auto simp: enableRemoting_def enableRemoting_api_def Let_def)
qed

lemma disableRemoting_effect:
  assumes "qdata_stream S" and "host_inv io" and "serverAddress io = Some u" and "disableRemoting S ob io = (ok, io')"
  shows "serverAddress io' = Some u \<and>
    (if ok then (\<exists>n ty. signals io' = signals io @ [RemoteObjectRemoved n ty] \<and> shared_types io n = Some ty \<and>
        shared_types io' = (shared_types io)(n := None))
     else io' = io)"
proof (cases "map_of (m_objectToSourceMap io) ob")
  case None
  then show ?thesis using assms(3,4) by (auto simp: disableRemoting_def)
next
  case (Some i)
  let ?st = "io\<lparr>m_objectToSourceMap := filter (\<lambda>e. fst e \<noteq> ob) (m_objectToSourceMap io)\<rparr>"
  from Some assms(2) obtain s where s: "sources io i = Some s" "src_object s = ob"
    "map_of (m_sourceRoots io) (src_name s) = Some i"
    unfolding host_inv_def objs_ok_def by (blast dest: map_of_SomeD)
  have ok: "sio_ok ?st"
    using assms(2) by (simp add: host_inv_def full_ok_def sio_ok_def root_ok_def codec_clean_def)
  have i: "map_of (m_sourceRoots ?st) (src_name s) = Some i" "sources ?st i = Some s" using s by simp_all
  note sel = qdata_stream.delete_root_sel[OF assms(1) ok i]
  have d: "ok" "io' = delete_root S i ?st" using Some assms(4) by (auto simp: disableRemoting_def)
  have "shared_types io' n = ((shared_types io)(src_name s := None)) n" for n
  proof (cases "n = src_name s")
    case True
    then show ?thesis by (simp add: d(2) shared_types_def sel(1) map_of_qmap_remove)
  next
    case False
    show ?thesis
    proof (cases "map_of (m_sourceRoots io) n")
      case (Some j)
      then obtain s' where s': "sources io j = Some s'" "src_isRoot s'" "src_name s' = n"
        using root_source[OF assms(2)] by blast
      then have "j \<noteq> i" using s False by auto
      then have "sources io' j = Some s'" using sel(5)[of j] s' by (auto simp: d(2))
      then show ?thesis using False Some s' by (simp add: d(2) shared_types_def sel(1) map_of_qmap_remove)
    qed (use False in \<open>simp add: d(2) shared_types_def sel(1) map_of_qmap_remove\<close>)
  qed
  then have "shared_types io' = (shared_types io)(src_name s := None)" by (rule ext)
  moreover have "shared_types io (src_name s) = Some (api_typeName (src_api s))" using s by (simp add: shared_types_def)
  moreover have "serverAddress io' = Some u" using assms(3) delete_root_address[of S i ?st] by (simp add: d(2))
  ultimately show ?thesis using d(1) sel(10) assms(3) by (auto simp: d(2))
qed

end
