(* ===== verification/RegistryHost.thy ===== *)
theory RegistryHost
  imports HostNodeProps
begin

text \<open>
  A registry host over time: what it lists under its own address are the objects it shares.
\<close>

text \<open>The types of the sources that a registry lists under the address \<open>u\<close>.\<close>

definition listed :: "string \<Rightarrow> registry_source \<Rightarrow> string \<Rightarrow> string option" where
  "listed u rs n =
     (case map_of (m_sourceLocations rs) n of
        None \<Rightarrow> None | Some x \<Rightarrow> if loc_hostUrl x = u then Some (loc_typeName x) else None)"

definition keys_ok :: "registry_source \<Rightarrow> bool" where
  "keys_ok rs \<longleftrightarrow> distinct (map fst (m_sourceLocations rs))"

lemma keys_ok_steps [simp]:
  "keys_ok rs \<Longrightarrow> keys_ok (addSource e rs)" "keys_ok rs \<Longrightarrow> keys_ok (removeSource e rs)"
  "keys_ok rs \<Longrightarrow> keys_ok (removeServer v rs)"
  by (auto simp: keys_ok_def addSource_def removeSource_def removeServer_def distinct_update distinct_delete
      remove_urls_filter distinct_map_filter split: option.split)

lemma fst_in_map_of: "n \<in> fst ` set m \<longleftrightarrow> map_of m n \<noteq> None"
  by (simp add: map_of_eq_None_iff)

lemma locations_add: "map_of (m_sourceLocations (addSource e rs)) =
    (if map_of (m_sourceLocations rs) (fst e) = None then (map_of (m_sourceLocations rs))(fst e \<mapsto> snd e)
     else map_of (m_sourceLocations rs))"
  by (simp add: addSource_def fst_in_map_of update_conv')

lemma locations_remove: "map_of (m_sourceLocations (removeSource e rs)) =
    (if map_option loc_hostUrl (map_of (m_sourceLocations rs) (fst e)) = Some (loc_hostUrl (snd e))
     then (map_of (m_sourceLocations rs))(fst e := None) else map_of (m_sourceLocations rs))"
  by (auto simp: removeSource_def delete_conv' split: option.split)

lemma locations_server:
  assumes "keys_ok rs"
  shows "map_of (m_sourceLocations (removeServer v rs)) n =
    (case map_of (m_sourceLocations rs) n of
       None \<Rightarrow> None | Some x \<Rightarrow> if loc_hostUrl x = v then None else Some x)"
proof -
  have "map_of (filter (\<lambda>e. loc_hostUrl (snd e) \<noteq> v) m) n =
      (case map_of m n of None \<Rightarrow> None | Some x \<Rightarrow> if loc_hostUrl x = v then None else Some x)"
    if "distinct (map fst m)" for m :: locations
    using that by (induction m) (auto simp: map_of_eq_None_iff split: option.split)
  then show ?thesis using assms by (simp add: removeServer_def remove_urls_filter keys_ok_def)
qed

text \<open>
  Names that other hosts ever use are \<open>free\<close>. An entry under the host's own address is what is
  shared; a name that is not free has such an entry, or is not shared.
\<close>

definition entry_ok :: "string \<Rightarrow> bool \<Rightarrow> string option \<Rightarrow> location option \<Rightarrow> bool" where
  "entry_ok u free shared entry \<longleftrightarrow>
     (case entry of
        None \<Rightarrow> free \<or> shared = None
      | Some x \<Rightarrow> if loc_hostUrl x = u then shared = Some (loc_typeName x) else free)"

definition table_ok :: "string set \<Rightarrow> string \<Rightarrow> (string \<Rightarrow> string option) \<Rightarrow> registry_source \<Rightarrow> bool" where
  "table_ok F u shared rs \<longleftrightarrow> keys_ok rs \<and>
     (\<forall>n. entry_ok u (n \<in> F) (shared n) (map_of (m_sourceLocations rs) n))"

lemma table_ok_listed:
  assumes "table_ok F u shared rs"
  shows "listed u rs n = Some t \<Longrightarrow> shared n = Some t" and "n \<notin> F \<Longrightarrow> listed u rs n = shared n"
proof -
  have "entry_ok u (n \<in> F) (shared n) (map_of (m_sourceLocations rs) n)" using assms by (simp add: table_ok_def)
  then show "listed u rs n = Some t \<Longrightarrow> shared n = Some t" and "n \<notin> F \<Longrightarrow> listed u rs n = shared n"
    by (auto simp: entry_ok_def listed_def split: option.splits if_splits)
qed

lemma table_ok_share:
  assumes "table_ok F u shared rs" and "shared n = None"
  shows "table_ok F u (shared(n \<mapsto> t)) (addSource (n, \<lparr>loc_typeName = t, loc_hostUrl = u\<rparr>) rs)"
proof -
  have e: "entry_ok u (m \<in> F) (shared m) (map_of (m_sourceLocations rs) m)" for m
    using assms(1) by (simp add: table_ok_def)
  have "map_of (m_sourceLocations rs) n = Some x \<Longrightarrow> entry_ok u (n \<in> F) (Some t) (Some x)" for x
    using e[of n] assms(2) by (simp add: entry_ok_def split: if_splits)
  then show ?thesis
    using assms(1) e by (auto simp: table_ok_def locations_add) (simp add: entry_ok_def)
qed

lemma table_ok_withdraw:
  assumes "table_ok F u shared rs"
  shows "table_ok F u (shared(n := None)) (removeSource (n, \<lparr>loc_typeName = t, loc_hostUrl = u\<rparr>) rs)"
proof -
  have e: "entry_ok u (m \<in> F) (shared m) (map_of (m_sourceLocations rs) m)" for m
    using assms by (simp add: table_ok_def)
  have "entry_ok u (n \<in> F) None (map_of (m_sourceLocations rs) n)"
    if "map_option loc_hostUrl (map_of (m_sourceLocations rs) n) \<noteq> Some u"
    using e[of n] that by (cases "map_of (m_sourceLocations rs) n") (simp_all add: entry_ok_def)
  then show ?thesis
    using assms e by (simp add: table_ok_def locations_remove) (simp add: entry_ok_def)
qed

lemma table_ok_foreign_add:
  assumes "table_ok F u shared rs" and "loc_hostUrl (snd e) \<noteq> u" and "fst e \<in> F"
  shows "table_ok F u shared (addSource e rs)"
  using assms by (simp add: table_ok_def locations_add) (simp add: entry_ok_def)

lemma table_ok_foreign_remove:
  assumes "table_ok F u shared rs" and "loc_hostUrl (snd e) \<noteq> u"
  shows "table_ok F u shared (removeSource e rs)"
proof -
  have e: "entry_ok u (m \<in> F) (shared m) (map_of (m_sourceLocations rs) m)" for m
    using assms(1) by (simp add: table_ok_def)
  have "entry_ok u (fst e \<in> F) (shared (fst e)) None"
    if "map_option loc_hostUrl (map_of (m_sourceLocations rs) (fst e)) = Some (loc_hostUrl (snd e))"
    using e[of "fst e"] that assms(2) by (auto simp: entry_ok_def)
  then show ?thesis using assms(1) e by (simp add: table_ok_def locations_remove)
qed

lemma table_ok_server:
  assumes "table_ok F u shared rs" and "v \<noteq> u"
  shows "table_ok F u shared (removeServer v rs)"
proof -
  have k: "keys_ok rs" and e: "entry_ok u (n \<in> F) (shared n) (map_of (m_sourceLocations rs) n)" for n
    using assms(1) by (simp_all add: table_ok_def)
  have "entry_ok u (n \<in> F) (shared n) (map_of (m_sourceLocations (removeServer v rs)) n)" for n
    using e[of n] assms(2) by (auto simp: locations_server[OF k] entry_ok_def split: option.splits if_splits)
  then show ?thesis using k by (simp add: table_ok_def)
qed


subsection \<open>The life of a registry host\<close>

text \<open>
  Objects and models are shared and withdrawn, clients connect, send packets and go, objects emit
  signals, replicas are acquired, and other hosts register and unregister their sources.
\<close>

inductive registry_host_step :: "'v qstream \<Rightarrow> 'v node_env \<Rightarrow> ('v, 'w) environment \<Rightarrow> ('v, 'w) host_env
    \<Rightarrow> ('v, 'w) local_model \<Rightarrow> string set \<Rightarrow> string \<Rightarrow> ('v, 'w) host_node \<Rightarrow> ('v, 'w) host_node \<Rightarrow> bool"
  for S E Q H L F u where
  rh_share: "registry_host_step S E Q H L F u hn (snd (host_enableRemoting S E H ob name hn))"
| rh_model: "\<not> isDynamic (tree_api (model_tree H model name)) \<Longrightarrow> host_enableModel S E H model name hn = Some (ok, hn') \<Longrightarrow>
    registry_host_step S E Q H L F u hn hn'"
| rh_withdraw: "registry_host_step S E Q H L F u hn (snd (host_disableRemoting S E ob hn))"
| rh_connect: "remoteObjectIo hn = Some io \<Longrightarrow> registry_host_step S E Q H L F u hn (with_io S E io (newConnection S c io) hn)"
| rh_packet: "remoteObjectIo hn = Some io \<Longrightarrow> c \<in> set (m_connections io) \<Longrightarrow> server_accepts S Q c m io \<Longrightarrow>
    registry_host_step S E Q H L F u hn (with_io S E io (server_step S Q c m io) hn)"
| rh_emit: "remoteObjectIo hn = Some io \<Longrightarrow>
    registry_host_step S E Q H L F u hn (with_io S E io (handleMetaCall S Q i sig a (io\<lparr>world := w\<rparr>)) hn)"
| rh_lost: "remoteObjectIo hn = Some io \<Longrightarrow>
    (case map_of (m_registryMapping io) c of Some v \<Rightarrow> v | None \<Rightarrow> []) \<noteq> u \<Longrightarrow>
    registry_host_step S E Q H L F u hn (with_io S E io (onServerDisconnect S c io) hn)"
| rh_acquire: "host_acquire S E L meta name ini hn = Inr (inst, hn') \<Longrightarrow> registry_host_step S E Q H L F u hn hn'"
| rh_foreign_add: "registrySource hn = Some rs \<Longrightarrow> fst e \<in> F \<Longrightarrow> loc_hostUrl (snd e) \<noteq> u \<Longrightarrow>
    registry_host_step S E Q H L F u hn (hn\<lparr>registrySource := Some (addSource e rs)\<rparr>)"
| rh_foreign_remove: "registrySource hn = Some rs \<Longrightarrow> loc_hostUrl (snd e) \<noteq> u \<Longrightarrow>
    registry_host_step S E Q H L F u hn (hn\<lparr>registrySource := Some (removeSource e rs)\<rparr>)"

definition mirrors :: "string set \<Rightarrow> string \<Rightarrow> ('v, 'w) host_node \<Rightarrow> bool" where
  "mirrors F u hn \<longleftrightarrow> (\<exists>io rs. remoteObjectIo hn = Some io \<and> registrySource hn = Some rs \<and> io_forwarded hn \<and>
     serverAddress io = Some u \<and> host_inv io \<and> table_ok F u (shared_types io) rs)"

lemma mirrorsI:
  "remoteObjectIo hn = Some io \<Longrightarrow> registrySource hn = Some rs \<Longrightarrow> io_forwarded hn \<Longrightarrow>
   serverAddress io = Some u \<Longrightarrow> host_inv io \<Longrightarrow> table_ok F u (shared_types io) rs \<Longrightarrow> mirrors F u hn"
  by (auto simp: mirrors_def)

lemma with_io_quiet:
  "signals io' = signals io \<Longrightarrow> with_io S E io io' hn = hn\<lparr>remoteObjectIo := Some io'\<rparr>"
  by (simp add: with_io_def)

lemma with_io_signal:
  "signals io' = signals io @ [sg] \<Longrightarrow> with_io S E io io' hn = forward_signal S E io' sg (hn\<lparr>remoteObjectIo := Some io'\<rparr>)"
  by (simp add: with_io_def)

lemma mirrors_quiet:
  assumes "mirrors F u hn" and "remoteObjectIo hn = Some io" and "io_quiet io io'" and "host_inv io'"
  shows "mirrors F u (with_io S E io io' hn)"
  using assms by (auto simp: mirrors_def with_io_quiet io_quiet_def)

lemma mirrors_same:
  assumes "mirrors F u hn" and "remoteObjectIo hn' = remoteObjectIo hn" and "registrySource hn' = registrySource hn"
    and "io_forwarded hn' = io_forwarded hn"
  shows "mirrors F u hn'"
  using assms by (simp add: mirrors_def)

lemma mirrors_enabled:
  assumes "mirrors F u hn" and "remoteObjectIo hn = Some io" and "enableRemoting S t io = (ok, io')"
  shows "mirrors F u (with_io S E io io' hn)"
proof -
  obtain rs where m: "registrySource hn = Some rs" "io_forwarded hn" "serverAddress io = Some u" "host_inv io"
    "table_ok F u (shared_types io) rs"
    using assms(1,2) by (auto simp: mirrors_def)
  have inv: "host_inv io'" using enableRemoting_inv[OF m(4), of S t] assms(3) by simp
  show ?thesis
  proof (cases "shared_types io (api_name (tree_api t)) = None")
    case False
    then have "io' = io" using enableRemoting_effect[OF m(4,3) assms(3)] by (simp add: Let_def)
    then show ?thesis using mirrors_quiet[OF assms(1,2) io_quiet_refl] m(4) by simp
  next
    case True
    then have e: "signals io' = signals io @ [RemoteObjectAdded (api_name (tree_api t)) (api_typeName (tree_api t))]"
      "serverAddress io' = Some u"
      "shared_types io' = (shared_types io)(api_name (tree_api t) \<mapsto> api_typeName (tree_api t))"
      using enableRemoting_effect[OF m(4,3) assms(3)] by (simp_all add: Let_def)
    show ?thesis
      using m e inv table_ok_share[OF m(5) True]
      by (simp add: with_io_signal[OF e(1)] forward_signal_def registry_hears_def entry_of_def mirrors_def)
  qed
qed

lemma enable_fixed:
  assumes "\<not> isDynamic (tree_api t)"
  shows "enableRemoting_api S t io = enableRemoting S t io"
  using assms by (simp add: enableRemoting_def enableRemoting_api_def)

lemma host_acquire_keeps:
  assumes "host_acquire S E L meta name ini hn = Inr (inst, hn')"
  shows "remoteObjectIo hn' = remoteObjectIo hn" "registrySource hn' = registrySource hn"
    "io_forwarded hn' = io_forwarded hn"
proof -
  have join: "remoteObjectIo b = remoteObjectIo a \<and> registrySource b = registrySource a \<and> io_forwarded b = io_forwarded a"
    if "join_instance i k a = Inr b" for i k and a b :: "('a, 'b) host_node"
    using that by (auto simp: join_instance_def bindE_Inr_iff split: option.splits implementation.splits)
  have new: "remoteObjectIo b = remoteObjectIo a \<and> registrySource b = registrySource a \<and> io_forwarded b = io_forwarded a"
    if "host_handleNewAcquire S E L meta i nm a = Inr (k, b)" for i k nm and a b :: "('a, 'b) host_node"
  proof -
    have "remoteObjectIo b = remoteObjectIo a \<and> registrySource b = registrySource a \<and> io_forwarded b = io_forwarded a"
      if "acquire_local E L meta i nm j io a = Inr (k, b)" for j and io :: "('a, 'b) sourceio"
      using that unfolding acquire_local_def bindE_Inr_iff
      by (elim exE conjE) (auto simp: Let_def split: option.split_asm)
    then show ?thesis using that by (auto simp: host_handleNewAcquire_def split: option.split_asm prod.split_asm)
  qed
  have opn: "remoteObjectIo (host_openConnectionIfNeeded E nm a) = remoteObjectIo a \<and>
      registrySource (host_openConnectionIfNeeded E nm a) = registrySource a \<and>
      io_forwarded (host_openConnectionIfNeeded E nm a) = io_forwarded a" for nm and a :: "('a, 'b) host_node"
    by (simp add: host_openConnectionIfNeeded_def split: option.split)
  have "remoteObjectIo b = remoteObjectIo a \<and> registrySource b = registrySource a \<and> io_forwarded b = io_forwarded a"
    if "host_setReplicaImplementation S E L meta i nm ini a = Inr b" for i nm and a b :: "('a, 'b) host_node"
    using that opn[of nm a]
    by (auto simp: host_setReplicaImplementation_def Let_def bindE_Inr_iff split: prod.splits if_splits
        dest!: join new)
  then show "remoteObjectIo hn' = remoteObjectIo hn" "registrySource hn' = registrySource hn"
    "io_forwarded hn' = io_forwarded hn"
    using assms by (fastforce simp: host_acquire_def Let_def bindE_Inr_iff split: prod.splits)+
qed


context qdata_stream
begin

lemma registry_host_step_mirrors:
  "registry_host_step S E Q H L F u hn hn' \<Longrightarrow> mirrors F u hn \<Longrightarrow> mirrors F u hn'"
proof (induction rule: registry_host_step.induct)
  case (rh_share hn ob name)
  obtain io where io: "remoteObjectIo hn = Some io" using rh_share by (auto simp: mirrors_def)
  have "mirrors F u (host_error e hn)" for e using rh_share by (simp add: mirrors_def host_error_def)
  then show ?case
    using mirrors_enabled[OF rh_share io]
    by (auto simp: host_enableRemoting_def io Let_def split: prod.split)
next
  case (rh_model model name hn ok hn')
  then obtain io io' where io: "remoteObjectIo hn = Some io"
      and e: "enableRemoting_api S (model_tree H model name) io = (ok, io')" "hn' = with_io S E io io' hn"
    by (auto simp: host_enableModel_def split: option.split_asm prod.split_asm)
  have "enableRemoting S (model_tree H model name) io = (ok, io')"
    using e(1) by (simp add: enable_fixed[OF rh_model(1)])
  with mirrors_enabled[OF rh_model(3) io] e(2) show ?case by blast
next
  case (rh_withdraw hn ob)
  then obtain io rs where m: "remoteObjectIo hn = Some io" "registrySource hn = Some rs" "io_forwarded hn"
      "serverAddress io = Some u" "host_inv io" "table_ok F u (shared_types io) rs"
    by (auto simp: mirrors_def)
  obtain ok io' where d: "disableRemoting S (Some ob) io = (ok, io')" by fastforce
  note eff = disableRemoting_effect[OF qdata_stream_axioms m(5,4) d]
  have inv: "host_inv io'" using disableRemoting_inv[OF m(5), of "Some ob"] d by simp
  show ?case
  proof (cases ok)
    case False
    then show ?thesis
      using rh_withdraw eff m(1) d by (simp add: host_disableRemoting_def mirrors_def host_error_def)
  next
    case True
    then obtain n ty where e: "signals io' = signals io @ [RemoteObjectRemoved n ty]" "serverAddress io' = Some u"
      "shared_types io' = (shared_types io)(n := None)" using eff by auto
    show ?thesis
      using m e inv True d table_ok_withdraw[OF m(6), of n ty]
      by (simp add: host_disableRemoting_def with_io_signal[OF e(1)] forward_signal_def registry_hears_def
          entry_of_def mirrors_def)
  qed
next
  case (rh_connect hn io c)
  then have inv: "host_inv io" by (auto simp: mirrors_def)
  show ?case by (rule mirrors_quiet[OF rh_connect(2,1) quiet_newConnection newConnection_inv[OF inv]])
next
  case (rh_packet hn io c m)
  then have inv: "host_inv io" by (auto simp: mirrors_def)
  show ?case by (rule mirrors_quiet[OF rh_packet(4,1) quiet_server_step server_step_inv[OF inv rh_packet(2)]])
next
  case (rh_emit hn io i sig a w)
  then have inv: "host_inv io" by (auto simp: mirrors_def)
  show ?case by (rule mirrors_quiet[OF rh_emit(2,1) quiet_handleMetaCall emission_inv[OF inv]])
next
  case (rh_lost hn io c)
  then obtain rs where m: "registrySource hn = Some rs" "io_forwarded hn" "serverAddress io = Some u" "host_inv io"
      "table_ok F u (shared_types io) rs"
    by (auto simp: mirrors_def)
  let ?v = "case map_of (m_registryMapping io) c of Some v \<Rightarrow> v | None \<Rightarrow> []"
  have ok: "sio_ok io" using m(4) by (simp add: host_inv_def full_ok_def)
  have e: "signals (onServerDisconnect S c io) = signals io @ [ServerRemoved ?v]"
    "serverAddress (onServerDisconnect S c io) = Some u"
    "shared_types (onServerDisconnect S c io) = shared_types io"
    using m(3) by (simp_all add: onServerDisconnect_result[OF ok])
  show ?case
    using m e disconnect_inv[OF m(4)] table_ok_server[OF m(5) rh_lost(2)]
    by (simp add: with_io_signal[OF e(1)] forward_signal_def registry_hears_def mirrors_def)
next
  case (rh_acquire meta name ini hn inst hn')
  show ?case by (rule mirrors_same[OF rh_acquire(2) host_acquire_keeps[OF rh_acquire(1)]])
next
  case (rh_foreign_add hn rs e)
  then show ?case by (auto simp: mirrors_def intro!: table_ok_foreign_add simp del: split_paired_All)
next
  case (rh_foreign_remove hn rs e)
  then show ?case by (auto simp: mirrors_def intro!: table_ok_foreign_remove simp del: split_paired_All)
qed

end


text \<open>A registry host that has been set up: the registry itself is shared, and not listed.\<close>

lemma new_sourceio_start: "new_sourceio S address w = host_start S address w"
  by (simp add: new_sourceio_def host_start_def)

lemma shared_types_start: "shared_types (new_sourceio S address w) n = None"
  by (simp add: shared_types_def new_sourceio_def)

definition registry_object_ok :: "('v, 'w) host_env \<Rightarrow> bool" where
  "registry_object_ok H \<longleftrightarrow>
     (let (ty, meta) = getTypeNameAndMetaobjectFromClassInfo (meta_chain H (registry_object H))
      in ty = Some ''Registry'' \<and>
         api_name (tree_api (tree_of H (registry_object H) meta ''Registry'' ''Registry'')) = ''Registry'')"

lemma registry_shared:
  assumes "registry_object_ok H" and "remoteObjectIo hn = Some io" and "host_inv io" and "serverAddress io = Some u"
    and "shared_types io = (\<lambda>_. None)" and "io_forwarded hn" and "registrySource hn = None" and "\<not> registry_linked hn"
    and "hn2 = snd (host_enableRemoting S E H (registry_object H) [] hn)"
  shows "\<exists>io' ty. remoteObjectIo hn2 = Some io' \<and> host_inv io' \<and> serverAddress io' = Some u \<and> io_forwarded hn2 \<and>
    shared_types io' = [''Registry'' \<mapsto> ty]"
proof -
  obtain meta where c: "getTypeNameAndMetaobjectFromClassInfo (meta_chain H (registry_object H)) = (Some ''Registry'', meta)"
    and n: "api_name (tree_api (tree_of H (registry_object H) meta ''Registry'' ''Registry'')) = ''Registry''"
    using assms(1) by (auto simp: registry_object_ok_def split: prod.splits)
  let ?t = "tree_of H (registry_object H) meta ''Registry'' ''Registry''"
  obtain ok io' where e: "enableRemoting S ?t io = (ok, io')" by fastforce
  have eff: "serverAddress io' = Some u" "signals io' = signals io @ [RemoteObjectAdded ''Registry'' (api_typeName (tree_api ?t))]"
    "shared_types io' = [''Registry'' \<mapsto> api_typeName (tree_api ?t)]"
    using enableRemoting_effect[OF assms(3,4) e] assms(5) n by (simp_all add: Let_def)
  have "host_inv io'" using enableRemoting_inv[OF assms(3), of S ?t] e by simp
  then show ?thesis
    using assms(2,6-9) eff c e
    by (simp add: host_enableRemoting_def Let_def shared_name_def with_io_signal[OF eff(2)] forward_signal_def registry_hears_def)
       (rule exI, rule refl)
qed

lemma registry_host_start:
  assumes "registryHost_setRegistryUrl S E H L url (new_host_node nd) = Inr (True, hn')"
    and "registry_object_ok H" and "node_hostUrl hn' = Some u" and "''Registry'' \<in> F"
  shows "mirrors F u hn'"
proof -
  obtain hn1 where su: "setHostUrlBaseImpl S H url BuiltInSchemasOnly (new_host_node nd) = (True, hn1)"
    using assms(1) by (cases "setHostUrlBaseImpl S H url BuiltInSchemasOnly (new_host_node nd)")
      (auto simp: registryHost_setRegistryUrl_def split: if_splits)
  then obtain v where hn1: "remoteObjectIo hn1 = Some (new_sourceio S (Some v) (start_world H))" "io_forwarded hn1"
      "registrySource hn1 = None" "\<not> registry_linked hn1"
    by (auto simp: setHostUrlBaseImpl_def new_host_node_def Let_def split: if_splits)
  define hn2 where "hn2 = snd (host_enableRemoting S E H (registry_object H) [] hn1)"
  obtain io' ty where io': "remoteObjectIo hn2 = Some io'" "host_inv io'" "serverAddress io' = Some v" "io_forwarded hn2"
    "shared_types io' = [''Registry'' \<mapsto> ty]"
    using registry_shared[OF assms(2) hn1(1) _ _ _ hn1(2-4) hn2_def]
    by (auto simp: new_sourceio_start host_start_inv fun_eq_iff shared_types_start[unfolded new_sourceio_start])
       (auto simp: host_start_def)
  obtain nd2 inst hn4 where acq: "host_acquire S E L (registry_class E) [] (registry_initialize (ne_reg E))
      (hn2\<lparr>hn_node := nd2, registrySource := Some \<lparr>m_sourceLocations = [], reg_signals = []\<rparr>\<rparr>) = Inr (inst, hn4)"
    and hn': "\<exists>nd4. hn' = hn4\<lparr>hn_node := nd4\<rparr>"
    using assms(1) su hn1(1)
    by (auto simp: registryHost_setRegistryUrl_def hn2_def Let_def bindE_Inr_iff split: if_splits)
  have k: "remoteObjectIo hn' = Some io'" "registrySource hn' = Some \<lparr>m_sourceLocations = [], reg_signals = []\<rparr>" "io_forwarded hn'"
    using host_acquire_keeps[OF acq] io' hn' by auto
  then have "v = u" using assms(3) io'(3) by (simp add: node_hostUrl_def)
  moreover have "table_ok F u (shared_types io') \<lparr>m_sourceLocations = [], reg_signals = []\<rparr>"
    using assms(4) by (auto simp: table_ok_def keys_ok_def entry_ok_def io'(5))
  ultimately show ?thesis using k io' by (auto intro: mirrorsI)
qed

text \<open>
  C5: A registry host lists what it shares, whatever happens. From the moment it listens, through
  any sharing and withdrawal of objects and models, connections and packets, changes of objects,
  acquired replicas and the sources of other hosts, every source the registry lists under its
  address is shared by it under that name and type; and a name that no other host ever uses is
  listed exactly when an object is shared under it.
\<close>

theorem registry_host_lists_sources:
  assumes "qdata_stream S" and "registryHost_setRegistryUrl S E H L url (new_host_node nd) = Inr (True, hn0)"
    and "registry_object_ok H" and "node_hostUrl hn0 = Some u" and "''Registry'' \<in> F"
    and "(registry_host_step S E Q H L F u)\<^sup>*\<^sup>* hn0 hn"
  shows "\<exists>io rs. remoteObjectIo hn = Some io \<and> registrySource hn = Some rs \<and> serverAddress io = Some u \<and>
    (\<forall>n t. listed u rs n = Some t \<longrightarrow> shared_types io n = Some t) \<and>
    (\<forall>n. n \<notin> F \<longrightarrow> listed u rs n = shared_types io n)"
proof -
  have "mirrors F u hn"
    using assms(6)
    by induction (auto intro: registry_host_start[OF assms(2-5)] qdata_stream.registry_host_step_mirrors[OF assms(1)])
  then show ?thesis unfolding mirrors_def using table_ok_listed by blast
qed

end
