(* ===== verification/HostNodeRuns.thy ===== *)
theory HostNodeRuns
  imports RegistryHost
begin

text \<open>
  Replicas of a node's own sources, and a host node to look at: a station that hosts the registry at
  \<open>tcp:a\<close> and shares a thermometer.
\<close>

definition station_meta :: "string \<Rightarrow> metaobject" where
  "station_meta t = thermo_meta\<lparr>mo_className := t, mo_classInfo := [(''RemoteObject Type'', t)],
     mo_ownClassInfo := [(''RemoteObject Type'', t)]\<rparr>"

definition station_node_env :: "u32 node_env" where
  "station_node_env = demo_node_env\<lparr>registry_class := [station_meta ''Registry'']\<rparr>"

definition station_api :: "metaobject \<Rightarrow> string \<Rightarrow> string \<Rightarrow> api" where
  "station_api mo n t = dynamic_table (DynamicApiMap mo n t)"

lemma table_names:
  "m_name (DynamicApiMap mo n t) = n" "m_typeName (DynamicApiMap mo n t) = t"
proof -
  have p: "m_name (add_property mo d i) = m_name d" "m_typeName (add_property mo d i) = m_typeName d" for d i
    by (simp_all add: add_property_def Let_def split: option.split)
  have m: "m_name (add_method mo d i) = m_name d" "m_typeName (add_method mo d i) = m_typeName d" for d i
    by (simp_all add: add_method_def split: method_kind.split)
  have ps: "m_name (foldl (add_property mo) d is) = m_name d" "m_typeName (foldl (add_property mo) d is) = m_typeName d" for d "is"
    by (induction "is" arbitrary: d) (simp_all add: p)
  have ms: "m_name (foldl (add_method mo) d is) = m_name d" "m_typeName (foldl (add_method mo) d is) = m_typeName d" for d "is"
    by (induction "is" arbitrary: d) (simp_all add: m)
  show "m_name (DynamicApiMap mo n t) = n" "m_typeName (DynamicApiMap mo n t) = t"
    by (simp_all add: DynamicApiMap_def ps ms Let_def)
qed

lemma station_api_names [simp]:
  "api_name (station_api mo n t) = n" "api_typeName (station_api mo n t) = t" "isDynamic (station_api mo n t)"
  by (simp_all add: station_api_def dynamic_table_def table_names)

definition station_env :: "(u32, nat) host_env" where
  "station_env = \<lparr>serverFactory = new_factory False True, url_scheme = takeWhile (\<lambda>ch. ch \<noteq> CHR '':''),
     listens = (\<lambda>b u. Some u), objectName = (\<lambda>ob. []),
     meta_chain = (\<lambda>ob. [station_meta (if ob = 0 then ''Registry'' else ''Thermo'')]),
     tree_of = (\<lambda>ob ms n t. SrcTree (station_api (hd ms) n t) (Some ob) None NoChildren),
     model_tree = (\<lambda>ob n. SrcTree (station_api thermo_meta n ''QAbstractItemModelAdapter'') (Some ob) None NoChildren),
     registry_object = 0, start_world = 20\<rparr>"

definition station_model :: "(u32, nat) local_model" where
  "station_model = \<lparr>objects = \<lparr>
     readProperty = (\<lambda>ob i w. word_of_nat w), isPointerToQObject = (\<lambda>ob i. False), isVariantProperty = (\<lambda>ob i. False),
     toQObject = (\<lambda>v. None), gadget_of = (\<lambda>v. None),
     is_model = (\<lambda>ob. False), dynamic_api = (\<lambda>ob. None), child_count = (\<lambda>A. 0),
     is_cloned = (\<lambda>ob i. False), connects = (\<lambda>ob i. True), fromQro = (\<lambda>q. 0),
     types = \<lparr>te_mo = (\<lambda>m. \<lparr>qm_className = [], qm_props = [], qm_enumOffset = 0, qm_enums = []\<rparr>),
       te_metaObject = (\<lambda>t. None), te_qt = 0, te_indexOfEnum = (\<lambda>m n. None), te_size = (\<lambda>n. 0),
       te_seq = (\<lambda>t. None), te_assoc = (\<lambda>t. None), te_model = (\<lambda>n. False), te_enumOrder = (\<lambda>es. es),
       te_metaOrder = (\<lambda>ms. ms)\<rparr>\<rparr>,
     writeProperty = (\<lambda>ob i v w. ([(0, 0, [v], Suc w)], Suc w)),
     object_class = (\<lambda>ob. thermo_meta), qobjectPropertyOffset = 1, memberOffset = 0\<rparr>"

lemma station_schemes: "factory_isValid (url_scheme station_env) (serverFactory station_env) ''tcp:a''"
   "factory_create (url_scheme station_env) (serverFactory station_env) ''tcp:a'' = Some TcpBackend"
  by code_simp+

lemma station_classes: "getTypeNameAndMetaobjectFromClassInfo (meta_chain station_env ob) =
    (let t = (if ob = 0 then ''Registry'' else ''Thermo'') in (Some t, [station_meta t]))"
  by (simp add: station_env_def getTypeNameAndMetaobjectFromClassInfo_def station_meta_def Let_def)

lemma station_class: "class_typeName [station_meta ''Registry''] = ''Registry''"
  by code_simp

lemma station_env_fields: "listens station_env b x = Some x" "start_world station_env = 20" "registry_object station_env = 0"
  "tree_of station_env ob ms n t = SrcTree (station_api (hd ms) n t) (Some ob) None NoChildren"
  by (simp_all add: station_env_def)

definition listening :: "(u32, nat) host_node" where
  "listening = (new_host_node new_node)\<lparr>remoteObjectIo := Some (new_sourceio le_stream (Some ''tcp:a'') 20),
     io_backend := Some TcpBackend, io_forwarded := True\<rparr>"

lemma listening_eq: "setHostUrlBaseImpl le_stream station_env ''tcp:a'' BuiltInSchemasOnly (new_host_node new_node) = (True, listening)"
  by (simp add: setHostUrlBaseImpl_def station_schemes station_env_fields Let_def listening_def) (simp add: new_host_node_def)

lemma lookups: "remoteObjectIo listening = Some (new_sourceio le_stream (Some ''tcp:a'') 20)" "registry (hn_node listening) = None"
  by (simp_all add: listening_def new_host_node_def new_node_def)

definition station_source :: "nat \<Rightarrow> string \<Rightarrow> string \<Rightarrow> srcid \<Rightarrow> u32 source" where
  "station_source ob n t i = \<lparr>src_name = n, src_isRoot = True, src_api = station_api (station_meta t) n t,
     src_object = Some ob, src_adapter = None, src_children = [], src_priv = i, src_args = []\<rparr>"

definition registry_io :: "(u32, nat) sourceio" where
  "registry_io = snd (enableRemoting le_stream (SrcTree (station_api (station_meta ''Registry'') ''Registry'' ''Registry'') (Some 0) None NoChildren)
     (new_sourceio le_stream (Some ''tcp:a'') 20))"

lemma registry_io_values:
  "m_sourceObjects registry_io = [(''Registry'', 0)]" "m_sourceRoots registry_io = [(''Registry'', 0)]"
  "m_objectToSourceMap registry_io = [(Some 0, 0)]" "nextSource registry_io = 1"
  "sources registry_io = [0 \<mapsto> station_source 0 ''Registry'' ''Registry'' 0]"
  "signals registry_io = [RemoteObjectAdded ''Registry'' ''Registry'']" "serverAddress registry_io = Some ''tcp:a''"
  "world registry_io = 20" "fault registry_io = None" "m_connections registry_io = []" "watchers registry_io = []"
  by (simp_all add: registry_io_def enableRemoting_def enableRemoting_api_def new_root_def registerSource_def new_sourceio_def
      station_source_def Let_def)

definition with_registry :: "(u32, nat) host_node" where
  "with_registry = listening\<lparr>remoteObjectIo := Some registry_io, announced := [RemoteObjectAdded ''Registry'' ''Registry'']\<rparr>"

lemma with_registry_eq: "snd (host_enableRemoting le_stream station_node_env station_env 0 [] listening) = with_registry"
proof -
  let ?t = "SrcTree (station_api (station_meta ''Registry'') ''Registry'' ''Registry'') (Some 0) None NoChildren"
  have "enableRemoting le_stream ?t (new_sourceio le_stream (Some ''tcp:a'') 20) = (True, registry_io)"
    by (simp add: registry_io_def enableRemoting_def enableRemoting_api_def Let_def split_beta) (simp add: new_sourceio_def)
  moreover have "signals (new_sourceio le_stream (Some ''tcp:a'') (20 :: nat)) = []" by (simp add: new_sourceio_def)
  ultimately show ?thesis
    by (simp add: host_enableRemoting_def lookups station_classes shared_name_def Let_def with_io_def forward_signal_def
      station_env_fields registry_io_values with_registry_def listening_def new_host_node_def registry_hears_def new_node_def)
qed

lemma node_env_class: "registry_class station_node_env = [station_meta ''Registry'']"
  by (simp add: station_node_env_def)

lemma not_replica: "addFromMetaObject [station_meta ''Registry''] ts = ts"
proof -
  have "\<not> ends_with ''Replica'' (mo_className (station_meta ''Registry''))" by code_simp
  then show ?thesis by (simp add: addFromMetaObject_def Let_def)
qed

definition registry_replica :: "u32 replica" where
  "registry_replica = (case local_configure 0 (new_local ''Registry'' [station_meta ''Registry''] 0 0 :: u32 inprocess) of
     Inr ip \<Rightarrow> ip_base ip | Inl e \<Rightarrow> undefined)"

lemma configured: "local_configure 0 (new_local ''Registry'' [station_meta ''Registry''] 0 0 :: u32 inprocess) =
    Inr \<lparr>ip_base = registry_replica, ip_source = None\<rparr>"
  by (simp add: registry_replica_def local_configure_def new_local_def new_connected_replica_def Let_def)

definition station :: "(u32, nat) host_node" where
  "station = with_registry\<lparr>hn_node := new_node\<lparr>nextInstance := 1, registryAddress := ''tcp:a'', impls := [0 \<mapsto> registry_replica],
     nextImpl := 1, d_impls := [0 \<mapsto> 0], replicas := [(''Registry'', 0)], registry := Some 0\<rparr>,
     registrySource := Some \<lparr>m_sourceLocations = [], reg_signals = []\<rparr>, short_circuit := [0 \<mapsto> 0], relays := [(0, 0, [''levelChanged(int)''])]\<rparr>"

lemma station_setup_eq: "registryHost_setRegistryUrl le_stream station_node_env station_env station_model ''tcp:a''
     (new_host_node new_node) = Inr (True, station)"
proof -
  have relay: "connectReplica station_model 0 (station_meta ''Registry'') = [''levelChanged(int)'']" by code_simp
  have bases: "signal_base station_node_env = 0" "property_base station_node_env = 0"
    by (simp_all add: station_node_env_def demo_node_env_def)
  show ?thesis
    by (simp add: registryHost_setRegistryUrl_def listening_eq lookups with_registry_eq station_env_fields node_env_class
      host_acquire_def new_instance_def not_replica station_class host_setReplicaImplementation_def
      host_openConnectionIfNeeded_def host_addresses_def hasInstance_def host_handleNewAcquire_def acquire_local_def
      with_registry_def registry_io_values Let_def station_source_def configured bases relay station_def)
     (simp add: listening_def new_host_node_def new_node_def new_sourceio_def registry_io_values host_handleNewAcquire_def
        acquire_local_def configured bases relay station_source_def)
qed

definition lamp_station :: "(u32, nat) host_node" where
  "lamp_station = snd (host_enableRemoting le_stream station_node_env station_env 7 ''lamp'' station)"

definition lamp_io :: "(u32, nat) sourceio" where
  "lamp_io = snd (enableRemoting le_stream (SrcTree (station_api (station_meta ''Thermo'') ''lamp'' ''Thermo'') (Some 7) None NoChildren)
     registry_io)"

lemma lamp_io_values:
  "m_sourceRoots lamp_io = [(''Registry'', 0), (''lamp'', 1)]" "m_sourceObjects lamp_io = [(''Registry'', 0), (''lamp'', 1)]"
  "sources lamp_io = [0 \<mapsto> station_source 0 ''Registry'' ''Registry'' 0, 1 \<mapsto> station_source 7 ''lamp'' ''Thermo'' 1]"
  "serverAddress lamp_io = Some ''tcp:a''" "world lamp_io = 20" "fault lamp_io = None"
  by (simp_all add: lamp_io_def enableRemoting_def enableRemoting_api_def new_root_def registerSource_def registry_io_values
      station_source_def Let_def)

lemma station_fields:
  "remoteObjectIo station = Some registry_io" "registrySource station = Some \<lparr>m_sourceLocations = [], reg_signals = []\<rparr>"
  "io_forwarded station" "node_hostUrl station = Some ''tcp:a''"
  by (simp_all add: station_def with_registry_def listening_def new_host_node_def node_hostUrl_def registry_io_values)

lemma with_io_remoteObjectIo [simp]: "remoteObjectIo (with_io S E io io' hn) = Some io'"
proof -
  have "remoteObjectIo (fold (forward_signal S E io') sgs h) = remoteObjectIo h" for sgs h
    by (induction sgs arbitrary: h)
       (auto simp: forward_signal_def registry_hears_def on_registry_replica_def
         split: option.split src_signal.split prod.split)
  then show ?thesis by (simp add: with_io_def)
qed

lemma lamp_station_io: "remoteObjectIo lamp_station = Some lamp_io"
  by (simp add: lamp_station_def host_enableRemoting_def station_fields station_classes shared_name_def station_env_fields
      lamp_io_def Let_def split_beta)

lemma lamp_shared: "shared_types lamp_io ''lamp'' = Some ''Thermo''"
  by (simp add: shared_types_def lamp_io_values station_source_def)

theorem registry_host_lists_sources_witness:
  "remoteObjectIo lamp_station = Some lamp_io \<and>
   map_option (\<lambda>rs. listed ''tcp:a'' rs ''lamp'') (registrySource lamp_station) = Some (Some ''Thermo'')"
proof -
  have ok: "registry_object_ok station_env"
    by (simp add: registry_object_ok_def station_classes station_env_fields Let_def)
  have step: "registry_host_step le_stream station_node_env thermo_env station_env station_model {''Registry''} ''tcp:a''
      station lamp_station"
    unfolding lamp_station_def by (rule rh_share)
  have run: "(registry_host_step le_stream station_node_env thermo_env station_env station_model {''Registry''} ''tcp:a'')\<^sup>*\<^sup>*
      station lamp_station"
    using step by (rule r_into_rtranclp)
  obtain rs where "registrySource lamp_station = Some rs" "\<forall>n. n \<notin> {''Registry''} \<longrightarrow> listed ''tcp:a'' rs n = shared_types lamp_io n"
    using registry_host_lists_sources[OF le_stream_laws station_setup_eq ok station_fields(4) _ run]
      lamp_station_io by auto
  then show ?thesis using lamp_station_io lamp_shared by simp_all
qed

subsection \<open>Replicas of the node's own sources\<close>

lemma connecting_keeps [simp]:
  "replicas (snd (initConnection E a nd)) = replicas nd" "impls (snd (initConnection E a nd)) = impls nd"
  "nextImpl (snd (initConnection E a nd)) = nextImpl nd"
  by (simp_all add: initConnection_def Let_def)

lemma opening_keeps [simp]:
  "replicas (hn_node (host_openConnectionIfNeeded E n hn)) = replicas (hn_node hn)"
  "impls (hn_node (host_openConnectionIfNeeded E n hn)) = impls (hn_node hn)"
  "remoteObjectIo (host_openConnectionIfNeeded E n hn) = remoteObjectIo hn"
  by (simp_all add: host_openConnectionIfNeeded_def split: option.split)

lemma local_configure_new:
  assumes "meta \<noteq> []"
  shows "local_configure inst (new_local name meta a b) = Inr \<lparr>ip_base = first_configure inst (ip_base (new_local name meta a b)), ip_source = None\<rparr>"
  using assms by (simp add: local_configure_def new_local_def new_connected_replica_def Let_def)

lemma first_configure_keeps: "m_state (first_configure inst r) = m_state r" "events (first_configure inst r) = events r"
  by (simp_all add: first_configure_def Let_def)


lemma with_io_node:
  assumes "registrySource hn \<noteq> None"
  shows "hn_node (with_io S E io io' hn) = hn_node hn"
proof -
  have "hn_node (fold (forward_signal S E io') sgs h) = hn_node h" if "registrySource h \<noteq> None" for sgs h
    using that by (induction sgs arbitrary: h)
       (auto simp: forward_signal_def registry_hears_def split: option.split src_signal.split)
  then show ?thesis using assms by (simp add: with_io_def)
qed

lemma lamp_station_node: "hn_node lamp_station = hn_node station"
  by (simp add: lamp_station_def host_enableRemoting_def station_fields station_classes shared_name_def station_env_fields
      with_io_node Let_def split_beta)


lemma own_dynamic_replica_faults:
  assumes "remoteObjectIo hn = Some io" and "map_of (m_sourceObjects io) name = Some i"
    and "map_of (replicas (hn_node hn)) name = None" and "name \<noteq> []"
  shows "host_acquire S E L [] name ini hn = Inl No_class"
proof -
  have no: "hasInstance name nd = (False, nd)" if "replicas nd = replicas (hn_node hn)" for nd :: "'a node"
    using assms(3) that by (simp add: hasInstance_def)
  show ?thesis
    using assms(1,2,4)
    by (simp add: host_acquire_def new_instance_def Let_def host_setReplicaImplementation_def no
        host_handleNewAcquire_def acquire_local_def local_configure_def new_local_def new_connected_replica_def)
qed

text \<open>
  C38: The value a replica in process reads is not the value that is sent to other replicas. For a
  class read by reflection, all of whose object properties have a known class, the property
  number \<open>j\<close> of the source is \<open>j\<close> plus the number of inherited properties, and this is what goes
  over the wire; the replica in process reads the object's property \<open>j\<close> plus the number of properties
  of \<open>QObject\<close>.
\<close>

theorem own_read_shifted:
  assumes "\<not> list_ex skipped (drop (mo_propOffset mo) (mo_props mo))"
    and "src_api s = dynamic_table (DynamicApiMap mo n t)" and "j < propertyCount (src_api s)"
    and "sources (os_io st) i = Some s" and "ip_source ip = Some i" and "src_object s = Some ob"
    and "read = (\<lambda>k. readProperty (objects L) ob k (world (os_io st)))"
    and "own = int j + int (mo_propOffset mo)" and "\<not> isPointerToQObject (objects L) ob own"
  shows "local_getProperty L (int j) ip (os_io st) = Inr (read (int j + qobjectPropertyOffset L)) \<and>
    serializeProperty S E (objects L) (Suc d) i (int j) st =
      Inr (serialize_value S E (objects L) (src_priv s) (isVariantProperty (objects L) ob own) (read own) st)"
proof -
  have "m_properties (DynamicApiMap mo n t) = map int [mo_propOffset mo ..< length (mo_props mo)]"
    by (rule unskipped_properties[OF assms(1)])
  then have ix: "sourcePropertyIndex (src_api s) (int j) = own" "\<not> isAdapterProperty (src_api s) (int j)"
    using assms(2,3,8) by (simp_all add: dynamic_table_def index_at_def)
  show ?thesis
    using assms(4-7,9) ix
    by (simp add: local_getProperty_def local_object_def local_source_def the_source_def property_target_def Let_def)
qed

text \<open>A class below another one with two properties of its own; every property has its number as value.\<close>

definition based_meta :: metaobject where
  "based_meta = thermo_meta\<lparr>mo_propOffset := 3, mo_props := replicate 3 (hd (mo_props thermo_meta)) @ mo_props thermo_meta\<rparr>"

definition numbered_model :: "(u32, nat) local_model" where
  "numbered_model = station_model\<lparr>objects := (objects station_model)\<lparr>readProperty := (\<lambda>ob i w. word_of_int i)\<rparr>\<rparr>"

definition based_state :: "(u32, nat) object_state" where
  "based_state = \<lparr>os_io = lamp_io\<lparr>sources := [1 \<mapsto> (station_source 7 ''lamp'' ''Thermo'' 1)
     \<lparr>src_api := dynamic_table (DynamicApiMap based_meta ''lamp'' ''Thermo'')\<rparr>]\<rparr>, os_links = [], os_parent = (\<lambda>_. None), os_next = 0\<rparr>"

theorem own_read_shifted_witness:
  "local_getProperty numbered_model 0 \<lparr>ip_base = raiser, ip_source = Some 1\<rparr> (os_io based_state) = Inr 1 \<and>
   serializeProperty le_stream thermo_env (objects numbered_model) (Suc 0) 1 0 based_state =
     Inr (serialize_value le_stream thermo_env (objects numbered_model) 1 False 3 based_state)"
proof -
  let ?s = "(station_source 7 ''lamp'' ''Thermo'' 1)\<lparr>src_api := dynamic_table (DynamicApiMap based_meta ''lamp'' ''Thermo'')\<rparr>"
  have off: "\<not> list_ex skipped (drop (mo_propOffset based_meta) (mo_props based_meta))" by code_simp
  have count: "0 < propertyCount (src_api ?s)" by code_simp
  have m: "mo_propOffset based_meta = 3" by (simp add: based_meta_def)
  have src: "sources (os_io based_state) 1 = Some ?s" by (simp add: based_state_def)
  show ?thesis
    using own_read_shifted[OF off _ count src, where L = numbered_model and own = 3 and S = le_stream and E = thermo_env and d = 0
        and ip = "\<lparr>ip_base = raiser, ip_source = Some 1\<rparr>" and ob = 7]
    by (simp add: m station_source_def numbered_model_def station_model_def)
qed

end
