(* ===== verification/ProxyProps.thy ===== *)
theory ProxyProps
  imports Proxy HostNodeRuns
begin

text \<open>
  Proxies: what is proxied is shared under its name until it is removed, and what a lost registry does
  to the proxies of both directions.
\<close>

lemma sides [simp]:
  "acquirer d (set_server d hn px) = acquirer d px" "server d (set_acquirer d hn px) = server d px"
  "acquirer d (set_acquirer d hn px) = hn" "server d (set_server d hn px) = hn"
  "proxiedReplicas (set_server d hn px) = proxiedReplicas px" "proxiedReplicas (set_acquirer d hn px) = proxiedReplicas px"
  "acquirer d (px\<lparr>proxiedReplicas := l\<rparr>) = acquirer d px" "server d (px\<lparr>proxiedReplicas := l\<rparr>) = server d px"
  "acquirer d (px\<lparr>watched := w\<rparr>) = acquirer d px" "server d (px\<lparr>watched := w\<rparr>) = server d px"
  by (simp_all add: acquirer_def server_def set_acquirer_def set_server_def split: proxy_direction.split)

text \<open>What the filter of a direction lets through, and is not shared by the proxy itself.\<close>

definition lets_through :: "proxy_direction \<Rightarrow> string \<times> location \<Rightarrow> ('v, 'w) proxy \<Rightarrow> bool" where
  "lets_through d entry px \<longleftrightarrow>
     (case d of
        Forward \<Rightarrow> \<not> (proxy_isHost px \<and> loc_hostUrl (snd entry) = url_text (node_hostUrl (proxyNode px))) \<and>
          proxyFilter px (fst entry) (loc_typeName (snd entry))
      | Reverse \<Rightarrow> loc_hostUrl (snd entry) \<noteq> registryAddress (hn_node (parentNode px)) \<and>
          reverseFilter px (fst entry) (loc_typeName (snd entry)))"

lemma proxyObject_eq: "proxyObject S P d entry px =
    (if lets_through d entry px then start_proxy S P (fst entry) (loc_typeName (snd entry) = QAIMADAPTER) d px else Inr px)"
  by (cases d) (auto simp: proxyObject_def lets_through_def Let_def)

lemma start_proxy_result:
  assumes "start_proxy S P name isModel d px = Inr px'"
  obtains info where "pr_direction info = d" and "proxiedReplicas px' = AList.update name info (proxiedReplicas px)"
    and "watched px' = watched px @ [(info, name, isModel)]" and "server d px' = server d px"
proof -
  obtain inst hn where "px' = (set_acquirer d hn px)\<lparr>
      proxiedReplicas := AList.update name \<lparr>pr_instance = inst, pr_direction = d\<rparr> (proxiedReplicas px),
      watched := watched px @ [(\<lparr>pr_instance = inst, pr_direction = d\<rparr>, name, isModel)]\<rparr>"
    using assms by (auto simp: start_proxy_def Let_def split: sum.splits)
  then show ?thesis by (intro that[of "\<lparr>pr_instance = inst, pr_direction = d\<rparr>"]) simp_all
qed

lemma root_object:
  assumes "enableRemoting S (SrcTree a (Some ob) ad cs) io = (ok, io')" and "shared_types io (api_name a) = None" and "host_inv io"
  shows "\<exists>i s. map_of (m_objectToSourceMap io') (Some ob) = Some i \<and> sources io' i = Some s \<and> src_name s = api_name a"
proof -
  let ?t = "SrcTree a (Some ob) ad cs"
  obtain i io1 where r: "new_root ?t io = (i, io1)" by fastforce
  have nf: "no_future io" using assms(3) by (simp add: host_inv_def full_ok_def)
  have "map_of (m_sourceRoots io) (api_name a) = None"
  proof (rule ccontr)
    assume "map_of (m_sourceRoots io) (api_name a) \<noteq> None"
    then obtain j where j: "map_of (m_sourceRoots io) (api_name a) = Some j" by blast
    then obtain s where "sources io j = Some s" using root_source[OF assms(3)] by blast
    then show False using j assms(2) by (simp add: shared_types_def)
  qed
  then have io': "m_objectToSourceMap io' = m_objectToSourceMap io1" "sources io' = sources io1"
    using assms(1) r by (auto simp: enableRemoting_def enableRemoting_api_def Let_def)
  have "map_of (m_objectToSourceMap io1) (Some ob) = Some i"
    using r by (auto simp: new_root_def Let_def registerSource_def split: prod.splits option.splits)
  then show ?thesis using new_root_sel(3)[OF nf r] io' by auto
qed

lemma disabled_name:
  assumes "qdata_stream S" and "host_inv io" and "serverAddress io = Some u" and "disableRemoting S (Some ob) io = (ok, io')"
    and "map_of (m_objectToSourceMap io) (Some ob) = Some i" and "sources io i = Some s"
  shows "ok \<and> shared_types io' = (shared_types io)(src_name s := None)"
proof -
  obtain n ty where e: "signals io' = signals io @ [RemoteObjectRemoved n ty]" "shared_types io' = (shared_types io)(n := None)"
    and ok: "ok"
    using disableRemoting_effect[OF assms(1-4)] assms(4,5) by (auto simp: disableRemoting_def)
  let ?st = "io\<lparr>m_objectToSourceMap := filter (\<lambda>e. fst e \<noteq> Some ob) (m_objectToSourceMap io)\<rparr>"
  from assms(2,5,6) have s: "map_of (m_sourceRoots io) (src_name s) = Some i"
    unfolding host_inv_def objs_ok_def by (metis map_of_SomeD option.inject)
  have k: "sio_ok ?st"
    using assms(2) by (simp add: host_inv_def full_ok_def sio_ok_def root_ok_def codec_clean_def)
  have "io' = delete_root S i ?st" using assms(4,5) by (auto simp: disableRemoting_def)
  then have "shared_types io' (src_name s) = None"
    using qdata_stream.delete_root_sel(1)[OF assms(1) k, of "src_name s" i s] s assms(6)
    by (simp add: shared_types_def map_of_qmap_remove)
  moreover have "shared_types io (src_name s) \<noteq> None" using s assms(6) by (simp add: shared_types_def)
  ultimately have "n = src_name s" using e(2) by (metis fun_upd_other)
  then show ?thesis using e(2) ok by simp
qed

text \<open>The source tree that the constructors find for a proxied replica, shared under a name.\<close>

definition proxied_tree :: "('v, 'w) proxy_env \<Rightarrow> proxy_direction \<Rightarrow> nat \<Rightarrow> string \<Rightarrow> src_tree" where
  "proxied_tree P d inst name =
     (let ob = object_of P d inst; (ty, meta) = getTypeNameAndMetaobjectFromClassInfo (meta_chain (pe_host P) ob)
      in tree_of (pe_host P) ob meta name (case ty of None \<Rightarrow> [] | Some t \<Rightarrow> t))"

definition proxied_tree_ok :: "('v, 'w) proxy_env \<Rightarrow> proxy_direction \<Rightarrow> nat \<Rightarrow> string \<Rightarrow> bool" where
  "proxied_tree_ok P d inst name \<longleftrightarrow>
     (case proxied_tree P d inst name of SrcTree a ob ad cs \<Rightarrow> ob = Some (object_of P d inst) \<and> api_name a = name)"

lemma enabled_io:
  assumes "remoteObjectIo hn = Some io" and "name \<noteq> []"
    and "enableRemoting S (proxied_tree P d inst name) io = (ok, io')"
  shows "remoteObjectIo (snd (host_enableRemoting S E (pe_host P) (object_of P d inst) name hn)) = Some io'"
  using assms by (auto simp: host_enableRemoting_def proxied_tree_def shared_name_def Let_def split: prod.split)

lemma disabled_io:
  assumes "remoteObjectIo hn = Some io" and "disableRemoting S (Some ob) io = (True, io')"
  shows "remoteObjectIo (snd (host_disableRemoting S E ob hn)) = Some io'"
  using assms by (simp add: host_disableRemoting_def)

lemma deleting_instances: "d_impls (delete_instance S inst nd) = (d_impls nd)(inst := None)"
proof -
  have "d_impls (with_rep k f nd) = d_impls nd" for k f and nd :: "'a node"
    by (simp add: with_rep_def with_impl_def split: option.split prod.split)
  then show ?thesis by (auto simp: delete_instance_def Let_def split: option.split)
qed

lemma delete_proxied_result:
  "server (pr_direction info) (delete_proxied S info px) = server (pr_direction info) px"
  "proxiedReplicas (delete_proxied S info px) = proxiedReplicas px"
  "d_impls (hn_node (acquirer (pr_direction info) (delete_proxied S info px))) (pr_instance info) = None"
  by (simp_all add: delete_proxied_def deleting_instances Let_def)


subsection \<open>A lost registry\<close>

lemma disabling_keeps_instances: "d_impls (hn_node (snd (host_disableRemoting S E ob hn))) = d_impls (hn_node hn)"
proof -
  have f: "d_impls (hn_node (forward_signal S E io sg h)) = d_impls (hn_node h)" for io sg and h :: "('a, 'b) host_node"
    by (auto simp: forward_signal_def registry_hears_def on_registry_replica_def Let_def
        split: src_signal.split option.split prod.split)
  have "d_impls (hn_node (fold (forward_signal S E io') sgs h)) = d_impls (hn_node h)" for io' sgs and h :: "('a, 'b) host_node"
    by (induction sgs arbitrary: h) (simp_all add: f)
  then show ?thesis
    by (auto simp: host_disableRemoting_def with_io_def host_error_def setLastError_def split: option.split prod.split)
qed

lemma ended_instances:
  "d_impls (hn_node (parentNode (disableAndDeleteObject S P info px))) i =
    (if pr_direction info = Reverse \<and> pr_instance info = i then None else d_impls (hn_node (parentNode px)) i)"
  by (cases "pr_direction info")
     (simp_all add: disableAndDeleteObject_def delete_proxied_def Let_def acquirer_def set_acquirer_def server_def set_server_def
       disabling_keeps_instances deleting_instances)

lemma ended_all:
  "d_impls (hn_node (parentNode (fold (disableAndDeleteObject S P) infos px))) i =
    (if list_ex (\<lambda>info. pr_direction info = Reverse \<and> pr_instance info = i) infos then None
     else d_impls (hn_node (parentNode px)) i)"
  by (induction infos arbitrary: px) (simp_all add: ended_instances)

lemma started_forward:
  "foldE (proxyObject S P Forward) entries px = Inr px' \<Longrightarrow> list_all (\<lambda>e. pr_direction (snd e) = Forward) (proxiedReplicas px) \<Longrightarrow>
    list_all (\<lambda>e. pr_direction (snd e) = Forward) (proxiedReplicas px')"
proof (induction entries arbitrary: px)
  case (Cons entry entries)
  then obtain px1 where p: "proxyObject S P Forward entry px = Inr px1" "foldE (proxyObject S P Forward) entries px1 = Inr px'"
    by (auto simp: bindE_Inr_iff)
  have "list_all (\<lambda>e. pr_direction (snd e) = Forward) (proxiedReplicas px1)"
  proof (cases "lets_through Forward entry px")
    case True
    then obtain info where "pr_direction info = Forward"
        "proxiedReplicas px1 = AList.update (fst entry) info (proxiedReplicas px)"
      using p(1) start_proxy_result by (metis proxyObject_eq)
    moreover have "set (AList.update k v l) \<subseteq> insert (k, v) (set l)" for k :: string and v and l :: "(string \<times> proxy_entry) list"
      by (induction l) auto
    ultimately show ?thesis using Cons.prems(2) by (fastforce simp: list_all_iff)
  qed (use p(1) Cons.prems(2) in \<open>simp add: proxyObject_eq\<close>)
  then show ?case using Cons.IH p(2) by blast
qed simp

text \<open>
  C40: When the registry of the proxied network is lost and comes back, the reverse proxies are gone: their
  replicas are deleted on the parent, although the parent's own registry was never lost, and
  the handler of the registry's return starts proxies of the other direction only.
\<close>

theorem reverse_proxies_lost:
  assumes "set (hash_order P (proxiedReplicas px)) = set (proxiedReplicas px)"
    and "px1 = registry_stateChanged S P Suspect px" and "registry_initialized S P Forward px1 = Inr px2"
  shows "list_all (\<lambda>e. pr_direction (snd e) = Forward) (proxiedReplicas px2) \<and>
    list_all (\<lambda>e. pr_direction (snd e) = Forward \<or> d_impls (hn_node (parentNode px1)) (pr_instance (snd e)) = None)
      (proxiedReplicas px)"
proof -
  have "list_all (\<lambda>e. pr_direction (snd e) = Forward) (proxiedReplicas px2)"
    by (rule started_forward[OF assms(3)[unfolded registry_initialized_def]]) (simp add: assms(2) registry_stateChanged_def)
  moreover have "d_impls (hn_node (parentNode px1)) (pr_instance info) = None"
    if "(n, info) \<in> set (proxiedReplicas px)" "pr_direction info \<noteq> Forward" for n info
  proof -
    have "pr_direction info = Reverse" using that(2) by (cases "pr_direction info") simp_all
    moreover have "info \<in> snd ` set (hash_order P (proxiedReplicas px))" using that(1) assms(1) by force
    ultimately show ?thesis by (auto simp: assms(2) registry_stateChanged_def ended_all list_ex_iff)
  qed
  ultimately show ?thesis by (fastforce simp: list_all_iff)
qed

subsection \<open>A proxy to look at\<close>

text \<open>The station proxies for a network in which somebody shares a lamp.\<close>

definition station_proxy_env :: "(u32, nat) proxy_env" where
  "station_proxy_env = \<lparr>pe_node = station_node_env, pe_host = station_env, pe_local = station_model,
     pe_client_ok = (\<lambda>u. True), object_of = (\<lambda>d i. i + 7), hash_order = id\<rparr>"

definition station_proxy :: "(u32, nat) proxy" where
  "station_proxy = new_proxy (new_host_node new_node) False station True (\<lambda>n t. n = ''lamp'')"

definition lamp_entry :: "string \<times> location" where
  "lamp_entry = (''lamp'', \<lparr>loc_typeName = ''Thermo'', loc_hostUrl = ''tcp:b''\<rparr>)"

lemma station_proxy_fields:
  "remoteObjectIo (server Forward station_proxy) = Some registry_io" "proxiedReplicas station_proxy = []"
  "remoteObjectIo (proxyNode station_proxy) = None" "hn_node (proxyNode station_proxy) = new_node"
  "registrySource (proxyNode station_proxy) = None"
  by (simp_all add: station_proxy_def new_proxy_def server_def station_fields new_host_node_def)

lemma registry_io_inv: "host_inv registry_io"
  unfolding registry_io_def new_sourceio_start by (intro enableRemoting_inv host_start_inv)

lemma station_proxy_starts: "\<exists>px1. proxyObject le_stream station_proxy_env Forward lamp_entry station_proxy = Inr px1"
proof -
  have "proxyObject le_stream station_proxy_env Forward lamp_entry station_proxy =
      start_proxy le_stream station_proxy_env ''lamp'' False Forward station_proxy"
    by (simp add: proxyObject_def lamp_entry_def station_proxy_def new_proxy_def QAIMADAPTER_def Let_def)
  also have "\<exists>px1. start_proxy le_stream station_proxy_env ''lamp'' False Forward station_proxy = Inr px1"
    by (auto simp: start_proxy_def acquirer_def host_acquire_def new_instance_def host_setReplicaImplementation_def
      host_openConnectionIfNeeded_def host_addresses_def station_proxy_fields remoteObjectAddresses_def hasInstance_def
      host_handleNewAcquire_def new_node_def Let_def split: sum.split prod.split)
  finally show ?thesis .
qed


theorem reverse_proxies_lost_witness:
  "\<exists>px2. (let px = station_proxy\<lparr>proxiedReplicas := [(''lamp'', \<lparr>pr_instance = 0, pr_direction = Reverse\<rparr>)]\<rparr>;
       px1 = registry_stateChanged le_stream station_proxy_env Suspect px
     in d_impls (hn_node (parentNode px)) 0 = Some 0 \<and> d_impls (hn_node (parentNode px1)) 0 = None \<and>
       registry_initialized le_stream station_proxy_env Forward px1 = Inr px2 \<and>
       list_all (\<lambda>e. pr_direction (snd e) = Forward) (proxiedReplicas px2))"
proof -
  let ?px = "station_proxy\<lparr>proxiedReplicas := [(''lamp'', \<lparr>pr_instance = 0, pr_direction = Reverse\<rparr>)]\<rparr>"
  let ?px1 = "registry_stateChanged le_stream station_proxy_env Suspect ?px"
  have order: "set (hash_order station_proxy_env (proxiedReplicas ?px)) = set (proxiedReplicas ?px)"
    by (simp add: station_proxy_env_def)
  have none: "remoteObjectIo (proxyNode ?px) = None" "registry (hn_node (proxyNode ?px)) = None" "registrySource (proxyNode ?px) = None"
    by (simp_all add: station_proxy_fields) (simp add: new_node_def)
  then have "host_addresses (pe_node station_proxy_env) (acquirer Forward ?px1) = []"
    by (simp add: registry_stateChanged_def station_proxy_env_def disableAndDeleteObject_def delete_proxied_def Let_def
        acquirer_def server_def set_server_def set_acquirer_def host_disableRemoting_def host_error_def setLastError_def
        host_addresses_def remoteObjectAddresses_def)
  then have run: "registry_initialized le_stream station_proxy_env Forward ?px1 = Inr ?px1"
    by (simp add: registry_initialized_def)
  have "d_impls (hn_node (parentNode ?px)) 0 = Some 0" by (simp add: station_proxy_def new_proxy_def station_def)
  then show ?thesis
    using reverse_proxies_lost[OF order refl run] run by (intro exI[of _ ?px1]) (simp add: Let_def)
qed

end
