(* ===== verification/Spec2Isabelle.thy ===== *)
theory Spec2Isabelle
  imports HostProps WireProps ApiProps CacheProps ReplicaProps DefProps NodeProps RegistryProps HostClient
    AdapterProps ModelReplicaProps ModelFetchProps ModelBugs ModelPrefetch VariantProps ParserSound
    ObjectRuns ProxyProps
begin

text \<open>
  Qt Remote Objects: objects of one process (sources) are used in others through replicas. A host
  writes the state and the signals of its sources to the connections that listen; a node reads them
  into replicas, and sends back calls and property writes. This code is in \<open>src/src/remoteobjects\<close>. The
  compiler \<open>repc\<close> generates source and replica classes from \<open>.rep\<close> files, which the parser in
  \<open>src/src/repparser\<close> reads.

  \<^bold>\<open>The program's parts and the theories that model them.\<close>

  \<^item> \<open>Prelude\<close>: association maps with ordered keys (\<open>QMap\<close>), word lemmas, the collections
    \<open>frame_simps\<close> and \<open>wf_pres\<close>.

  \<^item> \<open>Stream\<close>, \<open>LittleEndian\<close>: the primitives of \<open>QDataStream\<close> as a record \<open>qstream\<close>, whose round-trip
    laws are the locale \<open>qdata_stream\<close>; the only facts assumed of Qt's encoding. \<open>le_stream\<close> is a concrete
    instance, on which every witness runs.

  \<^item> \<open>Packet\<close>, \<open>Codec\<close>, \<open>CodecProps\<close> (\<open>qremoteobjectpacket_p.h\<close>, \<open>qremoteobjectpacket.cpp\<close>): the packet buffer
    with its size field, a writer and a reader per packet type, and \<open>msg\<close>, what a packet says. Each
    writer appends one frame; each reader gives back what was written.

  \<^item> \<open>Receive\<close> (\<open>qconnectionfactories.cpp\<close>): \<open>QtROIoDeviceBase::read\<close> with \<open>m_curReadSize\<close>, and the read
    loop that hosts and clients share, with the handler as a parameter. The locale \<open>packet_handler\<close>
    says what a handler owes the loop; \<open>delivers\<close> follows for every way the bytes are cut.

  \<^item> \<open>ApiMap\<close>, \<open>ApiProps\<close> (\<open>qremoteobjectsource.h\<close>, \<open>qremoteobjectsource_p.h\<close>,
    \<open>qremoteobjectabstractitemmodeladapter_p.h\<close>): the tables of properties, signals and methods of a source,
    as a record \<open>api\<close> of accessors with the contract \<open>source_api\<close> and its extension \<open>notifying_api\<close>, and the
    two implementations that interpret it.

  \<^item> \<open>Source\<close>, \<open>SourceProps\<close>, \<open>SourceIo\<close>, \<open>Host\<close>, \<open>HostProps\<close> (\<open>qremoteobjectsource.cpp\<close>,
    \<open>qremoteobjectsourceio.cpp\<close>): sources, their children and listeners, emissions, and the handling of
    every packet by a host. The record \<open>sourceio\<close> is \<open>QRemoteObjectSourceIo\<close> with the objects it points
    to under numbers; \<open>host_step\<close> is everything that can happen to a host.

  \<^item> \<open>ClassDef\<close>, \<open>DynType\<close>, \<open>DefProps\<close> (\<open>serializeDefinition\<close> in \<open>qremoteobjectpacket.cpp\<close>,
    \<open>QRemoteObjectMetaObjectManager\<close> in \<open>qremoteobjectnode.cpp\<close>): the definition of a class that a host sends
    with a dynamic replica, its gadgets and enums, the types a client makes of it, and their life with
    the connections that use them.

  \<^item> \<open>Replica\<close>, \<open>ReplicaLife\<close>, \<open>ReplicaProps\<close> (\<open>qremoteobjectreplica.cpp\<close>, \<open>qremoteobjectpendingcall.cpp\<close>):
    \<open>QConnectedReplicaImplementation\<close> as a record, its states, values, calls, heartbeat and instances.
    Signals to the application are events in a log. \<open>life_step\<close> is everything that can happen to it.
    The locale \<open>property_store\<close> is the contract of \<open>getProperty\<close> and \<open>setProperty\<close>, for connected and for
    stub replicas.

  \<^item> \<open>Registry\<close>, \<open>RegistryProps\<close> (\<open>qremoteobjectregistrysource.cpp\<close>, \<open>qremoteobjectregistry.cpp\<close>): the table
    of where sources live, and the replica of it that each node has.

  \<^item> \<open>Node\<close>, \<open>NodeRead\<close>, \<open>NodeLife\<close>, \<open>NodeProps\<close> (\<open>qremoteobjectnode.cpp\<close>): the client node. Implementations,
    instances and connections are numbers into the record \<open>node\<close>; a weak pointer is a number that may
    have no entry. \<open>client_handler\<close> is the switch of \<open>onClientRead\<close>, \<open>node_step\<close> everything that can
    happen to a node.

  \<^item> \<open>HostClient\<close>: the client as a \<open>packet_handler\<close>, and host and client together.

  \<^item> \<open>LRUCache\<close>, \<open>CacheProps\<close> (\<open>qremoteobjectabstractitemmodelreplica_p.h\<close>): the row cache of a model replica,
    with its linked list and iterators. \<open>Results\<close>: computations that may fail (\<open>bindE\<close>, \<open>mapE\<close>, \<open>foldE\<close>).

  \<^item> \<open>ModelTypes\<close>, \<open>ModelAdapter\<close>, \<open>AdapterLemmas\<close>, \<open>AdapterProps\<close>
    (\<open>qremoteobjectabstractitemmodeltypes_p.h\<close>, \<open>qremoteobjectabstractitemmodeladapter.cpp\<close>): the source side of
    an item model. The model itself is a parameter, a record of the queries the code makes, with Qt's
    contract of such models as \<open>item_model_ok\<close>. Positions go over the wire as lists of rows and columns.

  \<^item> \<open>ModelReplica\<close>, \<open>ModelHandlers\<close> (\<open>qremoteobjectabstractitemmodelreplica.cpp\<close>, \<open>_p.h\<close>): the replica of an
    item model. Its rows are objects on an explicit heap, which point to each other; every read of a
    freed row, of a null row and outside a list is a value of \<open>replica_fault\<close>. The first theory has the
    calls of a view, the second the handlers of signals and replies and the queued requests.

  \<^item> \<open>CacheOwned\<close>, \<open>TreeHeap\<close>, \<open>TreeOps\<close>, \<open>TreeSafe\<close>, \<open>TreeLookup\<close>, \<open>ModelSafe\<close>, \<open>ModelOps\<close>, \<open>ModelOpsSafe\<close>,
    \<open>ModelEvents\<close>, \<open>ModelReplicaProps\<close>: the invariant of that heap (\<open>tree_inv\<close>: the rows form a tree, each is
    owned by the cache of its parent, and \<open>m_activeParents\<close> holds live rows only), kept by the allocation,
    the destruction and every cache operation, then by every operation of the replica. \<open>ModelFetchProps\<close>
    is about merged requests, \<open>ModelBugs\<close> has runs that go wrong, and \<open>ModelPrefetch\<close> composes the adapter
    and the replica.

  \<^item> \<open>Variants\<close>, \<open>VariantProps\<close> (\<open>qremoteobjectpacket.cpp\<close>, \<open>qremoteobjectcontainers.cpp\<close>):
    \<open>encodeVariant\<close>, \<open>decodeVariant\<close>, the transfer types \<open>QSQ_\<close> and \<open>QAS_\<close> of containers, and the stand-in
    containers of a node that does not know a container's type. Qt's meta types are the record
    \<open>metatypes\<close>. Containers arrive with their entries, a sequence is forwarded unchanged, a map is not.

  \<^item> \<open>ObjectValues\<close>, \<open>ObjectProps\<close>, \<open>ObjectRuns\<close> (\<open>serializeProperty\<close> and \<open>QRO_\<close> in
    \<open>qremoteobjectpacket.cpp\<close>, \<open>resetObject\<close> and \<open>setConnections\<close> in \<open>qremoteobjectsource.cpp\<close>): properties
    that hold objects, and child sources that take up another object. The properties of the user's
    objects are the record \<open>object_model\<close>.

  \<^item> \<open>InProcess\<close>, \<open>LocalProps\<close> (\<open>qremoteobjectreplica.cpp\<close>, \<open>qremoteobjectdynamicreplica.cpp\<close>): the replica of a source of
    the same process, the implementation behind a replica (a stub, connected or in process), and the
    calls of a dynamic replica. The properties of the objects are the record \<open>local_model\<close>.

  \<^item> \<open>HostNode\<close>, \<open>HostNodeProps\<close>, \<open>RegistryHost\<close>, \<open>HostNodeRuns\<close> (\<open>qremoteobjectnode.cpp\<close>, the factories of
    \<open>qconnectionfactories.cpp\<close>): host nodes and registry hosts. The record \<open>host_node\<close> is a node with a
    \<open>sourceio\<close>; the signals of the second are forwarded to the registry. \<open>registry_host_step\<close> is what can
    happen to a registry host between two events of its client side.

  \<^item> \<open>Proxy\<close>, \<open>ProxyProps\<close> (\<open>qremoteobjectnode.cpp\<close>): \<open>proxy\<close> and \<open>reverseProxy\<close> of a host, a pair of host nodes
    that share each other's sources through replicas.

  \<^item> \<open>RegexParser\<close>, \<open>LexerProps\<close>, \<open>ParserProps\<close>, \<open>ParserSound\<close> (\<open>repparser/qregexparser.h\<close>): the lexer with
    its cache of candidates and the table driven parser. Expressions, tables and \<open>consumeRule\<close> are
    parameters; \<open>lr_ok\<close> is an executable check of the tables against the items of their automaton. The
    loops are \<open>partial_function\<close>s: \<open>nextToken\<close> is proved to return.

  \<^bold>\<open>What the lemmas show.\<close> Hosts, replicas and nodes have invariants over all their lives, proved by
  rule induction over \<open>host_step\<close>, \<open>life_step\<close> and \<open>node_step\<close> from one preservation lemma per
  operation. What goes over the wire is followed from the writers through the frames to the handlers:
  a replica holds the values of its source, and a model replica the table of the source's model. The
  cache and the registry refine simple tables. The
  \<open>error\<close> properties state exactly what the code does where it strays from what it means to do.

  \<^bold>\<open>Fuel and bounds.\<close> \<open>recv_loop\<close> gets one unit per byte received, and every turn but the last consumes
  at least four. \<open>registerAll\<close> and \<open>registerGadgets\<close> get the size of the gadget table, which shrinks
  at each call. \<open>setDisconnected\<close> and \<open>handlePointerToQObjectProperty\<close> descend into sub-objects; their
  fuel bounds the depth, and the properties that depend on it hold for every positive fuel.
  \<open>recurseForGadgets\<close> descends along the source tree. \<open>fetch_cells\<close> ends by its budget, \<open>destroy\<close> by the size
  of the heap; \<open>get_entry\<close> has fuel for the height of the tree it reads, \<open>q_prepend\<close> and \<open>column_count_up\<close> for
  as many steps as rows were ever made, which a parent chain cannot exceed. Indices and serial ids are 32-bit words.

  \<^bold>\<open>Parameters.\<close> Qt's values and metaobjects are not in this repository: \<open>QVariant\<close> is a type
  variable, a \<open>QMetaObject\<close> a record of what the code reads of it, and conversions, the metaobject
  builder and the order of hashes are fields of the environment records (\<open>environment\<close>, \<open>client_env\<close>,
  \<open>node_env\<close>, \<open>reg_env\<close>). The user's objects are an opaque \<open>world\<close>.

  \<^bold>\<open>Not modelled.\<close> User code that runs inside a signal or a setter of a replica, and threads. Rows and
  columns of models are unbounded integers. The back ends for local, TCP and
  QNX sockets and the QML module are I/O and glue; the code generator of \<open>repc\<close> only writes text.
\<close>

end
